(* ===== verification/Cpp_Prelude.thy ===== *)
theory Cpp_Prelude
  imports Main "HOL-Library.Word"
begin

text \<open>
  The C++ vocabulary every component theory shares.

  \<^item> Failure: the macro \<open>FATAL_ERROR\<close> of \<open>framework/utility/error.h\<close> prints a message and
    throws \<open>std::exception\<close>; it is the value \<open>Inl (Fatal message)\<close> of the type \<open>'a result\<close>.
    A call of the standard library that throws another exception, and an operation the
    language leaves undefined, are errors of their own.
  \<^item> Integers: \<open>wrap_i64\<close>, \<open>wrap_i32\<close>, \<open>wrap_u32\<close> and \<open>wrap_u64\<close> are the conversions of the
    language between integer types; the values themselves are kept as \<open>int\<close> or \<open>nat\<close>.
  \<^item> Strings: \<open>string\<close> is a list of 8-bit characters. \<open>std::string::find\<close> and its kin return
    \<open>None\<close> where the library returns \<open>npos\<close>.
  \<^item> The functions of the standard library that the sources call: \<open>isspace\<close>, \<open>tolower\<close>,
    \<open>std::to_string\<close>, \<open>std::atoi\<close>, \<open>std::atol\<close>, \<open>std::stoul\<close>.

  The collections \<open>result_simps\<close> and \<open>strings\<close> gather the rewriting rules that the component
  theories hand to the simplifier.
\<close>

named_theorems result_simps
named_theorems strings

section \<open>Failure as a value\<close>

datatype cpp_error =
    Fatal string
  | Invalid_argument
  | Out_of_range
  | Undefined_behaviour string

type_synonym 'a result = "cpp_error + 'a"

abbreviation Ok :: "'a \<Rightarrow> 'a result" where
  "Ok x \<equiv> Inr x"

abbreviation FATAL_ERROR :: "string \<Rightarrow> 'a result" where
  "FATAL_ERROR msg \<equiv> Inl (Fatal msg)"

definition bindR :: "'a result \<Rightarrow> ('a \<Rightarrow> 'b result) \<Rightarrow> 'b result" where
  "bindR m f = (case m of Inl e \<Rightarrow> Inl e | Inr x \<Rightarrow> f x)"

definition FATAL_ERROR_IF :: "bool \<Rightarrow> string \<Rightarrow> 'a result \<Rightarrow> 'a result" where
  "FATAL_ERROR_IF condition msg k = (if condition then FATAL_ERROR msg else k)"

definition is_ok :: "'a result \<Rightarrow> bool" where
  "is_ok r = (case r of Inl _ \<Rightarrow> False | Inr _ \<Rightarrow> True)"

fun mapM :: "('a \<Rightarrow> 'b result) \<Rightarrow> 'a list \<Rightarrow> 'b list result" where
  "mapM f [] = Ok []"
| "mapM f (x # xs) = bindR (f x) (\<lambda>y. bindR (mapM f xs) (\<lambda>ys. Ok (y # ys)))"

fun foldM :: "('s \<Rightarrow> 'a \<Rightarrow> 's result) \<Rightarrow> 's \<Rightarrow> 'a list \<Rightarrow> 's result" where
  "foldM f s [] = Ok s"
| "foldM f s (x # xs) = bindR (f s x) (\<lambda>s'. foldM f s' xs)"

section \<open>Integer conversions\<close>

definition in_i32 :: "int \<Rightarrow> bool" where
  "in_i32 v \<longleftrightarrow> - (2 ^ 31) \<le> v \<and> v < 2 ^ 31"

definition in_i64 :: "int \<Rightarrow> bool" where
  "in_i64 v \<longleftrightarrow> - (2 ^ 63) \<le> v \<and> v < 2 ^ 63"

definition wrap_u32 :: "int \<Rightarrow> int" where
  "wrap_u32 v = v mod 2 ^ 32"

definition wrap_u64 :: "int \<Rightarrow> int" where
  "wrap_u64 v = v mod 2 ^ 64"

definition wrap_i64 :: "int \<Rightarrow> int" where
  "wrap_i64 v = (v + 2 ^ 63) mod 2 ^ 64 - 2 ^ 63"

definition wrap_i32 :: "int \<Rightarrow> int" where
  "wrap_i32 v = (v + 2 ^ 31) mod 2 ^ 32 - 2 ^ 31"

section \<open>Characters and searching\<close>

definition isspace :: "char \<Rightarrow> bool" where
  "isspace c \<longleftrightarrow> (of_char c :: nat) = 32 \<or> (9 \<le> (of_char c :: nat) \<and> (of_char c :: nat) \<le> 13)"

definition isdigit :: "char \<Rightarrow> bool" where
  "isdigit c \<longleftrightarrow> 48 \<le> (of_char c :: nat) \<and> (of_char c :: nat) \<le> 57"

definition tolower :: "char \<Rightarrow> char" where
  "tolower c = (if 65 \<le> (of_char c :: nat) \<and> (of_char c :: nat) \<le> 90
                then char_of ((of_char c :: nat) + 32) else c)"

fun starts_with :: "string \<Rightarrow> string \<Rightarrow> bool" where
  "starts_with s [] = True"
| "starts_with [] (p # ps) = False"
| "starts_with (c # s) (p # ps) = (c = p \<and> starts_with s ps)"

text \<open>\<open>s.find(p)\<close> from the beginning, then from a start position.\<close>

fun find_str :: "string \<Rightarrow> string \<Rightarrow> nat option" where
  "find_str [] p = (if p = [] then Some 0 else None)"
| "find_str (c # s) p = (if starts_with (c # s) p then Some 0 else map_option Suc (find_str s p))"

definition find_from :: "string \<Rightarrow> string \<Rightarrow> nat \<Rightarrow> nat option" where
  "find_from s p pos = (if pos \<le> length s then map_option ((+) pos) (find_str (drop pos s) p) else None)"

text \<open>\<open>s.rfind(p)\<close>: the last position where \<open>p\<close> occurs.\<close>

fun rfind_str :: "string \<Rightarrow> string \<Rightarrow> nat option" where
  "rfind_str [] p = (if p = [] then Some 0 else None)"
| "rfind_str (c # s) p =
     (case rfind_str s p of
        Some i \<Rightarrow> Some (Suc i)
      | None \<Rightarrow> if starts_with (c # s) p then Some 0 else None)"

text \<open>\<open>npos + 1\<close> is 0 in the unsigned arithmetic of \<open>size_t\<close>.\<close>

definition npos_succ :: "nat option \<Rightarrow> nat" where
  "npos_succ p = (case p of None \<Rightarrow> 0 | Some i \<Rightarrow> Suc i)"

definition substr :: "string \<Rightarrow> nat \<Rightarrow> nat \<Rightarrow> string" where
  "substr s pos n = take n (drop pos s)"

section \<open>Decimal numbers\<close>

definition digit_char :: "nat \<Rightarrow> char" where
  "digit_char d = char_of (48 + d)"

definition digit_val :: "char \<Rightarrow> nat" where
  "digit_val c = (of_char c :: nat) - 48"

fun dec_digits :: "nat \<Rightarrow> string" where
  "dec_digits n = (if n < 10 then [digit_char n] else dec_digits (n div 10) @ [digit_char (n mod 10)])"

declare dec_digits.simps [simp del]

text \<open>\<open>std::to_string\<close> on integers.\<close>

definition to_string :: "int \<Rightarrow> string" where
  "to_string v = (if v < 0 then CHR ''-'' # dec_digits (nat (- v)) else dec_digits (nat v))"

fun parse_digits :: "nat \<Rightarrow> string \<Rightarrow> nat" where
  "parse_digits acc [] = acc"
| "parse_digits acc (c # cs) = (if isdigit c then parse_digits (acc * 10 + digit_val c) cs else acc)"

text \<open>
  The mathematical value of the longest decimal prefix, as \<open>strtol\<close> reads it: leading white
  space, an optional sign, digits. \<open>std::atoi\<close>, \<open>std::atol\<close> and \<open>std::atoll\<close> return it when it
  is in the range of their type; the C standard leaves the other case undefined.
\<close>

definition strtol_val :: "string \<Rightarrow> int" where
  "strtol_val s =
     (case dropWhile isspace s of
        [] \<Rightarrow> 0
      | c # cs \<Rightarrow>
          if c = CHR ''-'' then - int (parse_digits 0 cs)
          else if c = CHR ''+'' then int (parse_digits 0 cs)
          else int (parse_digits 0 (c # cs)))"

definition atoi :: "string \<Rightarrow> int result" where
  "atoi s = (if in_i32 (strtol_val s) then Ok (strtol_val s) else Inl (Undefined_behaviour ''atoi''))"

definition atol :: "string \<Rightarrow> int result" where
  "atol s = (if in_i64 (strtol_val s) then Ok (strtol_val s) else Inl (Undefined_behaviour ''atol''))"

section \<open>Lemmas on results\<close>

lemma bindR_simps [simp, result_simps]:
  "bindR (Inl e) f = Inl e" "bindR (Inr x) f = f x"
  by (simp_all add: bindR_def)

lemma bindR_eq_Inr [result_simps]: "bindR m f = Inr y \<longleftrightarrow> (\<exists>x. m = Inr x \<and> f x = Inr y)"
  by (cases m) auto

lemma bindR_eq_Inl [result_simps]: "bindR m f = Inl e \<longleftrightarrow> m = Inl e \<or> (\<exists>x. m = Inr x \<and> f x = Inl e)"
  by (cases m) auto

lemma bindR_assoc: "bindR (bindR m f) g = bindR m (\<lambda>x. bindR (f x) g)"
  by (cases m) auto

lemma is_ok_simps [simp, result_simps]: "is_ok (Inl e) = False" "is_ok (Inr x) = True"
  by (simp_all add: is_ok_def)

lemma is_ok_iff: "is_ok r \<longleftrightarrow> (\<exists>x. r = Inr x)"
  by (cases r) auto

lemma FATAL_ERROR_IF_simps [simp, result_simps]:
  "FATAL_ERROR_IF True m k = FATAL_ERROR m" "FATAL_ERROR_IF False m k = k"
  by (simp_all add: FATAL_ERROR_IF_def)

lemma FATAL_ERROR_IF_eq_Inr [result_simps]: "FATAL_ERROR_IF c m k = Inr y \<longleftrightarrow> \<not> c \<and> k = Inr y"
  by (simp add: FATAL_ERROR_IF_def)

lemma mapM_eq_Inr: "mapM f xs = Inr ys \<longleftrightarrow> list_all2 (\<lambda>x y. f x = Inr y) xs ys"
  by (induction xs arbitrary: ys) (auto simp: bindR_eq_Inr list_all2_Cons1)

lemma mapM_length: "mapM f xs = Inr ys \<Longrightarrow> length ys = length xs"
  by (auto simp: mapM_eq_Inr dest: list_all2_lengthD)

lemma mapM_Inr [simp]: "mapM (\<lambda>x. Inr (f x)) xs = Inr (map f xs)"
  by (induction xs) auto

lemma mapM_all_Inr: "(\<And>x. x \<in> set xs \<Longrightarrow> f x = Inr (g x)) \<Longrightarrow> mapM f xs = Inr (map g xs)"
  by (induction xs) auto

lemma mapM_bindR_eq_Inr:
  "mapM (\<lambda>x. bindR (f x) g) xs = Inr zs \<longleftrightarrow> (\<exists>ys. mapM f xs = Inr ys \<and> mapM g ys = Inr zs)"
proof -
  have "(\<lambda>x z. bindR (f x) g = Inr z) = (\<lambda>x y. f x = Inr y) OO (\<lambda>y z. g y = Inr z)"
    by (auto simp: fun_eq_iff relcompp_apply bindR_eq_Inr)
  then show ?thesis by (simp add: mapM_eq_Inr list.rel_compp relcompp_apply)
qed

lemma mapM_append: "mapM f (xs @ ys) = bindR (mapM f xs) (\<lambda>us. bindR (mapM f ys) (\<lambda>vs. Ok (us @ vs)))"
  by (induction xs) (auto simp: bindR_def split: sum.splits)

lemma foldM_append: "foldM f s (xs @ ys) = bindR (foldM f s xs) (\<lambda>s'. foldM f s' ys)"
  by (induction xs arbitrary: s) (auto simp: bindR_def split: sum.splits)

text \<open>An invariant every step keeps holds after the whole loop.\<close>

lemma foldM_invariant:
  assumes "foldM f s xs = Inr s'" and "P s"
    and "\<And>s x s'. x \<in> set xs \<Longrightarrow> P s \<Longrightarrow> f s x = Inr s' \<Longrightarrow> P s'"
  shows "P s'"
  using assms
proof (induction xs arbitrary: s)
  case (Cons x xs)
  from Cons.prems(1) obtain t where "f s x = Inr t" and "foldM f t xs = Inr s'"
    by (auto simp: bindR_eq_Inr)
  then show ?case using Cons.IH [of t] Cons.prems(2,3) by (metis list.set_intros)
qed simp

section \<open>Lemmas on strings\<close>

lemma of_char_less_256 [simp]: "(of_char c :: nat) < 256"
  by simp

lemma starts_with_iff: "starts_with s p \<longleftrightarrow> take (length p) s = p"
  by (induction s p rule: starts_with.induct) auto

lemma starts_with_append [simp, strings]: "starts_with (p @ s) p"
  by (simp add: starts_with_iff)

lemma starts_withD: "starts_with s p \<Longrightarrow> s = p @ drop (length p) s"
  by (metis append_take_drop_id starts_with_iff)

lemma starts_with_singleton [simp, strings]: "starts_with s [c] \<longleftrightarrow> (\<exists>t. s = c # t)"
  by (cases s) auto

lemma find_str_eq_0 [simp, strings]: "find_str s p = Some 0 \<longleftrightarrow> starts_with s p"
  by (cases s; cases p) auto

lemma find_str_char_None [strings]: "find_str s [c] = None \<longleftrightarrow> c \<notin> set s"
  by (induction s) auto

lemma find_str_char_append [strings]: "c \<notin> set s \<Longrightarrow> find_str (s @ c # t) [c] = Some (length s)"
  by (induction s) auto

lemma find_str_char_Some:
  "find_str s [c] = Some i \<Longrightarrow> i < length s \<and> s ! i = c \<and> c \<notin> set (take i s)"
proof (induction s arbitrary: i)
  case (Cons a s)
  then show ?case by (cases i) (auto split: if_splits)
qed simp

lemma rfind_str_sound: "rfind_str s p = Some i \<Longrightarrow> i \<le> length s \<and> starts_with (drop i s) p"
proof (induction s arbitrary: i)
  case (Cons a s)
  then show ?case by (cases i) (auto split: option.splits if_splits)
qed (auto split: if_splits)

lemma rfind_str_append [strings]: "rfind_str (s @ p) p = Some (length s)"
proof (induction s)
  case Nil
  show ?case
  proof (cases p)
    case (Cons c p')
    have "rfind_str p' p = None"
    proof (rule ccontr)
      assume "rfind_str p' p \<noteq> None"
      then obtain i where "starts_with (drop i p') p" by (auto dest: rfind_str_sound)
      then have "length p \<le> length (drop i p')" by (metis starts_with_iff length_take min.absorb_iff2 min.commute)
      then show False using Cons by simp
    qed
    then show ?thesis using Cons by (simp add: starts_with_iff)
  qed simp
qed simp

lemma rfind_str_suffix_iff:
  "length p \<le> length s \<Longrightarrow> rfind_str s p = Some (length s - length p) \<longleftrightarrow> (\<exists>t. s = t @ p)"
proof
  assume "length p \<le> length s" and "rfind_str s p = Some (length s - length p)"
  then have "take (length p) (drop (length s - length p) s) = p"
    by (auto dest!: rfind_str_sound simp: starts_with_iff)
  with \<open>length p \<le> length s\<close> have "drop (length s - length p) s = p" by simp
  then show "\<exists>t. s = t @ p" by (metis append_take_drop_id)
next
  assume "\<exists>t. s = t @ p"
  then show "rfind_str s p = Some (length s - length p)" by (auto simp: rfind_str_append)
qed

text \<open>Equations on the bits of a character, with which evaluation is fast.\<close>

lemma tolower_code [code]:
  "tolower (Char b0 b1 b2 b3 b4 b5 b6 b7) =
     (if \<not> b7 \<and> b6 \<and> \<not> b5 \<and> (b0 \<or> b1 \<or> b2 \<or> b3 \<or> b4) \<and> \<not> (b4 \<and> b3 \<and> (b2 \<or> (b1 \<and> b0)))
      then Char b0 b1 b2 b3 b4 True b6 b7 else Char b0 b1 b2 b3 b4 b5 b6 b7)"
  by (cases b0; cases b1; cases b2; cases b3; cases b4; cases b5; cases b6; cases b7)
    (simp_all add: tolower_def char_of_def bit_0)

lemma isspace_code [code]:
  "isspace (Char b0 b1 b2 b3 b4 b5 b6 b7) \<longleftrightarrow>
     \<not> b7 \<and> \<not> b6 \<and> \<not> b4 \<and> (if b5 then \<not> (b0 \<or> b1 \<or> b2 \<or> b3) else b3 \<and> (b0 \<or> b1 \<or> b2) \<and> \<not> (b1 \<and> b2))"
  by (cases b0; cases b1; cases b2; cases b3; cases b4; cases b5; cases b6; cases b7)
    (simp_all add: isspace_def)

section \<open>Lemmas on decimal numbers\<close>

lemma digit_char_props [simp]:
  assumes "d < 10"
  shows "isdigit (digit_char d)" "digit_val (digit_char d) = d" "\<not> isspace (digit_char d)"
  using assms by (simp_all add: isdigit_def isspace_def digit_char_def digit_val_def)

lemma isdigit_not_sign [simp]: "isdigit c \<Longrightarrow> c \<noteq> CHR ''-''" "isdigit c \<Longrightarrow> c \<noteq> CHR ''+''"
  by (auto simp: isdigit_def)

lemma isdigit_not_space: "isdigit c \<Longrightarrow> \<not> isspace c"
  by (auto simp: isdigit_def isspace_def)

lemma dec_digits_isdigit: "c \<in> set (dec_digits n) \<Longrightarrow> isdigit c"
proof (induction n rule: dec_digits.induct)
  case (1 n)
  then show ?case by (subst (asm) (2) dec_digits.simps) (auto split: if_splits)
qed

lemma dec_digits_not_Nil [simp]: "dec_digits n \<noteq> []"
  by (subst dec_digits.simps) simp

lemma parse_digits_dec_digits:
  "\<exists>k. \<forall>a. parse_digits a (dec_digits n @ t) = parse_digits (a * k + n) t"
proof (induction n arbitrary: t rule: dec_digits.induct)
  case (1 n)
  show ?case
  proof (cases "n < 10")
    case True
    then show ?thesis by (intro exI [of _ 10]) (simp add: dec_digits.simps [of n])
  next
    case False
    with "1.IH" obtain k where
      k: "\<forall>a. parse_digits a (dec_digits (n div 10) @ digit_char (n mod 10) # t)
            = parse_digits (a * k + n div 10) (digit_char (n mod 10) # t)" by blast
    have "parse_digits a (dec_digits n @ t) = parse_digits (a * (k * 10) + n) t" for a
      using False k by (simp add: dec_digits.simps [of n] algebra_simps)
    then show ?thesis by blast
  qed
qed

lemma parse_digits_dec_digits_0 [strings]: "parse_digits 0 (dec_digits n @ t) = parse_digits n t"
  using parse_digits_dec_digits [of n t] by auto

lemma parse_digits_nondigit [strings]: "t = [] \<or> \<not> isdigit (hd t) \<Longrightarrow> parse_digits n t = n"
  by (cases t) auto

lemma dec_digits_Cons: obtains c cs where "dec_digits n = c # cs" "isdigit c"
  by (metis dec_digits_isdigit dec_digits_not_Nil list.exhaust list.set_intros(1))

text \<open>Reading back a printed number, whatever non-digit follows it.\<close>

lemma strtol_val_to_string:
  assumes "t = [] \<or> \<not> isdigit (hd t)"
  shows "strtol_val (to_string v @ t) = v"
proof (cases "v < 0")
  case True
  then show ?thesis
    using assms by (simp add: strtol_val_def to_string_def strings) (simp add: isspace_def)
next
  case False
  obtain c cs where c: "dec_digits (nat v) = c # cs" "isdigit c" by (rule dec_digits_Cons)
  have "parse_digits 0 (dec_digits (nat v) @ t) = nat v"
    using assms by (simp add: strings)
  with False c show ?thesis
    by (simp add: strtol_val_def to_string_def isdigit_not_space)
qed

lemma strtol_val_to_string_0 [simp, strings]: "strtol_val (to_string v) = v"
  using strtol_val_to_string [of "[]" v] by simp

lemma atol_to_string [simp, strings]: "in_i64 v \<Longrightarrow> atol (to_string v) = Ok v"
  by (simp add: atol_def)

lemma atoi_to_string [simp, strings]: "in_i32 v \<Longrightarrow> atoi (to_string v) = Ok v"
  by (simp add: atoi_def)

lemma to_string_chars: "c \<in> set (to_string v) \<Longrightarrow> isdigit c \<or> c = CHR ''-''"
  by (auto simp: to_string_def dest: dec_digits_isdigit split: if_splits)

lemma to_string_not_space: "c \<in> set (to_string v) \<Longrightarrow> \<not> isspace c"
  by (auto dest!: to_string_chars isdigit_not_space simp: isspace_def)

lemma to_string_not_Nil [simp]: "to_string v \<noteq> []"
  by (simp add: to_string_def)

lemma to_string_inject [simp]: "to_string v = to_string w \<longleftrightarrow> v = w"
  by (metis strtol_val_to_string_0)

section \<open>Lemmas on conversions\<close>

lemma wrap_i64_id [simp]: "in_i64 v \<Longrightarrow> wrap_i64 v = v"
  by (simp add: in_i64_def wrap_i64_def)

lemma in_i64_wrap [simp]: "in_i64 (wrap_i64 v)"
  by (simp add: in_i64_def wrap_i64_def)

lemma wrap_i64_u64 [simp]: "wrap_i64 (wrap_u64 v) = wrap_i64 v"
  by (simp add: wrap_i64_def wrap_u64_def mod_simps)

lemma wrap_i32_id [simp]: "in_i32 v \<Longrightarrow> wrap_i32 v = v"
  by (simp add: in_i32_def wrap_i32_def)

lemma wrap_i32_range [simp]: "in_i32 (wrap_i32 v)"
  by (simp add: in_i32_def wrap_i32_def)

lemma in_i32_in_i64: "in_i32 v \<Longrightarrow> in_i64 v"
  by (simp add: in_i32_def in_i64_def)

lemma wrap_u32_range: "0 \<le> wrap_u32 v \<and> wrap_u32 v < 2 ^ 32"
  by (simp add: wrap_u32_def)

lemma wrap_u32_wrap_i32 [simp]: "wrap_u32 (wrap_i32 v) = wrap_u32 v"
  by (simp add: wrap_u32_def wrap_i32_def mod_simps)

end
