(* ===== verification/Enums.thy ===== *)
theory Enums
  imports Cpp_Prelude
begin

text \<open>
  The enumerations under \<open>framework/enum/\<close> and the functions that live beside them:
  \<open>api.h\<close>, \<open>data_type.h\<close>, \<open>engine.h\<close>, \<open>math_operation.h\<close>, \<open>measurement_unit.h\<close> and the rest.
  Each \<open>enum class\<close> is a datatype with the source's enumerators in the source's order;
  \<open>Api_code\<close> and \<open>Engine_code\<close> are the casts to an integer that the code computes with.
\<close>

section \<open>api.h\<close>

datatype Api = Api_Unknown | OpenCL | L0 | SYCL | OMP | UR | Api_COUNT | Api_All

primrec Api_code :: "Api \<Rightarrow> nat" where
  "Api_code Api_Unknown = 0"
| "Api_code OpenCL = 1"
| "Api_code L0 = 2"
| "Api_code SYCL = 3"
| "Api_code OMP = 4"
| "Api_code UR = 5"
| "Api_code Api_COUNT = 6"
| "Api_code Api_All = 65535"

abbreviation Api_FIRST :: Api where "Api_FIRST \<equiv> OpenCL"
abbreviation Api_LAST :: Api where "Api_LAST \<equiv> UR"

text \<open>The loops over \<open>FIRST\<close> to \<open>LAST\<close> cast every integer in between back to an \<open>Api\<close>.\<close>

definition Api_of_code :: "nat \<Rightarrow> Api" where
  "Api_of_code n =
     (if n = 1 then OpenCL else if n = 2 then L0 else if n = 3 then SYCL else if n = 4 then OMP
      else if n = 5 then UR else if n = 6 then Api_COUNT else if n = 65535 then Api_All else Api_Unknown)"

definition apis_first_to_last :: "Api list" where
  "apis_first_to_last = map Api_of_code [Api_code Api_FIRST ..< Suc (Api_code Api_LAST)]"

fun Api_to_string :: "Api \<Rightarrow> string result" where
  "Api_to_string OpenCL = Ok ''ocl''"
| "Api_to_string L0 = Ok ''l0''"
| "Api_to_string SYCL = Ok ''sycl''"
| "Api_to_string OMP = Ok ''omp''"
| "Api_to_string UR = Ok ''ur''"
| "Api_to_string _ = FATAL_ERROR ''Unknown API''"

fun getUserFriendlyApiName :: "Api \<Rightarrow> string result" where
  "getUserFriendlyApiName OpenCL = Ok ''OpenCL''"
| "getUserFriendlyApiName L0 = Ok ''LevelZero''"
| "getUserFriendlyApiName SYCL = Ok ''SYCL''"
| "getUserFriendlyApiName OMP = Ok ''OpenMP''"
| "getUserFriendlyApiName UR = Ok ''UnifiedRuntime''"
| "getUserFriendlyApiName _ = FATAL_ERROR ''Unknown API''"

definition parseApi :: "string \<Rightarrow> Api" where
  "parseApi v =
     (if v = ''ocl'' then OpenCL
      else if v = ''l0'' then L0
      else if v = ''all'' then Api_All
      else if v = ''sycl'' then SYCL
      else if v = ''omp'' then OMP
      else if v = ''ur'' then UR
      else Api_Unknown)"

fun validateApi :: "Api \<Rightarrow> bool" where
  "validateApi OpenCL = True"
| "validateApi L0 = True"
| "validateApi SYCL = True"
| "validateApi OMP = True"
| "validateApi UR = True"
| "validateApi _ = False"

section \<open>Enumerations without helpers\<close>

datatype AllocationMeasureMode = AMM_Unknown | AMM_Allocate | AMM_Free | AMM_Both

datatype BufferContents = BC_Unknown | BC_Zeros | BC_Random | BC_IncreasingBytes

datatype EventScope = ES_Unknown | ES_scopeSubDevice | ES_scopeDevice | ES_scopeHost | ES_none

datatype HostptrReuseMode = HRM_Unknown | HRM_None | HRM_Usm | HRM_Map

datatype ImageType = IT_Unknown | Image1D | Image2D | Image3D | Image1D_Array | Image2D_Array | Image_Buffer

datatype MapFlags = MF_Unknown | MF_Read | MF_Write | MF_WriteInvalidate

datatype MathOperation =
    MO_Unknown | MO_Add | MO_Sub | MO_Xchg | MO_CmpXchg | MO_Inc | MO_Dec | MO_Min | MO_Max
  | MO_And | MO_Or | MO_Xor | MO_Div | MO_Modulo

datatype MpiTestType =
    MTT_Unknown | MTT_Startup | MTT_Bandwidth | MTT_Latency | MTT_Overlap | MTT_Broadcast
  | MTT_Reduce | MTT_AllReduce | MTT_AllToAll

datatype MpiStatisticsType = MST_Unknown | MST_Avg | MST_Max | MST_Min

datatype StreamMemoryType = SMT_Unknown | SMT_Read | SMT_Write | SMT_Scale | SMT_Triad

datatype StreamMemoryEmbargoType =
  SMET_Unknown | SMET_Stream_3BytesRGBtoY | SMET_Stream_3BytesAlignedRGBtoY

datatype UsmInitialPlacement = UIP_Unknown | UIP_Any | UIP_Host | UIP_Device

datatype UsmMemAdvisePreferredLocation = UMAPL_Unknown | UMAPL_System | UMAPL_Device | UMAPL_None

datatype UsmRuntimeMemoryPlacement = URMP_Unknown | URMP_Host | URMP_Device | URMP_Shared

datatype WorkItemIdUsage = WIU_Unknown | WIU_None | WIU_Global | WIU_Local | WIU_AtomicPerWorkgroup

section \<open>atomic\_memory\_order.h, atomic\_scope.h\<close>

datatype AtomicMemoryOrder = AMO_Unknown | Relaxed | Acquire | Release | AcquireRelease | SequentialConsitent

definition AtomicMemoryOrder_allValues :: "AtomicMemoryOrder list" where
  "AtomicMemoryOrder_allValues = [Relaxed, Acquire, Release, AcquireRelease, SequentialConsitent]"

fun AtomicMemoryOrder_toOpenclC :: "AtomicMemoryOrder \<Rightarrow> string result" where
  "AtomicMemoryOrder_toOpenclC Relaxed = Ok ''memory_order_relaxed''"
| "AtomicMemoryOrder_toOpenclC Acquire = Ok ''memory_order_acquire''"
| "AtomicMemoryOrder_toOpenclC Release = Ok ''memory_order_release''"
| "AtomicMemoryOrder_toOpenclC AcquireRelease = Ok ''memory_order_acq_rel''"
| "AtomicMemoryOrder_toOpenclC SequentialConsitent = Ok ''memory_order_seq_cst''"
| "AtomicMemoryOrder_toOpenclC AMO_Unknown = FATAL_ERROR ''Unknown memory order''"

datatype AtomicScope = AS_Unknown | Workgroup | AS_Device

definition AtomicScope_allValues :: "AtomicScope list" where
  "AtomicScope_allValues = [Workgroup, AS_Device]"

fun AtomicScope_toOpenclC :: "AtomicScope \<Rightarrow> string result" where
  "AtomicScope_toOpenclC Workgroup = Ok ''memory_scope_work_group''"
| "AtomicScope_toOpenclC AS_Device = Ok ''memory_scope_device''"
| "AtomicScope_toOpenclC AS_Unknown = FATAL_ERROR ''Unknown memory scope''"

section \<open>data\_type.h\<close>

datatype DataType = DT_Unknown | Int32 | Int64 | Float

fun DataType_getSize :: "DataType \<Rightarrow> nat result" where
  "DataType_getSize Int32 = Ok 4"
| "DataType_getSize Int64 = Ok 8"
| "DataType_getSize Float = Ok 4"
| "DataType_getSize DT_Unknown = FATAL_ERROR ''Unkown data type''"

fun DataType_toOpenclC :: "DataType \<Rightarrow> string result" where
  "DataType_toOpenclC Float = Ok ''float''"
| "DataType_toOpenclC Int32 = Ok ''int''"
| "DataType_toOpenclC Int64 = Ok ''long''"
| "DataType_toOpenclC DT_Unknown = FATAL_ERROR ''Unknown data type''"

fun DataType_toExplicitAtomicOpenclC :: "DataType \<Rightarrow> string result" where
  "DataType_toExplicitAtomicOpenclC Float = Ok ''atomic_float''"
| "DataType_toExplicitAtomicOpenclC Int32 = Ok ''atomic_int''"
| "DataType_toExplicitAtomicOpenclC Int64 = Ok ''atomic_long''"
| "DataType_toExplicitAtomicOpenclC DT_Unknown = FATAL_ERROR ''Unknown data type''"

section \<open>engine.h\<close>

datatype Engine =
    Engine_Unknown | Rcs | Ccs0 | Ccs1 | Ccs2 | Ccs3
  | Bcs | Bcs1 | Bcs2 | Bcs3 | Bcs4 | Bcs5 | Bcs6 | Bcs7 | Bcs8

datatype EngineGroup = EG_Unknown | EG_RenderCompute | EG_Compute | EG_Copy | EG_LinkCopy

definition Engine_values :: "Engine list" where
  "Engine_values = [Engine_Unknown, Rcs, Ccs0, Ccs1, Ccs2, Ccs3,
     Bcs, Bcs1, Bcs2, Bcs3, Bcs4, Bcs5, Bcs6, Bcs7, Bcs8]"

primrec Engine_code :: "Engine \<Rightarrow> nat" where
  "Engine_code Engine_Unknown = 0"
| "Engine_code Rcs = 1"
| "Engine_code Ccs0 = 2"
| "Engine_code Ccs1 = 3"
| "Engine_code Ccs2 = 4"
| "Engine_code Ccs3 = 5"
| "Engine_code Bcs = 6"
| "Engine_code Bcs1 = 7"
| "Engine_code Bcs2 = 8"
| "Engine_code Bcs3 = 9"
| "Engine_code Bcs4 = 10"
| "Engine_code Bcs5 = 11"
| "Engine_code Bcs6 = 12"
| "Engine_code Bcs7 = 13"
| "Engine_code Bcs8 = 14"

definition parseEngineGroup :: "string \<Rightarrow> EngineGroup" where
  "parseEngineGroup name =
     (if name = ''rcs'' \<or> name = ''cccs'' then EG_RenderCompute
      else if name = ''ccs'' then EG_Compute
      else if name = ''bcs'' then EG_Copy
      else if name = ''linked bcs'' then EG_LinkCopy
      else EG_Unknown)"

definition is_compute_engine :: "Engine \<Rightarrow> bool" where
  "is_compute_engine e \<longleftrightarrow> e \<in> {Ccs0, Ccs1, Ccs2, Ccs3}"

definition is_copy_engine :: "Engine \<Rightarrow> bool" where
  "is_copy_engine e \<longleftrightarrow> e \<in> {Bcs, Bcs1, Bcs2, Bcs3, Bcs4, Bcs5, Bcs6, Bcs7, Bcs8}"

definition getEngineGroup :: "Engine \<Rightarrow> nat \<Rightarrow> EngineGroup result" where
  "getEngineGroup engine copyEnginesCount =
     (if engine = Rcs then Ok EG_RenderCompute
      else if is_compute_engine engine then Ok EG_Compute
      else if is_copy_engine engine then
        (let copyEngineIndex = Engine_code engine - Engine_code Bcs
         in if copyEngineIndex \<ge> copyEnginesCount then Ok EG_LinkCopy else Ok EG_Copy)
      else FATAL_ERROR ''Unknown engine'')"

definition getEngineIndexWithinGroup :: "Engine \<Rightarrow> nat \<Rightarrow> nat result" where
  "getEngineIndexWithinGroup engine copyEnginesCount =
     (if engine = Rcs then Ok 0
      else if is_compute_engine engine then Ok (Engine_code engine - Engine_code Ccs0)
      else if is_copy_engine engine then
        (let engineIndex = Engine_code engine - Engine_code Bcs
         in if engineIndex \<ge> copyEnginesCount then Ok (engineIndex - copyEnginesCount)
            else Ok engineIndex)
      else FATAL_ERROR ''Unknown engine'')"

text \<open>The cast \<open>static_cast<Engine>\<close> of an integer in the range of the enumeration.\<close>

definition Engine_of_code :: "nat \<Rightarrow> Engine" where
  "Engine_of_code n = (if n < length Engine_values then Engine_values ! n else Engine_Unknown)"

definition getBlitterEngineFromIndex :: "nat \<Rightarrow> Engine result" where
  "getBlitterEngineFromIndex index =
     (if index = 0 then Ok Bcs
      else if index \<le> 8 then
        (let linkBcsBase = Engine_code Bcs1 in Ok (Engine_of_code (linkBcsBase + index - 1)))
      else FATAL_ERROR ''Invalid blitter index'')"

fun getEngineName :: "Engine \<Rightarrow> string result" where
  "getEngineName Rcs = Ok ''RCS''"
| "getEngineName Ccs0 = Ok ''CCS0''"
| "getEngineName Ccs1 = Ok ''CCS1''"
| "getEngineName Ccs2 = Ok ''CCS2''"
| "getEngineName Ccs3 = Ok ''CCS3''"
| "getEngineName Bcs = Ok ''BCS''"
| "getEngineName Bcs1 = Ok ''BCS1''"
| "getEngineName Bcs2 = Ok ''BCS2''"
| "getEngineName Bcs3 = Ok ''BCS3''"
| "getEngineName Bcs4 = Ok ''BCS4''"
| "getEngineName Bcs5 = Ok ''BCS5''"
| "getEngineName Bcs6 = Ok ''BCS6''"
| "getEngineName Bcs7 = Ok ''BCS7''"
| "getEngineName Bcs8 = Ok ''BCS8''"
| "getEngineName Engine_Unknown = FATAL_ERROR ''Unknown engine''"

section \<open>measurement\_type.h, measurement\_unit.h\<close>

datatype MeasurementType = MT_Unknown | Cpu | Gpu

fun MeasurementType_to_string :: "MeasurementType \<Rightarrow> string result" where
  "MeasurementType_to_string Cpu = Ok ''[CPU]''"
| "MeasurementType_to_string Gpu = Ok ''[GPU]''"
| "MeasurementType_to_string MT_Unknown = FATAL_ERROR ''Unknown measurement unit''"

datatype MeasurementUnit =
    MU_Unknown | Microseconds | Nanoseconds | GigabytesPerSecond | Latency | Percentage
  | MicroJoules | Watts

fun MeasurementUnit_to_string :: "MeasurementUnit \<Rightarrow> string result" where
  "MeasurementUnit_to_string Nanoseconds = Ok ''[ns]''"
| "MeasurementUnit_to_string Microseconds = Ok ''[us]''"
| "MeasurementUnit_to_string GigabytesPerSecond = Ok ''[GB/s]''"
| "MeasurementUnit_to_string Latency = Ok ''[clk]''"
| "MeasurementUnit_to_string Percentage = Ok ''[%]''"
| "MeasurementUnit_to_string MicroJoules = Ok ''[uJ]''"
| "MeasurementUnit_to_string Watts = Ok ''[W]''"
| "MeasurementUnit_to_string MU_Unknown = FATAL_ERROR ''Unknown measurement unit''"

section \<open>usm\_memory\_placement.h\<close>

datatype UsmMemoryPlacement =
    UMP_Unknown | UMP_Host | UMP_Device | UMP_Shared | UMP_NonUsm | UMP_NonUsmImported
  | UMP_NonUsmMapped | UMP_NonUsm2MBAligned | UMP_NonUsmImported2MBAligned

definition requiresImport :: "UsmMemoryPlacement \<Rightarrow> bool" where
  "requiresImport inputType =
     (if inputType = UMP_NonUsmImported \<or> inputType = UMP_NonUsmImported2MBAligned then True else False)"

fun isUsmMemoryType :: "UsmMemoryPlacement \<Rightarrow> bool" where
  "isUsmMemoryType UMP_Host = True"
| "isUsmMemoryType UMP_Device = True"
| "isUsmMemoryType UMP_Shared = True"
| "isUsmMemoryType UMP_NonUsmImported = True"
| "isUsmMemoryType UMP_NonUsmImported2MBAligned = True"
| "isUsmMemoryType _ = False"

section \<open>test\_type.h, test\_type\_skip.h\<close>

datatype TestType = Regular | Extended | ReducedSizeCAL

definition isTestSkipped :: "bool \<Rightarrow> TestType \<Rightarrow> bool" where
  "isTestSkipped extendedConf testType =
     (if (extendedConf \<and> testType = Regular)
         \<or> (\<not> extendedConf \<and> testType = Extended)
         \<or> (\<not> extendedConf \<and> testType = ReducedSizeCAL)
      then True else False)"

section \<open>Orders and finite enumeration\<close>

text \<open>
  \<open>engine.h\<close> computes with the order of the enumerators: \<open>Engine\<close> is a linear order by its code.
\<close>

lemma Engine_code_inject [simp]: "Engine_code a = Engine_code b \<longleftrightarrow> a = b"
  by (cases a; cases b) simp_all

instantiation Engine :: linorder
begin

definition less_eq_Engine :: "Engine \<Rightarrow> Engine \<Rightarrow> bool" where
  "less_eq_Engine a b \<longleftrightarrow> Engine_code a \<le> Engine_code b"

definition less_Engine :: "Engine \<Rightarrow> Engine \<Rightarrow> bool" where
  "less_Engine a b \<longleftrightarrow> Engine_code a < Engine_code b"

instance
  by standard (auto simp: less_eq_Engine_def less_Engine_def)

end

lemma sorted_Engine_values: "sorted Engine_values" "distinct Engine_values"
  by (simp_all add: Engine_values_def less_eq_Engine_def)

lemma Engine_values_code: "map Engine_code Engine_values = [0..<15]"
  by (simp add: Engine_values_def upt_conv_Cons)

lemma Engine_of_code_code [simp]: "Engine_of_code (Engine_code e) = e"
  by (cases e) (simp_all add: Engine_of_code_def Engine_values_def)

lemma Engine_code_of_code [simp]: "n < 15 \<Longrightarrow> Engine_code (Engine_of_code n) = n"
proof -
  assume n: "n < 15"
  have len: "length Engine_values = 15" by (simp add: Engine_values_def)
  have "map Engine_code Engine_values ! n = n" using n by (simp add: Engine_values_code)
  with n len show ?thesis by (simp add: Engine_of_code_def)
qed

lemma is_copy_engine_iff: "is_copy_engine e \<longleftrightarrow> Bcs \<le> e"
  by (cases e) (simp_all add: is_copy_engine_def less_eq_Engine_def)

lemma apis_first_to_last_eq: "apis_first_to_last = [OpenCL, L0, SYCL, OMP, UR]"
  by (simp add: apis_first_to_last_def Api_of_code_def upt_conv_Cons)

lemma validateApi_iff: "validateApi a \<longleftrightarrow> a \<in> set apis_first_to_last"
  by (cases a) (simp_all add: apis_first_to_last_eq)

end
