(* ===== verification/Engine_Queues.thy ===== *)
theory Engine_Queues
  imports Enums
begin

unbundle bit_operations_syntax

text \<open>
  Choosing a hardware queue for an engine: \<open>framework/l0/utility/queue_families_helper.cpp\<close> and
  \<open>framework/ocl/utility/queue_families_helper.h\<close>. The descriptions of the queue groups come
  from the driver (\<open>zeDeviceGetCommandQueueGroupProperties\<close>, \<open>clGetDeviceInfo\<close>); they are an
  argument of the definitions. Both helpers share one contract, the locale \<open>queue_helper\<close>: the
  families have distinct numbers and the helper picks the first family of the engine's group
  that is large enough. The locale proves that a chosen queue exists in the chosen family and
  that different engines never share a queue.
\<close>

section \<open>Level Zero\<close>

record ze_command_queue_group_properties =
  flags :: "32 word"
  maxMemoryFillPatternSize :: nat
  numQueues :: nat

definition FLAG_COMPUTE :: "32 word" where "FLAG_COMPUTE = 1"
definition FLAG_COPY :: "32 word" where "FLAG_COPY = 2"

record L0_QueueFamilyDesc =
  ordinal :: nat
  maxFillSize :: nat
  queueCount :: nat
  type :: EngineGroup

record L0_QueueDesc =
  family :: L0_QueueFamilyDesc
  desc_ordinal :: nat
  desc_index :: nat

text \<open>The reference parameter \<open>copyEngineFound\<close> is threaded through.\<close>

definition L0_getEngineGroup ::
  "ze_command_queue_group_properties \<Rightarrow> bool \<Rightarrow> EngineGroup \<times> bool" where
  "L0_getEngineGroup fam copyEngineFound =
     (let isCompute = (flags fam AND FLAG_COMPUTE \<noteq> 0);
          isCopy = (flags fam AND FLAG_COPY \<noteq> 0);
          isNoneQueue = (numQueues fam = 0)
      in if isNoneQueue then (EG_Unknown, copyEngineFound)
         else if isCompute then
           (if isCopy then (EG_Compute, copyEngineFound) else (EG_Unknown, copyEngineFound))
         else if isCopy then
           (if copyEngineFound then (EG_LinkCopy, copyEngineFound) else (EG_Copy, True))
         else (EG_Unknown, copyEngineFound))"

fun L0_families_loop ::
  "nat \<Rightarrow> bool \<Rightarrow> ze_command_queue_group_properties list \<Rightarrow> L0_QueueFamilyDesc list" where
  "L0_families_loop familyIndex copyEngineFound [] = []"
| "L0_families_loop familyIndex copyEngineFound (properties # rest) =
     (let (engineGroup, copyEngineFound') = L0_getEngineGroup properties copyEngineFound
      in if engineGroup = EG_Unknown then L0_families_loop (Suc familyIndex) copyEngineFound' rest
         else \<lparr>ordinal = familyIndex, maxFillSize = maxMemoryFillPatternSize properties,
               queueCount = numQueues properties, type = engineGroup\<rparr>
              # L0_families_loop (Suc familyIndex) copyEngineFound' rest)"

definition L0_queryQueueFamilies ::
  "ze_command_queue_group_properties list \<Rightarrow> L0_QueueFamilyDesc list result" where
  "L0_queryQueueFamilies families =
     FATAL_ERROR_IF (length families = 0) ''No queue groups found!''
       (Ok (L0_families_loop 0 False families))"

fun L0_getCopyEnginesCount :: "L0_QueueFamilyDesc list \<Rightarrow> nat" where
  "L0_getCopyEnginesCount [] = 0"
| "L0_getCopyEnginesCount (fam # rest) =
     (if type fam = EG_Copy then queueCount fam else L0_getCopyEnginesCount rest)"

fun L0_select_loop :: "EngineGroup \<Rightarrow> nat \<Rightarrow> L0_QueueFamilyDesc list \<Rightarrow> L0_QueueDesc option" where
  "L0_select_loop engineGroup engineIndex [] = None"
| "L0_select_loop engineGroup engineIndex (fam # rest) =
     (if engineGroup \<noteq> type fam then L0_select_loop engineGroup engineIndex rest
      else if engineIndex \<ge> queueCount fam then L0_select_loop engineGroup engineIndex rest
      else Some \<lparr>family = fam, desc_ordinal = ordinal fam, desc_index = engineIndex mod 2 ^ 32\<rparr>)"

definition L0_getPropertiesForSelectingEngine ::
  "ze_command_queue_group_properties list \<Rightarrow> Engine \<Rightarrow> L0_QueueDesc option result" where
  "L0_getPropertiesForSelectingEngine device engine =
     bindR (L0_queryQueueFamilies device) (\<lambda>families.
       let copyEnginesCount = L0_getCopyEnginesCount families
       in bindR (getEngineGroup engine copyEnginesCount) (\<lambda>engineGroup.
          bindR (getEngineIndexWithinGroup engine copyEnginesCount) (\<lambda>engineIndex.
            Ok (L0_select_loop engineGroup engineIndex families))))"

section \<open>OpenCL\<close>

record cl_queue_family_properties_intel =
  cl_capabilities :: "64 word"
  cl_count :: nat
  cl_name :: string

record OCL_QueueFamilyDesc =
  familyIndex :: nat
  capabilitites :: "64 word"
  ocl_queueCount :: nat
  ocl_type :: EngineGroup

definition CL_QUEUE_FAMILY_INTEL :: nat where "CL_QUEUE_FAMILY_INTEL = 0x418C"
definition CL_QUEUE_INDEX_INTEL :: nat where "CL_QUEUE_INDEX_INTEL = 0x418D"
definition CL_QUEUE_DEFAULT_CAPABILITIES_INTEL :: "64 word" where
  "CL_QUEUE_DEFAULT_CAPABILITIES_INTEL = 0"

text \<open>The driver's answer to the two queries; \<open>None\<close> is a return code other than \<open>CL_SUCCESS\<close>.\<close>

definition OCL_queryQueueFamilies ::
  "cl_queue_family_properties_intel list option \<Rightarrow> OCL_QueueFamilyDesc list" where
  "OCL_queryQueueFamilies device =
     (case device of
        None \<Rightarrow> []
      | Some families \<Rightarrow>
          map (\<lambda>i. \<lparr>familyIndex = i, capabilitites = cl_capabilities (families ! i),
                    ocl_queueCount = cl_count (families ! i),
                    ocl_type = parseEngineGroup (cl_name (families ! i))\<rparr>)
            [0 ..< length families])"

fun OCL_getCopyEnginesCount :: "OCL_QueueFamilyDesc list \<Rightarrow> nat" where
  "OCL_getCopyEnginesCount [] = 0"
| "OCL_getCopyEnginesCount (fam # rest) =
     (if ocl_type fam = EG_Copy then ocl_queueCount fam else OCL_getCopyEnginesCount rest)"

fun OCL_select_loop :: "EngineGroup \<Rightarrow> nat \<Rightarrow> OCL_QueueFamilyDesc list \<Rightarrow> nat list option" where
  "OCL_select_loop engineGroup engineIndex [] = None"
| "OCL_select_loop engineGroup engineIndex (fam # rest) =
     (if engineGroup \<noteq> ocl_type fam then OCL_select_loop engineGroup engineIndex rest
      else if engineIndex \<ge> ocl_queueCount fam then OCL_select_loop engineGroup engineIndex rest
      else Some [CL_QUEUE_FAMILY_INTEL, familyIndex fam, CL_QUEUE_INDEX_INTEL, engineIndex])"

definition OCL_getPropertiesForSelectingEngine ::
  "cl_queue_family_properties_intel list option \<Rightarrow> Engine \<Rightarrow> nat list option result" where
  "OCL_getPropertiesForSelectingEngine device engine =
     (let families = OCL_queryQueueFamilies device;
          copyEnginesCount = OCL_getCopyEnginesCount families
      in bindR (getEngineGroup engine copyEnginesCount) (\<lambda>engineGroup.
         bindR (getEngineIndexWithinGroup engine copyEnginesCount) (\<lambda>engineIndex.
           Ok (OCL_select_loop engineGroup engineIndex families))))"

definition OCL_getQueueCountForEngineGroup ::
  "cl_queue_family_properties_intel list option \<Rightarrow> EngineGroup \<Rightarrow> nat" where
  "OCL_getQueueCountForEngineGroup device engineGroup =
     foldl (\<lambda>n fam. if ocl_type fam = engineGroup then n + ocl_queueCount fam else n) 0
       (OCL_queryQueueFamilies device)"

definition OCL_validateCapability :: "64 word \<Rightarrow> 64 word \<Rightarrow> bool" where
  "OCL_validateCapability queueCapabilities capability =
     (queueCapabilities = CL_QUEUE_DEFAULT_CAPABILITIES_INTEL
      \<or> queueCapabilities AND capability = capability)"

fun OCL_validateCapabilities :: "64 word \<Rightarrow> 64 word list \<Rightarrow> bool" where
  "OCL_validateCapabilities queueCapabilities [] = True"
| "OCL_validateCapabilities queueCapabilities (capability # args) =
     (if \<not> OCL_validateCapability queueCapabilities capability then False
      else OCL_validateCapabilities queueCapabilities args)"

section \<open>Engines and groups\<close>

lemma getEngineGroup_ok_iff: "is_ok (getEngineGroup e n) \<longleftrightarrow> e \<noteq> Engine_Unknown"
  by (cases e) (auto simp: getEngineGroup_def is_compute_engine_def is_copy_engine_def Let_def)

lemma engine_group_index_inject:
  assumes "getEngineGroup e n = Ok g" "getEngineIndexWithinGroup e n = Ok i"
    and "getEngineGroup e' n = Ok g" "getEngineIndexWithinGroup e' n = Ok i"
  shows "e = e'"
proof -
  have copy: "is_copy_engine x \<longleftrightarrow> 6 \<le> Engine_code x"
    and compute: "is_compute_engine x \<longleftrightarrow> 2 \<le> Engine_code x \<and> Engine_code x \<le> 5"
    and rcs: "x = Rcs \<longleftrightarrow> Engine_code x = 1" for x
    by (cases x; simp add: is_copy_engine_def is_compute_engine_def)+
  have "Engine_code e = Engine_code e'"
    using assms
    by (auto simp: getEngineGroup_def getEngineIndexWithinGroup_def copy compute rcs Let_def
        simp del: Engine_code_inject split: if_splits)
  then show ?thesis by simp
qed

section \<open>The contract of a queue helper\<close>

locale queue_helper =
  fixes families :: "'d \<Rightarrow> 'f list result"
    and ftype :: "'f \<Rightarrow> EngineGroup"
    and fcount :: "'f \<Rightarrow> nat"
    and fnumber :: "'f \<Rightarrow> nat"
    and copyEngines :: "'f list \<Rightarrow> nat"
    and select :: "'d \<Rightarrow> Engine \<Rightarrow> (nat \<times> nat) option result"
  assumes numbers_distinct: "families d = Ok fs \<Longrightarrow> distinct (map fnumber fs)"
    and select_eq:
      "families d = Ok fs \<Longrightarrow> getEngineGroup e (copyEngines fs) = Ok g \<Longrightarrow>
       getEngineIndexWithinGroup e (copyEngines fs) = Ok i \<Longrightarrow>
       select d e = Ok (map_option (\<lambda>f. (fnumber f, i)) (find (\<lambda>f. ftype f = g \<and> i < fcount f) fs))"
    and select_fails:
      "select d e = Ok r \<Longrightarrow> \<exists>fs g i. families d = Ok fs \<and> getEngineGroup e (copyEngines fs) = Ok g
         \<and> getEngineIndexWithinGroup e (copyEngines fs) = Ok i"
begin

lemma select_cases:
  assumes "select d e = Ok (Some (n, i))"
  obtains fs f g where "families d = Ok fs" "f \<in> set fs" "fnumber f = n"
    "getEngineGroup e (copyEngines fs) = Ok g" "getEngineIndexWithinGroup e (copyEngines fs) = Ok i"
    "ftype f = g" "i < fcount f"
proof -
  from select_fails [OF assms] obtain fs g j where
    fs: "families d = Ok fs" "getEngineGroup e (copyEngines fs) = Ok g"
      "getEngineIndexWithinGroup e (copyEngines fs) = Ok j" by blast
  with assms select_eq [OF fs] obtain f where
    "find (\<lambda>f. ftype f = g \<and> j < fcount f) fs = Some f" "fnumber f = n" "j = i"
    by auto
  then show thesis using fs that by (auto simp: find_Some_iff in_set_conv_nth)
qed

lemma select_injective:
  assumes "select d e = Ok (Some q)" and "select d e' = Ok (Some q)"
  shows "e = e'"
proof -
  obtain n i where q: "q = (n, i)" by (cases q)
  from assms(1)[unfolded q] obtain fs f g where 1: "families d = Ok fs" "f \<in> set fs" "fnumber f = n"
    "getEngineGroup e (copyEngines fs) = Ok g" "getEngineIndexWithinGroup e (copyEngines fs) = Ok i"
    "ftype f = g" by (rule select_cases)
  from assms(2)[unfolded q] obtain fs' f' g' where 2: "families d = Ok fs'" "f' \<in> set fs'" "fnumber f' = n"
    "getEngineGroup e' (copyEngines fs') = Ok g'" "getEngineIndexWithinGroup e' (copyEngines fs') = Ok i"
    "ftype f' = g'" by (rule select_cases)
  from 1 2 have "fs' = fs" by simp
  moreover from 1 2 numbers_distinct [OF 1(1)] have "f' = f"
    unfolding \<open>fs' = fs\<close> by (metis distinct_map inj_onD)
  ultimately show ?thesis using 1 2 engine_group_index_inject by metis
qed

lemma select_None_iff:
  assumes "families d = Ok fs" "getEngineGroup e (copyEngines fs) = Ok g"
    "getEngineIndexWithinGroup e (copyEngines fs) = Ok i"
  shows "select d e = Ok None \<longleftrightarrow> (\<forall>f \<in> set fs. ftype f = g \<longrightarrow> fcount f \<le> i)"
  using select_eq [OF assms] by (auto simp: find_None_iff not_less)

end

section \<open>Both helpers satisfy the contract\<close>

definition L0_queue :: "ze_command_queue_group_properties list \<Rightarrow> Engine \<Rightarrow> (nat \<times> nat) option result" where
  "L0_queue d e = bindR (L0_getPropertiesForSelectingEngine d e)
     (\<lambda>r. Ok (map_option (\<lambda>q. (desc_ordinal q, desc_index q)) r))"

definition OCL_queue :: "cl_queue_family_properties_intel list option \<Rightarrow> Engine \<Rightarrow> (nat \<times> nat) option result" where
  "OCL_queue d e = bindR (OCL_getPropertiesForSelectingEngine d e)
     (\<lambda>r. Ok (map_option (\<lambda>q. (q ! 1, q ! 3)) r))"

lemma engine_index_small: "getEngineIndexWithinGroup e n = Ok i \<Longrightarrow> i \<le> 8"
  by (cases e) (auto simp: getEngineIndexWithinGroup_def is_compute_engine_def is_copy_engine_def
      Let_def split: if_splits)

lemma L0_select_loop_find:
  "i \<le> 8 \<Longrightarrow> map_option (\<lambda>q. (desc_ordinal q, desc_index q)) (L0_select_loop g i fs)
     = map_option (\<lambda>f. (ordinal f, i)) (find (\<lambda>f. type f = g \<and> i < queueCount f) fs)"
  by (induction fs) auto

lemma OCL_select_loop_find:
  "map_option (\<lambda>q. (q ! 1, q ! 3)) (OCL_select_loop g i fs)
     = map_option (\<lambda>f. (familyIndex f, i)) (find (\<lambda>f. ocl_type f = g \<and> i < ocl_queueCount f) fs)"
  by (induction fs) auto

lemma L0_families_loop_ordinals:
  "f \<in> set (L0_families_loop k c fs) \<Longrightarrow> k \<le> ordinal f"
proof (induction k c fs rule: L0_families_loop.induct)
  case (2 k c p rest)
  then show ?case by (fastforce simp: Let_def split: prod.splits if_splits)
qed simp

lemma L0_families_loop_sorted: "sorted_wrt (<) (map ordinal (L0_families_loop k c fs))"
proof (induction k c fs rule: L0_families_loop.induct)
  case (2 k c p rest)
  then show ?case
    by (auto simp: Let_def split: prod.splits dest!: L0_families_loop_ordinals)
qed simp

interpretation l0: queue_helper L0_queryQueueFamilies type queueCount ordinal L0_getCopyEnginesCount L0_queue
proof unfold_locales
  fix d fs
  assume "L0_queryQueueFamilies d = Ok fs"
  then show "distinct (map ordinal fs)"
    using L0_families_loop_sorted [of 0 False d]
    by (auto simp: L0_queryQueueFamilies_def FATAL_ERROR_IF_eq_Inr strict_sorted_iff)
next
  fix d fs e g i
  assume "L0_queryQueueFamilies d = Ok fs" "getEngineGroup e (L0_getCopyEnginesCount fs) = Ok g"
    "getEngineIndexWithinGroup e (L0_getCopyEnginesCount fs) = Ok i"
  then show "L0_queue d e = Ok (map_option (\<lambda>f. (ordinal f, i)) (find (\<lambda>f. type f = g \<and> i < queueCount f) fs))"
    by (simp add: L0_queue_def L0_getPropertiesForSelectingEngine_def Let_def
        L0_select_loop_find engine_index_small)
next
  fix d e r
  assume "L0_queue d e = Ok r"
  then show "\<exists>fs g i. L0_queryQueueFamilies d = Ok fs \<and> getEngineGroup e (L0_getCopyEnginesCount fs) = Ok g
      \<and> getEngineIndexWithinGroup e (L0_getCopyEnginesCount fs) = Ok i"
    by (auto simp: L0_queue_def L0_getPropertiesForSelectingEngine_def Let_def bindR_eq_Inr)
qed

interpretation ocl: queue_helper "\<lambda>d. Ok (OCL_queryQueueFamilies d)" ocl_type ocl_queueCount familyIndex
  OCL_getCopyEnginesCount OCL_queue
proof unfold_locales
  fix d fs
  assume "Ok (OCL_queryQueueFamilies d) = Ok fs"
  then show "distinct (map familyIndex fs)"
    by (auto simp: OCL_queryQueueFamilies_def comp_def split: option.splits)
next
  fix d fs e g i
  assume "Ok (OCL_queryQueueFamilies d) = Ok fs" "getEngineGroup e (OCL_getCopyEnginesCount fs) = Ok g"
    "getEngineIndexWithinGroup e (OCL_getCopyEnginesCount fs) = Ok i"
  then show "OCL_queue d e
      = Ok (map_option (\<lambda>f. (familyIndex f, i)) (find (\<lambda>f. ocl_type f = g \<and> i < ocl_queueCount f) fs))"
    by (simp add: OCL_queue_def OCL_getPropertiesForSelectingEngine_def Let_def
        OCL_select_loop_find del: One_nat_def)
next
  fix d e r
  assume "OCL_queue d e = Ok r"
  then show "\<exists>fs g i. Ok (OCL_queryQueueFamilies d) = Ok fs \<and> getEngineGroup e (OCL_getCopyEnginesCount fs) = Ok g
      \<and> getEngineIndexWithinGroup e (OCL_getCopyEnginesCount fs) = Ok i"
    by (auto simp: OCL_queue_def OCL_getPropertiesForSelectingEngine_def Let_def bindR_eq_Inr)
qed

section \<open>The main copy family comes first\<close>

lemma L0_families_after_copy:
  "f \<in> set (L0_families_loop k True fs) \<Longrightarrow> type f \<noteq> EG_Copy"
proof (induction fs arbitrary: k)
  case (Cons p rest)
  then show ?case by (auto simp: L0_getEngineGroup_def Let_def split: if_splits)
qed simp

lemma L0_families_loop_copy_order:
  "sorted_wrt (\<lambda>f g. type g \<noteq> EG_Copy \<or> (type f \<noteq> EG_Copy \<and> type f \<noteq> EG_LinkCopy)) (L0_families_loop k c fs)"
proof (induction k c fs rule: L0_families_loop.induct)
  case (2 k c p rest)
  then show ?case
    by (cases c) (auto simp: L0_getEngineGroup_def Let_def dest: L0_families_after_copy split: if_splits)
qed simp

section \<open>Properties\<close>

text \<open>C7: two different engines never select the same Level Zero queue: whatever queue groups
  the driver reports, equal ordinals and indices come from the same engine.\<close>

theorem L0_engines_use_distinct_queues:
  assumes "L0_getPropertiesForSelectingEngine device e = Ok (Some q)"
    and "L0_getPropertiesForSelectingEngine device e' = Ok (Some q')"
    and "desc_ordinal q = desc_ordinal q'" and "desc_index q = desc_index q'"
  shows "e = e'"
proof (rule l0.select_injective)
  show "L0_queue device e = Ok (Some (desc_ordinal q, desc_index q))"
    using assms(1) by (simp add: L0_queue_def)
  show "L0_queue device e' = Ok (Some (desc_ordinal q, desc_index q))"
    using assms by (simp add: L0_queue_def)
qed

theorem L0_engines_use_distinct_queues_witness:
  "\<exists>q. L0_getPropertiesForSelectingEngine
      [\<lparr>flags = 3, maxMemoryFillPatternSize = 16, numQueues = 1\<rparr>,
       \<lparr>flags = 2, maxMemoryFillPatternSize = 16, numQueues = 2\<rparr>] Bcs1 = Ok (Some q)
    \<and> desc_ordinal q = 1 \<and> desc_index q = 1 \<and> Bcs1 = Bcs1"
proof -
  let ?d = "[\<lparr>flags = 3, maxMemoryFillPatternSize = 16, numQueues = 1\<rparr>,
       \<lparr>flags = 2, maxMemoryFillPatternSize = 16, numQueues = 2\<rparr>]"
  let ?q = "\<lparr>family = \<lparr>ordinal = 1, maxFillSize = 16, queueCount = 2, type = EG_Copy\<rparr>,
      desc_ordinal = 1, desc_index = 1\<rparr>"
  have h: "L0_getPropertiesForSelectingEngine ?d Bcs1 = Ok (Some ?q)"
    by (simp add: L0_getPropertiesForSelectingEngine_def L0_queryQueueFamilies_def
        L0_getEngineGroup_def FLAG_COMPUTE_def FLAG_COPY_def getEngineGroup_def
        getEngineIndexWithinGroup_def is_compute_engine_def is_copy_engine_def)
  then show ?thesis using L0_engines_use_distinct_queues [OF h h] by simp
qed

text \<open>the queue the OpenCL helper selects exists: the property list names a queue family
  the device reports, of the engine's group, and an index below that family's queue count.\<close>

lemma OCL_selected_queue_exists:
  assumes "OCL_getPropertiesForSelectingEngine device engine = Ok (Some props)"
  shows "\<exists>fam \<in> set (OCL_queryQueueFamilies device).
     props = [CL_QUEUE_FAMILY_INTEL, familyIndex fam, CL_QUEUE_INDEX_INTEL, props ! 3]
     \<and> getEngineGroup engine (OCL_getCopyEnginesCount (OCL_queryQueueFamilies device)) = Ok (ocl_type fam)
     \<and> props ! 3 < ocl_queueCount fam"
proof -
  have loop: "OCL_select_loop g i fs = Some props \<Longrightarrow>
      \<exists>fam \<in> set fs. props = [CL_QUEUE_FAMILY_INTEL, familyIndex fam, CL_QUEUE_INDEX_INTEL, i]
        \<and> g = ocl_type fam \<and> i < ocl_queueCount fam" for g i fs
    by (induction fs) (auto split: if_splits)
  from assms obtain g i where
    "getEngineGroup engine (OCL_getCopyEnginesCount (OCL_queryQueueFamilies device)) = Ok g"
    "OCL_select_loop g i (OCL_queryQueueFamilies device) = Some props"
    by (auto simp: OCL_getPropertiesForSelectingEngine_def Let_def bindR_eq_Inr)
  with loop [OF this(2)] show ?thesis by force
qed

text \<open>a Level Zero device has at most one main copy family and the link copy families come
  after it: in the list \<open>queryQueueFamilies\<close> returns, no family before a \<open>Copy\<close> family is \<open>Copy\<close>
  or \<open>LinkCopy\<close>, and the ordinals increase strictly.\<close>

theorem L0_main_copy_family_first:
  assumes "L0_queryQueueFamilies device = Ok fs" and "i < j" and "j < length fs"
  shows "ordinal (fs ! i) < ordinal (fs ! j)
    \<and> (type (fs ! j) = EG_Copy \<longrightarrow> type (fs ! i) \<noteq> EG_Copy \<and> type (fs ! i) \<noteq> EG_LinkCopy)"
proof -
  from assms(1) have fs: "fs = L0_families_loop 0 False device"
    by (auto simp: L0_queryQueueFamilies_def FATAL_ERROR_IF_eq_Inr)
  show ?thesis
    using sorted_wrt_nth_less [OF L0_families_loop_copy_order, of i j 0 False device]
      sorted_wrt_nth_less [OF L0_families_loop_sorted, of i j 0 False device] assms(2,3)
    unfolding fs by auto
qed

end
