(* ===== verification/Doubles.thy ===== *)
theory Doubles
  imports Complex_Main
begin

text \<open>
  The \<open>double\<close> of the measurements: IEEE binary64 in its default rounding, to nearest with ties to even. A finite value is the
  real number it stands for, every operation on finite values is the exact operation followed by one rounding, and what is too large
  becomes an infinity. The two zeros are one value; a zero divisor counts as the positive one.

  The first lemmas say what rounding keeps: numbers of 53 binary digits, the order, and any number but for one part in \<open>2 ^ 53\<close>.
  The last section counts roundings.
\<close>

section \<open>Rounding\<close>

text \<open>The nearest integer, ties to even.\<close>

definition round_even :: "real \<Rightarrow> int" where
  "round_even r =
     (let f = \<lfloor>r\<rfloor>; d = r - of_int f
      in if d < 1 / 2 then f else if d > 1 / 2 then f + 1 else if even f then f else f + 1)"

text \<open>The exponent of the last of the 53 digits: that of the leading digit less 52, but not below the smallest double.\<close>

definition binade :: "real \<Rightarrow> int" where
  "binade r = \<lfloor>log 2 \<bar>r\<bar>\<rfloor>"

definition ulp_exponent :: "real \<Rightarrow> int" where
  "ulp_exponent r = max (binade r - 52) (- 1074)"

definition nearest :: "real \<Rightarrow> real" where
  "nearest r = of_int (round_even (r / 2 powi ulp_exponent r)) * 2 powi ulp_exponent r"

text \<open>\<open>std::numeric_limits<double>::max()\<close>.\<close>

definition double_max :: real where
  "double_max = (2 ^ 53 - 1) * 2 ^ 971"

datatype Value = Fin real | PosInf | NegInf | NaN

definition V_round :: "real \<Rightarrow> Value" where
  "V_round r = (let d = nearest r in if d > double_max then PosInf else if d < - double_max then NegInf else Fin d)"

section \<open>Operations\<close>

text \<open>The conversion of an integer to \<open>double\<close>.\<close>

definition V_of_int :: "int \<Rightarrow> Value" where
  "V_of_int n = V_round (of_int n)"

fun V_less :: "Value \<Rightarrow> Value \<Rightarrow> bool" where
  "V_less (Fin a) (Fin b) = (a < b)"
| "V_less (Fin a) PosInf = True"
| "V_less NegInf (Fin b) = True"
| "V_less NegInf PosInf = True"
| "V_less _ _ = False"

fun V_add :: "Value \<Rightarrow> Value \<Rightarrow> Value" where
  "V_add (Fin a) (Fin b) = V_round (a + b)"
| "V_add NaN _ = NaN"
| "V_add _ NaN = NaN"
| "V_add PosInf NegInf = NaN"
| "V_add NegInf PosInf = NaN"
| "V_add PosInf _ = PosInf"
| "V_add _ PosInf = PosInf"
| "V_add NegInf _ = NegInf"
| "V_add _ NegInf = NegInf"

fun V_neg :: "Value \<Rightarrow> Value" where
  "V_neg (Fin a) = Fin (- a)"
| "V_neg PosInf = NegInf"
| "V_neg NegInf = PosInf"
| "V_neg NaN = NaN"

definition V_sub :: "Value \<Rightarrow> Value \<Rightarrow> Value" where
  "V_sub a b = V_add a (V_neg b)"

definition V_signed_inf :: "real \<Rightarrow> Value" where
  "V_signed_inf s = (if s > 0 then PosInf else if s < 0 then NegInf else NaN)"

fun V_mult :: "Value \<Rightarrow> Value \<Rightarrow> Value" where
  "V_mult (Fin a) (Fin b) = V_round (a * b)"
| "V_mult NaN _ = NaN"
| "V_mult _ NaN = NaN"
| "V_mult (Fin a) PosInf = V_signed_inf a"
| "V_mult (Fin a) NegInf = V_signed_inf (- a)"
| "V_mult PosInf (Fin b) = V_signed_inf b"
| "V_mult NegInf (Fin b) = V_signed_inf (- b)"
| "V_mult PosInf PosInf = PosInf"
| "V_mult NegInf NegInf = PosInf"
| "V_mult PosInf NegInf = NegInf"
| "V_mult NegInf PosInf = NegInf"

fun V_div :: "Value \<Rightarrow> Value \<Rightarrow> Value" where
  "V_div (Fin a) (Fin b) = (if b = 0 then V_signed_inf a else V_round (a / b))"
| "V_div NaN _ = NaN"
| "V_div _ NaN = NaN"
| "V_div (Fin a) PosInf = Fin 0"
| "V_div (Fin a) NegInf = Fin 0"
| "V_div PosInf (Fin b) = (if b < 0 then NegInf else PosInf)"
| "V_div NegInf (Fin b) = (if b < 0 then PosInf else NegInf)"
| "V_div _ _ = NaN"

fun V_sqrt :: "Value \<Rightarrow> Value" where
  "V_sqrt (Fin a) = (if a < 0 then NaN else V_round (sqrt a))"
| "V_sqrt PosInf = PosInf"
| "V_sqrt _ = NaN"

fun V_reaches_max :: "Value \<Rightarrow> bool" where
  "V_reaches_max (Fin a) = (a \<ge> double_max)"
| "V_reaches_max PosInf = True"
| "V_reaches_max _ = False"

section \<open>What rounding keeps\<close>

lemma round_even_of_int [simp]: "round_even (of_int k) = k"
  by (simp add: round_even_def Let_def)

lemma round_even_error: "\<bar>of_int (round_even r) - r\<bar> \<le> 1 / 2"
  unfolding round_even_def Let_def by (cases "r - of_int \<lfloor>r\<rfloor>" "1 / 2 :: real" rule: linorder_cases; simp; linarith)

lemma round_even_mono:
  assumes "r \<le> s"
  shows "round_even r \<le> round_even s"
proof (cases "\<lfloor>r\<rfloor> = \<lfloor>s\<rfloor>")
  case True
  then show ?thesis using assms by (auto simp: round_even_def Let_def)
next
  case False
  then have "\<lfloor>r\<rfloor> + 1 \<le> \<lfloor>s\<rfloor>" using floor_mono [OF assms] by linarith
  then show ?thesis by (auto simp: round_even_def Let_def)
qed

lemma round_even_minus: "round_even (- r) = - round_even r"
proof (cases "of_int \<lfloor>r\<rfloor> = r")
  case True
  then show ?thesis by (metis of_int_minus round_even_of_int)
next
  case False
  then have f: "\<lfloor>- r\<rfloor> = - \<lfloor>r\<rfloor> - 1" by linarith
  show ?thesis unfolding round_even_def Let_def f
    by (cases "r - of_int \<lfloor>r\<rfloor>" "1 / 2 :: real" rule: linorder_cases) auto
qed

lemma binade_bounds:
  assumes "r \<noteq> 0"
  shows "2 powi binade r \<le> \<bar>r\<bar>" "\<bar>r\<bar> < 2 powi (binade r + 1)"
proof -
  have "2 powr binade r \<le> \<bar>r\<bar> \<and> \<bar>r\<bar> < 2 powr (binade r + 1)"
    using floor_log_eq_powr_iff [of "\<bar>r\<bar>" 2 "binade r"] assms by (simp add: binade_def)
  then show "2 powi binade r \<le> \<bar>r\<bar>" "\<bar>r\<bar> < 2 powi (binade r + 1)"
    by (simp_all flip: powr_real_of_int')
qed

lemma powi_less [simp]: "(2 :: real) powi i < 2 powi j \<longleftrightarrow> i < j"
  and powi_le [simp]: "(2 :: real) powi i \<le> 2 powi j \<longleftrightarrow> i \<le> j"
proof -
  show *: "(2 :: real) powi i < 2 powi j \<longleftrightarrow> i < j" for i j
    using power_int_strict_increasing [of i j "2 :: real"] power_int_strict_increasing [of j i "2 :: real"]
    by (cases i j rule: linorder_cases) auto
  show "(2 :: real) powi i \<le> 2 powi j \<longleftrightarrow> i \<le> j" by (simp add: not_less [symmetric] *)
qed

lemma powi_Suc: "(2 :: real) powi (i + 1) = 2 * 2 powi i"
  by (simp add: power_int_add)

lemma powi_multiple: "e \<le> j \<Longrightarrow> (2 :: real) powi j = of_int (2 ^ nat (j - e)) * 2 powi e"
proof -
  assume "e \<le> j"
  then have "(2 :: real) powi (j - e) = of_int (2 ^ nat (j - e))" by (simp add: power_int_def)
  moreover have "(2 :: real) powi (j - e + e) = 2 powi (j - e) * 2 powi e" by (rule power_int_add) simp
  ultimately show ?thesis by simp
qed

lemma ulp_exponent_bounds: "- 1074 \<le> ulp_exponent r" "\<bar>r\<bar> < 2 powi (ulp_exponent r + 53)"
proof -
  show "- 1074 \<le> ulp_exponent r" by (simp add: ulp_exponent_def)
  show "\<bar>r\<bar> < 2 powi (ulp_exponent r + 53)"
  proof (cases "r = 0")
    case False
    have "(2 :: real) powi (binade r + 1) \<le> 2 powi (ulp_exponent r + 53)" by (simp add: ulp_exponent_def)
    with binade_bounds(2) [OF False] show ?thesis by linarith
  qed simp
qed

lemma ulp_exponent_least:
  assumes "\<bar>r\<bar> < 2 powi (j + 53)" "- 1074 \<le> j" "r \<noteq> 0"
  shows "ulp_exponent r \<le> j"
proof -
  have "(2 :: real) powi binade r < 2 powi (j + 53)" using binade_bounds(1) [OF assms(3)] assms(1) by linarith
  then show ?thesis using assms(2) by (simp add: ulp_exponent_def)
qed

lemma nearest_0 [simp]: "nearest 0 = 0"
  using round_even_of_int [of 0] by (simp add: nearest_def)

lemma nearest_minus: "nearest (- r) = - nearest r"
  by (simp add: nearest_def ulp_exponent_def binade_def round_even_minus)

text \<open>A multiple of a power of two with 53 digits is a double.\<close>

lemma nearest_multiple:
  assumes "r = of_int k * 2 powi j" "- 1074 \<le> j" "\<bar>r\<bar> < 2 powi (j + 53)"
  shows "nearest r = r"
proof (cases "r = 0")
  case False
  define e where "e = ulp_exponent r"
  have "e \<le> j" unfolding e_def using assms(2,3) False by (intro ulp_exponent_least)
  then have r: "r = of_int (k * 2 ^ nat (j - e)) * 2 powi e" using assms(1) powi_multiple [of e j] by simp
  then have "r / 2 powi e = of_int (k * 2 ^ nat (j - e))" by simp
  then show ?thesis using r unfolding nearest_def e_def [symmetric] by (simp only: round_even_of_int)
qed simp

lemma double_multiple:
  assumes "nearest r = r"
  obtains k where "r = of_int k * 2 powi ulp_exponent r"
  using assms unfolding nearest_def by metis

lemma nearest_powi:
  assumes "- 1022 \<le> j"
  shows "nearest (2 powi j) = 2 powi j"
proof (rule nearest_multiple [of _ "2 ^ 52" "j - 52"])
  show "(2 :: real) powi j = of_int (2 ^ 52) * 2 powi (j - 52)" using powi_multiple [of "j - 52" j] by simp
  show "\<bar>(2 :: real) powi j\<bar> < 2 powi (j - 52 + 53)" by simp
qed (use assms in simp)

lemma nearest_of_int:
  assumes "\<bar>k\<bar> < 2 ^ 53"
  shows "nearest (of_int k) = of_int k"
proof (rule nearest_multiple [of _ k 0])
  have "real_of_int \<bar>k\<bar> < of_int (2 ^ 53)" using assms by (simp only: of_int_less_iff)
  then show "\<bar>real_of_int k\<bar> < 2 powi (0 + 53)" by (simp add: power_int_def)
qed simp_all

lemma nearest_double:
  assumes "nearest r = r"
  shows "nearest (2 * r) = 2 * r"
proof -
  obtain k where k: "r = of_int k * 2 powi ulp_exponent r" using assms by (rule double_multiple)
  show ?thesis
  proof (rule nearest_multiple [of _ k "ulp_exponent r + 1"])
    show "2 * r = of_int k * 2 powi (ulp_exponent r + 1)" by (subst k) (simp add: power_int_add_1)
    show "\<bar>2 * r\<bar> < 2 powi (ulp_exponent r + 1 + 53)"
      using ulp_exponent_bounds(2) [of r] powi_Suc [of "ulp_exponent r + 53"] by (simp add: abs_mult add.commute add.left_commute)
  qed (use ulp_exponent_bounds(1) [of r] in simp)
qed

text \<open>Rounding keeps the order.\<close>

lemma nearest_sign: "0 \<le> r \<Longrightarrow> 0 \<le> nearest r"
proof -
  assume "0 \<le> r"
  then have "round_even 0 \<le> round_even (r / 2 powi ulp_exponent r)" by (intro round_even_mono) simp
  then show ?thesis using round_even_of_int [of 0] by (simp add: nearest_def)
qed

lemma nearest_scaled_mono:
  assumes "r \<le> s"
  shows "of_int (round_even (r / 2 powi e)) * 2 powi e \<le> of_int (round_even (s / 2 powi e)) * (2 :: real) powi e"
proof -
  have "round_even (r / 2 powi e) \<le> round_even (s / 2 powi e)" using assms by (intro round_even_mono) (simp add: divide_right_mono)
  then show ?thesis by simp
qed

lemma round_even_powi: "e \<le> j \<Longrightarrow> of_int (round_even (2 powi j / 2 powi e)) * 2 powi e = (2 :: real) powi j"
  using powi_multiple [of e j] by (simp flip: of_int_power)

lemma nearest_mono_pos:
  assumes "0 < r" "r \<le> s"
  shows "nearest r \<le> nearest s"
proof (cases "ulp_exponent r = ulp_exponent s")
  case True
  then show ?thesis using nearest_scaled_mono [OF assms(2)] by (simp add: nearest_def)
next
  case False
  have "binade r \<le> binade s" unfolding binade_def using assms by (intro floor_mono) simp
  with False have b: "binade r < binade s" "ulp_exponent r \<le> binade s" "ulp_exponent s \<le> binade s"
    by (auto simp: ulp_exponent_def max_def split: if_splits)
  have "(2 :: real) powi (binade r + 1) \<le> 2 powi binade s" using b(1) by simp
  moreover have "r < 2 powi (binade r + 1)" "2 powi binade s \<le> s"
    using binade_bounds(2) [of r] binade_bounds(1) [of s] assms by simp_all
  ultimately have "r \<le> 2 powi binade s" "2 powi binade s \<le> s" by linarith+
  from nearest_scaled_mono [OF this(1), of "ulp_exponent r"] nearest_scaled_mono [OF this(2), of "ulp_exponent s"]
  show ?thesis by (simp add: nearest_def round_even_powi b)
qed

lemma nearest_mono:
  assumes "r \<le> s"
  shows "nearest r \<le> nearest s"
proof -
  consider "0 < r" | "r \<le> 0" "0 \<le> s" | "s < 0" by linarith
  then show ?thesis
  proof cases
    case 2
    have "nearest r \<le> 0" using nearest_sign [of "- r"] 2 by (simp add: nearest_minus)
    then show ?thesis using nearest_sign [OF 2(2)] by linarith
  next
    case 3
    then show ?thesis using nearest_mono_pos [of "- s" "- r"] assms by (simp add: nearest_minus)
  qed (use nearest_mono_pos assms in blast)
qed

lemma nearest_abs: "\<bar>nearest r\<bar> = nearest \<bar>r\<bar>"
  using nearest_sign [of r] nearest_sign [of "- r"] by (cases "0 \<le> r") (simp_all add: nearest_minus)

lemma nearest_idem: "nearest (nearest r) = nearest r"
proof -
  let ?e = "ulp_exponent r"
  have "\<bar>r\<bar> \<le> 2 powi (?e + 53)" using ulp_exponent_bounds(2) [of r] by simp
  then have "nearest \<bar>r\<bar> \<le> nearest (2 powi (?e + 53))" by (rule nearest_mono)
  also have "\<dots> = 2 powi (?e + 53)" by (rule nearest_powi) (use ulp_exponent_bounds(1) [of r] in simp)
  finally have "\<bar>nearest r\<bar> \<le> 2 powi (?e + 53)" by (simp only: nearest_abs)
  then consider "\<bar>nearest r\<bar> < 2 powi (?e + 53)" | "nearest r = 2 powi (?e + 53)" | "nearest r = - (2 powi (?e + 53))" by linarith
  then show ?thesis
  proof cases
    case 1
    show ?thesis by (rule nearest_multiple [OF nearest_def [of r] ulp_exponent_bounds(1) 1])
  qed (use ulp_exponent_bounds(1) [of r] nearest_powi [of "?e + 53"] in \<open>simp_all add: nearest_minus\<close>)
qed

text \<open>The half of the rounded sum of two doubles lies between them.\<close>

lemma nearest_middle:
  assumes "nearest a = a" "nearest b = b" "a \<le> b"
  shows "a \<le> nearest (nearest (a + b) / 2) \<and> nearest (nearest (a + b) / 2) \<le> b"
proof -
  have "nearest (2 * a) \<le> nearest (a + b)" "nearest (a + b) \<le> nearest (2 * b)" using assms(3) by (intro nearest_mono; simp)+
  then have "a \<le> nearest (a + b) / 2" "nearest (a + b) / 2 \<le> b" using assms(1,2) by (simp_all add: nearest_double)
  then show ?thesis using nearest_mono assms(1,2) by metis
qed

text \<open>Rounding changes a number by at most one part in \<open>2 ^ 53\<close>, unless the number is tiny.\<close>

lemma nearest_error:
  assumes "2 powi (- 1022) \<le> \<bar>r\<bar>"
  shows "\<bar>nearest r - r\<bar> \<le> \<bar>r\<bar> / 2 ^ 53"
proof -
  let ?e = "ulp_exponent r"
  have r: "r \<noteq> 0" using assms by auto
  have "(2 :: real) powi (- 1022) < 2 powi (binade r + 1)" using binade_bounds(2) [OF r] assms by linarith
  then have "- 1022 < binade r + 1" by (rule powi_less [THEN iffD1])
  then have e: "?e = binade r - 52" by (simp add: ulp_exponent_def)
  have "\<bar>nearest r - r\<bar> = \<bar>of_int (round_even (r / 2 powi ?e)) - r / 2 powi ?e\<bar> * 2 powi ?e"
    by (subst (2) abs_of_pos [of "2 powi ?e", symmetric], simp, subst abs_mult [symmetric]) (simp add: nearest_def left_diff_distrib)
  also have "\<dots> \<le> 1 / 2 * 2 powi ?e" by (intro mult_right_mono round_even_error) simp
  also have "\<dots> = 2 powi binade r / 2 ^ 53" by (simp add: e power_int_diff)
  also have "\<dots> \<le> \<bar>r\<bar> / 2 ^ 53" using binade_bounds(1) [OF r] by (simp add: divide_right_mono)
  finally show ?thesis .
qed

text \<open>A double of at least \<open>2 ^ j\<close> is a multiple of \<open>2 ^ (j - 52)\<close>.\<close>

lemma double_grid:
  assumes "nearest r = r" "r = 0 \<or> 2 powi j \<le> \<bar>r\<bar>"
  shows "\<exists>k. r = of_int k * 2 powi (j - 52)"
proof (cases "r = 0")
  case False
  then have "(2 :: real) powi j < 2 powi (binade r + 1)" using assms(2) binade_bounds(2) [OF False] by linarith
  then have "j < binade r + 1" by (rule powi_less [THEN iffD1])
  then have le: "j - 52 \<le> ulp_exponent r" by (simp add: ulp_exponent_def)
  obtain k where "r = of_int k * 2 powi ulp_exponent r" using assms(1) by (rule double_multiple)
  also have "\<dots> = of_int (k * 2 ^ nat (ulp_exponent r - (j - 52))) * 2 powi (j - 52)"
    by (subst powi_multiple [OF le]) simp
  finally show ?thesis by blast
qed (auto intro: exI [of _ 0])

section \<open>Counting roundings\<close>

text \<open>\<open>a\<close> is \<open>b\<close> but for \<open>k\<close> roundings, each of at most one part in \<open>2 ^ 53\<close>.\<close>

definition rounded :: "nat \<Rightarrow> real \<Rightarrow> real \<Rightarrow> bool" where
  "rounded k a b \<longleftrightarrow> (1 - 1 / 2 ^ 53) ^ k * b \<le> a \<and> a \<le> (1 + 1 / 2 ^ 53) ^ k * b"

lemma rounded_0 [simp]: "rounded 0 a b \<longleftrightarrow> a = b"
  by (auto simp: rounded_def)

lemma rounded_nonneg: "rounded k a b \<Longrightarrow> 0 \<le> b \<Longrightarrow> 0 \<le> a"
  unfolding rounded_def by (rule order_trans [OF _ conjunct1]) simp_all

lemma rounded_trans:
  assumes "rounded k a b" "rounded l c a"
  shows "rounded (k + l) c b"
proof -
  have "(1 - 1 / 2 ^ 53) ^ l * ((1 - 1 / 2 ^ 53) ^ k * b) \<le> (1 - 1 / 2 ^ 53) ^ l * a"
    "(1 + 1 / 2 ^ 53) ^ l * a \<le> (1 + 1 / 2 ^ 53) ^ l * ((1 + 1 / 2 ^ 53) ^ k * b)"
    using assms(1) by (intro mult_left_mono; simp add: rounded_def)+
  moreover have "(1 - 1 / 2 ^ 53) ^ l * a \<le> c" "c \<le> (1 + 1 / 2 ^ 53) ^ l * a" using assms(2) by (simp_all add: rounded_def)
  ultimately show ?thesis unfolding rounded_def power_add by (simp only: mult.commute mult.left_commute) linarith
qed

lemma rounded_add: "rounded k a b \<Longrightarrow> rounded k c d \<Longrightarrow> rounded k (a + c) (b + d)"
  unfolding rounded_def distrib_left by linarith

lemma rounded_mono:
  assumes "rounded k a b" "k \<le> l" "0 \<le> b"
  shows "rounded l a b"
proof -
  have "(1 - 1 / 2 ^ 53) ^ l * b \<le> (1 - 1 / 2 ^ 53) ^ k * b" "(1 + 1 / 2 ^ 53) ^ k * b \<le> (1 + 1 / 2 ^ 53) ^ l * b"
    using assms(2,3) by (intro mult_right_mono power_decreasing power_increasing; simp)+
  with assms(1) show ?thesis unfolding rounded_def by linarith
qed

lemma rounded_mult:
  assumes "rounded k a b" "rounded l c d" "0 \<le> b" "0 \<le> d"
  shows "rounded (k + l) (a * c) (b * d)"
proof -
  have "((1 - 1 / 2 ^ 53) ^ k * b) * ((1 - 1 / 2 ^ 53) ^ l * d) \<le> a * c"
    using assms(1,2,4) rounded_nonneg [OF assms(1,3)] by (intro mult_mono) (simp_all add: rounded_def)
  moreover have "a * c \<le> ((1 + 1 / 2 ^ 53) ^ k * b) * ((1 + 1 / 2 ^ 53) ^ l * d)"
    using assms rounded_nonneg [OF assms(2,4)] by (intro mult_mono) (simp_all add: rounded_def)
  ultimately show ?thesis unfolding rounded_def power_add by (simp only: mult.assoc mult.left_commute)
qed

lemma rounded_divide: "rounded k a b \<Longrightarrow> 0 < m \<Longrightarrow> rounded k (a / m) (b / m)"
  unfolding rounded_def times_divide_eq_right by (intro conjI divide_right_mono) auto

lemma rounded_sqrt:
  assumes "rounded k a b" "0 \<le> b"
  shows "rounded k (sqrt a) (sqrt b)"
proof -
  have "(1 - 1 / 2 ^ 53) ^ k \<le> sqrt ((1 - 1 / 2 ^ 53) ^ k)"
    by (rule real_le_rsqrt) (simp add: power2_eq_square mult_left_le power_le_one)
  moreover have "sqrt ((1 + 1 / 2 ^ 53) ^ k) \<le> (1 + 1 / 2 ^ 53) ^ k"
    by (rule real_le_lsqrt) (simp_all add: power2_eq_square one_le_power)
  moreover have "sqrt ((1 - 1 / 2 ^ 53) ^ k) * sqrt b \<le> sqrt a" "sqrt a \<le> sqrt ((1 + 1 / 2 ^ 53) ^ k) * sqrt b"
    using assms(1) by (simp_all add: rounded_def flip: real_sqrt_mult)
  ultimately show ?thesis unfolding rounded_def
    using assms(2) by (meson mult_right_mono order_trans real_sqrt_ge_zero)
qed

text \<open>As many roundings as there are samples change a number by less than half of it.\<close>

lemma rounded_bounds:
  assumes "rounded k a b" "k \<le> 2 ^ 52" "0 \<le> b"
  shows "b / 2 \<le> a" "a \<le> 2 * b"
proof -
  have "1 + real k * (- 1 / 2 ^ 53) \<le> (1 + (- 1 / 2 ^ 53)) ^ k" by (rule Bernoulli_inequality) simp
  moreover have "real k \<le> 2 ^ 52" using assms(2) by (metis of_nat_le_iff of_nat_numeral of_nat_power)
  ultimately have lo: "1 / 2 \<le> (1 - 1 / 2 ^ 53 :: real) ^ k" by simp
  have "(1 - 1 / 2 ^ 53 :: real) ^ k * (1 + 1 / 2 ^ 53) ^ k \<le> 1" by (simp flip: power_mult_distrib) (simp add: power_le_one)
  moreover have "1 / 2 * (1 + 1 / 2 ^ 53 :: real) ^ k \<le> (1 - 1 / 2 ^ 53) ^ k * (1 + 1 / 2 ^ 53) ^ k"
    using lo by (intro mult_right_mono) simp_all
  ultimately have hi: "(1 + 1 / 2 ^ 53 :: real) ^ k \<le> 2" by linarith
  show "b / 2 \<le> a" using mult_right_mono [OF lo assms(3)] assms(1) by (simp add: rounded_def)
  show "a \<le> 2 * b" using mult_right_mono [OF hi assms(3)] assms(1) by (simp add: rounded_def)
qed

lemma double_max_powi: "2 powi 1000 \<le> double_max"
  by (simp add: double_max_def power_int_def)

lemma V_round_bound:
  assumes "\<bar>r\<bar> \<le> 2 powi j" "- 1022 \<le> j" "j \<le> 1000"
  shows "V_round r = Fin (nearest r)" "\<bar>nearest r\<bar> \<le> 2 powi j"
proof -
  have "nearest \<bar>r\<bar> \<le> nearest (2 powi j)" using assms(1) by (rule nearest_mono)
  then show b: "\<bar>nearest r\<bar> \<le> 2 powi j" using nearest_powi [OF assms(2)] by (simp add: nearest_abs)
  also have "(2 :: real) powi j \<le> 2 powi 1000" using assms(3) by (rule powi_le [THEN iffD2])
  also note double_max_powi
  finally show "V_round r = Fin (nearest r)" by (simp add: V_round_def Let_def abs_le_iff not_less)
qed

text \<open>Numbers far from the ends of the range: they do not overflow and are not tiny.\<close>

definition safe :: "real \<Rightarrow> bool" where
  "safe r \<longleftrightarrow> r = 0 \<or> 2 powi (- 1000) \<le> r \<and> r \<le> 2 powi 1000"

text \<open>Zero, or between two powers of two: far from the ends of the range nothing overflows and nothing is tiny.\<close>

definition between :: "int \<Rightarrow> int \<Rightarrow> real \<Rightarrow> bool" where
  "between i j r \<longleftrightarrow> r = 0 \<or> 2 powi i \<le> r \<and> r \<le> 2 powi j"

lemma between_0 [simp]: "between i j 0"
  by (simp add: between_def)

lemma powi_le_nonneg: "2 powi i \<le> r \<Longrightarrow> 0 \<le> (r :: real)"
  using order_trans [OF zero_le_power_int [of "2 :: real" i]] by simp

lemma between_nonneg: "between i j r \<Longrightarrow> 0 \<le> r"
  by (auto simp: between_def intro: powi_le_nonneg)

lemma between_mono: "between i j r \<Longrightarrow> i' \<le> i \<Longrightarrow> j \<le> j' \<Longrightarrow> between i' j' r"
  unfolding between_def by (meson order_trans powi_le)

lemma between_rounded:
  assumes "between i j b" "rounded k a b" "k \<le> 2 ^ 52"
  shows "between (i - 1) (j + 1) a"
proof -
  note b = rounded_bounds [OF assms(2,3) between_nonneg [OF assms(1)]]
  show ?thesis
  proof (cases "b = 0")
    case False
    with assms(1) have "2 powi i \<le> b" "b \<le> 2 powi j" by (simp_all add: between_def)
    with b powi_Suc [of "i - 1"] powi_Suc [of j] show ?thesis by (simp add: between_def)
  qed (use b in simp)
qed

lemma between_divide:
  assumes "between i j a" "2 powi k \<le> b" "b \<le> 2 powi l"
  shows "between (i - l) (j - k) (a / b)"
proof (cases "a = 0")
  case False
  have b: "0 < b" using assms(2) zero_less_power_int [of "2 :: real" k] by linarith
  have "2 powi i / 2 powi l \<le> a / b" "a / b \<le> 2 powi j / 2 powi k"
    using assms False b between_nonneg [OF assms(1)] by (intro frac_le; auto simp: between_def)+
  then show ?thesis by (simp add: between_def power_int_diff)
qed simp

lemma between_square:
  assumes "between i j \<bar>r\<bar>"
  shows "between (2 * i) (2 * j) (r\<^sup>2)"
proof (cases "r = 0")
  case False
  then have "(2 powi i)\<^sup>2 \<le> \<bar>r\<bar>\<^sup>2" "\<bar>r\<bar>\<^sup>2 \<le> (2 powi j)\<^sup>2" using assms by (intro power_mono; simp add: between_def)+
  moreover have "(2 powi n)\<^sup>2 = (2 :: real) powi (2 * n)" for n by (simp add: power2_eq_square flip: power_int_add)
  ultimately show ?thesis by (simp add: between_def)
qed simp

lemma between_sqrt:
  assumes "between (2 * i) (2 * j) r"
  shows "between i j (sqrt r)"
proof (cases "r = 0")
  case False
  have "(2 :: real) powi (2 * n) = (2 powi n)\<^sup>2" for n by (simp add: power2_eq_square flip: power_int_add)
  with False assms have "(2 powi i)\<^sup>2 \<le> r" "r \<le> (2 powi j)\<^sup>2" by (simp_all add: between_def)
  then show ?thesis by (simp add: between_def real_le_rsqrt real_le_lsqrt)
qed simp

lemma between_sum:
  assumes "\<forall>r \<in> set rs. between i j r" "real (length rs) \<le> 2 powi l" "rs \<noteq> []"
  shows "between i (j + l) (sum_list rs)"
proof -
  have nn: "\<forall>r \<in> set rs. 0 \<le> r" using assms(1) between_nonneg by blast
  show ?thesis
  proof (cases "\<forall>r \<in> set rs. r = 0")
    case True
    then have "sum_list rs = 0" by (induction rs) auto
    then show ?thesis by simp
  next
    case False
    then obtain r where "r \<in> set rs" "r \<noteq> 0" by blast
    then have "2 powi i \<le> sum_list rs" using assms(1) nn member_le_sum_list [of r rs] by (fastforce simp: between_def)
    have "sum_list rs \<le> sum_list (map (\<lambda>_. 2 powi j) rs)"
      using sum_list_mono [of rs "\<lambda>r. r" "\<lambda>_. 2 powi j"] assms(1) zero_le_power_int [of "2 :: real" j]
      by (fastforce simp: between_def)
    also have "\<dots> = real (length rs) * 2 powi j" by (simp add: sum_list_triv)
    also have "\<dots> \<le> 2 powi l * 2 powi j" using assms(2) by (intro mult_right_mono) simp_all
    also have "\<dots> = 2 powi (j + l)" by (simp add: power_int_add)
    finally have "sum_list rs \<le> 2 powi (j + l)" .
    with \<open>2 powi i \<le> sum_list rs\<close> show ?thesis by (simp add: between_def)
  qed
qed

lemma V_round_between:
  assumes "between i j \<bar>r\<bar>" "- 1000 \<le> i" "j \<le> 1000"
  shows "V_round r = Fin (nearest r)" "rounded 1 (nearest \<bar>r\<bar>) \<bar>r\<bar>"
proof -
  have s: "between (- 1000) 1000 \<bar>r\<bar>" using assms by (rule between_mono)
  then have "\<bar>r\<bar> \<le> 2 powi 1000" by (auto simp: between_def)
  then show "V_round r = Fin (nearest r)" by (rule V_round_bound) simp_all
  have "\<bar>nearest \<bar>r\<bar> - \<bar>r\<bar>\<bar> \<le> \<bar>r\<bar> / 2 ^ 53"
  proof (cases "r = 0")
    case False
    then have "2 powi (- 1000) \<le> \<bar>r\<bar>" using s by (simp add: between_def)
    moreover have "(2 :: real) powi (- 1022) \<le> 2 powi (- 1000)" by (rule powi_le [THEN iffD2]) simp
    ultimately show ?thesis using nearest_error [of "\<bar>r\<bar>"] by simp
  qed simp
  moreover have "rounded 1 b a \<longleftrightarrow> \<bar>b - a\<bar> \<le> a / 2 ^ 53" for a b
    by (auto simp: rounded_def abs_if algebra_simps)
  ultimately show "rounded 1 (nearest \<bar>r\<bar>) \<bar>r\<bar>" by simp
qed

text \<open>An operation whose exact result is \<open>b\<close> but for \<open>k\<close> roundings adds one.\<close>

lemma V_round_rounded:
  assumes "rounded k a b" "between i j b" "k \<le> 2 ^ 52" "- 999 \<le> i" "j \<le> 999"
  shows "\<exists>c. V_round a = Fin c \<and> rounded (Suc k) c b \<and> nearest c = c"
proof -
  have a: "between (i - 1) (j + 1) a" using assms(2,1,3) by (rule between_rounded)
  then have "V_round a = Fin (nearest a)" "rounded 1 (nearest a) a"
    using V_round_between [of "i - 1" "j + 1" a] assms(4,5) between_nonneg [OF a] by simp_all
  with rounded_trans [OF assms(1), of 1 "nearest a"] nearest_idem show ?thesis by simp
qed

text \<open>The sum of a list, from left to right.\<close>

lemma foldl_V_add_rounded:
  assumes "between i j s" "\<forall>y \<in> set ys. y = 0 \<or> 2 powi i \<le> y" "s + sum_list ys \<le> 2 powi j"
    and "rounded k a s" "k + length ys \<le> 2 ^ 52" "- 999 \<le> i" "j \<le> 999"
  shows "\<exists>t. foldl V_add (Fin a) (map Fin ys) = Fin t \<and> rounded (k + length ys) t (s + sum_list ys)"
  using assms(1-5)
proof (induction ys arbitrary: a s k)
  case (Cons y ys)
  have nn: "0 \<le> y" "0 \<le> sum_list ys" "0 \<le> s"
    using Cons.prems(1,2) between_nonneg [of i j s] by (auto intro!: sum_list_nonneg dest: powi_le_nonneg)
  have b: "between i j (s + y)"
    using Cons.prems(1-3) nn by (auto simp: between_def)
  have "rounded k (a + y) (s + y)"
    by (rule rounded_add [OF Cons.prems(4) rounded_mono [of 0]]) (use nn(1) in simp_all)
  moreover have k: "k \<le> 2 ^ 52" "Suc k + length ys \<le> 2 ^ 52" using Cons.prems(5) unfolding list.size by linarith+
  ultimately obtain c where c: "V_round (a + y) = Fin c" "rounded (Suc k) c (s + y)"
    using V_round_rounded [OF _ b _ assms(6,7)] by blast
  have "\<exists>t. foldl V_add (Fin c) (map Fin ys) = Fin t \<and> rounded (Suc k + length ys) t (s + y + sum_list ys)"
    by (rule Cons.IH [OF b _ _ c(2) k(2)]) (use Cons.prems(2,3) in simp_all)
  then show ?case by (simp add: c(1) add.assoc)
qed simp

text \<open>A time of the clock, divided by a count of events.\<close>

lemma V_div_count:
  assumes "\<bar>d\<bar> < 2 ^ 63" "0 < n"
  shows "\<exists>r. V_div (V_of_int d) (V_of_int (int n)) = Fin r \<and> \<bar>r\<bar> \<le> 2 powi 63"
proof -
  have "real_of_int \<bar>d\<bar> < of_int (2 ^ 63)" using assms(1) by (simp only: of_int_less_iff)
  then have "\<bar>real_of_int d\<bar> \<le> 2 powi 63" by (simp add: power_int_def)
  from V_round_bound [OF this] have d: "V_of_int d = Fin (nearest d)" "\<bar>nearest d\<bar> \<le> 2 powi 63" by (simp_all add: V_of_int_def)
  have "nearest 1 \<le> nearest (of_int (int n))" by (rule nearest_mono) (use assms(2) in simp)
  then have n: "1 \<le> nearest (of_int (int n))" using nearest_powi [of 0] by simp
  have "\<bar>nearest d / nearest (of_int (int n))\<bar> \<le> \<bar>nearest d\<bar> / 1"
    unfolding abs_divide by (rule divide_left_mono) (use n in simp_all)
  then have "\<bar>nearest d / nearest (of_int (int n))\<bar> \<le> 2 powi 63" using d(2) by linarith
  then have q: "V_round (nearest d / nearest (of_int (int n))) = Fin (nearest (nearest d / nearest (of_int (int n))))"
    "\<bar>nearest (nearest d / nearest (of_int (int n)))\<bar> \<le> 2 powi 63"
    by (rule V_round_bound; simp)+
  have "0 \<le> double_max" by (simp add: double_max_def)
  then have "V_of_int (int n) = PosInf \<or> V_of_int (int n) = Fin (nearest (of_int (int n)))"
    using n by (auto simp: V_of_int_def V_round_def Let_def)
  then show ?thesis
  proof
    assume "V_of_int (int n) = PosInf"
    then show ?thesis by (simp add: d(1))
  next
    assume "V_of_int (int n) = Fin (nearest (of_int (int n)))"
    then have "V_div (V_of_int d) (V_of_int (int n)) = Fin (nearest (nearest d / nearest (of_int (int n))))"
      using n by (simp only: d(1) V_div.simps q(1)) simp
    then show ?thesis using q(2) by blast
  qed
qed

lemma V_sub_times: "\<bar>a\<bar> \<le> 2 powi 63 \<Longrightarrow> \<bar>b\<bar> \<le> 2 powi 63 \<Longrightarrow> \<exists>r. V_sub (Fin a) (Fin b) = Fin r"
proof -
  assume "\<bar>a\<bar> \<le> 2 powi 63" "\<bar>b\<bar> \<le> 2 powi 63"
  then have "\<bar>a + - b\<bar> \<le> 2 * 2 powi 63" by linarith
  then have "\<bar>a + - b\<bar> \<le> 2 powi 64" using powi_Suc [of 63] by simp
  from V_round_bound(1) [OF this] show ?thesis by (simp add: V_sub_def)
qed

end
