(* ===== verification/String_Utils.thy ===== *)
theory String_Utils
  imports Cpp_Prelude
begin

text \<open>
  The string helpers of the framework: \<open>framework/utility/string_utils.h\<close>,
  \<open>framework/utility/hex_helper.h\<close>, \<open>framework/utility/bit_operations_helper.h\<close> and
  \<open>framework/utility/compiler_options_builder.cpp\<close>, one definition per function. The lemmas
  give the round trips the other components rest on: key and value of a command line token,
  tokens joined with a separator and split again, bytes printed as hexadecimal digits.
\<close>

section \<open>string\_utils.h\<close>

text \<open>The two out parameters are the result; \<open>None\<close> is the return value \<open>false\<close>.\<close>

definition parseArgumentToKeyValue :: "string \<Rightarrow> (string \<times> string) option" where
  "parseArgumentToKeyValue argument =
     (let prefix = ''--'';
          incorrectPrefix = (find_str argument prefix \<noteq> Some 0);
          empty = (argument = prefix)
      in if incorrectPrefix \<or> empty then None
         else case find_str argument ''='' of
                None \<Rightarrow> Some (drop (length prefix) argument, '''')
              | Some index \<Rightarrow>
                  Some (substr argument (length prefix) (index - length prefix),
                        drop (index + 1) argument))"

definition toLower :: "string \<Rightarrow> string" where
  "toLower arg = map tolower arg"

definition containsIllegalCharacters :: "string \<Rightarrow> string \<Rightarrow> bool" where
  "containsIllegalCharacters s illegalCharacters =
     list_ex (\<lambda>c. find_str illegalCharacters [c] \<noteq> None) s"

text \<open>\<open>stringStream >> token\<close> skips white space and reads up to the next white space.\<close>

function splitString :: "string \<Rightarrow> string list" where
  "splitString s =
     (case dropWhile isspace s of
        [] \<Rightarrow> []
      | c # cs \<Rightarrow> takeWhile (\<lambda>x. \<not> isspace x) (c # cs)
                   # splitString (dropWhile (\<lambda>x. \<not> isspace x) (c # cs)))"
  by pat_completeness auto
termination
proof (relation "measure length")
  fix s c cs
  assume "dropWhile isspace s = c # cs"
  then have "\<not> isspace c" and "length (c # cs) \<le> length s"
    by (metis dropWhile_eq_Cons_conv, metis length_dropWhile_le)
  then show "(dropWhile (\<lambda>x. \<not> isspace x) (c # cs), s) \<in> measure length"
    using length_dropWhile_le [of "\<lambda>x. \<not> isspace x" cs] by simp
qed simp

declare splitString.simps [simp del]

fun handleFilterNegation_loop :: "string \<Rightarrow> bool \<Rightarrow> string \<times> bool" where
  "handleFilterNegation_loop [] negated = ([], negated)"
| "handleFilterNegation_loop (c # s) negated =
     (if c = CHR ''^'' then handleFilterNegation_loop s (\<not> negated) else (c # s, negated))"

definition handleFilterNegation :: "string \<Rightarrow> string \<times> bool" where
  "handleFilterNegation s = handleFilterNegation_loop s False"

definition endsWith :: "string \<Rightarrow> string \<Rightarrow> bool" where
  "endsWith s ending =
     (if length s < length ending then False
      else substr s (length s - length ending) (length ending) = ending)"

text \<open>The count of leading spaces, and the string without them.\<close>

definition cutLeadingSpaces :: "string \<Rightarrow> nat \<times> string" where
  "cutLeadingSpaces s =
     (let n = length (takeWhile (\<lambda>c. c = CHR '' '') s) in (n, drop n s))"

fun joinStrings :: "string \<Rightarrow> 'a list \<Rightarrow> ('a \<Rightarrow> string) \<Rightarrow> string" where
  "joinStrings separator [] str = []"
| "joinStrings separator [x] str = str x"
| "joinStrings separator (x # y # ys) str = str x @ separator @ joinStrings separator (y # ys) str"

text \<open>
  \<open>std::regex_replace\<close> with the pattern \<open>(\n)[^^]\<close>: a line feed and the character after it,
  unless that is a circumflex, are both replaced.
\<close>

abbreviation newline :: char where
  "newline \<equiv> CHR 0x0A"

fun replace_newline :: "string \<Rightarrow> string \<Rightarrow> string" where
  "replace_newline indent [] = []"
| "replace_newline indent [c] = [c]"
| "replace_newline indent (c # d # s) =
     (if c = newline \<and> d \<noteq> CHR ''^'' then newline # indent @ replace_newline indent s
      else c # replace_newline indent (d # s))"

definition indentString :: "string \<Rightarrow> nat \<Rightarrow> string" where
  "indentString s howManySpaces =
     (let indent = replicate howManySpaces CHR '' '' in indent @ replace_newline indent s)"

section \<open>error.h\<close>

text \<open>A null \<open>macroArgValueEnum\<close> is \<open>None\<close>.\<close>

definition composeErrorStringForMacro ::
  "string \<Rightarrow> int \<Rightarrow> string \<Rightarrow> string \<Rightarrow> string \<Rightarrow> string option \<Rightarrow> string" where
  "composeErrorStringForMacro file line macroName macroArg macroArgValue macroArgValueEnum =
     ''FAILED assertion '' @ macroName @ ''('' @ macroArg @ '')'' @ [newline]
     @ [CHR 0x09] @ ''value: '' @ macroArgValue
     @ (case macroArgValueEnum of None \<Rightarrow> [] | Some e \<Rightarrow> '' ('' @ e @ '')'')
     @ [newline] @ [CHR 0x09] @ ''Location: '' @ file @ '':'' @ to_string line"

section \<open>hex\_helper.h\<close>

definition hex_digit :: "nat \<Rightarrow> char" where
  "hex_digit d = (if d < 10 then char_of (48 + d) else char_of (55 + d))"

definition hex_val :: "char \<Rightarrow> nat option" where
  "hex_val c =
     (let n = (of_char c :: nat)
      in if 48 \<le> n \<and> n \<le> 57 then Some (n - 48)
         else if 65 \<le> n \<and> n \<le> 70 then Some (n - 55)
         else if 97 \<le> n \<and> n \<le> 102 then Some (n - 87)
         else None)"

definition toHex :: "8 word list \<Rightarrow> string" where
  "toHex bytes =
     ''0x'' @ concat (map (\<lambda>b. [hex_digit (unat b div 16), hex_digit (unat b mod 16)]) bytes)"

text \<open>\<open>std::stoul(s, nullptr, 16)\<close>.\<close>

fun parse_hex :: "nat \<Rightarrow> string \<Rightarrow> nat" where
  "parse_hex acc [] = acc"
| "parse_hex acc (c # cs) =
     (case hex_val c of None \<Rightarrow> acc | Some d \<Rightarrow> parse_hex (acc * 16 + d) cs)"

definition skip_0x :: "string \<Rightarrow> string" where
  "skip_0x s = (if (starts_with s ''0x'' \<or> starts_with s ''0X'') \<and> length s > 2 \<and> hex_val (s ! 2) \<noteq> None
                then drop 2 s else s)"

definition stoul16_unsigned :: "string \<Rightarrow> int result" where
  "stoul16_unsigned s =
     (case skip_0x s of
        [] \<Rightarrow> Inl Invalid_argument
      | c # cs \<Rightarrow>
          if hex_val c = None then Inl Invalid_argument
          else if parse_hex 0 (c # cs) \<ge> 2 ^ 64 then Inl Out_of_range
          else Ok (int (parse_hex 0 (c # cs))))"

definition stoul16 :: "string \<Rightarrow> int result" where
  "stoul16 s =
     (case dropWhile isspace s of
        [] \<Rightarrow> Inl Invalid_argument
      | c # cs \<Rightarrow>
          if c = CHR ''-'' then bindR (stoul16_unsigned cs) (\<lambda>v. Ok (wrap_u64 (- v)))
          else if c = CHR ''+'' then stoul16_unsigned cs
          else stoul16_unsigned (c # cs))"

fun fromHex_loop :: "string \<Rightarrow> 8 word list result" where
  "fromHex_loop (a # b # s) =
     bindR (stoul16 [a, b]) (\<lambda>v. bindR (fromHex_loop s) (\<lambda>bs. Ok (word_of_int v # bs)))"
| "fromHex_loop s = Ok []"

definition fromHex :: "string \<Rightarrow> 8 word list result" where
  "fromHex hexString =
     (if find_str hexString ''0x'' \<noteq> Some 0 then Ok []
      else if odd (length hexString) then Ok []
      else fromHex_loop (drop 2 hexString))"

section \<open>bit\_operations\_helper.h\<close>

unbundle bit_operations_syntax

definition isolateLowerNBits :: "64 word \<Rightarrow> nat \<Rightarrow> 64 word" where
  "isolateLowerNBits v bitsToIsolate =
     (if bitsToIsolate \<ge> 64 then v
      else let mask = push_bit bitsToIsolate 1 - 1 in v AND mask)"

section \<open>compiler\_options\_builder.cpp\<close>

text \<open>The builder's state is the text written to its string stream.\<close>

type_synonym options = string

definition addOption :: "options \<Rightarrow> string \<Rightarrow> options" where
  "addOption options opt = options @ opt @ '' ''"

definition addOptionOpenCl20 :: "options \<Rightarrow> options" where
  "addOptionOpenCl20 options = addOption options ''-cl-std=CL2.0''"

definition addDefinition :: "options \<Rightarrow> string \<Rightarrow> options" where
  "addDefinition options k = options @ ''-D'' @ k @ '' ''"

definition addDefinitionKeyValue :: "options \<Rightarrow> string \<Rightarrow> string \<Rightarrow> options" where
  "addDefinitionKeyValue options k v = options @ ''-D'' @ k @ ''='' @ v @ '' ''"

definition addDefinitionKeyValue_size :: "options \<Rightarrow> string \<Rightarrow> nat \<Rightarrow> options" where
  "addDefinitionKeyValue_size options k v = options @ ''-D'' @ k @ ''='' @ to_string (int v) @ '' ''"

definition addMacro :: "options \<Rightarrow> string \<Rightarrow> string list \<Rightarrow> string \<Rightarrow> options" where
  "addMacro options name arguments body =
     options @ ''-D'' @ name @ ''('' @ joinStrings '','' arguments (\<lambda>a. a) @ '')'' @ ''='' @ body @ '' ''"

section \<open>Key and value\<close>

lemma parseArgumentToKeyValue_flag:
  assumes "key \<noteq> []" and "CHR ''='' \<notin> set key"
  shows "parseArgumentToKeyValue (''--'' @ key) = Some (key, '''')"
  using assms by (simp add: parseArgumentToKeyValue_def Let_def find_str_char_None [THEN iffD2])

lemma parseArgumentToKeyValue_pair:
  assumes "CHR ''='' \<notin> set key"
  shows "parseArgumentToKeyValue (''--'' @ key @ ''='' @ v) = Some (key, v)"
proof -
  have "find_str (''--'' @ key @ ''='' @ v) ''='' = Some (length (''--'' @ key))"
    using find_str_char_append [of "CHR ''=''" "''--'' @ key" v] assms by simp
  then show ?thesis by (simp add: parseArgumentToKeyValue_def substr_def)
qed

lemma parseArgumentToKeyValue_Some_cases:
  assumes "parseArgumentToKeyValue a = Some (k, v)"
  shows "a = ''--'' @ k @ ''='' @ v \<or> (a = ''--'' @ k \<and> v = '''' \<and> k \<noteq> [])"
    and "CHR ''='' \<notin> set k"
proof -
  from assms have pre: "starts_with a ''--''" and ne: "a \<noteq> ''--''"
    by (auto simp: parseArgumentToKeyValue_def Let_def split: if_splits)
  from starts_withD [OF pre] obtain r where a: "a = ''--'' @ r" by auto
  have "(a = ''--'' @ k @ ''='' @ v \<or> (a = ''--'' @ k \<and> v = '''' \<and> k \<noteq> [])) \<and> CHR ''='' \<notin> set k"
  proof (cases "CHR ''='' \<in> set r")
    case True
    then obtain p q where r: "r = p @ CHR ''='' # q" and p: "CHR ''='' \<notin> set p"
      by (metis split_list_first)
    with assms a parseArgumentToKeyValue_pair [OF p, of q] show ?thesis by simp
  next
    case False
    with a ne parseArgumentToKeyValue_flag [OF _ False] assms show ?thesis by auto
  qed
  then show "a = ''--'' @ k @ ''='' @ v \<or> (a = ''--'' @ k \<and> v = '''' \<and> k \<noteq> [])"
    and "CHR ''='' \<notin> set k" by blast+
qed

section \<open>Lower case\<close>

lemma tolower_idem [simp]: "tolower (tolower c) = tolower c"
proof (cases "65 \<le> (of_char c :: nat) \<and> (of_char c :: nat) \<le> 90")
  case True
  then have "of_char (tolower c) = (of_char c :: nat) + 32"
    by (simp add: tolower_def)
  with True show ?thesis by (simp add: tolower_def [of "tolower c"])
next
  case False
  then have "tolower c = c" by (auto simp: tolower_def)
  then show ?thesis by simp
qed

lemma toLower_idem [simp]: "toLower (toLower s) = toLower s"
  by (simp add: toLower_def)

lemma toLower_append [simp]: "toLower (s @ t) = toLower s @ toLower t"
  by (simp add: toLower_def)

lemma length_toLower [simp]: "length (toLower s) = length s"
  by (simp add: toLower_def)

lemma tolower_digit: "isdigit c \<Longrightarrow> tolower c = c"
  by (simp add: tolower_def isdigit_def)

lemma toLower_to_string [simp]: "toLower (to_string v) = to_string v"
  unfolding toLower_def
proof (rule map_idI)
  fix c
  assume "c \<in> set (to_string v)"
  then show "tolower c = c"
    by (auto dest!: to_string_chars simp: tolower_digit) (simp add: tolower_def)
qed

section \<open>Splitting and joining\<close>

definition is_token :: "string \<Rightarrow> bool" where
  "is_token t \<longleftrightarrow> t \<noteq> [] \<and> list_all (\<lambda>c. \<not> isspace c) t"

lemma splitString_Nil [simp]: "splitString [] = []"
  by (simp add: splitString.simps)

lemma splitString_space [simp]: "isspace c \<Longrightarrow> splitString (c # s) = splitString s"
  by (subst (1 2) splitString.simps) simp

lemma splitString_token:
  assumes "is_token t" and "s = [] \<or> isspace (hd s)"
  shows "splitString (t @ s) = t # splitString s"
proof -
  from assms(1) obtain c cs where t: "t = c # cs" "\<not> isspace c" "list_all (\<lambda>x. \<not> isspace x) cs"
    by (auto simp: is_token_def neq_Nil_conv)
  then have "takeWhile (\<lambda>x. \<not> isspace x) (cs @ s) = cs" "dropWhile (\<lambda>x. \<not> isspace x) (cs @ s) = s"
    using assms(2) by (cases s, auto simp: list_all_iff)+
  with t show ?thesis by (subst splitString.simps) simp
qed

lemma splitString_tokens: "t \<in> set (splitString s) \<Longrightarrow> is_token t"
proof (induction s rule: splitString.induct)
  case (1 s)
  show ?case
  proof (cases "dropWhile isspace s")
    case Nil
    with 1 show ?thesis by (simp add: splitString.simps [of s])
  next
    case (Cons c cs)
    then have "\<not> isspace c" by (metis dropWhile_eq_Cons_conv)
    then have first: "is_token (takeWhile (\<lambda>x. \<not> isspace x) (c # cs))"
      by (auto simp: is_token_def list_all_iff dest: set_takeWhileD)
    have "splitString s = takeWhile (\<lambda>x. \<not> isspace x) (c # cs)
            # splitString (dropWhile (\<lambda>x. \<not> isspace x) (c # cs))"
      using Cons by (subst splitString.simps) simp
    with "1.prems" consider "t = takeWhile (\<lambda>x. \<not> isspace x) (c # cs)"
      | "t \<in> set (splitString (dropWhile (\<lambda>x. \<not> isspace x) (c # cs)))"
      by (metis set_ConsD)
    then show ?thesis
      using first "1.IH" [OF Cons] by cases simp_all
  qed
qed

lemma splitString_terminated:
  "list_all is_token ts \<Longrightarrow> splitString (concat (map (\<lambda>t. t @ '' '') ts)) = ts"
proof (induction ts)
  case (Cons t ts)
  have "isspace CHR '' ''" by (simp add: isspace_def)
  with Cons show ?case by (simp add: splitString_token)
qed simp

lemma splitString_joinStrings:
  "list_all is_token (map str xs) \<Longrightarrow> splitString (joinStrings '' '' xs str) = map str xs"
proof (induction "'' ''" xs str rule: joinStrings.induct)
  case (2 x str)
  then show ?case using splitString_token [of "str x" "[]"] by simp
next
  case (3 x y ys str)
  have "isspace CHR '' ''" by (simp add: isspace_def)
  with 3 show ?case by (simp add: splitString_token)
qed simp

lemma joinStrings_append:
  "joinStrings sep (xs @ [y]) str = (if xs = [] then str y else joinStrings sep xs str @ sep @ str y)"
  by (induction sep xs str rule: joinStrings.induct) auto

section \<open>Hexadecimal round trip\<close>

lemma hex_val_hex_digit: "d < 16 \<Longrightarrow> hex_val (hex_digit d) = Some d"
  by (auto simp: hex_val_def hex_digit_def Let_def)

lemma hex_digit_not_space: "d < 16 \<Longrightarrow> \<not> isspace (hex_digit d)"
  by (auto simp: isspace_def hex_digit_def)

lemma hex_digit_not_sign: "d < 16 \<Longrightarrow> hex_digit d \<noteq> CHR ''-'' \<and> hex_digit d \<noteq> CHR ''+''"
  by (auto simp: hex_digit_def dest!: arg_cong [where f = "of_char :: char \<Rightarrow> nat"])

lemma stoul16_two_digits:
  assumes "a < 16" "b < 16"
  shows "stoul16 [hex_digit a, hex_digit b] = Ok (int (16 * a + b))"
  using assms hex_digit_not_sign [of a]
  by (simp add: stoul16_def stoul16_unsigned_def skip_0x_def hex_digit_not_space hex_val_hex_digit)

lemma fromHex_loop_toHex:
  "fromHex_loop (concat (map (\<lambda>b. [hex_digit (unat b div 16), hex_digit (unat b mod 16)]) bytes)) = Ok bytes"
proof (induction bytes)
  case (Cons b bytes)
  have "unat b < 256" by (rule order_less_le_trans [OF unsigned_less]) simp
  then have "stoul16 [hex_digit (unat b div 16), hex_digit (unat b mod 16)] = Ok (int (unat b))"
    by (subst stoul16_two_digits) auto
  with Cons show ?case by simp
qed simp

lemma fromHex_toHex_gen: "fromHex (toHex bytes) = Ok bytes"
proof -
  have "even (length (toHex bytes))"
    by (induction bytes) (auto simp: toHex_def)
  then show ?thesis by (simp add: fromHex_def toHex_def fromHex_loop_toHex)
qed

section \<open>Negation of filters\<close>

lemma handleFilterNegation_loop_replicate:
  "s = [] \<or> hd s \<noteq> CHR ''^'' \<Longrightarrow>
   handleFilterNegation_loop (replicate n CHR ''^'' @ s) b = (s, (odd n) \<noteq> b)"
proof (induction n arbitrary: b)
  case 0
  then show ?case by (cases s) auto
qed auto

end
