(* ===== verification/Arguments.thy ===== *)
theory Arguments
  imports String_Utils
begin

unbundle bit_operations_syntax

text \<open>
  The argument classes of \<open>framework/argument/\<close>, each with the state of its \<open>value\<close> member and
  its overrides of \<open>parseImpl\<close>, \<open>toStringValue\<close> and \<open>validate\<close>: \<open>basic_argument.h\<close>,
  \<open>bitmap_argument.h\<close>, \<open>three_component_uint_argument.h\<close>, \<open>long_hex_argument.h\<close>,
  \<open>abstract/enum_argument.h\<close> and \<open>abstract/bitfield_enum_argument.h\<close>. Each member function is a
  definition named after its class. The templates of enumerations are parametric in the traits a
  derived class declares (\<open>enumName\<close>, \<open>enumValues\<close>, \<open>enumValuesNames\<close>, \<open>invalidEnumValue\<close>).

  The locale \<open>argument_codec\<close> is the contract between printing and parsing a value; it is
  interpreted for every class whose printed form is read back.
\<close>

section \<open>Integer arguments (basic\_argument.h)\<close>

text \<open>\<open>uint32_t value\<close>; the \<open>int\<close> of \<open>atoi\<close> is converted.\<close>

definition Unsigned32BitArgumentBase_toStringValue :: "int \<Rightarrow> string" where
  "Unsigned32BitArgumentBase_toStringValue v = to_string v"

definition Unsigned32BitArgumentBase_parseImpl :: "string \<Rightarrow> int result" where
  "Unsigned32BitArgumentBase_parseImpl valueToParse = bindR (atoi valueToParse) (\<lambda>v. Ok (wrap_u32 v))"

text \<open>\<open>int64_t value\<close>.\<close>

definition IntegerArgumentBase_toStringValue :: "int \<Rightarrow> string" where
  "IntegerArgumentBase_toStringValue v = to_string v"

definition IntegerArgumentBase_parseImpl :: "string \<Rightarrow> int result" where
  "IntegerArgumentBase_parseImpl valueToParse = atol valueToParse"

definition PositiveIntegerArgument_validate :: "int \<Rightarrow> bool" where
  "PositiveIntegerArgument_validate v \<longleftrightarrow> v > 0"

text \<open>\<open>operator size_t\<close>, and \<open>operator=(size_t)\<close> into the \<open>int64_t\<close> member.\<close>

definition PositiveIntegerArgument_get :: "int \<Rightarrow> int" where
  "PositiveIntegerArgument_get v = wrap_u64 v"

definition PositiveIntegerArgument_assign :: "int \<Rightarrow> int" where
  "PositiveIntegerArgument_assign newValue = wrap_i64 newValue"

definition NonNegativeIntegerArgument_validate :: "int \<Rightarrow> bool" where
  "NonNegativeIntegerArgument_validate v \<longleftrightarrow> v \<ge> 0"

definition FractionBaseArgument_validate :: "int \<Rightarrow> bool" where
  "FractionBaseArgument_validate v \<longleftrightarrow> v \<ge> 0"

text \<open>
  \<open>100 / (float)value\<close> printed with six decimals and cut after two. The quotient is at least
  \<open>1 / (100 * value)\<close> away from a multiple of 1/100 it does not equal, which is more than the
  rounding of the division and of the printing can bridge (the bound fails only for values above
  20000, whose quotient is below 0.005), so the digits are those of the exact quotient.
\<close>

definition FractionBaseArgument_toStringValue :: "int \<Rightarrow> string" where
  "FractionBaseArgument_toStringValue v =
     (let hundredths = (if v > 0 then nat (10000 div v) else 0)
      in dec_digits (hundredths div 100) @ ''.''
         @ [digit_char (hundredths div 10 mod 10), digit_char (hundredths mod 10)] @ ''%'')"

section \<open>Byte sizes (basic\_argument.h)\<close>

definition printUnits :: "string list" where
  "printUnits = ['''', ''KB'', ''MB'', ''GB'']"

text \<open>
  The loop divides while the value is a multiple of 1024. It may leave \<open>currentUnit\<close> at
  \<open>unitCount\<close>; \<open>units[currentUnit]\<close> is then out of bounds, which the language leaves undefined.
  \<open>%\<close> and \<open>/\<close> truncate towards zero; for a multiple of 1024 that is \<open>div\<close>.
\<close>

fun byteSize_loop :: "nat \<Rightarrow> nat \<Rightarrow> int \<Rightarrow> nat \<times> int" where
  "byteSize_loop 0 currentUnit currentValue = (currentUnit, currentValue)"
| "byteSize_loop (Suc fuel) currentUnit currentValue =
     (if currentUnit < length printUnits then
        (if currentValue mod 1024 \<noteq> 0 then (currentUnit, currentValue)
         else byteSize_loop fuel (currentUnit + 1) (currentValue div 1024))
      else (currentUnit, currentValue))"

definition ByteSizeArgument_toStringValue :: "int \<Rightarrow> string result" where
  "ByteSizeArgument_toStringValue v =
     (if v = 0 then Ok ''0''
      else let (currentUnit, currentValue) = byteSize_loop (length printUnits) 0 v
           in if currentUnit < length printUnits
              then Ok (to_string currentValue @ printUnits ! currentUnit)
              else Inl (Undefined_behaviour ''units[currentUnit]''))"

definition parseUnits :: "(string \<times> int) list" where
  "parseUnits = [(''kb'', 1024), (''mb'', 1024 * 1024), (''gb'', 1024 * 1024 * 1024), (''b'', 1), ('''', 1)]"

text \<open>The first unit that ends the string: its multiplier and the text before it.\<close>

fun findUnit :: "string \<Rightarrow> (string \<times> int) list \<Rightarrow> (string \<times> int) option" where
  "findUnit s [] = None"
| "findUnit s ((unit, multiplier) # rest) =
     (if length s < length unit then findUnit s rest
      else let unitPosition = rfind_str s unit;
               expectedUnitPosition = length s - length unit
           in if unitPosition = Some expectedUnitPosition
              then Some (take expectedUnitPosition s, multiplier)
              else findUnit s rest)"

text \<open>
  An unknown unit leaves the old value. \<open>this->value *= unitMultipliers[i]\<close> multiplies in
  \<open>size_t\<close> and converts back to \<open>int64_t\<close>.
\<close>

definition ByteSizeArgument_parseImpl :: "int \<Rightarrow> string \<Rightarrow> int result" where
  "ByteSizeArgument_parseImpl old valueToParse =
     (case findUnit (toLower valueToParse) parseUnits of
        None \<Rightarrow> Ok old
      | Some (valueWithoutUnit, multiplier) \<Rightarrow>
          bindR (atol valueWithoutUnit) (\<lambda>v. Ok (wrap_i64 (wrap_u64 (v * multiplier)))))"

section \<open>Booleans (basic\_argument.h, compression\_argument.h, boolean\_flag\_argument.h)\<close>

definition BooleanArgument_get :: "int \<Rightarrow> bool" where
  "BooleanArgument_get v \<longleftrightarrow> v \<noteq> 0"

definition BooleanArgument_assign :: "bool \<Rightarrow> int" where
  "BooleanArgument_assign newValue = (if newValue then 1 else 0)"

definition BooleanArgument_validate :: "int \<Rightarrow> bool" where
  "BooleanArgument_validate v \<longleftrightarrow> v = 0 \<or> v = 1"

definition BooleanArgument_toStringValue :: "int \<Rightarrow> string" where
  "BooleanArgument_toStringValue v = to_string v"

definition BooleanArgument_parseImpl :: "string \<Rightarrow> int result" where
  "BooleanArgument_parseImpl valueToParse = atoi valueToParse"

definition CompressionBooleanArgument_toStringValue :: "bool \<Rightarrow> int \<Rightarrow> string" where
  "CompressionBooleanArgument_toStringValue noIntelExtensions v =
     (if noIntelExtensions then ''?'' else BooleanArgument_toStringValue v)"

text \<open>The members \<open>value\<close> and \<open>isValid\<close>.\<close>

definition BooleanFlagArgument_parseImpl :: "string \<Rightarrow> bool \<times> bool" where
  "BooleanFlagArgument_parseImpl valueToParse = (True, valueToParse = [])"

definition BooleanFlagArgument_toStringValue :: "bool \<Rightarrow> string" where
  "BooleanFlagArgument_toStringValue v = to_string (if v then 1 else 0)"

section \<open>Strings (string\_argument.h, string\_list\_argument.h)\<close>

definition StringArgument_parseImpl :: "string \<Rightarrow> string \<times> bool" where
  "StringArgument_parseImpl valueToParse = (valueToParse, True)"

text \<open>\<open>parseImpl\<close> appends to the list and does not touch \<open>isValid\<close>.\<close>

definition StringListArgument_parseImpl :: "string list \<times> bool \<Rightarrow> string \<Rightarrow> string list \<times> bool" where
  "StringListArgument_parseImpl st valueToParse = (fst st @ splitString valueToParse, snd st)"

definition StringListArgument_assign :: "string list \<Rightarrow> string list \<times> bool" where
  "StringListArgument_assign newValue = (newValue, True)"

definition StringListArgument_toStringValue :: "string result" where
  "StringListArgument_toStringValue = FATAL_ERROR ''ArgFilterArgument should not be printed''"

section \<open>Hexadecimal data (long\_hex\_argument.h)\<close>

definition LongHexArgument_validate :: "8 word list \<Rightarrow> bool" where
  "LongHexArgument_validate bytes \<longleftrightarrow> length bytes > 0"

definition LongHexArgument_toStringValue :: "8 word list \<Rightarrow> string" where
  "LongHexArgument_toStringValue bytes = toHex bytes"

definition LongHexArgument_parseImpl :: "string \<Rightarrow> 8 word list result" where
  "LongHexArgument_parseImpl v = fromHex v"

section \<open>Bit masks (bitmap\_argument.h)\<close>

text \<open>\<open>std::bitset<bitsCount>\<close> is a natural number; its constructor reads the highest bit first.\<close>

fun bits_of_string :: "nat \<Rightarrow> string \<Rightarrow> nat" where
  "bits_of_string acc [] = acc"
| "bits_of_string acc (c # s) = bits_of_string (2 * acc + (if c = CHR ''1'' then 1 else 0)) s"

definition BitmaskArgument_toStringValue :: "nat \<Rightarrow> nat \<Rightarrow> string" where
  "BitmaskArgument_toStringValue bitsCount v =
     map (\<lambda>i. if bit v i then CHR ''1'' else CHR ''0'') (rev [0..<bitsCount])"

definition BitmaskArgument_getEnabledBits :: "nat \<Rightarrow> nat \<Rightarrow> nat list" where
  "BitmaskArgument_getEnabledBits bitsCount v = filter (\<lambda>bitIndex. bit v bitIndex) [0..<bitsCount]"

text \<open>The members \<open>value\<close> and \<open>valid\<close>; an ill-formed text leaves the old value and clears \<open>valid\<close>.\<close>

definition BitmaskArgument_parseImpl :: "nat \<Rightarrow> bool \<Rightarrow> nat \<Rightarrow> string \<Rightarrow> nat \<times> bool" where
  "BitmaskArgument_parseImpl bitsCount canBeAllZeros old valueToParse =
     (if length valueToParse > bitsCount then (old, False)
      else if length valueToParse = 0 then (old, False)
      else if list_ex (\<lambda>c. c \<noteq> CHR ''0'' \<and> c \<noteq> CHR ''1'') valueToParse then (old, False)
      else let v = bits_of_string 0 valueToParse
           in if \<not> canBeAllZeros \<and> v = 0 then (v, False) else (v, True))"

section \<open>Three components (three\_component\_uint\_argument.h)\<close>

type_synonym three = "int \<times> int \<times> int"

definition ThreeComponentUintArgument_toStringValue :: "three \<Rightarrow> string" where
  "ThreeComponentUintArgument_toStringValue v =
     (case v of (a, b, c) \<Rightarrow> to_string a @ '':'' @ to_string b @ '':'' @ to_string c)"

definition ThreeComponentUintArgument_parseImpl :: "string \<Rightarrow> three result" where
  "ThreeComponentUintArgument_parseImpl s =
     (let colonPos1 = find_from s '':'' 0;
          colonPos2 = find_from s '':'' (npos_succ colonPos1);
          colonPos3 = find_from s '':'' (npos_succ colonPos2)
      in FATAL_ERROR_IF (colonPos1 = None) ''Too few colons specified for a 3-component vector''
        (FATAL_ERROR_IF (colonPos2 = None) ''Too few colons specified for a 3-component vector''
        (FATAL_ERROR_IF (colonPos3 \<noteq> None) ''Too many colons specified for a 3-component vector''
          (let p1 = the colonPos1; p2 = the colonPos2
           in bindR (atoi (substr s 0 p1)) (\<lambda>a.
              bindR (atoi (substr s (p1 + 1) (p2 - p1 - 1))) (\<lambda>b.
              bindR (atoi (drop (p2 + 1) s)) (\<lambda>c.
                Ok (wrap_u64 a, wrap_u64 b, wrap_u64 c))))))))"

definition ThreeComponentSizeArgument_validate :: "three \<Rightarrow> bool" where
  "ThreeComponentSizeArgument_validate v = (case v of (a, b, c) \<Rightarrow> a > 0 \<and> b > 0 \<and> c > 0)"

section \<open>Enumerations (abstract/enum\_argument.h)\<close>

record 'e enum_traits =
  enumName :: string
  invalidEnumValue :: 'e
  enumValues :: "'e list"
  enumValuesNames :: "string list"

definition EnumArgument_validate :: "'e enum_traits \<Rightarrow> 'e \<Rightarrow> bool" where
  "EnumArgument_validate t v = list_ex (\<lambda>e. v = e) (enumValues t)"

fun lookup_name :: "'e list \<Rightarrow> string list \<Rightarrow> 'e \<Rightarrow> string option" where
  "lookup_name (e # es) (n # ns) v = (if v = e then Some n else lookup_name es ns v)"
| "lookup_name _ _ v = None"

fun lookup_value :: "'e list \<Rightarrow> string list \<Rightarrow> string \<Rightarrow> 'e option" where
  "lookup_value (e # es) (n # ns) s = (if s = toLower n then Some e else lookup_value es ns s)"
| "lookup_value _ _ s = None"

definition EnumArgument_toStringValue :: "'e enum_traits \<Rightarrow> 'e \<Rightarrow> string result" where
  "EnumArgument_toStringValue t v =
     (case lookup_name (enumValues t) (enumValuesNames t) v of
        Some n \<Rightarrow> Ok n
      | None \<Rightarrow> FATAL_ERROR (''Unknown '' @ enumName t))"

definition EnumArgument_parseImpl :: "'e enum_traits \<Rightarrow> string \<Rightarrow> 'e" where
  "EnumArgument_parseImpl t valueToParse =
     (case lookup_value (enumValues t) (enumValuesNames t) (toLower valueToParse) of
        Some e \<Rightarrow> e
      | None \<Rightarrow> invalidEnumValue t)"

definition EnumArgument_composeHelpMessage :: "'e enum_traits \<Rightarrow> string \<Rightarrow> string" where
  "EnumArgument_composeHelpMessage t extraHelpPrefix =
     (if length extraHelpPrefix > 0 then extraHelpPrefix @ '' '' else [])
     @ ''('' @ joinStrings '' or '' (enumValuesNames t) (\<lambda>n. n) @ '')''"

section \<open>Bit fields of enumerators (abstract/bitfield\_enum\_argument.h)\<close>

text \<open>
  The enumeration is its underlying 32-bit word; \<open>invalidEnumValue\<close> stands for \<open>zeroEnumValue\<close>.
  \<open>validateExtra\<close> is virtual and is an argument.
\<close>

type_synonym bitfield_traits = "32 word enum_traits"

abbreviation zeroEnumValue :: "bitfield_traits \<Rightarrow> 32 word" where
  "zeroEnumValue \<equiv> invalidEnumValue"

definition BitfieldEnumArgument_getAllValuesSum :: "bitfield_traits \<Rightarrow> 32 word" where
  "BitfieldEnumArgument_getAllValuesSum t = foldl (\<lambda>sum cur. sum OR cur) (zeroEnumValue t) (enumValues t)"

definition BitfieldEnumArgument_validate ::
  "bitfield_traits \<Rightarrow> (32 word \<Rightarrow> bool result) \<Rightarrow> 32 word \<Rightarrow> bool result" where
  "BitfieldEnumArgument_validate t validateExtra v =
     (let enabledValuesCount = length (filter (\<lambda>cur. v AND cur = cur) (enumValues t));
          unknownValues = v AND NOT (BitfieldEnumArgument_getAllValuesSum t)
      in if enabledValuesCount = 0 then Ok False
         else if unknownValues \<noteq> zeroEnumValue t then Ok False
         else bindR (validateExtra v) (\<lambda>ok. if \<not> ok then Ok False else Ok True))"

definition enabled_names :: "bitfield_traits \<Rightarrow> 32 word \<Rightarrow> string list" where
  "enabled_names t v =
     map snd (filter (\<lambda>(cur, n). v AND cur = cur) (zip (enumValues t) (enumValuesNames t)))"

definition BitfieldEnumArgument_toStringValue :: "bitfield_traits \<Rightarrow> 32 word \<Rightarrow> string result" where
  "BitfieldEnumArgument_toStringValue t v =
     FATAL_ERROR_IF (enabled_names t v = []) (''Unknown '' @ enumName t)
       (Ok (joinStrings '':'' (enabled_names t v) (\<lambda>n. n)))"

definition BitfieldEnumArgument_parseSingleValue :: "bitfield_traits \<Rightarrow> string \<Rightarrow> 32 word" where
  "BitfieldEnumArgument_parseSingleValue t singleValueLower =
     (case lookup_value (enumValues t) (enumValuesNames t) singleValueLower of
        Some e \<Rightarrow> e
      | None \<Rightarrow> zeroEnumValue t)"

text \<open>
  The loop cuts the text at each separator; \<open>startIndex <= size\<close> makes it read one more, possibly
  empty, piece after the last separator. The pieces are what \<open>splitAt\<close> returns.
\<close>

fun splitAt :: "char \<Rightarrow> string \<Rightarrow> string list" where
  "splitAt sep [] = [[]]"
| "splitAt sep (c # s) =
     (if c = sep then [] # splitAt sep s
      else (case splitAt sep s of [] \<Rightarrow> [[c]] | p # ps \<Rightarrow> (c # p) # ps))"

fun bitfield_loop :: "bitfield_traits \<Rightarrow> 32 word \<Rightarrow> string list \<Rightarrow> 32 word" where
  "bitfield_loop t v [] = v"
| "bitfield_loop t v (piece # pieces) =
     (let parsedSingleValue = BitfieldEnumArgument_parseSingleValue t piece
      in if parsedSingleValue = zeroEnumValue t then zeroEnumValue t
         else bitfield_loop t (v OR parsedSingleValue) pieces)"

definition BitfieldEnumArgument_parseImpl :: "bitfield_traits \<Rightarrow> string \<Rightarrow> 32 word" where
  "BitfieldEnumArgument_parseImpl t valueToParse =
     bitfield_loop t (zeroEnumValue t) (splitAt CHR '':'' (toLower valueToParse))"

definition BitfieldEnumArgument_composeHelpMessage :: "bitfield_traits \<Rightarrow> string \<Rightarrow> string" where
  "BitfieldEnumArgument_composeHelpMessage t extraHelpPrefix =
     (if length extraHelpPrefix > 0 then extraHelpPrefix @ '' '' else [])
     @ ''('' @ joinStrings '' or '' (enumValuesNames t) (\<lambda>n. n)
     @ '' or a list separated with '' @ [CHR 0x27] @ '':'' @ [CHR 0x27] @ '')''"

section \<open>The contract between printing and parsing\<close>

text \<open>
  \<open>printable v\<close> are the values the class can print; the printed text is one token of a command
  line and parsing it gives the value back. \<open>parse\<close> takes the old value, which an ill-formed
  text may leave in place.
\<close>

locale argument_codec =
  fixes print :: "'v \<Rightarrow> string result"
    and parse :: "'v \<Rightarrow> string \<Rightarrow> 'v result"
    and printable :: "'v \<Rightarrow> bool"
  assumes print_ok: "printable v \<Longrightarrow> \<exists>s. print v = Ok s \<and> list_all (\<lambda>c. \<not> isspace c) s"
    and parse_print: "printable v \<Longrightarrow> print v = Ok s \<Longrightarrow> parse old s = Ok v"
begin

lemma print_inject: "printable v \<Longrightarrow> printable w \<Longrightarrow> print v = print w \<Longrightarrow> v = w"
  by (metis print_ok parse_print sum.inject(2))

text \<open>The printed argument, written as a token, is split and read back.\<close>

lemma token_roundtrip:
  assumes "printable v" and "CHR ''='' \<notin> set key" and "list_all (\<lambda>c. \<not> isspace c) key"
  shows "\<exists>tok s. print v = Ok s \<and> tok = ''--'' @ key @ ''='' @ s \<and> is_token tok
     \<and> parseArgumentToKeyValue tok = Some (key, s) \<and> parse old s = Ok v"
proof -
  from print_ok [OF assms(1)] obtain s where s: "print v = Ok s" "list_all (\<lambda>c. \<not> isspace c) s"
    by blast
  have "is_token (''--'' @ key @ ''='' @ s)"
    using s(2) assms(3) by (simp add: is_token_def) (simp add: isspace_def)
  with s parse_print [OF assms(1) s(1)] parseArgumentToKeyValue_pair [OF assms(2), of s]
  show ?thesis by blast
qed

end

section \<open>Integers\<close>

interpretation uint32: argument_codec
  "\<lambda>v. Ok (Unsigned32BitArgumentBase_toStringValue v)"
  "\<lambda>_. Unsigned32BitArgumentBase_parseImpl" "\<lambda>v. 0 \<le> v \<and> v < 2 ^ 31"
  by unfold_locales
    (auto simp: Unsigned32BitArgumentBase_toStringValue_def Unsigned32BitArgumentBase_parseImpl_def
      list_all_iff to_string_not_space in_i32_def wrap_u32_def)

interpretation integer: argument_codec
  "\<lambda>v. Ok (IntegerArgumentBase_toStringValue v)" "\<lambda>_. IntegerArgumentBase_parseImpl" in_i64
  by unfold_locales
    (auto simp: IntegerArgumentBase_toStringValue_def IntegerArgumentBase_parseImpl_def
      list_all_iff to_string_not_space)

interpretation boolean: argument_codec
  "\<lambda>v. Ok (BooleanArgument_toStringValue v)" "\<lambda>_. BooleanArgument_parseImpl" BooleanArgument_validate
  by unfold_locales
    (auto simp: BooleanArgument_toStringValue_def BooleanArgument_parseImpl_def
      BooleanArgument_validate_def list_all_iff to_string_not_space in_i32_def)

section \<open>Byte sizes\<close>

lemma length_printUnits: "length printUnits = 4"
  by (simp add: printUnits_def)

lemma byteSize_loop_invariant:
  assumes "byteSize_loop fuel c v = (u, w)" and "c + fuel = 4"
  shows "c \<le> u \<and> u \<le> 4 \<and> v = w * 1024 ^ (u - c) \<and> (u < 4 \<longrightarrow> \<not> 1024 dvd w)"
  using assms
proof (induction fuel c v rule: byteSize_loop.induct)
  case (2 fuel c v)
  show ?case
  proof (cases "1024 dvd v")
    case True
    with 2 have u: "Suc c \<le> u \<and> u \<le> 4 \<and> v div 1024 = w * 1024 ^ (u - Suc c) \<and> (u < 4 \<longrightarrow> \<not> 1024 dvd w)"
      by (simp add: printUnits_def mod_0_imp_dvd)
    then have "u - c = Suc (u - Suc c)" by linarith
    with u True show ?thesis by (auto elim!: dvdE)
  next
    case False
    with 2 show ?thesis by (simp add: printUnits_def dvd_eq_mod_eq_0 split: if_splits)
  qed
qed simp

lemma power_split_dvd: "u < 4 \<Longrightarrow> (1024 :: int) ^ 4 dvd w * 1024 ^ u \<Longrightarrow> 1024 dvd w"
proof -
  assume "u < 4" and d: "(1024 :: int) ^ 4 dvd w * 1024 ^ u"
  then have "(1024 :: int) ^ 4 = 1024 ^ (4 - u) * 1024 ^ u" by (simp flip: power_add)
  with d have "(1024 :: int) ^ (4 - u) dvd w" by (metis dvd_mult_cancel_right power_not_zero zero_neq_numeral)
  moreover have "(1024 :: int) dvd 1024 ^ (4 - u)" using \<open>u < 4\<close> by (simp add: dvd_power)
  ultimately show "1024 dvd w" by (rule dvd_trans [rotated])
qed

lemma ByteSizeArgument_toStringValue_cases:
  "ByteSizeArgument_toStringValue v =
     (if v = 0 then Ok ''0''
      else if 1024 ^ 4 dvd v then Inl (Undefined_behaviour ''units[currentUnit]'')
      else let (u, w) = byteSize_loop 4 0 v in Ok (to_string w @ printUnits ! u))"
proof -
  obtain u w where uw: "byteSize_loop 4 0 v = (u, w)" by fastforce
  have inv: "u \<le> 4 \<and> v = w * 1024 ^ u \<and> (u < 4 \<longrightarrow> \<not> 1024 dvd w)"
    using byteSize_loop_invariant [OF uw] by simp
  then have "u < 4 \<longleftrightarrow> \<not> 1024 ^ 4 dvd v"
    using power_split_dvd [of u w] by (cases "u = 4") auto
  with uw show ?thesis
    by (simp add: ByteSizeArgument_toStringValue_def length_printUnits del: byteSize_loop.simps)
qed

lemma findUnit_Cons:
  "findUnit s ((unit, m) # rest) =
     (if \<exists>t. s = t @ unit then Some (take (length s - length unit) s, m) else findUnit s rest)"
  by (auto simp: rfind_str_suffix_iff)

lemma last_to_string: "isdigit (last (to_string v))"
  by (simp add: to_string_def dec_digits_isdigit [OF last_in_set])

lemma findUnit_to_string:
  assumes "u < 4"
  shows "findUnit (toLower (to_string w @ printUnits ! u)) parseUnits = Some (to_string w, 1024 ^ u)"
proof -
  have nob: "to_string w \<noteq> t @ x @ [c]" if "\<not> isdigit c" for t x c
    using last_to_string [of w] that by auto
  have nob': "to_string w \<noteq> t @ [c]" if "\<not> isdigit c" for t c
    using last_to_string [of w] that by auto
  have b: "\<not> isdigit CHR ''b''" by (simp add: isdigit_def)
  have low: "toLower ''KB'' = ''kb''" "toLower ''MB'' = ''mb''" "toLower ''GB'' = ''gb''"
    by code_simp+
  consider "u = 0" | "u = 1" | "u = 2" | "u = 3" using assms by linarith
  then show ?thesis
  proof cases
    case 1
    then show ?thesis using nob [OF b, of _ "[_]"] nob' [OF b]
      by (simp add: printUnits_def parseUnits_def findUnit_Cons del: findUnit.simps)
  qed (simp_all add: low printUnits_def parseUnits_def findUnit_Cons del: findUnit.simps)
qed

lemma in_i64_divisor: "in_i64 (w * 1024 ^ u) \<Longrightarrow> in_i64 w"
proof -
  assume h: "in_i64 (w * 1024 ^ u)"
  have "(1 :: int) \<le> 1024 ^ u" by simp
  then have "\<bar>w\<bar> * 1 \<le> \<bar>w\<bar> * 1024 ^ u" by (intro mult_left_mono) simp_all
  then have "(0 \<le> w \<and> w \<le> w * 1024 ^ u) \<or> (w < 0 \<and> w * 1024 ^ u \<le> w)" by (cases "w < 0") simp_all
  with h show "in_i64 w" unfolding in_i64_def by linarith
qed

lemma printUnits_not_space: "u < 4 \<Longrightarrow> list_all (\<lambda>c. \<not> isspace c) (printUnits ! u)"
  by (auto simp: printUnits_def less_Suc_eq numeral_eq_Suc isspace_def)

definition byteSize_printable :: "int \<Rightarrow> bool" where
  "byteSize_printable v \<longleftrightarrow> in_i64 v \<and> (v = 0 \<or> \<not> 1024 ^ 4 dvd v)"

lemma ByteSizeArgument_print:
  assumes "byteSize_printable v"
  obtains w u where "u < 4" "v = w * 1024 ^ u" "v = 0 \<or> \<not> 1024 dvd w"
    "ByteSizeArgument_toStringValue v = Ok (to_string w @ printUnits ! u)"
proof (cases "v = 0")
  case True
  have "ByteSizeArgument_toStringValue 0 = Ok (to_string 0 @ printUnits ! 0)" by code_simp
  with True that [of 0 0] show thesis by simp
next
  case False
  obtain u w where uw: "byteSize_loop 4 0 v = (u, w)" by fastforce
  have inv: "u \<le> 4 \<and> v = w * 1024 ^ u \<and> (u < 4 \<longrightarrow> \<not> 1024 dvd w)"
    using byteSize_loop_invariant [OF uw] by simp
  have nd: "\<not> 1024 ^ 4 dvd v" using False assms by (simp add: byteSize_printable_def)
  with inv have "u \<noteq> 4" by auto
  with inv that [of u w] nd False uw show thesis
    by (simp add: ByteSizeArgument_toStringValue_cases del: byteSize_loop.simps)
qed

interpretation byteSize: argument_codec
  ByteSizeArgument_toStringValue ByteSizeArgument_parseImpl byteSize_printable
proof
  fix v :: int
  assume v: "byteSize_printable v"
  show "\<exists>s. ByteSizeArgument_toStringValue v = Ok s \<and> list_all (\<lambda>c. \<not> isspace c) s"
    by (rule ByteSizeArgument_print [OF v])
      (simp add: printUnits_not_space, simp add: list_all_iff to_string_not_space)
  fix old s
  assume s: "ByteSizeArgument_toStringValue v = Ok s"
  show "ByteSizeArgument_parseImpl old s = Ok v"
  proof (rule ByteSizeArgument_print [OF v])
    fix w u
    assume "u < 4" and vw: "v = w * 1024 ^ u"
      and "ByteSizeArgument_toStringValue v = Ok (to_string w @ printUnits ! u)"
    moreover have "in_i64 v" using v by (simp add: byteSize_printable_def)
    moreover have "in_i64 w" using \<open>in_i64 v\<close> vw in_i64_divisor by simp
    ultimately show ?thesis
      using s findUnit_to_string [of u w] by (simp add: ByteSizeArgument_parseImpl_def)
  qed
qed

section \<open>Hexadecimal data and bit masks\<close>

lemma toHex_not_space: "list_all (\<lambda>c. \<not> isspace c) (toHex bytes)"
proof -
  have "unat b < 256" for b :: "8 word" by (rule order_less_le_trans [OF unsigned_less]) simp
  then have "unat b div 16 < 16" for b :: "8 word" by (simp add: less_mult_imp_div_less)
  then show ?thesis
    by (auto simp: toHex_def list_all_iff hex_digit_not_space) (simp_all add: isspace_def)
qed

interpretation longHex: argument_codec
  "\<lambda>v. Ok (LongHexArgument_toStringValue v)" "\<lambda>_. LongHexArgument_parseImpl" "\<lambda>_. True"
  by unfold_locales
    (auto simp: LongHexArgument_toStringValue_def LongHexArgument_parseImpl_def fromHex_toHex_gen
      toHex_not_space)

lemma bits_of_string_append:
  "bits_of_string a (s @ t) = bits_of_string (bits_of_string a s) t"
  by (induction a s rule: bits_of_string.induct) auto

lemma bits_of_string_print:
  "bits_of_string a (map (\<lambda>i. if bit v i then CHR ''1'' else CHR ''0'') (rev [0..<n]))
     = a * 2 ^ n + take_bit n v"
proof (induction n arbitrary: a)
  case (Suc n)
  have "take_bit (Suc n) v = take_bit n v + (if bit v n then 2 ^ n else 0)" for v :: nat
    by (simp add: take_bit_Suc_from_most)
  with Suc show ?case by (simp add: algebra_simps)
qed simp

lemma BitmaskArgument_parse_print:
  assumes "v < 2 ^ bitsCount" "0 < bitsCount"
  shows "BitmaskArgument_parseImpl bitsCount canBeAllZeros old (BitmaskArgument_toStringValue bitsCount v)
           = (v, canBeAllZeros \<or> v \<noteq> 0)"
proof -
  have "take_bit bitsCount v = v" using assms(1) by (simp add: take_bit_nat_eq_self)
  moreover have "\<not> list_ex (\<lambda>c. c \<noteq> CHR ''0'' \<and> c \<noteq> CHR ''1'') (BitmaskArgument_toStringValue bitsCount v)"
    by (auto simp: BitmaskArgument_toStringValue_def list_ex_iff)
  moreover have "length (BitmaskArgument_toStringValue bitsCount v) = bitsCount"
    by (simp add: BitmaskArgument_toStringValue_def)
  moreover have "bits_of_string 0 (BitmaskArgument_toStringValue bitsCount v) = take_bit bitsCount v"
    unfolding BitmaskArgument_toStringValue_def by (subst bits_of_string_print) simp
  ultimately show ?thesis
    using assms(2) by (simp add: BitmaskArgument_parseImpl_def Let_def)
qed

section \<open>Three components\<close>

lemma find_from_after: "find_from (p @ s) pat (length p) = map_option ((+) (length p)) (find_str s pat)"
  by (simp add: find_from_def)

lemma colon_positions:
  assumes "CHR '':'' \<notin> set a" "CHR '':'' \<notin> set b"
  shows "find_from (a @ '':'' @ b @ '':'' @ c) '':'' 0 = Some (length a)"
    and "find_from (a @ '':'' @ b @ '':'' @ c) '':'' (Suc (length a)) = Some (length a + 1 + length b)"
    and "find_from (a @ '':'' @ b @ '':'' @ c) '':'' (Suc (length a + 1 + length b))
           = map_option ((+) (length a + length b + 2)) (find_str c '':'')"
proof -
  show "find_from (a @ '':'' @ b @ '':'' @ c) '':'' 0 = Some (length a)"
    using find_str_char_append [OF assms(1)] by (simp add: find_from_def)
  show "find_from (a @ '':'' @ b @ '':'' @ c) '':'' (Suc (length a)) = Some (length a + 1 + length b)"
    using find_from_after [of "a @ '':''" "b @ '':'' @ c" "'':''"] find_str_char_append [OF assms(2), of c]
    by simp
  show "find_from (a @ '':'' @ b @ '':'' @ c) '':'' (Suc (length a + 1 + length b))
           = map_option ((+) (length a + length b + 2)) (find_str c '':'')"
    using find_from_after [of "a @ '':'' @ b @ '':''" c "'':''"] by simp
qed

lemma ThreeComponentUintArgument_parseImpl_three:
  assumes "CHR '':'' \<notin> set a" "CHR '':'' \<notin> set b" "CHR '':'' \<notin> set c"
  shows "ThreeComponentUintArgument_parseImpl (a @ '':'' @ b @ '':'' @ c) =
     bindR (atoi a) (\<lambda>x. bindR (atoi b) (\<lambda>y. bindR (atoi c) (\<lambda>z.
       Ok (wrap_u64 x, wrap_u64 y, wrap_u64 z))))"
  using colon_positions [OF assms(1,2), of c] find_str_char_None [of c "CHR '':''"] assms(3)
  by (simp add: ThreeComponentUintArgument_parseImpl_def npos_succ_def substr_def)

lemma to_string_no_colon: "CHR '':'' \<notin> set (to_string v)"
  using to_string_chars [of "CHR '':''" v] by (auto simp: isdigit_def)

definition three_printable :: "three \<Rightarrow> bool" where
  "three_printable v = (case v of (a, b, c) \<Rightarrow> list_all (\<lambda>x. 0 \<le> x \<and> x < 2 ^ 31) [a, b, c])"

interpretation three: argument_codec
  "\<lambda>v. Ok (ThreeComponentUintArgument_toStringValue v)" "\<lambda>_. ThreeComponentUintArgument_parseImpl"
  three_printable
proof
  fix v :: three
  assume v: "three_printable v"
  show "\<exists>s. Ok (ThreeComponentUintArgument_toStringValue v) = Ok s \<and> list_all (\<lambda>c. \<not> isspace c) s"
    by (cases v) (auto simp: ThreeComponentUintArgument_toStringValue_def list_all_iff
        to_string_not_space, simp_all add: isspace_def)
  fix old s
  assume "Ok (ThreeComponentUintArgument_toStringValue v) = Ok s"
  with v show "ThreeComponentUintArgument_parseImpl s = Ok v"
    by (cases v) (auto simp: ThreeComponentUintArgument_toStringValue_def three_printable_def
        ThreeComponentUintArgument_parseImpl_three [simplified] to_string_no_colon in_i32_def wrap_u64_def)
qed

section \<open>Enumerations\<close>

text \<open>
  What the two arrays of a traits class have to satisfy for printing and parsing to agree: a name
  for each value, no value and no name (up to case) twice, and names that are part of one token.
\<close>

definition enum_wf :: "'e enum_traits \<Rightarrow> bool" where
  "enum_wf t \<longleftrightarrow> length (enumValuesNames t) = length (enumValues t) \<and> distinct (enumValues t)
     \<and> distinct (map toLower (enumValuesNames t))
     \<and> list_all (list_all (\<lambda>c. \<not> isspace c)) (enumValuesNames t)"

lemma lookup_name_nth:
  "length ns = length es \<Longrightarrow> distinct es \<Longrightarrow> i < length es \<Longrightarrow> lookup_name es ns (es ! i) = Some (ns ! i)"
proof (induction es ns "es ! i" arbitrary: i rule: lookup_name.induct)
  case (1 e es n ns)
  then show ?case by (cases i) auto
qed auto

lemma lookup_value_nth:
  "length ns = length es \<Longrightarrow> distinct (map toLower ns) \<Longrightarrow> i < length es \<Longrightarrow>
   lookup_value es ns (toLower (ns ! i)) = Some (es ! i)"
proof (induction es ns "toLower (ns ! i)" arbitrary: i rule: lookup_value.induct)
  case (1 e es n ns)
  show ?case
  proof (cases i)
    case (Suc j)
    with 1 have "toLower (ns ! j) \<in> set (map toLower ns)" by simp
    moreover have "toLower n \<notin> set (map toLower ns)" using 1 by simp
    ultimately have "toLower (ns ! j) \<noteq> toLower n" by metis
    with 1 Suc show ?thesis by simp
  qed simp
qed auto

lemma lookup_value_Some: "lookup_value es ns s = Some e \<Longrightarrow> e \<in> set es"
  by (induction es ns s rule: lookup_value.induct) (auto split: if_splits)

lemma EnumArgument_print:
  assumes "enum_wf t" "EnumArgument_validate t v"
  obtains i where "i < length (enumValues t)" "v = enumValues t ! i"
    "EnumArgument_toStringValue t v = Ok (enumValuesNames t ! i)"
proof -
  from assms(2) obtain i where "i < length (enumValues t)" "v = enumValues t ! i"
    by (auto simp: EnumArgument_validate_def list_ex_iff in_set_conv_nth)
  with assms(1) that show thesis
    by (simp add: EnumArgument_toStringValue_def enum_wf_def lookup_name_nth)
qed

interpretation enum: argument_codec
  "EnumArgument_toStringValue t" "\<lambda>_ s. Ok (EnumArgument_parseImpl t s)"
  "\<lambda>v. enum_wf t \<and> EnumArgument_validate t v" for t
proof
  fix v
  assume v: "enum_wf t \<and> EnumArgument_validate t v"
  then have "enum_wf t" and "EnumArgument_validate t v" by simp_all
  then obtain i where i: "i < length (enumValues t)" "v = enumValues t ! i"
    "EnumArgument_toStringValue t v = Ok (enumValuesNames t ! i)"
    by (rule EnumArgument_print)
  have "list_all (\<lambda>c. \<not> isspace c) (enumValuesNames t ! i)"
    using v i(1) unfolding enum_wf_def list_all_length [of _ "enumValuesNames t"] by simp
  with i(3) show "\<exists>s. EnumArgument_toStringValue t v = Ok s \<and> list_all (\<lambda>c. \<not> isspace c) s"
    by blast
  fix old s
  assume "EnumArgument_toStringValue t v = Ok s"
  with i(3) have s: "s = enumValuesNames t ! i" by simp
  show "Ok (EnumArgument_parseImpl t s) = Ok v"
    using v i(1,2) unfolding s by (simp add: EnumArgument_parseImpl_def enum_wf_def lookup_value_nth)
qed

lemma EnumArgument_parse_invalid:
  "\<not> EnumArgument_validate t (EnumArgument_parseImpl t s) \<Longrightarrow> EnumArgument_parseImpl t s = invalidEnumValue t"
  by (auto simp: EnumArgument_parseImpl_def EnumArgument_validate_def list_ex_iff
      dest: lookup_value_Some split: option.splits)

section \<open>Bit fields\<close>

definition single_bit :: "32 word \<Rightarrow> bool" where
  "single_bit w \<longleftrightarrow> list_ex (\<lambda>n. w = push_bit n 1) [0..<32]"

definition bitfield_wf :: "bitfield_traits \<Rightarrow> bool" where
  "bitfield_wf t \<longleftrightarrow> enum_wf t \<and> zeroEnumValue t = 0 \<and> list_all single_bit (enumValues t)
     \<and> list_all (list_all (\<lambda>c. c \<noteq> CHR '':'')) (enumValuesNames t)"

definition bitfield_printable :: "bitfield_traits \<Rightarrow> 32 word \<Rightarrow> bool" where
  "bitfield_printable t v \<longleftrightarrow> bitfield_wf t \<and> v \<noteq> 0 \<and> v AND NOT (BitfieldEnumArgument_getAllValuesSum t) = 0"

lemma bit_foldl_or:
  "bit (foldl (\<lambda>a b. a OR b) z ws) i \<longleftrightarrow> bit z i \<or> (\<exists>w \<in> set ws. bit (w :: 32 word) i)"
  by (induction ws arbitrary: z) (auto simp: bit_simps)

lemma single_bit_iff: "single_bit w \<longleftrightarrow> (\<exists>n < 32. \<forall>i. bit w i \<longleftrightarrow> i = n)"
proof
  assume "single_bit w"
  then show "\<exists>n < 32. \<forall>i. bit w i \<longleftrightarrow> i = n"
    by (auto simp: single_bit_def list_ex_iff bit_simps)
next
  assume "\<exists>n < 32. \<forall>i. bit w i \<longleftrightarrow> i = n"
  then obtain n where "n < 32" and n: "\<And>i. bit w i \<longleftrightarrow> i = n" by blast
  then have "w = push_bit n 1" by (intro bit_word_eqI) (auto simp: bit_exp_iff n)
  with \<open>n < 32\<close> show "single_bit w" by (auto simp: single_bit_def list_ex_iff)
qed

lemma single_bit_enabled_iff:
  "single_bit w \<Longrightarrow> bit w i \<Longrightarrow> (v AND w = w) \<longleftrightarrow> bit v i"
proof -
  assume "single_bit w" and "bit w i"
  then have w: "bit w j \<longleftrightarrow> j = i" for j unfolding single_bit_iff by metis
  show ?thesis
  proof
    assume "v AND w = w"
    then have "bit (v AND w) i" using w by simp
    then show "bit v i" by (simp add: bit_and_iff)
  next
    assume "bit v i"
    then show "v AND w = w" by (intro bit_word_eqI) (auto simp: bit_and_iff w)
  qed
qed

lemma enabled_or:
  assumes "bitfield_printable t v"
  shows "foldl (\<lambda>a b. a OR b) 0 (filter (\<lambda>cur. v AND cur = cur) (enumValues t)) = v"
proof (rule bit_word_eqI)
  fix i
  assume "i < LENGTH(32)"
  have sb: "single_bit w" if "w \<in> set (enumValues t)" for w
    using assms that by (auto simp: bitfield_printable_def bitfield_wf_def list_all_iff)
  have "bit v i \<Longrightarrow> \<exists>w \<in> set (enumValues t). bit w i"
  proof -
    assume "bit v i"
    moreover have "\<not> bit (v AND NOT (BitfieldEnumArgument_getAllValuesSum t)) i"
      using assms by (simp add: bitfield_printable_def)
    ultimately have "bit (BitfieldEnumArgument_getAllValuesSum t) i"
      using \<open>i < LENGTH(32)\<close> by (simp add: bit_simps)
    moreover have "zeroEnumValue t = 0"
      using assms by (simp add: bitfield_printable_def bitfield_wf_def)
    ultimately show ?thesis
      by (simp add: BitfieldEnumArgument_getAllValuesSum_def bit_foldl_or)
  qed
  then show "bit (foldl (\<lambda>a b. a OR b) 0 (filter (\<lambda>cur. v AND cur = cur) (enumValues t))) i = bit v i"
    unfolding bit_foldl_or by (simp add: single_bit_enabled_iff [OF sb]) (metis sb single_bit_enabled_iff)
qed

lemma enabled_names_nth:
  "length ns = length es \<Longrightarrow> map snd (filter (\<lambda>(cur, n). P cur) (zip es ns)) = map ((!) ns) (filter (\<lambda>i. P (es ! i)) [0..<length es])"
proof -
  assume "length ns = length es"
  then have "zip es ns = map (\<lambda>i. (es ! i, ns ! i)) [0..<length es]"
    by (intro nth_equalityI) simp_all
  then show ?thesis by (simp add: filter_map o_def)
qed

lemma filter_nth_upt: "filter P es = map ((!) es) (filter (\<lambda>i. P (es ! i)) [0..<length es])"
proof -
  have "filter P (map ((!) es) [0..<length es]) = map ((!) es) (filter (\<lambda>i. P (es ! i)) [0..<length es])"
    by (simp add: filter_map o_def)
  then show ?thesis by (simp only: map_nth)
qed

lemma bitfield_loop_values:
  assumes "list_all2 (\<lambda>p w. BitfieldEnumArgument_parseSingleValue t p = w \<and> w \<noteq> zeroEnumValue t) ps ws"
  shows "bitfield_loop t v ps = foldl (\<lambda>a b. a OR b) v ws"
  using assms by (induction arbitrary: v rule: list_all2_induct) auto

lemma splitAt_no_sep: "sep \<notin> set p \<Longrightarrow> splitAt sep p = [p]"
  by (induction p) auto

lemma splitAt_append: "sep \<notin> set p \<Longrightarrow> splitAt sep (p @ sep # s) = p # splitAt sep s"
  by (induction p) auto

lemma splitAt_joinStrings:
  "ps \<noteq> [] \<Longrightarrow> list_all (\<lambda>p. sep \<notin> set p) (map str ps) \<Longrightarrow> splitAt sep (joinStrings [sep] ps str) = map str ps"
  by (induction "[sep]" ps str rule: joinStrings.induct) (auto simp: splitAt_no_sep splitAt_append)

lemma toLower_joinStrings:
  "toLower (joinStrings '':'' ps str) = joinStrings '':'' ps (\<lambda>p. toLower (str p))"
proof (induction "'':''" ps str rule: joinStrings.induct)
  case (3 x y ys str)
  have "tolower CHR '':'' = CHR '':''" by (simp add: tolower_def)
  with 3 show ?case by (simp add: toLower_def)
qed (simp_all add: toLower_def)

lemma tolower_not_colon: "c \<noteq> CHR '':'' \<Longrightarrow> tolower c \<noteq> CHR '':''"
proof
  assume "c \<noteq> CHR '':''" and "tolower c = CHR '':''"
  then have u: "65 \<le> (of_char c :: nat) \<and> (of_char c :: nat) \<le> 90" by (auto simp: tolower_def split: if_splits)
  then have "of_char (tolower c) = (of_char c :: nat) + 32" by (simp add: tolower_def)
  with u \<open>tolower c = CHR '':''\<close> show False by simp
qed

lemma joinStrings_chars:
  "c \<in> set (joinStrings sep ps str) \<Longrightarrow> c \<in> set sep \<or> (\<exists>p \<in> set ps. c \<in> set (str p))"
  by (induction sep ps str rule: joinStrings.induct) auto

lemma BitfieldEnumArgument_print:
  assumes "bitfield_printable t v"
  defines "is \<equiv> filter (\<lambda>i. v AND enumValues t ! i = enumValues t ! i) [0..<length (enumValues t)]"
  shows "BitfieldEnumArgument_toStringValue t v = Ok (joinStrings '':'' (map ((!) (enumValuesNames t)) is) (\<lambda>n. n))"
    and "foldl (\<lambda>a b. a OR b) 0 (map ((!) (enumValues t)) is) = v"
    and "is \<noteq> []"
proof -
  have len: "length (enumValuesNames t) = length (enumValues t)"
    using assms by (simp add: bitfield_printable_def bitfield_wf_def enum_wf_def)
  have names: "enabled_names t v = map ((!) (enumValuesNames t)) is"
    unfolding enabled_names_def is_def using enabled_names_nth [OF len] by simp
  show sum: "foldl (\<lambda>a b. a OR b) 0 (map ((!) (enumValues t)) is) = v"
    using enabled_or [OF assms(1)] filter_nth_upt [of "\<lambda>cur. v AND cur = cur" "enumValues t"] is_def by simp
  show "is \<noteq> []"
  proof
    assume "is = []"
    with sum have "v = 0" by simp
    with assms(1) show False by (simp add: bitfield_printable_def)
  qed
  with names show "BitfieldEnumArgument_toStringValue t v = Ok (joinStrings '':'' (map ((!) (enumValuesNames t)) is) (\<lambda>n. n))"
    by (simp add: BitfieldEnumArgument_toStringValue_def)
qed

lemma BitfieldEnumArgument_parse_names:
  assumes wf: "bitfield_wf t" and bound: "list_all (\<lambda>i. i < length (enumValues t)) is" and "is \<noteq> []"
  shows "BitfieldEnumArgument_parseImpl t (joinStrings '':'' (map ((!) (enumValuesNames t)) is) (\<lambda>n. n))
     = foldl (\<lambda>a b. a OR b) 0 (map ((!) (enumValues t)) is)"
proof -
  let ?ns = "map ((!) (enumValuesNames t)) is"
  have len: "length (enumValuesNames t) = length (enumValues t)"
    and low: "distinct (map toLower (enumValuesNames t))" and z: "zeroEnumValue t = 0"
    using wf by (simp_all add: bitfield_wf_def enum_wf_def)
  have nocolon: "CHR '':'' \<notin> set (toLower (enumValuesNames t ! i))" if "i < length (enumValues t)" for i
    using wf that len by (auto simp: bitfield_wf_def list_all_length toLower_def in_set_conv_nth dest!: sym [of "CHR '':''"])
      (metis tolower_not_colon)
  have "splitAt CHR '':'' (joinStrings '':'' ?ns toLower) = map toLower ?ns"
    using bound nocolon \<open>is \<noteq> []\<close> by (intro splitAt_joinStrings) (auto simp: list_all_iff)
  moreover have "list_all2 (\<lambda>p w. BitfieldEnumArgument_parseSingleValue t p = w \<and> w \<noteq> zeroEnumValue t)
      (map toLower ?ns) (map ((!) (enumValues t)) is)"
  proof (simp add: list_all2_conv_all_nth, intro allI impI)
    fix k
    assume "k < length is"
    with bound have k: "is ! k < length (enumValues t)" by (simp add: list_all_length)
    then have "single_bit (enumValues t ! (is ! k))" using wf by (simp add: bitfield_wf_def list_all_length)
    then have "enumValues t ! (is ! k) \<noteq> 0" by (auto simp: single_bit_iff)
    with k z show "BitfieldEnumArgument_parseSingleValue t (toLower (enumValuesNames t ! (is ! k)))
        = enumValues t ! (is ! k) \<and> enumValues t ! (is ! k) \<noteq> zeroEnumValue t"
      by (simp add: BitfieldEnumArgument_parseSingleValue_def lookup_value_nth [OF len low])
  qed
  ultimately show ?thesis
    by (simp add: BitfieldEnumArgument_parseImpl_def toLower_joinStrings bitfield_loop_values z)
qed

interpretation bitfield: argument_codec
  "BitfieldEnumArgument_toStringValue t" "\<lambda>_ s. Ok (BitfieldEnumArgument_parseImpl t s)"
  "bitfield_printable t" for t
proof
  fix v
  assume v: "bitfield_printable t v"
  define "is" where "is = filter (\<lambda>i. v AND enumValues t ! i = enumValues t ! i) [0..<length (enumValues t)]"
  note pr = BitfieldEnumArgument_print [OF v, folded is_def]
  have wf: "bitfield_wf t" using v by (simp add: bitfield_printable_def)
  have bound: "list_all (\<lambda>i. i < length (enumValues t)) is" by (auto simp: is_def list_all_iff)
  have "\<not> isspace c" if "i \<in> set is" "c \<in> set (enumValuesNames t ! i)" for i c
    using that bound wf by (auto simp: bitfield_wf_def enum_wf_def list_all_iff)
  then have "\<not> isspace c" if "c \<in> set (joinStrings '':'' (map ((!) (enumValuesNames t)) is) (\<lambda>n. n))" for c
    using joinStrings_chars [OF that] by (auto simp: isspace_def)
  with pr(1) show "\<exists>s. BitfieldEnumArgument_toStringValue t v = Ok s \<and> list_all (\<lambda>c. \<not> isspace c) s"
    by (simp add: list_all_iff)
  fix old s
  assume "BitfieldEnumArgument_toStringValue t v = Ok s"
  with pr BitfieldEnumArgument_parse_names [OF wf bound pr(3)]
  show "Ok (BitfieldEnumArgument_parseImpl t s) = Ok v" by simp
qed

section \<open>Properties\<close>

text \<open>
  C4: Every byte size of the range of \<open>int64_t\<close> that is not a nonzero multiple of \<open>1024^4\<close> is printed
  with the largest unit that divides it, and parsing the printed text gives exactly that size back,
  whatever value the argument held before.
\<close>

theorem ByteSizeArgument_roundtrip:
  assumes "in_i64 v" and "v = 0 \<or> \<not> 1024 ^ 4 dvd v"
  shows "\<exists>w u. u < 4 \<and> v = w * 1024 ^ u \<and> (v = 0 \<or> \<not> 1024 dvd w)
     \<and> ByteSizeArgument_toStringValue v = Ok (to_string w @ printUnits ! u)
     \<and> (\<forall>old. ByteSizeArgument_parseImpl old (to_string w @ printUnits ! u) = Ok v)"
proof -
  have v: "byteSize_printable v" using assms by (simp add: byteSize_printable_def)
  show ?thesis by (rule ByteSizeArgument_print [OF v]) (use byteSize.parse_print [OF v] in blast)
qed

theorem ByteSizeArgument_roundtrip_witness:
  "\<exists>w u. u < 4 \<and> 3145728 = w * 1024 ^ u \<and> \<not> 1024 dvd w
     \<and> ByteSizeArgument_toStringValue 3145728 = Ok (to_string w @ printUnits ! u)
     \<and> (\<forall>old. ByteSizeArgument_parseImpl old (to_string w @ printUnits ! u) = Ok 3145728)"
  using ByteSizeArgument_roundtrip [of 3145728] by (simp add: in_i64_def)

text \<open>
  Printing a byte size indexes the array of units out of bounds exactly on the nonzero
  multiples of \<open>1024^4\<close>.
\<close>

lemma ByteSizeArgument_toStringValue_out_of_bounds:
  "ByteSizeArgument_toStringValue v = Inl (Undefined_behaviour ''units[currentUnit]'')
     \<longleftrightarrow> v \<noteq> 0 \<and> 1024 ^ 4 dvd v"
  by (auto simp: ByteSizeArgument_toStringValue_cases split: prod.splits)

text \<open>
  A bit mask of at least one bit prints as one character per bit and parses back to itself; the
  result is valid unless the mask is zero and the argument refuses zero.
\<close>

theorem BitmaskArgument_roundtrip:
  assumes "v < 2 ^ bitsCount" and "0 < bitsCount"
  shows "length (BitmaskArgument_toStringValue bitsCount v) = bitsCount
    \<and> BitmaskArgument_parseImpl bitsCount canBeAllZeros old (BitmaskArgument_toStringValue bitsCount v)
        = (v, canBeAllZeros \<or> v \<noteq> 0)"
  using BitmaskArgument_parse_print [OF assms] by (simp add: BitmaskArgument_toStringValue_def)

lemma colon_split:
  assumes "count_list s c = 2"
  obtains x y z where "s = x @ c # y @ c # z" "c \<notin> set x" "c \<notin> set y" "c \<notin> set z"
proof -
  have "c \<in> set s" using assms by (metis count_notin zero_neq_numeral)
  then obtain x r where s: "s = x @ c # r" "c \<notin> set x" by (metis split_list_first)
  then have r: "count_list r c = 1" using assms by (simp add: count_list_append)
  then have "c \<in> set r" by (metis count_notin zero_neq_one)
  then obtain y z where "r = y @ c # z" "c \<notin> set y" by (metis split_list_first)
  moreover from this r have "c \<notin> set z" by (simp add: count_list_append count_list_0_iff)
  ultimately show thesis using s that by simp
qed

lemma ThreeComponentUintArgument_parse_too_few:
  assumes "count_list s CHR '':'' < 2"
  shows "\<exists>m. ThreeComponentUintArgument_parseImpl s = FATAL_ERROR m"
proof (cases "CHR '':'' \<in> set s")
  case False
  then show ?thesis
    by (simp add: ThreeComponentUintArgument_parseImpl_def find_from_def find_str_char_None)
next
  case True
  then obtain x r where s: "s = x @ CHR '':'' # r" "CHR '':'' \<notin> set x" by (metis split_list_first)
  with assms have "CHR '':'' \<notin> set r" by (simp add: count_list_append count_list_0_iff)
  then have "find_from s '':'' (Suc (length x)) = None"
    using find_from_after [of "x @ '':''" r "'':''"] s(1) by (simp add: find_str_char_None)
  moreover have "find_from s '':'' 0 = Some (length x)"
    using s find_str_char_append by (simp add: find_from_def)
  ultimately show ?thesis
    by (simp add: ThreeComponentUintArgument_parseImpl_def npos_succ_def)
qed

lemma ThreeComponentUintArgument_parse_too_many:
  assumes "2 < count_list s CHR '':''"
  shows "\<exists>m. ThreeComponentUintArgument_parseImpl s = FATAL_ERROR m"
proof -
  have "CHR '':'' \<in> set s" using assms by (metis count_notin not_less0)
  then obtain x r where s: "s = x @ CHR '':'' # r" "CHR '':'' \<notin> set x" by (metis split_list_first)
  then have r: "1 < count_list r CHR '':''" using assms by (simp add: count_list_append)
  then have "CHR '':'' \<in> set r" by (metis count_notin not_less0)
  then obtain y z where y: "r = y @ CHR '':'' # z" "CHR '':'' \<notin> set y" by (metis split_list_first)
  with r have "0 < count_list z CHR '':''" by (simp add: count_list_append)
  then have "CHR '':'' \<in> set z" by (metis count_notin not_less0)
  then have "find_str z '':'' \<noteq> None" by (simp add: find_str_char_None)
  with colon_positions [OF s(2) y(2), of z] s(1) y(1) show ?thesis
    by (auto simp: ThreeComponentUintArgument_parseImpl_def npos_succ_def FATAL_ERROR_IF_def)
qed

lemma ThreeComponentUintArgument_parse_two:
  assumes "count_list s CHR '':'' = 2"
  shows "ThreeComponentUintArgument_parseImpl s \<noteq> FATAL_ERROR m"
proof -
  obtain x y z where "s = x @ '':'' @ y @ '':'' @ z"
    and "CHR '':'' \<notin> set x" "CHR '':'' \<notin> set y" "CHR '':'' \<notin> set z"
    using colon_split [OF assms] by auto
  then show ?thesis
    using ThreeComponentUintArgument_parseImpl_three [of x y z] by (auto simp: bindR_eq_Inl atoi_def split: if_splits)
qed

text \<open>
  A three-component argument is refused with a fatal error exactly when its text does not have
  two colons; otherwise each of the three parts is read on its own, and a value whose components
  fit in \<open>int\<close> is read back from its printed form.
\<close>

theorem ThreeComponentUintArgument_parse:
  "((\<exists>m. ThreeComponentUintArgument_parseImpl s = FATAL_ERROR m) \<longleftrightarrow> count_list s CHR '':'' \<noteq> 2)
   \<and> (three_printable v \<longrightarrow>
        ThreeComponentUintArgument_parseImpl (ThreeComponentUintArgument_toStringValue v) = Ok v)"
  using ThreeComponentUintArgument_parse_too_few [of s] ThreeComponentUintArgument_parse_too_many [of s]
    ThreeComponentUintArgument_parse_two [of s] three.parse_print [of v, OF _ refl]
  by (meson linorder_neqE_nat)

end
