(* ===== verification/Device_Selection.thy ===== *)
theory Device_Selection
  imports Cpp_Prelude
begin

unbundle bit_operations_syntax

text \<open>
  \<open>framework/enum/device_selection.h\<close>: the bit field of devices a benchmark may use, and
  \<open>DeviceSelectionHelper\<close>. A selection is the underlying \<open>int\<close>, a 32-bit word, so that
  selections the enumeration does not name (unions, complements, stray bits) are values too.
  The abstract view of a selection is the set of its device numbers (\<open>devices_of\<close>); the
  lemmas show that every helper computes the corresponding set operation.
\<close>

section \<open>The bit field\<close>

type_synonym DeviceSelection = "32 word"

definition DS_Unknown :: DeviceSelection where "DS_Unknown = 0"
definition DS_Host :: DeviceSelection where "DS_Host = push_bit 0 1"
definition DS_Root :: DeviceSelection where "DS_Root = push_bit 1 1"
definition DS_Tile0 :: DeviceSelection where "DS_Tile0 = push_bit 2 1"
definition DS_Tile1 :: DeviceSelection where "DS_Tile1 = push_bit 3 1"
definition DS_Tile2 :: DeviceSelection where "DS_Tile2 = push_bit 4 1"
definition DS_Tile3 :: DeviceSelection where "DS_Tile3 = push_bit 5 1"

definition DS_or :: "DeviceSelection \<Rightarrow> DeviceSelection \<Rightarrow> DeviceSelection" where
  "DS_or a b = a OR b"

definition DS_and :: "DeviceSelection \<Rightarrow> DeviceSelection \<Rightarrow> DeviceSelection" where
  "DS_and a b = a AND b"

definition DS_not :: "DeviceSelection \<Rightarrow> DeviceSelection" where
  "DS_not a = NOT a"

section \<open>DeviceSelectionHelper\<close>

definition devices :: "DeviceSelection list" where
  "devices = [DS_Host, DS_Root, DS_Tile0, DS_Tile1, DS_Tile2, DS_Tile3]"

definition subDevices :: "DeviceSelection list" where
  "subDevices = [DS_Tile0, DS_Tile1, DS_Tile2, DS_Tile3]"

definition getSubDeviceIndex :: "DeviceSelection \<Rightarrow> nat result" where
  "getSubDeviceIndex d =
     (if d = DS_Tile0 then Ok 0
      else if d = DS_Tile1 then Ok 1
      else if d = DS_Tile2 then Ok 2
      else if d = DS_Tile3 then Ok 3
      else FATAL_ERROR ''Unknown device selection'')"

definition hasDevice :: "DeviceSelection \<Rightarrow> DeviceSelection \<Rightarrow> bool result" where
  "hasDevice deviceSelection device =
     FATAL_ERROR_IF (device = DS_Unknown) ''Cannot check for unknown device''
       (Ok (DS_and deviceSelection device = device))"

definition getMaxSubDeviceIndex :: "DeviceSelection \<Rightarrow> nat result" where
  "getMaxSubDeviceIndex deviceSelection =
     bindR
       (foldM (\<lambda>(found, maxIndex) subDevice.
           bindR (hasDevice deviceSelection subDevice) (\<lambda>has.
             if has then bindR (getSubDeviceIndex subDevice) (\<lambda>i. Ok (True, max maxIndex i))
             else Ok (found, maxIndex)))
         (False, 0) subDevices)
       (\<lambda>(found, maxIndex).
          FATAL_ERROR_IF (\<not> found)
            ''Cannot call getMaxSubDeviceIndex, when there aren't any subDevices''
            (Ok maxIndex))"

fun anyM :: "('a \<Rightarrow> bool result) \<Rightarrow> 'a list \<Rightarrow> bool result" where
  "anyM p [] = Ok False"
| "anyM p (x # xs) = bindR (p x) (\<lambda>b. if b then Ok True else anyM p xs)"

definition hasAnySubDevice :: "DeviceSelection \<Rightarrow> bool result" where
  "hasAnySubDevice deviceSelection = anyM (hasDevice deviceSelection) subDevices"

definition getDevicesCount :: "DeviceSelection \<Rightarrow> nat result" where
  "getDevicesCount deviceSelection =
     foldM (\<lambda>deviceCount device.
         bindR (hasDevice deviceSelection device)
           (\<lambda>has. Ok (if has then deviceCount + 1 else deviceCount)))
       0 devices"

definition hasSingleDevice :: "DeviceSelection \<Rightarrow> bool result" where
  "hasSingleDevice deviceSelection = bindR (getDevicesCount deviceSelection) (\<lambda>n. Ok (n = 1))"

definition hasHost :: "DeviceSelection \<Rightarrow> bool result" where
  "hasHost deviceSelection = hasDevice deviceSelection DS_Host"

definition withoutHost :: "DeviceSelection \<Rightarrow> DeviceSelection" where
  "withoutHost deviceSelection = DS_and deviceSelection (DS_not DS_Host)"

definition split_selection :: "DeviceSelection \<Rightarrow> DeviceSelection list result" where
  "split_selection deviceSelection =
     foldM (\<lambda>res device.
         bindR (hasDevice deviceSelection device)
           (\<lambda>has. Ok (if has then res @ [device] else res)))
       [] devices"

text \<open>\<open>&&\<close> does not evaluate \<open>hasDevice(superset, device)\<close> where its left side is false.\<close>

definition isSubset :: "DeviceSelection \<Rightarrow> DeviceSelection \<Rightarrow> bool result" where
  "isSubset super sub =
     bindR
       (anyM (\<lambda>device.
           bindR (hasDevice sub device) (\<lambda>inSub.
             if inSub then bindR (hasDevice super device) (\<lambda>inSuper. Ok (\<not> inSuper))
             else Ok False))
         devices)
       (\<lambda>missing. Ok (\<not> missing))"

definition DS_toString :: "DeviceSelection \<Rightarrow> string result" where
  "DS_toString d =
     (if d = DS_Tile0 then Ok ''Tile0''
      else if d = DS_Tile1 then Ok ''Tile1''
      else if d = DS_Tile2 then Ok ''Tile2''
      else if d = DS_Tile3 then Ok ''Tile3''
      else FATAL_ERROR ''Unknown device selection'')"

section \<open>The abstract view\<close>

definition device :: "nat \<Rightarrow> DeviceSelection" where
  "device i = push_bit i 1"

definition devices_of :: "DeviceSelection \<Rightarrow> nat set" where
  "devices_of d = {i. i < 6 \<and> bit d i}"

lemmas DS_defs = DS_Unknown_def DS_Host_def DS_Root_def DS_Tile0_def DS_Tile1_def DS_Tile2_def DS_Tile3_def

lemma devices_eq: "devices = map device [0..<6]"
  by (simp add: devices_def DS_defs device_def upt_conv_Cons)

lemma subDevices_eq: "subDevices = map (\<lambda>j. device (j + 2)) [0..<4]"
  by (simp add: subDevices_def DS_defs device_def upt_conv_Cons)

lemma and_device_eq: "i < 32 \<Longrightarrow> d AND device i = device i \<longleftrightarrow> bit d i"
proof
  assume "i < 32" and "d AND device i = device i"
  then have "bit (d AND device i) i \<longleftrightarrow> bit (device i) i" by simp
  with \<open>i < 32\<close> show "bit d i" by (simp add: device_def bit_simps)
next
  assume "i < 32" and "bit d i"
  then show "d AND device i = device i"
    by (intro bit_word_eqI) (auto simp: device_def bit_simps)
qed

lemma device_neq_0: "i < 32 \<Longrightarrow> device i \<noteq> 0"
  by (metis and_device_eq and_zero_eq bit_0_eq bot_apply bot_bool_def)

lemma hasDevice_device [simp]: "i < 32 \<Longrightarrow> hasDevice d (device i) = Ok (bit d i)"
  by (simp add: hasDevice_def DS_Unknown_def device_neq_0 DS_and_def and_device_eq)

lemma device_inject: "i < 32 \<Longrightarrow> j < 32 \<Longrightarrow> device i = device j \<longleftrightarrow> i = j"
proof
  assume "i < 32" "j < 32" "device i = device j"
  then have "bit (device j) i" by (metis and.idem and_device_eq)
  with \<open>i < 32\<close> show "i = j" by (auto simp: device_def bit_simps)
qed simp

lemma getSubDeviceIndex_device [simp]: "j < 4 \<Longrightarrow> getSubDeviceIndex (device (j + 2)) = Ok j"
proof -
  assume j: "j < 4"
  have tiles: "DS_Tile0 = device 2" "DS_Tile1 = device 3" "DS_Tile2 = device 4" "DS_Tile3 = device 5"
    by (simp_all add: DS_defs device_def)
  from j show ?thesis by (auto simp: getSubDeviceIndex_def tiles device_inject)
qed

lemma foldM_filter_devices:
  "\<forall>i \<in> set is. i < 32 \<Longrightarrow>
   foldM (\<lambda>s dev. bindR (hasDevice d dev) (\<lambda>has. Ok (if has then g s dev else s))) s (map device is)
     = Ok (foldl g s (map device (filter (bit d) is)))"
  by (induction "is" arbitrary: s) auto

lemma anyM_pure: "(\<And>x. x \<in> set xs \<Longrightarrow> p x = Ok (q x)) \<Longrightarrow> anyM p xs = Ok (list_ex q xs)"
  by (induction xs) auto

lemma foldl_snoc: "foldl (\<lambda>xs x. xs @ [x]) ys zs = ys @ zs"
  by (induction zs arbitrary: ys) auto

lemma foldl_count: "foldl (\<lambda>n _. Suc n) k zs = k + length zs"
  by (induction zs arbitrary: k) auto

lemma split_selection_eq: "split_selection d = Ok (map device (filter (bit d) [0..<6]))"
  unfolding split_selection_def devices_eq
  by (subst foldM_filter_devices) (auto simp: foldl_snoc)

lemma getDevicesCount_eq: "getDevicesCount d = Ok (length (filter (bit d) [0..<6]))"
  unfolding getDevicesCount_def devices_eq
  by (subst foldM_filter_devices [where g = "\<lambda>n _. n + 1"]) (simp_all add: foldl_count)

lemma length_filter_devices: "length (filter (bit d) [0..<6]) = card (devices_of d)"
proof -
  have "set (filter (bit d) [0..<6]) = devices_of d" by (auto simp: devices_of_def)
  then show ?thesis by (metis distinct_card distinct_filter distinct_upt)
qed

lemma hasAnySubDevice_eq: "hasAnySubDevice d = Ok (\<exists>j<4. bit d (j + 2))"
proof -
  have "hasAnySubDevice d = Ok (list_ex (\<lambda>j. bit d (j + 2)) [0..<4])"
    unfolding hasAnySubDevice_def subDevices_eq
    by (subst anyM_pure [where q = "\<lambda>dv. d AND dv = dv"]) (auto simp: and_device_eq list_ex_iff)
  then show ?thesis by (auto simp: list_ex_iff)
qed

lemma isSubset_eq: "isSubset super sub = Ok (devices_of sub \<subseteq> devices_of super)"
proof -
  have "isSubset super sub = Ok (\<not> list_ex (\<lambda>dv. sub AND dv = dv \<and> super AND dv \<noteq> dv) devices)"
    unfolding isSubset_def devices_eq
    by (subst anyM_pure [where q = "\<lambda>dv. sub AND dv = dv \<and> super AND dv \<noteq> dv"])
      (auto simp: and_device_eq)
  then show ?thesis
    by (auto simp: devices_eq list_ex_iff and_device_eq devices_of_def)
qed

lemma devices_of_withoutHost [simp]: "devices_of (withoutHost d) = devices_of d - {0}"
  by (auto simp: withoutHost_def DS_and_def DS_not_def DS_Host_def devices_of_def bit_simps)

lemma devices_of_or [simp]: "devices_of (DS_or a b) = devices_of a \<union> devices_of b"
  by (auto simp: devices_of_def DS_or_def bit_simps)

lemma devices_of_and [simp]: "devices_of (DS_and a b) = devices_of a \<inter> devices_of b"
  by (auto simp: devices_of_def DS_and_def bit_simps)

lemma devices_of_device: "i < 6 \<Longrightarrow> devices_of (device i) = {i}"
  by (auto simp: devices_of_def device_def bit_simps)

lemma bit_fold_or: "bit (foldr DS_or ds 0) i \<longleftrightarrow> (\<exists>d \<in> set ds. bit d i)"
  by (induction ds) (auto simp: DS_or_def bit_simps)

section \<open>Properties\<close>

text \<open>C25: \<open>DeviceSelectionHelper\<close> implements sets of devices: for every 32-bit selection
  \<open>split\<close>, \<open>getDevicesCount\<close>, \<open>hasSingleDevice\<close>, \<open>hasAnySubDevice\<close> and \<open>isSubset\<close> succeed and return
  the elements, the cardinality, the singleton test, the test for a tile and the inclusion of the
  sets of device bits, and \<open>withoutHost\<close> removes exactly the host.\<close>

theorem DeviceSelectionHelper_refines_sets:
  "split_selection d = Ok (map device (sorted_list_of_set (devices_of d)))
   \<and> getDevicesCount d = Ok (card (devices_of d))
   \<and> hasSingleDevice d = Ok (\<exists>i. devices_of d = {i})
   \<and> hasAnySubDevice d = Ok (devices_of d \<inter> {2, 3, 4, 5} \<noteq> {})
   \<and> isSubset super d = Ok (devices_of d \<subseteq> devices_of super)
   \<and> devices_of (withoutHost d) = devices_of d - {0}"
proof -
  have "sorted_list_of_set (set (filter (bit d) [0..<6])) = filter (bit d) [0..<6]"
    by (rule sorted_list_of_set.idem_if_sorted_distinct) (simp_all add: sorted_wrt_filter)
  moreover have "set (filter (bit d) [0..<6]) = devices_of d"
    by (auto simp: devices_of_def)
  ultimately have "filter (bit d) [0..<6] = sorted_list_of_set (devices_of d)" by simp
  moreover have "(\<exists>j<4. bit d (j + 2)) \<longleftrightarrow> devices_of d \<inter> {2, 3, 4, 5} \<noteq> {}"
  proof -
    have "(\<exists>j<4. bit d (j + 2)) \<longleftrightarrow> bit d 2 \<or> bit d 3 \<or> bit d 4 \<or> bit d 5"
      by (auto simp: numeral_eq_Suc less_Suc_eq)
    then show ?thesis by (auto simp: devices_of_def)
  qed
  ultimately show ?thesis
    by (simp add: split_selection_eq getDevicesCount_eq length_filter_devices hasSingleDevice_def
        hasAnySubDevice_eq isSubset_eq card_1_singleton_iff)
qed

text \<open>splitting a selection into its devices and uniting them again gives the selection
  back, except for bits that name no device.\<close>

theorem split_selection_union:
  "\<exists>ds. split_selection d = Ok ds \<and> foldr DS_or ds DS_Unknown = DS_and d (mask 6)"
proof -
  have "foldr DS_or (map device (filter (bit d) [0..<6])) 0 = d AND mask 6"
    by (rule bit_eqI) (auto simp: bit_fold_or bit_simps device_def)
  then show ?thesis by (simp add: split_selection_eq DS_Unknown_def DS_and_def)
qed

end
