(* ===== verification/Enum_Arguments.thy ===== *)
theory Enum_Arguments
  imports Arguments Enums Device_Selection
begin

unbundle bit_operations_syntax

text \<open>
  The derived classes of \<open>EnumArgument\<close> and \<open>BitfieldEnumArgument\<close> under
  \<open>framework/argument/enum/\<close>: each is the record of the static members it declares. The lemmas
  \<open>enum_tables_wf\<close> and \<open>bitfield_tables_wf\<close> evaluate that every table meets what the generic round
  trips need; \<open>UsmDeviceSelectionArgumentBase\<close> adds its own \<open>validateExtra\<close>.
\<close>

section \<open>Tables\<close>

definition AllocationMeasureModeArgument :: "AllocationMeasureMode enum_traits" where
  "AllocationMeasureModeArgument =
     \<lparr> enumName = ''Measure type of allocation'', invalidEnumValue = AMM_Unknown,
       enumValues = [AMM_Allocate, AMM_Free, AMM_Both],
       enumValuesNames = [''Allocate'', ''Free'', ''Both''] \<rparr>"

definition ApiArgument :: "Api enum_traits" where
  "ApiArgument =
     \<lparr> enumName = ''api'', invalidEnumValue = Api_Unknown,
       enumValues = [OpenCL, L0, SYCL, OMP, Api_All],
       enumValuesNames = [''ocl'', ''l0'', ''sycl'', ''omp'', ''all''] \<rparr>"

definition AtomicMathOperationArgument :: "MathOperation enum_traits" where
  "AtomicMathOperationArgument =
     \<lparr> enumName = ''atomic math operation'', invalidEnumValue = MO_Unknown,
       enumValues = [MO_Add, MO_Sub, MO_Xchg, MO_CmpXchg, MO_Inc, MO_Dec, MO_Min, MO_Max, MO_And,
       MO_Or, MO_Xor],
       enumValuesNames = [''Add'', ''Sub'', ''Xchg'', ''CmpXchg'', ''Inc'', ''Dec'', ''Min'', ''Max'',
       ''And'', ''Or'', ''Xor''] \<rparr>"

definition AtomicMemoryOrderArgument :: "AtomicMemoryOrder enum_traits" where
  "AtomicMemoryOrderArgument =
     \<lparr> enumName = ''atomic memory order'', invalidEnumValue = AMO_Unknown,
       enumValues = [Relaxed, Acquire, Release, AcquireRelease, SequentialConsitent],
       enumValuesNames = [''relaxed'', ''acquire'', ''release'', ''acq_rel'', ''seq_cst''] \<rparr>"

definition AtomicScopeArgument :: "AtomicScope enum_traits" where
  "AtomicScopeArgument =
     \<lparr> enumName = ''atomic scope'', invalidEnumValue = AS_Unknown,
       enumValues = [Workgroup, AS_Device],
       enumValuesNames = [''Workgroup'', ''Device''] \<rparr>"

definition BufferContentsArgument :: "BufferContents enum_traits" where
  "BufferContentsArgument =
     \<lparr> enumName = ''buffer contents'', invalidEnumValue = BC_Unknown,
       enumValues = [BC_Zeros, BC_Random],
       enumValuesNames = [''Zeros'', ''Random''] \<rparr>"

definition DataTypeArgument :: "DataType enum_traits" where
  "DataTypeArgument =
     \<lparr> enumName = ''data type'', invalidEnumValue = DT_Unknown,
       enumValues = [Int32, Int64, Float],
       enumValuesNames = [''Int32'', ''Int64'', ''Float''] \<rparr>"

definition DeviceSelectionArgument :: "DeviceSelection enum_traits" where
  "DeviceSelectionArgument =
     \<lparr> enumName = ''device selection'', invalidEnumValue = DS_Unknown,
       enumValues = [DS_Root, DS_Tile0, DS_Tile1, DS_Tile2, DS_Tile3],
       enumValuesNames = [''Root'', ''Tile0'', ''Tile1'', ''Tile2'', ''Tile3''] \<rparr>"

definition EngineArgument :: "Engine enum_traits" where
  "EngineArgument =
     \<lparr> enumName = ''engine selection'', invalidEnumValue = Engine_Unknown,
       enumValues = [Rcs, Ccs0, Ccs1, Ccs2, Ccs3, Bcs, Bcs1, Bcs2, Bcs3, Bcs4, Bcs5, Bcs6, Bcs7, Bcs8],
       enumValuesNames = [''RCS'', ''CCS0'', ''CCS1'', ''CCS2'', ''CCS3'', ''BCS'', ''BCS1'', ''BCS2'',
       ''BCS3'', ''BCS4'', ''BCS5'', ''BCS6'', ''BCS7'', ''BCS8''] \<rparr>"

definition EventScopeArgument :: "EventScope enum_traits" where
  "EventScopeArgument =
     \<lparr> enumName = ''event scope selection'', invalidEnumValue = ES_Unknown,
       enumValues = [ES_scopeSubDevice, ES_scopeDevice, ES_scopeHost, ES_none],
       enumValuesNames = [''subdevice'', ''device'', ''host'', ''none''] \<rparr>"

definition HostptrBufferReuseModeArgument :: "HostptrReuseMode enum_traits" where
  "HostptrBufferReuseModeArgument =
     \<lparr> enumName = ''Buffer hostptr reuse mode'', invalidEnumValue = HRM_Unknown,
       enumValues = [HRM_None, HRM_Usm, HRM_Map],
       enumValuesNames = [''None'', ''Usm'', ''Map''] \<rparr>"

definition HostptrImageReuseModeArgument :: "HostptrReuseMode enum_traits" where
  "HostptrImageReuseModeArgument =
     \<lparr> enumName = ''Image hostptr reuse mode'', invalidEnumValue = HRM_Unknown,
       enumValues = [HRM_None, HRM_Map],
       enumValuesNames = [''None'', ''Map''] \<rparr>"

definition MapFlagsArgument :: "MapFlags enum_traits" where
  "MapFlagsArgument =
     \<lparr> enumName = ''map flag'', invalidEnumValue = MF_Unknown,
       enumValues = [MF_Read, MF_Write, MF_WriteInvalidate],
       enumValuesNames = [''Read'', ''Write'', ''WriteInvalidate''] \<rparr>"

definition MpiStatisticsTypeArgument :: "MpiStatisticsType enum_traits" where
  "MpiStatisticsTypeArgument =
     \<lparr> enumName = ''MPI statistics type'', invalidEnumValue = MST_Unknown,
       enumValues = [MST_Avg, MST_Max, MST_Min],
       enumValuesNames = [''Avg'', ''Max'', ''Min''] \<rparr>"

definition MultiDeviceSelectionArgument :: "DeviceSelection enum_traits" where
  "MultiDeviceSelectionArgument =
     \<lparr> enumName = ''multi device selection'', invalidEnumValue = DS_Unknown,
       enumValues = [DS_Root, DS_Tile0, DS_Tile1, DS_Tile2, DS_Tile3],
       enumValuesNames = [''Root'', ''Tile0'', ''Tile1'', ''Tile2'', ''Tile3''] \<rparr>"

definition MultipleTilesSelectionArgument :: "DeviceSelection enum_traits" where
  "MultipleTilesSelectionArgument =
     \<lparr> enumName = ''multiple tiles selection'', invalidEnumValue = DS_Unknown,
       enumValues = [DS_Tile0, DS_Tile1, DS_Tile2, DS_Tile3],
       enumValuesNames = [''Tile0'', ''Tile1'', ''Tile2'', ''Tile3''] \<rparr>"

definition NormalMathOperationArgument :: "MathOperation enum_traits" where
  "NormalMathOperationArgument =
     \<lparr> enumName = ''atomic math operation'', invalidEnumValue = MO_Unknown,
       enumValues = [MO_Add, MO_Sub, MO_Div, MO_Modulo, MO_Inc, MO_Dec, MO_Min, MO_Max, MO_And, MO_Or,
       MO_Xor],
       enumValuesNames = [''Add'', ''Sub'', ''Div'', ''Modulo'', ''Inc'', ''Dec'', ''Min'', ''Max'',
       ''And'', ''Or'', ''Xor''] \<rparr>"

definition StreamMemoryTypeArgument :: "StreamMemoryType enum_traits" where
  "StreamMemoryTypeArgument =
     \<lparr> enumName = ''stream memory type'', invalidEnumValue = SMT_Unknown,
       enumValues = [SMT_Read, SMT_Write, SMT_Scale, SMT_Triad],
       enumValuesNames = [''Read'', ''Write'', ''Scale'', ''Triad''] \<rparr>"

definition DeviceSelectionArgumentBaseTraits :: "DeviceSelection enum_traits" where
  "DeviceSelectionArgumentBaseTraits =
     \<lparr> enumName = ''usm device selection'', invalidEnumValue = DS_Unknown,
       enumValues = [DS_Host, DS_Root, DS_Tile0, DS_Tile1, DS_Tile2, DS_Tile3],
       enumValuesNames = [''Host'', ''Root'', ''Tile0'', ''Tile1'', ''Tile2'', ''Tile3''] \<rparr>"

definition UsmInitialPlacementArgument :: "UsmInitialPlacement enum_traits" where
  "UsmInitialPlacementArgument =
     \<lparr> enumName = ''USM initial placement'', invalidEnumValue = UIP_Unknown,
       enumValues = [UIP_Any, UIP_Host, UIP_Device],
       enumValuesNames = [''Any'', ''Host'', ''Device''] \<rparr>"

definition UsmMemAdvisePreferredLocationArgument :: "UsmMemAdvisePreferredLocation enum_traits" where
  "UsmMemAdvisePreferredLocationArgument =
     \<lparr> enumName = ''USM memadise preferred location'', invalidEnumValue = UMAPL_Unknown,
       enumValues = [UMAPL_System, UMAPL_Device, UMAPL_None],
       enumValuesNames = [''System'', ''Device'', ''None''] \<rparr>"

definition UsmMemoryPlacementArgument :: "UsmMemoryPlacement enum_traits" where
  "UsmMemoryPlacementArgument =
     \<lparr> enumName = ''memory placement'', invalidEnumValue = UMP_Unknown,
       enumValues = [UMP_Device, UMP_Host, UMP_Shared, UMP_NonUsm, UMP_NonUsmImported,
       UMP_NonUsmMapped, UMP_NonUsm2MBAligned, UMP_NonUsmImported2MBAligned],
       enumValuesNames = [''Device'', ''Host'', ''Shared'', ''non-USM'', ''non-USM-imported'',
       ''non-USM-mapped'', ''non-usm2MBAligned'', ''non-USM2MBAligned-imported''] \<rparr>"

definition UsmRuntimeMemoryPlacementArgument :: "UsmRuntimeMemoryPlacement enum_traits" where
  "UsmRuntimeMemoryPlacementArgument =
     \<lparr> enumName = ''memory placement'', invalidEnumValue = URMP_Unknown,
       enumValues = [URMP_Device, URMP_Host, URMP_Shared],
       enumValuesNames = [''Device'', ''Host'', ''Shared''] \<rparr>"

definition WorkItemIdUsageArgument :: "WorkItemIdUsage enum_traits" where
  "WorkItemIdUsageArgument =
     \<lparr> enumName = ''work item id usage'', invalidEnumValue = WIU_Unknown,
       enumValues = [WIU_None, WIU_Global, WIU_Local, WIU_AtomicPerWorkgroup],
       enumValuesNames = [''None'', ''Global'', ''Local'', ''AtomicPerWkg''] \<rparr>"

definition StreamMemoryEmbargoTypeArgument :: "StreamMemoryEmbargoType enum_traits" where
  "StreamMemoryEmbargoTypeArgument =
     \<lparr> enumName = ''stream memory embargo type'', invalidEnumValue = SMET_Unknown,
       enumValues = [SMET_Stream_3BytesRGBtoY, SMET_Stream_3BytesAlignedRGBtoY],
       enumValuesNames = [''stream_3bytesRGBtoY'', ''stream_3BytesAlignedRGBtoY''] \<rparr>"


section \<open>usm\_device\_selection\_argument.h\<close>

definition UsmDeviceSelectionArgumentBase_validateExtra ::
  "bool \<Rightarrow> bool \<Rightarrow> bool \<Rightarrow> DeviceSelection \<Rightarrow> bool result" where
  "UsmDeviceSelectionArgumentBase_validateExtra allowHost allowDevice allowShared v =
     (let gpuDevices = withoutHost v
      in bindR (getDevicesCount gpuDevices) (\<lambda>gpuDevicesCount.
         if gpuDevicesCount > 1 then Ok False
         else bindR (hasDevice v DS_Host) (\<lambda>hasHost.
           let hasDevice = (gpuDevicesCount = 1)
           in if hasHost \<and> hasDevice then Ok allowShared
              else if hasHost then Ok allowHost
              else if hasDevice then Ok allowDevice
              else FATAL_ERROR ''Unreachable code in UsmDeviceSelectionArgumentBase'')))"

definition UsmDeviceSelectionArgument_validate :: "DeviceSelection \<Rightarrow> bool result" where
  "UsmDeviceSelectionArgument_validate =
     BitfieldEnumArgument_validate DeviceSelectionArgumentBaseTraits
       (UsmDeviceSelectionArgumentBase_validateExtra True True True)"

definition UsmSharedDeviceSelectionArgument_validate :: "DeviceSelection \<Rightarrow> bool result" where
  "UsmSharedDeviceSelectionArgument_validate =
     BitfieldEnumArgument_validate DeviceSelectionArgumentBaseTraits
       (UsmDeviceSelectionArgumentBase_validateExtra False False True)"

section \<open>The tables are well formed\<close>

lemma enum_tables_wf:
    "enum_wf AllocationMeasureModeArgument"
    "enum_wf ApiArgument"
    "enum_wf AtomicMathOperationArgument"
    "enum_wf AtomicMemoryOrderArgument"
    "enum_wf AtomicScopeArgument"
    "enum_wf BufferContentsArgument"
    "enum_wf DataTypeArgument"
    "enum_wf EngineArgument"
    "enum_wf EventScopeArgument"
    "enum_wf HostptrBufferReuseModeArgument"
    "enum_wf HostptrImageReuseModeArgument"
    "enum_wf MapFlagsArgument"
    "enum_wf MpiStatisticsTypeArgument"
    "enum_wf NormalMathOperationArgument"
    "enum_wf StreamMemoryTypeArgument"
    "enum_wf UsmInitialPlacementArgument"
    "enum_wf UsmMemAdvisePreferredLocationArgument"
    "enum_wf UsmMemoryPlacementArgument"
    "enum_wf UsmRuntimeMemoryPlacementArgument"
    "enum_wf WorkItemIdUsageArgument"
    "enum_wf StreamMemoryEmbargoTypeArgument"
  by code_simp+

lemma DS_single_bit:
  "single_bit DS_Host" "single_bit DS_Root" "single_bit DS_Tile0" "single_bit DS_Tile1"
  "single_bit DS_Tile2" "single_bit DS_Tile3"
  by (simp_all add: DS_defs single_bit_def upt_conv_Cons)

definition names_wf :: "string list \<Rightarrow> bool" where
  "names_wf ns \<longleftrightarrow> distinct (map toLower ns) \<and> list_all (list_all (\<lambda>c. \<not> isspace c)) ns"

lemma device_names_wf:
  "names_wf [''Host'', ''Root'', ''Tile0'', ''Tile1'', ''Tile2'', ''Tile3'']"
  "names_wf [''Root'', ''Tile0'', ''Tile1'', ''Tile2'', ''Tile3'']"
  "names_wf [''Tile0'', ''Tile1'', ''Tile2'', ''Tile3'']"
  by code_simp+

lemma device_tables_enum_wf:
  "enum_wf DeviceSelectionArgument" "enum_wf MultiDeviceSelectionArgument"
  "enum_wf MultipleTilesSelectionArgument" "enum_wf DeviceSelectionArgumentBaseTraits"
  unfolding enum_wf_def names_wf_def [symmetric]
  by (simp_all add: DeviceSelectionArgument_def MultiDeviceSelectionArgument_def
      MultipleTilesSelectionArgument_def DeviceSelectionArgumentBaseTraits_def device_names_wf DS_defs)

lemma bitfield_tables_wf:
    "bitfield_wf MultiDeviceSelectionArgument"
    "bitfield_wf MultipleTilesSelectionArgument"
    "bitfield_wf DeviceSelectionArgumentBaseTraits"
  using device_tables_enum_wf DS_single_bit
  by (simp_all add: bitfield_wf_def MultiDeviceSelectionArgument_def MultipleTilesSelectionArgument_def
      DeviceSelectionArgumentBaseTraits_def DS_Unknown_def)

lemma allValuesSum_usm: "BitfieldEnumArgument_getAllValuesSum DeviceSelectionArgumentBaseTraits = mask 6"
  by (simp add: BitfieldEnumArgument_getAllValuesSum_def DeviceSelectionArgumentBaseTraits_def DS_defs
      mask_eq_exp_minus_1)

lemma usm_values: "enumValues DeviceSelectionArgumentBaseTraits = devices"
  by (simp add: DeviceSelectionArgumentBaseTraits_def devices_def)

lemma enabled_devices: "filter (\<lambda>cur. v AND cur = cur) devices = map device (filter (bit v) [0..<6])"
  unfolding devices_eq filter_map by (auto simp: o_def and_device_eq intro!: arg_cong [where f = "map device"] filter_cong)

lemma validateExtra_eq:
  assumes "devices_of v \<noteq> {}"
  shows "UsmDeviceSelectionArgumentBase_validateExtra allowHost allowDevice allowShared v =
     Ok (card (devices_of v - {0}) \<le> 1
         \<and> (if 0 \<in> devices_of v then (if devices_of v = {0} then allowHost else allowShared)
            else allowDevice))"
proof -
  have fin: "finite (devices_of v)" by (simp add: devices_of_def)
  have host: "hasDevice v DS_Host = Ok (0 \<in> devices_of v)"
    using hasDevice_device [of 0 v] by (simp add: device_def DS_Host_def devices_of_def)
  have "getDevicesCount (withoutHost v) = Ok (card (devices_of v - {0}))"
    by (simp add: getDevicesCount_eq length_filter_devices)
  moreover have "card (devices_of v - {0}) = 0 \<longleftrightarrow> devices_of v = {0}"
    using assms fin by auto
  ultimately show ?thesis
    using host by (auto simp: UsmDeviceSelectionArgumentBase_validateExtra_def Let_def)
qed

section \<open>Properties\<close>

text \<open>
  For every enumeration argument whose table is well formed (all tables of the framework are,
  by \<open>enum_tables_wf\<close>), each value that validates is printed, and parsing the printed name, in any
  case, gives the value back.
\<close>

lemma EnumArgument_roundtrip:
  assumes "enum_wf t" and "EnumArgument_validate t v"
  shows "\<exists>s. EnumArgument_toStringValue t v = Ok s \<and> EnumArgument_parseImpl t s = v
     \<and> (\<forall>s'. toLower s' = toLower s \<longrightarrow> EnumArgument_parseImpl t s' = v)"
proof -
  obtain s where "EnumArgument_toStringValue t v = Ok s"
    using enum.print_ok [of t v] assms by blast
  moreover from this have "EnumArgument_parseImpl t s = v"
    using enum.parse_print [of t v s] assms by simp
  ultimately show ?thesis by (auto simp: EnumArgument_parseImpl_def)
qed

text \<open>
  C24: For every bit-field argument whose enumerators are single bits with distinct names, each
  nonzero combination of enumerators is printed as their names joined with colons and parses back
  to the same bits.
\<close>

theorem BitfieldEnumArgument_roundtrip:
  assumes "bitfield_wf t" and "v \<noteq> 0" and "v AND NOT (BitfieldEnumArgument_getAllValuesSum t) = 0"
  shows "BitfieldEnumArgument_toStringValue t v = Ok (joinStrings '':'' (enabled_names t v) (\<lambda>n. n))
     \<and> BitfieldEnumArgument_parseImpl t (joinStrings '':'' (enabled_names t v) (\<lambda>n. n)) = v"
proof -
  have v: "bitfield_printable t v" using assms by (simp add: bitfield_printable_def)
  then obtain s where s: "BitfieldEnumArgument_toStringValue t v = Ok s" using bitfield.print_ok by blast
  with bitfield.parse_print [OF v s] show ?thesis
    by (auto simp: BitfieldEnumArgument_toStringValue_def FATAL_ERROR_IF_def split: if_splits)
qed

theorem BitfieldEnumArgument_roundtrip_witness:
  "BitfieldEnumArgument_parseImpl DeviceSelectionArgumentBaseTraits
     (joinStrings '':'' (enabled_names DeviceSelectionArgumentBaseTraits 9) (\<lambda>n. n)) = 9"
  using BitfieldEnumArgument_roundtrip [of DeviceSelectionArgumentBaseTraits 9] bitfield_tables_wf
  by (simp add: allValuesSum_usm mask_eq_exp_minus_1)

text \<open>
  Validating a USM device selection never reaches the code marked unreachable. It accepts
  exactly the selections of known devices with at most one GPU device where the combination is
  allowed: host and GPU with \<open>allowShared\<close>, host alone with \<open>allowHost\<close>, GPU alone with
  \<open>allowDevice\<close>.
\<close>

lemma UsmDeviceSelectionArgument_validate_iff:
  "BitfieldEnumArgument_validate DeviceSelectionArgumentBaseTraits
     (UsmDeviceSelectionArgumentBase_validateExtra allowHost allowDevice allowShared) v =
   Ok (devices_of v \<noteq> {} \<and> v AND NOT (mask 6) = 0 \<and> card (devices_of v - {0}) \<le> 1
       \<and> (if 0 \<in> devices_of v then (if devices_of v = {0} then allowHost else allowShared)
          else allowDevice))"
proof -
  have "length (filter (\<lambda>cur. v AND cur = cur) (enumValues DeviceSelectionArgumentBaseTraits)) = card (devices_of v)"
    by (simp add: usm_values enabled_devices length_filter_devices)
  moreover have "card (devices_of v) = 0 \<longleftrightarrow> devices_of v = {}"
    by (simp add: devices_of_def)
  moreover have "zeroEnumValue DeviceSelectionArgumentBaseTraits = 0"
    by (simp add: DeviceSelectionArgumentBaseTraits_def DS_Unknown_def)
  ultimately show ?thesis
    using validateExtra_eq [of v allowHost allowDevice allowShared]
    by (auto simp: BitfieldEnumArgument_validate_def Let_def allValuesSum_usm)
qed

end
