(* ===== verification/Command_Line.thy ===== *)
theory Command_Line
  imports String_Utils
begin

text \<open>
  \<open>framework/utility/command_line_argument.cpp\<close>: the tokens of the command line as objects that
  remember whether some argument container has consumed them. Messages to the error stream
  (\<open>DEVELOPER_WARNING\<close>) are not state and are left out. The lemmas characterise exactly which
  command lines \<open>parseArguments\<close> accepts and what it returns.
\<close>

section \<open>CommandLineArgument\<close>

record CommandLineArgument =
  cla_key :: string
  cla_value :: string
  valid :: bool
  processed :: bool

text \<open>The constructor: an ill-formed token leaves key and value at their initial values.\<close>

definition make_CommandLineArgument :: "string \<Rightarrow> CommandLineArgument" where
  "make_CommandLineArgument token =
     (case parseArgumentToKeyValue token of
        None \<Rightarrow> \<lparr>cla_key = '''', cla_value = '''', valid = False, processed = False\<rparr>
      | Some (k, v) \<Rightarrow> \<lparr>cla_key = k, cla_value = v, valid = True, processed = False\<rparr>)"

definition illFormedMessage :: "string \<Rightarrow> string" where
  "illFormedMessage token =
     ''Argument \"'' @ token @ ''\" is ill-formed. All arguments have to follow syntax: --<key>[=value]''"

definition duplicateMessage :: "string \<Rightarrow> string" where
  "duplicateMessage k = ''Argument with a key \"'' @ k @ ''\" is provided more than once''"

text \<open>
  The loop over \<open>argv[1]\<close> and up with the set of keys seen so far. On failure \<open>outArguments\<close> is
  cleared and the error message is set; that message is the left value of the sum.
\<close>

fun parseArguments_loop ::
  "string set \<Rightarrow> CommandLineArgument list \<Rightarrow> string list \<Rightarrow> string + CommandLineArgument list" where
  "parseArguments_loop allKeys outArguments [] = Inr outArguments"
| "parseArguments_loop allKeys outArguments (token # argv) =
     (let arg = make_CommandLineArgument token
      in if \<not> valid arg then Inl (illFormedMessage token)
         else if cla_key arg \<in> allKeys then Inl (duplicateMessage (cla_key arg))
         else parseArguments_loop (insert (cla_key arg) allKeys) (outArguments @ [arg]) argv)"

definition cla_parseArguments :: "string list \<Rightarrow> string + CommandLineArgument list" where
  "cla_parseArguments argv = parseArguments_loop {} [] (drop 1 argv)"

definition getUnprocessedArguments :: "CommandLineArgument list \<Rightarrow> CommandLineArgument list" where
  "getUnprocessedArguments arguments = filter (\<lambda>a. \<not> processed a) arguments"

definition markAsProcessed :: "CommandLineArgument \<Rightarrow> CommandLineArgument" where
  "markAsProcessed a = a\<lparr>processed := True\<rparr>"

definition isKeyEqualTo :: "CommandLineArgument \<Rightarrow> string \<Rightarrow> bool" where
  "isKeyEqualTo a otherKey = (if \<not> valid a then False else cla_key a = otherKey)"

section \<open>Accepted command lines\<close>

lemma parseArguments_loop_Inr_iff:
  "parseArguments_loop ks out argv = Inr r \<longleftrightarrow>
     (\<forall>t \<in> set argv. parseArgumentToKeyValue t \<noteq> None)
     \<and> distinct (map (fst \<circ> the \<circ> parseArgumentToKeyValue) argv)
     \<and> ks \<inter> set (map (fst \<circ> the \<circ> parseArgumentToKeyValue) argv) = {}
     \<and> r = out @ map make_CommandLineArgument argv"
proof (induction argv arbitrary: ks out)
  case (Cons t argv)
  show ?case
  proof (cases "parseArgumentToKeyValue t")
    case (Some kv)
    then obtain k v where kv: "parseArgumentToKeyValue t = Some (k, v)" by (cases kv) auto
    show ?thesis
      using Cons.IH [of "insert k ks" "out @ [make_CommandLineArgument t]"] kv
      by (auto simp: Let_def make_CommandLineArgument_def [of t])
  qed (simp add: make_CommandLineArgument_def)
qed auto

lemma make_CommandLineArgument_keys:
  "parseArgumentToKeyValue t \<noteq> None \<Longrightarrow>
   cla_key (make_CommandLineArgument t) = fst (the (parseArgumentToKeyValue t))
   \<and> valid (make_CommandLineArgument t) \<and> \<not> processed (make_CommandLineArgument t)"
  by (auto simp: make_CommandLineArgument_def)

section \<open>Properties\<close>

text \<open>\<open>CommandLineArgument::parseArguments\<close> accepts a command line exactly when every token
  after the program name is well formed and no key occurs twice; then it returns one unprocessed,
  valid argument per token, in order.\<close>

lemma parseArguments_accepts_iff:
  "cla_parseArguments argv = Inr args \<longleftrightarrow>
     list_all (\<lambda>t. parseArgumentToKeyValue t \<noteq> None) (drop 1 argv)
     \<and> distinct (map (fst \<circ> the \<circ> parseArgumentToKeyValue) (drop 1 argv))
     \<and> args = map make_CommandLineArgument (drop 1 argv)"
  by (simp add: cla_parseArguments_def parseArguments_loop_Inr_iff list_all_iff)

text \<open>a token is read as key and value exactly when it is \<open>--key=value\<close> with a key that has
  no \<open>=\<close>, or the flag \<open>--key\<close> with a nonempty key and an empty value; every other token is
  rejected.\<close>

theorem parseArgumentToKeyValue_iff:
  "parseArgumentToKeyValue a = Some (k, v) \<longleftrightarrow>
     CHR ''='' \<notin> set k \<and> (a = ''--'' @ k @ ''='' @ v \<or> a = ''--'' @ k \<and> v = '''' \<and> k \<noteq> [])"
  using parseArgumentToKeyValue_Some_cases [of a k v] parseArgumentToKeyValue_pair [of k v]
    parseArgumentToKeyValue_flag [of k]
  by blast

end
