(* ===== verification/Argument_Container.thy ===== *)
theory Argument_Container
  imports Enum_Arguments Command_Line
begin

text \<open>
  \<open>framework/argument/abstract/argument.cpp\<close> and \<open>framework/argument/argument_container.cpp\<close>: the
  base class \<open>Argument\<close> with its virtual functions, and the container that parses, validates and
  prints the arguments of a benchmark.

  A container holds arguments of different classes. \<open>arg_value\<close> has one constructor per class that
  can be instantiated, carrying the members of the class; the functions on it are the virtual
  dispatch to the overrides of \<open>Arguments\<close> and \<open>Enum_Arguments\<close>. A container is the list of its
  arguments in the order in which their constructors pushed them.
\<close>

section \<open>Enumeration arguments\<close>

datatype enum_value =
    E_AllocationMeasureMode AllocationMeasureMode
  | E_Api Api
  | E_AtomicMathOperation MathOperation
  | E_AtomicMemoryOrder AtomicMemoryOrder
  | E_AtomicScope AtomicScope
  | E_BufferContents BufferContents
  | E_DataType DataType
  | E_DeviceSelection DeviceSelection
  | E_Engine Engine
  | E_EventScope EventScope
  | E_HostptrBufferReuseMode HostptrReuseMode
  | E_HostptrImageReuseMode HostptrReuseMode
  | E_MapFlags MapFlags
  | E_MpiStatisticsType MpiStatisticsType
  | E_NormalMathOperation MathOperation
  | E_StreamMemoryType StreamMemoryType
  | E_UsmInitialPlacement UsmInitialPlacement
  | E_UsmMemAdvisePreferredLocation UsmMemAdvisePreferredLocation
  | E_UsmMemoryPlacement UsmMemoryPlacement
  | E_UsmRuntimeMemoryPlacement UsmRuntimeMemoryPlacement
  | E_WorkItemIdUsage WorkItemIdUsage
  | E_StreamMemoryEmbargoType StreamMemoryEmbargoType

fun enum_default :: "enum_value \<Rightarrow> enum_value" where
  "enum_default (E_AllocationMeasureMode _) = E_AllocationMeasureMode AMM_Unknown"
| "enum_default (E_Api _) = E_Api Api_Unknown"
| "enum_default (E_AtomicMathOperation _) = E_AtomicMathOperation MO_Unknown"
| "enum_default (E_AtomicMemoryOrder _) = E_AtomicMemoryOrder AMO_Unknown"
| "enum_default (E_AtomicScope _) = E_AtomicScope AS_Unknown"
| "enum_default (E_BufferContents _) = E_BufferContents BC_Unknown"
| "enum_default (E_DataType _) = E_DataType DT_Unknown"
| "enum_default (E_DeviceSelection _) = E_DeviceSelection DS_Unknown"
| "enum_default (E_Engine _) = E_Engine Engine_Unknown"
| "enum_default (E_EventScope _) = E_EventScope ES_Unknown"
| "enum_default (E_HostptrBufferReuseMode _) = E_HostptrBufferReuseMode HRM_Unknown"
| "enum_default (E_HostptrImageReuseMode _) = E_HostptrImageReuseMode HRM_Unknown"
| "enum_default (E_MapFlags _) = E_MapFlags MF_Unknown"
| "enum_default (E_MpiStatisticsType _) = E_MpiStatisticsType MST_Unknown"
| "enum_default (E_NormalMathOperation _) = E_NormalMathOperation MO_Unknown"
| "enum_default (E_StreamMemoryType _) = E_StreamMemoryType SMT_Unknown"
| "enum_default (E_UsmInitialPlacement _) = E_UsmInitialPlacement UIP_Unknown"
| "enum_default (E_UsmMemAdvisePreferredLocation _) = E_UsmMemAdvisePreferredLocation UMAPL_Unknown"
| "enum_default (E_UsmMemoryPlacement _) = E_UsmMemoryPlacement UMP_Unknown"
| "enum_default (E_UsmRuntimeMemoryPlacement _) = E_UsmRuntimeMemoryPlacement URMP_Unknown"
| "enum_default (E_WorkItemIdUsage _) = E_WorkItemIdUsage WIU_Unknown"
| "enum_default (E_StreamMemoryEmbargoType _) = E_StreamMemoryEmbargoType SMET_Unknown"

fun enum_validate :: "enum_value \<Rightarrow> bool" where
  "enum_validate (E_AllocationMeasureMode v) = EnumArgument_validate AllocationMeasureModeArgument v"
| "enum_validate (E_Api v) = EnumArgument_validate ApiArgument v"
| "enum_validate (E_AtomicMathOperation v) = EnumArgument_validate AtomicMathOperationArgument v"
| "enum_validate (E_AtomicMemoryOrder v) = EnumArgument_validate AtomicMemoryOrderArgument v"
| "enum_validate (E_AtomicScope v) = EnumArgument_validate AtomicScopeArgument v"
| "enum_validate (E_BufferContents v) = EnumArgument_validate BufferContentsArgument v"
| "enum_validate (E_DataType v) = EnumArgument_validate DataTypeArgument v"
| "enum_validate (E_DeviceSelection v) = EnumArgument_validate DeviceSelectionArgument v"
| "enum_validate (E_Engine v) = EnumArgument_validate EngineArgument v"
| "enum_validate (E_EventScope v) = EnumArgument_validate EventScopeArgument v"
| "enum_validate (E_HostptrBufferReuseMode v) = EnumArgument_validate HostptrBufferReuseModeArgument v"
| "enum_validate (E_HostptrImageReuseMode v) = EnumArgument_validate HostptrImageReuseModeArgument v"
| "enum_validate (E_MapFlags v) = EnumArgument_validate MapFlagsArgument v"
| "enum_validate (E_MpiStatisticsType v) = EnumArgument_validate MpiStatisticsTypeArgument v"
| "enum_validate (E_NormalMathOperation v) = EnumArgument_validate NormalMathOperationArgument v"
| "enum_validate (E_StreamMemoryType v) = EnumArgument_validate StreamMemoryTypeArgument v"
| "enum_validate (E_UsmInitialPlacement v) = EnumArgument_validate UsmInitialPlacementArgument v"
| "enum_validate (E_UsmMemAdvisePreferredLocation v) = EnumArgument_validate UsmMemAdvisePreferredLocationArgument v"
| "enum_validate (E_UsmMemoryPlacement v) = EnumArgument_validate UsmMemoryPlacementArgument v"
| "enum_validate (E_UsmRuntimeMemoryPlacement v) = EnumArgument_validate UsmRuntimeMemoryPlacementArgument v"
| "enum_validate (E_WorkItemIdUsage v) = EnumArgument_validate WorkItemIdUsageArgument v"
| "enum_validate (E_StreamMemoryEmbargoType v) = EnumArgument_validate StreamMemoryEmbargoTypeArgument v"

fun enum_toStringValue :: "enum_value \<Rightarrow> string result" where
  "enum_toStringValue (E_AllocationMeasureMode v) = EnumArgument_toStringValue AllocationMeasureModeArgument v"
| "enum_toStringValue (E_Api v) = EnumArgument_toStringValue ApiArgument v"
| "enum_toStringValue (E_AtomicMathOperation v) = EnumArgument_toStringValue AtomicMathOperationArgument v"
| "enum_toStringValue (E_AtomicMemoryOrder v) = EnumArgument_toStringValue AtomicMemoryOrderArgument v"
| "enum_toStringValue (E_AtomicScope v) = EnumArgument_toStringValue AtomicScopeArgument v"
| "enum_toStringValue (E_BufferContents v) = EnumArgument_toStringValue BufferContentsArgument v"
| "enum_toStringValue (E_DataType v) = EnumArgument_toStringValue DataTypeArgument v"
| "enum_toStringValue (E_DeviceSelection v) = EnumArgument_toStringValue DeviceSelectionArgument v"
| "enum_toStringValue (E_Engine v) = EnumArgument_toStringValue EngineArgument v"
| "enum_toStringValue (E_EventScope v) = EnumArgument_toStringValue EventScopeArgument v"
| "enum_toStringValue (E_HostptrBufferReuseMode v) = EnumArgument_toStringValue HostptrBufferReuseModeArgument v"
| "enum_toStringValue (E_HostptrImageReuseMode v) = EnumArgument_toStringValue HostptrImageReuseModeArgument v"
| "enum_toStringValue (E_MapFlags v) = EnumArgument_toStringValue MapFlagsArgument v"
| "enum_toStringValue (E_MpiStatisticsType v) = EnumArgument_toStringValue MpiStatisticsTypeArgument v"
| "enum_toStringValue (E_NormalMathOperation v) = EnumArgument_toStringValue NormalMathOperationArgument v"
| "enum_toStringValue (E_StreamMemoryType v) = EnumArgument_toStringValue StreamMemoryTypeArgument v"
| "enum_toStringValue (E_UsmInitialPlacement v) = EnumArgument_toStringValue UsmInitialPlacementArgument v"
| "enum_toStringValue (E_UsmMemAdvisePreferredLocation v) = EnumArgument_toStringValue UsmMemAdvisePreferredLocationArgument v"
| "enum_toStringValue (E_UsmMemoryPlacement v) = EnumArgument_toStringValue UsmMemoryPlacementArgument v"
| "enum_toStringValue (E_UsmRuntimeMemoryPlacement v) = EnumArgument_toStringValue UsmRuntimeMemoryPlacementArgument v"
| "enum_toStringValue (E_WorkItemIdUsage v) = EnumArgument_toStringValue WorkItemIdUsageArgument v"
| "enum_toStringValue (E_StreamMemoryEmbargoType v) = EnumArgument_toStringValue StreamMemoryEmbargoTypeArgument v"

fun enum_parseImpl :: "enum_value \<Rightarrow> string \<Rightarrow> enum_value" where
  "enum_parseImpl (E_AllocationMeasureMode _) s = E_AllocationMeasureMode (EnumArgument_parseImpl AllocationMeasureModeArgument s)"
| "enum_parseImpl (E_Api _) s = E_Api (EnumArgument_parseImpl ApiArgument s)"
| "enum_parseImpl (E_AtomicMathOperation _) s = E_AtomicMathOperation (EnumArgument_parseImpl AtomicMathOperationArgument s)"
| "enum_parseImpl (E_AtomicMemoryOrder _) s = E_AtomicMemoryOrder (EnumArgument_parseImpl AtomicMemoryOrderArgument s)"
| "enum_parseImpl (E_AtomicScope _) s = E_AtomicScope (EnumArgument_parseImpl AtomicScopeArgument s)"
| "enum_parseImpl (E_BufferContents _) s = E_BufferContents (EnumArgument_parseImpl BufferContentsArgument s)"
| "enum_parseImpl (E_DataType _) s = E_DataType (EnumArgument_parseImpl DataTypeArgument s)"
| "enum_parseImpl (E_DeviceSelection _) s = E_DeviceSelection (EnumArgument_parseImpl DeviceSelectionArgument s)"
| "enum_parseImpl (E_Engine _) s = E_Engine (EnumArgument_parseImpl EngineArgument s)"
| "enum_parseImpl (E_EventScope _) s = E_EventScope (EnumArgument_parseImpl EventScopeArgument s)"
| "enum_parseImpl (E_HostptrBufferReuseMode _) s = E_HostptrBufferReuseMode (EnumArgument_parseImpl HostptrBufferReuseModeArgument s)"
| "enum_parseImpl (E_HostptrImageReuseMode _) s = E_HostptrImageReuseMode (EnumArgument_parseImpl HostptrImageReuseModeArgument s)"
| "enum_parseImpl (E_MapFlags _) s = E_MapFlags (EnumArgument_parseImpl MapFlagsArgument s)"
| "enum_parseImpl (E_MpiStatisticsType _) s = E_MpiStatisticsType (EnumArgument_parseImpl MpiStatisticsTypeArgument s)"
| "enum_parseImpl (E_NormalMathOperation _) s = E_NormalMathOperation (EnumArgument_parseImpl NormalMathOperationArgument s)"
| "enum_parseImpl (E_StreamMemoryType _) s = E_StreamMemoryType (EnumArgument_parseImpl StreamMemoryTypeArgument s)"
| "enum_parseImpl (E_UsmInitialPlacement _) s = E_UsmInitialPlacement (EnumArgument_parseImpl UsmInitialPlacementArgument s)"
| "enum_parseImpl (E_UsmMemAdvisePreferredLocation _) s = E_UsmMemAdvisePreferredLocation (EnumArgument_parseImpl UsmMemAdvisePreferredLocationArgument s)"
| "enum_parseImpl (E_UsmMemoryPlacement _) s = E_UsmMemoryPlacement (EnumArgument_parseImpl UsmMemoryPlacementArgument s)"
| "enum_parseImpl (E_UsmRuntimeMemoryPlacement _) s = E_UsmRuntimeMemoryPlacement (EnumArgument_parseImpl UsmRuntimeMemoryPlacementArgument s)"
| "enum_parseImpl (E_WorkItemIdUsage _) s = E_WorkItemIdUsage (EnumArgument_parseImpl WorkItemIdUsageArgument s)"
| "enum_parseImpl (E_StreamMemoryEmbargoType _) s = E_StreamMemoryEmbargoType (EnumArgument_parseImpl StreamMemoryEmbargoTypeArgument s)"

fun enum_composeHelpMessage :: "enum_value \<Rightarrow> string \<Rightarrow> string" where
  "enum_composeHelpMessage (E_AllocationMeasureMode _) p = EnumArgument_composeHelpMessage AllocationMeasureModeArgument p"
| "enum_composeHelpMessage (E_Api _) p = EnumArgument_composeHelpMessage ApiArgument p"
| "enum_composeHelpMessage (E_AtomicMathOperation _) p = EnumArgument_composeHelpMessage AtomicMathOperationArgument p"
| "enum_composeHelpMessage (E_AtomicMemoryOrder _) p = EnumArgument_composeHelpMessage AtomicMemoryOrderArgument p"
| "enum_composeHelpMessage (E_AtomicScope _) p = EnumArgument_composeHelpMessage AtomicScopeArgument p"
| "enum_composeHelpMessage (E_BufferContents _) p = EnumArgument_composeHelpMessage BufferContentsArgument p"
| "enum_composeHelpMessage (E_DataType _) p = EnumArgument_composeHelpMessage DataTypeArgument p"
| "enum_composeHelpMessage (E_DeviceSelection _) p = EnumArgument_composeHelpMessage DeviceSelectionArgument p"
| "enum_composeHelpMessage (E_Engine _) p = EnumArgument_composeHelpMessage EngineArgument p"
| "enum_composeHelpMessage (E_EventScope _) p = EnumArgument_composeHelpMessage EventScopeArgument p"
| "enum_composeHelpMessage (E_HostptrBufferReuseMode _) p = EnumArgument_composeHelpMessage HostptrBufferReuseModeArgument p"
| "enum_composeHelpMessage (E_HostptrImageReuseMode _) p = EnumArgument_composeHelpMessage HostptrImageReuseModeArgument p"
| "enum_composeHelpMessage (E_MapFlags _) p = EnumArgument_composeHelpMessage MapFlagsArgument p"
| "enum_composeHelpMessage (E_MpiStatisticsType _) p = EnumArgument_composeHelpMessage MpiStatisticsTypeArgument p"
| "enum_composeHelpMessage (E_NormalMathOperation _) p = EnumArgument_composeHelpMessage NormalMathOperationArgument p"
| "enum_composeHelpMessage (E_StreamMemoryType _) p = EnumArgument_composeHelpMessage StreamMemoryTypeArgument p"
| "enum_composeHelpMessage (E_UsmInitialPlacement _) p = EnumArgument_composeHelpMessage UsmInitialPlacementArgument p"
| "enum_composeHelpMessage (E_UsmMemAdvisePreferredLocation _) p = EnumArgument_composeHelpMessage UsmMemAdvisePreferredLocationArgument p"
| "enum_composeHelpMessage (E_UsmMemoryPlacement _) p = EnumArgument_composeHelpMessage UsmMemoryPlacementArgument p"
| "enum_composeHelpMessage (E_UsmRuntimeMemoryPlacement _) p = EnumArgument_composeHelpMessage UsmRuntimeMemoryPlacementArgument p"
| "enum_composeHelpMessage (E_WorkItemIdUsage _) p = EnumArgument_composeHelpMessage WorkItemIdUsageArgument p"
| "enum_composeHelpMessage (E_StreamMemoryEmbargoType _) p = EnumArgument_composeHelpMessage StreamMemoryEmbargoTypeArgument p"

section \<open>Values of every argument class\<close>

datatype arg_value =
    Arg_Integer int
  | Arg_Uint32 int
  | Arg_PositiveInteger int
  | Arg_FractionBase int
  | Arg_NonNegativeInteger int
  | Arg_ByteSize int
  | Arg_Boolean int
  | Arg_CompressionBoolean int
  | Arg_BooleanFlag bool bool
  | Arg_String string bool
  | Arg_StringList "string list" bool
  | Arg_LongHex "8 word list"
  | Arg_Bitmask nat bool nat bool
  | Arg_ThreeComponentUint three
  | Arg_ThreeComponentOffset three
  | Arg_ThreeComponentSize three
  | Arg_Enum enum_value
  | Arg_MultiDeviceSelection DeviceSelection
  | Arg_MultipleTilesSelection DeviceSelection
  | Arg_UsmDeviceSelection DeviceSelection
  | Arg_UsmSharedDeviceSelection DeviceSelection

text \<open>The member initialisers: what an argument holds before it is assigned or parsed.\<close>

fun default_value :: "arg_value \<Rightarrow> arg_value" where
  "default_value (Arg_Integer _) = Arg_Integer 0"
| "default_value (Arg_Uint32 _) = Arg_Uint32 0"
| "default_value (Arg_PositiveInteger _) = Arg_PositiveInteger 0"
| "default_value (Arg_FractionBase _) = Arg_FractionBase 0"
| "default_value (Arg_NonNegativeInteger _) = Arg_NonNegativeInteger 0"
| "default_value (Arg_ByteSize _) = Arg_ByteSize 0"
| "default_value (Arg_Boolean _) = Arg_Boolean (-1)"
| "default_value (Arg_CompressionBoolean _) = Arg_CompressionBoolean (-1)"
| "default_value (Arg_BooleanFlag _ _) = Arg_BooleanFlag False True"
| "default_value (Arg_String _ _) = Arg_String [] False"
| "default_value (Arg_StringList _ _) = Arg_StringList [] False"
| "default_value (Arg_LongHex _) = Arg_LongHex []"
| "default_value (Arg_Bitmask bitsCount canBeAllZeros _ _) = Arg_Bitmask bitsCount canBeAllZeros 0 True"
| "default_value (Arg_ThreeComponentUint _) = Arg_ThreeComponentUint (0, 0, 0)"
| "default_value (Arg_ThreeComponentOffset _) = Arg_ThreeComponentOffset (0, 0, 0)"
| "default_value (Arg_ThreeComponentSize _) = Arg_ThreeComponentSize (0, 0, 0)"
| "default_value (Arg_Enum e) = Arg_Enum (enum_default e)"
| "default_value (Arg_MultiDeviceSelection _) = Arg_MultiDeviceSelection 0"
| "default_value (Arg_MultipleTilesSelection _) = Arg_MultipleTilesSelection 0"
| "default_value (Arg_UsmDeviceSelection _) = Arg_UsmDeviceSelection 0"
| "default_value (Arg_UsmSharedDeviceSelection _) = Arg_UsmSharedDeviceSelection 0"

text \<open>\<open>noIntelExtensions\<close> is the flag of the global \<open>Configuration\<close> that one override reads.\<close>

fun toStringValue :: "bool \<Rightarrow> arg_value \<Rightarrow> string result" where
  "toStringValue noIntelExtensions (Arg_Integer v) = Ok (IntegerArgumentBase_toStringValue v)"
| "toStringValue noIntelExtensions (Arg_Uint32 v) = Ok (Unsigned32BitArgumentBase_toStringValue v)"
| "toStringValue noIntelExtensions (Arg_PositiveInteger v) = Ok (IntegerArgumentBase_toStringValue v)"
| "toStringValue noIntelExtensions (Arg_FractionBase v) = Ok (FractionBaseArgument_toStringValue v)"
| "toStringValue noIntelExtensions (Arg_NonNegativeInteger v) = Ok (IntegerArgumentBase_toStringValue v)"
| "toStringValue noIntelExtensions (Arg_ByteSize v) = ByteSizeArgument_toStringValue v"
| "toStringValue noIntelExtensions (Arg_Boolean v) = Ok (BooleanArgument_toStringValue v)"
| "toStringValue noIntelExtensions (Arg_CompressionBoolean v) =
     Ok (CompressionBooleanArgument_toStringValue noIntelExtensions v)"
| "toStringValue noIntelExtensions (Arg_BooleanFlag v _) = Ok (BooleanFlagArgument_toStringValue v)"
| "toStringValue noIntelExtensions (Arg_String v _) = Ok v"
| "toStringValue noIntelExtensions (Arg_StringList _ _) = StringListArgument_toStringValue"
| "toStringValue noIntelExtensions (Arg_LongHex v) = Ok (LongHexArgument_toStringValue v)"
| "toStringValue noIntelExtensions (Arg_Bitmask bitsCount _ v _) = Ok (BitmaskArgument_toStringValue bitsCount v)"
| "toStringValue noIntelExtensions (Arg_ThreeComponentUint v) = Ok (ThreeComponentUintArgument_toStringValue v)"
| "toStringValue noIntelExtensions (Arg_ThreeComponentOffset v) = Ok (ThreeComponentUintArgument_toStringValue v)"
| "toStringValue noIntelExtensions (Arg_ThreeComponentSize v) = Ok (ThreeComponentUintArgument_toStringValue v)"
| "toStringValue noIntelExtensions (Arg_Enum e) = enum_toStringValue e"
| "toStringValue noIntelExtensions (Arg_MultiDeviceSelection v) =
     BitfieldEnumArgument_toStringValue MultiDeviceSelectionArgument v"
| "toStringValue noIntelExtensions (Arg_MultipleTilesSelection v) =
     BitfieldEnumArgument_toStringValue MultipleTilesSelectionArgument v"
| "toStringValue noIntelExtensions (Arg_UsmDeviceSelection v) =
     BitfieldEnumArgument_toStringValue DeviceSelectionArgumentBaseTraits v"
| "toStringValue noIntelExtensions (Arg_UsmSharedDeviceSelection v) =
     BitfieldEnumArgument_toStringValue DeviceSelectionArgumentBaseTraits v"

fun parseImpl :: "arg_value \<Rightarrow> string \<Rightarrow> arg_value result" where
  "parseImpl (Arg_Integer _) s = bindR (IntegerArgumentBase_parseImpl s) (\<lambda>v. Ok (Arg_Integer v))"
| "parseImpl (Arg_Uint32 _) s = bindR (Unsigned32BitArgumentBase_parseImpl s) (\<lambda>v. Ok (Arg_Uint32 v))"
| "parseImpl (Arg_PositiveInteger _) s = bindR (IntegerArgumentBase_parseImpl s) (\<lambda>v. Ok (Arg_PositiveInteger v))"
| "parseImpl (Arg_FractionBase _) s = bindR (IntegerArgumentBase_parseImpl s) (\<lambda>v. Ok (Arg_FractionBase v))"
| "parseImpl (Arg_NonNegativeInteger _) s =
     bindR (IntegerArgumentBase_parseImpl s) (\<lambda>v. Ok (Arg_NonNegativeInteger v))"
| "parseImpl (Arg_ByteSize old) s = bindR (ByteSizeArgument_parseImpl old s) (\<lambda>v. Ok (Arg_ByteSize v))"
| "parseImpl (Arg_Boolean _) s = bindR (BooleanArgument_parseImpl s) (\<lambda>v. Ok (Arg_Boolean v))"
| "parseImpl (Arg_CompressionBoolean _) s =
     bindR (BooleanArgument_parseImpl s) (\<lambda>v. Ok (Arg_CompressionBoolean v))"
| "parseImpl (Arg_BooleanFlag _ _) s = (case BooleanFlagArgument_parseImpl s of (v, ok) \<Rightarrow> Ok (Arg_BooleanFlag v ok))"
| "parseImpl (Arg_String _ _) s = (case StringArgument_parseImpl s of (v, ok) \<Rightarrow> Ok (Arg_String v ok))"
| "parseImpl (Arg_StringList old isValid) s =
     (case StringListArgument_parseImpl (old, isValid) s of (v, ok) \<Rightarrow> Ok (Arg_StringList v ok))"
| "parseImpl (Arg_LongHex _) s = bindR (LongHexArgument_parseImpl s) (\<lambda>v. Ok (Arg_LongHex v))"
| "parseImpl (Arg_Bitmask bitsCount canBeAllZeros old _) s =
     (case BitmaskArgument_parseImpl bitsCount canBeAllZeros old s of
        (v, ok) \<Rightarrow> Ok (Arg_Bitmask bitsCount canBeAllZeros v ok))"
| "parseImpl (Arg_ThreeComponentUint _) s =
     bindR (ThreeComponentUintArgument_parseImpl s) (\<lambda>v. Ok (Arg_ThreeComponentUint v))"
| "parseImpl (Arg_ThreeComponentOffset _) s =
     bindR (ThreeComponentUintArgument_parseImpl s) (\<lambda>v. Ok (Arg_ThreeComponentOffset v))"
| "parseImpl (Arg_ThreeComponentSize _) s =
     bindR (ThreeComponentUintArgument_parseImpl s) (\<lambda>v. Ok (Arg_ThreeComponentSize v))"
| "parseImpl (Arg_Enum e) s = Ok (Arg_Enum (enum_parseImpl e s))"
| "parseImpl (Arg_MultiDeviceSelection _) s =
     Ok (Arg_MultiDeviceSelection (BitfieldEnumArgument_parseImpl MultiDeviceSelectionArgument s))"
| "parseImpl (Arg_MultipleTilesSelection _) s =
     Ok (Arg_MultipleTilesSelection (BitfieldEnumArgument_parseImpl MultipleTilesSelectionArgument s))"
| "parseImpl (Arg_UsmDeviceSelection _) s =
     Ok (Arg_UsmDeviceSelection (BitfieldEnumArgument_parseImpl DeviceSelectionArgumentBaseTraits s))"
| "parseImpl (Arg_UsmSharedDeviceSelection _) s =
     Ok (Arg_UsmSharedDeviceSelection (BitfieldEnumArgument_parseImpl DeviceSelectionArgumentBaseTraits s))"

fun validate :: "arg_value \<Rightarrow> bool result" where
  "validate (Arg_PositiveInteger v) = Ok (PositiveIntegerArgument_validate v)"
| "validate (Arg_FractionBase v) = Ok (FractionBaseArgument_validate v)"
| "validate (Arg_NonNegativeInteger v) = Ok (NonNegativeIntegerArgument_validate v)"
| "validate (Arg_ByteSize v) = Ok (PositiveIntegerArgument_validate v)"
| "validate (Arg_Boolean v) = Ok (BooleanArgument_validate v)"
| "validate (Arg_CompressionBoolean v) = Ok (BooleanArgument_validate v)"
| "validate (Arg_BooleanFlag _ isValid) = Ok isValid"
| "validate (Arg_String _ isValid) = Ok isValid"
| "validate (Arg_StringList _ isValid) = Ok isValid"
| "validate (Arg_LongHex bytes) = Ok (LongHexArgument_validate bytes)"
| "validate (Arg_Bitmask _ _ _ isValid) = Ok isValid"
| "validate (Arg_ThreeComponentSize v) = Ok (ThreeComponentSizeArgument_validate v)"
| "validate (Arg_Enum e) = Ok (enum_validate e)"
| "validate (Arg_MultiDeviceSelection v) =
     BitfieldEnumArgument_validate MultiDeviceSelectionArgument (\<lambda>_. Ok True) v"
| "validate (Arg_MultipleTilesSelection v) =
     BitfieldEnumArgument_validate MultipleTilesSelectionArgument (\<lambda>_. Ok True) v"
| "validate (Arg_UsmDeviceSelection v) = UsmDeviceSelectionArgument_validate v"
| "validate (Arg_UsmSharedDeviceSelection v) = UsmSharedDeviceSelectionArgument_validate v"
| "validate _ = Ok True"

text \<open>
  The help text a class passes to the constructor of \<open>Argument\<close>: \<open>None\<close> is the constructor without
  a help text.
\<close>

fun composeHelp :: "arg_value \<Rightarrow> string option \<Rightarrow> string" where
  "composeHelp (Arg_Boolean _) None = ''(0 or 1)''"
| "composeHelp (Arg_Boolean _) (Some h) = h @ '' (0 or 1)''"
| "composeHelp (Arg_CompressionBoolean _) None = ''(0 or 1)''"
| "composeHelp (Arg_CompressionBoolean _) (Some h) = h @ '' (0 or 1)''"
| "composeHelp (Arg_Enum e) h = enum_composeHelpMessage e (case h of None \<Rightarrow> [] | Some p \<Rightarrow> p)"
| "composeHelp (Arg_MultiDeviceSelection _) h =
     BitfieldEnumArgument_composeHelpMessage MultiDeviceSelectionArgument (case h of None \<Rightarrow> [] | Some p \<Rightarrow> p)"
| "composeHelp (Arg_MultipleTilesSelection _) h =
     BitfieldEnumArgument_composeHelpMessage MultipleTilesSelectionArgument (case h of None \<Rightarrow> [] | Some p \<Rightarrow> p)"
| "composeHelp (Arg_UsmDeviceSelection _) h =
     BitfieldEnumArgument_composeHelpMessage DeviceSelectionArgumentBaseTraits (case h of None \<Rightarrow> [] | Some p \<Rightarrow> p)"
| "composeHelp (Arg_UsmSharedDeviceSelection _) h =
     BitfieldEnumArgument_composeHelpMessage DeviceSelectionArgumentBaseTraits (case h of None \<Rightarrow> [] | Some p \<Rightarrow> p)"
| "composeHelp _ h = (case h of None \<Rightarrow> [] | Some p \<Rightarrow> p)"

section \<open>argument.cpp\<close>

record Argument =
  key :: string
  extraHelp :: string
  parsed :: bool
  val :: arg_value

definition make_Argument :: "string \<Rightarrow> string option \<Rightarrow> arg_value \<Rightarrow> Argument" where
  "make_Argument k h v = \<lparr>key = k, extraHelp = composeHelp v h, parsed = False, val = default_value v\<rparr>"

definition markAsParsed :: "Argument \<Rightarrow> Argument" where
  "markAsParsed a = a\<lparr>parsed := True\<rparr>"

definition Argument_toString :: "bool \<Rightarrow> Argument \<Rightarrow> string result" where
  "Argument_toString noIntelExtensions a =
     bindR (toStringValue noIntelExtensions (val a)) (\<lambda>s. Ok (key a @ ''='' @ s))"

definition getHelpEntry :: "Argument \<Rightarrow> string" where
  "getHelpEntry a =
     (case val a of
        Arg_BooleanFlag _ _ \<Rightarrow> ''--'' @ key a
      | _ \<Rightarrow> ''--'' @ key a @ ''=X '')"

text \<open>\<open>std::left << std::setw(25)\<close> pads the next item on the right.\<close>

definition pad_right :: "nat \<Rightarrow> string \<Rightarrow> string" where
  "pad_right n s = s @ replicate (n - length s) CHR '' ''"

definition Argument_getHelp :: "Argument \<Rightarrow> string" where
  "Argument_getHelp a =
     (if extraHelp a \<noteq> [] then pad_right 25 (getHelpEntry a) @ extraHelp a else getHelpEntry a)"

definition Argument_parse :: "Argument \<Rightarrow> CommandLineArgument \<Rightarrow> (Argument \<times> CommandLineArgument) result" where
  "Argument_parse a argument =
     (if isKeyEqualTo argument (key a) then
        bindR (parseImpl (val a) (cla_value argument)) (\<lambda>v.
          Ok (markAsParsed (a\<lparr>val := v\<rparr>), markAsProcessed argument))
      else Ok (a, argument))"

section \<open>argument\_container.cpp\<close>

type_synonym ArgumentContainer = "Argument list"

definition pushArgument :: "ArgumentContainer \<Rightarrow> Argument \<Rightarrow> ArgumentContainer" where
  "pushArgument arguments argument = arguments @ [argument]"

fun parseArgument ::
  "ArgumentContainer \<Rightarrow> CommandLineArgument \<Rightarrow> (ArgumentContainer \<times> CommandLineArgument) result" where
  "parseArgument [] commandLineArgument = Ok ([], commandLineArgument)"
| "parseArgument (a # arguments) commandLineArgument =
     bindR (Argument_parse a commandLineArgument) (\<lambda>(a', c).
     bindR (parseArgument arguments c) (\<lambda>(arguments', c').
       Ok (a' # arguments', c')))"

text \<open>\<open>parseArgument\<close> returns \<open>true\<close> always, so the loop never ends early but by an exception.\<close>

fun parseArguments ::
  "ArgumentContainer \<Rightarrow> CommandLineArgument list \<Rightarrow> (ArgumentContainer \<times> CommandLineArgument list) result" where
  "parseArguments arguments [] = Ok (arguments, [])"
| "parseArguments arguments (c # commandLineArguments) =
     bindR (parseArgument arguments c) (\<lambda>(arguments', c').
     bindR (parseArguments arguments' commandLineArguments) (\<lambda>(arguments'', cs').
       Ok (arguments'', c' # cs')))"

fun validateAll :: "ArgumentContainer \<Rightarrow> bool result" where
  "validateAll [] = Ok True"
| "validateAll (a # arguments) =
     bindR (validate (val a)) (\<lambda>ok. if \<not> ok then Ok False else validateAll arguments)"

definition validateArguments :: "(ArgumentContainer \<Rightarrow> bool) \<Rightarrow> ArgumentContainer \<Rightarrow> bool result" where
  "validateArguments validateArgumentsExtra arguments =
     bindR (validateAll arguments) (\<lambda>ok.
       if \<not> ok then Ok False
       else if \<not> validateArgumentsExtra arguments then Ok False
       else Ok True)"

definition getHelp :: "nat \<Rightarrow> ArgumentContainer \<Rightarrow> string" where
  "getHelp indent arguments =
     concat (map (\<lambda>a. replicate indent (CHR 0x09) @ Argument_getHelp a @ [newline]) arguments)"

definition getUnparsedArguments :: "ArgumentContainer \<Rightarrow> Argument list" where
  "getUnparsedArguments arguments = filter (\<lambda>a. \<not> parsed a) arguments"

section \<open>Printing and parsing values\<close>

text \<open>
  The values that survive printing and parsing. Flags print a value that their own parser rejects,
  fractions print a percentage, and lists of strings refuse to print: none of these qualify.
\<close>

fun printable_value :: "bool \<Rightarrow> arg_value \<Rightarrow> bool" where
  "printable_value noIntelExtensions (Arg_Integer v) = in_i64 v"
| "printable_value noIntelExtensions (Arg_Uint32 v) = (0 \<le> v \<and> v < 2 ^ 31)"
| "printable_value noIntelExtensions (Arg_PositiveInteger v) = in_i64 v"
| "printable_value noIntelExtensions (Arg_NonNegativeInteger v) = in_i64 v"
| "printable_value noIntelExtensions (Arg_ByteSize v) = byteSize_printable v"
| "printable_value noIntelExtensions (Arg_Boolean v) = BooleanArgument_validate v"
| "printable_value noIntelExtensions (Arg_CompressionBoolean v) = (BooleanArgument_validate v \<and> \<not> noIntelExtensions)"
| "printable_value noIntelExtensions (Arg_String v isValid) = (list_all (\<lambda>c. \<not> isspace c) v \<and> isValid)"
| "printable_value noIntelExtensions (Arg_LongHex v) = True"
| "printable_value noIntelExtensions (Arg_Bitmask bitsCount canBeAllZeros v isValid) =
     (0 < bitsCount \<and> v < 2 ^ bitsCount \<and> isValid = (canBeAllZeros \<or> v \<noteq> 0))"
| "printable_value noIntelExtensions (Arg_ThreeComponentUint v) = three_printable v"
| "printable_value noIntelExtensions (Arg_ThreeComponentOffset v) = three_printable v"
| "printable_value noIntelExtensions (Arg_ThreeComponentSize v) = three_printable v"
| "printable_value noIntelExtensions (Arg_Enum e) = enum_validate e"
| "printable_value noIntelExtensions (Arg_MultiDeviceSelection v) = bitfield_printable MultiDeviceSelectionArgument v"
| "printable_value noIntelExtensions (Arg_MultipleTilesSelection v) = bitfield_printable MultipleTilesSelectionArgument v"
| "printable_value noIntelExtensions (Arg_UsmDeviceSelection v) = bitfield_printable DeviceSelectionArgumentBaseTraits v"
| "printable_value noIntelExtensions (Arg_UsmSharedDeviceSelection v) = bitfield_printable DeviceSelectionArgumentBaseTraits v"
| "printable_value noIntelExtensions _ = False"

lemma enum_parseImpl_default: "enum_parseImpl (enum_default e) s = enum_parseImpl e s"
  by (cases e) simp_all

lemma enum_print_ok:
  "enum_validate e \<Longrightarrow> \<exists>s. enum_toStringValue e = Ok s \<and> list_all (\<lambda>c. \<not> isspace c) s"
  by (cases e; simp only: enum_validate.simps enum_toStringValue.simps; rule enum.print_ok)
    (simp_all add: enum_tables_wf device_tables_enum_wf)

lemma EnumArgument_parse_print:
  "enum_wf t \<Longrightarrow> EnumArgument_validate t v \<Longrightarrow> EnumArgument_toStringValue t v = Ok s \<Longrightarrow> EnumArgument_parseImpl t s = v"
  using enum.parse_print [of t v s] by simp

lemma enum_parse_print:
  assumes "enum_validate e" "enum_toStringValue e = Ok s" "enum_default old = enum_default e"
  shows "enum_parseImpl old s = e"
proof -
  have "enum_parseImpl e s = e"
    using assms(1,2) by (cases e) (simp_all add: EnumArgument_parse_print enum_tables_wf device_tables_enum_wf)
  then show ?thesis by (metis assms(3) enum_parseImpl_default)
qed

lemma parse_print_simps:
  "in_i64 v \<Longrightarrow> IntegerArgumentBase_parseImpl (IntegerArgumentBase_toStringValue v) = Ok v"
  "0 \<le> v \<Longrightarrow> v < 2 ^ 31 \<Longrightarrow> Unsigned32BitArgumentBase_parseImpl (Unsigned32BitArgumentBase_toStringValue v) = Ok v"
  "BooleanArgument_validate v \<Longrightarrow> BooleanArgument_parseImpl (BooleanArgument_toStringValue v) = Ok v"
  "LongHexArgument_parseImpl (LongHexArgument_toStringValue bytes) = Ok bytes"
  "three_printable w \<Longrightarrow> ThreeComponentUintArgument_parseImpl (ThreeComponentUintArgument_toStringValue w) = Ok w"
  using integer.parse_print [OF _ refl] uint32.parse_print [OF _ refl] boolean.parse_print [OF _ refl]
    longHex.parse_print [OF TrueI refl] three.parse_print [OF _ refl]
  by simp_all

lemma print_no_space:
  "list_all (\<lambda>c. \<not> isspace c) (IntegerArgumentBase_toStringValue v)"
  "list_all (\<lambda>c. \<not> isspace c) (Unsigned32BitArgumentBase_toStringValue v)"
  "list_all (\<lambda>c. \<not> isspace c) (BooleanArgument_toStringValue v)"
  "list_all (\<lambda>c. \<not> isspace c) (LongHexArgument_toStringValue bytes)"
  "list_all (\<lambda>c. \<not> isspace c) (BitmaskArgument_toStringValue n k)"
  "three_printable w \<Longrightarrow> list_all (\<lambda>c. \<not> isspace c) (ThreeComponentUintArgument_toStringValue w)"
  using longHex.print_ok [of bytes] three.print_ok [of w]
  by (auto simp: IntegerArgumentBase_toStringValue_def Unsigned32BitArgumentBase_toStringValue_def
      BooleanArgument_toStringValue_def BitmaskArgument_toStringValue_def list_all_iff to_string_not_space)
    (simp add: isspace_def)+

lemma value_print_ok:
  assumes "printable_value x v"
  shows "\<exists>s. toStringValue x v = Ok s \<and> list_all (\<lambda>c. \<not> isspace c) s"
  using assms
  by (cases v) (simp_all add: print_no_space byteSize.print_ok enum_print_ok bitfield.print_ok
      CompressionBooleanArgument_toStringValue_def)

lemma value_parse_print:
  assumes "printable_value x v" and "toStringValue x v = Ok s" and "default_value old = default_value v"
  shows "parseImpl old s = Ok v"
  using assms
  by (cases v; cases old)
    (auto simp: parse_print_simps byteSize.parse_print enum_parse_print BitmaskArgument_parse_print
      StringArgument_parseImpl_def CompressionBooleanArgument_toStringValue_def
      dest: bitfield.parse_print)

lemma enum_default_idem: "enum_default (enum_parseImpl e s) = enum_default e"
  by (cases e) simp_all

lemma default_value_idem: "default_value (default_value v) = default_value v"
proof -
  have "enum_default (enum_default e) = enum_default e" for e by (cases e) simp_all
  then show ?thesis by (cases v) simp_all
qed

lemma parseImpl_default: "parseImpl old s = Ok v \<Longrightarrow> default_value v = default_value old"
  by (cases old) (auto simp: bindR_eq_Inr enum_default_idem split: prod.splits)

section \<open>The container parses by key\<close>

text \<open>
  The specification: each argument looks its key up among the tokens and, where it finds one,
  takes the parsed value; each token whose key some argument has is marked.
\<close>

definition assign_argument :: "Argument \<Rightarrow> string \<Rightarrow> Argument result" where
  "assign_argument a s = bindR (parseImpl (val a) s) (\<lambda>v. Ok (a\<lparr>val := v, parsed := True\<rparr>))"

definition lookup_token :: "CommandLineArgument list \<Rightarrow> string \<Rightarrow> string option" where
  "lookup_token cs k = map_option cla_value (find (\<lambda>c. cla_key c = k) cs)"

definition parse_from :: "CommandLineArgument list \<Rightarrow> Argument \<Rightarrow> Argument result" where
  "parse_from cs a = (case lookup_token cs (key a) of None \<Rightarrow> Ok a | Some s \<Rightarrow> assign_argument a s)"

definition mark_token :: "string set \<Rightarrow> CommandLineArgument \<Rightarrow> CommandLineArgument" where
  "mark_token ks c = (if cla_key c \<in> ks then markAsProcessed c else c)"

lemma assign_argument_key: "assign_argument a s = Ok a' \<Longrightarrow> key a' = key a"
  by (auto simp: assign_argument_def bindR_eq_Inr)

lemma markAsProcessed_simps [simp]:
  "cla_key (markAsProcessed c) = cla_key c" "cla_value (markAsProcessed c) = cla_value c"
  "valid (markAsProcessed c) = valid c" "processed (markAsProcessed c)"
  "markAsProcessed (markAsProcessed c) = markAsProcessed c"
  by (simp_all add: markAsProcessed_def)

lemma Argument_parse_eq:
  "valid c \<Longrightarrow> Argument_parse a c =
     (if cla_key c = key a then bindR (assign_argument a (cla_value c)) (\<lambda>a'. Ok (a', markAsProcessed c))
      else Ok (a, c))"
  by (cases "parseImpl (val a) (cla_value c)")
    (auto simp: Argument_parse_def isKeyEqualTo_def assign_argument_def markAsParsed_def)

definition step_argument :: "CommandLineArgument \<Rightarrow> Argument \<Rightarrow> Argument result" where
  "step_argument c a = (if cla_key c = key a then assign_argument a (cla_value c) else Ok a)"

lemma parseArgument_eq_Ok:
  "valid c \<Longrightarrow> parseArgument args c = Ok (args', c') \<longleftrightarrow>
     mapM (step_argument c) args = Ok args' \<and> c' = mark_token (key ` set args) c"
proof (induction args arbitrary: c args' c')
  case Nil
  then show ?case by (auto simp: mark_token_def)
next
  case (Cons a args)
  have step: "step_argument (markAsProcessed c) = step_argument c"
    by (rule ext) (simp add: step_argument_def)
  show ?case
  proof (cases "cla_key c = key a")
    case True
    then show ?thesis
      using Cons.IH [of "markAsProcessed c"] Cons.prems
      by (auto simp: Argument_parse_eq bindR_eq_Inr step step_argument_def [of c a] mark_token_def)
  next
    case False
    then show ?thesis
      using Cons.IH [of c] Cons.prems
      by (auto simp: Argument_parse_eq bindR_eq_Inr step_argument_def [of c a] mark_token_def)
  qed
qed

lemma parse_from_Cons:
  assumes "cla_key c \<notin> cla_key ` set cs"
  shows "parse_from (c # cs) a = bindR (step_argument c a) (parse_from cs)"
proof (cases "cla_key c = key a")
  case True
  have "lookup_token cs (key a) = None"
    using assms True by (force simp: lookup_token_def find_None_iff)
  moreover have "key a' = key a" if "assign_argument a s = Ok a'" for a' s
    using that by (rule assign_argument_key)
  ultimately have "bindR (assign_argument a s) (parse_from cs) = assign_argument a s" for s
    by (cases "assign_argument a s") (auto simp: parse_from_def)
  with True show ?thesis by (simp add: parse_from_def lookup_token_def step_argument_def)
next
  case False
  then show ?thesis by (simp add: parse_from_def lookup_token_def step_argument_def)
qed

lemma step_argument_keys: "mapM (step_argument c) args = Ok args' \<Longrightarrow> map key args' = map key args"
  by (induction args arbitrary: args')
    (auto simp: bindR_eq_Inr step_argument_def dest: assign_argument_key split: if_splits)

lemma parseArguments_eq_Ok:
  assumes "list_all valid cs" and "distinct (map cla_key cs)"
  shows "parseArguments args cs = Ok (args', cs') \<longleftrightarrow>
     mapM (parse_from cs) args = Ok args' \<and> cs' = map (mark_token (key ` set args)) cs"
  using assms
proof (induction cs arbitrary: args args' cs')
  case Nil
  have "parse_from [] = Ok" by (rule ext) (simp add: parse_from_def lookup_token_def)
  then show ?case using mapM_Inr [of "\<lambda>a. a" args] by auto
next
  case (Cons c cs)
  have keys: "key ` set args1 = key ` set args" if "mapM (step_argument c) args = Ok args1" for args1
    using step_argument_keys [OF that] by (metis list.set_map)
  have "parse_from (c # cs) = (\<lambda>a. bindR (step_argument c a) (parse_from cs))"
    using Cons.prems by (intro ext parse_from_Cons) auto
  then have "mapM (parse_from (c # cs)) args = Ok args' \<longleftrightarrow>
      (\<exists>args1. mapM (step_argument c) args = Ok args1 \<and> mapM (parse_from cs) args1 = Ok args')"
    by (simp only: mapM_bindR_eq_Inr)
  with Cons keys show ?case
    by (auto simp: bindR_eq_Inr parseArgument_eq_Ok split: prod.splits)
qed

lemma lookup_token_None_iff: "lookup_token cs k = None \<longleftrightarrow> k \<notin> set (map cla_key cs)"
  by (force simp: lookup_token_def find_None_iff)

lemma parse_from_marks:
  "parse_from cs a = Ok a' \<Longrightarrow>
     key a' = key a \<and> extraHelp a' = extraHelp a \<and> default_value (val a') = default_value (val a)
     \<and> (parsed a' \<longleftrightarrow> parsed a \<or> key a \<in> set (map cla_key cs))"
  using lookup_token_None_iff [of cs "key a"]
  by (auto simp: parse_from_def assign_argument_def bindR_eq_Inr dest: parseImpl_default split: option.splits)

lemma mapM_parse_from_unparsed:
  assumes "mapM (parse_from cs) args = Ok args'"
  shows "map key (getUnparsedArguments args') =
     filter (\<lambda>k. k \<notin> set (map cla_key cs)) (map key (getUnparsedArguments args))"
  using assms
  by (induction args arbitrary: args')
    (auto simp: bindR_eq_Inr getUnparsedArguments_def dest!: parse_from_marks)

section \<open>Properties\<close>

text \<open>
  C2: For tokens with distinct keys, the nested loops of \<open>parseArguments\<close> succeed exactly when every
  argument can parse the token with its key, and then each argument holds the value of that token
  (or its old state, where there is none) and exactly the tokens with the key of an argument are
  marked as processed.
\<close>

theorem parseArguments_refines_lookup:
  assumes "list_all valid cs" and "distinct (map cla_key cs)"
  shows "parseArguments args cs = Ok (args', cs') \<longleftrightarrow>
     list_all2 (\<lambda>a a'. case lookup_token cs (key a) of
         None \<Rightarrow> a' = a
       | Some s \<Rightarrow> \<exists>v. parseImpl (val a) s = Ok v \<and> a' = a\<lparr>val := v, parsed := True\<rparr>) args args'
     \<and> cs' = map (\<lambda>c. if cla_key c \<in> set (map key args) then markAsProcessed c else c) cs"
proof -
  have "(\<lambda>a a'. parse_from cs a = Ok a') =
     (\<lambda>a a'. case lookup_token cs (key a) of
         None \<Rightarrow> a' = a
       | Some s \<Rightarrow> \<exists>v. parseImpl (val a) s = Ok v \<and> a' = a\<lparr>val := v, parsed := True\<rparr>)"
    by (intro ext) (auto simp: parse_from_def assign_argument_def bindR_eq_Inr split: option.splits)
  moreover have "mark_token (key ` set args) = (\<lambda>c. if cla_key c \<in> set (map key args) then markAsProcessed c else c)"
    by (rule ext) (simp add: mark_token_def)
  ultimately show ?thesis by (simp add: parseArguments_eq_Ok [OF assms] mapM_eq_Inr)
qed

theorem parseArguments_refines_lookup_witness:
  "parseArguments [make_Argument ''size'' None (Arg_ByteSize 0)]
       [make_CommandLineArgument ''--size=4KB'', make_CommandLineArgument ''--csv'']
     = Ok ([\<lparr>key = ''size'', extraHelp = [], parsed = True, val = Arg_ByteSize 4096\<rparr>],
           [markAsProcessed (make_CommandLineArgument ''--size=4KB''), make_CommandLineArgument ''--csv''])"
proof -
  have eq: "make_CommandLineArgument ''--size=4KB'' = \<lparr>cla_key = ''size'', cla_value = ''4KB'', valid = True, processed = False\<rparr>"
    "make_CommandLineArgument ''--csv'' = \<lparr>cla_key = ''csv'', cla_value = [], valid = True, processed = False\<rparr>"
    "make_Argument ''size'' None (Arg_ByteSize 0) = \<lparr>key = ''size'', extraHelp = [], parsed = False, val = Arg_ByteSize 0\<rparr>"
    and p: "parseImpl (Arg_ByteSize 0) ''4KB'' = Ok (Arg_ByteSize 4096)"
    by code_simp+
  show ?thesis
    by (subst parseArguments_refines_lookup) (simp_all add: eq lookup_token_def p del: parseImpl.simps)
qed

text \<open>
  After a successful parse the tokens left unprocessed are exactly those whose key no argument
  has, and the arguments left unparsed are those that were unparsed before and whose key no token
  has: the two checks of single-test mode neither miss nor invent a key.
\<close>

lemma parseArguments_leftovers:
  assumes "list_all valid cs" and "distinct (map cla_key cs)" and "list_all (\<lambda>c. \<not> processed c) cs"
    and "parseArguments args cs = Ok (args', cs')"
  shows "map cla_key (getUnprocessedArguments cs') = filter (\<lambda>k. k \<notin> set (map key args)) (map cla_key cs)
     \<and> map key (getUnparsedArguments args') =
         filter (\<lambda>k. k \<notin> set (map cla_key cs)) (map key (getUnparsedArguments args))
     \<and> map key args' = map key args"
proof -
  have args': "mapM (parse_from cs) args = Ok args'" and cs': "cs' = map (mark_token (key ` set args)) cs"
    using assms by (simp_all add: parseArguments_eq_Ok)
  have "map cla_key (getUnprocessedArguments cs') = filter (\<lambda>k. k \<notin> set (map key args)) (map cla_key cs)"
    using assms(3) unfolding cs'
    by (induction cs) (auto simp: getUnprocessedArguments_def mark_token_def)
  moreover have "map key args' = map key args"
    using args' by (induction args arbitrary: args') (auto simp: bindR_eq_Inr dest!: parse_from_marks)
  ultimately show ?thesis using mapM_parse_from_unparsed [OF args'] by simp
qed

end
