(* ===== verification/Configuration.thy ===== *)
theory Configuration
  imports Argument_Container
begin

text \<open>
  \<open>framework/configuration.cpp\<close>: the global options of a benchmark binary. The object is a container
  whose fields are arguments; a field is found by its key, and the keys are distinct
  (\<open>Configuration_keys_distinct\<close>). The static member \<open>instance\<close> is the state that
  \<open>parseArgumentsForConfiguration\<close> returns.
\<close>

section \<open>Fields\<close>

definition Configuration_fields :: "(string \<times> string \<times> arg_value) list" where
  "Configuration_fields = [
     (''help'', ''Shows this message'', Arg_BooleanFlag False True),
     (''version'', ''Shows benchmark version'', Arg_BooleanFlag False True),
     (''hwInfo'', ''Shows available devices'', Arg_BooleanFlag False True),
     (''generateDocs'', ''Generate .md file describing available tests'', Arg_BooleanFlag False True),
     (''oclPlatformIndex'', ''OpenCL platform index'', Arg_Integer 0),
     (''oclDeviceIndex'', ''OpenCL device index inside the platform'', Arg_NonNegativeInteger 0),
     (''useOOQ'', ''Use out of order queue if it is supported'', Arg_Boolean 0),
     (''l0DriverIndex'', ''LevelZero driver index'', Arg_NonNegativeInteger 0),
     (''l0DeviceIndex'', ''LevelZero device index inside the driver'', Arg_NonNegativeInteger 0),
     (''urPlatformIndex'', ''UR adapter index'', Arg_NonNegativeInteger 0),
     (''urDeviceIndex'', ''UR device index inside the adapter'', Arg_NonNegativeInteger 0),
     (''test'', ''Selects particular test for execution. All arguments of the test must be provided'', Arg_String [] False),
     (''subDeviceSelection'', ''Device to be used in the benchmarks. Might be ignored by some specific tests'', Arg_Enum (E_DeviceSelection DS_Unknown)),
     (''csv'', ''dump results in CSV format for easy imports to spreadsheets'', Arg_BooleanFlag False True),
     (''verbose'', ''dump results from all iterations'', Arg_BooleanFlag False True),
     (''interactivePrints'', ''display test name before running it. May cause unexcpected results when redirecting output to files.'', Arg_BooleanFlag False True),
     (''iterations'', ''select how many times each test will be run'', Arg_PositiveInteger 0),
     (''api'', ''Compute API to be used'', Arg_Enum (E_Api Api_Unknown)),
     (''no-intel-extensions'', ''do not run benchmark requiring Intel specific extensions'', Arg_BooleanFlag False True),
     (''dumpCommandLines'', ''output commandline arguments to run the each test'', Arg_BooleanFlag False True),
     (''noop'', ''do not run any tests, only print their names and parameters'', Arg_BooleanFlag False True),
     (''noHeaders'', ''Do not print any informational messages at the top of the output'', Arg_BooleanFlag False True),
     (''noColumnNames'', ''Do not print column names at the top of the output'', Arg_BooleanFlag False True),
     (''doNotPrintBandwidth'', ''Make every results that are normally in [GB/s] to be printed in [us]'', Arg_BooleanFlag False True),
     (''dumpErrorsImmediately'', ''print errors to stdout immediately after they happen, not at the end of the run'', Arg_Boolean 0),
     (''argFilter'', ''filter tests by their arguments'', Arg_StringList [] False),
     (''testFilter'', ''filter tests by their names'', Arg_StringList [] False),
     (''forceSubmissionProfiling'', ''Overrides profiling to return submission time instead of workload time'', Arg_BooleanFlag False True),
     (''markTimers'', ''Provides prints around Timer Start & End'', Arg_BooleanFlag False True),
     (''measurePower'', ''Measures power and energy in supported benchmarks'', Arg_BooleanFlag False True),
     (''printAllResults'', ''Prints all test results'', Arg_BooleanFlag False True),
     (''extended'', ''Run the benchmark with extended parameters'', Arg_BooleanFlag False True),
     (''reducedSizeCAL'', ''Run benchmark with lower buffer size'', Arg_BooleanFlag False True)]"

text \<open>The assignments in the body of the constructor, in its order.\<close>

definition Configuration_assignments :: "(string \<times> arg_value) list" where
  "Configuration_assignments = [
     (''help'', Arg_BooleanFlag False True),
     (''version'', Arg_BooleanFlag False True),
     (''hwInfo'', Arg_BooleanFlag False True),
     (''generateDocs'', Arg_BooleanFlag False True),
     (''oclPlatformIndex'', Arg_Integer (-1)),
     (''oclDeviceIndex'', Arg_NonNegativeInteger 0),
     (''l0DriverIndex'', Arg_NonNegativeInteger 0),
     (''l0DeviceIndex'', Arg_NonNegativeInteger 0),
     (''urPlatformIndex'', Arg_NonNegativeInteger 0),
     (''urDeviceIndex'', Arg_NonNegativeInteger 0),
     (''useOOQ'', Arg_Boolean (BooleanArgument_assign True)),
     (''test'', Arg_String [] True),
     (''csv'', Arg_BooleanFlag False True),
     (''verbose'', Arg_BooleanFlag False True),
     (''interactivePrints'', Arg_BooleanFlag False True),
     (''iterations'', Arg_PositiveInteger (PositiveIntegerArgument_assign 10)),
     (''api'', Arg_Enum (E_Api Api_All)),
     (''no-intel-extensions'', Arg_BooleanFlag False True),
     (''dumpCommandLines'', Arg_BooleanFlag False True),
     (''subDeviceSelection'', Arg_Enum (E_DeviceSelection DS_Root)),
     (''noop'', Arg_BooleanFlag False True),
     (''noHeaders'', Arg_BooleanFlag False True),
     (''noColumnNames'', Arg_BooleanFlag False True),
     (''doNotPrintBandwidth'', Arg_BooleanFlag False True),
     (''dumpErrorsImmediately'', Arg_Boolean (BooleanArgument_assign False)),
     (''argFilter'', (case StringListArgument_assign [] of (v, ok) \<Rightarrow> Arg_StringList v ok)),
     (''testFilter'', (case StringListArgument_assign [] of (v, ok) \<Rightarrow> Arg_StringList v ok)),
     (''forceSubmissionProfiling'', Arg_BooleanFlag False True),
     (''extended'', Arg_BooleanFlag False True)]"

definition assign_field :: "ArgumentContainer \<Rightarrow> string \<times> arg_value \<Rightarrow> ArgumentContainer" where
  "assign_field args kv = map (\<lambda>a. if key a = fst kv then markAsParsed (a\<lparr>val := snd kv\<rparr>) else a) args"

datatype PrintType = PT_Default | PT_DefaultWithVerbose | PT_Csv | PT_Noop

record Configuration =
  cfg_args :: ArgumentContainer
  printType :: PrintType

definition make_Configuration :: Configuration where
  "make_Configuration =
     \<lparr> cfg_args = foldl assign_field (map (\<lambda>(k, h, v). make_Argument k (Some h) v) Configuration_fields)
                    Configuration_assignments,
       printType = PT_Default \<rparr>"

definition cfg_field :: "Configuration \<Rightarrow> string \<Rightarrow> arg_value option" where
  "cfg_field cfg k = map_option val (find (\<lambda>a. key a = k) (cfg_args cfg))"

definition cfg_flag :: "Configuration \<Rightarrow> string \<Rightarrow> bool" where
  "cfg_flag cfg k = (case cfg_field cfg k of Some (Arg_BooleanFlag v _) \<Rightarrow> v | _ \<Rightarrow> False)"

definition cfg_int :: "Configuration \<Rightarrow> string \<Rightarrow> int" where
  "cfg_int cfg k =
     (case cfg_field cfg k of
        Some (Arg_Integer v) \<Rightarrow> v
      | Some (Arg_NonNegativeInteger v) \<Rightarrow> wrap_u64 v
      | Some (Arg_PositiveInteger v) \<Rightarrow> PositiveIntegerArgument_get v
      | Some (Arg_Boolean v) \<Rightarrow> (if BooleanArgument_get v then 1 else 0)
      | _ \<Rightarrow> 0)"

definition cfg_strings :: "Configuration \<Rightarrow> string \<Rightarrow> string list" where
  "cfg_strings cfg k = (case cfg_field cfg k of Some (Arg_StringList v _) \<Rightarrow> v | _ \<Rightarrow> [])"

definition cfg_string :: "Configuration \<Rightarrow> string \<Rightarrow> string" where
  "cfg_string cfg k = (case cfg_field cfg k of Some (Arg_String v _) \<Rightarrow> v | _ \<Rightarrow> [])"

definition cfg_selectedApi :: "Configuration \<Rightarrow> Api" where
  "cfg_selectedApi cfg = (case cfg_field cfg ''api'' of Some (Arg_Enum (E_Api a)) \<Rightarrow> a | _ \<Rightarrow> Api_Unknown)"

section \<open>Operations\<close>

definition Configuration_validateArgumentsExtra :: "ArgumentContainer \<Rightarrow> bool" where
  "Configuration_validateArgumentsExtra args =
     (let cfg = \<lparr>cfg_args = args, printType = PT_Default\<rparr>
      in if cfg_flag cfg ''csv'' \<and> cfg_flag cfg ''verbose'' then False else True)"

text \<open>
  A repeated load only warns; the new object replaces the old one. The result is the return value,
  the configuration and the command line with the consumed tokens marked.
\<close>

definition loadDefaultConfiguration :: "Configuration option \<Rightarrow> Configuration option" where
  "loadDefaultConfiguration instance = Some make_Configuration"

definition Configuration_get :: "Configuration option \<Rightarrow> Configuration result" where
  "Configuration_get instance =
     (case instance of None \<Rightarrow> FATAL_ERROR ''Configuration was not parsed'' | Some c \<Rightarrow> Ok c)"

definition select_printType :: "Configuration \<Rightarrow> Configuration" where
  "select_printType cfg =
     (let c1 = (if cfg_flag cfg ''csv'' then cfg\<lparr>printType := PT_Csv\<rparr> else cfg);
          c2 = (if cfg_flag c1 ''verbose'' then c1\<lparr>printType := PT_DefaultWithVerbose\<rparr> else c1)
      in if cfg_flag c2 ''noop'' then c2\<lparr>printType := PT_Noop\<rparr> else c2)"

definition parseArgumentsForConfiguration ::
  "Configuration option \<Rightarrow> CommandLineArgument list
    \<Rightarrow> (bool \<times> Configuration \<times> CommandLineArgument list) result" where
  "parseArgumentsForConfiguration instance arguments =
     bindR (Configuration_get (loadDefaultConfiguration instance)) (\<lambda>configuration.
     bindR (parseArguments (cfg_args configuration) arguments) (\<lambda>(args, arguments').
     let configuration' = configuration\<lparr>cfg_args := args\<rparr>
     in bindR (validateArguments Configuration_validateArgumentsExtra args) (\<lambda>ok.
          if \<not> ok then Ok (False, configuration', arguments')
          else Ok (True, select_printType configuration', arguments'))))"

section \<open>Lemmas\<close>

lemma Configuration_keys_distinct: "distinct (map key (cfg_args make_Configuration))"
  by code_simp

text \<open>The keys of the fields of class \<open>BooleanFlagArgument\<close>, and their initial state.\<close>

definition flag_keys :: "string list" where
  "flag_keys = map fst (filter (\<lambda>(k, h, v). case v of Arg_BooleanFlag _ _ \<Rightarrow> True | _ \<Rightarrow> False) Configuration_fields)"

lemma flag_keys_initial:
  "list_all (\<lambda>k. cfg_field make_Configuration k = Some (Arg_BooleanFlag False True)) flag_keys"
  by code_simp

lemma flag_keys_members: "''csv'' \<in> set flag_keys" "''verbose'' \<in> set flag_keys" "''noop'' \<in> set flag_keys"
  by code_simp+

lemma validateAll_eq_True: "validateAll args = Ok True \<longleftrightarrow> (\<forall>a \<in> set args. validate (val a) = Ok True)"
  by (induction args) (auto simp: bindR_eq_Inr split: if_splits)

lemma validateArguments_eq_True:
  "validateArguments extra args = Ok True \<longleftrightarrow> (\<forall>a \<in> set args. validate (val a) = Ok True) \<and> extra args"
  by (auto simp: validateArguments_def bindR_eq_Inr validateAll_eq_True)

lemma find_parse_from:
  assumes "mapM (parse_from cs) args = Ok args'" and "find (\<lambda>a. key a = k) args = Some a"
  shows "\<exists>a'. find (\<lambda>a. key a = k) args' = Some a' \<and> parse_from cs a = Ok a' \<and> a' \<in> set args'"
  using assms
  by (induction args arbitrary: args') (auto simp: bindR_eq_Inr dest: parse_from_marks split: if_splits)

lemma lookup_token_eq_None: "k \<notin> set (map cla_key cs) \<Longrightarrow> lookup_token cs k = None"
  by (simp add: lookup_token_None_iff)

lemma flag_after_parse:
  assumes "mapM (parse_from cs) (cfg_args make_Configuration) = Ok args'" and "k \<in> set flag_keys"
  obtains a where "find (\<lambda>a. key a = k) args' = Some a" "a \<in> set args'"
    "val a = (case lookup_token cs k of None \<Rightarrow> Arg_BooleanFlag False True
                                      | Some s \<Rightarrow> Arg_BooleanFlag True (s = []))"
proof -
  obtain a where a: "find (\<lambda>a. key a = k) (cfg_args make_Configuration) = Some a"
    "val a = Arg_BooleanFlag False True"
    using flag_keys_initial assms(2) by (auto simp: list_all_iff cfg_field_def)
  then have "key a = k" by (metis (mono_tags, lifting) find_Some_iff)
  with find_parse_from [OF assms(1) a(1)] a(2) that show thesis
    by (auto simp: parse_from_def assign_argument_def BooleanFlagArgument_parseImpl_def split: option.splits)
qed

lemma select_printType_args [simp]: "cfg_args (select_printType cfg) = cfg_args cfg"
  by (simp add: select_printType_def Let_def)

lemma cfg_flag_printType [simp]: "cfg_flag (cfg\<lparr>printType := p\<rparr>) k = cfg_flag cfg k"
  by (simp add: cfg_flag_def cfg_field_def)

lemma select_printType_value:
  "printType cfg = PT_Default \<Longrightarrow> printType (select_printType cfg) =
     (if cfg_flag cfg ''noop'' then PT_Noop else if cfg_flag cfg ''verbose'' then PT_DefaultWithVerbose
      else if cfg_flag cfg ''csv'' then PT_Csv else PT_Default)"
  by (simp add: select_printType_def Let_def)

lemma cfg_flag_after_parse:
  assumes "mapM (parse_from cs) (cfg_args make_Configuration) = Ok args" "j \<in> set flag_keys" "cfg_args c = args"
  shows "cfg_flag c j \<longleftrightarrow> j \<in> set (map cla_key cs)"
proof -
  obtain a where "find (\<lambda>a. key a = j) args = Some a" and "a \<in> set args" and
    "val a = (case lookup_token cs j of None \<Rightarrow> Arg_BooleanFlag False True
                                      | Some s \<Rightarrow> Arg_BooleanFlag True (s = []))"
    by (rule flag_after_parse [OF assms(1,2)])
  then show ?thesis using assms(3) lookup_token_None_iff [of cs j]
    by (cases "lookup_token cs j") (simp_all add: cfg_flag_def cfg_field_def)
qed

lemma parseArgumentsForConfiguration_Ok:
  assumes "list_all valid cs" "distinct (map cla_key cs)" "parseArgumentsForConfiguration instance cs = Ok (ok, cfg, cs')"
  obtains args where "mapM (parse_from cs) (cfg_args make_Configuration) = Ok args"
    "validateArguments Configuration_validateArgumentsExtra args = Ok ok"
    "cfg = (if ok then select_printType (make_Configuration\<lparr>cfg_args := args\<rparr>)
            else make_Configuration\<lparr>cfg_args := args\<rparr>)"
    "cs' = map (mark_token (key ` set (cfg_args make_Configuration))) cs"
proof -
  from assms(3) obtain args where args: "parseArguments (cfg_args make_Configuration) cs = Ok (args, cs')"
    and v: "validateArguments Configuration_validateArgumentsExtra args = Ok ok"
    and cfg: "cfg = (if ok then select_printType (make_Configuration\<lparr>cfg_args := args\<rparr>)
                     else make_Configuration\<lparr>cfg_args := args\<rparr>)"
    by (auto simp: parseArgumentsForConfiguration_def loadDefaultConfiguration_def Configuration_get_def
        bindR_eq_Inr Let_def split: if_splits)
  from args have "mapM (parse_from cs) (cfg_args make_Configuration) = Ok args"
    "cs' = map (mark_token (key ` set (cfg_args make_Configuration))) cs"
    by (simp_all add: parseArguments_eq_Ok [OF assms(1,2)])
  with v cfg show thesis by (intro that)
qed

section \<open>Properties\<close>

text \<open>
  C23: After the configuration is parsed from tokens with distinct keys, a flag is set exactly when
  its token is on the command line. When the parse is accepted, no flag was given a value, \<open>csv\<close> and
  \<open>verbose\<close> are not both set, and the print type is the one of \<open>noop\<close>, then \<open>verbose\<close>, then \<open>csv\<close>,
  in this order of precedence.
\<close>

theorem parseArgumentsForConfiguration_flags:
  assumes "list_all valid cs" and "distinct (map cla_key cs)" and "k \<in> set flag_keys"
    and "parseArgumentsForConfiguration instance cs = Ok (ok, cfg, cs')"
  shows "(cfg_flag cfg k \<longleftrightarrow> k \<in> set (map cla_key cs))
    \<and> (ok \<longrightarrow> lookup_token cs k \<in> {None, Some []}
        \<and> \<not> (''csv'' \<in> set (map cla_key cs) \<and> ''verbose'' \<in> set (map cla_key cs))
        \<and> printType cfg = (if ''noop'' \<in> set (map cla_key cs) then PT_Noop
            else if ''verbose'' \<in> set (map cla_key cs) then PT_DefaultWithVerbose
            else if ''csv'' \<in> set (map cla_key cs) then PT_Csv else PT_Default))"
proof -
  obtain args where m: "mapM (parse_from cs) (cfg_args make_Configuration) = Ok args"
    and v: "validateArguments Configuration_validateArgumentsExtra args = Ok ok"
    and cfg: "cfg = (if ok then select_printType (make_Configuration\<lparr>cfg_args := args\<rparr>)
                     else make_Configuration\<lparr>cfg_args := args\<rparr>)"
    by (rule parseArgumentsForConfiguration_Ok [OF assms(1,2,4)])
  note flag = cfg_flag_after_parse [OF m]
  have "lookup_token cs k \<in> {None, Some []}" if ok
  proof -
    obtain a where "find (\<lambda>a. key a = k) args = Some a" and a: "a \<in> set args"
      "val a = (case lookup_token cs k of None \<Rightarrow> Arg_BooleanFlag False True
                                        | Some s \<Rightarrow> Arg_BooleanFlag True (s = []))"
      by (rule flag_after_parse [OF m assms(3)])
    have "\<forall>a \<in> set args. validate (val a) = Ok True"
      using v \<open>ok\<close> by (simp add: validateArguments_eq_True)
    then have "validate (val a) = Ok True" using a(1) by (rule bspec)
    with a(2) show ?thesis by (auto split: option.splits)
  qed
  moreover have "cfg_flag cfg k \<longleftrightarrow> k \<in> set (map cla_key cs)"
    using flag [OF assms(3)] cfg by (auto split: if_splits)
  moreover have "\<not> (''csv'' \<in> set (map cla_key cs) \<and> ''verbose'' \<in> set (map cla_key cs))" if ok
    using v that flag flag_keys_members
    by (auto simp: validateArguments_eq_True Configuration_validateArgumentsExtra_def Let_def split: if_splits)
  moreover have "printType make_Configuration = PT_Default" by (simp add: make_Configuration_def)
  ultimately show ?thesis
    using cfg flag flag_keys_members by (auto simp: select_printType_value)
qed

theorem parseArgumentsForConfiguration_flags_witness:
  "\<exists>cfg cs'. parseArgumentsForConfiguration None
       [make_CommandLineArgument ''--csv'', make_CommandLineArgument ''--noop''] = Ok (True, cfg, cs')
     \<and> cfg_flag cfg ''csv'' \<and> printType cfg = PT_Noop"
proof -
  let ?cs = "[make_CommandLineArgument ''--csv'', make_CommandLineArgument ''--noop'']"
  have "case parseArgumentsForConfiguration None ?cs of Inr (True, _, _) \<Rightarrow> True | _ \<Rightarrow> False"
    by code_simp
  then obtain cfg cs' where p: "parseArgumentsForConfiguration None ?cs = Ok (True, cfg, cs')"
    by (auto split: sum.splits prod.splits bool.splits)
  have cs: "list_all valid ?cs" "distinct (map cla_key ?cs)" "''csv'' \<in> set flag_keys"
    "''csv'' \<in> set (map cla_key ?cs)" "''noop'' \<in> set (map cla_key ?cs)"
    by code_simp+
  from parseArgumentsForConfiguration_flags [OF cs(1,2,3) p] cs(4,5) p show ?thesis by auto
qed

end
