(* ===== verification/Statistics.thy ===== *)
theory Statistics
  imports Doubles Configuration "HOL-Library.Char_ord" "HOL-Library.List_Lexorder"
begin

text \<open>
  \<open>framework/utility/statistics.h\<close> and its two implementations,
  \<open>framework/test_case/test_case_statistics.cpp\<close> (what a benchmark reports) and
  \<open>framework/workload/workload_statistics.cpp\<close> (what a child process sends to its parent).

  The virtual \<open>push\<close> functions are the constructors of \<open>Measurement\<close>. A \<open>double\<close> is a \<open>Value\<close>
  of \<open>Doubles\<close>, whose operations round as the processor's do. A duration is its count of nanoseconds, the tick of \<open>std::chrono::high_resolution_clock\<close>.

  The locale \<open>statistics\<close> is the contract a benchmark relies on, whichever implementation it is
  given: samples are counted by group, no group exceeds the requested count, and \<open>isFull\<close> tells
  whether the requested count was reached. Both classes are interpretations of it.
\<close>

section \<open>The interface\<close>

datatype Measurement =
    pushPercentage Value MeasurementUnit MeasurementType string
  | pushTime int MeasurementUnit MeasurementType string
  | pushTimeSize int nat MeasurementUnit MeasurementType string
  | pushMicroJoules nat MeasurementUnit MeasurementType string
  | pushWatts Value MeasurementUnit MeasurementType string

fun description :: "Measurement \<Rightarrow> string" where
  "description (pushPercentage _ _ _ d) = d"
| "description (pushTime _ _ _ d) = d"
| "description (pushTimeSize _ _ _ _ d) = d"
| "description (pushMicroJoules _ _ _ d) = d"
| "description (pushWatts _ _ _ d) = d"

locale statistics =
  fixes push :: "'s \<Rightarrow> Measurement \<Rightarrow> 's result"
    and count :: "'s \<Rightarrow> string \<Rightarrow> nat"
    and limit :: "'s \<Rightarrow> nat"
    and isEmpty :: "'s \<Rightarrow> bool"
    and isFull :: "'s \<Rightarrow> bool"
    and inv :: "'s \<Rightarrow> bool"
  assumes push_inv: "inv s \<Longrightarrow> push s m = Ok s' \<Longrightarrow> inv s'"
    and push_limit: "inv s \<Longrightarrow> push s m = Ok s' \<Longrightarrow> limit s' = limit s"
    and push_count: "inv s \<Longrightarrow> push s m = Ok s' \<Longrightarrow>
      count s' g = (if g = description m then Suc (count s g) else count s g)"
    and push_full: "inv s \<Longrightarrow> count s (description m) = limit s \<Longrightarrow> \<not> is_ok (push s m)"
    and count_bounded: "inv s \<Longrightarrow> count s g \<le> limit s"
    and isEmpty_iff: "inv s \<Longrightarrow> isEmpty s \<longleftrightarrow> (\<forall>g. count s g = 0)"
    and isFull_count: "inv s \<Longrightarrow> isFull s \<Longrightarrow> count s g = 0 \<or> count s g = limit s"
    and full_isFull: "inv s \<Longrightarrow> \<not> isEmpty s \<Longrightarrow> (\<And>g. count s g = 0 \<or> count s g = limit s) \<Longrightarrow> isFull s"
begin

lemma pushes_inv: "foldM push s ms = Ok s' \<Longrightarrow> inv s \<Longrightarrow> inv s' \<and> limit s' = limit s"
proof (induction ms arbitrary: s)
  case (Cons m ms)
  then obtain t where "push s m = Ok t" "foldM push t ms = Ok s'" by (auto simp: bindR_eq_Inr)
  with Cons show ?case by (metis push_inv push_limit)
qed simp

lemma pushes_count:
  "foldM push s ms = Ok s' \<Longrightarrow> inv s \<Longrightarrow> count s' g = count s g + length (filter (\<lambda>m. description m = g) ms)"
proof (induction ms arbitrary: s)
  case (Cons m ms)
  then obtain t where "push s m = Ok t" "foldM push t ms = Ok s'" by (auto simp: bindR_eq_Inr)
  with Cons push_count [of s m t g] push_inv [of s m t] show ?case by auto
qed simp

text \<open>
  From an empty object: a run of pushes that is accepted puts at most \<open>limit\<close> samples in a group,
  and the object is full exactly when every group that got a sample got \<open>limit\<close> of them.
\<close>

lemma run_bounded:
  assumes "inv s" "isEmpty s" "foldM push s ms = Ok s'"
  shows "length (filter (\<lambda>m. description m = g) ms) \<le> limit s"
  using pushes_count [OF assms(3,1)] pushes_inv [OF assms(3,1)] count_bounded [of s' g]
    assms(1,2) isEmpty_iff by fastforce

lemma run_full_iff:
  assumes "inv s" "isEmpty s" "foldM push s ms = Ok s'" "ms \<noteq> []"
  shows "isFull s' \<longleftrightarrow> (\<forall>m \<in> set ms. length (filter (\<lambda>m'. description m' = description m) ms) = limit s)"
proof -
  let ?n = "\<lambda>g. length (filter (\<lambda>m. description m = g) ms)"
  have n: "count s' g = ?n g" for g
    using pushes_count [OF assms(3,1)] assms(1,2) isEmpty_iff by simp
  have inv': "inv s'" "limit s' = limit s" using pushes_inv [OF assms(3,1)] by simp_all
  have pos: "?n g \<noteq> 0 \<longleftrightarrow> (\<exists>m \<in> set ms. description m = g)" for g
    by (auto simp: filter_empty_conv)
  have "\<not> isEmpty s'"
    using isEmpty_iff [OF inv'(1)] n pos assms(4) by (metis list.set_intros(1) neq_Nil_conv)
  then have "isFull s' \<longleftrightarrow> (\<forall>g. ?n g = 0 \<or> ?n g = limit s)"
    using isFull_count [OF inv'(1)] full_isFull [OF inv'(1)] n inv'(2) by auto
  then show ?thesis using pos by metis
qed

end

section \<open>TestCaseStatistics\<close>

record Samples =
  smp_unit :: MeasurementUnit
  smp_type :: MeasurementType
  smp_vector :: "Value list"

definition no_samples :: Samples where
  "no_samples = \<lparr>smp_unit = MU_Unknown, smp_type = MT_Unknown, smp_vector = []\<rparr>"

text \<open>\<open>std::map<std::string, Samples>\<close>: an association list sorted by key; \<open>map_set\<close> is the assignment \<open>m[k] = v\<close>.\<close>

type_synonym SamplesMap = "(string \<times> Samples) list"

fun map_set :: "(string \<times> 'v) list \<Rightarrow> string \<Rightarrow> 'v \<Rightarrow> (string \<times> 'v) list" where
  "map_set [] k v = [(k, v)]"
| "map_set ((k', v') # m) k v =
     (if k = k' then (k, v) # m else if k < k' then (k, v) # (k', v') # m else (k', v') # map_set m k v)"

definition map_at :: "SamplesMap \<Rightarrow> string \<Rightarrow> Samples" where
  "map_at m k = (case map_of m k of None \<Rightarrow> no_samples | Some s \<Rightarrow> s)"

record TestCaseStatistics =
  maxSamplesCount :: nat
  tcs_printType :: PrintType
  samplesMap :: SamplesMap
  noopSample :: Samples
  reachedInfinity :: bool

definition make_TestCaseStatistics :: "nat \<Rightarrow> PrintType \<Rightarrow> TestCaseStatistics" where
  "make_TestCaseStatistics n p =
     \<lparr>maxSamplesCount = n, tcs_printType = p, samplesMap = [], noopSample = no_samples, reachedInfinity = False\<rparr>"

definition overrideMeasurementUnit :: "bool \<Rightarrow> MeasurementUnit \<Rightarrow> MeasurementUnit" where
  "overrideMeasurementUnit doNotPrintBandwidth unit =
     (if unit = GigabytesPerSecond \<and> doNotPrintBandwidth then Microseconds else unit)"

text \<open>The private overload that all public ones end in.\<close>

definition pushValue ::
  "TestCaseStatistics \<Rightarrow> Value \<Rightarrow> string \<Rightarrow> MeasurementUnit \<Rightarrow> MeasurementType \<Rightarrow> TestCaseStatistics result" where
  "pushValue s v desc unit type =
     FATAL_ERROR_IF (unit = MU_Unknown) ''Concrete MeasurementUnit has to be specified''
    (FATAL_ERROR_IF (type = MT_Unknown) ''Concrete MeasurementType has to be specified''
    (let samples = map_at (samplesMap s) desc
     in FATAL_ERROR_IF (length (smp_vector samples) = maxSamplesCount s) ''Too many values pushed by the test''
       (FATAL_ERROR_IF (smp_unit samples \<noteq> unit \<and> smp_unit samples \<noteq> MU_Unknown)
          ''Different units used for the same measurement''
       (FATAL_ERROR_IF (smp_type samples \<noteq> type \<and> smp_type samples \<noteq> MT_Unknown)
          ''Different types used for the same measurement''
       (Ok (s\<lparr>samplesMap := map_set (samplesMap s) desc
                 \<lparr>smp_unit = unit, smp_type = type, smp_vector = smp_vector samples @ [v]\<rparr>,
               reachedInfinity := (reachedInfinity s \<or> V_reaches_max v)\<rparr>))))))"

definition TestCaseStatistics_pushTime ::
  "bool \<Rightarrow> TestCaseStatistics \<Rightarrow> int \<Rightarrow> MeasurementUnit \<Rightarrow> MeasurementType \<Rightarrow> string \<Rightarrow> TestCaseStatistics result" where
  "TestCaseStatistics_pushTime doNotPrintBandwidth s time unit0 type desc =
     (let timeSeconds = V_div (V_of_int time) (Fin (10 ^ 9));
          unit = overrideMeasurementUnit doNotPrintBandwidth unit0
      in case unit of
           Nanoseconds \<Rightarrow> pushValue s (V_mult timeSeconds (Fin (10 ^ 9))) desc unit type
         | Microseconds \<Rightarrow> pushValue s (V_mult timeSeconds (Fin (10 ^ 6))) desc unit type
         | Latency \<Rightarrow> pushValue s (V_mult timeSeconds (Fin (10 ^ 9))) desc unit type
         | GigabytesPerSecond \<Rightarrow>
             bindR (MeasurementUnit_to_string unit) (\<lambda>u. FATAL_ERROR (''Buffer size needs to be passed when unit is '' @ u))
         | _ \<Rightarrow> FATAL_ERROR ''Unknown measurement unit'')"

definition TestCaseStatistics_pushTimeSize ::
  "bool \<Rightarrow> TestCaseStatistics \<Rightarrow> int \<Rightarrow> nat \<Rightarrow> MeasurementUnit \<Rightarrow> MeasurementType \<Rightarrow> string \<Rightarrow> TestCaseStatistics result" where
  "TestCaseStatistics_pushTimeSize doNotPrintBandwidth s time sz unit0 type desc =
     (let timeSeconds = V_div (V_of_int time) (Fin (10 ^ 9));
          unit = overrideMeasurementUnit doNotPrintBandwidth unit0
      in case unit of
           Microseconds \<Rightarrow> pushValue s (V_mult timeSeconds (Fin (10 ^ 6))) desc unit type
         | GigabytesPerSecond \<Rightarrow>
             pushValue s (V_div (V_of_int (int sz)) (V_mult timeSeconds (Fin (10 ^ 9)))) desc unit type
         | _ \<Rightarrow> FATAL_ERROR ''Unknown measurement unit'')"

fun TestCaseStatistics_push :: "bool \<Rightarrow> TestCaseStatistics \<Rightarrow> Measurement \<Rightarrow> TestCaseStatistics result" where
  "TestCaseStatistics_push b s (pushPercentage v unit type desc) =
     (if unit \<noteq> Percentage then FATAL_ERROR ''Incorrect measurement unit''
      else pushValue s v desc (overrideMeasurementUnit b unit) type)"
| "TestCaseStatistics_push b s (pushTime time unit type desc) = TestCaseStatistics_pushTime b s time unit type desc"
| "TestCaseStatistics_push b s (pushTimeSize time sz unit type desc) =
     TestCaseStatistics_pushTimeSize b s time sz unit type desc"
| "TestCaseStatistics_push b s (pushMicroJoules microJoules unit type desc) =
     (if unit = MicroJoules then pushValue s (V_of_int (int microJoules)) desc unit type
      else FATAL_ERROR ''Unknown measurement unit'')"
| "TestCaseStatistics_push b s (pushWatts watts unit type desc) =
     (if unit = Watts then pushValue s watts desc unit type
      else FATAL_ERROR ''Unknown measurement unit'')"

definition TestCaseStatistics_pushUnitAndType ::
  "bool \<Rightarrow> TestCaseStatistics \<Rightarrow> MeasurementUnit \<Rightarrow> MeasurementType \<Rightarrow> TestCaseStatistics" where
  "TestCaseStatistics_pushUnitAndType b s unit type =
     s\<lparr>noopSample := (noopSample s)\<lparr>smp_unit := overrideMeasurementUnit b unit, smp_type := type\<rparr>\<rparr>"

definition TestCaseStatistics_isEmpty :: "TestCaseStatistics \<Rightarrow> bool" where
  "TestCaseStatistics_isEmpty s = list_all (\<lambda>(k, v). length (smp_vector v) = 0) (samplesMap s)"

definition TestCaseStatistics_isFull :: "TestCaseStatistics \<Rightarrow> bool" where
  "TestCaseStatistics_isFull s = list_all (\<lambda>(k, v). length (smp_vector v) = maxSamplesCount s) (samplesMap s)"

section \<open>WorkloadStatistics\<close>

text \<open>
  The string stream \<open>result\<close> is the list of the items written to it; an item is followed by a
  space. \<open>show_double\<close> is the stream's default notation of a floating point number.
\<close>

datatype stream_item = Item_integer int | Item_double Value

record WorkloadStatistics =
  ws_maxSamplesCount :: nat
  ws_result :: "stream_item list"
  samplesCount :: nat

definition make_WorkloadStatistics :: "nat \<Rightarrow> WorkloadStatistics" where
  "make_WorkloadStatistics n = \<lparr>ws_maxSamplesCount = n, ws_result = [], samplesCount = 0\<rparr>"

fun show_item :: "(Value \<Rightarrow> string) \<Rightarrow> stream_item \<Rightarrow> string" where
  "show_item show_double (Item_integer n) = to_string n"
| "show_item show_double (Item_double v) = show_double v"

definition WorkloadStatistics_text :: "(Value \<Rightarrow> string) \<Rightarrow> WorkloadStatistics \<Rightarrow> string" where
  "WorkloadStatistics_text show_double s = concat (map (\<lambda>i. show_item show_double i @ '' '') (ws_result s))"

definition ws_push_item ::
  "WorkloadStatistics \<Rightarrow> MeasurementUnit \<Rightarrow> MeasurementType \<Rightarrow> string \<Rightarrow> stream_item \<Rightarrow> WorkloadStatistics result" where
  "ws_push_item s unit type desc item =
     FATAL_ERROR_IF (type \<noteq> MT_Unknown) ''WorkloadStatistics does not support setting measurement type''
    (FATAL_ERROR_IF (unit \<noteq> MU_Unknown) ''WorkloadStatistics does not support setting measurement type''
    (FATAL_ERROR_IF (desc \<noteq> []) ''WorkloadStatistics does not support multiple statistics groups''
    (FATAL_ERROR_IF (samplesCount s = ws_maxSamplesCount s) ''Too many values pushed by the test''
      (Ok (s\<lparr>samplesCount := samplesCount s + 1, ws_result := ws_result s @ [item]\<rparr>)))))"

definition ws_not_implemented :: "MeasurementType \<Rightarrow> string \<Rightarrow> WorkloadStatistics result" where
  "ws_not_implemented type desc =
     FATAL_ERROR_IF (type \<noteq> MT_Unknown) ''WorkloadStatistics does not support setting measurement type''
    (FATAL_ERROR_IF (desc \<noteq> []) ''WorkloadStatistics does not support multiple statistics groups''
      (FATAL_ERROR ''Not implemented''))"

fun WorkloadStatistics_push :: "WorkloadStatistics \<Rightarrow> Measurement \<Rightarrow> WorkloadStatistics result" where
  "WorkloadStatistics_push s (pushPercentage v unit type desc) = ws_push_item s unit type desc (Item_double v)"
| "WorkloadStatistics_push s (pushTime time unit type desc) = ws_push_item s unit type desc (Item_integer time)"
| "WorkloadStatistics_push s (pushTimeSize _ _ _ type desc) = ws_not_implemented type desc"
| "WorkloadStatistics_push s (pushMicroJoules _ _ type desc) = ws_not_implemented type desc"
| "WorkloadStatistics_push s (pushWatts _ _ type desc) = ws_not_implemented type desc"

definition WorkloadStatistics_pushUnitAndType ::
  "WorkloadStatistics \<Rightarrow> MeasurementUnit \<Rightarrow> MeasurementType \<Rightarrow> WorkloadStatistics" where
  "WorkloadStatistics_pushUnitAndType s unit type = s"

definition WorkloadStatistics_isEmpty :: "WorkloadStatistics \<Rightarrow> bool" where
  "WorkloadStatistics_isEmpty s \<longleftrightarrow> samplesCount s = 0"

definition WorkloadStatistics_isFull :: "WorkloadStatistics \<Rightarrow> bool" where
  "WorkloadStatistics_isFull s \<longleftrightarrow> samplesCount s = ws_maxSamplesCount s"

section \<open>WorkloadStatistics meets the contract\<close>

definition ws_inv :: "WorkloadStatistics \<Rightarrow> bool" where
  "ws_inv s \<longleftrightarrow> samplesCount s \<le> ws_maxSamplesCount s \<and> length (ws_result s) = samplesCount s"

definition ws_count :: "WorkloadStatistics \<Rightarrow> string \<Rightarrow> nat" where
  "ws_count s g = (if g = [] then samplesCount s else 0)"

lemma ws_push_cases:
  assumes "WorkloadStatistics_push s m = Ok s'"
  obtains item where "description m = []" "samplesCount s \<noteq> ws_maxSamplesCount s"
    "s' = s\<lparr>samplesCount := samplesCount s + 1, ws_result := ws_result s @ [item]\<rparr>"
  using assms
  by (cases m) (auto simp: ws_push_item_def ws_not_implemented_def FATAL_ERROR_IF_def split: if_splits)

lemma ws_push_full:
  "description m = [] \<Longrightarrow> samplesCount s = ws_maxSamplesCount s \<Longrightarrow> \<not> is_ok (WorkloadStatistics_push s m)"
  by (cases m) (auto simp: ws_push_item_def ws_not_implemented_def FATAL_ERROR_IF_def)

lemma ws_push_description: "description m \<noteq> [] \<Longrightarrow> \<not> is_ok (WorkloadStatistics_push s m)"
  by (cases m) (auto simp: ws_push_item_def ws_not_implemented_def FATAL_ERROR_IF_def)

interpretation ws: statistics WorkloadStatistics_push ws_count ws_maxSamplesCount
  WorkloadStatistics_isEmpty WorkloadStatistics_isFull ws_inv
proof
  fix s m s' g
  assume inv: "ws_inv s"
  show "\<not> is_ok (WorkloadStatistics_push s m)" if "ws_count s (description m) = ws_maxSamplesCount s"
    using that ws_push_full [of m s] ws_push_description [of m s]
    by (cases "description m = []") (simp_all add: ws_count_def)
  show "WorkloadStatistics_isFull s" if "\<not> WorkloadStatistics_isEmpty s"
      "\<And>g. ws_count s g = 0 \<or> ws_count s g = ws_maxSamplesCount s"
    using that(1) that(2) [of "[]"]
    by (simp add: ws_count_def WorkloadStatistics_isEmpty_def WorkloadStatistics_isFull_def)
  show "ws_count s g = 0 \<or> ws_count s g = ws_maxSamplesCount s" if "WorkloadStatistics_isFull s"
    using that by (simp add: ws_count_def WorkloadStatistics_isFull_def)
  show "WorkloadStatistics_isEmpty s \<longleftrightarrow> (\<forall>g. ws_count s g = 0)"
    by (auto simp: ws_count_def WorkloadStatistics_isEmpty_def)
  show "ws_count s g \<le> ws_maxSamplesCount s" using inv by (simp add: ws_count_def ws_inv_def)
  assume p: "WorkloadStatistics_push s m = Ok s'"
  show "ws_inv s'" by (rule ws_push_cases [OF p]) (use inv in \<open>auto simp: ws_inv_def\<close>)
  show "ws_maxSamplesCount s' = ws_maxSamplesCount s" by (rule ws_push_cases [OF p]) simp
  show "ws_count s' g = (if g = description m then Suc (ws_count s g) else ws_count s g)"
    by (rule ws_push_cases [OF p]) (simp add: ws_count_def)
qed

section \<open>TestCaseStatistics meets the contract\<close>

definition tcs_count :: "TestCaseStatistics \<Rightarrow> string \<Rightarrow> nat" where
  "tcs_count s g = length (smp_vector (map_at (samplesMap s) g))"

text \<open>
  The keys of the map are strictly increasing; a group that exists has a sample, a unit and a type,
  and at most the requested count of samples.
\<close>

definition tcs_inv :: "TestCaseStatistics \<Rightarrow> bool" where
  "tcs_inv s \<longleftrightarrow> sorted_wrt (<) (map fst (samplesMap s))
     \<and> (\<forall>(k, v) \<in> set (samplesMap s). smp_vector v \<noteq> [] \<and> length (smp_vector v) \<le> maxSamplesCount s
          \<and> smp_unit v \<noteq> MU_Unknown \<and> smp_type v \<noteq> MT_Unknown)"

lemma map_set_set: "set (map_set m k v) \<subseteq> insert (k, v) (set m)"
  by (induction m k v rule: map_set.induct) auto

lemma map_set_sorted: "sorted_wrt (<) (map fst m) \<Longrightarrow> sorted_wrt (<) (map fst (map_set m k v))"
proof (induction m k v rule: map_set.induct)
  case (2 k' v' m k v)
  show ?case
  proof (cases "k < k' \<or> k = k'")
    case True
    with 2 show ?thesis by (auto intro: less_trans)
  next
    case False
    then have "k' < k" by auto
    then have "k' < fst x" if "x \<in> set (map_set m k v)" for x
      using that map_set_set [of m k v] 2 by auto
    then show ?thesis using 2 False by auto
  qed
qed simp

lemma map_of_map_set: "sorted_wrt (<) (map fst m) \<Longrightarrow> map_of (map_set m k v) g = (if g = k then Some v else map_of m g)"
proof (induction m k v rule: map_set.induct)
  case (2 k' v' m k v)
  have "k < k' \<Longrightarrow> k \<notin> fst ` set m" using 2 by force
  then show ?case using 2 by auto
qed auto

lemma map_at_map_set: "sorted_wrt (<) (map fst m) \<Longrightarrow> map_at (map_set m k v) g = (if g = k then v else map_at m g)"
  by (simp add: map_at_def map_of_map_set)

lemma tcs_push_pushValue:
  "TestCaseStatistics_push b s m = Ok s' \<Longrightarrow> \<exists>v unit type. pushValue s v (description m) unit type = Ok s'"
  by (cases m) (auto simp: TestCaseStatistics_pushTime_def TestCaseStatistics_pushTimeSize_def Let_def bindR_eq_Inr
      split: MeasurementUnit.splits if_splits)

lemma tcs_push_cases:
  assumes "TestCaseStatistics_push b s m = Ok s'"
  obtains v unit type where "unit \<noteq> MU_Unknown" "type \<noteq> MT_Unknown" "tcs_count s (description m) \<noteq> maxSamplesCount s"
    "s' = s\<lparr>samplesMap := map_set (samplesMap s) (description m)
              \<lparr>smp_unit = unit, smp_type = type,
               smp_vector = smp_vector (map_at (samplesMap s) (description m)) @ [v]\<rparr>,
            reachedInfinity := (reachedInfinity s \<or> V_reaches_max v)\<rparr>"
  using tcs_push_pushValue [OF assms] that
  by (auto simp: pushValue_def FATAL_ERROR_IF_eq_Inr tcs_count_def Let_def)

lemma map_at_bound:
  assumes "tcs_inv s"
  shows "length (smp_vector (map_at (samplesMap s) g)) \<le> maxSamplesCount s"
  using assms by (auto simp: tcs_inv_def map_at_def no_samples_def dest!: map_of_SomeD split: option.splits)

lemma map_at_empty_iff:
  assumes "tcs_inv s"
  shows "tcs_count s g = 0 \<longleftrightarrow> g \<notin> fst ` set (samplesMap s)"
proof
  assume z: "tcs_count s g = 0"
  show "g \<notin> fst ` set (samplesMap s)"
  proof (cases "map_of (samplesMap s) g")
    case None
    then show ?thesis by (simp add: map_of_eq_None_iff)
  next
    case (Some v)
    with z have "smp_vector v = []" by (simp add: tcs_count_def map_at_def)
    with assms map_of_SomeD [OF Some] show ?thesis by (auto simp: tcs_inv_def)
  qed
next
  assume "g \<notin> fst ` set (samplesMap s)"
  then show "tcs_count s g = 0"
    by (simp add: tcs_count_def map_at_def no_samples_def map_of_eq_None_iff [THEN iffD2])
qed

lemma tcs_entry:
  assumes "tcs_inv s" "(k, v) \<in> set (samplesMap s)"
  shows "length (smp_vector v) = tcs_count s k" "tcs_count s k \<noteq> 0"
proof -
  have "distinct (map fst (samplesMap s))"
    using assms(1) by (simp add: tcs_inv_def strict_sorted_iff)
  with assms(2) have "map_of (samplesMap s) k = Some v" by simp
  then show len: "length (smp_vector v) = tcs_count s k" by (simp add: tcs_count_def map_at_def)
  have "smp_vector v \<noteq> []" using assms by (auto simp: tcs_inv_def)
  then show "tcs_count s k \<noteq> 0" by (metis len length_0_conv)
qed

lemma tcs_isEmpty_iff: "tcs_inv s \<Longrightarrow> TestCaseStatistics_isEmpty s \<longleftrightarrow> samplesMap s = []"
  by (cases "samplesMap s") (auto simp: TestCaseStatistics_isEmpty_def tcs_inv_def)

lemma tcs_isFull_iff:
  assumes "tcs_inv s"
  shows "TestCaseStatistics_isFull s \<longleftrightarrow> (\<forall>g. tcs_count s g = 0 \<or> tcs_count s g = maxSamplesCount s)"
proof -
  have "TestCaseStatistics_isFull s \<longleftrightarrow> (\<forall>k \<in> fst ` set (samplesMap s). tcs_count s k = maxSamplesCount s)"
    using tcs_entry [OF assms] by (fastforce simp: TestCaseStatistics_isFull_def list_all_iff)
  then show ?thesis using map_at_empty_iff [OF assms] by metis
qed

lemma tcs_push_inv:
  assumes "tcs_inv s" "TestCaseStatistics_push b s m = Ok s'"
  shows "tcs_inv s'"
proof (rule tcs_push_cases [OF assms(2)])
  fix v unit type
  let ?smp = "\<lparr>smp_unit = unit, smp_type = type, smp_vector = smp_vector (map_at (samplesMap s) (description m)) @ [v]\<rparr>"
  assume u: "unit \<noteq> MU_Unknown" "type \<noteq> MT_Unknown" "tcs_count s (description m) \<noteq> maxSamplesCount s"
    and s': "s' = s\<lparr>samplesMap := map_set (samplesMap s) (description m) ?smp,
            reachedInfinity := (reachedInfinity s \<or> V_reaches_max v)\<rparr>"
  have "length (smp_vector ?smp) \<le> maxSamplesCount s"
    using u(3) map_at_bound [OF assms(1), of "description m"] by (simp add: tcs_count_def)
  then show ?thesis
    using assms(1) u map_set_sorted [of "samplesMap s" "description m" ?smp]
      map_set_set [of "samplesMap s" "description m" ?smp]
    unfolding s' tcs_inv_def by auto
qed

interpretation tcs: statistics "TestCaseStatistics_push b" tcs_count maxSamplesCount
  TestCaseStatistics_isEmpty TestCaseStatistics_isFull tcs_inv for b
proof
  fix s m s' g
  assume inv: "tcs_inv s"
  show "\<not> is_ok (TestCaseStatistics_push b s m)" if "tcs_count s (description m) = maxSamplesCount s"
    using that tcs_push_cases by (fastforce simp: is_ok_iff)
  show "TestCaseStatistics_isFull s" if "\<And>g. tcs_count s g = 0 \<or> tcs_count s g = maxSamplesCount s"
    using tcs_isFull_iff [OF inv] that by blast
  show "tcs_count s g = 0 \<or> tcs_count s g = maxSamplesCount s" if "TestCaseStatistics_isFull s"
    using tcs_isFull_iff [OF inv] that by blast
  show "TestCaseStatistics_isEmpty s \<longleftrightarrow> (\<forall>g. tcs_count s g = 0)"
    using map_at_empty_iff [OF inv] tcs_isEmpty_iff [OF inv] by (cases "samplesMap s") auto
  show "tcs_count s g \<le> maxSamplesCount s" using map_at_bound [OF inv] by (simp add: tcs_count_def)
  assume p: "TestCaseStatistics_push b s m = Ok s'"
  show "tcs_inv s'" using tcs_push_inv [OF inv p] .
  show "maxSamplesCount s' = maxSamplesCount s" by (rule tcs_push_cases [OF p]) simp
  show "tcs_count s' g = (if g = description m then Suc (tcs_count s g) else tcs_count s g)"
    by (rule tcs_push_cases [OF p]) (use inv in \<open>simp add: tcs_count_def map_at_map_set tcs_inv_def\<close>)
qed

section \<open>What a run stores\<close>

text \<open>
  The value, unit and type a measurement is stored with, \<open>None\<close> for the combinations of a measurement with a unit that no push
  function takes: a specification that does not look at what is stored already.
\<close>

definition seconds :: "int \<Rightarrow> Value" where
  "seconds time = V_div (V_of_int time) (Fin (10 ^ 9))"

fun converted :: "bool \<Rightarrow> Measurement \<Rightarrow> (Value \<times> MeasurementUnit \<times> MeasurementType) option" where
  "converted b (pushPercentage v unit type d) = (if unit = Percentage then Some (v, Percentage, type) else None)"
| "converted b (pushTime time unit type d) =
     (if unit = Nanoseconds \<or> unit = Latency then Some (V_mult (seconds time) (Fin (10 ^ 9)), unit, type)
      else if unit = Microseconds \<or> unit = GigabytesPerSecond \<and> b
           then Some (V_mult (seconds time) (Fin (10 ^ 6)), Microseconds, type)
      else None)"
| "converted b (pushTimeSize time sz unit type d) =
     (if unit = Microseconds \<or> unit = GigabytesPerSecond \<and> b
      then Some (V_mult (seconds time) (Fin (10 ^ 6)), Microseconds, type)
      else if unit = GigabytesPerSecond
           then Some (V_div (V_of_int (int sz)) (V_mult (seconds time) (Fin (10 ^ 9))), unit, type)
      else None)"
| "converted b (pushMicroJoules energy unit type d) =
     (if unit = MicroJoules then Some (V_of_int (int energy), unit, type) else None)"
| "converted b (pushWatts v unit type d) = (if unit = Watts then Some (v, unit, type) else None)"

definition recorded :: "bool \<Rightarrow> Measurement \<Rightarrow> Value \<times> MeasurementUnit \<times> MeasurementType" where
  "recorded b m = the (converted b m)"

definition acceptable :: "bool \<Rightarrow> Measurement \<Rightarrow> bool" where
  "acceptable b m \<longleftrightarrow> converted b m \<noteq> None \<and> snd (snd (recorded b m)) \<noteq> MT_Unknown"

text \<open>
  Measurements that fit together: each is acceptable, those of one group have one unit and one type, and no group has more than \<open>n\<close>.
\<close>

definition group_of :: "Measurement list \<Rightarrow> string \<Rightarrow> Measurement list" where
  "group_of ms g = filter (\<lambda>m. description m = g) ms"

definition consistent :: "bool \<Rightarrow> nat \<Rightarrow> Measurement list \<Rightarrow> bool" where
  "consistent b n ms \<longleftrightarrow>
     (\<forall>m \<in> set ms. acceptable b m) \<and>
     (\<forall>m \<in> set ms. \<forall>m' \<in> set ms. description m = description m' \<longrightarrow> snd (recorded b m) = snd (recorded b m')) \<and>
     (\<forall>g. length (group_of ms g) \<le> n)"

text \<open>What the object then holds: the groups in the order of their names, each with its unit, its type and its values in the order they came.\<close>

definition stored_samples :: "bool \<Rightarrow> Measurement list \<Rightarrow> string \<Rightarrow> Samples" where
  "stored_samples b ms g =
     (case group_of ms g of [] \<Rightarrow> no_samples
      | m # _ \<Rightarrow> \<lparr>smp_unit = fst (snd (recorded b m)), smp_type = snd (snd (recorded b m)),
                   smp_vector = map (\<lambda>m. fst (recorded b m)) (group_of ms g)\<rparr>)"

definition stored_statistics :: "bool \<Rightarrow> nat \<Rightarrow> PrintType \<Rightarrow> Measurement list \<Rightarrow> TestCaseStatistics" where
  "stored_statistics b n p ms =
     \<lparr>maxSamplesCount = n, tcs_printType = p,
      samplesMap = map (\<lambda>g. (g, stored_samples b ms g)) (sorted_list_of_set (description ` set ms)),
      noopSample = no_samples, reachedInfinity = list_ex (\<lambda>m. V_reaches_max (fst (recorded b m))) ms\<rparr>"

lemma push_converted:
  "TestCaseStatistics_push b s m = Ok s' \<longleftrightarrow>
     (\<exists>v unit type. converted b m = Some (v, unit, type) \<and> pushValue s v (description m) unit type = Ok s')"
  by (cases m)
    (auto simp: TestCaseStatistics_pushTime_def TestCaseStatistics_pushTimeSize_def Let_def seconds_def overrideMeasurementUnit_def bindR_eq_Inr
      split: MeasurementUnit.splits if_splits)

lemma converted_unit: "converted b m = Some (v, unit, type) \<Longrightarrow> unit \<noteq> MU_Unknown"
  by (cases m) (auto split: if_splits)

lemma map_set_groups:
  assumes "sorted_wrt (<) ks"
  shows "map_set (map (\<lambda>g. (g, f g)) ks) k v = map (\<lambda>g. (g, (f(k := v)) g)) (if k \<in> set ks then ks else insort k ks)"
  using assms
proof (induction ks)
  case (Cons k' ks)
  then have less: "\<And>x. x \<in> set ks \<Longrightarrow> k' < x" by simp
  have same: "map (\<lambda>g. (g, (f(k := v)) g)) xs = map (\<lambda>g. (g, f g)) xs" if "k \<notin> set xs" for xs using that by auto
  consider "k = k'" | "k < k'" | "k' < k" by (metis linorder_neqE)
  then show ?case
  proof cases
    case 1
    then have "k \<notin> set ks" using less by blast
    with 1 show ?thesis by (simp add: same)
  next
    case 2
    then have "k \<notin> set (k' # ks)" using less by (auto dest: less_trans)
    with 2 show ?thesis using same [of "k' # ks"] by (simp del: map_fun_upd)
  next
    case 3
    then show ?thesis using Cons by auto
  qed
qed simp

lemma group_of_snoc: "group_of (ms @ [m]) g = (if g = description m then group_of ms g @ [m] else group_of ms g)"
  by (simp add: group_of_def)

lemma group_of_empty: "group_of ms g = [] \<longleftrightarrow> g \<notin> description ` set ms"
  by (auto simp: group_of_def filter_empty_conv)

lemma map_at_stored: "map_at (samplesMap (stored_statistics b n p ms)) g = stored_samples b ms g"
proof (cases "g \<in> description ` set ms")
  case True
  have "map_of (map (\<lambda>g. (g, stored_samples b ms g)) ks) g = Some (stored_samples b ms g)" if "g \<in> set ks" for ks
    using that by (induction ks) auto
  with True show ?thesis by (simp add: map_at_def stored_statistics_def)
next
  case False
  then have "map_of (map (\<lambda>g. (g, stored_samples b ms g)) (sorted_list_of_set (description ` set ms))) g = None"
    by (simp add: map_of_eq_None_iff image_image)
  moreover have "group_of ms g = []" using False by (simp add: group_of_empty)
  ultimately show ?thesis by (simp add: map_at_def stored_statistics_def stored_samples_def)
qed

lemma stored_samples_vector: "smp_vector (stored_samples b ms g) = map (\<lambda>m. fst (recorded b m)) (group_of ms g)"
  by (simp add: stored_samples_def no_samples_def split: list.split)

lemma group_of_bound_snoc:
  "(\<forall>g. length (group_of (ms @ [m]) g) \<le> n) \<longleftrightarrow> (\<forall>g. length (group_of ms g) \<le> n) \<and> length (group_of ms (description m)) < n"
proof
  assume h: "\<forall>g. length (group_of (ms @ [m]) g) \<le> n"
  have "length (group_of ms g) \<le> length (group_of (ms @ [m]) g)" for g by (simp add: group_of_snoc)
  with h show "(\<forall>g. length (group_of ms g) \<le> n) \<and> length (group_of ms (description m)) < n"
    using spec [OF h, of "description m"] by (auto simp: group_of_snoc intro: order_trans)
qed (simp add: group_of_snoc)

lemma set_group_of: "m \<in> set (group_of ms g) \<longleftrightarrow> m \<in> set ms \<and> description m = g"
  by (auto simp: group_of_def)

lemma pairs_insert:
  assumes "\<And>x y. R x y \<Longrightarrow> R y x" "\<And>x. R x x"
  shows "(\<forall>x \<in> insert a A. \<forall>y \<in> insert a A. R x y) \<longleftrightarrow> (\<forall>x \<in> A. \<forall>y \<in> A. R x y) \<and> (\<forall>x \<in> A. R x a)"
  using assms by blast

lemma consistent_snoc:
  "consistent b n (ms @ [m]) \<longleftrightarrow> consistent b n ms \<and> acceptable b m \<and> length (group_of ms (description m)) < n \<and>
     (\<forall>m' \<in> set (group_of ms (description m)). snd (recorded b m') = snd (recorded b m))"
proof -
  let ?R = "\<lambda>m m'. description m = description m' \<longrightarrow> snd (recorded b m) = snd (recorded b m')"
  have "(\<forall>x \<in> insert m (set ms). \<forall>y \<in> insert m (set ms). ?R x y) \<longleftrightarrow>
      (\<forall>x \<in> set ms. \<forall>y \<in> set ms. ?R x y) \<and> (\<forall>x \<in> set ms. ?R x m)"
    by (rule pairs_insert [of ?R]) simp_all
  moreover have "set (ms @ [m]) = insert m (set ms)" by simp
  ultimately have r: "(\<forall>x \<in> set (ms @ [m]). \<forall>y \<in> set (ms @ [m]). ?R x y) \<longleftrightarrow>
      (\<forall>x \<in> set ms. \<forall>y \<in> set ms. ?R x y) \<and> (\<forall>x \<in> set ms. ?R x m)" by (simp only:)
  have "(\<forall>x \<in> set (ms @ [m]). acceptable b x) \<longleftrightarrow> (\<forall>x \<in> set ms. acceptable b x) \<and> acceptable b m" by auto
  moreover have "(\<forall>m' \<in> set (group_of ms (description m)). snd (recorded b m') = snd (recorded b m)) \<longleftrightarrow> (\<forall>x \<in> set ms. ?R x m)"
    unfolding Ball_def set_group_of by blast
  ultimately show ?thesis unfolding consistent_def group_of_bound_snoc r by argo
qed

lemma stored_head:
  assumes "consistent b n ms" "group_of ms g = m # r"
  shows "smp_unit (stored_samples b ms g) = fst (snd (recorded b m))" "smp_type (stored_samples b ms g) = snd (snd (recorded b m))"
    "smp_unit (stored_samples b ms g) \<noteq> MU_Unknown" "smp_type (stored_samples b ms g) \<noteq> MT_Unknown"
    "\<forall>m' \<in> set (group_of ms g). snd (recorded b m') = snd (recorded b m)"
proof -
  show u: "smp_unit (stored_samples b ms g) = fst (snd (recorded b m))" "smp_type (stored_samples b ms g) = snd (snd (recorded b m))"
    using assms(2) by (simp_all add: stored_samples_def)
  have "m \<in> set (group_of ms g)" using assms(2) by simp
  then have m: "m \<in> set ms" "description m = g" by (simp_all add: group_of_def)
  then have "acceptable b m" using assms(1) unfolding consistent_def by blast
  then have a: "converted b m \<noteq> None" "snd (snd (recorded b m)) \<noteq> MT_Unknown" unfolding acceptable_def by blast+
  from a(1) obtain v unit type where "converted b m = Some (v, unit, type)" by (cases "converted b m") auto
  then have "fst (snd (recorded b m)) \<noteq> MU_Unknown" using converted_unit [of b m v unit type] by (simp add: recorded_def)
  with a(2) show "smp_unit (stored_samples b ms g) \<noteq> MU_Unknown" "smp_type (stored_samples b ms g) \<noteq> MT_Unknown"
    by (simp_all only: u not_False_eq_True)
  show "\<forall>m' \<in> set (group_of ms g). snd (recorded b m') = snd (recorded b m)"
  proof
    fix m' assume "m' \<in> set (group_of ms g)"
    then have "m' \<in> set ms" "description m' = description m" using m(2) by (simp_all add: set_group_of)
    then show "snd (recorded b m') = snd (recorded b m)" using assms(1) m(1) unfolding consistent_def by blast
  qed
qed

text \<open>The checks of \<open>pushValue\<close> on the stored unit and type are the one that the group has one unit and type.\<close>

lemma stored_agrees:
  assumes "consistent b n ms"
  shows "\<not> (smp_unit (stored_samples b ms g) \<noteq> unit \<and> smp_unit (stored_samples b ms g) \<noteq> MU_Unknown) \<and>
      \<not> (smp_type (stored_samples b ms g) \<noteq> type \<and> smp_type (stored_samples b ms g) \<noteq> MT_Unknown) \<longleftrightarrow>
    (\<forall>m' \<in> set (group_of ms g). snd (recorded b m') = (unit, type))"
proof (cases "group_of ms g")
  case Nil
  then show ?thesis by (simp add: stored_samples_def no_samples_def)
next
  case (Cons m r)
  note h = stored_head [OF assms Cons]
  have "(\<forall>m' \<in> set (group_of ms g). snd (recorded b m') = (unit, type)) \<longleftrightarrow> snd (recorded b m) = (unit, type)"
    using h(5) Cons by auto
  with h(1-4) show ?thesis by (auto simp: prod_eq_iff)
qed

lemma stored_snoc:
  assumes "consistent b n (ms @ [m])" "recorded b m = (v, unit, type)"
  shows "stored_samples b (ms @ [m]) = (stored_samples b ms)(description m :=
    \<lparr>smp_unit = unit, smp_type = type, smp_vector = smp_vector (stored_samples b ms (description m)) @ [v]\<rparr>)"
proof
  fix g
  have agree: "snd (recorded b m') = (unit, type)" if "m' \<in> set (group_of ms (description m))" for m'
    using assms that by (simp add: consistent_snoc)
  show "stored_samples b (ms @ [m]) g = ((stored_samples b ms)(description m :=
      \<lparr>smp_unit = unit, smp_type = type, smp_vector = smp_vector (stored_samples b ms (description m)) @ [v]\<rparr>)) g"
  proof (cases "g = description m")
    case True
    then show ?thesis
      using agree assms(2)
      by (cases "group_of ms (description m)") (auto simp: stored_samples_def group_of_snoc no_samples_def)
  next
    case False
    then show ?thesis by (simp add: stored_samples_def group_of_snoc split: list.split)
  qed
qed

lemma push_stored:
  assumes "consistent b n ms"
  shows "TestCaseStatistics_push b (stored_statistics b n p ms) m = Ok s \<longleftrightarrow>
    consistent b n (ms @ [m]) \<and> s = stored_statistics b n p (ms @ [m])"
proof (cases "converted b m")
  case None
  then show ?thesis by (simp add: push_converted consistent_snoc acceptable_def)
next
  case (Some c)
  then obtain v unit type where c: "converted b m = Some (v, unit, type)" by (cases c) auto
  then have r: "recorded b m = (v, unit, type)" and a: "acceptable b m \<longleftrightarrow> type \<noteq> MT_Unknown"
    by (simp_all add: recorded_def acceptable_def)
  let ?g = "description m" and ?s = "stored_statistics b n p ms"
  let ?smp = "\<lparr>smp_unit = unit, smp_type = type, smp_vector = smp_vector (stored_samples b ms ?g) @ [v]\<rparr>"
  have len: "length (group_of ms ?g) \<le> n" using assms by (simp add: consistent_def)
  have "TestCaseStatistics_push b ?s m = Ok s \<longleftrightarrow> pushValue ?s v ?g unit type = Ok s" by (simp add: push_converted c)
  also have "\<dots> \<longleftrightarrow> consistent b n (ms @ [m]) \<and>
      s = ?s\<lparr>samplesMap := map_set (samplesMap ?s) ?g ?smp, reachedInfinity := (reachedInfinity ?s \<or> V_reaches_max v)\<rparr>"
  proof -
    have max: "maxSamplesCount ?s = n" by (simp add: stored_statistics_def)
    have "length (smp_vector (stored_samples b ms ?g)) \<noteq> n \<longleftrightarrow> length (group_of ms ?g) < n" using len by (auto simp: stored_samples_vector)
    then show ?thesis
      unfolding pushValue_def FATAL_ERROR_IF_eq_Inr Let_def map_at_stored max consistent_snoc a
      using converted_unit [OF c] stored_agrees [OF assms, of ?g unit type] assms by (auto simp: r)
  qed
  also have "\<dots> \<longleftrightarrow> consistent b n (ms @ [m]) \<and> s = stored_statistics b n p (ms @ [m])"
  proof (rule conj_cong [OF refl])
    assume con: "consistent b n (ms @ [m])"
    let ?ks = "sorted_list_of_set (description ` set ms)"
    have "map_set (samplesMap ?s) ?g ?smp = map (\<lambda>g. (g, stored_samples b (ms @ [m]) g)) (if ?g \<in> set ?ks then ?ks else insort ?g ?ks)"
      unfolding stored_statistics_def using map_set_groups [of ?ks "stored_samples b ms" ?g ?smp]
      by (simp add: stored_snoc [OF con r] del: fun_upd_apply)
    moreover have "(if ?g \<in> set ?ks then ?ks else insort ?g ?ks) = sorted_list_of_set (description ` set (ms @ [m]))"
      by (cases "?g \<in> description ` set ms")
        (simp_all add: insert_absorb sorted_list_of_set_insert del: sorted_list_of_set_insert_remove)
    ultimately show "s = ?s\<lparr>samplesMap := map_set (samplesMap ?s) ?g ?smp, reachedInfinity := (reachedInfinity ?s \<or> V_reaches_max v)\<rparr> \<longleftrightarrow>
        s = stored_statistics b n p (ms @ [m])"
      by (simp add: stored_statistics_def r)
  qed
  finally show ?thesis .
qed

lemma run_stored:
  "foldM (TestCaseStatistics_push b) (make_TestCaseStatistics n p) ms = Ok s \<longleftrightarrow> consistent b n ms \<and> s = stored_statistics b n p ms"
proof (induction ms arbitrary: s rule: rev_induct)
  case Nil
  show ?case
    by (auto simp: consistent_def group_of_def stored_statistics_def make_TestCaseStatistics_def)
next
  case (snoc m ms)
  then show ?case using push_stored [of b n ms p m s] by (auto simp: foldM_append bindR_eq_Inr consistent_snoc)
qed

section \<open>Properties\<close>

text \<open>
  C5: What measurements a test may push into a fresh \<open>TestCaseStatistics\<close> for \<open>n\<close> samples, and what is then stored: all pushes are
  accepted exactly when each measurement has a type and a unit its push function takes, the measurements of one group agree in unit and
  type, and no group gets more than \<open>n\<close>. Then each group, in the order of the names, holds its unit, its type and its values in the
  order they were pushed, and the object reports full exactly when every group that received a sample received \<open>n\<close> of them.
\<close>

theorem TestCaseStatistics_run:
  "(foldM (TestCaseStatistics_push b) (make_TestCaseStatistics n p) ms = Ok s \<longleftrightarrow>
      consistent b n ms \<and> s = stored_statistics b n p ms)
   \<and> (foldM (TestCaseStatistics_push b) (make_TestCaseStatistics n p) ms = Ok s \<longrightarrow> ms \<noteq> [] \<longrightarrow>
      (TestCaseStatistics_isFull s \<longleftrightarrow> (\<forall>m \<in> set ms. length (group_of ms (description m)) = n)))"
proof (intro conjI impI run_stored)
  assume run: "foldM (TestCaseStatistics_push b) (make_TestCaseStatistics n p) ms = Ok s" "ms \<noteq> []"
  have "tcs_inv (make_TestCaseStatistics n p)" "TestCaseStatistics_isEmpty (make_TestCaseStatistics n p)"
    "maxSamplesCount (make_TestCaseStatistics n p) = n"
    by (simp_all add: tcs_inv_def TestCaseStatistics_isEmpty_def make_TestCaseStatistics_def)
  with tcs.run_full_iff [OF _ _ run] show "TestCaseStatistics_isFull s \<longleftrightarrow> (\<forall>m \<in> set ms. length (group_of ms (description m)) = n)"
    by (simp add: group_of_def)
qed

text \<open>Two times in microseconds fill their group; a time in nanoseconds may not follow one in microseconds.\<close>

theorem TestCaseStatistics_run_witness:
  "(\<exists>s. foldM (TestCaseStatistics_push False) (make_TestCaseStatistics 2 PT_Default)
       [pushTime 5000 Microseconds Cpu [], pushTime 7000 Microseconds Cpu []] = Ok s \<and> TestCaseStatistics_isFull s)
   \<and> (\<nexists>s. foldM (TestCaseStatistics_push False) (make_TestCaseStatistics 2 PT_Default)
       [pushTime 5000 Microseconds Cpu [], pushTime 7000 Nanoseconds Cpu []] = Ok s)"
proof -
  let ?ok = "[pushTime 5000 Microseconds Cpu [], pushTime 7000 Microseconds Cpu []]"
    and ?mixed = "[pushTime 5000 Microseconds Cpu [], pushTime 7000 Nanoseconds Cpu []]"
  have "consistent False 2 ?ok" "\<not> consistent False 2 ?mixed"
    by (simp_all add: consistent_def acceptable_def recorded_def group_of_def)
  with TestCaseStatistics_run [of False 2 PT_Default ?ok "stored_statistics False 2 PT_Default ?ok"]
    TestCaseStatistics_run [of False 2 PT_Default ?mixed]
  show ?thesis by (simp add: group_of_def del: foldM.simps)
qed

end
