(* ===== verification/Metrics.thy ===== *)
theory Metrics
  imports Statistics "HOL-Library.Multiset"
begin

text \<open>
  \<open>TestCaseStatistics::Metrics\<close>, \<open>MetricsStrings\<close> and the printing functions of
  \<open>framework/test_case/test_case_statistics.cpp\<close>. The metrics are functions on the vector of
  samples; the printing functions return the text they write to the standard output.
\<close>

section \<open>Metrics\<close>

text \<open>\<open>std::min_element\<close> and \<open>std::max_element\<close> on a range that is not empty.\<close>

definition calculateMin :: "Value list \<Rightarrow> Value result" where
  "calculateMin samples =
     (case samples of [] \<Rightarrow> Inl (Undefined_behaviour ''dereferenced end'')
      | x # xs \<Rightarrow> Ok (foldl (\<lambda>smallest y. if V_less y smallest then y else smallest) x xs))"

definition calculateMax :: "Value list \<Rightarrow> Value result" where
  "calculateMax samples =
     (case samples of [] \<Rightarrow> Inl (Undefined_behaviour ''dereferenced end'')
      | x # xs \<Rightarrow> Ok (foldl (\<lambda>largest y. if V_less largest y then y else largest) x xs))"

definition calculateMean :: "Value list \<Rightarrow> Value" where
  "calculateMean samples = V_div (foldl V_add (Fin 0) samples) (V_of_int (int (length samples)))"

text \<open>\<open>std::sort\<close> needs a strict weak ordering, which a not-a-number among the samples breaks.\<close>

fun V_insort :: "Value \<Rightarrow> Value list \<Rightarrow> Value list" where
  "V_insort x [] = [x]"
| "V_insort x (y # ys) = (if V_less y x then y # V_insort x ys else x # y # ys)"

definition V_sort :: "Value list \<Rightarrow> Value list result" where
  "V_sort xs = (if list_ex (\<lambda>v. v = NaN) xs \<and> length xs > 1 then Inl (Undefined_behaviour ''std::sort'')
                else Ok (foldr V_insort xs []))"

definition calculateMedian :: "Value list \<Rightarrow> Value result" where
  "calculateMedian samples =
     bindR (V_sort samples) (\<lambda>sortedSamples.
       let n = length sortedSamples
       in if n = 0 then Inl (Undefined_behaviour ''sortedSamples[-1]'')
          else if n mod 2 = 0
               then Ok (V_div (V_add (sortedSamples ! (n div 2 - 1)) (sortedSamples ! (n div 2))) (Fin 2))
               else Ok (sortedSamples ! (n div 2)))"

definition calculateStandardDeviation :: "Value list \<Rightarrow> Value \<Rightarrow> Value" where
  "calculateStandardDeviation samples mean =
     (let diffSum = foldl (\<lambda>sum x. let difference = V_sub x mean in V_add sum (V_mult difference difference))
                      (Fin 0) samples
      in V_div (V_sqrt (V_div diffSum (V_of_int (int (length samples))))) mean)"

record Metrics =
  mtr_min :: Value
  mtr_max :: Value
  mtr_mean :: Value
  mtr_median :: Value
  mtr_standardDeviation :: Value

definition make_Metrics :: "Value list \<Rightarrow> Metrics result" where
  "make_Metrics samples =
     bindR (calculateMin samples) (\<lambda>mn. bindR (calculateMax samples) (\<lambda>mx.
       let mean = calculateMean samples
       in bindR (calculateMedian samples) (\<lambda>md.
            Ok \<lparr>mtr_min = mn, mtr_max = mx, mtr_mean = mean, mtr_median = md,
                mtr_standardDeviation = calculateStandardDeviation samples mean\<rparr>)))"

section \<open>MetricsStrings\<close>

text \<open>\<open>std::fixed << std::setprecision(n)\<close>: the nearest decimal with \<open>n\<close> digits, ties to even.\<close>

fun pad_left0 :: "nat \<Rightarrow> string \<Rightarrow> string" where
  "pad_left0 n s = replicate (n - length s) CHR ''0'' @ s"

fun fixed :: "nat \<Rightarrow> Value \<Rightarrow> string" where
  "fixed n (Fin r) =
     (let k = nat (round_even (\<bar>r\<bar> * 10 ^ n))
      in (if r < 0 then ''-'' else []) @ dec_digits (k div 10 ^ n) @ ''.'' @ pad_left0 n (dec_digits (k mod 10 ^ n)))"
| "fixed n PosInf = ''inf''"
| "fixed n NegInf = ''-inf''"
| "fixed n NaN = ''nan''"

definition generateMean :: "Value \<Rightarrow> bool \<Rightarrow> string" where
  "generateMean mean reachedInf = (if reachedInf then ''inf'' else fixed 3 mean)"

definition generateStandardDeviation :: "Value \<Rightarrow> bool \<Rightarrow> string" where
  "generateStandardDeviation sd reachedInf =
     (if reachedInf then ''inf'' else fixed 2 (V_mult (Fin 100) sd) @ ''%'')"

definition generateLabel :: "string \<Rightarrow> MeasurementUnit \<Rightarrow> string result" where
  "generateLabel name unit =
     bindR (MeasurementUnit_to_string unit) (\<lambda>u. if name = [] then Ok u else Ok (name @ '' '' @ u))"

record MetricsStrings =
  str_min :: string
  str_max :: string
  str_mean :: string
  str_median :: string
  str_standardDeviation :: string
  str_type :: string
  str_label :: string

definition make_MetricsStrings :: "string \<Rightarrow> Samples \<Rightarrow> bool \<Rightarrow> MetricsStrings result" where
  "make_MetricsStrings name samples reachedInf =
     bindR (make_Metrics (smp_vector samples)) (\<lambda>metrics.
     bindR (MeasurementType_to_string (smp_type samples)) (\<lambda>type.
     bindR (generateLabel name (smp_unit samples)) (\<lambda>label.
       Ok \<lparr>str_min = fixed 3 (mtr_min metrics), str_max = fixed 3 (mtr_max metrics),
           str_mean = generateMean (mtr_mean metrics) reachedInf, str_median = fixed 3 (mtr_median metrics),
           str_standardDeviation = generateStandardDeviation (mtr_standardDeviation metrics) reachedInf,
           str_type = type, str_label = label\<rparr>)))"

section \<open>Printing\<close>

text \<open>\<open>std::setw\<close> without \<open>std::left\<close> pads on the left.\<close>

definition setw :: "nat \<Rightarrow> string \<Rightarrow> string" where
  "setw n s = replicate (n - length s) CHR '' '' @ s"

definition getColumnCount :: nat where
  "getColumnCount = 7"

definition getColumns :: "nat \<Rightarrow> (nat \<times> string) list" where
  "getColumns testCaseNameColumnWidth =
     [(testCaseNameColumnWidth, ''TestCase''), (15, ''Mean''), (15, ''Median''), (15, ''StdDev''),
      (15, ''Min''), (15, ''Max''), (7, ''Type''), (15, ''Label [unit]'')]"

definition printStatisticsHeader :: "nat \<Rightarrow> PrintType \<Rightarrow> string" where
  "printStatisticsHeader w pt =
     (if pt = PT_Csv
      then joinStrings '','' (take getColumnCount (getColumns w)) snd @ [newline]
      else concat (map (\<lambda>(width, label). setw width label) (getColumns w)) @ [newline])"

definition default_row :: "nat \<Rightarrow> string \<Rightarrow> MetricsStrings \<Rightarrow> string" where
  "default_row w name ms =
     (let width = (\<lambda>i. fst (getColumns w ! i))
      in setw (width 0) name @ setw (width 1) (str_mean ms) @ setw (width 2) (str_median ms)
         @ setw (width 3) (str_standardDeviation ms) @ setw (width 4) (str_min ms)
         @ setw (width 5) (str_max ms) @ setw (width 6) (str_type ms)
         @ '' '' @ setw (width 7 - 1) (str_label ms) @ [newline])"

fun printStatisticsDefault_loop :: "nat \<Rightarrow> string \<Rightarrow> bool \<Rightarrow> SamplesMap \<Rightarrow> string result" where
  "printStatisticsDefault_loop w name reachedInf [] = Ok []"
| "printStatisticsDefault_loop w name reachedInf ((samplesName, samples) # m) =
     bindR (make_MetricsStrings samplesName samples reachedInf) (\<lambda>ms.
     bindR (printStatisticsDefault_loop w [] reachedInf m) (\<lambda>rest.
       Ok (default_row w name ms @ rest)))"

definition printStatisticsDefault :: "nat \<Rightarrow> TestCaseStatistics \<Rightarrow> string \<Rightarrow> string result" where
  "printStatisticsDefault w s testCaseName =
     printStatisticsDefault_loop w testCaseName (reachedInfinity s) (samplesMap s)"

definition printStatisticsNoop :: "nat \<Rightarrow> TestCaseStatistics \<Rightarrow> string \<Rightarrow> string result" where
  "printStatisticsNoop w s testCaseName =
     (let columns = getColumns w;
          paddingLeft = sum_list (map fst (take (length columns - 2) (drop 1 columns)))
      in bindR (MeasurementType_to_string (smp_type (noopSample s))) (\<lambda>type.
         bindR (MeasurementUnit_to_string (smp_unit (noopSample s))) (\<lambda>unit.
           Ok (setw (fst (hd columns)) testCaseName @ setw paddingLeft type
               @ setw (fst (last columns)) unit @ [newline]))))"

definition printStatisticsCsv :: "TestCaseStatistics \<Rightarrow> string \<Rightarrow> string result" where
  "printStatisticsCsv s testCaseName =
     (case samplesMap s of
        [] \<Rightarrow> FATAL_ERROR ''Test did not generate any values''
      | (samplesName, samples) # _ \<Rightarrow>
          bindR (make_MetricsStrings samplesName samples (reachedInfinity s)) (\<lambda>ms.
            Ok (testCaseName @ '','' @ str_mean ms @ '','' @ str_median ms @ '',''
                @ str_standardDeviation ms @ '','' @ str_min ms @ '','' @ str_max ms @ '',''
                @ str_type ms @ '','' @ str_label ms @ [newline])))"

definition printStatisticsVerbose :: "(Value \<Rightarrow> string) \<Rightarrow> TestCaseStatistics \<Rightarrow> string" where
  "printStatisticsVerbose show_double s =
     concat (map (\<lambda>(samplesName, samples).
         ''individual '' @ (if samplesName \<noteq> [] then samplesName @ '' '' else []) @ ''results: [ ''
         @ concat (map (\<lambda>v. show_double v @ '' '') (smp_vector samples)) @ '']'' @ [newline])
       (samplesMap s)) @ [newline]"

definition printStatistics :: "(Value \<Rightarrow> string) \<Rightarrow> nat \<Rightarrow> TestCaseStatistics \<Rightarrow> string \<Rightarrow> string result" where
  "printStatistics show_double w s testCaseName =
     (case tcs_printType s of
        PT_Default \<Rightarrow> printStatisticsDefault w s testCaseName
      | PT_DefaultWithVerbose \<Rightarrow>
          bindR (printStatisticsDefault w s testCaseName) (\<lambda>t. Ok (t @ printStatisticsVerbose show_double s))
      | PT_Noop \<Rightarrow> printStatisticsNoop w s testCaseName
      | PT_Csv \<Rightarrow> printStatisticsCsv s testCaseName)"

definition printStatisticsString :: "nat \<Rightarrow> PrintType \<Rightarrow> string \<Rightarrow> string \<Rightarrow> char \<Rightarrow> string" where
  "printStatisticsString w pt testCaseName message lineEnding =
     (let columns = getColumns w
      in if pt = PT_Csv
         then testCaseName @ '','' @ joinStrings '','' [1..<getColumnCount] (\<lambda>_. message) @ [lineEnding]
         else setw (fst (columns ! 0)) testCaseName
              @ setw (fst (columns ! 1) + fst (columns ! 2) + fst (columns ! 3)) message @ [lineEnding])"

definition printStatisticsBeforeTest :: "nat \<Rightarrow> PrintType \<Rightarrow> string \<Rightarrow> string" where
  "printStatisticsBeforeTest w pt testCaseName =
     printStatisticsString w pt testCaseName [] (CHR 0x0D)"

definition printClearLineAfterTest :: "nat \<Rightarrow> string" where
  "printClearLineAfterTest w = replicate (fst (getColumns w ! 0)) CHR '' '' @ [CHR 0x0D]"

section \<open>Finite samples\<close>

lemma calculateMin_Fin: "xs \<noteq> [] \<Longrightarrow> calculateMin (map Fin xs) = Ok (Fin (Min (set xs)))"
proof -
  have step: "foldl (\<lambda>smallest y. if V_less y smallest then y else smallest) (Fin a) (map Fin ys) = Fin (fold min ys a)"
    for a ys by (induction ys arbitrary: a) (auto simp: min_def not_less)
  assume "xs \<noteq> []"
  then show ?thesis by (cases xs) (simp_all add: calculateMin_def step Min.set_eq_fold del: list.set)
qed

lemma calculateMax_Fin: "xs \<noteq> [] \<Longrightarrow> calculateMax (map Fin xs) = Ok (Fin (Max (set xs)))"
proof -
  have step: "foldl (\<lambda>largest y. if V_less largest y then y else largest) (Fin a) (map Fin ys) = Fin (fold max ys a)"
    for a ys by (induction ys arbitrary: a) (auto simp: max_def not_less)
  assume "xs \<noteq> []"
  then show ?thesis by (cases xs) (simp_all add: calculateMax_def step Max.set_eq_fold del: list.set)
qed

lemma V_sort_Fin: "V_sort (map Fin xs) = Ok (map Fin (sort xs))"
proof -
  have ins: "V_insort (Fin x) (map Fin ys) = map Fin (insort x ys)" for x ys
    by (induction ys) (auto simp: not_le)
  have "foldr V_insort (map Fin xs) [] = map Fin (sort xs)"
    by (induction xs) (simp_all add: ins)
  then show ?thesis by (auto simp: V_sort_def list_ex_iff)
qed

text \<open>A number in the middle of the samples: the middle one of an odd count, between both middle ones of an even count.\<close>

definition is_middle :: "real list \<Rightarrow> real \<Rightarrow> bool" where
  "is_middle xs md \<longleftrightarrow>
     (let ys = sort xs; n = length xs
      in if even n then ys ! (n div 2 - 1) \<le> md \<and> md \<le> ys ! (n div 2) else md = ys ! (n div 2))"

definition median :: "real list \<Rightarrow> real" where
  "median xs =
     (let ys = sort xs; n = length xs
      in if even n then (ys ! (n div 2 - 1) + ys ! (n div 2)) / 2 else ys ! (n div 2))"

lemma filter_sorted_below:
  assumes "sorted ys" "k < length ys" "ys ! k \<le> m"
  shows "Suc k \<le> length (filter (\<lambda>x. x \<le> (m :: real)) ys)"
proof -
  have "x \<le> m" if "x \<in> set (take (Suc k) ys)" for x
    using that assms sorted_nth_mono [OF assms(1)]
    by (auto simp: in_set_conv_nth) (metis assms(2,3) dual_order.trans less_Suc_eq_le)
  then have "filter (\<lambda>x. x \<le> m) (take (Suc k) ys) = take (Suc k) ys" by (simp add: filter_id_conv)
  moreover have "length (filter (\<lambda>x. x \<le> m) (take (Suc k) ys)) \<le> length (filter (\<lambda>x. x \<le> m) ys)"
    by (subst (2) append_take_drop_id [of "Suc k" ys, symmetric]) (simp only: filter_append length_append le_add1)
  ultimately show ?thesis using assms(2) by simp
qed

lemma filter_sorted_above:
  assumes "sorted ys" "k < length ys" "m \<le> ys ! k"
  shows "length ys - k \<le> length (filter (\<lambda>x. (m :: real) \<le> x) ys)"
proof -
  have "m \<le> x" if "x \<in> set (drop k ys)" for x
    using that assms(2,3) sorted_nth_mono [OF assms(1), of k]
    by (auto simp: in_set_conv_nth) (metis add.commute le_add2 less_diff_conv order_trans)
  then have "filter (\<lambda>x. m \<le> x) (drop k ys) = drop k ys" by (simp add: filter_id_conv)
  moreover have "length (filter (\<lambda>x. m \<le> x) (drop k ys)) \<le> length (filter (\<lambda>x. m \<le> x) ys)"
    by (subst (2) append_take_drop_id [of k ys, symmetric]) (simp only: filter_append length_append le_add2)
  ultimately show ?thesis by (metis length_drop)
qed

lemma length_filter_sort: "length (filter P (sort xs)) = length (filter P (xs :: real list))"
  by (metis mset_filter mset_sort size_mset)

lemma middle_halves:
  assumes "xs \<noteq> []" "is_middle xs md"
  shows "length xs \<le> 2 * length (filter (\<lambda>x. x \<le> md) xs)
    \<and> length xs \<le> 2 * length (filter (\<lambda>x. md \<le> x) xs)"
proof (cases "even (length xs)")
  case True
  let ?n = "length xs div 2"
  obtain b where b: "length xs = 2 * b" using True by (rule evenE)
  moreover have "0 < length xs" using assms by simp
  ultimately have n: "0 < ?n" "?n < length (sort xs)" by simp_all
  from True assms(2) have "sort xs ! (?n - 1) \<le> md" "md \<le> sort xs ! ?n"
    by (simp_all add: is_middle_def Let_def)
  with n filter_sorted_below [of "sort xs" "?n - 1" md] filter_sorted_above [of "sort xs" ?n md] True
  show ?thesis by (auto simp: length_filter_sort elim!: evenE)
next
  case False
  let ?n = "length xs div 2"
  have "?n < length (sort xs)" "length xs = Suc (2 * ?n)" using False by (auto elim!: oddE)
  moreover have "md = sort xs ! ?n" using False assms(2) by (simp add: is_middle_def Let_def)
  ultimately show ?thesis
    using filter_sorted_below [of "sort xs" ?n md] filter_sorted_above [of "sort xs" ?n md]
    by (simp add: length_filter_sort)
qed

lemma middle_bounds:
  assumes "xs \<noteq> []" "is_middle xs md"
  shows "Min (set xs) \<le> md \<and> md \<le> Max (set xs)"
proof -
  have "filter (\<lambda>x. x \<le> md) xs \<noteq> []" "filter (\<lambda>x. md \<le> x) xs \<noteq> []"
    using middle_halves [OF assms] assms by auto
  then obtain x y where "x \<in> set xs" "x \<le> md" "y \<in> set xs" "md \<le> y"
    by (auto simp: filter_empty_conv)
  then show ?thesis by (meson List.finite_set Max_ge Min_le order_trans)
qed

section \<open>Roundings\<close>

text \<open>
  Samples as they are measured: fewer than \<open>2 ^ 50\<close> doubles, each zero or between \<open>2 ^ -300\<close> and \<open>2 ^ 300\<close>, so that nothing
  computed from them overflows or is tiny.
\<close>

definition measured :: "real list \<Rightarrow> bool" where
  "measured xs \<longleftrightarrow> xs \<noteq> [] \<and> length xs < 2 ^ 50 \<and> (\<forall>x \<in> set xs. nearest x = x \<and> between (- 300) 300 x)"

lemma real_length:
  assumes "length xs < 2 ^ 50" "xs \<noteq> []"
  shows "V_of_int (int (length xs)) = Fin (real (length xs))" "2 powi 0 \<le> real (length xs)" "real (length xs) \<le> 2 powi 50"
proof -
  have "real (length xs) < real (2 ^ 50)" using assms(1) by (simp only: of_nat_less_iff)
  then show b: "real (length xs) \<le> 2 powi 50" by (simp add: power_int_def)
  have "V_round (real (length xs)) = Fin (nearest (real (length xs)))" by (rule V_round_bound(1) [of _ 50]) (use b in simp_all)
  moreover have "nearest (of_int (int (length xs))) = of_int (int (length xs))" by (rule nearest_of_int) (use assms(1) in simp)
  ultimately show "V_of_int (int (length xs)) = Fin (real (length xs))" by (simp add: V_of_int_def)
  show "2 powi 0 \<le> real (length xs)" using assms(2) by (cases xs) simp_all
qed

lemma calculateMedian_rounded:
  assumes "measured xs"
  shows "\<exists>md. calculateMedian (map Fin xs) = Ok (Fin md) \<and> is_middle xs md \<and> rounded 2 md (median xs)"
proof -
  let ?n = "length xs div 2" and ?ys = "sort xs"
  have xs: "xs \<noteq> []" "\<And>x. x \<in> set xs \<Longrightarrow> nearest x = x \<and> between (- 300) 300 x" using assms by (simp_all add: measured_def)
  then have n: "?n < length ?ys" "?n - 1 < length ?ys" "?ys \<noteq> []" by (cases xs; simp)+
  let ?a = "?ys ! (?n - 1)" and ?b = "?ys ! ?n"
  have m: "nearest ?a = ?a" "between (- 300) 300 ?a" "nearest ?b = ?b" "between (- 300) 300 ?b"
    using n xs(2) [of ?a] xs(2) [of ?b] nth_mem [OF n(1)] nth_mem [OF n(2)] by (simp_all del: nth_mem)
  show ?thesis
  proof (cases "even (length xs)")
    case False
    then have "calculateMedian (map Fin xs) = Ok (Fin ?b)"
      using n xs(1) by (simp add: calculateMedian_def V_sort_Fin Let_def odd_iff_mod_2_eq_one)
    moreover have "median xs = ?b" using False by (simp add: median_def Let_def)
    moreover have "rounded 2 ?b ?b" by (rule rounded_mono [of 0]) (use between_nonneg [OF m(4)] in simp_all)
    ultimately show ?thesis using False by (simp add: is_middle_def Let_def)
  next
    case True
    have c: "calculateMedian (map Fin xs) = Ok (V_div (V_add (Fin ?a) (Fin ?b)) (Fin 2))" "median xs = (?a + ?b) / 2"
      using True n xs(1) by (simp_all add: calculateMedian_def V_sort_Fin median_def Let_def even_iff_mod_2_eq_zero)
    have ab: "?a \<le> ?b" using n by (intro sorted_nth_mono) auto
    have s: "between (- 300) (300 + 1) (sum_list [?a, ?b])" by (rule between_sum) (use m in simp_all)
    then have s: "between (- 300) 301 \<bar>?a + ?b\<bar>" using between_nonneg [OF s] by simp
    from V_round_between [OF s] have one: "V_round (?a + ?b) = Fin (nearest (?a + ?b))" "rounded 1 (nearest (?a + ?b)) (?a + ?b)"
      using between_nonneg [OF m(2)] between_nonneg [OF m(4)] by simp_all
    have "between (- 300 - 1) (301 - 1) ((?a + ?b) / 2)"
      by (rule between_divide) (use s between_nonneg [OF m(2)] between_nonneg [OF m(4)] in simp_all)
    from V_round_rounded [OF rounded_divide [OF one(2), of 2] this] obtain md where
      md: "V_round (nearest (?a + ?b) / 2) = Fin md" "rounded 2 md ((?a + ?b) / 2)" by (auto simp: numeral_2_eq_2)
    then have "md = nearest (nearest (?a + ?b) / 2)" by (auto simp: V_round_def Let_def split: if_splits)
    then have "is_middle xs md" using nearest_middle [OF m(1,3) ab] True by (simp add: is_middle_def Let_def)
    moreover have "calculateMedian (map Fin xs) = Ok (Fin md)" using one(1) md(1) by (simp add: c(1))
    ultimately show ?thesis using md(2) unfolding c(2) by blast
  qed
qed

lemma measured_sum:
  assumes "\<forall>y \<in> set ys. between i j y" "length ys < 2 ^ 50" "ys \<noteq> []" "- 999 \<le> i" "j + 50 \<le> 999"
  shows "\<exists>t. foldl V_add (Fin 0) (map Fin ys) = Fin t \<and> rounded (length ys) t (sum_list ys) \<and> between i (j + 50) (sum_list ys)"
proof -
  have b: "between i (j + 50) (sum_list ys)" using assms(1) real_length(3) [OF assms(2,3)] assms(3) by (rule between_sum)
  have "0 + length ys \<le> 2 ^ 52" using assms(2) by simp
  then have "\<exists>t. foldl V_add (Fin 0) (map Fin ys) = Fin t \<and> rounded (0 + length ys) t (0 + sum_list ys)"
    using assms(1,4,5) b by (intro foldl_V_add_rounded [where i = i and j = "j + 50"]) (auto simp: between_def)
  with b show ?thesis by simp
qed

lemma calculateMean_rounded:
  assumes "measured xs"
  shows "\<exists>m. calculateMean (map Fin xs) = Fin m \<and> nearest m = m \<and> rounded (length xs + 1) m (sum_list xs / real (length xs)) \<and>
    between (- 350) 350 (sum_list xs / real (length xs))"
proof -
  have xs: "xs \<noteq> []" "length xs < 2 ^ 50" "\<forall>x \<in> set xs. between (- 300) 300 x" using assms by (simp_all add: measured_def)
  note n = real_length [OF xs(2,1)]
  obtain t where t: "foldl V_add (Fin 0) (map Fin xs) = Fin t" "rounded (length xs) t (sum_list xs)" "between (- 300) (300 + 50) (sum_list xs)"
    using measured_sum [OF xs(3,2,1)] by auto
  have b: "between (- 300 - 50) (300 + 50 - 0) (sum_list xs / real (length xs))" by (rule between_divide [OF t(3) n(2,3)])
  have l: "length xs \<le> 2 ^ 52" using xs(2) by simp
  have "rounded (length xs) (t / real (length xs)) (sum_list xs / real (length xs))"
    by (rule rounded_divide [OF t(2)]) (use xs(1) in simp)
  from V_round_rounded [OF this b l] obtain m where
    "V_round (t / real (length xs)) = Fin m" "rounded (Suc (length xs)) m (sum_list xs / real (length xs))" "nearest m = m"
    by auto
  with b xs(1) show ?thesis by (simp add: calculateMean_def t(1) n(1))
qed

text \<open>The difference of two doubles is zero or as large as the last digit of the smaller one.\<close>

lemma between_difference:
  assumes "nearest x = x" "nearest m = m" "between i j x" "between i j m"
  shows "between (i - 52) j \<bar>x - m\<bar>"
proof (cases "x = m")
  case False
  have g: "r = 0 \<or> 2 powi i \<le> \<bar>r\<bar>" "0 \<le> r" "r \<le> 2 powi j" if "between i j r" for r
    using that between_nonneg [OF that] zero_le_power_int [of "2 :: real" j] by (auto simp: between_def)
  obtain k l where kl: "x = of_int k * 2 powi (i - 52)" "m = of_int l * 2 powi (i - 52)"
    using double_grid [OF assms(1) g(1) [OF assms(3)]] double_grid [OF assms(2) g(1) [OF assms(4)]] by blast
  with False have "1 \<le> \<bar>k - l\<bar>" by auto
  then have "1 \<le> \<bar>real_of_int (k - l)\<bar>" by linarith
  then have "1 * 2 powi (i - 52) \<le> \<bar>real_of_int (k - l)\<bar> * 2 powi (i - 52)" by (intro mult_right_mono) simp_all
  also have "\<dots> = \<bar>x - m\<bar>" by (simp add: kl abs_mult flip: left_diff_distrib)
  finally show ?thesis using g [OF assms(3)] g [OF assms(4)] by (auto simp: between_def abs_le_iff)
qed simp

lemma square_rounded:
  assumes "nearest x = x" "nearest m = m" "between (- 351) 351 x" "between (- 351) 351 m"
  shows "\<exists>q. V_mult (V_sub (Fin x) (Fin m)) (V_sub (Fin x) (Fin m)) = Fin q \<and> rounded 3 q ((x - m)\<^sup>2) \<and>
    between (- 806) 702 ((x - m)\<^sup>2)"
proof -
  let ?d = "x - m"
  have d: "between (- 351 - 52) 351 \<bar>?d\<bar>" using assms by (rule between_difference)
  from V_round_between [OF d] have one: "V_round ?d = Fin (nearest ?d)" "rounded 1 (nearest \<bar>?d\<bar>) \<bar>?d\<bar>" by simp_all
  have b: "between (2 * (- 351 - 52)) (2 * 351) (?d\<^sup>2)" using d by (rule between_square)
  have "rounded (1 + 1) (nearest \<bar>?d\<bar> * nearest \<bar>?d\<bar>) (\<bar>?d\<bar> * \<bar>?d\<bar>)" by (rule rounded_mult [OF one(2,2)]) simp_all
  then have "rounded 2 (nearest ?d * nearest ?d) (?d\<^sup>2)" by (simp add: power2_eq_square numeral_2_eq_2 flip: nearest_abs)
  from V_round_rounded [OF this b] obtain q where "V_round (nearest ?d * nearest ?d) = Fin q" "rounded (Suc 2) q (?d\<^sup>2)" by auto
  then show ?thesis using b by (simp add: V_sub_def one(1))
qed

lemma rounded_sum_list: "\<forall>x \<in> set xs. rounded k (f x) (g x) \<Longrightarrow> rounded k (sum_list (map f xs)) (sum_list (map g xs))"
  by (induction xs) (auto simp: rounded_add, simp add: rounded_def)

lemma calculateStandardDeviation_rounded:
  assumes "measured xs" "nearest m = m" "between (- 351) 351 m"
  shows "\<exists>s. calculateStandardDeviation (map Fin xs) (Fin m) = V_div (Fin s) (Fin m) \<and> 
    rounded (length xs + 5) s (sqrt (sum_list (map (\<lambda>x. (x - m)\<^sup>2) xs) / real (length xs))) \<and>
    between (- 428) 376 (sqrt (sum_list (map (\<lambda>x. (x - m)\<^sup>2) xs) / real (length xs)))"
proof -
  let ?sq = "\<lambda>x. (x - m)\<^sup>2" and ?n = "length xs" and ?D = "sum_list (map (\<lambda>x. (x - m)\<^sup>2) xs)"
  have xs: "xs \<noteq> []" "?n < 2 ^ 50" "\<forall>x \<in> set xs. nearest x = x \<and> between (- 351) 351 x"
    using assms(1) between_mono [of "- 300" 300 _ "- 351" 351] by (auto simp: measured_def)
  note n = real_length [OF xs(2,1)]
  obtain q where q: "\<forall>x \<in> set xs. V_mult (V_sub (Fin x) (Fin m)) (V_sub (Fin x) (Fin m)) = Fin (q x) \<and> rounded 3 (q x) (?sq x) \<and> between (- 806) 702 (?sq x)"
    using square_rounded [OF _ assms(2) _ assms(3)] xs(3) bchoice [of "set xs"] by metis
  have loop: "foldl (\<lambda>sum x. let difference = V_sub x (Fin m) in V_add sum (V_mult difference difference)) a (map Fin ys) =
      foldl V_add a (map Fin (map q ys))" if "set ys \<subseteq> set xs" for a ys
    using that q by (induction ys arbitrary: a) (simp_all add: Let_def)
  have "between (- 806 - 1) (702 + 1) y" if "y \<in> set (map q xs)" for y
    using that q between_rounded [of "- 806" 702 _ 3] by auto
  then obtain t where t: "foldl V_add (Fin 0) (map Fin (map q xs)) = Fin t" "rounded ?n t (sum_list (map q xs))"
    using measured_sum [of "map q xs" "- 807" 703] xs(1,2) by auto
  have "rounded 3 (sum_list (map q xs)) ?D" by (rule rounded_sum_list) (use q in blast)
  from rounded_trans [OF this t(2)] have t2: "rounded (3 + ?n) (t / real ?n) (?D / real ?n)"
    by (rule rounded_divide) (use xs(1) in simp)
  have "between (- 806) (702 + 50) ?D" by (rule between_sum) (use q n(3) xs(1) in auto)
  from between_divide [OF this n(2,3)] have b: "between (2 * - 428) (2 * 376) (?D / real ?n)" by simp
  have l: "3 + ?n \<le> 2 ^ 52" "3 + ?n + 1 \<le> 2 ^ 52" using xs(2) by simp_all
  obtain c where c: "V_round (t / real ?n) = Fin c" "rounded (Suc (3 + ?n)) c (?D / real ?n)"
    using V_round_rounded [OF t2 b l(1)] by auto
  have "0 \<le> c" by (rule rounded_nonneg [OF c(2) between_nonneg [OF b]])
  have b2: "between (- 428) 376 (sqrt (?D / real ?n))" using b by (rule between_sqrt)
  obtain s where s: "V_round (sqrt c) = Fin s" "rounded (Suc (Suc (3 + ?n))) s (sqrt (?D / real ?n))"
    using V_round_rounded [OF rounded_sqrt [OF c(2) between_nonneg [OF b]] b2] l(2) by auto
  have "calculateStandardDeviation (map Fin xs) (Fin m) = V_div (Fin s) (Fin m)"
    using \<open>0 \<le> c\<close> xs(1) by (simp add: calculateStandardDeviation_def Let_def loop [unfolded Let_def] t(1) [simplified] n(1) c(1) s(1))
  moreover have "Suc (Suc (3 + ?n)) = ?n + 5" by simp
  ultimately show ?thesis using s(2) b2 by metis
qed

section \<open>Properties\<close>


text \<open>
  C6: In double precision, with every operation rounded: for measured samples (fewer than \<open>2 ^ 50\<close>, each zero or between
  \<open>2 ^ -300\<close> and \<open>2 ^ 300\<close>) the minimum and the maximum are exact, at least half of the samples are at most the median and at least
  half of them are at least the median, which lies between minimum and maximum and is the exact median but for two roundings; the
  mean is the arithmetic mean but for one rounding more than there are samples; and the standard deviation is the one about that mean,
  as a fraction of it, but for six roundings more than there are samples. It is not a number exactly when all samples are zero.
  Each rounding is of at most one part in \<open>2 ^ 53\<close>.
\<close>

theorem Metrics_correct:
  assumes "measured xs"
  shows "\<exists>metrics mean md. make_Metrics (map Fin xs) = Ok metrics
     \<and> mtr_min metrics = Fin (Min (set xs)) \<and> mtr_max metrics = Fin (Max (set xs))
     \<and> mtr_median metrics = Fin md \<and> rounded 2 md (median xs)
     \<and> length xs \<le> 2 * length (filter (\<lambda>x. x \<le> md) xs)
     \<and> length xs \<le> 2 * length (filter (\<lambda>x. md \<le> x) xs)
     \<and> Min (set xs) \<le> md \<and> md \<le> Max (set xs)
     \<and> mtr_mean metrics = Fin mean \<and> rounded (length xs + 1) mean (sum_list xs / real (length xs))
     \<and> (if \<forall>x \<in> set xs. x = 0 then mtr_standardDeviation metrics = NaN
        else \<exists>sd. mtr_standardDeviation metrics = Fin sd \<and>
          rounded (length xs + 6) sd (sqrt (sum_list (map (\<lambda>x. (x - mean)\<^sup>2) xs) / real (length xs)) / mean))"
proof -
  have xs: "xs \<noteq> []" "length xs < 2 ^ 50" "\<forall>x \<in> set xs. 0 \<le> x"
    using assms between_nonneg by (auto simp: measured_def)
  then have l: "length xs + 1 \<le> 2 ^ 52" "length xs + 5 \<le> 2 ^ 52" by simp_all
  obtain md where md: "calculateMedian (map Fin xs) = Ok (Fin md)" "is_middle xs md" "rounded 2 md (median xs)"
    using calculateMedian_rounded [OF assms] by blast
  obtain m where m: "calculateMean (map Fin xs) = Fin m" "nearest m = m" "rounded (length xs + 1) m (sum_list xs / real (length xs))"
    "between (- 350) 350 (sum_list xs / real (length xs))"
    using calculateMean_rounded [OF assms] by blast
  have bm: "between (- 351) 351 m" using between_rounded [OF m(4,3) l(1)] by simp
  obtain s where s: "calculateStandardDeviation (map Fin xs) (Fin m) = V_div (Fin s) (Fin m)"
    "rounded (length xs + 5) s (sqrt (sum_list (map (\<lambda>x. (x - m)\<^sup>2) xs) / real (length xs)))"
    "between (- 428) 376 (sqrt (sum_list (map (\<lambda>x. (x - m)\<^sup>2) xs) / real (length xs)))"
    using calculateStandardDeviation_rounded [OF assms m(2) bm] by blast
  have "m = 0 \<longleftrightarrow> sum_list xs = 0"
    using rounded_bounds [OF m(3) l(1) between_nonneg [OF m(4)]] xs(1) between_nonneg [OF m(4)] by (auto simp: divide_le_0_iff zero_le_divide_iff)
  then have z: "m = 0 \<longleftrightarrow> (\<forall>x \<in> set xs. x = 0)" using xs(3) by (simp add: sum_list_nonneg_eq_0_iff)
  have "if \<forall>x \<in> set xs. x = 0 then V_div (Fin s) (Fin m) = NaN else \<exists>sd. V_div (Fin s) (Fin m) = Fin sd \<and>
      rounded (length xs + 6) sd (sqrt (sum_list (map (\<lambda>x. (x - m)\<^sup>2) xs) / real (length xs)) / m)"
  proof (cases "m = 0")
    case True
    then have "map (\<lambda>x. (x - m)\<^sup>2) xs = map (\<lambda>_. 0) xs" using z by simp
    then have "sum_list (map (\<lambda>x. (x - m)\<^sup>2) xs) = 0" by (simp only: sum_list_0)
    with s(2) have "s = 0" by (simp add: rounded_def)
    with True z show ?thesis by (simp add: V_signed_inf_def)
  next
    case False
    then have p: "2 powi (- 351) \<le> m" "m \<le> 2 powi 351" "0 < m" using bm between_nonneg [OF bm] by (auto simp: between_def)
    from V_round_rounded [OF rounded_divide [OF s(2) p(3)] between_divide [OF s(3) p(1,2)] l(2)] False z
    show ?thesis by (auto simp: eval_nat_numeral)
  qed
  moreover have "make_Metrics (map Fin xs) = Ok \<lparr>mtr_min = Fin (Min (set xs)), mtr_max = Fin (Max (set xs)), mtr_mean = Fin m,
      mtr_median = Fin md, mtr_standardDeviation = V_div (Fin s) (Fin m)\<rparr>"
    using xs(1) by (simp add: make_Metrics_def calculateMin_Fin calculateMax_Fin m(1) md(1) s(1) Let_def del: V_div.simps)
  ultimately show ?thesis
    using middle_halves [OF xs(1) md(2)] middle_bounds [OF xs(1) md(2)] md(3) m(3)
    by (auto simp del: V_div.simps)
qed

text \<open>Three samples, one of them zero, and samples that are all zero.\<close>

lemma example_measured: "measured [3, 0, 2]" "measured [0, 0]"
proof -
  have "(2 :: real) powi (- 300) \<le> 2 powi 0" "(2 :: real) powi 2 \<le> 2 powi 300" by (rule powi_le [THEN iffD2], simp)+
  then have "between (- 300) 300 3" "between (- 300) 300 2" by (simp_all only: between_def) simp_all
  moreover have "nearest 3 = 3" "nearest 2 = 2" using nearest_of_int [of 3] nearest_of_int [of 2] by simp_all
  ultimately show "measured [3, 0, 2]" "measured [0, 0]" by (simp_all add: measured_def)
qed

theorem Metrics_correct_witness:
  "(\<exists>metrics. make_Metrics (map Fin [3, 0, 2]) = Ok metrics \<and> mtr_min metrics = Fin 0 \<and> mtr_max metrics = Fin 3)
    \<and> (\<exists>metrics. make_Metrics (map Fin [0, 0]) = Ok metrics \<and> mtr_standardDeviation metrics = NaN)"
  using Metrics_correct [OF example_measured(1)] Metrics_correct [OF example_measured(2)] by auto

text \<open>
  In CSV mode the header has seven columns and so has the row of a test that produced a message
  instead of values, but every row of results has (at least) eight: its separators outnumber those
  of the header, so results and header do not line up.
\<close>

lemma csv_columns_misaligned:
  assumes "printStatisticsCsv s name = Ok row"
  shows "count_list (printStatisticsHeader w PT_Csv) CHR '','' = 6
    \<and> count_list (printStatisticsString w PT_Csv n msg newline) CHR '',''
        = 6 + count_list n CHR '','' + 6 * count_list msg CHR '',''
    \<and> 7 \<le> count_list row CHR '',''"
proof -
  have "count_list (printStatisticsHeader w PT_Csv) CHR '','' = 6"
    by (simp add: printStatisticsHeader_def getColumns_def getColumnCount_def)
  moreover have "count_list (printStatisticsString w PT_Csv n msg newline) CHR '',''
      = 6 + count_list n CHR '','' + 6 * count_list msg CHR '',''"
    by (simp add: printStatisticsString_def getColumnCount_def upt_conv_Cons count_list_append)
  moreover have "7 \<le> count_list row CHR '',''"
    using assms by (auto simp: printStatisticsCsv_def bindR_eq_Inr count_list_append split: list.splits)
  ultimately show ?thesis by blast
qed

end
