(* ===== verification/Registries.thy ===== *)
theory Registries
  imports Configuration
begin

text \<open>
  The registries that object constructors fill before \<open>main\<close>: \<open>framework/supported_apis.cpp\<close>,
  \<open>framework/print_device_info.cpp\<close> and the array \<open>TestCase::implementations\<close> filled by
  \<open>framework/test_case/register_test_case.h\<close>, each an array with one slot per compute API; and the
  singleton \<open>framework/benchmark_info.cpp\<close>. The locale \<open>api_slots\<close> is what the three arrays share:
  an API that is registered is found with what it was registered with, the others are untouched.
\<close>

section \<open>Arrays of Api::COUNT slots\<close>

definition slot_get :: "'v list \<Rightarrow> Api \<Rightarrow> 'v result" where
  "slot_get arr api = (if Api_code api < length arr then Ok (arr ! Api_code api)
                       else Inl (Undefined_behaviour ''array index out of bounds''))"

definition slot_set :: "'v list \<Rightarrow> Api \<Rightarrow> 'v \<Rightarrow> 'v list result" where
  "slot_set arr api v = (if Api_code api < length arr then Ok (arr[Api_code api := v])
                         else Inl (Undefined_behaviour ''array index out of bounds''))"

section \<open>SupportedApis\<close>

definition no_supportedApis :: "bool list" where
  "no_supportedApis = replicate (Api_code Api_COUNT) False"

definition registerSupportedApi :: "bool list \<Rightarrow> Api \<Rightarrow> bool list result" where
  "registerSupportedApi supportedApis api = slot_set supportedApis api True"

definition isApiSupported :: "bool list \<Rightarrow> Api \<Rightarrow> bool result" where
  "isApiSupported supportedApis api = slot_get supportedApis api"

section \<open>DeviceInfo\<close>

text \<open>A function pointer is \<open>None\<close> when null; a function is the text it prints.\<close>

record Functions =
  fn_printDeviceInfo :: "string option"
  fn_printAvailableDevices :: "string option"

definition no_functions :: "Functions list" where
  "no_functions = replicate (Api_code Api_COUNT) \<lparr>fn_printDeviceInfo = None, fn_printAvailableDevices = None\<rparr>"

definition registerFunctions ::
  "Functions list \<Rightarrow> Api \<Rightarrow> string option \<Rightarrow> string option \<Rightarrow> Functions list result" where
  "registerFunctions functions api printDeviceInfo printAvailableDevices =
     FATAL_ERROR_IF (printDeviceInfo = None) ''Cannot register null function''
    (FATAL_ERROR_IF (printAvailableDevices = None) ''Cannot register null function''
    (bindR (slot_get functions api) (\<lambda>slot.
       FATAL_ERROR_IF (fn_printDeviceInfo slot \<noteq> None) ''printDeviceInfo function registered multiple times''
      (FATAL_ERROR_IF (fn_printAvailableDevices slot \<noteq> None)
         ''printAvailableDevices function registered multiple times''
      (slot_set functions api
         \<lparr>fn_printDeviceInfo = printDeviceInfo, fn_printAvailableDevices = printAvailableDevices\<rparr>)))))"

fun print_selected :: "(Functions \<Rightarrow> string option) \<Rightarrow> Functions list \<Rightarrow> Api \<Rightarrow> Api list \<Rightarrow> string result" where
  "print_selected field functions selectedApi [] = Ok []"
| "print_selected field functions selectedApi (api # apis) =
     (if api \<noteq> selectedApi \<and> selectedApi \<noteq> Api_All then print_selected field functions selectedApi apis
      else bindR (slot_get functions api) (\<lambda>slot.
           case field slot of
             None \<Rightarrow> print_selected field functions selectedApi apis
           | Some t \<Rightarrow> bindR (print_selected field functions selectedApi apis) (\<lambda>rest. Ok (t @ rest))))"

definition printDeviceInfo :: "Functions list \<Rightarrow> Configuration \<Rightarrow> string result" where
  "printDeviceInfo functions cfg =
     print_selected fn_printDeviceInfo functions (cfg_selectedApi cfg) apis_first_to_last"

definition printAvailableDevices :: "Functions list \<Rightarrow> Configuration \<Rightarrow> string result" where
  "printAvailableDevices functions cfg =
     print_selected fn_printAvailableDevices functions (cfg_selectedApi cfg) apis_first_to_last"

section \<open>Implementations of a test case\<close>

record 'f BenchmarkImplementation =
  impl_function :: "'f option"
  requiresIntelExtensions :: bool

definition no_implementations :: "'f BenchmarkImplementation list" where
  "no_implementations = replicate (Api_code Api_COUNT) \<lparr>impl_function = None, requiresIntelExtensions = False\<rparr>"

definition RegisterTestCaseImplementation ::
  "'f BenchmarkImplementation list \<Rightarrow> 'f \<Rightarrow> Api \<Rightarrow> bool \<Rightarrow> 'f BenchmarkImplementation list result" where
  "RegisterTestCaseImplementation implementations f api intel =
     slot_set implementations api \<lparr>impl_function = Some f, requiresIntelExtensions = intel\<rparr>"

definition isApiImplemented :: "'f BenchmarkImplementation list \<Rightarrow> Api \<Rightarrow> bool result" where
  "isApiImplemented implementations api =
     bindR (slot_get implementations api) (\<lambda>impl. Ok (impl_function impl \<noteq> None))"

fun filterM :: "('a \<Rightarrow> bool result) \<Rightarrow> 'a list \<Rightarrow> 'a list result" where
  "filterM p [] = Ok []"
| "filterM p (x # xs) = bindR (p x) (\<lambda>b. bindR (filterM p xs) (\<lambda>ys. Ok (if b then x # ys else ys)))"

definition getApisWithImplementation :: "'f BenchmarkImplementation list \<Rightarrow> Api list result" where
  "getApisWithImplementation implementations = filterM (isApiImplemented implementations) apis_first_to_last"

section \<open>BenchmarkInfo\<close>

record BenchmarkInfo =
  bi_name :: string
  bi_description :: string
  testCaseColumnWidth :: nat

definition BenchmarkInfo_get :: "BenchmarkInfo option \<Rightarrow> BenchmarkInfo result" where
  "BenchmarkInfo_get instance =
     (case instance of
        None \<Rightarrow> FATAL_ERROR ''BenchmarkInfo::get() called before BenchmarkInfo::initialize()''
      | Some i \<Rightarrow> Ok i)"

definition BenchmarkInfo_initialize ::
  "BenchmarkInfo option \<Rightarrow> string \<Rightarrow> string \<Rightarrow> nat \<Rightarrow> BenchmarkInfo option result" where
  "BenchmarkInfo_initialize instance name desc width =
     FATAL_ERROR_IF (instance \<noteq> None) ''BenchmarkInfo::initialize() called multiple times''
       (Ok (Some \<lparr>bi_name = name, bi_description = desc, testCaseColumnWidth = width\<rparr>))"

section \<open>The contract of the arrays\<close>

locale api_slots =
  fixes get :: "'s \<Rightarrow> Api \<Rightarrow> 'v result"
    and reg :: "'s \<Rightarrow> Api \<Rightarrow> 'v \<Rightarrow> 's result"
    and empty :: "'v"
    and registrable :: "'v \<Rightarrow> bool"
    and init :: 's
    and inv :: "'s \<Rightarrow> bool"
  assumes init_inv: "inv init"
    and init_empty: "Api_code a < Api_code Api_COUNT \<Longrightarrow> get init a = Ok empty"
    and reg_inv: "inv s \<Longrightarrow> reg s a v = Ok s' \<Longrightarrow> inv s'"
    and reg_same: "inv s \<Longrightarrow> registrable v \<Longrightarrow> reg s a v = Ok s' \<Longrightarrow> get s' a = Ok v"
    and reg_other: "inv s \<Longrightarrow> reg s a v = Ok s' \<Longrightarrow> b \<noteq> a \<Longrightarrow> get s' b = get s b"
    and reg_ok: "inv s \<Longrightarrow> Api_code a < Api_code Api_COUNT \<Longrightarrow> registrable v \<Longrightarrow> get s a = Ok empty \<Longrightarrow> is_ok (reg s a v)"
begin

text \<open>Registering distinct APIs succeeds; each is found afterwards and no other slot changes.\<close>

lemma register_all:
  assumes "distinct (map fst rs)"
    and "\<And>a v. (a, v) \<in> set rs \<Longrightarrow> Api_code a < Api_code Api_COUNT \<and> registrable v"
    and "inv s" and "\<And>a v. (a, v) \<in> set rs \<Longrightarrow> get s a = Ok empty"
  shows "\<exists>s'. foldM (\<lambda>s (a, v). reg s a v) s rs = Ok s' \<and> inv s'
     \<and> (\<forall>b. get s' b = (case map_of rs b of Some v \<Rightarrow> Ok v | None \<Rightarrow> get s b))"
  using assms
proof (induction rs arbitrary: s)
  case (Cons r rs)
  obtain a v where r: "r = (a, v)" by fastforce
  have reg: "registrable v" "Api_code a < Api_code Api_COUNT" using Cons.prems(2) r by auto
  then have "is_ok (reg s a v)" using Cons.prems(3,4) r by (intro reg_ok) auto
  then obtain t where t: "reg s a v = Ok t" by (auto simp: is_ok_iff)
  have inv: "inv t" using reg_inv [OF Cons.prems(3) t] .
  have other: "get t b = get s b" if "b \<noteq> a" for b
    using reg_other [OF Cons.prems(3) t that] .
  have ne: "b \<noteq> a" if "(b, w) \<in> set rs" for b w
    using Cons.prems(1) that r by (force simp: image_iff)
  have "\<exists>s'. foldM (\<lambda>s (a, v). reg s a v) t rs = Ok s' \<and> inv s'
     \<and> (\<forall>b. get s' b = (case map_of rs b of Some v \<Rightarrow> Ok v | None \<Rightarrow> get t b))"
  proof (rule Cons.IH [OF _ _ inv])
    show "distinct (map fst rs)" using Cons.prems(1) by simp
    show "Api_code b < Api_code Api_COUNT \<and> registrable w" if "(b, w) \<in> set rs" for b w
      using Cons.prems(2) [of b w] that by simp
    show "get t b = Ok empty" if "(b, w) \<in> set rs" for b w
      using Cons.prems(4) [of b w] other [OF ne [OF that]] that by simp
  qed
  then obtain s' where s': "foldM (\<lambda>s (a, v). reg s a v) t rs = Ok s'" "inv s'"
    "\<And>b. get s' b = (case map_of rs b of Some v \<Rightarrow> Ok v | None \<Rightarrow> get t b)"
    by blast
  have "map_of rs a = None" using Cons.prems(1) r by (simp add: map_of_eq_None_iff)
  then have "get s' a = Ok v" using s'(3) [of a] reg_same [OF Cons.prems(3) reg(1) t] by simp
  then show ?case using s' r t other by (auto split: option.splits)
qed simp

lemma register_from_init:
  assumes "distinct (map fst rs)"
    and "\<And>a v. (a, v) \<in> set rs \<Longrightarrow> Api_code a < Api_code Api_COUNT \<and> registrable v"
  shows "\<exists>s'. foldM (\<lambda>s (a, v). reg s a v) init rs = Ok s'
     \<and> (\<forall>b. Api_code b < Api_code Api_COUNT \<longrightarrow>
          get s' b = Ok (case map_of rs b of Some v \<Rightarrow> v | None \<Rightarrow> empty))"
  using register_all [OF assms init_inv] init_empty assms(2) by (fastforce split: option.splits)

end

lemma Api_code_inject [simp]: "Api_code a = Api_code b \<longleftrightarrow> a = b"
  by (cases a; cases b) simp_all

interpretation supported: api_slots isApiSupported "\<lambda>s a _. registerSupportedApi s a" False
  "\<lambda>v. v" no_supportedApis "\<lambda>s. length s = Api_code Api_COUNT"
  by unfold_locales
    (auto simp: isApiSupported_def registerSupportedApi_def no_supportedApis_def slot_get_def slot_set_def
      split: if_splits)

interpretation deviceInfo: api_slots slot_get
  "\<lambda>s a f. registerFunctions s a (fn_printDeviceInfo f) (fn_printAvailableDevices f)"
  "\<lparr>fn_printDeviceInfo = None, fn_printAvailableDevices = None\<rparr>"
  "\<lambda>f. fn_printDeviceInfo f \<noteq> None \<and> fn_printAvailableDevices f \<noteq> None"
  no_functions "\<lambda>s. length s = Api_code Api_COUNT"
  by unfold_locales
    (auto simp: registerFunctions_def no_functions_def bindR_eq_Inr FATAL_ERROR_IF_eq_Inr
      slot_get_def is_ok_iff slot_set_def split: if_splits)

interpretation implementations: api_slots slot_get
  "\<lambda>s a i. RegisterTestCaseImplementation s (the (impl_function i)) a (requiresIntelExtensions i)"
  "\<lparr>impl_function = None, requiresIntelExtensions = False\<rparr>" "\<lambda>i. impl_function i \<noteq> None"
  no_implementations "\<lambda>s. length s = Api_code Api_COUNT"
  by unfold_locales
    (auto simp: RegisterTestCaseImplementation_def no_implementations_def slot_get_def slot_set_def
      split: if_splits)

lemma filterM_pure: "(\<And>x. x \<in> set xs \<Longrightarrow> p x = Ok (q x)) \<Longrightarrow> filterM p xs = Ok (filter q xs)"
  by (induction xs) auto

section \<open>Properties\<close>

text \<open>
  After the implementations of a test case are registered for distinct APIs, the test reports
  exactly those APIs, in the order of the enumeration, and each slot holds the function and the
  extension flag it was registered with.
\<close>

theorem getApisWithImplementation_registered:
  fixes rs :: "(Api \<times> 'f BenchmarkImplementation) list"
  assumes "distinct (map fst rs)"
    and "list_all (\<lambda>(a, i). a \<in> set apis_first_to_last \<and> impl_function i \<noteq> None) rs"
  shows "\<exists>impls. foldM (\<lambda>s (a, i). RegisterTestCaseImplementation s (the (impl_function i)) a
                                      (requiresIntelExtensions i)) no_implementations rs = Ok impls
     \<and> getApisWithImplementation impls = Ok (filter (\<lambda>a. a \<in> fst ` set rs) apis_first_to_last)
     \<and> (\<forall>(a, i) \<in> set rs. slot_get impls a = Ok i)"
proof -
  have code: "Api_code a < Api_code Api_COUNT" if "a \<in> set apis_first_to_last" for a
    using that by (auto simp: apis_first_to_last_eq)
  obtain impls where impls: "foldM (\<lambda>s (a, i). RegisterTestCaseImplementation s (the (impl_function i)) a
        (requiresIntelExtensions i)) no_implementations rs = Ok impls"
    "\<And>b. Api_code b < Api_code Api_COUNT \<Longrightarrow> slot_get impls b =
       Ok (case map_of rs b of Some v \<Rightarrow> v | None \<Rightarrow> \<lparr>impl_function = None, requiresIntelExtensions = False\<rparr>)"
    using implementations.register_from_init [OF assms(1)] assms(2) code
    by (fastforce simp: list_all_iff)
  have "isApiImplemented impls a = Ok (a \<in> fst ` set rs)" if "a \<in> set apis_first_to_last" for a
    using impls(2) [OF code [OF that]] assms(2) map_of_eq_None_iff [of rs a]
    by (auto simp: isApiImplemented_def list_all_iff dest!: map_of_SomeD split: option.splits)
  then have "getApisWithImplementation impls = Ok (filter (\<lambda>a. a \<in> fst ` set rs) apis_first_to_last)"
    unfolding getApisWithImplementation_def by (rule filterM_pure)
  moreover have "slot_get impls a = Ok i" if "(a, i) \<in> set rs" for a i
    using impls(2) [of a] that assms code by (auto simp: list_all_iff)
  ultimately show ?thesis using impls(1) by auto
qed

end
