(* ===== verification/Test_Case.thy ===== *)
theory Test_Case
  imports Metrics Registries
begin

text \<open>
  A test case of a benchmark: \<open>framework/test_case/test_result.cpp\<close>, \<open>test_case_argument_container.cpp\<close>,
  \<open>test_case_base.cpp\<close>, \<open>test_case.h\<close> and \<open>framework/utility/common_help_message.cpp\<close>.

  The implementation of a test (the function a benchmark registers for an API) is a parameter: a
  function from the arguments and the statistics object to a test result and the statistics it
  filled in. What the framework does around it (filters, API selection, validation, the choice of
  what to print) is modelled in full. Functions that print return the text in the order in which
  it is written. Warnings to the error stream are left out.
\<close>

section \<open>common\_help\_message.cpp\<close>

definition errorIgnoredCommandLineArgs :: string where
  "errorIgnoredCommandLineArgs = ''The following command line arguments were ignored: ''"

definition errorUnsetArguments :: string where
  "errorUnsetArguments = ''The following test case arguments were not set to any value: ''"

definition help_compression :: "string \<Rightarrow> string" where
  "help_compression target =
     ''Select if the '' @ target @ '' is to be compressed. Will be skipped, if device does not support compression''"

definition help_forceBlitter :: string where
  "help_forceBlitter = ''Force blitter engine. Test will be skipped if device does not support blitter. ''
     @ ''Warning: in OpenCL blitter may still be used even if not forced''"

definition help_useEvents :: string where
  "help_useEvents = ''Perform GPU-side measurements using events''"

definition help_measuredCommandsCount :: string where
  "help_measuredCommandsCount = ''Number of commands being measured. Result is later divided by this ''
     @ ''number, to achieve time of a single command''"

definition help_atomicDataType :: string where
  "help_atomicDataType = ''Data type of the atomic. Keep in mind not all operations are ''
     @ ''supported for floating points''"

definition help_hostptrBufferReuse :: string where
  "help_hostptrBufferReuse = ''How hostptr allocation can be reused due to previous operations''"

definition help_writeOperation :: string where
  "help_writeOperation = ''Which operation is used, whether write or read''"

section \<open>test\_result.cpp\<close>

datatype TestResult =
    Success | Error | DriverFunctionNotFound | DeviceNotCapable | ApiNotCapable | KernelNotFound
  | SkippedApi | UnsupportedApi | NoImplementation | IntelExtensionsRequired | InvalidArgs | Nooped
  | FilteredOut | VerificationFail | KernelBuildError

definition TestResult_values :: "TestResult list" where
  "TestResult_values = [Success, Error, DriverFunctionNotFound, DeviceNotCapable, ApiNotCapable,
     KernelNotFound, SkippedApi, UnsupportedApi, NoImplementation, IntelExtensionsRequired,
     InvalidArgs, Nooped, FilteredOut, VerificationFail, KernelBuildError]"

record TestResultInfo =
  stringMessage :: string
  printInSingleTestMode :: bool
  printInAllTestsMode :: bool
  wasTestSkipped :: bool
  printInPrintAllResultsMode :: bool

definition info :: "string \<Rightarrow> bool \<Rightarrow> bool \<Rightarrow> bool \<Rightarrow> bool \<Rightarrow> TestResultInfo" where
  "info m a b c d = \<lparr>stringMessage = m, printInSingleTestMode = a, printInAllTestsMode = b,
                     wasTestSkipped = c, printInPrintAllResultsMode = d\<rparr>"

definition testResultInfoMapping :: "(TestResult \<times> TestResultInfo) list" where
  "testResultInfoMapping =
     [(Error,                   info ''ERROR''              True  True  False True),
      (DriverFunctionNotFound,  info ''NO_SUPPORT''         True  True  True  True),
      (DeviceNotCapable,        info ''NO_SUPPORT''         True  False True  True),
      (ApiNotCapable,           info ''NO_SUPPORT (API)''   True  False True  True),
      (KernelNotFound,          info ''MISSING_KERNEL''     True  True  True  True),
      (SkippedApi,              info ''SKIPPED''            False False True  True),
      (UnsupportedApi,          info ''SKIPPED''            False False True  True),
      (NoImplementation,        info ''NO_IMPLEMENT''       True  False True  True),
      (IntelExtensionsRequired, info ''NO_SUPPORT''         True  False True  True),
      (InvalidArgs,             info ''INVALID_ARGS''       True  True  True  True),
      (Nooped,                  info ''NOOP''               True  True  True  True),
      (FilteredOut,             info ''FILTERED_OUT''       True  False True  False),
      (VerificationFail,        info ''VERIF_FAIL''         True  True  False True),
      (KernelBuildError,        info ''KERNEL_BUILD_ERROR'' True  True  False True)]"

definition getTestResultInfo :: "TestResult \<Rightarrow> TestResultInfo result" where
  "getTestResultInfo testResult =
     (case map_of testResultInfoMapping testResult of
        None \<Rightarrow> FATAL_ERROR ''No metadata for TestResult found. This is a benchmark framework issue.''
      | Some i \<Rightarrow> Ok i)"

section \<open>test\_case\_argument\_container.cpp\<close>

record TestCaseArgumentContainer =
  tca_args :: ArgumentContainer
  tca_api :: Api
  tca_iterations :: int
  tca_noIntelExtensions :: bool
  isSingleTestMode :: bool

definition make_TestCaseArgumentContainer :: "ArgumentContainer \<Rightarrow> TestCaseArgumentContainer" where
  "make_TestCaseArgumentContainer args =
     \<lparr>tca_args = args, tca_api = Api_Unknown, tca_iterations = 0, tca_noIntelExtensions = False,
      isSingleTestMode = False\<rparr>"

text \<open>The strings of the arguments joined with a space, each with two hyphens before it for a command line.\<close>

definition getCurrentConfig :: "bool \<Rightarrow> bool \<Rightarrow> ArgumentContainer \<Rightarrow> string result" where
  "getCurrentConfig noIntelExtensions commandLine args =
     bindR (mapM (Argument_toString noIntelExtensions) args) (\<lambda>strs.
       Ok (joinStrings '' '' strs (\<lambda>s. (if commandLine then ''--'' else []) @ s)))"

definition TestCase_validateArguments ::
  "(ArgumentContainer \<Rightarrow> bool) \<Rightarrow> TestCaseArgumentContainer \<Rightarrow> bool result" where
  "TestCase_validateArguments validateArgumentsExtra arguments =
     bindR (validateArguments validateArgumentsExtra (tca_args arguments)) (\<lambda>ok.
       if \<not> ok then Ok False
       else if \<not> validateApi (tca_api arguments) then Ok False
       else if tca_iterations arguments \<le> 0 then Ok False
       else Ok True)"

section \<open>The environment of a test case\<close>

type_synonym TestFunction =
  "TestCaseArgumentContainer \<Rightarrow> TestCaseStatistics \<Rightarrow> (TestResult \<times> TestCaseStatistics) result"

record TestCase =
  tc_name :: string
  tc_help :: string
  tc_arguments :: ArgumentContainer
  tc_validateExtra :: "ArgumentContainer \<Rightarrow> bool"
  tc_implementations :: "TestFunction BenchmarkImplementation list"

text \<open>
  The process-wide state a test case reads: the configuration, the supported APIs, the width of the
  first column, and the default notation of floating point numbers on a stream.
\<close>

record environment =
  env_configuration :: Configuration
  env_supportedApis :: "bool list"
  env_columnWidth :: nat
  env_show_double :: "Value \<Rightarrow> string"

definition env_noIntelExtensions :: "environment \<Rightarrow> bool" where
  "env_noIntelExtensions env = cfg_flag (env_configuration env) ''no-intel-extensions''"

section \<open>test\_case\_base.cpp\<close>

definition getTestCaseNameWithConfig ::
  "bool \<Rightarrow> string \<Rightarrow> TestCaseArgumentContainer \<Rightarrow> bool \<Rightarrow> string result" where
  "getTestCaseNameWithConfig noIntelExtensions testCaseName arguments commandLine =
     bindR (Api_to_string (tca_api arguments)) (\<lambda>api.
     bindR (getCurrentConfig noIntelExtensions commandLine (tca_args arguments)) (\<lambda>config.
       Ok ((if commandLine then ''--test='' @ testCaseName @ '' --api='' @ api
            else testCaseName @ ''(api='' @ api)
           @ (if length config > 0 then '' '' @ config else [])
           @ (if commandLine then [] else '')''))))"

definition matchesWithTestFilter :: "Configuration \<Rightarrow> string \<Rightarrow> bool" where
  "matchesWithTestFilter cfg testCaseName =
     list_all (\<lambda>testFilter.
         let (filter, isFilterNegated) = handleFilterNegation testFilter
         in (testCaseName = filter) \<noteq> isFilterNegated)
       (cfg_strings cfg ''testFilter'')"

fun allM :: "('a \<Rightarrow> bool result) \<Rightarrow> 'a list \<Rightarrow> bool result" where
  "allM p [] = Ok True"
| "allM p (x # xs) = bindR (p x) (\<lambda>b. if \<not> b then Ok False else allM p xs)"

text \<open>Both \<open>std::none_of\<close> and \<open>std::any_of\<close> stop at the first argument that matches.\<close>

definition matchesWithArgFilter :: "environment \<Rightarrow> ArgumentContainer \<Rightarrow> bool result" where
  "matchesWithArgFilter env args =
     allM (\<lambda>argFilter.
         let (filter, isFilterNegated) = handleFilterNegation argFilter;
             matches = (\<lambda>arg. bindR (Argument_toString (env_noIntelExtensions env) arg) (\<lambda>s. Ok (s = filter)))
         in bindR (anyM matches args) (\<lambda>found. Ok (if isFilterNegated then \<not> found else found)))
       (cfg_strings (env_configuration env) ''argFilter'')"

section \<open>test\_case.h\<close>

text \<open>The text printed before and after the implementation runs is returned with its result.\<close>

definition runImpl ::
  "environment \<Rightarrow> TestCase \<Rightarrow> TestCaseStatistics \<Rightarrow> TestCaseArgumentContainer \<Rightarrow> string
     \<Rightarrow> (TestResult \<times> TestCaseStatistics \<times> string) result" where
  "runImpl env tc stats arguments testCaseNameWithConfig =
     (let cfg = env_configuration env; selectedApi = cfg_selectedApi cfg
      in if \<not> matchesWithTestFilter cfg (tc_name tc) then Ok (FilteredOut, stats, [])
         else bindR (matchesWithArgFilter env (tca_args arguments)) (\<lambda>argsMatch.
         if \<not> argsMatch then Ok (FilteredOut, stats, [])
         else if tca_api arguments \<noteq> selectedApi \<and> selectedApi \<noteq> Api_All then Ok (SkippedApi, stats, [])
         else bindR (isApiSupported (env_supportedApis env) (tca_api arguments)) (\<lambda>supported.
         if \<not> supported then Ok (UnsupportedApi, stats, [])
         else bindR (slot_get (tc_implementations tc) (tca_api arguments)) (\<lambda>benchmarkImplementation.
         case impl_function benchmarkImplementation of
           None \<Rightarrow> Ok (NoImplementation, stats, [])
         | Some function \<Rightarrow>
             if tca_noIntelExtensions arguments \<and> requiresIntelExtensions benchmarkImplementation
             then Ok (IntelExtensionsRequired, stats, [])
             else bindR (TestCase_validateArguments (tc_validateExtra tc) arguments) (\<lambda>validArgs.
             if \<not> validArgs then Ok (InvalidArgs, stats, [])
             else bindR (function arguments stats) (\<lambda>(testResult, stats').
               Ok (testResult, stats',
                   if cfg_flag cfg ''interactivePrints''
                   then printStatisticsBeforeTest (env_columnWidth env) (tcs_printType stats) testCaseNameWithConfig
                        @ printClearLineAfterTest (env_columnWidth env)
                   else [])))))))"

definition run ::
  "environment \<Rightarrow> TestCase \<Rightarrow> TestCaseArgumentContainer \<Rightarrow> (TestCaseArgumentContainer \<times> string) result" where
  "run env tc arguments0 =
     (let cfg = env_configuration env;
          arguments = arguments0\<lparr>tca_iterations := cfg_int cfg ''iterations'',
                                 tca_noIntelExtensions := cfg_flag cfg ''no-intel-extensions''\<rparr>
      in bindR (getTestCaseNameWithConfig (env_noIntelExtensions env) (tc_name tc) arguments
                  (cfg_flag cfg ''dumpCommandLines'')) (\<lambda>testCaseNameWithConfig.
         let stats = make_TestCaseStatistics (nat (tca_iterations arguments)) (printType cfg)
         in bindR (runImpl env tc stats arguments testCaseNameWithConfig) (\<lambda>(testResult, stats', before).
            if testResult = Success \<or> testResult = Nooped
            then bindR (printStatistics (env_show_double env) (env_columnWidth env) stats' testCaseNameWithConfig)
                   (\<lambda>text. Ok (arguments, before @ text))
            else bindR (getTestResultInfo testResult) (\<lambda>testResultInfo.
              let printMessage =
                    (cfg_flag cfg ''printAllResults'' \<and> printInPrintAllResultsMode testResultInfo)
                    \<or> (if isSingleTestMode arguments then printInSingleTestMode testResultInfo
                       else printInAllTestsMode testResultInfo)
              in Ok (arguments, before @
                   (if printMessage
                    then printStatisticsString (env_columnWidth env) (printType cfg) testCaseNameWithConfig
                           (stringMessage testResultInfo) newline
                    else []))))))"

text \<open>The loop over all APIs reuses the same argument container.\<close>

fun run_apis ::
  "environment \<Rightarrow> TestCase \<Rightarrow> TestCaseArgumentContainer \<Rightarrow> Api list \<Rightarrow> string result" where
  "run_apis env tc arguments [] = Ok []"
| "run_apis env tc arguments (api # apis) =
     bindR (run env tc (arguments\<lparr>tca_api := api\<rparr>)) (\<lambda>(arguments', text).
     bindR (run_apis env tc arguments' apis) (\<lambda>rest. Ok (text @ rest)))"

definition runFromCommandLine ::
  "environment \<Rightarrow> TestCase \<Rightarrow> CommandLineArgument list \<Rightarrow> (bool \<times> string) result" where
  "runFromCommandLine env tc commandLineArguments =
     bindR (parseArguments (tc_arguments tc) commandLineArguments) (\<lambda>(args, commandLineArguments').
       let unprocessedArgs = getUnprocessedArguments commandLineArguments';
           unparsedArgs = getUnparsedArguments args;
           error = (unprocessedArgs \<noteq> [] \<or> unparsedArgs \<noteq> []);
           arguments = (make_TestCaseArgumentContainer args)\<lparr>isSingleTestMode := True\<rparr>;
           cfg = env_configuration env
       in if error then Ok (False, [])
          else bindR (run_apis env tc arguments apis_first_to_last) (\<lambda>text.
            Ok (True, (if \<not> cfg_flag cfg ''noColumnNames''
                       then printStatisticsHeader (env_columnWidth env) (printType cfg) else []) @ text)))"

section \<open>Lemmas\<close>

lemma getTestResultInfo_total: "r \<noteq> Success \<Longrightarrow> is_ok (getTestResultInfo r)"
  by (cases r) (simp_all add: getTestResultInfo_def testResultInfoMapping_def)

text \<open>The guards of \<open>runImpl\<close>, and the function they admit.\<close>

definition admitted ::
  "environment \<Rightarrow> TestCase \<Rightarrow> TestCaseArgumentContainer \<Rightarrow> TestFunction \<Rightarrow> bool" where
  "admitted env tc arguments f \<longleftrightarrow>
     matchesWithTestFilter (env_configuration env) (tc_name tc)
     \<and> matchesWithArgFilter env (tca_args arguments) = Ok True
     \<and> (cfg_selectedApi (env_configuration env) = Api_All
        \<or> cfg_selectedApi (env_configuration env) = tca_api arguments)
     \<and> isApiSupported (env_supportedApis env) (tca_api arguments) = Ok True
     \<and> (\<exists>impl. slot_get (tc_implementations tc) (tca_api arguments) = Ok impl
          \<and> impl_function impl = Some f
          \<and> \<not> (tca_noIntelExtensions arguments \<and> requiresIntelExtensions impl))
     \<and> TestCase_validateArguments (tc_validateExtra tc) arguments = Ok True"

lemma runImpl_admitted:
  assumes "admitted env tc arguments f"
  shows "runImpl env tc stats arguments name =
     bindR (f arguments stats) (\<lambda>(r, stats'). Ok (r, stats',
       if cfg_flag (env_configuration env) ''interactivePrints''
       then printStatisticsBeforeTest (env_columnWidth env) (tcs_printType stats) name
            @ printClearLineAfterTest (env_columnWidth env) else []))"
  using assms by (auto simp: admitted_def runImpl_def)

lemma runImpl_not_admitted:
  assumes "\<nexists>f. admitted env tc arguments f" and "runImpl env tc stats arguments name = Ok (r, stats', out)"
  shows "r \<in> {FilteredOut, SkippedApi, UnsupportedApi, NoImplementation, IntelExtensionsRequired, InvalidArgs}
    \<and> stats' = stats \<and> out = []"
  using assms
  by (auto simp: runImpl_def admitted_def Let_def bindR_eq_Inr split: if_splits option.splits)

section \<open>Properties\<close>

text \<open>
  C3: The framework hands control to the implementation of a test exactly when the test passes the
  filters, its API is selected and supported, an implementation is registered that needs no
  forbidden extension, and the arguments validate; the result is then the one of the
  implementation. In every other case that does not abort, nothing is printed, the statistics are
  untouched and the reported result is one that the table of results marks as skipped.
\<close>

theorem runImpl_calls_only_admitted:
  assumes "runImpl env tc stats arguments name = Ok (r, stats', out)"
  shows "(\<exists>f. admitted env tc arguments f \<and> f arguments stats = Ok (r, stats'))
    \<or> ((\<nexists>f. admitted env tc arguments f) \<and> stats' = stats \<and> out = []
       \<and> (\<exists>i. getTestResultInfo r = Ok i \<and> wasTestSkipped i))"
proof (cases "\<exists>f. admitted env tc arguments f")
  case True
  then show ?thesis using assms by (auto simp: runImpl_admitted bindR_eq_Inr split: prod.splits)
next
  case False
  with runImpl_not_admitted [OF False assms] show ?thesis
    by (auto simp: getTestResultInfo_def testResultInfoMapping_def info_def)
qed

theorem runImpl_calls_only_admitted_witness:
  "\<exists>env tc stats arguments i. runImpl env tc stats arguments ''t'' = Ok (UnsupportedApi, stats, [])
     \<and> getTestResultInfo UnsupportedApi = Ok i \<and> wasTestSkipped i"
proof -
  let ?env = "\<lparr>env_configuration = make_Configuration, env_supportedApis = no_supportedApis,
    env_columnWidth = 20, env_show_double = (\<lambda>_. [])\<rparr>"
  let ?tc = "\<lparr>tc_name = ''t'', tc_help = [], tc_arguments = [], tc_validateExtra = (\<lambda>_. True),
    tc_implementations = no_implementations\<rparr>"
  let ?a = "(make_TestCaseArgumentContainer [])\<lparr>tca_api := OpenCL\<rparr>"
  let ?s = "make_TestCaseStatistics 1 PT_Default"
  have cfg: "cfg_strings make_Configuration ''testFilter'' = []" "cfg_strings make_Configuration ''argFilter'' = []"
    "cfg_selectedApi make_Configuration = Api_All"
    by code_simp+
  have r: "runImpl ?env ?tc ?s ?a ''t'' = Ok (UnsupportedApi, ?s, [])"
    by (simp add: runImpl_def matchesWithTestFilter_def matchesWithArgFilter_def cfg isApiSupported_def
        slot_get_def no_supportedApis_def)
  have "\<nexists>f. admitted ?env ?tc ?a f"
    by (simp add: admitted_def isApiSupported_def slot_get_def no_supportedApis_def)
  with runImpl_calls_only_admitted [OF r] obtain i where "getTestResultInfo UnsupportedApi = Ok i" "wasTestSkipped i"
    by blast
  with r show ?thesis by blast
qed

text \<open>
  A test passes the name filters exactly when it meets each of them: a filter written with
  \<open>n\<close> leading circumflexes names the test to keep when \<open>n\<close> is even and the test to drop when \<open>n\<close>
  is odd.
\<close>

lemma matchesWithTestFilter_iff:
  assumes "cfg_strings cfg ''testFilter'' = map (\<lambda>(n, f). replicate n CHR ''^'' @ f) fs"
    and "list_all (\<lambda>(n, f). f = [] \<or> hd f \<noteq> CHR ''^'') fs"
  shows "matchesWithTestFilter cfg name \<longleftrightarrow> (\<forall>(n, f) \<in> set fs. if even n then name = f else name \<noteq> f)"
proof -
  have "handleFilterNegation (replicate n CHR ''^'' @ f) = (f, odd n)" if "(n, f) \<in> set fs" for n f
  proof -
    have "f = [] \<or> hd f \<noteq> CHR ''^''" using assms(2) that by (auto simp: list_all_iff)
    then show ?thesis by (simp add: handleFilterNegation_def handleFilterNegation_loop_replicate)
  qed
  then show ?thesis
    by (auto simp: matchesWithTestFilter_def assms(1) list_all_iff split: if_splits)
qed

end
