(* ===== verification/Workload.thy ===== *)
theory Workload
  imports Test_Case
begin

text \<open>
  The child side of multi-process benchmarks: \<open>framework/workload/workload_synchronization.cpp\<close>,
  \<open>workload_argument_container.h\<close>, \<open>linux/workload_io_linux.cpp\<close> and \<open>workload.h\<close>.

  The descriptors a workload talks through are a record \<open>WorkloadIo\<close>: the characters still to be read
  from the synchronization input, and everything written so far. A descriptor of 0 stands for the
  standard streams, as in the code. The implementation of a workload is a parameter of \<open>Workload_run\<close>.
\<close>

section \<open>Argument container\<close>

definition WorkloadArgumentContainer_fields :: "(string \<times> string \<times> arg_value) list" where
  "WorkloadArgumentContainer_fields = [
     (''iterations'', ''Number of iterations to perform'', Arg_PositiveInteger 0),
     (''synchronize'', ''Wait for synchronization before each iteration'', Arg_Boolean 0),
     (''synchronizationPipeIn'',
      ''Handle for the synchronization pipe (parent to child). If 0, stdin is used.'', Arg_Integer 0),
     (''synchronizationPipeOut'',
      ''Handle for the synchronization pipe (child to parent). If 0, stdout is used.'', Arg_Integer 0),
     (''measurementPipe'', ''Handle for the measurements pipe. If 0, stdout is used'', Arg_Integer 0)]"

definition WorkloadArgumentContainer_defaults :: "(string \<times> arg_value) list" where
  "WorkloadArgumentContainer_defaults = [
     (''iterations'', Arg_PositiveInteger (PositiveIntegerArgument_assign 10)),
     (''synchronize'', Arg_Boolean (BooleanArgument_assign False)),
     (''synchronizationPipeIn'', Arg_Integer 0),
     (''synchronizationPipeOut'', Arg_Integer 0),
     (''measurementPipe'', Arg_Integer 0)]"

text \<open>A derived container adds its own arguments after these.\<close>

definition make_WorkloadArgumentContainer :: "ArgumentContainer \<Rightarrow> ArgumentContainer" where
  "make_WorkloadArgumentContainer own =
     foldl assign_field (map (\<lambda>(k, h, v). make_Argument k (Some h) v) WorkloadArgumentContainer_fields)
       WorkloadArgumentContainer_defaults @ own"

definition arg_int :: "ArgumentContainer \<Rightarrow> string \<Rightarrow> int" where
  "arg_int args k = cfg_int \<lparr>cfg_args = args, printType = PT_Default\<rparr> k"

section \<open>Input and output\<close>

definition synchronizationChar :: char where
  "synchronizationChar = CHR ''$''"

record WorkloadIo =
  synchronizationPipeIn :: int
  synchronizationPipeOut :: int
  measurementPipe :: int
  sync_input :: string
  sync_output :: string
  measurements_output :: string
  stdout :: string

definition WorkloadIo_create :: "ArgumentContainer \<Rightarrow> string \<Rightarrow> WorkloadIo" where
  "WorkloadIo_create args input =
     \<lparr>synchronizationPipeIn = wrap_i32 (arg_int args ''synchronizationPipeIn''),
      synchronizationPipeOut = wrap_i32 (arg_int args ''synchronizationPipeOut''),
      measurementPipe = wrap_i32 (arg_int args ''measurementPipe''),
      sync_input = input, sync_output = [], measurements_output = [], stdout = []\<rparr>"

text \<open>
  \<open>write\<close> returns the number of bytes written; an empty text written to the pipe returns 0, which
  the code treats as an error.
\<close>

definition writeToMeasurements :: "WorkloadIo \<Rightarrow> string \<Rightarrow> WorkloadIo result" where
  "writeToMeasurements io measurements =
     (if measurementPipe io \<noteq> 0 then
        FATAL_ERROR_IF (length measurements = 0)
          ''No character was written when writing measurements in a child process''
          (Ok (io\<lparr>measurements_output := measurements_output io @ measurements\<rparr>))
      else Ok (io\<lparr>stdout := stdout io @ measurements @ '' ''\<rparr>))"

definition writeSynchronizationChar :: "WorkloadIo \<Rightarrow> char \<Rightarrow> WorkloadIo" where
  "writeSynchronizationChar io c =
     (if synchronizationPipeOut io \<noteq> 0
      then io\<lparr>sync_output := sync_output io @ [synchronizationChar]\<rparr>
      else io\<lparr>stdout := stdout io @ [c]\<rparr>)"

text \<open>
  Reading from a pipe whose writer is gone returns 0 bytes; \<open>std::cin.get()\<close> at the end of the
  input returns \<open>EOF\<close>, which converts to the character 255.
\<close>

definition readSynchronizationChar :: "WorkloadIo \<Rightarrow> (char \<times> WorkloadIo) result" where
  "readSynchronizationChar io =
     (if synchronizationPipeIn io \<noteq> 0 then
        (case sync_input io of
           [] \<Rightarrow> FATAL_ERROR ''No character was read when reading synchronization char in a child process''
         | buffer # rest \<Rightarrow>
             FATAL_ERROR_IF (buffer \<noteq> synchronizationChar)
               (''Invalid synchronization received in a child process from the parent: '' @ [CHR 0x27, buffer, CHR 0x27])
               (Ok (buffer, io\<lparr>sync_input := rest\<rparr>)))
      else
        (case sync_input io of
           [] \<Rightarrow> Ok (CHR 0xFF, io)
         | c # rest \<Rightarrow> Ok (c, io\<lparr>sync_input := rest\<rparr>)))"

section \<open>WorkloadSynchronization\<close>

record WorkloadSynchronization =
  synchronizationCount :: nat
  expectedSynchronizationCount :: nat
  synchronizationEnabled :: bool

definition make_WorkloadSynchronization :: "nat \<Rightarrow> bool \<Rightarrow> WorkloadSynchronization" where
  "make_WorkloadSynchronization iterationsCount enabled =
     \<lparr>synchronizationCount = 0, expectedSynchronizationCount = iterationsCount, synchronizationEnabled = enabled\<rparr>"

text \<open>The loop reads until a character that is not a line end; each read but the last consumes input.\<close>

fun read_skipping :: "nat \<Rightarrow> WorkloadIo \<Rightarrow> (char \<times> WorkloadIo) result" where
  "read_skipping 0 io = readSynchronizationChar io"
| "read_skipping (Suc fuel) io =
     bindR (readSynchronizationChar io) (\<lambda>(character, io').
       if character = newline \<or> character = CHR 0x0D then read_skipping fuel io' else Ok (character, io'))"

definition synchronize ::
  "WorkloadSynchronization \<Rightarrow> WorkloadIo \<Rightarrow> (WorkloadSynchronization \<times> WorkloadIo) result" where
  "synchronize sync io =
     FATAL_ERROR_IF (synchronizationCount sync = expectedSynchronizationCount sync)
       ''Too many iterations signalled during workload synchronization''
      (let sync' = sync\<lparr>synchronizationCount := synchronizationCount sync + 1\<rparr>
       in if \<not> synchronizationEnabled sync then Ok (sync', io)
          else let io' = writeSynchronizationChar io synchronizationChar
               in bindR (read_skipping (length (sync_input io')) io') (\<lambda>(character, io'').
                    FATAL_ERROR_IF (character \<noteq> synchronizationChar)
                      (''Invalid synchronization received from parent process: '' @ [CHR 0x27, character, CHR 0x27])
                      (Ok (sync', io''))))"

definition WorkloadSynchronization_validate :: "WorkloadSynchronization \<Rightarrow> bool" where
  "WorkloadSynchronization_validate sync =
     (if synchronizationEnabled sync
      then synchronizationCount sync = expectedSynchronizationCount sync else True)"

function executeRemainingSynchronizations ::
  "WorkloadSynchronization \<Rightarrow> WorkloadIo \<Rightarrow> (WorkloadSynchronization \<times> WorkloadIo) result" where
  "executeRemainingSynchronizations sync io =
     (if synchronizationCount sync < expectedSynchronizationCount sync then
        (case synchronize sync io of
           Inl e \<Rightarrow> Inl e
         | Inr (sync', io') \<Rightarrow> executeRemainingSynchronizations sync' io')
      else Ok (sync, io))"
  by pat_completeness auto
termination
  by (relation "measure (\<lambda>(sync, io). expectedSynchronizationCount sync - synchronizationCount sync)")
    (auto simp: synchronize_def Let_def FATAL_ERROR_IF_def bindR_eq_Inr split: if_splits)

declare executeRemainingSynchronizations.simps [simp del]

section \<open>Workload\<close>

text \<open>\<open>static_cast\<close> of a result to the exit code of the process.\<close>

primrec TestResult_code :: "TestResult \<Rightarrow> nat" where
  "TestResult_code Success = 0"
| "TestResult_code Error = 1"
| "TestResult_code DriverFunctionNotFound = 2"
| "TestResult_code DeviceNotCapable = 3"
| "TestResult_code ApiNotCapable = 4"
| "TestResult_code KernelNotFound = 5"
| "TestResult_code SkippedApi = 6"
| "TestResult_code UnsupportedApi = 7"
| "TestResult_code NoImplementation = 8"
| "TestResult_code IntelExtensionsRequired = 9"
| "TestResult_code InvalidArgs = 10"
| "TestResult_code Nooped = 11"
| "TestResult_code FilteredOut = 12"
| "TestResult_code VerificationFail = 13"
| "TestResult_code KernelBuildError = 14"

definition toProcessResult :: "TestResult \<Rightarrow> nat" where
  "toProcessResult testResult = TestResult_code testResult"

type_synonym WorkloadImplementation =
  "ArgumentContainer \<Rightarrow> WorkloadStatistics \<Rightarrow> WorkloadSynchronization \<Rightarrow> WorkloadIo
    \<Rightarrow> (TestResult \<times> WorkloadStatistics \<times> WorkloadSynchronization \<times> WorkloadIo) result"

definition Workload_runImpl ::
  "WorkloadImplementation option \<Rightarrow> (ArgumentContainer \<Rightarrow> bool) \<Rightarrow> ArgumentContainer \<Rightarrow> WorkloadStatistics
    \<Rightarrow> WorkloadSynchronization \<Rightarrow> WorkloadIo
    \<Rightarrow> (TestResult \<times> WorkloadStatistics \<times> WorkloadSynchronization \<times> WorkloadIo) result" where
  "Workload_runImpl implementation validateExtra arguments stats sync io =
     (case implementation of
        None \<Rightarrow> Ok (NoImplementation, stats, sync, io)
      | Some f \<Rightarrow>
          bindR (validateArguments validateExtra arguments) (\<lambda>ok.
            if \<not> ok then Ok (InvalidArgs, stats, sync, io) else f arguments stats sync io))"

text \<open>The exit code, the state of the synchronization and the descriptors when \<open>run\<close> returns.\<close>

definition Workload_run ::
  "(Value \<Rightarrow> string) \<Rightarrow> WorkloadImplementation option \<Rightarrow> (ArgumentContainer \<Rightarrow> bool) \<Rightarrow> ArgumentContainer \<Rightarrow> string
    \<Rightarrow> (nat \<times> WorkloadSynchronization \<times> WorkloadIo) result" where
  "Workload_run show_double implementation validateExtra arguments input =
     (let iterations = nat (arg_int arguments ''iterations'');
          stats = make_WorkloadStatistics iterations;
          sync = make_WorkloadSynchronization iterations (arg_int arguments ''synchronize'' \<noteq> 0);
          io = WorkloadIo_create arguments input
      in bindR (Workload_runImpl implementation validateExtra arguments stats sync io) (\<lambda>(result, stats', sync', io').
         if result = Success
         then bindR (writeToMeasurements io' (WorkloadStatistics_text show_double stats'))
                (\<lambda>io''. Ok (toProcessResult result, sync', io''))
         else bindR (executeRemainingSynchronizations sync' io')
                (\<lambda>(sync'', io''). Ok (toProcessResult result, sync'', io''))))"

definition Workload_runFromCommandLine ::
  "(Value \<Rightarrow> string) \<Rightarrow> WorkloadImplementation option \<Rightarrow> (ArgumentContainer \<Rightarrow> bool) \<Rightarrow> ArgumentContainer
    \<Rightarrow> string list \<Rightarrow> string \<Rightarrow> nat result" where
  "Workload_runFromCommandLine show_double implementation validateExtra own argv input =
     (case cla_parseArguments argv of
        Inl _ \<Rightarrow> Ok 1
      | Inr commandLineArguments \<Rightarrow>
          bindR (parseArguments (make_WorkloadArgumentContainer own) commandLineArguments)
            (\<lambda>(arguments, commandLineArguments').
              if getUnparsedArguments arguments \<noteq> [] \<or> getUnprocessedArguments commandLineArguments' \<noteq> []
              then Ok (toProcessResult InvalidArgs)
              else bindR (Workload_run show_double implementation validateExtra arguments input)
                     (\<lambda>(code, _, _). Ok code)))"

section \<open>Behaviour of the synchronization\<close>

lemma read_skipping_synchronizationChar [simp]:
  "sync_input io = synchronizationChar # rest \<Longrightarrow>
     read_skipping n io = Ok (synchronizationChar, io\<lparr>sync_input := rest\<rparr>)"
  by (cases n) (simp_all add: readSynchronizationChar_def synchronizationChar_def)

lemma writeSynchronizationChar_fields [simp]:
  "sync_input (writeSynchronizationChar io c) = sync_input io"
  "synchronizationPipeIn (writeSynchronizationChar io c) = synchronizationPipeIn io"
  "synchronizationPipeOut (writeSynchronizationChar io c) = synchronizationPipeOut io"
  "synchronizationPipeOut io \<noteq> 0 \<Longrightarrow>
     writeSynchronizationChar io c = io\<lparr>sync_output := sync_output io @ [synchronizationChar]\<rparr>"
  by (simp_all add: writeSynchronizationChar_def)

lemma synchronize_signalled:
  assumes "synchronizationEnabled sync" "synchronizationPipeOut io \<noteq> 0"
    and "sync_input io = synchronizationChar # rest"
    and "synchronizationCount sync \<noteq> expectedSynchronizationCount sync"
  shows "synchronize sync io =
    Ok (sync\<lparr>synchronizationCount := synchronizationCount sync + 1\<rparr>,
        io\<lparr>sync_input := rest, sync_output := sync_output io @ [synchronizationChar]\<rparr>)"
  using assms by (simp add: synchronize_def del: read_skipping.simps)

lemma readSynchronizationChar_pipe:
  assumes "readSynchronizationChar io = Ok (c, io')" "synchronizationPipeIn io \<noteq> 0"
  shows "c = synchronizationChar" "sync_input io = synchronizationChar # sync_input io'"
    "io' = io\<lparr>sync_input := sync_input io'\<rparr>"
  using assms by (auto simp: readSynchronizationChar_def FATAL_ERROR_IF_eq_Inr split: list.splits)

lemma read_skipping_pipe:
  assumes "read_skipping n io = Ok (c, io')" "synchronizationPipeIn io \<noteq> 0"
  shows "readSynchronizationChar io = Ok (c, io')"
  using assms
  by (cases n) (auto simp: bindR_eq_Inr synchronizationChar_def dest: readSynchronizationChar_pipe split: if_splits)

text \<open>What a successful call of \<open>synchronize\<close> through pipes has done.\<close>

lemma synchronize_pipe_Inr:
  assumes "synchronize sync io = Ok (sync', io')" "synchronizationEnabled sync"
    and "synchronizationPipeIn io \<noteq> 0" "synchronizationPipeOut io \<noteq> 0"
  shows "sync' = sync\<lparr>synchronizationCount := synchronizationCount sync + 1\<rparr>"
    and "sync_input io = synchronizationChar # sync_input io'"
    and "io' = io\<lparr>sync_output := sync_output io @ [synchronizationChar], sync_input := sync_input io'\<rparr>"
    and "synchronizationCount sync \<noteq> expectedSynchronizationCount sync"
proof -
  let ?io = "io\<lparr>sync_output := sync_output io @ [synchronizationChar]\<rparr>"
  have c: "synchronizationCount sync \<noteq> expectedSynchronizationCount sync"
    and s: "sync' = sync\<lparr>synchronizationCount := synchronizationCount sync + 1\<rparr>"
    and r: "\<exists>c. read_skipping (length (sync_input io)) ?io = Ok (c, io')"
    using assms by (auto simp: synchronize_def Let_def FATAL_ERROR_IF_eq_Inr bindR_eq_Inr)
  from r obtain c where "readSynchronizationChar ?io = Ok (c, io')"
    using assms read_skipping_pipe by (auto simp del: read_skipping.simps)
  from readSynchronizationChar_pipe [OF this] assms
  show "sync_input io = synchronizationChar # sync_input io'"
    "io' = io\<lparr>sync_output := sync_output io @ [synchronizationChar], sync_input := sync_input io'\<rparr>"
    by simp_all
qed (use assms in \<open>auto simp: synchronize_def Let_def FATAL_ERROR_IF_eq_Inr bindR_eq_Inr\<close>)

text \<open>
  The states reachable by calls of \<open>synchronize\<close> and by printing to the standard output: the only effects an implementation
  has on its descriptors.
\<close>

inductive synchronizes ::
  "WorkloadSynchronization \<Rightarrow> WorkloadIo \<Rightarrow> WorkloadSynchronization \<Rightarrow> WorkloadIo \<Rightarrow> bool" where
  synchronizes_refl: "synchronizes sync io sync io"
| synchronizes_step: "synchronizes sync io sync' io' \<Longrightarrow> synchronize sync' io' = Ok (sync'', io'')
    \<Longrightarrow> synchronizes sync io sync'' io''"
| synchronizes_print: "synchronizes sync io sync' io' \<Longrightarrow> synchronizes sync io sync' (io'\<lparr>stdout := text\<rparr>)"

lemma synchronizes_pipe:
  assumes "synchronizes sync io sync' io'" "synchronizationEnabled sync"
    and "synchronizationPipeIn io \<noteq> 0" "synchronizationPipeOut io \<noteq> 0"
    and "synchronizationCount sync = 0" "sync_output io = []"
    and "sync_input io = replicate (expectedSynchronizationCount sync) synchronizationChar"
  shows "synchronizationEnabled sync' \<and> expectedSynchronizationCount sync' = expectedSynchronizationCount sync \<and>
    synchronizationCount sync' \<le> expectedSynchronizationCount sync \<and>
    synchronizationPipeIn io' \<noteq> 0 \<and> synchronizationPipeOut io' \<noteq> 0 \<and>
    sync_output io' = replicate (synchronizationCount sync') synchronizationChar \<and>
    sync_input io' = replicate (expectedSynchronizationCount sync - synchronizationCount sync') synchronizationChar"
  using assms
proof (induction rule: synchronizes.induct)
  case (synchronizes_step sync io sync' io' sync'' io'')
  then have IH: "synchronizationEnabled sync'" "expectedSynchronizationCount sync' = expectedSynchronizationCount sync"
    "synchronizationCount sync' \<le> expectedSynchronizationCount sync"
    "synchronizationPipeIn io' \<noteq> 0" "synchronizationPipeOut io' \<noteq> 0"
    "sync_output io' = replicate (synchronizationCount sync') synchronizationChar"
    "sync_input io' = replicate (expectedSynchronizationCount sync - synchronizationCount sync') synchronizationChar"
    by blast+
  note p = synchronize_pipe_Inr [OF synchronizes_step.hyps(2) IH(1,4,5)]
  have "sync_input io'' = replicate (expectedSynchronizationCount sync - Suc (synchronizationCount sync')) synchronizationChar"
    using p(2) IH(7) by (cases "expectedSynchronizationCount sync - synchronizationCount sync'") 
      (auto simp: diff_Suc)
  moreover have "sync_output io'' = sync_output io' @ [synchronizationChar]"
    "synchronizationPipeIn io'' = synchronizationPipeIn io'" "synchronizationPipeOut io'' = synchronizationPipeOut io'"
    by (subst p(3), simp)+
  ultimately show ?case
    using p(1,4) IH by (simp add: replicate_append_same flip: replicate_Suc)
qed auto

lemma executeRemainingSynchronizations_signalled:
  assumes "synchronizationEnabled sync" "synchronizationPipeOut io \<noteq> 0"
    and "synchronizationCount sync + n = expectedSynchronizationCount sync"
    and "sync_input io = replicate n synchronizationChar @ rest"
  shows "executeRemainingSynchronizations sync io =
    Ok (sync\<lparr>synchronizationCount := expectedSynchronizationCount sync\<rparr>,
        io\<lparr>sync_input := rest, sync_output := sync_output io @ replicate n synchronizationChar\<rparr>)"
  using assms
proof (induction n arbitrary: sync io)
  case 0
  then show ?case by (subst executeRemainingSynchronizations.simps) simp
next
  case (Suc n)
  then show ?case
    by (subst executeRemainingSynchronizations.simps) (simp add: synchronize_signalled replicate_append_same)
qed

section \<open>A failed workload still synchronizes\<close>

definition workload_sync :: "ArgumentContainer \<Rightarrow> WorkloadSynchronization" where
  "workload_sync arguments =
     make_WorkloadSynchronization (nat (arg_int arguments ''iterations'')) (arg_int arguments ''synchronize'' \<noteq> 0)"

text \<open>
  C14: A workload that ends with any result but success has announced every iteration to the parent
  and consumed every signal of the parent, whatever it had done before it failed: started with
  pipes and as many signals as iterations, \<open>run\<close> returns the code of its result, has written
  exactly one synchronization character per iteration and left none unread. A parent waiting in
  \<open>synchronizeAll\<close> is therefore never left without an answer.
\<close>

theorem failed_workload_completes_synchronizations:
  assumes "arg_int arguments ''synchronize'' \<noteq> 0"
    and pipes: "wrap_i32 (arg_int arguments ''synchronizationPipeIn'') \<noteq> 0"
      "wrap_i32 (arg_int arguments ''synchronizationPipeOut'') \<noteq> 0"
    and input: "input = replicate (nat (arg_int arguments ''iterations'')) synchronizationChar"
    and impl: "Workload_runImpl implementation validateExtra arguments
         (make_WorkloadStatistics (nat (arg_int arguments ''iterations''))) (workload_sync arguments)
         (WorkloadIo_create arguments input) = Ok (result, stats, sync, io)"
    and syn: "synchronizes (workload_sync arguments) (WorkloadIo_create arguments input) sync io"
    and "result \<noteq> Success"
  shows "\<exists>sync' io'. Workload_run show_double implementation validateExtra arguments input =
           Ok (toProcessResult result, sync', io') \<and>
         WorkloadSynchronization_validate sync' \<and>
         sync_output io' = replicate (nat (arg_int arguments ''iterations'')) synchronizationChar \<and>
         sync_input io' = []"
proof -
  let ?n = "nat (arg_int arguments ''iterations'')"
  have n: "expectedSynchronizationCount (workload_sync arguments) = ?n"
    by (simp add: workload_sync_def make_WorkloadSynchronization_def)
  have p: "synchronizationEnabled sync \<and> expectedSynchronizationCount sync = ?n \<and>
    synchronizationCount sync \<le> ?n \<and> synchronizationPipeIn io \<noteq> 0 \<and> synchronizationPipeOut io \<noteq> 0 \<and>
    sync_output io = replicate (synchronizationCount sync) synchronizationChar \<and>
    sync_input io = replicate (?n - synchronizationCount sync) synchronizationChar"
    using synchronizes_pipe [OF syn] assms unfolding n
    by (simp add: workload_sync_def make_WorkloadSynchronization_def WorkloadIo_create_def)
  then have "executeRemainingSynchronizations sync io =
    Ok (sync\<lparr>synchronizationCount := ?n\<rparr>,
        io\<lparr>sync_input := [], sync_output := sync_output io @ replicate (?n - synchronizationCount sync) synchronizationChar\<rparr>)"
    using executeRemainingSynchronizations_signalled [of sync io "?n - synchronizationCount sync" "[]"] by simp
  with p assms show ?thesis
    unfolding Workload_run_def workload_sync_def [symmetric] Let_def
    by (simp add: WorkloadSynchronization_validate_def flip: replicate_add)
qed

text \<open>A workload of 3 iterations on the pipes 5 and 6.\<close>

definition example_workload_arguments :: ArgumentContainer where
  "example_workload_arguments = foldl assign_field (make_WorkloadArgumentContainer [])
     [(''iterations'', Arg_PositiveInteger 3), (''synchronize'', Arg_Boolean 1),
      (''synchronizationPipeIn'', Arg_Integer 5), (''synchronizationPipeOut'', Arg_Integer 6)]"

lemma Workload_runImpl_None:
  "Workload_runImpl None validateExtra arguments stats sync io = Ok (NoImplementation, stats, sync, io)"
  by (simp add: Workload_runImpl_def)

lemma example_workload_values:
  "arg_int example_workload_arguments ''iterations'' = 3"
  "arg_int example_workload_arguments ''synchronize'' = 1"
  "wrap_i32 (arg_int example_workload_arguments ''synchronizationPipeIn'') = 5"
  "wrap_i32 (arg_int example_workload_arguments ''synchronizationPipeOut'') = 6"
  by code_simp+

theorem failed_workload_completes_synchronizations_witness:
  "\<exists>sync' io'. Workload_run (\<lambda>_. ''0'') None (\<lambda>_. True) example_workload_arguments ''$$$'' =
      Ok (8, sync', io') \<and> WorkloadSynchronization_validate sync' \<and> sync_output io' = ''$$$'' \<and> sync_input io' = []"
  using failed_workload_completes_synchronizations [of example_workload_arguments "''$$$''" None "\<lambda>_. True"
      NoImplementation "make_WorkloadStatistics 3" "workload_sync example_workload_arguments"
      "WorkloadIo_create example_workload_arguments ''$$$''" "\<lambda>_. ''0''"]
  by (simp add: example_workload_values Workload_runImpl_None synchronizes_refl toProcessResult_def
      synchronizationChar_def numeral_3_eq_3)

end
