(* ===== verification/Process_Group.thy ===== *)
theory Process_Group
  imports Workload
begin

text \<open>
  The parent side of multi-process benchmarks: \<open>framework/utility/process.cpp\<close>,
  \<open>linux/process_linux.cpp\<close> and \<open>process_group.cpp\<close>.

  The operating system is seen through its results: the descriptors \<open>pipe\<close> hands out, the statuses
  \<open>waitpid\<close> reports and the contents of the pipes are part of the state \<open>ProcessDataLinux\<close> or
  arguments. A failing \<open>close\<close>, \<open>dup2\<close>, \<open>setenv\<close>, \<open>fcntl\<close> or \<open>execve\<close> ends the process concerned and is
  not modelled. Exit codes are the integers behind the enumeration \<open>TestResult\<close>, as a child may
  return one that is no enumerator.

  The lockstep of \<open>synchronizeAll\<close> with \<open>WorkloadSynchronization::synchronize\<close> in the children is the
  step relation of the theory \<open>Barrier\<close>.
\<close>

section \<open>Process\<close>

datatype wait_status = Exited int | Signaled | Stopped | Continued

record ProcessDataLinux =
  parentToChild :: string
  childToParent :: string
  measurementData :: string
  stdOutData :: string
  childPid :: int
  waitpidResults :: "(int \<times> wait_status) list"
  ended :: bool
  pd_result :: int
  hasStdOut :: bool
  stdOut :: string
  hasMeasurements :: bool
  pd_measurements :: string

record Process =
  exeName :: string
  proc_arguments :: "(string \<times> string) list"
  envVariables :: "(string \<times> string) list"
  handlesForInheritance :: "int list"
  osSpecificData :: "ProcessDataLinux option"
  processName :: string

definition make_Process :: "string \<Rightarrow> Process" where
  "make_Process exe = \<lparr>exeName = exe, proc_arguments = [(exe, [])], envVariables = [],
     handlesForInheritance = [], osSpecificData = None, processName = []\<rparr>"

text \<open>The move constructor: the handles and the name of the source are not taken over.\<close>

definition move_Process :: "Process \<Rightarrow> Process" where
  "move_Process other = \<lparr>exeName = exeName other, proc_arguments = proc_arguments other,
     envVariables = envVariables other, handlesForInheritance = [],
     osSpecificData = osSpecificData other, processName = []\<rparr>"

text \<open>The move assignment: the handles and the name of the target stay.\<close>

definition move_assign_Process :: "Process \<Rightarrow> Process \<Rightarrow> Process" where
  "move_assign_Process this other = this\<lparr>exeName := exeName other, proc_arguments := proc_arguments other,
     envVariables := envVariables other, osSpecificData := osSpecificData other\<rparr>"

definition addArgument :: "Process \<Rightarrow> string \<Rightarrow> string \<Rightarrow> Process" where
  "addArgument p k v = p\<lparr>proc_arguments := proc_arguments p @ [(''--'' @ k, v)]\<rparr>"

definition addEnvVariable :: "Process \<Rightarrow> string \<Rightarrow> string \<Rightarrow> Process" where
  "addEnvVariable p k v = p\<lparr>envVariables := envVariables p @ [(k, v)]\<rparr>"

definition addHandleForInheritance :: "Process \<Rightarrow> int \<Rightarrow> Process" where
  "addHandleForInheritance p h = p\<lparr>handlesForInheritance := handlesForInheritance p @ [h]\<rparr>"

definition setName :: "Process \<Rightarrow> string \<Rightarrow> Process" where
  "setName p s = p\<lparr>processName := s\<rparr>"

section \<open>Starting a child\<close>

text \<open>What the calls of \<open>pipe\<close> and \<open>fork\<close> give the parent: an error, or the child's ends of the pipes.\<close>

record pipe_ends =
  fd_parentToChild_read :: int
  fd_childToParent_write :: int
  fd_measurement_write :: int

datatype run_outcome = Pipe_failed | Fork_failed | Forked int pipe_ends

definition argument_for_exec :: "string \<times> string \<Rightarrow> string" where
  "argument_for_exec argument =
     fst argument @ (if snd argument \<noteq> [] then ''='' @ snd argument else [])"

record exec_image =
  img_path :: string
  img_argv :: "string list"
  img_env :: "(string \<times> string) list"
  img_inherited :: "int list"

text \<open>The branch of the child: the copy of the process it runs on and the image it loads.\<close>

definition child_image :: "Process \<Rightarrow> pipe_ends \<Rightarrow> exec_image" where
  "child_image p0 fds =
     (let p1 = addArgument p0 ''synchronizationPipeIn'' (to_string (fd_parentToChild_read fds));
          p2 = addArgument p1 ''synchronizationPipeOut'' (to_string (fd_childToParent_write fds));
          p3 = addArgument p2 ''measurementPipe'' (to_string (fd_measurement_write fds))
      in \<lparr>img_path = exeName p3, img_argv = map argument_for_exec (proc_arguments p3),
          img_env = envVariables p3, img_inherited = handlesForInheritance p3\<rparr>)"

definition make_ProcessDataLinux :: "int \<Rightarrow> ProcessDataLinux" where
  "make_ProcessDataLinux pid = \<lparr>parentToChild = [], childToParent = [], measurementData = [], stdOutData = [],
     childPid = pid, waitpidResults = [], ended = False, pd_result = int (TestResult_code Error),
     hasStdOut = False, stdOut = [], hasMeasurements = False, pd_measurements = []\<rparr>"

definition Process_run :: "Process \<Rightarrow> run_outcome \<Rightarrow> (Process \<times> exec_image) result" where
  "Process_run p os =
     (case os of
        Pipe_failed \<Rightarrow> FATAL_ERROR ''Creating pipe failed, ''
      | Fork_failed \<Rightarrow> FATAL_ERROR ''Creating process failed''
      | Forked pid fds \<Rightarrow> Ok (p\<lparr>osSpecificData := Some (make_ProcessDataLinux pid)\<rparr>, child_image p fds))"

section \<open>Waiting for a child\<close>

text \<open>
  The loop around \<open>waitpid\<close> over the results it returns in turn; when no child is left, \<open>waitpid\<close>
  fails. A child that was continued is waited for again.
\<close>

fun waitpid_loop :: "int \<Rightarrow> (int \<times> wait_status) list \<Rightarrow> (int \<times> (int \<times> wait_status) list) result" where
  "waitpid_loop pid [] = FATAL_ERROR ''waitpid() returned an error, ''"
| "waitpid_loop pid ((p, status) # rest) =
     FATAL_ERROR_IF (p = -1) ''waitpid() returned an error, ''
    (FATAL_ERROR_IF (p \<noteq> pid) ''waitpid() signalled from wrong child process''
    (FATAL_ERROR_IF (status = Signaled) ''child process killed by signal''
    (FATAL_ERROR_IF (status = Stopped) ''child process stopped by signal''
     (case status of
        Exited code \<Rightarrow> Ok (code mod 256, rest)
      | _ \<Rightarrow> waitpid_loop pid rest))))"

definition waitForFinish_data :: "ProcessDataLinux \<Rightarrow> ProcessDataLinux result" where
  "waitForFinish_data d =
     (if ended d then Ok d
      else bindR (waitpid_loop (childPid d) (waitpidResults d)) (\<lambda>(r, rest).
             Ok (d\<lparr>pd_result := r, waitpidResults := rest, ended := True\<rparr>)))"

text \<open>Every operation on a child dereferences \<open>osSpecificData\<close>, which is null before \<open>run\<close>.\<close>

definition with_data :: "Process \<Rightarrow> (ProcessDataLinux \<Rightarrow> ('a \<times> ProcessDataLinux) result) \<Rightarrow> ('a \<times> Process) result" where
  "with_data p f =
     (case osSpecificData p of
        None \<Rightarrow> Inl (Undefined_behaviour ''null pointer'')
      | Some d \<Rightarrow> bindR (f d) (\<lambda>(x, d'). Ok (x, p\<lparr>osSpecificData := Some d'\<rparr>)))"

definition waitForFinish :: "Process \<Rightarrow> (unit \<times> Process) result" where
  "waitForFinish p = with_data p (\<lambda>d. bindR (waitForFinish_data d) (\<lambda>d'. Ok ((), d')))"

definition getResult :: "Process \<Rightarrow> (int \<times> Process) result" where
  "getResult p = with_data p (\<lambda>d. bindR (waitForFinish_data d) (\<lambda>d'. Ok (pd_result d', d')))"

function readEntirePipe :: "string \<Rightarrow> string" where
  "readEntirePipe pipe = (if pipe = [] then [] else take 1024 pipe @ readEntirePipe (drop 1024 pipe))"
  by pat_completeness auto
termination by (relation "measure length") auto

declare readEntirePipe.simps [simp del]

definition getStdout :: "Process \<Rightarrow> (string \<times> Process) result" where
  "getStdout p = with_data p (\<lambda>d.
     if hasStdOut d then Ok (stdOut d, d)
     else bindR (waitForFinish_data d) (\<lambda>d'.
            let d'' = d'\<lparr>stdOut := readEntirePipe (stdOutData d'), stdOutData := [], hasStdOut := True\<rparr>
            in Ok (stdOut d'', d'')))"

definition getMeasurements_text :: "Process \<Rightarrow> (string \<times> Process) result" where
  "getMeasurements_text p = with_data p (\<lambda>d.
     if hasMeasurements d then Ok (pd_measurements d, d)
     else bindR (waitForFinish_data d) (\<lambda>d'.
            let d'' = d'\<lparr>pd_measurements := readEntirePipe (measurementData d'), measurementData := [],
                         hasMeasurements := True\<rparr>
            in Ok (pd_measurements d'', d'')))"

text \<open>\<open>atoll\<close> is \<open>atol\<close> on the platforms where both types have 64 bits; the result becomes unsigned.\<close>

definition getMeasurements :: "Process \<Rightarrow> nat \<Rightarrow> (int list \<times> Process) result" where
  "getMeasurements p expectedCount =
     bindR (getMeasurements_text p) (\<lambda>(text, p').
       let dataSplit = splitString text
       in FATAL_ERROR_IF (length dataSplit \<noteq> expectedCount)
            ''Child process returned an invalid number of measurements''
           (bindR (mapM (\<lambda>s. bindR (atol s) (\<lambda>m. Ok (wrap_u64 m))) dataSplit) (\<lambda>ms. Ok (ms, p'))))"

definition signal_data :: "ProcessDataLinux \<Rightarrow> ProcessDataLinux" where
  "signal_data d = d\<lparr>parentToChild := parentToChild d @ [synchronizationChar]\<rparr>"

definition synchronizationSignal :: "Process \<Rightarrow> (unit \<times> Process) result" where
  "synchronizationSignal p = with_data p (\<lambda>d. Ok ((), signal_data d))"

text \<open>An empty pipe stands for one whose writer is gone; a live writer is waited for.\<close>

definition wait_data :: "ProcessDataLinux \<Rightarrow> ProcessDataLinux result" where
  "wait_data d =
     (case childToParent d of
        [] \<Rightarrow> FATAL_ERROR ''No character was read when waiting on a child process''
      | buffer # rest \<Rightarrow>
          FATAL_ERROR_IF (buffer \<noteq> synchronizationChar)
            (''Invalid synchronization received from child process: '' @ [CHR 0x27, buffer, CHR 0x27])
            (Ok (d\<lparr>childToParent := rest\<rparr>)))"

definition synchronizationWait :: "Process \<Rightarrow> (unit \<times> Process) result" where
  "synchronizationWait p = with_data p (\<lambda>d. bindR (wait_data d) (\<lambda>d'. Ok ((), d')))"

section \<open>ProcessGroup\<close>

record ProcessGroup =
  binaryName :: string
  processes :: "Process list"

definition make_ProcessGroup :: "string \<Rightarrow> nat \<Rightarrow> ProcessGroup" where
  "make_ProcessGroup name n =
     \<lparr>binaryName = name, processes = map (\<lambda>_. make_Process name) [0..<n]\<rparr>"

definition addArgumentAll :: "ProcessGroup \<Rightarrow> string \<Rightarrow> string \<Rightarrow> ProcessGroup" where
  "addArgumentAll g k v = g\<lparr>processes := map (\<lambda>p. addArgument p k v) (processes g)\<rparr>"

definition addEnvVariableAll :: "ProcessGroup \<Rightarrow> string \<Rightarrow> string \<Rightarrow> ProcessGroup" where
  "addEnvVariableAll g k v = g\<lparr>processes := map (\<lambda>p. addEnvVariable p k v) (processes g)\<rparr>"

text \<open>A loop over the processes that changes each in turn and stops at the first exception.\<close>

definition for_all :: "(Process \<Rightarrow> ('a \<times> Process) result) \<Rightarrow> ProcessGroup \<Rightarrow> ('a list \<times> ProcessGroup) result" where
  "for_all f g = bindR (mapM f (processes g)) (\<lambda>rs. Ok (map fst rs, g\<lparr>processes := map snd rs\<rparr>))"

text \<open>\<open>outcomes\<close> holds what the operating system answers to each of the processes started.\<close>

definition runAll :: "ProcessGroup \<Rightarrow> run_outcome list \<Rightarrow> (exec_image list \<times> ProcessGroup) result" where
  "runAll g outcomes =
     bindR (mapM (\<lambda>(p, os). Process_run p os) (zip (processes g) outcomes)) (\<lambda>rs.
       Ok (map snd rs, g\<lparr>processes := map fst rs\<rparr>))"

text \<open>
  The calls \<open>synchronizeAll\<close> makes in one iteration, on the pipes as they are; between the calls the
  children run, see the theory \<open>Barrier\<close>.
\<close>

definition synchronizeAll_iteration :: "ProcessGroup \<Rightarrow> ProcessGroup result" where
  "synchronizeAll_iteration g =
     bindR (for_all synchronizationWait g) (\<lambda>(_, g').
     bindR (for_all synchronizationSignal g') (\<lambda>(_, g''). Ok g''))"

definition waitForFinishAll :: "ProcessGroup \<Rightarrow> ProcessGroup result" where
  "waitForFinishAll g = bindR (for_all waitForFinish g) (\<lambda>(_, g'). Ok g')"

fun getResult_loop :: "Process list \<Rightarrow> (int \<times> Process list) result" where
  "getResult_loop [] = Ok (int (TestResult_code Success), [])"
| "getResult_loop (p # ps) =
     bindR (getResult p) (\<lambda>(r, p').
       if r \<noteq> int (TestResult_code Success) then Ok (r, p' # ps)
       else bindR (getResult_loop ps) (\<lambda>(r', ps'). Ok (r', p' # ps')))"

definition getResultAll :: "ProcessGroup \<Rightarrow> (int \<times> ProcessGroup) result" where
  "getResultAll g = bindR (getResult_loop (processes g)) (\<lambda>(r, ps). Ok (r, g\<lparr>processes := ps\<rparr>))"

text \<open>
  \<open>std::chrono::nanoseconds(measurement)\<close> converts the unsigned count to a signed one. The virtual
  \<open>pushValue\<close> of the statistics is the argument \<open>push\<close>.
\<close>

definition push_nanoseconds ::
  "('s \<Rightarrow> Measurement \<Rightarrow> 's result) \<Rightarrow> MeasurementUnit \<Rightarrow> MeasurementType \<Rightarrow> string \<Rightarrow> 's \<Rightarrow> int \<Rightarrow> 's result" where
  "push_nanoseconds push unit type desc s measurement = push s (pushTime (wrap_i64 measurement) unit type desc)"

text \<open>The inner loop over the measurements of one process, with \<open>averagedMeasurements\<close> beside them.\<close>

fun push_process_loop ::
  "('s \<Rightarrow> int \<Rightarrow> 's result) \<Rightarrow> bool \<Rightarrow> bool \<Rightarrow> int list \<Rightarrow> int list \<Rightarrow> 's \<Rightarrow> ('s \<times> int list) result" where
  "push_process_loop push1 individual averaged (m # ms) (a # avg) s =
     bindR (if individual then push1 s m else Ok s) (\<lambda>s'.
     bindR (push_process_loop push1 individual averaged ms avg s') (\<lambda>(s'', avg').
       Ok (s'', (if averaged then wrap_u64 (a + m) else a) # avg')))"
| "push_process_loop push1 individual averaged _ avg s = Ok (s, avg)"

fun push_processes_loop ::
  "(string \<Rightarrow> 's \<Rightarrow> int \<Rightarrow> 's result) \<Rightarrow> nat \<Rightarrow> bool \<Rightarrow> bool \<Rightarrow> Process list \<Rightarrow> int list \<Rightarrow> 's
    \<Rightarrow> ('s \<times> int list \<times> Process list) result" where
  "push_processes_loop push1 expectedCount individual averaged [] avg s = Ok (s, avg, [])"
| "push_processes_loop push1 expectedCount individual averaged (p # ps) avg s =
     bindR (getMeasurements p expectedCount) (\<lambda>(ms, p').
     bindR (push_process_loop (push1 (processName p)) individual averaged ms avg s) (\<lambda>(s', avg').
     bindR (push_processes_loop push1 expectedCount individual averaged ps avg' s') (\<lambda>(s'', avg'', ps').
       Ok (s'', avg'', p' # ps'))))"

definition pushMeasurementsToStatistics ::
  "('s \<Rightarrow> Measurement \<Rightarrow> 's result) \<Rightarrow> ProcessGroup \<Rightarrow> nat \<Rightarrow> 's \<Rightarrow> MeasurementUnit \<Rightarrow> MeasurementType \<Rightarrow> bool \<Rightarrow> bool
    \<Rightarrow> ('s \<times> ProcessGroup) result" where
  "pushMeasurementsToStatistics push g expectedCount stats unit type individual averaged =
     bindR (push_processes_loop (push_nanoseconds push unit type) expectedCount individual averaged
              (processes g) (replicate expectedCount 0) stats) (\<lambda>(s, avg, ps).
     if \<not> averaged then Ok (s, g\<lparr>processes := ps\<rparr>)
     else if processes g = [] \<and> avg \<noteq> [] then Inl (Undefined_behaviour ''division by zero'')
     else bindR (foldM (\<lambda>s a. push_nanoseconds push unit type [] s (a div int (length (processes g)))) s avg)
            (\<lambda>s'. Ok (s', g\<lparr>processes := ps\<rparr>)))"

definition ProcessGroup_at :: "ProcessGroup \<Rightarrow> nat \<Rightarrow> Process result" where
  "ProcessGroup_at g index =
     FATAL_ERROR_IF (length (processes g) \<le> index) ''Invalid process index'' (Ok (processes g ! index))"

definition ProcessGroup_size :: "ProcessGroup \<Rightarrow> nat" where
  "ProcessGroup_size g = length (processes g)"

section \<open>Reading a child's results\<close>

lemma readEntirePipe_all [simp]: "readEntirePipe s = s"
  by (induction s rule: readEntirePipe.induct) (subst readEntirePipe.simps, simp)

text \<open>A child that exits, possibly continued before, and has not been waited for yet.\<close>

definition exits_with :: "ProcessDataLinux \<Rightarrow> int \<Rightarrow> bool" where
  "exits_with d code \<longleftrightarrow> \<not> ended d \<and> childPid d \<noteq> -1 \<and>
     (\<exists>n rest. waitpidResults d = replicate n (childPid d, Continued) @ (childPid d, Exited code) # rest)"

lemma waitpid_loop_exits:
  "pid \<noteq> -1 \<Longrightarrow> waitpid_loop pid (replicate n (pid, Continued) @ (pid, Exited code) # rest) = Ok (code mod 256, rest)"
  by (induction n) auto

lemma waitForFinish_data_exits:
  assumes "exits_with d code"
  obtains d' where "waitForFinish_data d = Ok d'" "pd_result d' = code mod 256" "ended d'"
    "measurementData d' = measurementData d" "hasMeasurements d' = hasMeasurements d"
  using assms by (auto simp: exits_with_def waitForFinish_data_def waitpid_loop_exits)

lemma getMeasurements_exits:
  assumes "osSpecificData p = Some d" "exits_with d code" "\<not> hasMeasurements d"
    and "measurementData d = concat (map (\<lambda>t. to_string t @ '' '') ts)"
    and "\<forall>t \<in> set ts. in_i64 t" "length ts = n"
  shows "\<exists>p'. getMeasurements p n = Ok (map wrap_u64 ts, p')"
proof -
  obtain d' where d': "waitForFinish_data d = Ok d'" "measurementData d' = measurementData d"
    by (rule waitForFinish_data_exits [OF assms(2)]) blast
  have "splitString (measurementData d) = map to_string ts"
    using splitString_terminated [of "map to_string ts"] assms(4)
    by (simp add: comp_def list_all_iff is_token_def to_string_not_space)
  moreover have "mapM (\<lambda>s. bindR (atol s) (\<lambda>m. Ok (wrap_u64 m))) (map to_string ts) = Ok (map wrap_u64 ts)"
    using assms(5) by (induction ts) auto
  ultimately show ?thesis
    using assms d' by (simp add: getMeasurements_def getMeasurements_text_def with_data_def Let_def)
qed

text \<open>A child that exits after it wrote the times \<open>ts\<close> to its measurement pipe.\<close>

definition reports :: "Process \<Rightarrow> int list \<Rightarrow> bool" where
  "reports p ts \<longleftrightarrow> (\<exists>d code. osSpecificData p = Some d \<and> exits_with d code \<and> \<not> hasMeasurements d \<and>
     measurementData d = concat (map (\<lambda>t. to_string t @ '' '') ts) \<and> (\<forall>t \<in> set ts. in_i64 t))"

lemma reports_getMeasurements:
  assumes "reports p ts"
  obtains p' where "getMeasurements p (length ts) = Ok (map wrap_u64 ts, p')"
  using assms getMeasurements_exits unfolding reports_def by blast

lemma push_nanoseconds_foldM:
  "\<forall>t \<in> set ts. in_i64 t \<Longrightarrow>
     foldM (push_nanoseconds push unit type desc) s (map wrap_u64 ts) =
     foldM push s (map (\<lambda>t. pushTime t unit type desc) ts)"
  by (induction ts arbitrary: s) (auto simp: push_nanoseconds_def)

lemma push_process_loop_eq:
  "length ms = length avg \<Longrightarrow>
     push_process_loop push1 individual averaged ms avg s =
     bindR (foldM push1 s (if individual then ms else [])) (\<lambda>s'.
       Ok (s', if averaged then map2 (\<lambda>a m. wrap_u64 (a + m)) avg ms else avg))"
proof (induction push1 individual averaged ms avg s rule: push_process_loop.induct)
  case (1 push1 individual averaged m ms a avg s)
  then show ?case by (cases individual) (auto simp: bindR_assoc)
qed auto

text \<open>The sum of the \<open>k\<close>-th entries of the rows, modulo \<open>2 ^ 64\<close>, on top of what was there.\<close>

definition column_sum :: "int list list \<Rightarrow> nat \<Rightarrow> int" where
  "column_sum tss k = sum_list (map (\<lambda>ts. ts ! k) tss)"

lemma column_sum_simps [simp]: "column_sum [] k = 0" "column_sum (ts # tss) k = ts ! k + column_sum tss k"
  by (simp_all add: column_sum_def)

lemma wrap_u64_add [simp]:
  "wrap_u64 (wrap_u64 a + b) = wrap_u64 (a + b)" "wrap_u64 (a + wrap_u64 b) = wrap_u64 (a + b)"
  by (simp_all add: wrap_u64_def mod_simps)

lemma map2_upt:
  "length xs = n \<Longrightarrow> map2 f (map h [0..<n]) (map g xs) = map (\<lambda>k. f (h k) (g (xs ! k))) [0..<n]"
  by (rule nth_equalityI) auto

definition individual_measurements ::
  "MeasurementUnit \<Rightarrow> MeasurementType \<Rightarrow> bool \<Rightarrow> Process list \<Rightarrow> int list list \<Rightarrow> Measurement list" where
  "individual_measurements unit type individual ps tss =
     (if individual then concat (map2 (\<lambda>p ts. map (\<lambda>t. pushTime t unit type (processName p)) ts) ps tss) else [])"

lemma push_processes_loop_eq:
  assumes "list_all2 reports ps tss" "\<forall>ts \<in> set tss. length ts = n"
  shows "\<exists>ps'. \<forall>s. push_processes_loop (push_nanoseconds push unit type) n individual averaged ps
             (map (\<lambda>k. wrap_u64 (h k)) [0..<n]) s =
           bindR (foldM push s (individual_measurements unit type individual ps tss)) (\<lambda>s'.
             Ok (s', map (\<lambda>k. wrap_u64 (h k + (if averaged then column_sum tss k else 0))) [0..<n], ps'))"
  using assms
proof (induction arbitrary: h rule: list_all2_induct)
  case Nil
  then show ?case by (simp add: individual_measurements_def)
next
  case (Cons p ps ts tss)
  obtain p' where p': "getMeasurements p n = Ok (map wrap_u64 ts, p')"
    using reports_getMeasurements [OF Cons.hyps(1)] Cons.prems by auto
  let ?h = "\<lambda>k. h k + (if averaged then ts ! k else 0)"
  let ?own = "map (\<lambda>t. pushTime t unit type (processName p)) (if individual then ts else [])"
  have own: "\<And>s. foldM (push_nanoseconds push unit type (processName p)) s (if individual then map wrap_u64 ts else []) =
      foldM push s ?own"
    using push_nanoseconds_foldM [of ts push unit type "processName p"] Cons.hyps(1) by (auto simp: reports_def)
  have "\<And>s. push_process_loop (push_nanoseconds push unit type (processName p)) individual averaged (map wrap_u64 ts)
      (map (\<lambda>k. wrap_u64 (h k)) [0..<n]) s = bindR (foldM push s ?own) (\<lambda>s'. Ok (s', map (\<lambda>k. wrap_u64 (?h k)) [0..<n]))"
    using Cons.prems by (auto simp: push_process_loop_eq own map2_upt)
  moreover obtain ps' where "\<forall>s. push_processes_loop (push_nanoseconds push unit type) n individual averaged ps
      (map (\<lambda>k. wrap_u64 (?h k)) [0..<n]) s = bindR (foldM push s (individual_measurements unit type individual ps tss))
      (\<lambda>s''. Ok (s'', map (\<lambda>k. wrap_u64 (?h k + (if averaged then column_sum tss k else 0))) [0..<n], ps'))"
    using Cons.IH [of ?h] Cons.prems by auto
  ultimately show ?case
    using p'
    by (intro exI [of _ "p' # ps'"]; cases individual; cases averaged)
      (simp_all add: individual_measurements_def foldM_append bindR_assoc add.assoc)
qed

text \<open>
  C15: \<open>ProcessGroup::pushMeasurementsToStatistics\<close>, for children that each reported \<open>n\<close> times (\<open>tss\<close>,
  one row per process): the statistics receive, in this order, each process's times under its
  name, when individual measurements are asked for, and then the \<open>n\<close> averages over the processes,
  rounded down, when averages are asked for, and nothing else. The sums are exact as long as no
  column of times reaches \<open>2 ^ 63\<close>.
\<close>

theorem pushMeasurementsToStatistics_spec:
  assumes "list_all2 reports (processes g) tss" "tss \<noteq> []" "\<forall>ts \<in> set tss. length ts = n"
    and "\<forall>k < n. 0 \<le> column_sum tss k \<and> column_sum tss k < 2 ^ 63"
  shows "\<exists>ps. \<forall>s. pushMeasurementsToStatistics push g n s unit type individual averaged =
    bindR (foldM push s
      ((if individual then concat (map2 (\<lambda>p ts. map (\<lambda>t. pushTime t unit type (processName p)) ts) (processes g) tss)
        else []) @
       (if averaged then map (\<lambda>k. pushTime (column_sum tss k div int (length (processes g))) unit type []) [0..<n]
        else [])))
      (\<lambda>s'. Ok (s', g\<lparr>processes := ps\<rparr>))"
proof -
  let ?N = "int (length (processes g))"
  have N: "?N > 0" using assms(1,2) by (auto simp: list_all2_iff)
  have small: "in_i64 (column_sum tss k div ?N)" if "k < n" for k
  proof -
    have "0 \<le> column_sum tss k div ?N" "column_sum tss k div ?N \<le> column_sum tss k"
      using assms(4) that N zdiv_mono2 [of "column_sum tss k" 1 ?N] by (auto simp: pos_imp_zdiv_nonneg_iff Suc_le_eq)
    then show ?thesis using assms(4) that by (auto simp: in_i64_def)
  qed
  have avg: "foldM (\<lambda>s a. push_nanoseconds push unit type [] s (a div ?N)) s (map (\<lambda>k. wrap_u64 (column_sum tss k)) ks) =
      foldM push s (map (\<lambda>k. pushTime (column_sum tss k div ?N) unit type []) ks)" if "set ks \<subseteq> {0..<n}" for s ks
    using that assms(4) small
    by (induction ks arbitrary: s) (auto simp: push_nanoseconds_def wrap_u64_def)
  from push_processes_loop_eq [OF assms(1,3), of push unit type individual averaged "\<lambda>_. 0"]
  obtain ps where "\<forall>s. push_processes_loop (push_nanoseconds push unit type) n individual averaged (processes g)
      (replicate n 0) s = bindR (foldM push s (individual_measurements unit type individual (processes g) tss)) (\<lambda>s'.
      Ok (s', map (\<lambda>k. wrap_u64 (if averaged then column_sum tss k else 0)) [0..<n], ps))"
    by (auto simp: wrap_u64_def map_replicate_const)
  then show ?thesis
    using N avg [of "[0..<n]"]
    by (intro exI [of _ ps]; cases averaged)
      (auto simp: pushMeasurementsToStatistics_def foldM_append bindR_assoc individual_measurements_def)
qed

text \<open>Two children that measured three iterations each.\<close>

definition example_child :: "string \<Rightarrow> int \<Rightarrow> string \<Rightarrow> int \<Rightarrow> Process" where
  "example_child name pid text code =
     setName ((make_Process ''./workload'')\<lparr>osSpecificData :=
       Some ((make_ProcessDataLinux pid)\<lparr>measurementData := text, waitpidResults := [(pid, Exited code)]\<rparr>)\<rparr>) name"

definition example_group :: ProcessGroup where
  "example_group = \<lparr>binaryName = ''./workload'',
     processes = [example_child ''first'' 11 ''10 20 30 '' 0, example_child ''second'' 12 ''20 31 40 '' 0]\<rparr>"

lemma example_child_reports:
  assumes "text = concat (map (\<lambda>t. to_string t @ '' '') ts)" "\<forall>t \<in> set ts. in_i64 t" "pid \<noteq> -1"
  shows "reports (example_child name pid text code) ts"
  using assms
  unfolding reports_def
  by (intro exI [of _ code] exI)
    (auto simp: example_child_def setName_def make_Process_def make_ProcessDataLinux_def exits_with_def Cons_eq_append_conv)

lemma example_group_reports: "list_all2 reports (processes example_group) [[10, 20, 30], [20, 31, 40]]"
proof -
  have "''10 20 30 '' = concat (map (\<lambda>t. to_string t @ '' '') [10, 20, 30])"
    "''20 31 40 '' = concat (map (\<lambda>t. to_string t @ '' '') [20, 31, 40])"
    by code_simp+
  then show ?thesis
    using example_child_reports [of "''10 20 30 ''" "[10, 20, 30]" 11 "''first''" 0]
      example_child_reports [of "''20 31 40 ''" "[20, 31, 40]" 12 "''second''" 0]
    by (simp only: example_group_def) (simp add: in_i64_def)
qed

theorem pushMeasurementsToStatistics_spec_witness:
  "\<exists>ps. \<forall>s. pushMeasurementsToStatistics (TestCaseStatistics_push False) example_group 3 s Nanoseconds Gpu True True =
    bindR (foldM (TestCaseStatistics_push False) s
      (map (\<lambda>t. pushTime t Nanoseconds Gpu ''first'') [10, 20, 30] @
       map (\<lambda>t. pushTime t Nanoseconds Gpu ''second'') [20, 31, 40] @
       map (\<lambda>t. pushTime t Nanoseconds Gpu []) [15, 25, 35]))
      (\<lambda>s'. Ok (s', example_group\<lparr>processes := ps\<rparr>))"
  using pushMeasurementsToStatistics_spec [OF example_group_reports, of 3 "TestCaseStatistics_push False" Nanoseconds
      Gpu True True]
  by (simp add: example_group_def example_child_def setName_def upt_rec less_Suc_eq numeral_3_eq_3)

section \<open>The result of a group\<close>

lemma getResult_exits:
  assumes "osSpecificData p = Some d" "exits_with d code"
  obtains p' where "getResult p = Ok (code mod 256, p')"
proof -
  obtain d' where "waitForFinish_data d = Ok d'" "pd_result d' = code mod 256"
    by (rule waitForFinish_data_exits [OF assms(2)]) blast
  with assms(1) show thesis by (intro that) (simp add: getResult_def with_data_def)
qed

lemma getResult_loop_exits:
  assumes "list_all2 (\<lambda>p r. \<exists>d. osSpecificData p = Some d \<and> exits_with d (int (toProcessResult r))) ps rs"
  shows "\<exists>ps'. getResult_loop ps =
    Ok (int (TestResult_code (case filter (\<lambda>r. r \<noteq> Success) rs of [] \<Rightarrow> Success | r # _ \<Rightarrow> r)), ps')"
  using assms
proof (induction rule: list_all2_induct)
  case (Cons p ps r rs)
  have code: "int (toProcessResult r) mod 256 = int (TestResult_code r)"
    and "int (TestResult_code r) = 0 \<longleftrightarrow> r = Success"
    by (cases r; simp add: toProcessResult_def)+
  moreover obtain p' where "getResult p = Ok (int (TestResult_code r), p')"
    using Cons.hyps(1) getResult_exits code by metis
  ultimately show ?case using Cons.IH by auto
qed simp

text \<open>
  when every child of a group exits with the code of a result, \<open>getResultAll\<close> returns the first
  result, in the order of the processes, that is not a success, and success if there is none. No
  result is changed by the passage through an exit code, of which the parent sees eight bits.
\<close>

lemma getResultAll_first_failure:
  assumes "list_all2 (\<lambda>p r. \<exists>d. osSpecificData p = Some d \<and> exits_with d (int (toProcessResult r))) (processes g) rs"
  shows "\<exists>g' r. getResultAll g = Ok (int (TestResult_code r), g') \<and>
    r = (case filter (\<lambda>r. r \<noteq> Success) rs of [] \<Rightarrow> Success | r # _ \<Rightarrow> r)"
  using getResult_loop_exits [OF assms] by (auto simp: getResultAll_def)

section \<open>What a child is told and what it tells\<close>

definition addArguments :: "Process \<Rightarrow> (string \<times> string) list \<Rightarrow> Process" where
  "addArguments p kvs = foldl (\<lambda>p (k, v). addArgument p k v) p kvs"

lemma addArguments_arguments:
  "proc_arguments (addArguments p kvs) = proc_arguments p @ map (\<lambda>(k, v). (''--'' @ k, v)) kvs"
  by (induction kvs arbitrary: p) (auto simp: addArguments_def addArgument_def)

lemma argument_for_exec_parse:
  assumes "k \<noteq> []" "CHR ''='' \<notin> set k"
  shows "parseArgumentToKeyValue (argument_for_exec (''--'' @ k, v)) = Some (k, v)"
  using parseArgumentToKeyValue_pair [of k v] parseArgumentToKeyValue_flag [of k] assms
  by (cases "v = []") (auto simp: argument_for_exec_def)

definition pipe_arguments :: "pipe_ends \<Rightarrow> (string \<times> string) list" where
  "pipe_arguments fds =
     [(''synchronizationPipeIn'', to_string (fd_parentToChild_read fds)),
      (''synchronizationPipeOut'', to_string (fd_childToParent_write fds)),
      (''measurementPipe'', to_string (fd_measurement_write fds))]"

lemma child_image_argv:
  "img_argv (child_image (addArguments (make_Process exe) kvs) fds) =
     exe # map (\<lambda>(k, v). argument_for_exec (''--'' @ k, v)) (kvs @ pipe_arguments fds)"
  by (simp add: child_image_def Let_def addArgument_def [of "_ \<lparr>proc_arguments := _\<rparr>"]
      addArgument_def [of "addArguments _ _"] addArguments_arguments make_Process_def pipe_arguments_def comp_def
      case_prod_unfold argument_for_exec_def)

text \<open>
  C17: the arguments added to a process reach its child unchanged. For keys that are nonempty, have
  no equals sign, are distinct and are not the names of the three pipe arguments, the command line
  the child is started with is accepted by \<open>CommandLineArgument::parseArguments\<close> and gives
  exactly the added keys with their values, in order, followed by the descriptors of the pipes.
\<close>

theorem child_arguments_roundtrip:
  assumes "\<forall>(k, v) \<in> set kvs. k \<noteq> [] \<and> CHR ''='' \<notin> set k"
    and "distinct (map fst (kvs @ pipe_arguments fds))"
  shows "cla_parseArguments (img_argv (child_image (addArguments (make_Process exe) kvs) fds)) =
    Inr (map (\<lambda>(k, v). \<lparr>cla_key = k, cla_value = v, valid = True, processed = False\<rparr>) (kvs @ pipe_arguments fds))"
proof -
  let ?t = "\<lambda>(k, v). argument_for_exec (''--'' @ k, v)"
  let ?all = "kvs @ pipe_arguments fds"
  have parse: "parseArgumentToKeyValue (?t kv) = Some kv" if "kv \<in> set ?all" for kv
    using argument_for_exec_parse [of "fst kv" "snd kv"] assms(1) that by (auto simp: pipe_arguments_def)
  have "cla_parseArguments (exe # map ?t ?all) = Inr (map make_CommandLineArgument (map ?t ?all))"
    unfolding cla_parseArguments_def parseArguments_loop_Inr_iff
    using parse assms(2) by (auto simp: comp_def cong: map_cong)
  moreover have "map make_CommandLineArgument (map ?t ?all) =
    map (\<lambda>(k, v). \<lparr>cla_key = k, cla_value = v, valid = True, processed = False\<rparr>) ?all"
    unfolding map_map by (rule map_cong [OF refl])
      (use parse in \<open>auto simp: make_CommandLineArgument_def simp del: set_append\<close>)
  ultimately show ?thesis unfolding child_image_argv by simp
qed

theorem child_arguments_roundtrip_witness:
  "cla_parseArguments (img_argv (child_image (addArguments (make_Process ''./w'') [(''size'', ''4KB''), (''flag'', '''')])
       \<lparr>fd_parentToChild_read = 3, fd_childToParent_write = 6, fd_measurement_write = 8\<rparr>)) =
    Inr (map (\<lambda>(k, v). \<lparr>cla_key = k, cla_value = v, valid = True, processed = False\<rparr>)
      [(''size'', ''4KB''), (''flag'', ''''), (''synchronizationPipeIn'', to_string 3),
       (''synchronizationPipeOut'', to_string 6), (''measurementPipe'', to_string 8)])"
  using child_arguments_roundtrip [of "[(''size'', ''4KB''), (''flag'', '''')]"
      "\<lparr>fd_parentToChild_read = 3, fd_childToParent_write = 6, fd_measurement_write = 8\<rparr>" "''./w''"]
  by (simp add: pipe_arguments_def)

lemma ws_pushes_times:
  "samplesCount s + length ts \<le> ws_maxSamplesCount s \<Longrightarrow>
   foldM WorkloadStatistics_push s (map (\<lambda>t. pushTime t MU_Unknown MT_Unknown []) ts) =
     Ok (s\<lparr>ws_result := ws_result s @ map Item_integer ts, samplesCount := samplesCount s + length ts\<rparr>)"
  by (induction ts arbitrary: s) (auto simp: ws_push_item_def)

text \<open>
  C16: the times a child measures arrive at its parent. A child that pushes one time per iteration,
  each a signed 64-bit count of nanoseconds, into its statistics and prints them to its
  measurement pipe fills the statistics; the parent, reading the pipe after the child has exited,
  gets as many measurements as it expects, and converted to nanoseconds they are the times pushed.
\<close>

theorem child_measurements_roundtrip:
  assumes "length ts = n" "0 < n" "\<forall>t \<in> set ts. in_i64 t" "measurementPipe io \<noteq> 0" "measurements_output io = []"
  shows "\<exists>stats io'. foldM WorkloadStatistics_push (make_WorkloadStatistics n)
        (map (\<lambda>t. pushTime t MU_Unknown MT_Unknown []) ts) = Ok stats \<and>
      WorkloadStatistics_isFull stats \<and> writeToMeasurements io (WorkloadStatistics_text show_double stats) = Ok io' \<and>
      (\<forall>p d code. osSpecificData p = Some d \<and> exits_with d code \<and> \<not> hasMeasurements d \<and>
         measurementData d = measurements_output io' \<longrightarrow>
         (\<exists>ms p'. getMeasurements p n = Ok (ms, p') \<and> map wrap_i64 ms = ts))"
proof -
  let ?stats = "\<lparr>ws_maxSamplesCount = n, ws_result = map Item_integer ts, samplesCount = n\<rparr>"
  let ?text = "concat (map (\<lambda>t. to_string t @ '' '') ts)"
  have shown: "WorkloadStatistics_text show_double ?stats = ?text"
    by (simp add: WorkloadStatistics_text_def comp_def)
  have "ts \<noteq> []" using assms(1,2) by auto
  then have "writeToMeasurements io ?text = Ok (io\<lparr>measurements_output := ?text\<rparr>)"
    using assms(4,5) by (auto simp: writeToMeasurements_def neq_Nil_conv)
  moreover have "foldM WorkloadStatistics_push (make_WorkloadStatistics n)
      (map (\<lambda>t. pushTime t MU_Unknown MT_Unknown []) ts) = Ok ?stats"
    using ws_pushes_times [of "make_WorkloadStatistics n" ts] assms(1) by (simp add: make_WorkloadStatistics_def)
  moreover have "\<exists>ms p'. getMeasurements p n = Ok (ms, p') \<and> map wrap_i64 ms = ts"
    if "osSpecificData p = Some d \<and> exits_with d code \<and> \<not> hasMeasurements d \<and> measurementData d = ?text" for p d code
    using getMeasurements_exits [of p d code ts n] that assms(1,3) by (auto simp: comp_def map_idI)
  ultimately show ?thesis using shown by (auto simp: WorkloadStatistics_isFull_def)
qed

theorem child_measurements_roundtrip_witness:
  "\<exists>ms p'. getMeasurements (example_child ''child'' 5 ''1500 -3 '' 0) 2 = Ok (ms, p') \<and> map wrap_i64 ms = [1500, -3]"
proof -
  let ?io = "(WorkloadIo_create example_workload_arguments [])\<lparr>measurementPipe := 4\<rparr>"
  have "''1500 -3 '' = to_string 1500 @ '' '' @ to_string (-3) @ '' ''" by code_simp
  then show ?thesis
    using child_measurements_roundtrip [of "[1500, -3]" 2 ?io "\<lambda>_. ''0''"]
    by (auto simp: in_i64_def WorkloadIo_create_def make_WorkloadStatistics_def ws_push_item_def
        WorkloadStatistics_text_def writeToMeasurements_def example_child_def setName_def make_Process_def
        make_ProcessDataLinux_def exits_with_def Cons_eq_append_conv)
qed

end
