(* ===== verification/Barrier.thy ===== *)
theory Barrier
  imports Process_Group
begin

text \<open>
  The lockstep between a parent in \<open>ProcessGroup::synchronizeAll\<close> and the children it started, each
  calling \<open>WorkloadSynchronization::synchronize\<close> before every iteration.

  A state has the place of the parent in its loops and one record per child; the pipes are the
  strings of \<open>ProcessDataLinux\<close>. A step is one system call of one of the processes: a child
  announcing itself (\<open>write\<close>), a child taking a signal (\<open>read\<close>), the parent taking an announcement
  or sending a signal, or the parent leaving an inner loop. A \<open>read\<close> of an empty pipe blocks, so it
  has no step; a \<open>read\<close> of an unexpected character ends in a crashed state. All interleavings of the
  steps are runs of the system. The pipes are unbounded: the lemmas show that none ever holds more
  than one character per child.

  The locale \<open>bounded_system\<close> is the contract of a family of systems, one per configuration, whose
  every step does one unit of a bounded work and which are stuck only when they are done; its
  lemmas give the invariants along runs, the bound on their length and completion.
\<close>

section \<open>Systems of bounded work\<close>

locale bounded_system =
  fixes wf :: "'p \<Rightarrow> bool"
    and step :: "'p \<Rightarrow> 's \<Rightarrow> 's \<Rightarrow> bool"
    and init :: "'p \<Rightarrow> 's"
    and inv :: "'p \<Rightarrow> 's \<Rightarrow> bool"
    and work :: "'s \<Rightarrow> nat"
    and bound :: "'p \<Rightarrow> nat"
    and final :: "'p \<Rightarrow> 's \<Rightarrow> bool"
  assumes init_inv: "wf p \<Longrightarrow> inv p (init p)"
    and init_work: "wf p \<Longrightarrow> work (init p) = 0"
    and step_inv: "wf p \<Longrightarrow> inv p s \<Longrightarrow> step p s s' \<Longrightarrow> inv p s'"
    and step_work: "wf p \<Longrightarrow> inv p s \<Longrightarrow> step p s s' \<Longrightarrow> work s' = Suc (work s)"
    and work_bound: "wf p \<Longrightarrow> inv p s \<Longrightarrow> work s \<le> bound p"
    and final_iff: "wf p \<Longrightarrow> inv p s \<Longrightarrow> final p s \<longleftrightarrow> work s = bound p"
    and progress: "wf p \<Longrightarrow> inv p s \<Longrightarrow> \<not> final p s \<Longrightarrow> \<exists>s'. step p s s'"
begin

lemma run_inv_work: "wf p \<Longrightarrow> (step p ^^ m) (init p) s \<Longrightarrow> inv p s \<and> work s = m"
proof (induction m arbitrary: s)
  case 0
  then show ?case using init_inv [of p] init_work [of p] by auto
next
  case (Suc m)
  from Suc.prems(2) obtain t where "(step p ^^ m) (init p) t" "step p t s" by (rule relpowp_Suc_E)
  with Suc.IH [of t] Suc.prems(1) show ?case using step_inv step_work by blast
qed

lemma run_length: "wf p \<Longrightarrow> (step p ^^ m) (init p) s \<Longrightarrow> m \<le> bound p"
  using run_inv_work work_bound by blast

lemma run_final_iff: "wf p \<Longrightarrow> (step p ^^ m) (init p) s \<Longrightarrow> final p s \<longleftrightarrow> m = bound p"
  using run_inv_work final_iff by blast

lemma run_extends:
  "wf p \<Longrightarrow> (step p ^^ m) (init p) s \<Longrightarrow> m \<le> k \<Longrightarrow> k \<le> bound p \<Longrightarrow>
     \<exists>s'. (step p ^^ (k - m)) s s' \<and> (step p ^^ k) (init p) s'"
proof (induction "k - m" arbitrary: m s)
  case 0
  then show ?case by auto
next
  case (Suc d)
  then have "\<not> final p s" using run_final_iff by fastforce
  then obtain t where t: "step p s t" using progress run_inv_work Suc.prems(1,2) by blast
  then have t': "(step p ^^ Suc m) (init p) t" using Suc.prems(2) by auto
  have "d = k - Suc m" "Suc m \<le> k" using Suc.hyps(2) by auto
  from Suc.hyps(1) [OF this(1) Suc.prems(1) t' this(2) Suc.prems(4)] obtain s' where
    s': "(step p ^^ (k - Suc m)) t s'" "(step p ^^ k) (init p) s'" by blast
  have "k - m = Suc (k - Suc m)" using Suc.hyps(2) by simp
  then have "(step p ^^ (k - m)) s s'" using t s'(1) by (metis relpowp_Suc_I2)
  then show ?case using s'(2) by blast
qed

lemma run_completes: "wf p \<Longrightarrow> (step p ^^ m) (init p) s \<Longrightarrow> \<exists>s'. (step p ^^ (bound p - m)) s s' \<and> final p s'"
  using run_extends [of p m s "bound p"] run_length run_final_iff by blast

end

section \<open>State and steps\<close>

datatype parent_phase = Waiting nat | Signalling nat

record kid =
  k_data :: ProcessDataLinux
  k_sync :: WorkloadSynchronization
  k_io :: WorkloadIo
  k_blocked :: bool

record sys =
  iteration :: nat
  phase :: parent_phase
  kids :: "kid list"
  crashed :: bool

text \<open>The pipes as the child sees them, and what its calls leave in them.\<close>

definition child_io :: "kid \<Rightarrow> WorkloadIo" where
  "child_io k = (k_io k)\<lparr>sync_input := parentToChild (k_data k), sync_output := childToParent (k_data k)\<rparr>"

definition put_io :: "kid \<Rightarrow> WorkloadIo \<Rightarrow> kid" where
  "put_io k io = k\<lparr>k_data := (k_data k)\<lparr>parentToChild := sync_input io, childToParent := sync_output io\<rparr>\<rparr>"

text \<open>
  \<open>synchronize\<close> up to its \<open>write\<close>, and from its \<open>read\<close> on, for a child told to synchronize through
  pipes. There the loop that skips line ends reads once, as \<open>readSynchronizationChar\<close> itself refuses
  any other character of a pipe.
\<close>

definition kid_announce :: "kid \<Rightarrow> kid result" where
  "kid_announce k =
     FATAL_ERROR_IF (synchronizationCount (k_sync k) = expectedSynchronizationCount (k_sync k))
       ''Too many iterations signalled during workload synchronization''
       (Ok ((put_io k (writeSynchronizationChar (child_io k) synchronizationChar))
              \<lparr>k_sync := (k_sync k)\<lparr>synchronizationCount := synchronizationCount (k_sync k) + 1\<rparr>,
               k_blocked := True\<rparr>))"

definition kid_proceed :: "kid \<Rightarrow> kid result" where
  "kid_proceed k =
     bindR (readSynchronizationChar (child_io k)) (\<lambda>(character, io).
       FATAL_ERROR_IF (character \<noteq> synchronizationChar)
         (''Invalid synchronization received from parent process: '' @ [CHR 0x27, character, CHR 0x27])
         (Ok ((put_io k io)\<lparr>k_blocked := False\<rparr>)))"

text \<open>
  The parent runs \<open>n\<close> iterations, counted by a 32-bit variable. \<open>Waiting j\<close> and \<open>Signalling j\<close> are the
  heads of its two inner loops, about to treat child \<open>j\<close>.
\<close>

inductive sync_step :: "nat \<Rightarrow> sys \<Rightarrow> sys \<Rightarrow> bool" for n where
  announce: "\<not> crashed s \<Longrightarrow> i < length (kids s) \<Longrightarrow> \<not> k_blocked (kids s ! i) \<Longrightarrow>
    kid_announce (kids s ! i) = Ok k \<Longrightarrow> sync_step n s (s\<lparr>kids := (kids s)[i := k]\<rparr>)"
| proceed: "\<not> crashed s \<Longrightarrow> i < length (kids s) \<Longrightarrow> k_blocked (kids s ! i) \<Longrightarrow>
    parentToChild (k_data (kids s ! i)) \<noteq> [] \<Longrightarrow> kid_proceed (kids s ! i) = Ok k \<Longrightarrow>
    sync_step n s (s\<lparr>kids := (kids s)[i := k]\<rparr>)"
| proceed_fails: "\<not> crashed s \<Longrightarrow> i < length (kids s) \<Longrightarrow> k_blocked (kids s ! i) \<Longrightarrow>
    parentToChild (k_data (kids s ! i)) \<noteq> [] \<Longrightarrow> kid_proceed (kids s ! i) = Inl e \<Longrightarrow>
    sync_step n s (s\<lparr>crashed := True\<rparr>)"
| wait: "\<not> crashed s \<Longrightarrow> iteration s < n \<Longrightarrow> phase s = Waiting j \<Longrightarrow> j < length (kids s) \<Longrightarrow>
    childToParent (k_data (kids s ! j)) \<noteq> [] \<Longrightarrow> wait_data (k_data (kids s ! j)) = Ok d \<Longrightarrow>
    sync_step n s (s\<lparr>phase := Waiting (Suc j), kids := (kids s)[j := (kids s ! j)\<lparr>k_data := d\<rparr>]\<rparr>)"
| wait_fails: "\<not> crashed s \<Longrightarrow> iteration s < n \<Longrightarrow> phase s = Waiting j \<Longrightarrow> j < length (kids s) \<Longrightarrow>
    childToParent (k_data (kids s ! j)) \<noteq> [] \<Longrightarrow> wait_data (k_data (kids s ! j)) = Inl e \<Longrightarrow>
    sync_step n s (s\<lparr>crashed := True\<rparr>)"
| wait_done: "\<not> crashed s \<Longrightarrow> iteration s < n \<Longrightarrow> phase s = Waiting (length (kids s)) \<Longrightarrow>
    sync_step n s (s\<lparr>phase := Signalling 0\<rparr>)"
| signal: "\<not> crashed s \<Longrightarrow> phase s = Signalling j \<Longrightarrow> j < length (kids s) \<Longrightarrow>
    sync_step n s (s\<lparr>phase := Signalling (Suc j),
                    kids := (kids s)[j := (kids s ! j)\<lparr>k_data := signal_data (k_data (kids s ! j))\<rparr>]\<rparr>)"
| signal_done: "\<not> crashed s \<Longrightarrow> phase s = Signalling (length (kids s)) \<Longrightarrow>
    sync_step n s (s\<lparr>iteration := (iteration s + 1) mod 2 ^ 32, phase := Waiting 0\<rparr>)"

text \<open>A group just started: one fresh child per pair of descriptors, told to synchronize \<open>n\<close> times.\<close>

definition start_kid :: "nat \<Rightarrow> int \<times> pipe_ends \<Rightarrow> kid" where
  "start_kid n pf =
     \<lparr>k_data = make_ProcessDataLinux (fst pf), k_sync = make_WorkloadSynchronization n True,
      k_io = \<lparr>synchronizationPipeIn = fd_parentToChild_read (snd pf),
              synchronizationPipeOut = fd_childToParent_write (snd pf),
              measurementPipe = fd_measurement_write (snd pf),
              sync_input = [], sync_output = [], measurements_output = [], stdout = []\<rparr>,
      k_blocked = False\<rparr>"

definition sync_init :: "nat \<Rightarrow> (int \<times> pipe_ends) list \<Rightarrow> sys" where
  "sync_init n started = \<lparr>iteration = 0, phase = Waiting 0, kids = map (start_kid n) started, crashed = False\<rparr>"

text \<open>The iterations a child has announced and those it has been let into.\<close>

definition announced :: "kid \<Rightarrow> nat" where
  "announced k = synchronizationCount (k_sync k)"

definition entered :: "kid \<Rightarrow> nat" where
  "entered k = (if k_blocked k then announced k - 1 else announced k)"

definition sync_final :: "nat \<Rightarrow> sys \<Rightarrow> bool" where
  "sync_final n s \<longleftrightarrow> \<not> crashed s \<and> iteration s = n \<and> list_all (\<lambda>k. entered k = n \<and> \<not> k_blocked k) (kids s)"

section \<open>One child\<close>

text \<open>
  The parent has taken \<open>w\<close> announcements of the child and sent it \<open>g\<close> signals: each pipe holds exactly
  what was written to it and not yet read.
\<close>

definition kid_inv :: "nat \<Rightarrow> nat \<Rightarrow> nat \<Rightarrow> kid \<Rightarrow> bool" where
  "kid_inv n w g k \<longleftrightarrow> expectedSynchronizationCount (k_sync k) = n \<and>
     synchronizationPipeIn (k_io k) \<noteq> 0 \<and> synchronizationPipeOut (k_io k) \<noteq> 0 \<and>
     announced k \<le> n \<and> w \<le> announced k \<and> entered k \<le> g \<and> (k_blocked k \<longrightarrow> 0 < announced k) \<and>
     childToParent (k_data k) = replicate (announced k - w) synchronizationChar \<and>
     parentToChild (k_data k) = replicate (g - entered k) synchronizationChar"

definition kid_work :: "kid \<Rightarrow> nat" where
  "kid_work k = announced k + entered k"

lemmas kid_simps = kid_inv_def kid_work_def announced_def entered_def

lemma kid_announce_ok:
  assumes "kid_inv n w g k" "\<not> k_blocked k" "announced k < n"
  obtains k' where "kid_announce k = Ok k'"
  using assms by (simp add: kid_announce_def kid_simps)

lemma kid_announce_inv:
  assumes "kid_inv n w g k" "\<not> k_blocked k" "kid_announce k = Ok k'"
  shows "kid_inv n w g k' \<and> kid_work k' = Suc (kid_work k)"
  using assms
  by (auto simp: kid_announce_def kid_simps FATAL_ERROR_IF_eq_Inr put_io_def child_io_def
      replicate_append_same Suc_diff_le simp flip: replicate_Suc)

lemma kid_proceed_ok:
  assumes "kid_inv n w g k" "k_blocked k" "parentToChild (k_data k) \<noteq> []"
  obtains k' where "kid_proceed k = Ok k'" "kid_inv n w g k'" "kid_work k' = Suc (kid_work k)"
proof -
  from assms obtain m where m: "g - entered k = Suc m" "0 < announced k" "entered k = announced k - 1"
    by (cases "g - entered k") (auto simp: kid_inv_def entered_def)
  let ?k = "k\<lparr>k_data := (k_data k)\<lparr>parentToChild := replicate m synchronizationChar\<rparr>, k_blocked := False\<rparr>"
  have "kid_proceed k = Ok ?k"
    using assms m by (simp add: kid_proceed_def readSynchronizationChar_def child_io_def put_io_def kid_inv_def)
  moreover have "kid_inv n w g ?k" "kid_work ?k = Suc (kid_work k)"
    using assms m by (auto simp: kid_simps)
  ultimately show thesis by (rule that)
qed

lemma kid_wait_ok:
  assumes "kid_inv n w g k" "childToParent (k_data k) \<noteq> []"
  obtains d where "wait_data (k_data k) = Ok d" "kid_inv n (Suc w) g (k\<lparr>k_data := d\<rparr>)"
    "kid_work (k\<lparr>k_data := d\<rparr>) = kid_work k"
proof -
  from assms obtain m where m: "announced k - w = Suc m" by (cases "announced k - w") (auto simp: kid_inv_def)
  let ?d = "(k_data k)\<lparr>childToParent := replicate m synchronizationChar\<rparr>"
  have "wait_data (k_data k) = Ok ?d" using assms m by (simp add: wait_data_def kid_inv_def)
  moreover have "kid_inv n (Suc w) g (k\<lparr>k_data := ?d\<rparr>)" "kid_work (k\<lparr>k_data := ?d\<rparr>) = kid_work k"
    using assms m by (auto simp: kid_simps)
  ultimately show thesis by (rule that)
qed

lemma kid_signal_inv:
  assumes "kid_inv n w g k"
  shows "kid_inv n w (Suc g) (k\<lparr>k_data := signal_data (k_data k)\<rparr>)"
    "kid_work (k\<lparr>k_data := signal_data (k_data k)\<rparr>) = kid_work k"
  using assms by (auto simp: kid_simps signal_data_def replicate_append_same Suc_diff_le)

section \<open>The group\<close>

definition waited :: "sys \<Rightarrow> nat \<Rightarrow> nat" where
  "waited s i = iteration s + (case phase s of Waiting j \<Rightarrow> if i < j then 1 else 0 | Signalling _ \<Rightarrow> 1)"

definition signalled :: "sys \<Rightarrow> nat \<Rightarrow> nat" where
  "signalled s i = iteration s + (case phase s of Waiting _ \<Rightarrow> 0 | Signalling j \<Rightarrow> if i < j then 1 else 0)"

definition phase_ok :: "nat \<Rightarrow> sys \<Rightarrow> bool" where
  "phase_ok n s \<longleftrightarrow>
     (case phase s of
        Waiting j \<Rightarrow> iteration s \<le> n \<and> j \<le> length (kids s) \<and> (iteration s = n \<longrightarrow> j = 0)
      | Signalling j \<Rightarrow> iteration s < n \<and> j \<le> length (kids s))"

text \<open>The parent performs \<open>n\<close> iterations and each of its \<open>l\<close> children \<open>c\<close>; the protocol is meant for \<open>c = n\<close>.\<close>

definition group_inv :: "nat \<Rightarrow> nat \<Rightarrow> nat \<Rightarrow> sys \<Rightarrow> bool" where
  "group_inv n c l s \<longleftrightarrow> \<not> crashed s \<and> length (kids s) = l \<and> phase_ok n s \<and>
     (\<forall>i < l. kid_inv c (waited s i) (signalled s i) (kids s ! i))"

abbreviation sync_inv :: "nat \<Rightarrow> nat \<Rightarrow> sys \<Rightarrow> bool" where
  "sync_inv n \<equiv> group_inv n n"

lemmas sync_inv_def = group_inv_def

definition phase_work :: "sys \<Rightarrow> nat" where
  "phase_work s = (case phase s of Waiting j \<Rightarrow> j | Signalling j \<Rightarrow> length (kids s) + 1 + j)"

definition sync_work :: "sys \<Rightarrow> nat" where
  "sync_work s = iteration s * (2 * length (kids s) + 2) + phase_work s + sum_list (map kid_work (kids s))"

lemma kid_inv_work: "kid_inv n w g k \<Longrightarrow> kid_work k \<le> 2 * n"
  by (auto simp: kid_simps split: if_splits)

lemma kid_work_full: "kid_inv n w g k \<Longrightarrow> kid_work k = 2 * n \<longleftrightarrow> entered k = n \<and> \<not> k_blocked k"
  by (auto simp: kid_simps split: if_splits)

lemma sum_list_update_Suc:
  "i < length xs \<Longrightarrow> f y = Suc (f (xs ! i)) \<Longrightarrow> sum_list (map f (xs[i := y])) = Suc (sum_list (map f xs))"
  by (induction xs arbitrary: i) (auto split: nat.splits)

lemma sum_list_update_same:
  "f y = f (xs ! i) \<Longrightarrow> sum_list (map f (xs[i := y])) = sum_list (map f xs)"
  by (induction xs arbitrary: i) (auto split: nat.splits)

lemma sync_step_kid:
  assumes "group_inv n c l s" "i < l" "kid_inv c (waited s i) (signalled s i) k" "kid_work k = Suc (kid_work (kids s ! i))"
  shows "group_inv n c l (s\<lparr>kids := (kids s)[i := k]\<rparr>) \<and> sync_work (s\<lparr>kids := (kids s)[i := k]\<rparr>) = Suc (sync_work s)"
  using assms
  by (auto simp: sync_inv_def phase_ok_def waited_def signalled_def sync_work_def phase_work_def nth_list_update
      sum_list_update_Suc split: parent_phase.splits)

lemma sync_step_inv_work:
  assumes inv: "group_inv n c l s" and n: "n < 2 ^ 32" and step: "sync_step n s s'"
  shows "group_inv n c l s' \<and> sync_work s' = Suc (sync_work s)"
  using step
proof cases
  case (announce i k)
  then show ?thesis
    using sync_step_kid [OF inv, of i k] inv kid_announce_inv by (auto simp: sync_inv_def)
next
  case (proceed i k)
  then have "kid_inv c (waited s i) (signalled s i) (kids s ! i)" "i < l" using inv by (auto simp: sync_inv_def)
  with kid_proceed_ok [OF this(1)] proceed sync_step_kid [OF inv, of i k] show ?thesis by force
next
  case (proceed_fails i e)
  then have "kid_inv c (waited s i) (signalled s i) (kids s ! i)" using inv by (auto simp: sync_inv_def)
  with kid_proceed_ok [OF this] proceed_fails show ?thesis by force
next
  case (wait j d)
  then have k: "kid_inv c (waited s j) (signalled s j) (kids s ! j)" using inv by (auto simp: sync_inv_def)
  with kid_wait_ok [OF this] wait have "kid_inv c (Suc (waited s j)) (signalled s j) ((kids s ! j)\<lparr>k_data := d\<rparr>)"
    "kid_work ((kids s ! j)\<lparr>k_data := d\<rparr>) = kid_work (kids s ! j)" by force+
  with wait inv show ?thesis
    by (auto simp: sync_inv_def phase_ok_def waited_def signalled_def sync_work_def phase_work_def nth_list_update
        sum_list_update_same less_Suc_eq)
next
  case (wait_fails j e)
  then have "kid_inv c (waited s j) (signalled s j) (kids s ! j)" using inv by (auto simp: sync_inv_def)
  with kid_wait_ok [OF this] wait_fails show ?thesis by force
next
  case wait_done
  then show ?thesis using inv
    by (auto simp: sync_inv_def phase_ok_def waited_def signalled_def sync_work_def phase_work_def)
next
  case (signal j)
  then have "kid_inv c (waited s j) (signalled s j) (kids s ! j)" using inv by (auto simp: sync_inv_def)
  note k = kid_signal_inv [OF this]
  with signal inv show ?thesis
    by (auto simp: sync_inv_def phase_ok_def waited_def signalled_def sync_work_def phase_work_def nth_list_update
        sum_list_update_same less_Suc_eq)
next
  case signal_done
  then have "(iteration s + 1) mod 2 ^ 32 = iteration s + 1" using inv n by (simp add: sync_inv_def phase_ok_def)
  with signal_done inv show ?thesis
    by (auto simp: sync_inv_def phase_ok_def waited_def signalled_def sync_work_def phase_work_def)
qed

section \<open>The protocol is a system of bounded work\<close>

definition sync_wf :: "nat \<times> (int \<times> pipe_ends) list \<Rightarrow> bool" where
  "sync_wf c \<longleftrightarrow> fst c < 2 ^ 32 \<and>
     list_all (\<lambda>(_, fds). fd_parentToChild_read fds \<noteq> 0 \<and> fd_childToParent_write fds \<noteq> 0) (snd c)"

definition sync_bound :: "nat \<times> (int \<times> pipe_ends) list \<Rightarrow> nat" where
  "sync_bound c = fst c * (4 * length (snd c) + 2)"

lemma sync_init_inv:
  assumes "sync_wf (n, started)"
  shows "sync_inv n (length started) (sync_init n started)" "sync_work (sync_init n started) = 0"
proof -
  have "kid_inv n 0 0 (start_kid n pf)" if "pf \<in> set started" for pf
    using assms that
    by (auto simp: sync_wf_def list_all_iff start_kid_def kid_simps make_WorkloadSynchronization_def make_ProcessDataLinux_def)
  then show "sync_inv n (length started) (sync_init n started)"
    by (auto simp: sync_inv_def sync_init_def phase_ok_def waited_def signalled_def)
  show "sync_work (sync_init n started) = 0"
    by (auto simp: sync_work_def sync_init_def phase_work_def start_kid_def kid_simps make_WorkloadSynchronization_def
        sum_list_eq_0_iff)
qed

lemma kids_work_bound:
  assumes "sync_inv n l s"
  shows "sum_list (map kid_work (kids s)) \<le> l * (2 * n)"
  using sum_list_mono [of "kids s" kid_work "\<lambda>_. 2 * n"] assms kid_inv_work
  by (force simp: sync_inv_def in_set_conv_nth sum_list_triv)

lemma parent_work_bound:
  assumes "sync_inv n l s"
  shows "iteration s * (2 * l + 2) + phase_work s \<le> n * (2 * l + 2)"
    and "iteration s * (2 * l + 2) + phase_work s = n * (2 * l + 2) \<longleftrightarrow> iteration s = n"
proof -
  have l: "length (kids s) = l" using assms by (simp add: sync_inv_def)
  consider "iteration s = n" "phase_work s = 0" | "iteration s < n" "phase_work s < 2 * l + 2"
    using assms by (fastforce simp: sync_inv_def phase_ok_def phase_work_def split: parent_phase.splits)
  then have "iteration s = n \<and> phase_work s = 0 \<or>
      iteration s < n \<and> iteration s * (2 * l + 2) + phase_work s < n * (2 * l + 2)"
  proof cases
    case 2
    then have "Suc (iteration s) * (2 * l + 2) \<le> n * (2 * l + 2)" by (intro mult_le_mono1) simp
    with 2 show ?thesis by simp
  qed simp
  then show "iteration s * (2 * l + 2) + phase_work s \<le> n * (2 * l + 2)"
    "iteration s * (2 * l + 2) + phase_work s = n * (2 * l + 2) \<longleftrightarrow> iteration s = n"
    by auto
qed

lemma kids_work_full:
  assumes "sync_inv n l s"
  shows "sum_list (map kid_work (kids s)) = l * (2 * n) \<longleftrightarrow> list_all (\<lambda>k. entered k = n \<and> \<not> k_blocked k) (kids s)"
proof -
  have k: "kid_work k \<le> 2 * n" "kid_work k = 2 * n \<longleftrightarrow> entered k = n \<and> \<not> k_blocked k" if "k \<in> set (kids s)" for k
    using that assms kid_inv_work kid_work_full by (fastforce simp: sync_inv_def in_set_conv_nth)+
  have "sum_list (map kid_work ks) \<le> length ks * (2 * n) \<and>
     (sum_list (map kid_work ks) = length ks * (2 * n) \<longleftrightarrow> list_all (\<lambda>k. entered k = n \<and> \<not> k_blocked k) ks)"
    if "set ks \<subseteq> set (kids s)" for ks
    using that
  proof (induction ks)
    case (Cons x xs)
    then show ?case using k [of x] by auto
  qed simp
  then show ?thesis using assms by (auto simp: sync_inv_def)
qed

lemma sync_progress:
  assumes inv: "sync_inv n l s" and "\<not> sync_final n s"
  shows "\<exists>s'. sync_step n s s'"
proof -
  have kid: "kid_inv n (waited s i) (signalled s i) (kids s ! i)" if "i < l" for i using inv that by (simp add: sync_inv_def)
  have c: "\<not> crashed s" "length (kids s) = l" using inv by (simp_all add: sync_inv_def)
  have moves: "\<exists>s'. sync_step n s s'" if "i < l" "announced (kids s ! i) < n \<or> k_blocked (kids s ! i)"
    "k_blocked (kids s ! i) \<longrightarrow> announced (kids s ! i) \<le> signalled s i" for i
  proof (cases "k_blocked (kids s ! i)")
    case True
    have "parentToChild (k_data (kids s ! i)) \<noteq> []" using kid [OF that(1)] that True by (auto simp: kid_simps)
    with kid_proceed_ok [OF kid [OF that(1)] True] show ?thesis using c that True proceed by metis
  next
    case False
    with kid_announce_ok [OF kid [OF that(1)]] show ?thesis using c that announce by metis
  qed
  show ?thesis
  proof (cases "phase s")
    case (Signalling j)
    then have "j \<le> length (kids s)" using inv by (simp add: sync_inv_def phase_ok_def)
    then show ?thesis using c Signalling signal signal_done by (metis le_neq_implies_less)
  next
    case (Waiting j)
    then have j: "j \<le> l" "iteration s \<le> n" using inv by (auto simp: sync_inv_def phase_ok_def)
    consider "iteration s < n" "j = l" | "iteration s < n" "j < l" | "iteration s = n" using j by linarith
    then show ?thesis
    proof cases
      case 1
      then show ?thesis using c Waiting wait_done by metis
    next
      case 2
      have w: "waited s j = iteration s" "signalled s j = iteration s" using Waiting by (simp_all add: waited_def signalled_def)
      show ?thesis
      proof (cases "childToParent (k_data (kids s ! j)) = []")
        case True
        then have "announced (kids s ! j) = iteration s" using kid [OF 2(2)] w by (auto simp: kid_inv_def)
        then show ?thesis using moves [of j] 2 w by auto
      next
        case False
        with kid_wait_ok [OF kid [OF 2(2)]] show ?thesis using c 2 Waiting wait by metis
      qed
    next
      case 3
      then obtain i where i: "i < l" "\<not> (entered (kids s ! i) = n \<and> \<not> k_blocked (kids s ! i))"
        using assms(2) c by (auto simp: sync_final_def list_all_length)
      have w: "n \<le> waited s i" "n \<le> signalled s i" using 3 by (simp_all add: waited_def signalled_def)
      then have "announced (kids s ! i) = n" using kid [OF i(1)] by (simp add: kid_inv_def)
      with i w show ?thesis using moves [of i] by (auto simp: entered_def split: if_splits)
    qed
  qed
qed

interpretation barrier: bounded_system sync_wf "\<lambda>(n, started). sync_step n" "\<lambda>(n, started). sync_init n started"
  "\<lambda>(n, started). sync_inv n (length started)" sync_work sync_bound "\<lambda>(n, started). sync_final n"
proof (unfold_locales; clarify)
  fix n started s
  assume wf: "sync_wf (n, started)"
  show "sync_inv n (length started) (sync_init n started)" "sync_work (sync_init n started) = 0"
    using sync_init_inv [OF wf] by simp_all
  assume inv: "sync_inv n (length started) s"
  have w: "sync_work s = iteration s * (2 * length started + 2) + phase_work s + sum_list (map kid_work (kids s))"
    using inv by (simp add: sync_work_def sync_inv_def)
  have b: "sync_bound (n, started) = n * (2 * length started + 2) + length started * (2 * n)"
    by (simp add: sync_bound_def algebra_simps)
  note bounds = parent_work_bound [OF inv] kids_work_bound [OF inv] kids_work_full [OF inv]
  show "sync_work s \<le> sync_bound (n, started)" unfolding w b using bounds by linarith
  show "sync_final n s \<longleftrightarrow> sync_work s = sync_bound (n, started)"
  proof -
    have "sync_work s = sync_bound (n, started) \<longleftrightarrow>
      iteration s = n \<and> list_all (\<lambda>k. entered k = n \<and> \<not> k_blocked k) (kids s)"
      unfolding w b using bounds by linarith
    then show ?thesis using inv by (simp add: sync_final_def sync_inv_def)
  qed
  show "\<exists>s'. sync_step n s s'" if "\<not> sync_final n s" using sync_progress [OF inv that] .
  show "sync_inv n (length started) s'" "sync_work s' = Suc (sync_work s)" if "sync_step n s s'" for s'
    using sync_step_inv_work [OF inv _ that] wf by (simp_all add: sync_wf_def)
qed

section \<open>Properties\<close>

text \<open>
  the two halves of a child's step are \<open>synchronize\<close>: a child with pipes that announces itself and
  then takes a signal that is waiting for it ends in the state, and leaves the pipes with the
  contents, that a call of \<open>WorkloadSynchronization::synchronize\<close> gives.
\<close>

lemma kid_steps_are_synchronize:
  assumes "synchronizationEnabled (k_sync k)" "synchronizationPipeIn (k_io k) \<noteq> 0" "synchronizationPipeOut (k_io k) \<noteq> 0"
    and "kid_announce k = Ok k1" "kid_proceed k1 = Ok k2"
  shows "synchronize (k_sync k) (child_io k) = Ok (k_sync k2, child_io k2)"
proof -
  have c: "synchronizationCount (k_sync k) \<noteq> expectedSynchronizationCount (k_sync k)"
    and k1: "k1 = k\<lparr>k_data := (k_data k)\<lparr>childToParent := childToParent (k_data k) @ [synchronizationChar]\<rparr>,
       k_sync := (k_sync k)\<lparr>synchronizationCount := synchronizationCount (k_sync k) + 1\<rparr>, k_blocked := True\<rparr>"
    using assms by (auto simp: kid_announce_def FATAL_ERROR_IF_eq_Inr put_io_def child_io_def)
  obtain io where io: "readSynchronizationChar (child_io k1) = Ok (synchronizationChar, io)"
      "k2 = (put_io k1 io)\<lparr>k_blocked := False\<rparr>"
    using assms(5) by (auto simp: kid_proceed_def FATAL_ERROR_IF_eq_Inr bindR_eq_Inr)
  have pipe: "synchronizationPipeIn (child_io k1) \<noteq> 0" using assms(2) k1 by (simp add: child_io_def)
  note r = readSynchronizationChar_pipe [OF io(1) pipe]
  have "sync_input (child_io k) = synchronizationChar # sync_input io"
    using r(2) k1 by (simp add: child_io_def)
  moreover have "synchronizationPipeOut (child_io k) \<noteq> 0" using assms(3) by (simp add: child_io_def)
  ultimately have "synchronize (k_sync k) (child_io k) =
    Ok ((k_sync k)\<lparr>synchronizationCount := synchronizationCount (k_sync k) + 1\<rparr>,
        (child_io k)\<lparr>sync_input := sync_input io, sync_output := sync_output (child_io k) @ [synchronizationChar]\<rparr>)"
    using synchronize_signalled [of "k_sync k" "child_io k"] assms(1) c by simp
  moreover have "sync_output io = childToParent (k_data k1)"
    by (subst r(3)) (simp add: child_io_def)
  ultimately show ?thesis using io(2) k1 by (simp add: child_io_def put_io_def)
qed

definition example_started :: "(int \<times> pipe_ends) list" where
  "example_started =
     [(101, \<lparr>fd_parentToChild_read = 3, fd_childToParent_write = 6, fd_measurement_write = 8\<rparr>),
      (102, \<lparr>fd_parentToChild_read = 11, fd_childToParent_write = 14, fd_measurement_write = 16\<rparr>)]"

definition example_kid :: kid where
  "example_kid = (start_kid 2 (hd example_started))\<lparr>k_data := signal_data (make_ProcessDataLinux 101)\<rparr>"

lemmas example_kid_simps = example_kid_def example_started_def start_kid_def signal_data_def make_ProcessDataLinux_def
  make_WorkloadSynchronization_def kid_announce_def kid_proceed_def child_io_def put_io_def

text \<open>
  C9: the barrier holds in every interleaving. In each state reached by a parent in \<open>synchronizeAll\<close>
  and its children, no process has stopped with a synchronization error, and no child has been let
  into an iteration that some child has not announced yet: the children start each iteration
  together. Each pipe holds at most one character, so that no write can block.
\<close>

theorem synchronizeAll_barrier:
  assumes "sync_wf (n, started)" "(sync_step n ^^ m) (sync_init n started) s"
  shows "\<not> crashed s \<and> (\<forall>i j. i < length (kids s) \<and> j < length (kids s) \<longrightarrow>
      entered (kids s ! i) \<le> announced (kids s ! j) \<and>
      length (childToParent (k_data (kids s ! i))) \<le> 1 \<and> length (parentToChild (k_data (kids s ! i))) \<le> 1)"
proof -
  have inv: "sync_inv n (length started) s" using barrier.run_inv_work [of "(n, started)" m s] assms by simp
  have sw: "signalled s i \<le> waited s j" "waited s i \<le> Suc (signalled s i)"
    if "i < length (kids s)" "j < length (kids s)" for i j
    using inv that by (auto simp: sync_inv_def phase_ok_def waited_def signalled_def split: parent_phase.splits)
  have k: "kid_inv n (waited s i) (signalled s i) (kids s ! i)" if "i < length (kids s)" for i
    using inv that by (simp add: sync_inv_def)
  have "entered (kids s ! i) \<le> announced (kids s ! j) \<and> announced (kids s ! i) - waited s i \<le> 1 \<and>
      signalled s i - entered (kids s ! i) \<le> 1"
    if "i < length (kids s)" "j < length (kids s)" for i j
    using k [OF that(1)] k [OF that(2)] sw [OF that] sw(1) [OF that(1) that(1)]
    by (auto simp: kid_inv_def entered_def split: if_splits)
  then show ?thesis using inv k by (auto simp: sync_inv_def kid_inv_def)
qed

theorem synchronizeAll_barrier_witness:
  "\<exists>k. (sync_step 2 ^^ 1) (sync_init 2 example_started) ((sync_init 2 example_started)\<lparr>kids := [k, start_kid 2 (example_started ! 1)]\<rparr>) \<and>
     k_blocked k \<and> entered k \<le> announced (start_kid 2 (example_started ! 1)) \<and> length (childToParent (k_data k)) \<le> 1"
proof -
  let ?s = "sync_init 2 example_started"
  obtain k where k: "kid_announce (kids ?s ! 0) = Ok k" "k_blocked k" by (simp add: sync_init_def example_kid_simps)
  have "sync_step 2 ?s (?s\<lparr>kids := (kids ?s)[0 := k]\<rparr>)"
    using k by (intro announce) (simp_all add: sync_init_def example_kid_simps)
  then have run: "(sync_step 2 ^^ 1) ?s (?s\<lparr>kids := [k, start_kid 2 (example_started ! 1)]\<rparr>)"
    by (simp add: eq_OO sync_init_def example_started_def)
  have "sync_wf (2, example_started)" by (simp add: sync_wf_def example_started_def)
  from synchronizeAll_barrier [OF this run, THEN conjunct2, rule_format, of 0 1] run k(2) show ?thesis by auto
qed

text \<open>
  C8: \<open>synchronizeAll\<close> always returns. However the processes are scheduled, a run of \<open>n\<close> iterations
  with \<open>l\<close> children takes at most \<open>n * (4 * l + 2)\<close> steps; it can be continued to its end from every
  state, never deadlocks, and is over exactly after that many steps, when the parent has left its
  loop and every child has entered all \<open>n\<close> iterations.
\<close>

theorem synchronizeAll_completes:
  assumes "sync_wf (n, started)" "(sync_step n ^^ m) (sync_init n started) s"
  shows "m \<le> n * (4 * length started + 2) \<and>
    (sync_final n s \<longleftrightarrow> m = n * (4 * length started + 2)) \<and>
    (sync_final n s \<longleftrightarrow> (\<nexists>s'. sync_step n s s')) \<and>
    (\<exists>s'. (sync_step n ^^ (n * (4 * length started + 2) - m)) s s' \<and> sync_final n s')"
proof -
  have run: "((case (n, started) of (n, started) \<Rightarrow> sync_step n) ^^ m) (case (n, started) of (n, started) \<Rightarrow> sync_init n started) s"
    using assms(2) by simp
  have b: "sync_bound (n, started) = n * (4 * length started + 2)" by (simp add: sync_bound_def)
  have inv: "sync_inv n (length started) s" using barrier.run_inv_work [OF assms(1) run] by simp
  have "\<not> sync_step n s s'" if "sync_final n s" for s'
  proof
    assume "sync_step n s s'"
    then have "(sync_step n ^^ Suc m) (sync_init n started) s'" using assms(2) by auto
    then have "Suc m \<le> n * (4 * length started + 2)" using barrier.run_length [OF assms(1), of "Suc m" s'] b by simp
    with that show False using barrier.run_final_iff [OF assms(1) run] b by simp
  qed
  then show ?thesis
    using barrier.run_length [OF assms(1) run] barrier.run_final_iff [OF assms(1) run]
      barrier.run_completes [OF assms(1) run] sync_progress [OF inv] b by auto
qed

theorem synchronizeAll_completes_witness:
  "\<exists>s. (sync_step 2 ^^ 20) (sync_init 2 example_started) s \<and> sync_final 2 s"
  using synchronizeAll_completes [of 2 example_started 0 "sync_init 2 example_started"]
  by (simp add: sync_wf_def example_started_def)

end
