(* ===== verification/Dump_Command_Line.thy ===== *)
theory Dump_Command_Line
  imports Test_Case
begin

text \<open>
  The option \<open>--dumpCommandLines\<close> prints, instead of the name of a test, the command line that runs
  it. This theory follows such a line through the splitting at white space, as a shell does it
  for words without quotes and characters special to it (\<open>splitString\<close> stands for it), \<open>CommandLineArgument::parseArguments\<close>
  and the argument container of the test: it shows which lines reproduce the test they were
  printed for.
\<close>

section \<open>Tokens of a dumped line\<close>

definition token_of :: "string \<times> string \<Rightarrow> string" where
  "token_of kv = ''--'' @ fst kv @ ''='' @ snd kv"

definition cla_of :: "string \<times> string \<Rightarrow> CommandLineArgument" where
  "cla_of kv = \<lparr>cla_key = fst kv, cla_value = snd kv, valid = True, processed = False\<rparr>"

definition key_ok :: "string \<Rightarrow> bool" where
  "key_ok k \<longleftrightarrow> CHR ''='' \<notin> set k \<and> list_all (\<lambda>c. \<not> isspace c) k"

lemma token_of_is_token:
  assumes "key_ok k" "list_all (\<lambda>c. \<not> isspace c) v"
  shows "is_token (token_of (k, v))"
proof -
  have "\<not> isspace CHR ''-''" "\<not> isspace CHR ''=''" by (simp_all add: isspace_def)
  with assms show ?thesis by (simp add: is_token_def token_of_def key_ok_def)
qed

lemma parse_token_of: "key_ok (fst kv) \<Longrightarrow> parseArgumentToKeyValue (token_of kv) = Some kv"
  using parseArgumentToKeyValue_pair [of "fst kv" "snd kv"] by (simp add: key_ok_def token_of_def)

lemma make_token_of: "key_ok (fst kv) \<Longrightarrow> make_CommandLineArgument (token_of kv) = cla_of kv"
  by (cases kv) (simp add: make_CommandLineArgument_def parse_token_of cla_of_def)

lemma parse_tokens:
  assumes "list_all (\<lambda>kv. key_ok (fst kv)) kvs" and "distinct (map fst kvs)"
  shows "cla_parseArguments (exe # map token_of kvs) = Inr (map cla_of kvs)"
proof -
  have keys: "map (fst \<circ> the \<circ> parseArgumentToKeyValue) (map token_of kvs) = map fst kvs"
    using assms(1) by (simp add: list_all_iff parse_token_of)
  have "map make_CommandLineArgument (map token_of kvs) = map cla_of kvs"
    using assms(1) by (simp add: list_all_iff make_token_of)
  with keys assms show ?thesis
    unfolding cla_parseArguments_def parseArguments_loop_Inr_iff
    by (simp add: list_all_iff parse_token_of del: map_map)
qed

lemma lookup_token_cla_of: "lookup_token (map cla_of kvs) k = map_of kvs k"
  by (induction kvs) (auto simp: lookup_token_def cla_of_def)

section \<open>Printing an argument container\<close>

definition print_of :: "bool \<Rightarrow> Argument \<Rightarrow> string" where
  "print_of ni a = projr (toStringValue ni (val a))"

definition dumpable :: "bool \<Rightarrow> Argument \<Rightarrow> bool" where
  "dumpable ni a \<longleftrightarrow> key_ok (key a) \<and> printable_value ni (val a)"

lemma dumpable_print:
  assumes "dumpable ni a"
  shows "toStringValue ni (val a) = Ok (print_of ni a)" "list_all (\<lambda>c. \<not> isspace c) (print_of ni a)"
    "Argument_toString ni a = Ok (key a @ ''='' @ print_of ni a)"
proof -
  obtain s where "toStringValue ni (val a) = Ok s" "list_all (\<lambda>c. \<not> isspace c) s"
    using assms value_print_ok [of ni "val a"] by (auto simp: dumpable_def)
  then show "toStringValue ni (val a) = Ok (print_of ni a)" "list_all (\<lambda>c. \<not> isspace c) (print_of ni a)"
    "Argument_toString ni a = Ok (key a @ ''='' @ print_of ni a)"
    by (simp_all add: print_of_def Argument_toString_def)
qed

definition dump_pairs :: "bool \<Rightarrow> string \<Rightarrow> string \<Rightarrow> ArgumentContainer \<Rightarrow> (string \<times> string) list" where
  "dump_pairs ni name api args =
     (''test'', name) # (''api'', api) # map (\<lambda>a. (key a, print_of ni a)) args"

lemma joinStrings_not_Nil: "xs \<noteq> [] \<Longrightarrow> (\<And>x. x \<in> set xs \<Longrightarrow> str x \<noteq> []) \<Longrightarrow> joinStrings sep xs str \<noteq> []"
  by (induction sep xs str rule: joinStrings.induct) auto

lemma joinStrings_map: "joinStrings sep (map f xs) str = joinStrings sep xs (\<lambda>x. str (f x))"
  by (induction sep xs "\<lambda>x. str (f x)" rule: joinStrings.induct) auto

lemma getTestCaseNameWithConfig_tokens:
  assumes "Api_to_string (tca_api arguments) = Ok api" and "list_all (dumpable ni) (tca_args arguments)"
  shows "getTestCaseNameWithConfig ni name arguments True
     = Ok (joinStrings '' '' (dump_pairs ni name api (tca_args arguments)) token_of)"
proof -
  let ?args = "tca_args arguments"
  have "mapM (Argument_toString ni) ?args = Ok (map (\<lambda>a. key a @ ''='' @ print_of ni a) ?args)"
    using assms(2) by (intro mapM_all_Inr) (simp add: list_all_iff dumpable_print)
  then have config: "getCurrentConfig ni True ?args
      = Ok (joinStrings '' '' (map (\<lambda>a. (key a, print_of ni a)) ?args) token_of)"
    by (simp add: getCurrentConfig_def joinStrings_map token_of_def)
  show ?thesis
  proof (cases "?args")
    case Nil
    with config assms(1) show ?thesis
      by (simp add: getTestCaseNameWithConfig_def dump_pairs_def token_of_def)
  next
    case (Cons a as)
    then have "joinStrings '' '' (map (\<lambda>a. (key a, print_of ni a)) ?args) token_of \<noteq> []"
      by (intro joinStrings_not_Nil) (auto simp: token_of_def)
    with config assms(1) Cons show ?thesis
      by (simp add: getTestCaseNameWithConfig_def dump_pairs_def token_of_def)
  qed
qed

text \<open>A freshly constructed container of the same test case.\<close>

definition fresh_container :: "ArgumentContainer \<Rightarrow> ArgumentContainer" where
  "fresh_container args = map (\<lambda>a. a\<lparr>parsed := False, val := default_value (val a)\<rparr>) args"

lemma parse_dumped:
  assumes "list_all (dumpable ni) args" and "distinct (map fst (dump_pairs ni name api args))"
  shows "mapM (parse_from (map cla_of (dump_pairs ni name api args))) (fresh_container args)
     = Ok (map (\<lambda>a. a\<lparr>parsed := True\<rparr>) args)"
proof -
  let ?cs = "map cla_of (dump_pairs ni name api args)"
  have "parse_from ?cs (a\<lparr>parsed := False, val := default_value (val a)\<rparr>) = Ok (a\<lparr>parsed := True\<rparr>)"
    if "a \<in> set args" for a
  proof -
    have d: "dumpable ni a" using assms(1) that by (simp add: list_all_iff)
    have "(key a, print_of ni a) \<in> set (dump_pairs ni name api args)"
      using that by (simp add: dump_pairs_def image_iff) metis
    with assms(2) have "lookup_token ?cs (key a) = Some (print_of ni a)"
      by (simp only: lookup_token_cla_of map_of_is_SomeI)
    moreover have "parseImpl (default_value (val a)) (print_of ni a) = Ok (val a)"
      using d dumpable_print(1) [OF d] by (intro value_parse_print) (auto simp: dumpable_def default_value_idem)
    ultimately show ?thesis by (simp add: parse_from_def assign_argument_def)
  qed
  then have "mapM (parse_from ?cs \<circ> (\<lambda>a. a\<lparr>parsed := False, val := default_value (val a)\<rparr>)) args
      = Ok (map (\<lambda>a. a\<lparr>parsed := True\<rparr>) args)"
    by (intro mapM_all_Inr) simp
  moreover have "mapM f (map g xs) = mapM (f \<circ> g) xs" for f :: "Argument \<Rightarrow> Argument result" and g and xs :: "Argument list"
    by (induction xs) simp_all
  ultimately show ?thesis by (simp only: fresh_container_def)
qed

section \<open>Properties\<close>

text \<open>
  C1: A dumped command line reproduces its test. For arguments with distinct keys whose values
  survive printing, the printed line splits into tokens that \<open>CommandLineArgument::parseArguments\<close>
  accepts, and parsing them into a freshly constructed container of the test succeeds, gives every
  argument the value it was printed with, leaves no argument unset, and leaves exactly the tokens
  \<open>test\<close> and \<open>api\<close> for the configuration.
\<close>

theorem dumped_command_line_roundtrip:
  assumes "Api_to_string (tca_api arguments) = Ok api"
    and "list_all (dumpable ni) (tca_args arguments)"
    and "distinct (''test'' # ''api'' # map key (tca_args arguments))"
    and "list_all (\<lambda>c. \<not> isspace c) name"
  shows "\<exists>line cs args' cs'. getTestCaseNameWithConfig ni name arguments True = Ok line
     \<and> cla_parseArguments (exe # splitString line) = Inr cs
     \<and> parseArguments (fresh_container (tca_args arguments)) cs = Ok (args', cs')
     \<and> map val args' = map val (tca_args arguments)
     \<and> getUnparsedArguments args' = []
     \<and> map cla_key (getUnprocessedArguments cs') = [''test'', ''api'']"
proof -
  let ?args = "tca_args arguments" and ?kvs = "dump_pairs ni name api (tca_args arguments)"
  have keys: "map fst ?kvs = ''test'' # ''api'' # map key ?args" by (simp add: dump_pairs_def)
  have api: "list_all (\<lambda>c. \<not> isspace c) api"
    using assms(1) by (cases "tca_api arguments") (auto simp: isspace_def)
  have "key_ok ''test''" "key_ok ''api''" by (simp_all add: key_ok_def isspace_def)
  then have ok: "list_all (\<lambda>kv. key_ok (fst kv)) ?kvs"
    using assms(2) by (auto simp: dump_pairs_def list_all_iff dumpable_def)
  have "list_all is_token (map token_of ?kvs)"
    using ok assms(2,4) api dumpable_print(2)
    by (auto simp: dump_pairs_def list_all_iff intro!: token_of_is_token)
  then have split: "splitString (joinStrings '' '' ?kvs token_of) = map token_of ?kvs"
    by (rule splitString_joinStrings)
  have parse: "cla_parseArguments (exe # map token_of ?kvs) = Inr (map cla_of ?kvs)"
    using ok assms(3) keys by (intro parse_tokens) simp_all
  have cs: "list_all valid (map cla_of ?kvs)" "distinct (map cla_key (map cla_of ?kvs))"
    using assms(3) keys by (simp_all add: list_all_iff cla_of_def o_def)
  have fresh: "key ` set (fresh_container ?args) = key ` set ?args"
    by (simp add: fresh_container_def image_image)
  have "parseArguments (fresh_container ?args) (map cla_of ?kvs)
      = Ok (map (\<lambda>a. a\<lparr>parsed := True\<rparr>) ?args, map (mark_token (key ` set ?args)) (map cla_of ?kvs))"
    using parse_dumped [OF assms(2)] assms(3) keys fresh by (simp add: parseArguments_eq_Ok [OF cs])
  moreover have "map cla_key (getUnprocessedArguments (map (mark_token (key ` set ?args)) (map cla_of ?kvs)))
      = [''test'', ''api'']"
    using assms(3)
    by (auto simp: dump_pairs_def getUnprocessedArguments_def mark_token_def cla_of_def filter_empty_conv
        markAsProcessed_def)
  ultimately show ?thesis
    using getTestCaseNameWithConfig_tokens [OF assms(1,2)] split parse
    by (simp add: getUnparsedArguments_def o_def)
qed

theorem dumped_command_line_roundtrip_witness:
  "\<exists>line cs args' cs'.
     getTestCaseNameWithConfig False ''Test''
       \<lparr>tca_args = [\<lparr>key = ''size'', extraHelp = [], parsed = True, val = Arg_ByteSize 4096\<rparr>], tca_api = L0,
        tca_iterations = 1, tca_noIntelExtensions = False, isSingleTestMode = False\<rparr> True = Ok line
     \<and> cla_parseArguments (''exe'' # splitString line) = Inr cs
     \<and> parseArguments (fresh_container [\<lparr>key = ''size'', extraHelp = [], parsed = True, val = Arg_ByteSize 4096\<rparr>]) cs
         = Ok (args', cs')
     \<and> map val args' = [Arg_ByteSize 4096]"
  using dumped_command_line_roundtrip
    [of "\<lparr>tca_args = [\<lparr>key = ''size'', extraHelp = [], parsed = True, val = Arg_ByteSize 4096\<rparr>], tca_api = L0,
        tca_iterations = 1, tca_noIntelExtensions = False, isSingleTestMode = False\<rparr>" "''l0''" False "''Test''" "''exe''"]
  by (auto simp: dumpable_def key_ok_def byteSize_printable_def in_i64_def isspace_def)

text \<open>
  Every API that a dumped command line can name is read back by the option \<open>--api\<close>, except
  Unified Runtime: \<open>--api=ur\<close> parses to an unknown API and is rejected by validation.
\<close>

lemma dumped_api_readable_iff:
  assumes "Api_to_string api = Ok s"
  shows "(EnumArgument_parseImpl ApiArgument s = api \<longleftrightarrow> api \<noteq> UR)
    \<and> (EnumArgument_validate ApiArgument (EnumArgument_parseImpl ApiArgument s) \<longleftrightarrow> api \<noteq> UR)"
proof -
  have p: "EnumArgument_parseImpl ApiArgument ''ocl'' = OpenCL" "EnumArgument_parseImpl ApiArgument ''l0'' = L0"
    "EnumArgument_parseImpl ApiArgument ''sycl'' = SYCL" "EnumArgument_parseImpl ApiArgument ''omp'' = OMP"
    "EnumArgument_parseImpl ApiArgument ''ur'' = Api_Unknown"
    by code_simp+
  show ?thesis
    using assms p by (cases api) (auto simp: EnumArgument_validate_def ApiArgument_def)
qed

end
