(* ===== verification/Benchmark_Main.thy ===== *)
theory Benchmark_Main
  imports Dump_Command_Line
begin

text \<open>
  The driver of a benchmark binary: \<open>framework/benchmark_main.cpp\<close>, \<open>framework/test_map.h\<close> and the
  registration of test cases in \<open>framework/test_case/register_test_case.h\<close>.

  Functions that print return the exit code together with the text written to the standard output;
  messages to the error stream are left out. The run of all tests by googletest is a parameter of
  the driver, as are the functions that print devices.
\<close>

section \<open>TestMap\<close>

type_synonym TestMap = "(string \<times> TestCase) list"

definition RegisterTestCase :: "TestMap \<Rightarrow> TestCase \<Rightarrow> TestMap" where
  "RegisterTestCase testMap testCase = map_set testMap (tc_name testCase) testCase"

section \<open>BenchmarkMain\<close>

record BenchmarkMain =
  bm_argv :: "string list"
  benchmarkVersion :: string
  bm_info :: "BenchmarkInfo option"
  bm_testMap :: TestMap
  bm_functions :: "Functions list"
  bm_supportedApis :: "bool list"
  bm_show_double :: "Value \<Rightarrow> string"
  RUN_ALL_TESTS :: "Configuration \<Rightarrow> (int \<times> string) result"

text \<open>The streams are flushed with a line end; the result is the exit code and the text.\<close>

definition printVersion :: "BenchmarkMain \<Rightarrow> bool \<Rightarrow> string \<Rightarrow> int \<times> string" where
  "printVersion bm enableWarning prefix =
     (if benchmarkVersion bm \<noteq> [] then (0, prefix @ benchmarkVersion bm @ [newline])
      else if enableWarning then (1, [])
      else (0, []))"

definition docs_illegalCharacters :: string where
  "docs_illegalCharacters = '' -:='' @ [CHR 0x27, CHR 0x22] @ ''<>|{}[]/.,?'' @ [CHR 0x5C] @ ''+$''"

fun docs_arguments :: "Argument list \<Rightarrow> int \<times> string" where
  "docs_arguments [] = (0, [])"
| "docs_arguments (argument # arguments) =
     (let argumentKey = key argument; argumentHelp = extraHelp argument
      in if containsIllegalCharacters argumentKey docs_illegalCharacters then (1, [])
         else if containsIllegalCharacters argumentKey '';'' then (1, [])
         else let (r, text) = docs_arguments arguments
              in (r, ''  '' @ argumentKey @ '';'' @ argumentHelp @ [newline] @ text))"

fun docs_test_cases :: "TestMap \<Rightarrow> (int \<times> string) result" where
  "docs_test_cases [] = Ok (0, [])"
| "docs_test_cases ((_, testCase) # testMap) =
     bindR (getApisWithImplementation (tc_implementations testCase)) (\<lambda>apis.
     if apis = [] then docs_test_cases testMap
     else if containsIllegalCharacters (tc_name testCase) docs_illegalCharacters then Ok (1, [])
     else if containsIllegalCharacters (tc_help testCase) '';'' then Ok (1, [])
     else let line = '' '' @ tc_name testCase @ '';'' @ tc_help testCase @ [newline];
              (r, text) = docs_arguments (tc_arguments testCase)
          in if r \<noteq> 0 then Ok (r, line @ text)
             else bindR (docs_test_cases testMap) (\<lambda>(r', rest). Ok (r', line @ text @ rest)))"

definition generateDocs :: "BenchmarkInfo option \<Rightarrow> TestMap \<Rightarrow> (int \<times> string) result" where
  "generateDocs instance testMap =
     bindR (BenchmarkInfo_get instance) (\<lambda>benchmarkInfo.
     if containsIllegalCharacters (bi_name benchmarkInfo) docs_illegalCharacters then Ok (1, [])
     else if containsIllegalCharacters (bi_description benchmarkInfo) '';'' then Ok (1, [])
     else bindR (docs_test_cases testMap) (\<lambda>(r, text).
            Ok (r, bi_name benchmarkInfo @ '';'' @ bi_description benchmarkInfo @ [newline] @ text)))"

definition bm_environment :: "BenchmarkMain \<Rightarrow> Configuration \<Rightarrow> environment result" where
  "bm_environment bm cfg =
     bindR (BenchmarkInfo_get (bm_info bm)) (\<lambda>i.
       Ok \<lparr>env_configuration = cfg, env_supportedApis = bm_supportedApis bm,
           env_columnWidth = testCaseColumnWidth i, env_show_double = bm_show_double bm\<rparr>)"

definition executeSingleTest ::
  "BenchmarkMain \<Rightarrow> Configuration \<Rightarrow> CommandLineArgument list \<Rightarrow> string \<Rightarrow> (int \<times> string) result" where
  "executeSingleTest bm cfg commandLineArguments testName =
     (case map_of (bm_testMap bm) testName of
        None \<Rightarrow> Ok (1, [])
      | Some testCase \<Rightarrow>
          bindR (bm_environment bm cfg) (\<lambda>env.
          bindR (runFromCommandLine env testCase commandLineArguments) (\<lambda>(ok, text).
            Ok (if \<not> ok then 1 else 0, text))))"

definition mark_gtest :: "CommandLineArgument \<Rightarrow> CommandLineArgument" where
  "mark_gtest a = (if find_str (cla_key a) ''gtest_'' = Some 0 then markAsProcessed a else a)"

definition executeAllTests ::
  "BenchmarkMain \<Rightarrow> Configuration \<Rightarrow> CommandLineArgument list \<Rightarrow> (int \<times> string) result" where
  "executeAllTests bm cfg commandLineArguments =
     (if getUnprocessedArguments (map mark_gtest commandLineArguments) \<noteq> [] then Ok (1, [])
      else RUN_ALL_TESTS bm cfg)"

definition getBenchmarkFilename :: "BenchmarkInfo \<Rightarrow> string" where
  "getBenchmarkFilename i = bi_name i"

fun help_test_cases :: "TestMap \<Rightarrow> string result" where
  "help_test_cases [] = Ok []"
| "help_test_cases ((_, testCase) # testMap) =
     bindR (getApisWithImplementation (tc_implementations testCase)) (\<lambda>apis.
     if length apis = 0 then help_test_cases testMap
     else bindR (mapM getUserFriendlyApiName apis) (\<lambda>names.
          bindR (help_test_cases testMap) (\<lambda>rest.
          let helpParameters = getHelp 2 (tc_arguments testCase)
          in Ok ([CHR 0x09] @ tc_name testCase @ '' - '' @ tc_help testCase @
                 '' Supported compute APIs: '' @ joinStrings '', '' names (\<lambda>s. s) @ ''.'' @
                 (if length helpParameters \<noteq> 0 then '' Parameters:'' @ [newline] @ helpParameters else [newline]) @
                 [newline] @ rest))))"

definition help_line :: "string \<Rightarrow> string \<Rightarrow> string" where
  "help_line filename s = [CHR 0x09] @ filename @ s @ [newline]"

definition printHelp :: "BenchmarkInfo option \<Rightarrow> Configuration \<Rightarrow> TestMap \<Rightarrow> string result" where
  "printHelp instance cfg testMap =
     bindR (BenchmarkInfo_get instance) (\<lambda>i.
     let filename = getBenchmarkFilename i
     in bindR (help_test_cases testMap) (\<lambda>tests.
        Ok (bi_description i @ [newline, newline] @
            ''The benchmark works in two modes - all-tests mode and single-test mode. They are further described below. '' @
            ''Global parameters applicable for both modes:'' @ [newline] @
            getHelp 1 (cfg_args cfg) @ [newline, newline] @
            ''First mode is the default and it runs all available benchmarks in many predefined configurations. Underlying test engine '' @
            ''is googletest, so standard googletest arguments like --gtest_filter can be used, if necessary.'' @ [newline, newline] @
            ''Second mode runs one specific benchmark with custom parameter values. Running benchmarks in this fashion requires '' @
            ''using --test argument, along with benchmark-specific parameters. All parameters have to be specified, there are no '' @
            ''default values.'' @ [newline, newline] @
            ''Example invocations:'' @ [newline] @
            help_line filename ''                                                runs all possible tests'' @
            help_line filename '' --api=ocl                                      runs all possible OpenCL tests'' @
            help_line filename '' --iterations=100 --csv                         runs all possible tests with 100 iterations and dumps results as CSV'' @
            help_line filename '' --gtest_filter=<regex>                         runs all tests matching a regular expression'' @
            help_line filename ('' --gtest_filter=*TestName*                      runs a test named '' @
              [CHR 0x22] @ ''TestName'' @ [CHR 0x22] @ '' in all predefined configurations'') @
            help_line filename ('' --test=TestName --someParam=1 --otherParam=30  runs a test named '' @
              [CHR 0x22] @ ''TestName'' @ [CHR 0x22] @ '' with specified parameters'') @ [newline] @
            ''All available test cases with their parameters:'' @ [newline] @ tests)))"

text \<open>\<open>None\<close> stands for a nonzero return.\<close>

definition setupEnvironment :: "BenchmarkMain \<Rightarrow> (Configuration \<times> CommandLineArgument list) option result" where
  "setupEnvironment bm =
     (case cla_parseArguments (bm_argv bm) of
        Inl _ \<Rightarrow> Ok None
      | Inr commandLineArguments \<Rightarrow>
          bindR (parseArgumentsForConfiguration None commandLineArguments) (\<lambda>(ok, cfg, commandLineArguments').
            Ok (if \<not> ok then None else Some (cfg, commandLineArguments'))))"

text \<open>The text of the device information and the version comes before that of the tests.\<close>

definition run_tests :: "BenchmarkMain \<Rightarrow> Configuration \<Rightarrow> CommandLineArgument list \<Rightarrow> (int \<times> string) result" where
  "run_tests bm cfg commandLineArguments =
     bindR (if \<not> cfg_flag cfg ''noHeaders''
            then bindR (printDeviceInfo (bm_functions bm) cfg) (\<lambda>text.
                   Ok (text @ snd (printVersion bm False ''Benchmark version: '')))
            else Ok []) (\<lambda>headers.
     bindR (if cfg_string cfg ''test'' \<noteq> [] then executeSingleTest bm cfg commandLineArguments (cfg_string cfg ''test'')
            else executeAllTests bm cfg commandLineArguments) (\<lambda>(r, text).
       Ok (r, headers @ text)))"

definition main :: "BenchmarkMain \<Rightarrow> (int \<times> string) result" where
  "main bm =
     bindR (setupEnvironment bm) (\<lambda>setup.
     case setup of
       None \<Rightarrow> Ok (1, [])
     | Some (cfg, commandLineArguments) \<Rightarrow>
         if cfg_flag cfg ''generateDocs'' then generateDocs (bm_info bm) (bm_testMap bm)
         else if cfg_flag cfg ''hwInfo'' then
           bindR (printAvailableDevices (bm_functions bm) cfg) (\<lambda>text. Ok (0, text))
         else if cfg_flag cfg ''help'' then
           bindR (printHelp (bm_info bm) cfg (bm_testMap bm)) (\<lambda>text. Ok (0, text))
         else if cfg_flag cfg ''version'' then Ok (printVersion bm True [])
         else run_tests bm cfg commandLineArguments)"

section \<open>Running all tests\<close>

lemma find_keyD: "find (\<lambda>a. key a = k) xs = Some a \<Longrightarrow> key a = k"
  by (auto simp: find_Some_iff)

lemma cfg_field_absent:
  assumes m: "mapM (parse_from cs) (cfg_args make_Configuration) = Ok args" and k: "k \<notin> set (map cla_key cs)"
    and "cfg_args c = args" "cfg_field make_Configuration k = Some v"
  shows "cfg_field c k = Some v"
proof -
  obtain a where a: "find (\<lambda>a. key a = k) (cfg_args make_Configuration) = Some a" "val a = v"
    using assms(4) by (auto simp: cfg_field_def)
  have "parse_from cs a = Ok a" using find_keyD [OF a(1)] lookup_token_eq_None [OF k] by (simp add: parse_from_def)
  with find_parse_from [OF m a(1)] have "find (\<lambda>a. key a = k) args = Some a" by auto
  with a(2) assms(3) show ?thesis by (simp add: cfg_field_def)
qed

lemma cfg_string_test_absent:
  assumes "mapM (parse_from cs) (cfg_args make_Configuration) = Ok args" "''test'' \<notin> set (map cla_key cs)" "cfg_args c = args"
  shows "cfg_string c ''test'' = []"
proof -
  have "cfg_field make_Configuration ''test'' = Some (Arg_String [] True)" by code_simp
  from cfg_field_absent [OF assms this] show ?thesis by (simp add: cfg_string_def)
qed

lemma diagnostic_flag_keys:
  "''generateDocs'' \<in> set flag_keys" "''hwInfo'' \<in> set flag_keys" "''help'' \<in> set flag_keys" "''version'' \<in> set flag_keys"
  by code_simp+

lemma executeAllTests_marked:
  assumes "list_all (\<lambda>c. \<not> processed c) cs" "cs' = map (mark_token K) cs"
  shows "executeAllTests bm cfg cs' =
    (if list_all (\<lambda>c. cla_key c \<in> K \<or> starts_with (cla_key c) ''gtest_'') cs then RUN_ALL_TESTS bm cfg else Ok (1, []))"
proof -
  have "getUnprocessedArguments (map mark_gtest (map (mark_token K) cs)) = [] \<longleftrightarrow>
      list_all (\<lambda>c. cla_key c \<in> K \<or> starts_with (cla_key c) ''gtest_'') cs"
    using assms(1)
    by (induction cs) (auto simp: getUnprocessedArguments_def mark_gtest_def mark_token_def markAsProcessed_def)
  then show ?thesis using assms(2) by (simp add: executeAllTests_def)
qed

lemma cla_parseArguments_tokens:
  assumes "cla_parseArguments argv = Inr cs"
  shows "list_all valid cs" "distinct (map cla_key cs)" "list_all (\<lambda>c. \<not> processed c) cs"
proof -
  have t: "\<forall>t \<in> set (drop 1 argv). parseArgumentToKeyValue t \<noteq> None"
    "distinct (map (fst \<circ> the \<circ> parseArgumentToKeyValue) (drop 1 argv))" "cs = map make_CommandLineArgument (drop 1 argv)"
    using assms by (simp_all add: cla_parseArguments_def parseArguments_loop_Inr_iff)
  have "map cla_key cs = map (fst \<circ> the \<circ> parseArgumentToKeyValue) (drop 1 argv)"
    using t(1) make_CommandLineArgument_keys by (simp add: t(3))
  with t(2) show "distinct (map cla_key cs)" by (simp only:)
  show "list_all valid cs" "list_all (\<lambda>c. \<not> processed c) cs"
    using t(1,3) make_CommandLineArgument_keys by (simp_all add: list_all_iff)
qed

text \<open>
  C21: a benchmark never ignores an option. When the command line is accepted and asks for neither a
  single test nor one of the diagnostic actions, \<open>main\<close> prints its headers and then runs all tests
  exactly if every token has the key of a configuration field or a key that starts with \<open>gtest_\<close>;
  otherwise no test runs and the exit code is 1.
\<close>

theorem main_runs_all_tests_iff_known:
  assumes "cla_parseArguments (bm_argv bm) = Inr cs"
    and p: "parseArgumentsForConfiguration None cs = Ok (True, cfg, cs')"
    and "set (map cla_key cs) \<inter> {''test'', ''generateDocs'', ''hwInfo'', ''help'', ''version''} = {}"
  shows "main bm =
    bindR (if \<not> cfg_flag cfg ''noHeaders''
           then bindR (printDeviceInfo (bm_functions bm) cfg) (\<lambda>text. Ok (text @ snd (printVersion bm False ''Benchmark version: '')))
           else Ok []) (\<lambda>headers.
    bindR (if list_all (\<lambda>c. cla_key c \<in> key ` set (cfg_args make_Configuration) \<or> starts_with (cla_key c) ''gtest_'') cs
           then RUN_ALL_TESTS bm cfg else Ok (1, [])) (\<lambda>(r, text).
      Ok (r, headers @ text)))"
proof -
  note cs = cla_parseArguments_tokens [OF assms(1)]
  obtain args where m: "mapM (parse_from cs) (cfg_args make_Configuration) = Ok args"
    and cfg: "cfg = select_printType (make_Configuration\<lparr>cfg_args := args\<rparr>)"
    and cs': "cs' = map (mark_token (key ` set (cfg_args make_Configuration))) cs"
    by (rule parseArgumentsForConfiguration_Ok [OF cs(1,2) p]) auto
  have args: "cfg_args cfg = args" by (simp add: cfg)
  note flag = cfg_flag_after_parse [OF m _ args]
  have "\<not> cfg_flag cfg ''generateDocs''" "\<not> cfg_flag cfg ''hwInfo''" "\<not> cfg_flag cfg ''help''" "\<not> cfg_flag cfg ''version''"
    using flag diagnostic_flag_keys assms(3) by auto
  moreover have "cfg_string cfg ''test'' = []" using cfg_string_test_absent [OF m _ args] assms(3) by auto
  ultimately show ?thesis
    using assms(1) p
    by (simp add: main_def setupEnvironment_def run_tests_def executeAllTests_marked [OF cs(3) cs'])
qed

definition example_main :: "string list \<Rightarrow> BenchmarkMain" where
  "example_main argv = \<lparr>bm_argv = argv, benchmarkVersion = ''1.0'',
     bm_info = Some \<lparr>bi_name = ''bench'', bi_description = ''A benchmark'', testCaseColumnWidth = 40\<rparr>, bm_testMap = [],
     bm_functions = no_functions, bm_supportedApis = no_supportedApis, bm_show_double = (\<lambda>_. ''0''),
     RUN_ALL_TESTS = (\<lambda>_. Ok (0, ''all tests''))\<rparr>"

theorem main_runs_all_tests_iff_known_witness:
  "main (example_main [''bench'', ''--noHeaders'', ''--iteratons=5'']) = Ok (1, [])"
proof -
  let ?argv = "[''bench'', ''--noHeaders'', ''--iteratons=5'']"
  let ?cs = "map make_CommandLineArgument (tl ?argv)"
  have c: "cla_parseArguments ?argv = Inr ?cs" by code_simp
  have "case parseArgumentsForConfiguration None ?cs of
      Inr (True, cfg, _) \<Rightarrow> cfg_flag cfg ''noHeaders'' | _ \<Rightarrow> False" by code_simp
  then obtain cfg cs' where p: "parseArgumentsForConfiguration None ?cs = Ok (True, cfg, cs')" "cfg_flag cfg ''noHeaders''"
    by (auto split: sum.splits prod.splits bool.splits)
  have "set (map cla_key ?cs) \<inter> {''test'', ''generateDocs'', ''hwInfo'', ''help'', ''version''} = {}"
    and "\<not> list_all (\<lambda>c. cla_key c \<in> key ` set (cfg_args make_Configuration) \<or> starts_with (cla_key c) ''gtest_'') ?cs"
    by code_simp+
  with main_runs_all_tests_iff_known [of "example_main ?argv" ?cs cfg cs'] c p show ?thesis
    by (simp add: example_main_def)
qed

end
