(* ===== verification/Docs_Generator.thy ===== *)
theory Docs_Generator
  imports Benchmark_Main
begin

text \<open>
  The documentation generator, \<open>docs_generator/main.cpp\<close>, \<open>data_types.h\<close> and \<open>helpers.h\<close>: it runs
  every benchmark binary with \<open>--generateDocs\<close>, parses what \<open>BenchmarkMain::generateDocs\<close> printed,
  merges the binaries of one benchmark (one per API) and prints tables.

  A binary is a parameter: a function from its path to its exit code and its output. The files
  written are returned as pairs of a location and a text.
\<close>

section \<open>data\_types.h\<close>

record BenchmarkInstance =
  inst_location :: string
  inst_baseName :: string
  inst_path :: string
  inst_api :: Api

definition deduceBaseName :: "string \<Rightarrow> string result" where
  "deduceBaseName name =
     (case rfind_str name ''_'' of
        None \<Rightarrow> FATAL_ERROR (''Could not deduce base name from '' @ name)
      | Some position \<Rightarrow> Ok (substr name 0 position))"

definition deduceApi :: "string \<Rightarrow> Api result" where
  "deduceApi name =
     (case rfind_str name ''_'' of
        None \<Rightarrow> FATAL_ERROR (''Could not deduce API from '' @ name)
      | Some position \<Rightarrow>
          let api = parseApi (drop (position + 1) name)
          in FATAL_ERROR_IF (api = Api_Unknown \<or> api = Api_All) (''Could not parse API from '' @ name) (Ok api))"

definition make_BenchmarkInstance :: "string \<Rightarrow> string \<Rightarrow> string \<Rightarrow> BenchmarkInstance result" where
  "make_BenchmarkInstance location name path =
     bindR (deduceBaseName name) (\<lambda>base.
     bindR (deduceApi name) (\<lambda>api.
       Ok \<lparr>inst_location = location, inst_baseName = base, inst_path = path, inst_api = api\<rparr>))"

record TestCaseArgument =
  darg_name :: string
  darg_help :: string

record DocTestCase =
  dtc_name :: string
  dtc_help :: string
  dtc_apis :: "Api list"
  dtc_arguments :: "(string \<times> TestCaseArgument) list"

record Benchmark =
  doc_location :: string
  doc_baseName :: string
  doc_instances :: "BenchmarkInstance list"
  doc_description :: string
  doc_testCases :: "(string \<times> DocTestCase) list"

text \<open>\<open>m[k]\<close> of a \<open>std::map\<close> for a key that may be missing.\<close>

definition map_get :: "'v \<Rightarrow> (string \<times> 'v) list \<Rightarrow> string \<Rightarrow> 'v" where
  "map_get d m k = (case map_of m k of None \<Rightarrow> d | Some v \<Rightarrow> v)"

definition no_argument :: TestCaseArgument where
  "no_argument = \<lparr>darg_name = [], darg_help = []\<rparr>"

definition no_testCase :: DocTestCase where
  "no_testCase = \<lparr>dtc_name = [], dtc_help = [], dtc_apis = [], dtc_arguments = []\<rparr>"

definition no_benchmark :: Benchmark where
  "no_benchmark = \<lparr>doc_location = [], doc_baseName = [], doc_instances = [], doc_description = [], doc_testCases = []\<rparr>"

section \<open>helpers.h\<close>

definition assignAndValidate :: "string \<Rightarrow> string \<Rightarrow> string \<Rightarrow> string result" where
  "assignAndValidate destination source message =
     (if destination = [] then Ok source
      else FATAL_ERROR_IF (destination \<noteq> source) (''String mismatch detected during '' @ message) (Ok destination))"

definition splitToTwoTokens :: "string \<Rightarrow> (string \<times> string) result" where
  "splitToTwoTokens line =
     (case find_str line '';'' of
        None \<Rightarrow> FATAL_ERROR (''Expected '' @ [CHR 0x27, CHR '';'', CHR 0x27] @ '' delimetr in line'')
      | Some pos \<Rightarrow>
          let token0 = substr line 0 pos; token1 = drop (pos + 1) line
          in FATAL_ERROR_IF (find_str token1 '';'' \<noteq> None) 
               (''Too many '' @ [CHR 0x27, CHR '';'', CHR 0x27] @ '' delimeters in line'')
               (Ok (token0, rev (dropWhile (\<lambda>c. c = CHR 0x0D) (rev token1)))))"

section \<open>Parsing the output of a binary\<close>

text \<open>The lines \<open>std::getline\<close> reads one after the other.\<close>

function getlines :: "string \<Rightarrow> string list" where
  "getlines s =
     (if s = [] then []
      else takeWhile (\<lambda>c. c \<noteq> newline) s # getlines (drop 1 (dropWhile (\<lambda>c. c \<noteq> newline) s)))"
  by pat_completeness auto
termination
proof (relation "measure length")
  fix s :: string
  assume "s \<noteq> []"
  moreover have "length (dropWhile (\<lambda>c. c \<noteq> newline) s) \<le> length s" by (rule length_dropWhile_le)
  ultimately have "length (dropWhile (\<lambda>c. c \<noteq> newline) s) - 1 < length s" by (cases s) auto
  then show "(drop 1 (dropWhile (\<lambda>c. c \<noteq> newline) s), s) \<in> measure length" by simp
qed simp

declare getlines.simps [simp del]

text \<open>The test cases read so far and the one arguments belong to; \<open>None\<close> is the end iterator.\<close>

type_synonym docs_state = "(string \<times> DocTestCase) list \<times> string option"

definition parse_test_case :: "Api \<Rightarrow> docs_state \<Rightarrow> string \<Rightarrow> docs_state result" where
  "parse_test_case api st line =
     bindR (splitToTwoTokens line) (\<lambda>(token0, token1).
     let testCase = map_get no_testCase (fst st) token0
     in bindR (assignAndValidate (dtc_name testCase) token0 ''assigning test case name'') (\<lambda>name.
        bindR (assignAndValidate (dtc_help testCase) token1 ''assigning test case help message'') (\<lambda>help.
        FATAL_ERROR_IF (api \<in> set (dtc_apis testCase)) ''API for test case was duplicated''
          (Ok (map_set (fst st) token0
                 (testCase\<lparr>dtc_name := name, dtc_help := help, dtc_apis := api # dtc_apis testCase\<rparr>),
               Some token0)))))"

definition parse_argument :: "docs_state \<Rightarrow> string \<Rightarrow> docs_state result" where
  "parse_argument st line =
     (case snd st of
        None \<Rightarrow> FATAL_ERROR ''Argument was printed before any test cases''
      | Some current \<Rightarrow>
          bindR (splitToTwoTokens line) (\<lambda>(token0, token1).
          let testCase = map_get no_testCase (fst st) current;
              argument = map_get no_argument (dtc_arguments testCase) token0
          in bindR (assignAndValidate (darg_name argument) token0 ''assigning argument name'') (\<lambda>name.
             bindR (assignAndValidate (darg_help argument) token1 ''assigning argument help message'') (\<lambda>help.
             Ok (map_set (fst st) current
                   (testCase\<lparr>dtc_arguments := map_set (dtc_arguments testCase) token0 \<lparr>darg_name = name, darg_help = help\<rparr>\<rparr>),
                 snd st)))))"

definition parse_docs_line :: "Api \<Rightarrow> docs_state \<Rightarrow> string \<Rightarrow> docs_state result" where
  "parse_docs_line api st line0 =
     (let (spaces, line) = cutLeadingSpaces line0
      in if spaces = 1 then parse_test_case api st line
         else if spaces = 2 then parse_argument st line
         else FATAL_ERROR ''Invalid number of leading spaces detected'')"

definition parse_output :: "BenchmarkInstance \<Rightarrow> Benchmark \<Rightarrow> string \<Rightarrow> Benchmark result" where
  "parse_output benchmarkInstance benchmark output =
     (case getlines output of
        [] \<Rightarrow> FATAL_ERROR (''Could parse first line of output of '' @ inst_path benchmarkInstance)
      | first # rest \<Rightarrow>
          let (spaces, line) = cutLeadingSpaces first
          in FATAL_ERROR_IF (spaces \<noteq> 0)
               (''First line of output of '' @ inst_path benchmarkInstance @ '' started with a space'')
            (bindR (splitToTwoTokens line) (\<lambda>(token0, token1).
             bindR (assignAndValidate (doc_baseName benchmark) token0 '' setting base name from benchmark output'') (\<lambda>base.
             bindR (assignAndValidate (doc_description benchmark) token1 '' setting description from benchmark output'') (\<lambda>desc.
             bindR (foldM (parse_docs_line (inst_api benchmarkInstance)) (doc_testCases benchmark, None) rest) (\<lambda>(tests, _).
               Ok (benchmark\<lparr>doc_baseName := base, doc_description := desc, doc_testCases := tests\<rparr>)))))))"

section \<open>main.cpp\<close>

type_synonym Benchmarks = "(string \<times> Benchmark) list"

text \<open>Grouping the instances by base name; the set of locations is kept as a map to units.\<close>

definition group_instance ::
  "Benchmarks \<times> (string \<times> unit) list \<Rightarrow> BenchmarkInstance \<Rightarrow> (Benchmarks \<times> (string \<times> unit) list) result" where
  "group_instance st benchmarkInstance =
     (let benchmark = map_get no_benchmark (fst st) (inst_baseName benchmarkInstance)
      in bindR (assignAndValidate (doc_baseName benchmark) (inst_baseName benchmarkInstance)
                  ''setting base name from benchmark instance'') (\<lambda>base.
         bindR (assignAndValidate (doc_location benchmark) (inst_location benchmarkInstance)
                  ''setting location from benchmark instance'') (\<lambda>location.
         Ok (map_set (fst st) (inst_baseName benchmarkInstance)
               (benchmark\<lparr>doc_baseName := base, doc_location := location,
                          doc_instances := doc_instances benchmark @ [benchmarkInstance]\<rparr>),
             map_set (snd st) (inst_location benchmarkInstance) ()))))"

text \<open>Running one binary: its exit code has to be that of success.\<close>

definition gather_instance ::
  "(string \<Rightarrow> int \<times> string) \<Rightarrow> Benchmark \<Rightarrow> BenchmarkInstance \<Rightarrow> Benchmark result" where
  "gather_instance binary benchmark benchmarkInstance =
     (let (result, output) = binary (inst_path benchmarkInstance)
      in FATAL_ERROR_IF (result \<noteq> 0)
           (''Generating docs from '' @ inst_path benchmarkInstance @ '' failed.'' @ [newline] @ output)
           (parse_output benchmarkInstance benchmark output))"

definition gather :: "(string \<Rightarrow> int \<times> string) \<Rightarrow> Benchmarks \<Rightarrow> Benchmarks result" where
  "gather binary benchmarks =
     mapM (\<lambda>(name, benchmark).
       bindR (foldM (gather_instance binary) benchmark (doc_instances benchmark)) (\<lambda>b. Ok (name, b))) benchmarks"

definition check_mark :: "Api \<Rightarrow> DocTestCase \<Rightarrow> string" where
  "check_mark api testCase = (if api \<in> set (dtc_apis testCase) then '':heavy_check_mark:'' else '':x:'')"

definition markdown_testCase :: "DocTestCase \<Rightarrow> string" where
  "markdown_testCase testCase =
     dtc_name testCase @ ''|'' @ dtc_help testCase @ ''|'' @ ''<ul>'' @
     concat (map (\<lambda>(_, argument). ''<li>--'' @ darg_name argument @ '' '' @ darg_help argument @ ''</li>'')
       (dtc_arguments testCase)) @
     ''</ul>|'' @ check_mark L0 testCase @ ''|'' @ check_mark OpenCL testCase @ ''|'' @ [newline]"

definition markdown_benchmark :: "Benchmark \<Rightarrow> string" where
  "markdown_benchmark benchmark =
     ''# '' @ doc_baseName benchmark @ [newline] @ doc_description benchmark @ [newline] @
     ''| Test name | Description | Params | L0 | OCL |'' @ [newline] @
     ''|-----------|-------------|--------|----|-----|'' @ [newline] @
     concat (map (\<lambda>(_, testCase). markdown_testCase testCase) (doc_testCases benchmark)) @ [newline, newline, newline]"

definition markdown_location :: "Benchmarks \<Rightarrow> string \<Rightarrow> string" where
  "markdown_location benchmarks location =
     concat (map (\<lambda>(_, benchmark). if doc_location benchmark \<noteq> location then [] else markdown_benchmark benchmark) benchmarks)"

definition docs_main ::
  "(string \<Rightarrow> int \<times> string) \<Rightarrow> BenchmarkInstance list \<Rightarrow> (string \<times> string) list result" where
  "docs_main binary benchmarkInstances =
     bindR (foldM group_instance ([], []) benchmarkInstances) (\<lambda>(benchmarks, locations).
     bindR (gather binary benchmarks) (\<lambda>benchmarks'.
       Ok (map (\<lambda>(location, _). (location, markdown_location benchmarks' location)) locations)))"

section \<open>Lines and tokens\<close>

lemma getlines_Nil [simp]: "getlines [] = []"
  by (simp add: getlines.simps)

lemma getlines_Cons: "newline \<notin> set l \<Longrightarrow> getlines (l @ newline # rest) = l # getlines rest"
proof -
  assume n: "newline \<notin> set l"
  then have "takeWhile (\<lambda>c. c \<noteq> newline) (l @ newline # rest) = l"
    "dropWhile (\<lambda>c. c \<noteq> newline) (l @ newline # rest) = newline # rest"
    by (induction l) auto
  then show ?thesis by (subst getlines.simps) simp
qed

lemma getlines_concat:
  "list_all (\<lambda>l. newline \<notin> set l) ls \<Longrightarrow> getlines (concat (map (\<lambda>l. l @ [newline]) ls)) = ls"
  by (induction ls) (auto simp: getlines_Cons)

lemma cutLeadingSpaces_line:
  assumes "CHR '' '' \<notin> set name"
  shows "cutLeadingSpaces (replicate n (CHR '' '') @ name @ '';'' @ help) = (n, name @ '';'' @ help)"
proof -
  have "takeWhile (\<lambda>c. c = CHR '' '') (name @ '';'' @ help) = []" using assms by (cases name) auto
  then have "takeWhile (\<lambda>c. c = CHR '' '') (replicate n (CHR '' '') @ name @ '';'' @ help) = replicate n (CHR '' '')"
    by (induction n) auto
  then show ?thesis by (simp add: cutLeadingSpaces_def Let_def)
qed

lemma dropWhile_none: "(\<And>x. x \<in> set xs \<Longrightarrow> \<not> P x) \<Longrightarrow> dropWhile P xs = xs"
  by (cases xs) auto

lemma splitToTwoTokens_line:
  assumes "CHR '';'' \<notin> set name" "CHR '';'' \<notin> set help" "CHR 0x0D \<notin> set help"
  shows "splitToTwoTokens (name @ '';'' @ help) = Ok (name, help)"
proof -
  have "dropWhile (\<lambda>c. c = CHR 0x0D) (rev help) = rev help"
    using assms(3) by (intro dropWhile_none) auto
  then show ?thesis
    using assms find_str_char_append [of "CHR '';''" name "help"]
    by (simp add: splitToTwoTokens_def substr_def find_str_char_None)
qed

lemma rfind_char_None: "c \<notin> set t \<Longrightarrow> rfind_str t [c] = None"
  by (induction t) auto

lemma rfind_char_last: "c \<notin> set t \<Longrightarrow> rfind_str (s @ [c] @ t) [c] = Some (length s)"
  by (induction s) (auto simp: rfind_char_None)

lemma assignAndValidate_fresh [simp]: "assignAndValidate [] s m = Ok s" "assignAndValidate s s m = Ok s"
  by (simp_all add: assignAndValidate_def)

section \<open>Round trip\<close>

text \<open>What the generator holds of a test case after it read the output of one binary.\<close>

definition doc_argument :: "Argument \<Rightarrow> TestCaseArgument" where
  "doc_argument a = \<lparr>darg_name = key a, darg_help = extraHelp a\<rparr>"

definition doc_testCase :: "Api \<Rightarrow> TestCase \<Rightarrow> DocTestCase" where
  "doc_testCase api tc = \<lparr>dtc_name = tc_name tc, dtc_help = tc_help tc, dtc_apis = [api],
     dtc_arguments = foldl (\<lambda>m a. map_set m (key a) (doc_argument a)) [] (tc_arguments tc)\<rparr>"

definition documented :: "TestMap \<Rightarrow> TestMap" where
  "documented testMap = filter (\<lambda>(_, tc). getApisWithImplementation (tc_implementations tc) \<noteq> Ok []) testMap"

text \<open>Texts without the characters that structure the output.\<close>

definition plain_name :: "string \<Rightarrow> bool" where
  "plain_name s \<longleftrightarrow> newline \<notin> set s \<and> CHR '';'' \<notin> set s"

definition plain_help :: "string \<Rightarrow> bool" where
  "plain_help s \<longleftrightarrow> newline \<notin> set s \<and> CHR 0x0D \<notin> set s"

definition plain_testCase :: "TestCase \<Rightarrow> bool" where
  "plain_testCase tc \<longleftrightarrow> plain_name (tc_name tc) \<and> plain_help (tc_help tc) \<and> distinct (map key (tc_arguments tc)) \<and>
     list_all (\<lambda>a. plain_name (key a) \<and> plain_help (extraHelp a) \<and> CHR '';'' \<notin> set (extraHelp a)) (tc_arguments tc)"

lemma not_illegal_space: "\<not> containsIllegalCharacters s docs_illegalCharacters \<Longrightarrow> CHR '' '' \<notin> set s"
proof
  assume "\<not> containsIllegalCharacters s docs_illegalCharacters" "CHR '' '' \<in> set s"
  moreover have "find_str docs_illegalCharacters '' '' \<noteq> None" by code_simp
  ultimately show False by (auto simp: containsIllegalCharacters_def list_ex_iff)
qed

lemma not_illegal_semicolon: "\<not> containsIllegalCharacters s '';'' \<longleftrightarrow> CHR '';'' \<notin> set s"
  by (induction s) (auto simp: containsIllegalCharacters_def find_str_char_None)

definition argument_line :: "Argument \<Rightarrow> string" where
  "argument_line a = ''  '' @ key a @ '';'' @ extraHelp a"

lemma docs_arguments_0:
  "docs_arguments args = (0, out) \<Longrightarrow>
     out = concat (map (\<lambda>a. argument_line a @ [newline]) args) \<and> list_all (\<lambda>a. CHR '' '' \<notin> set (key a)) args"
  by (induction args arbitrary: out)
    (auto simp: Let_def argument_line_def not_illegal_space split: if_splits prod.splits)

lemma map_get_map_set:
  "sorted_wrt (<) (map fst m) \<Longrightarrow> map_get d (map_set m k v) g = (if g = k then v else map_get d m g)"
  by (simp add: map_get_def map_of_map_set)

lemma map_set_map_set: "sorted_wrt (<) (map fst m) \<Longrightarrow> map_set (map_set m k v) k w = map_set m k w"
  by (induction m k v rule: map_set.induct) auto

lemma parse_argument_lines:
  assumes "sorted_wrt (<) (map fst m)" "sorted_wrt (<) (map fst (dtc_arguments t))"
    and "list_all (\<lambda>a. plain_name (key a) \<and> plain_help (extraHelp a) \<and> CHR '';'' \<notin> set (extraHelp a) \<and> CHR '' '' \<notin> set (key a)) args"
    and "distinct (map key args)" "\<forall>a \<in> set args. map_of (dtc_arguments t) (key a) = None"
  shows "foldM (parse_docs_line api) (map_set m n t, Some n) (map argument_line args) =
    Ok (map_set m n (t\<lparr>dtc_arguments := foldl (\<lambda>m a. map_set m (key a) (doc_argument a)) (dtc_arguments t) args\<rparr>), Some n)"
  using assms
proof (induction args arbitrary: t)
  case (Cons a args)
  let ?t = "t\<lparr>dtc_arguments := map_set (dtc_arguments t) (key a) (doc_argument a)\<rparr>"
  have "cutLeadingSpaces (argument_line a) = (2, key a @ '';'' @ extraHelp a)"
    using cutLeadingSpaces_line [of "key a" 2 "extraHelp a"] Cons.prems(3)
    by (simp add: argument_line_def numeral_2_eq_2)
  moreover have "splitToTwoTokens (key a @ '';'' @ extraHelp a) = Ok (key a, extraHelp a)"
    using Cons.prems(3) by (intro splitToTwoTokens_line) (simp_all add: plain_name_def plain_help_def)
  moreover have "map_get no_argument (dtc_arguments t) (key a) = no_argument"
    using Cons.prems(5) by (simp add: map_get_def)
  ultimately have "parse_docs_line api (map_set m n t, Some n) (argument_line a) = Ok (map_set m n ?t, Some n)"
    using Cons.prems(1)
    by (simp add: parse_docs_line_def parse_argument_def map_get_map_set map_set_map_set no_argument_def doc_argument_def)
  moreover have "foldM (parse_docs_line api) (map_set m n ?t, Some n) (map argument_line args) =
    Ok (map_set m n (?t\<lparr>dtc_arguments := foldl (\<lambda>m a. map_set m (key a) (doc_argument a)) (dtc_arguments ?t) args\<rparr>), Some n)"
    using Cons.prems by (intro Cons.IH) (auto simp: map_set_sorted map_of_map_set image_iff)
  ultimately show ?case by simp
qed simp

lemma map_set_last: "\<forall>k' \<in> fst ` set m. k' < k \<Longrightarrow> map_set m k v = m @ [(k, v)]"
  by (induction m) auto

definition test_case_lines :: "TestCase \<Rightarrow> string list" where
  "test_case_lines tc = ('' '' @ tc_name tc @ '';'' @ tc_help tc) # map argument_line (tc_arguments tc)"

lemma parse_test_case_lines:
  assumes "sorted_wrt (<) (map fst m)" "\<forall>k \<in> fst ` set m. k < tc_name tc" "plain_testCase tc"
    and "CHR '' '' \<notin> set (tc_name tc)" "CHR '';'' \<notin> set (tc_help tc)"
    and "list_all (\<lambda>a. CHR '' '' \<notin> set (key a)) (tc_arguments tc)"
  shows "foldM (parse_docs_line api) (m, current) (test_case_lines tc) =
    Ok (m @ [(tc_name tc, doc_testCase api tc)], Some (tc_name tc))"
proof -
  let ?t = "\<lparr>dtc_name = tc_name tc, dtc_help = tc_help tc, dtc_apis = [api], dtc_arguments = []\<rparr>"
  have "cutLeadingSpaces ('' '' @ tc_name tc @ '';'' @ tc_help tc) = (1, tc_name tc @ '';'' @ tc_help tc)"
    using cutLeadingSpaces_line [of "tc_name tc" 1 "tc_help tc"] assms(4) by simp
  moreover have "splitToTwoTokens (tc_name tc @ '';'' @ tc_help tc) = Ok (tc_name tc, tc_help tc)"
    using assms(3,5) by (intro splitToTwoTokens_line) (simp_all add: plain_testCase_def plain_name_def plain_help_def)
  moreover have "map_get no_testCase m (tc_name tc) = no_testCase"
    using assms(2) by (auto simp: map_get_def map_of_eq_None_iff split: option.splits dest!: map_of_SomeD)
  ultimately have first: "parse_docs_line api (m, current) ('' '' @ tc_name tc @ '';'' @ tc_help tc) =
      Ok (map_set m (tc_name tc) ?t, Some (tc_name tc))"
    by (simp add: parse_docs_line_def parse_test_case_def no_testCase_def)
  have "foldM (parse_docs_line api) (map_set m (tc_name tc) ?t, Some (tc_name tc)) (map argument_line (tc_arguments tc)) =
      Ok (map_set m (tc_name tc) (?t\<lparr>dtc_arguments :=
        foldl (\<lambda>m a. map_set m (key a) (doc_argument a)) (dtc_arguments ?t) (tc_arguments tc)\<rparr>), Some (tc_name tc))"
    using assms by (intro parse_argument_lines) (auto simp: plain_testCase_def list_all_iff)
  then show ?thesis
    using first map_set_last [OF assms(2)] by (simp add: test_case_lines_def doc_testCase_def)
qed

lemma docs_test_cases_Cons:
  assumes "docs_test_cases ((k, tc) # tm) = Ok (0, out)"
  obtains (skipped) "documented ((k, tc) # tm) = documented tm" "docs_test_cases tm = Ok (0, out)"
    | (printed) rest where "documented ((k, tc) # tm) = (k, tc) # documented tm" "docs_test_cases tm = Ok (0, rest)"
      "out = concat (map (\<lambda>l. l @ [newline]) (test_case_lines tc)) @ rest"
      "CHR '' '' \<notin> set (tc_name tc)" "CHR '';'' \<notin> set (tc_help tc)"
      "list_all (\<lambda>a. CHR '' '' \<notin> set (key a)) (tc_arguments tc)"
proof -
  obtain apis where apis: "getApisWithImplementation (tc_implementations tc) = Ok apis"
    using assms by (auto simp: bindR_eq_Inr)
  show thesis
  proof (cases "apis = []")
    case True
    with assms apis show thesis by (intro skipped) (simp_all add: documented_def)
  next
    case False
    obtain t where a: "docs_arguments (tc_arguments tc) = (0, t)"
      using assms apis False by (cases "docs_arguments (tc_arguments tc)") (auto simp: Let_def split: if_splits)
    obtain rest where "docs_test_cases tm = Ok (0, rest)"
      "out = '' '' @ tc_name tc @ '';'' @ tc_help tc @ [newline] @ t @ rest"
      using assms apis False a by (auto simp: bindR_eq_Inr split: if_splits)
    with docs_arguments_0 [OF a] assms apis False show thesis
      by (intro printed) (auto simp: documented_def test_case_lines_def comp_def
          not_illegal_space not_illegal_semicolon split: if_splits)
  qed
qed

lemma docs_test_cases_parse:
  assumes "docs_test_cases tm = Ok (0, out)" "\<forall>(k, tc) \<in> set (documented tm). k = tc_name tc \<and> plain_testCase tc"
    and "sorted_wrt (<) (map fst m)" "sorted_wrt (<) (map fst tm)" "\<forall>k \<in> fst ` set m. \<forall>k' \<in> fst ` set tm. k < k'"
  shows "\<exists>ls current'. out = concat (map (\<lambda>l. l @ [newline]) ls) \<and> list_all (\<lambda>l. newline \<notin> set l) ls \<and>
    foldM (parse_docs_line api) (m, current) ls =
      Ok (m @ map (\<lambda>(k, tc). (k, doc_testCase api tc)) (documented tm), current')"
  using assms
proof (induction tm arbitrary: m current out)
  case Nil
  then show ?case by (intro exI [of _ "[]"]) (simp add: documented_def)
next
  case (Cons x tm)
  obtain k tc where x: "x = (k, tc)" by fastforce
  from Cons.prems(1) [unfolded x] show ?case
  proof (cases rule: docs_test_cases_Cons)
    case skipped
    with Cons.IH [of out m] Cons.prems show ?thesis by (simp add: x)
  next
    case (printed rest)
    have tc: "k = tc_name tc" "plain_testCase tc" using Cons.prems(2) printed(1) by (auto simp: x)
    have m: "\<forall>k' \<in> fst ` set m. k' < tc_name tc" using Cons.prems(5) tc(1) by (auto simp: x)
    note head = parse_test_case_lines [OF Cons.prems(3) m tc(2) printed(4-6), of api current]
    let ?m = "m @ [(tc_name tc, doc_testCase api tc)]"
    have "\<exists>ls current'. rest = concat (map (\<lambda>l. l @ [newline]) ls) \<and> list_all (\<lambda>l. newline \<notin> set l) ls \<and>
      foldM (parse_docs_line api) (?m, Some (tc_name tc)) ls =
        Ok (?m @ map (\<lambda>(k, tc). (k, doc_testCase api tc)) (documented tm), current')"
      using Cons.prems printed(1) tc m
      by (intro Cons.IH printed(2)) (auto simp: x sorted_wrt_append)
    then obtain ls current' where ls: "rest = concat (map (\<lambda>l. l @ [newline]) ls)" "list_all (\<lambda>l. newline \<notin> set l) ls"
      "foldM (parse_docs_line api) (?m, Some (tc_name tc)) ls =
        Ok (?m @ map (\<lambda>(k, tc). (k, doc_testCase api tc)) (documented tm), current')" by blast
    have "list_all (\<lambda>l. newline \<notin> set l) (test_case_lines tc)"
      using tc(2) by (auto simp: test_case_lines_def argument_line_def plain_testCase_def plain_name_def plain_help_def list_all_iff)
    with ls head printed(1,3) tc(1) show ?thesis
      by (intro exI [of _ "test_case_lines tc @ ls"] exI [of _ current']) (simp add: x foldM_append)
  qed
qed

section \<open>Properties\<close>

text \<open>
  C22: what a benchmark prints for \<open>--generateDocs\<close>, the documentation generator reads back. If
  \<open>generateDocs\<close> succeeds on a registry sorted by name, whose names and help texts contain no line
  ends and whose argument keys are distinct within a test, and if no help text of an argument
  contains a semicolon (the one condition of the format \<open>generateDocs\<close> does not check), then parsing
  its output into a benchmark not seen before gives its name, its description and exactly the test
  cases with an implementation, each with its help, its arguments and the API of the binary.
\<close>

theorem generateDocs_roundtrip:
  assumes "generateDocs (Some benchmarkInfo) testMap = Ok (0, output)"
    and "sorted_wrt (<) (map fst testMap)"
    and "\<forall>(k, tc) \<in> set (documented testMap). k = tc_name tc \<and> plain_testCase tc"
    and "plain_name (bi_name benchmarkInfo)" "plain_help (bi_description benchmarkInfo)"
    and "doc_baseName benchmark = bi_name benchmarkInfo" "doc_description benchmark = []" "doc_testCases benchmark = []"
  shows "parse_output benchmarkInstance benchmark output =
    Ok (benchmark\<lparr>doc_description := bi_description benchmarkInfo,
         doc_testCases := map (\<lambda>(k, tc). (k, doc_testCase (inst_api benchmarkInstance) tc)) (documented testMap)\<rparr>)"
proof -
  let ?first = "bi_name benchmarkInfo @ '';'' @ bi_description benchmarkInfo"
  obtain t where t: "docs_test_cases testMap = Ok (0, t)" "output = ?first @ newline # t"
    and names: "CHR '' '' \<notin> set (bi_name benchmarkInfo)" "CHR '';'' \<notin> set (bi_description benchmarkInfo)"
    using assms(1)
    by (auto simp: generateDocs_def BenchmarkInfo_get_def bindR_eq_Inr not_illegal_space not_illegal_semicolon
        split: if_splits)
  from docs_test_cases_parse [OF t(1) assms(3), of "[]" "inst_api benchmarkInstance" None] assms(2)
  obtain ls current' where ls: "t = concat (map (\<lambda>l. l @ [newline]) ls)" "list_all (\<lambda>l. newline \<notin> set l) ls"
    "foldM (parse_docs_line (inst_api benchmarkInstance)) ([], None) ls =
      Ok (map (\<lambda>(k, tc). (k, doc_testCase (inst_api benchmarkInstance) tc)) (documented testMap), current')"
    by auto
  have "newline \<notin> set ?first" using assms(4,5) by (simp add: plain_name_def plain_help_def)
  then have "getlines output = ?first # ls" unfolding t(2) ls(1) using getlines_Cons [of ?first] getlines_concat [OF ls(2)] by simp
  moreover have "cutLeadingSpaces ?first = (0, ?first)"
    using cutLeadingSpaces_line [of "bi_name benchmarkInfo" 0] names(1) by simp
  moreover have "splitToTwoTokens ?first = Ok (bi_name benchmarkInfo, bi_description benchmarkInfo)"
    using names assms(4,5) by (intro splitToTwoTokens_line) (simp_all add: plain_name_def plain_help_def)
  ultimately show ?thesis
    using ls(3) assms(6-8) by (simp add: parse_output_def)
qed

definition example_test :: "string \<Rightarrow> TestCase" where
  "example_test h = \<lparr>tc_name = ''Copy'', tc_help = ''copies memory'',
     tc_arguments = [make_Argument ''size'' (Some h) (Arg_ByteSize 0)], tc_validateExtra = (\<lambda>_. True),
     tc_implementations = (no_implementations :: TestFunction BenchmarkImplementation list)
        [1 := \<lparr>impl_function = Some (\<lambda>_ s. Ok (Success, s)), requiresIntelExtensions = False\<rparr>]\<rparr>"

definition example_info :: BenchmarkInfo where
  "example_info = \<lparr>bi_name = ''bench'', bi_description = ''A benchmark'', testCaseColumnWidth = 40\<rparr>"

definition example_instance :: BenchmarkInstance where
  "example_instance = \<lparr>inst_location = [], inst_baseName = ''bench'', inst_path = ''./bench_ocl'', inst_api = OpenCL\<rparr>"

lemma example_documented: "documented [(''Copy'', example_test h)] = [(''Copy'', example_test h)]"
proof -
  have "getApisWithImplementation (tc_implementations (example_test h)) = Ok [OpenCL]"
    by (simp add: example_test_def getApisWithImplementation_def no_implementations_def isApiImplemented_def
        slot_get_def apis_first_to_last_eq numeral_eq_Suc)
  then show ?thesis by (simp add: documented_def)
qed

theorem generateDocs_roundtrip_witness:
  "\<exists>output. generateDocs (Some example_info) [(''Copy'', example_test ''Size to copy'')] = Ok (0, output) \<and>
     parse_output example_instance (no_benchmark\<lparr>doc_baseName := ''bench''\<rparr>) output =
       Ok (no_benchmark\<lparr>doc_baseName := ''bench'', doc_description := ''A benchmark'',
            doc_testCases := [(''Copy'', doc_testCase OpenCL (example_test ''Size to copy''))]\<rparr>)"
proof -
  have "case generateDocs (Some example_info) [(''Copy'', example_test ''Size to copy'')] of Inr (r, _) \<Rightarrow> r = 0 | _ \<Rightarrow> False"
    by code_simp
  then obtain out where g: "generateDocs (Some example_info) [(''Copy'', example_test ''Size to copy'')] = Ok (0, out)"
    by (auto split: sum.splits prod.splits)
  have p: "plain_testCase (example_test ''Size to copy'')" "tc_name (example_test ''Size to copy'') = ''Copy''"
    "plain_name (bi_name example_info)" "plain_help (bi_description example_info)" "inst_api example_instance = OpenCL"
    "bi_name example_info = ''bench''" "bi_description example_info = ''A benchmark''"
    by code_simp+
  show ?thesis
    using generateDocs_roundtrip [OF g, of "no_benchmark\<lparr>doc_baseName := ''bench''\<rparr>" example_instance] g p
    by (simp add: example_documented no_benchmark_def)
qed

text \<open>
  \<open>generateDocs\<close> means to refuse texts that would break its format, but for the help text of an
  argument it tests the key instead: a benchmark with a semicolon in that text reports success, and
  the documentation generator then stops on its output.
\<close>

lemma generateDocs_unchecked_semicolon:
  "\<exists>output. generateDocs (Some example_info) [(''Copy'', example_test ''Size; in bytes'')] = Ok (0, output) \<and>
     parse_output example_instance no_benchmark output =
       FATAL_ERROR (''Too many '' @ [CHR 0x27, CHR '';'', CHR 0x27] @ '' delimeters in line'')"
proof -
  let ?out = "snd (projr (generateDocs (Some example_info) [(''Copy'', example_test ''Size; in bytes'')]))"
  have "generateDocs (Some example_info) [(''Copy'', example_test ''Size; in bytes'')] = Ok (0, ?out)"
    "parse_output example_instance no_benchmark ?out =
       FATAL_ERROR (''Too many '' @ [CHR 0x27, CHR '';'', CHR 0x27] @ '' delimeters in line'')"
    by code_simp+
  then show ?thesis by blast
qed

text \<open>
  the name of a benchmark binary determines its base name and its API: of a target named with an
  underscore and the short name of an API, the generator takes the part before the last underscore
  as base name and that API, and it accepts no other ending.
\<close>

theorem make_BenchmarkInstance_name:
  assumes "CHR ''_'' \<notin> set apiName"
  shows "make_BenchmarkInstance location (base @ ''_'' @ apiName) path =
    (if parseApi apiName \<in> {Api_Unknown, Api_All} then FATAL_ERROR (''Could not parse API from '' @ base @ ''_'' @ apiName)
     else Ok \<lparr>inst_location = location, inst_baseName = base, inst_path = path, inst_api = parseApi apiName\<rparr>)"
proof -
  have "rfind_str (base @ ''_'' @ apiName) ''_'' = Some (length base)"
    using assms by (intro rfind_char_last) simp
  then show ?thesis
    by (auto simp: make_BenchmarkInstance_def deduceBaseName_def deduceApi_def substr_def)
qed

end
