(* ===== verification/Gtest_Listener.thy ===== *)
theory Gtest_Listener
  imports Metrics
begin

text \<open>
  \<open>framework/gtest_event_listener.h\<close>: the listeners that replace the printer of googletest. Googletest calls
  one method per event; a run is a list of events, in which the text printed by the tests themselves appears
  as an event of its own. The main result describes the whole output of a run: no message of a failed test
  is lost or attributed to another test, whether errors are printed at once or at the end.
\<close>

section \<open>Events\<close>

datatype gtest_event =
    TestProgramStart
  | TestStart
  | TestPartResult bool string
  | TestPrints string
  | TestEnd string string bool
  | TestProgramEnd

record ErrorInfo =
  ei_name :: string
  ei_errorMessage :: string

record AllTestsGtestListener =
  currentTestCaseErrorInfo :: ErrorInfo
  errorInfos :: "ErrorInfo list"
  gl_cout :: string

definition empty_ErrorInfo :: ErrorInfo where
  "empty_ErrorInfo = \<lparr>ei_name = [], ei_errorMessage = []\<rparr>"

definition make_AllTestsGtestListener :: AllTestsGtestListener where
  "make_AllTestsGtestListener = \<lparr>currentTestCaseErrorInfo = empty_ErrorInfo, errorInfos = [], gl_cout = []\<rparr>"

definition cout :: "AllTestsGtestListener \<Rightarrow> string \<Rightarrow> AllTestsGtestListener" where
  "cout l s = l\<lparr>gl_cout := gl_cout l @ s\<rparr>"

section \<open>AllTestsGtestListener\<close>

text \<open>\<open>w\<close> is the width of the name column.\<close>

definition OnTestProgramStart :: "Configuration \<Rightarrow> nat \<Rightarrow> AllTestsGtestListener \<Rightarrow> AllTestsGtestListener" where
  "OnTestProgramStart cfg w l =
     (let l1 = (if \<not> cfg_flag cfg ''noHeaders'' \<and> printType cfg \<noteq> PT_Csv
                then cout l (''Running '' @ to_string (cfg_int cfg ''iterations'') @ '' iterations of each benchmark'' @ [newline, newline])
                else l)
      in if \<not> cfg_flag cfg ''noColumnNames'' then cout l1 (printStatisticsHeader w (printType cfg)) else l1)"

definition error_text :: "ErrorInfo \<Rightarrow> string" where
  "error_text e = ''[  FAILED  ] '' @ ei_name e @ [newline] @ ei_errorMessage e @ [newline]"

definition dumpErrors :: "AllTestsGtestListener \<Rightarrow> AllTestsGtestListener" where
  "dumpErrors l =
     (let l1 = (if length (errorInfos l) > 0
                then foldl (\<lambda>l e. cout l (error_text e)) (cout l [newline]) (errorInfos l)
                else l)
      in l1\<lparr>errorInfos := []\<rparr>)"

definition OnTestStart :: "AllTestsGtestListener \<Rightarrow> AllTestsGtestListener" where
  "OnTestStart l = l\<lparr>currentTestCaseErrorInfo := empty_ErrorInfo\<rparr>"

definition OnTestPartResult :: "bool \<Rightarrow> string \<Rightarrow> AllTestsGtestListener \<Rightarrow> AllTestsGtestListener" where
  "OnTestPartResult failed message l =
     (if failed
      then l\<lparr>currentTestCaseErrorInfo := (currentTestCaseErrorInfo l)\<lparr>ei_errorMessage :=
             ei_errorMessage (currentTestCaseErrorInfo l) @ message @ [newline]\<rparr>\<rparr>
      else l)"

text \<open>What the current information holds after it has been moved from is not specified: \<open>moved\<close>.\<close>

definition OnTestEnd :: "Configuration \<Rightarrow> ErrorInfo \<Rightarrow> string \<Rightarrow> string \<Rightarrow> bool \<Rightarrow> AllTestsGtestListener \<Rightarrow> AllTestsGtestListener" where
  "OnTestEnd cfg moved suite name failed l =
     (let l1 = (if failed
                then (let e = (currentTestCaseErrorInfo l)\<lparr>ei_name := ei_name (currentTestCaseErrorInfo l) @ suite @ ''.'' @ name\<rparr>
                      in l\<lparr>currentTestCaseErrorInfo := moved, errorInfos := errorInfos l @ [e]\<rparr>)
                else l)
      in if cfg_flag cfg ''dumpErrorsImmediately'' then dumpErrors l1 else l1)"

definition OnTestProgramEnd :: "AllTestsGtestListener \<Rightarrow> AllTestsGtestListener" where
  "OnTestProgramEnd l = dumpErrors l"

fun on_event :: "Configuration \<Rightarrow> nat \<Rightarrow> ErrorInfo \<Rightarrow> gtest_event \<Rightarrow> AllTestsGtestListener \<Rightarrow> AllTestsGtestListener" where
  "on_event cfg w moved TestProgramStart l = OnTestProgramStart cfg w l"
| "on_event cfg w moved TestStart l = OnTestStart l"
| "on_event cfg w moved (TestPartResult failed message) l = OnTestPartResult failed message l"
| "on_event cfg w moved (TestPrints s) l = cout l s"
| "on_event cfg w moved (TestEnd suite name failed) l = OnTestEnd cfg moved suite name failed l"
| "on_event cfg w moved TestProgramEnd l = OnTestProgramEnd l"

section \<open>SingleTestGtestListener\<close>

definition single_OnTestPartResult :: "bool \<Rightarrow> string \<Rightarrow> string" where
  "single_OnTestPartResult failed message = (if failed then [newline] @ message @ [newline] else [])"

section \<open>Runs\<close>

text \<open>
  The events of a run: for each test its start, what it prints and asserts, and its end. A part is
  \<open>Inl\<close> a printed text or \<open>Inr\<close> the outcome and the message of an assertion.
\<close>

record gtest_test =
  gt_suite :: string
  gt_name :: string
  gt_parts :: "(string + bool \<times> string) list"
  gt_failed :: bool

definition part_event :: "string + bool \<times> string \<Rightarrow> gtest_event" where
  "part_event p = (case p of Inl s \<Rightarrow> TestPrints s | Inr (failed, message) \<Rightarrow> TestPartResult failed message)"

definition test_events :: "gtest_test \<Rightarrow> gtest_event list" where
  "test_events t = [TestStart] @ map part_event (gt_parts t) @ [TestEnd (gt_suite t) (gt_name t) (gt_failed t)]"

definition run_events :: "gtest_test list \<Rightarrow> gtest_event list" where
  "run_events ts = [TestProgramStart] @ concat (map test_events ts) @ [TestProgramEnd]"

definition run_listener :: "Configuration \<Rightarrow> nat \<Rightarrow> ErrorInfo \<Rightarrow> gtest_event list \<Rightarrow> AllTestsGtestListener" where
  "run_listener cfg w moved es = fold (on_event cfg w moved) es make_AllTestsGtestListener"

text \<open>What a run should print: the text of the tests and a report for every failed one.\<close>

definition printed :: "gtest_test \<Rightarrow> string" where
  "printed t = concat (map (\<lambda>p. case p of Inl s \<Rightarrow> s | Inr _ \<Rightarrow> []) (gt_parts t))"

definition messages :: "gtest_test \<Rightarrow> string" where
  "messages t = concat (map (\<lambda>p. case p of Inl s \<Rightarrow> [] | Inr (failed, m) \<Rightarrow> if failed then m @ [newline] else []) (gt_parts t))"

definition report :: "gtest_test \<Rightarrow> string" where
  "report t = error_text \<lparr>ei_name = gt_suite t @ ''.'' @ gt_name t, ei_errorMessage = messages t\<rparr>"

section \<open>Lemmas\<close>

lemma cout_simps [simp]:
  "gl_cout (cout l s) = gl_cout l @ s" "errorInfos (cout l s) = errorInfos l"
  "currentTestCaseErrorInfo (cout l s) = currentTestCaseErrorInfo l"
  by (simp_all add: cout_def)

lemma foldl_cout: "foldl (\<lambda>l e. cout l (h e)) l es = cout l (concat (map h es))"
  by (induction es arbitrary: l) (simp_all add: cout_def)

lemma dumpErrors_simps:
  "errorInfos (dumpErrors l) = []" "currentTestCaseErrorInfo (dumpErrors l) = currentTestCaseErrorInfo l"
  "gl_cout (dumpErrors l) = gl_cout l @ (if errorInfos l = [] then [] else [newline] @ concat (map error_text (errorInfos l)))"
  by (simp_all add: dumpErrors_def Let_def foldl_cout)

lemma parts_result:
  "fold (on_event cfg w moved) (map part_event ps) l =
     l\<lparr>gl_cout := gl_cout l @ concat (map (\<lambda>p. case p of Inl s \<Rightarrow> s | Inr _ \<Rightarrow> []) ps),
       currentTestCaseErrorInfo := (currentTestCaseErrorInfo l)\<lparr>ei_errorMessage := ei_errorMessage (currentTestCaseErrorInfo l) @
         concat (map (\<lambda>p. case p of Inl s \<Rightarrow> [] | Inr (failed, m) \<Rightarrow> if failed then m @ [newline] else []) ps)\<rparr>\<rparr>"
  by (induction ps arbitrary: l) (auto simp: part_event_def OnTestPartResult_def cout_def split: sum.splits)

text \<open>The effect of one test on the reports and on the text.\<close>

definition error_of :: "gtest_test \<Rightarrow> ErrorInfo" where
  "error_of t = \<lparr>ei_name = gt_suite t @ ''.'' @ gt_name t, ei_errorMessage = messages t\<rparr>"

lemma test_result:
  assumes "errorInfos l = [] \<or> \<not> cfg_flag cfg ''dumpErrorsImmediately''"
  shows "gl_cout (fold (on_event cfg w moved) (test_events t) l) = gl_cout l @ printed t @
      (if gt_failed t \<and> cfg_flag cfg ''dumpErrorsImmediately'' then [newline] @ error_text (error_of t) else [])"
    "errorInfos (fold (on_event cfg w moved) (test_events t) l) =
      (if cfg_flag cfg ''dumpErrorsImmediately'' then [] else errorInfos l @ (if gt_failed t then [error_of t] else []))"
  using assms
  by (auto simp: test_events_def parts_result OnTestStart_def OnTestEnd_def Let_def dumpErrors_simps printed_def messages_def
      error_of_def empty_ErrorInfo_def)

lemma tests_result:
  assumes "errorInfos l = [] \<or> \<not> cfg_flag cfg ''dumpErrorsImmediately''"
  shows "gl_cout (fold (on_event cfg w moved) (concat (map test_events ts)) l) = gl_cout l @
      concat (map (\<lambda>t. printed t @ (if gt_failed t \<and> cfg_flag cfg ''dumpErrorsImmediately'' then [newline] @ error_text (error_of t) else [])) ts)"
    "errorInfos (fold (on_event cfg w moved) (concat (map test_events ts)) l) =
      (if cfg_flag cfg ''dumpErrorsImmediately'' then [] else errorInfos l @ map error_of (filter gt_failed ts))"
  using assms
proof (induction ts arbitrary: l)
  case (Cons t ts)
  { case 1 then show ?case using Cons.IH(1) test_result [OF 1, of w moved t] by simp }
  { case 2 then show ?case using Cons.IH(2) test_result [OF 2, of w moved t] by simp }
qed auto

section \<open>Properties\<close>

text \<open>
  The whole output of a run: after the headers come the texts of the tests in order, and each failed test is
  reported exactly once, under its own name and with exactly its failed assertions, right after the test
  when errors are dumped immediately and otherwise after all tests; nothing is left unreported.
\<close>

lemma listener_reports_every_failure:
  "gl_cout (run_listener cfg w moved (run_events ts)) =
     gl_cout (OnTestProgramStart cfg w make_AllTestsGtestListener) @
     (if cfg_flag cfg ''dumpErrorsImmediately''
      then concat (map (\<lambda>t. printed t @ (if gt_failed t then [newline] @ report t else [])) ts)
      else concat (map printed ts) @
        (if filter gt_failed ts = [] then [] else [newline] @ concat (map report (filter gt_failed ts)))) \<and>
   errorInfos (run_listener cfg w moved (run_events ts)) = []"
proof -
  let ?s = "OnTestProgramStart cfg w make_AllTestsGtestListener"
  have s: "errorInfos ?s = []" by (simp add: OnTestProgramStart_def make_AllTestsGtestListener_def Let_def)
  have r: "error_text (error_of t) = report t" for t by (simp add: error_of_def report_def)
  have m: "map error_text (map error_of us) = map report us" for us by (simp add: r)
  have run: "run_listener cfg w moved (run_events ts) = dumpErrors (fold (on_event cfg w moved) (concat (map test_events ts)) ?s)"
    by (simp add: run_listener_def run_events_def OnTestProgramEnd_def)
  show ?thesis
    using tests_result [of ?s cfg w moved ts] s
    by (simp add: run dumpErrors_simps r m del: map_map cong: if_cong)
qed

end
