(* ===== verification/Math_Operations.thy ===== *)
theory Math_Operations
  imports Enums String_Utils "HOL-Library.Signed_Division"
begin

unbundle bit_operations_syntax

text \<open>
  \<open>framework/utility/math_operation_helper.h\<close> and \<open>.cpp\<close>, the data of the tests of mathematical
  operations, and \<open>benchmarks/atomic_benchmark/kernel_helper.cpp\<close>, the compiler options of the kernels of
  the atomic benchmark. The template parameter \<open>DataTypeT\<close> is a record of its operations. A signed integer
  type of \<open>w\<close> bits is given by \<open>signed_type w\<close>, in which an overflow is undefined behaviour; the record of
  \<open>float\<close> is a parameter. The main result is that the expected value of a test is what the operation
  gives when it is applied as often as all threads together apply it.
\<close>

section \<open>Which operations are supported\<close>

definition getArgumentsCount :: "MathOperation \<Rightarrow> nat result" where
  "getArgumentsCount operation =
     (case operation of
        MO_Unknown \<Rightarrow> FATAL_ERROR ''Unknown math operation''
      | MO_Inc \<Rightarrow> Ok 1 | MO_Dec \<Rightarrow> Ok 1
      | MO_CmpXchg \<Rightarrow> Ok 3
      | _ \<Rightarrow> Ok 2)"

definition requiresIntelGlobalAtomicsExtension :: "MathOperation \<Rightarrow> DataType \<Rightarrow> bool" where
  "requiresIntelGlobalAtomicsExtension operation type =
     (let isFloat = (type = Float);
          isAdditionOrSubtraction = (operation = MO_Add \<or> operation = MO_Sub)
      in isFloat \<and> isAdditionOrSubtraction)"

definition isSupportedAsAtomic :: "MathOperation \<Rightarrow> DataType \<Rightarrow> bool \<Rightarrow> bool \<Rightarrow> bool result" where
  "isSupportedAsAtomic operation type globalAtomicFloatsSupported usesSlm =
     (if operation = MO_Div \<or> operation = MO_Modulo then Ok False
      else case type of
        Float \<Rightarrow>
          (case operation of
             MO_Unknown \<Rightarrow> FATAL_ERROR ''Unknown math operation''
           | MO_Xchg \<Rightarrow> Ok True
           | MO_Add \<Rightarrow> Ok (\<not> usesSlm \<and> globalAtomicFloatsSupported)
           | MO_Sub \<Rightarrow> Ok (\<not> usesSlm \<and> globalAtomicFloatsSupported)
           | _ \<Rightarrow> Ok False)
      | Int32 \<Rightarrow> Ok True
      | _ \<Rightarrow> FATAL_ERROR ''Unknown data type'')"

definition isSupportedAsNormal :: "MathOperation \<Rightarrow> DataType \<Rightarrow> bool result" where
  "isSupportedAsNormal operation type =
     (case operation of
        MO_Unknown \<Rightarrow> FATAL_ERROR ''Unknown math operation''
      | MO_Xchg \<Rightarrow> Ok False | MO_CmpXchg \<Rightarrow> Ok False
      | MO_And \<Rightarrow> Ok (type \<noteq> Float) | MO_Or \<Rightarrow> Ok (type \<noteq> Float)
      | MO_Xor \<Rightarrow> Ok (type \<noteq> Float) | MO_Modulo \<Rightarrow> Ok (type \<noteq> Float)
      | _ \<Rightarrow> Ok True)"

section \<open>Test data\<close>

text \<open>The three values of a test are kept as values of the type they are accessed as, not as bytes.\<close>

record 'a MathOperationTestData =
  sizeOfDataType :: nat
  mo_loopIterations :: nat
  operatorApplicationsPerIteration :: nat
  initialValue :: 'a
  otherArgument :: 'a
  expectedValue :: 'a

record 'a DataTypeT =
  dt_sizeof :: nat
  dt_cast :: "int \<Rightarrow> 'a"
  dt_add :: "'a \<Rightarrow> 'a \<Rightarrow> 'a result"
  dt_sub :: "'a \<Rightarrow> 'a \<Rightarrow> 'a result"
  dt_mul :: "'a \<Rightarrow> 'a \<Rightarrow> 'a result"
  dt_less :: "'a \<Rightarrow> 'a \<Rightarrow> bool"
  dt_max :: 'a
  dt_integral :: bool
  dt_and :: "'a \<Rightarrow> 'a \<Rightarrow> 'a"
  dt_or :: "'a \<Rightarrow> 'a \<Rightarrow> 'a"
  dt_xor :: "'a \<Rightarrow> 'a \<Rightarrow> 'a"

definition std_min :: "'a DataTypeT \<Rightarrow> 'a \<Rightarrow> 'a \<Rightarrow> 'a" where
  "std_min T a b = (if dt_less T b a then b else a)"

definition std_max :: "'a DataTypeT \<Rightarrow> 'a \<Rightarrow> 'a \<Rightarrow> 'a" where
  "std_max T a b = (if dt_less T a b then b else a)"

definition generateTestData_T ::
  "'a DataTypeT \<Rightarrow> MathOperation \<Rightarrow> nat \<Rightarrow> nat \<Rightarrow> nat \<Rightarrow> 'a MathOperationTestData result" where
  "generateTestData_T T operation loopIterations operationsPerLoop totalThreadsCount =
     (let operationsCount = (totalThreadsCount * loopIterations * operationsPerLoop) mod 2 ^ 64;
          result = (\<lambda>i ot e. Ok \<lparr>sizeOfDataType = dt_sizeof T, mo_loopIterations = loopIterations,
             operatorApplicationsPerIteration = operationsPerLoop, initialValue = i, otherArgument = ot, expectedValue = e\<rparr>);
          c = dt_cast T; k = dt_cast T (int operationsCount)
      in case operation of
           MO_Add \<Rightarrow> bindR (dt_mul T (c 3) k) (\<lambda>m. bindR (dt_add T (c 1000) m) (result (c 1000) (c 3)))
         | MO_Sub \<Rightarrow> bindR (dt_mul T (c 3) k) (\<lambda>m. bindR (dt_sub T (c 1000) m) (result (c 1000) (c 3)))
         | MO_Div \<Rightarrow> bindR (dt_sub T (dt_max T) (c 1)) (\<lambda>i. result i (c 2) (c 0))
         | MO_Xchg \<Rightarrow> result (c 7) (c 3) (c 3)
         | MO_CmpXchg \<Rightarrow> result (c 7) (c 3) (c 7)
         | MO_Inc \<Rightarrow> bindR (dt_add T (c 12) k) (result (c 12) (c 0))
         | MO_Dec \<Rightarrow> bindR (dt_sub T (c 43) k) (result (c 43) (c 0))
         | MO_Min \<Rightarrow> result (c 100) (c 33) (std_min T (c 100) (c 33))
         | MO_Max \<Rightarrow> result (c 100) (c 33) (std_max T (c 100) (c 33))
         | MO_Unknown \<Rightarrow> FATAL_ERROR ''Invalid math operation''
         | _ \<Rightarrow>
             if dt_integral T
             then (case operation of
                     MO_Modulo \<Rightarrow> result (c 123) (c 100) (c 23)
                   | MO_And \<Rightarrow> result (c 0b1111001111001101) (c 0b1101100100101010)
                                 (dt_and T (c 0b1111001111001101) (c 0b1101100100101010))
                   | MO_Or \<Rightarrow> result (c 0b1111001111001101) (c 0b1101100100101010)
                                 (dt_or T (c 0b1111001111001101) (c 0b1101100100101010))
                   | MO_Xor \<Rightarrow> result (c 0b1111001111001101) (c 0b1101100100101010)
                                 (if operationsCount mod 2 = 0 then c 0b1111001111001101
                                  else dt_xor T (c 0b1111001111001101) (c 0b1101100100101010))
                   | _ \<Rightarrow> FATAL_ERROR ''Invalid math operation'')
             else FATAL_ERROR ''Invalid math operation'')"

text \<open>Signed integers of \<open>w\<close> bits in two's complement.\<close>

definition in_signed :: "nat \<Rightarrow> int \<Rightarrow> bool" where
  "in_signed w v \<longleftrightarrow> - (2 ^ (w - 1)) \<le> v \<and> v < 2 ^ (w - 1)"

definition wrap_signed :: "nat \<Rightarrow> int \<Rightarrow> int" where
  "wrap_signed w v = (v + 2 ^ (w - 1)) mod 2 ^ w - 2 ^ (w - 1)"

definition checked :: "nat \<Rightarrow> int \<Rightarrow> int result" where
  "checked w v = (if in_signed w v then Ok v else Inl (Undefined_behaviour ''signed overflow''))"

definition signed_type :: "nat \<Rightarrow> int DataTypeT" where
  "signed_type w =
     \<lparr>dt_sizeof = w div 8, dt_cast = wrap_signed w,
      dt_add = (\<lambda>a b. checked w (a + b)), dt_sub = (\<lambda>a b. checked w (a - b)), dt_mul = (\<lambda>a b. checked w (a * b)),
      dt_less = (<), dt_max = 2 ^ (w - 1) - 1, dt_integral = True,
      dt_and = (AND), dt_or = (OR), dt_xor = (XOR)\<rparr>"

datatype 'f TestValue = TV_Float 'f | TV_Int32 int | TV_Int64 int

definition map_values :: "('a \<Rightarrow> 'b) \<Rightarrow> 'a MathOperationTestData \<Rightarrow> 'b MathOperationTestData" where
  "map_values h d = \<lparr>sizeOfDataType = sizeOfDataType d, mo_loopIterations = mo_loopIterations d,
     operatorApplicationsPerIteration = operatorApplicationsPerIteration d, initialValue = h (initialValue d),
     otherArgument = h (otherArgument d), expectedValue = h (expectedValue d)\<rparr>"

definition generateTestData ::
  "'f DataTypeT \<Rightarrow> DataType \<Rightarrow> MathOperation \<Rightarrow> nat \<Rightarrow> nat \<Rightarrow> nat \<Rightarrow> 'f TestValue MathOperationTestData result" where
  "generateTestData float dataType operation loopIterations operationsPerLoop totalThreadsCount =
     (case dataType of
        Float \<Rightarrow> bindR (generateTestData_T float operation loopIterations operationsPerLoop totalThreadsCount)
                   (\<lambda>d. Ok (map_values TV_Float d))
      | Int32 \<Rightarrow> bindR (generateTestData_T (signed_type 32) operation loopIterations operationsPerLoop totalThreadsCount)
                   (\<lambda>d. Ok (map_values TV_Int32 d))
      | Int64 \<Rightarrow> bindR (generateTestData_T (signed_type 64) operation loopIterations operationsPerLoop totalThreadsCount)
                   (\<lambda>d. Ok (map_values TV_Int64 d))
      | DT_Unknown \<Rightarrow> FATAL_ERROR ''Invalid data type'')"

section \<open>Kernels of the atomic benchmark\<close>

definition getDataForKernel ::
  "'f DataTypeT \<Rightarrow> DataType \<Rightarrow> MathOperation \<Rightarrow> nat \<Rightarrow> 'f TestValue MathOperationTestData result" where
  "getDataForKernel float dataType operation totalThreadsCount =
     generateTestData float dataType operation 100 128 totalThreadsCount"

definition MathOperation_index :: "MathOperation \<Rightarrow> nat" where
  "MathOperation_index operation =
     (case operation of MO_Unknown \<Rightarrow> 0 | MO_Add \<Rightarrow> 1 | MO_Sub \<Rightarrow> 2 | MO_Xchg \<Rightarrow> 3 | MO_CmpXchg \<Rightarrow> 4 | MO_Inc \<Rightarrow> 5
      | MO_Dec \<Rightarrow> 6 | MO_Min \<Rightarrow> 7 | MO_Max \<Rightarrow> 8 | MO_And \<Rightarrow> 9 | MO_Or \<Rightarrow> 10 | MO_Xor \<Rightarrow> 11 | MO_Div \<Rightarrow> 12 | MO_Modulo \<Rightarrow> 13)"

text \<open>Reading a table outside its bounds is undefined.\<close>

definition table_at :: "string list \<Rightarrow> nat \<Rightarrow> string result" where
  "table_at names i = (if i < length names then Ok (names ! i) else Inl (Undefined_behaviour ''array index''))"

definition addAtomicOpMacro :: "options \<Rightarrow> MathOperation \<Rightarrow> options result" where
  "addAtomicOpMacro options operation =
     bindR (table_at [''ERROR'', ''atomic_add'', ''atomic_sub'', ''atomic_xchg'', ''atomic_cmpxchg'', ''atomic_inc'',
         ''atomic_dec'', ''atomic_min'', ''atomic_max'', ''atomic_and'', ''atomic_or'', ''atomic_xor''] (MathOperation_index operation))
       (\<lambda>name.
         let macroBody = name @ ''(address'';
             finish = (\<lambda>arguments. Ok (addMacro options ''ATOMIC_OP'' [''address'', ''other''] (macroBody @ arguments @ '')'')))
         in if operation \<in> {MO_Add, MO_Sub, MO_Min, MO_Max, MO_And, MO_Or, MO_Xor, MO_Xchg} then finish '',other''
            else if operation \<in> {MO_Inc, MO_Dec} then finish []
            else if operation = MO_CmpXchg then finish '',other,other''
            else FATAL_ERROR ''Unknown atomic operation'')"

definition addExplicitAtomicOpMacro ::
  "options \<Rightarrow> MathOperation \<Rightarrow> AtomicMemoryOrder \<Rightarrow> AtomicScope \<Rightarrow> options result" where
  "addExplicitAtomicOpMacro options operation order scope =
     bindR (table_at [''ERROR'', ''atomic_fetch_add_explicit'', ''atomic_fetch_sub_explicit'', ''atomic_exchange_explicit'',
         ''atomic_compare_exchange_strong_explicit'', ''atomic_fetch_add_explicit'', ''atomic_fetch_sub_explicit'',
         ''atomic_fetch_min_explicit'', ''atomic_fetch_max_explicit'', ''atomic_fetch_and_explicit'',
         ''atomic_fetch_or_explicit'', ''atomic_fetch_xor_explicit''] (MathOperation_index operation))
       (\<lambda>name.
         let macroBody = name @ ''(address'';
             finish = (\<lambda>arguments.
               bindR (AtomicMemoryOrder_toOpenclC order) (\<lambda>ord.
               bindR (AtomicScope_toOpenclC scope) (\<lambda>scp.
                 Ok (addMacro options ''ATOMIC_OP'' [''address'', ''other'']
                       (macroBody @ arguments @ '','' @ ord @ '','' @ scp @ '')'')))))
         in if operation \<in> {MO_Add, MO_Sub, MO_Min, MO_Max, MO_And, MO_Or, MO_Xor, MO_Xchg} then finish '',other''
            else if operation \<in> {MO_Inc, MO_Dec} then finish '',1''
            else if operation = MO_CmpXchg
              then bindR (AtomicMemoryOrder_toOpenclC order) (\<lambda>ord. finish ('',&other,other,'' @ ord))
            else FATAL_ERROR ''Unknown atomic operation'')"

definition getCompilerOptions :: "DataType \<Rightarrow> MathOperation \<Rightarrow> nat \<Rightarrow> options result" where
  "getCompilerOptions dataType operation otherArgumentBufferSize =
     bindR (addAtomicOpMacro [] operation) (\<lambda>o1.
       let o2 = (if requiresIntelGlobalAtomicsExtension operation dataType
                 then addDefinition (addDefinition (addOptionOpenCl20 o1) ''cl_intel_global_float_atomics'') ''USE_GLOBAL_FLOAT_ATOMICS''
                 else o1)
       in bindR (DataType_toOpenclC dataType) (\<lambda>name.
            Ok (addDefinitionKeyValue (addDefinitionKeyValue (addDefinitionKeyValue o2 ''ATOMIC_DATATYPE'' name) ''DATATYPE'' name)
                  ''OTHER_ARGUMENT_BUFFER_SIZE'' (to_string (int otherArgumentBufferSize)))))"

definition getCompilerOptionsExplicit ::
  "DataType \<Rightarrow> MathOperation \<Rightarrow> AtomicMemoryOrder \<Rightarrow> AtomicScope \<Rightarrow> nat \<Rightarrow> options result" where
  "getCompilerOptionsExplicit dataType operation order scope otherArgumentBufferSize =
     bindR (addExplicitAtomicOpMacro [] operation order scope) (\<lambda>o1.
       let o2 = addDefinition (addOptionOpenCl20 o1) ''OCL_20'';
           o3 = (if requiresIntelGlobalAtomicsExtension operation dataType
                 then addDefinition (addDefinition o2 ''cl_intel_global_float_atomics'') ''USE_GLOBAL_FLOAT_ATOMICS''
                 else o2)
       in bindR (DataType_toExplicitAtomicOpenclC dataType) (\<lambda>atomic.
          bindR (DataType_toOpenclC dataType) (\<lambda>name.
            Ok (addDefinitionKeyValue (addDefinitionKeyValue (addDefinitionKeyValue o3 ''ATOMIC_DATATYPE'' atomic) ''DATATYPE'' name)
                  ''OTHER_ARGUMENT_BUFFER_SIZE'' (to_string (int otherArgumentBufferSize))))))"

section \<open>The operations on a device\<close>

text \<open>One application of an operation to a signed integer of \<open>w\<close> bits; additions and subtractions wrap around.\<close>

fun apply_operation :: "nat \<Rightarrow> MathOperation \<Rightarrow> int \<Rightarrow> int \<Rightarrow> int" where
  "apply_operation w MO_Add other v = wrap_signed w (v + other)"
| "apply_operation w MO_Sub other v = wrap_signed w (v - other)"
| "apply_operation w MO_Xchg other v = other"
| "apply_operation w MO_CmpXchg other v = (if v = other then other else v)"
| "apply_operation w MO_Inc other v = wrap_signed w (v + 1)"
| "apply_operation w MO_Dec other v = wrap_signed w (v - 1)"
| "apply_operation w MO_Min other v = min v other"
| "apply_operation w MO_Max other v = max v other"
| "apply_operation w MO_And other v = v AND other"
| "apply_operation w MO_Or other v = v OR other"
| "apply_operation w MO_Xor other v = v XOR other"
| "apply_operation w MO_Div other v = v sdiv other"
| "apply_operation w MO_Modulo other v = v smod other"
| "apply_operation w MO_Unknown other v = v"

lemma two_power_split: "0 < w \<Longrightarrow> (2 :: int) ^ w = 2 ^ (w - 1) + 2 ^ (w - 1)"
  by (cases w) simp_all

lemma wrap_signed_mod: "wrap_signed w v mod 2 ^ w = v mod 2 ^ w"
proof -
  have "wrap_signed w v mod 2 ^ w = ((v + 2 ^ (w - 1)) - 2 ^ (w - 1)) mod 2 ^ w"
    unfolding wrap_signed_def by (rule mod_diff_left_eq)
  then show ?thesis by simp
qed

lemma in_signed_wrap: "0 < w \<Longrightarrow> in_signed w (wrap_signed w v)"
proof -
  assume "0 < w"
  then have "(v + 2 ^ (w - 1)) mod 2 ^ w < 2 ^ (w - 1) + 2 ^ (w - 1)" using two_power_split [of w] by simp
  moreover have "0 \<le> (v + 2 ^ (w - 1)) mod 2 ^ w" by simp
  ultimately show ?thesis unfolding in_signed_def wrap_signed_def by linarith
qed

lemma wrap_signed_eq: "0 < w \<Longrightarrow> in_signed w v \<Longrightarrow> x mod 2 ^ w = v mod 2 ^ w \<Longrightarrow> wrap_signed w x = v"
proof -
  assume a: "0 < w" "in_signed w v" "x mod 2 ^ w = v mod 2 ^ w"
  have "(x + 2 ^ (w - 1)) mod 2 ^ w = (v + 2 ^ (w - 1)) mod 2 ^ w" using a(3) by (metis mod_add_left_eq)
  also have "\<dots> = v + 2 ^ (w - 1)" using a(1,2) two_power_split [OF a(1)] by (intro mod_pos_pos_trivial) (simp_all add: in_signed_def)
  finally show ?thesis by (simp add: wrap_signed_def)
qed

lemma wrap_signed_id: "0 < w \<Longrightarrow> in_signed w v \<Longrightarrow> wrap_signed w v = v"
  by (rule wrap_signed_eq) simp_all

lemma wrapped_sums: "0 < w \<Longrightarrow> in_signed w v \<Longrightarrow> ((\<lambda>x. wrap_signed w (x + c)) ^^ n) v = wrap_signed w (v + c * int n)"
proof (induction n)
  case (Suc n)
  have "(wrap_signed w (v + c * int n) + c) mod 2 ^ w = (v + c * int n + c) mod 2 ^ w"
    using wrap_signed_mod by (metis mod_add_left_eq)
  then have "wrap_signed w (wrap_signed w (v + c * int n) + c) = wrap_signed w (v + c * int n + c)"
    unfolding wrap_signed_def by (metis mod_add_left_eq)
  with Suc show ?case by (simp add: algebra_simps)
qed (simp add: wrap_signed_id)

lemma funpow_idempotent: "f (f x) = f x \<Longrightarrow> 0 < n \<Longrightarrow> (f ^^ n) x = f x"
proof (induction n)
  case (Suc n)
  then show ?case by (cases n) simp_all
qed simp

lemma funpow_fixed: "f x = x \<Longrightarrow> (f ^^ n) x = x"
  by (induction n) simp_all

lemma funpow_involution: "(\<And>x. f (f x) = x) \<Longrightarrow> (f ^^ n) x = (if even n then x else f x)"
  by (induction n) auto

lemma funpow_half: "0 \<le> v \<Longrightarrow> ((\<lambda>x. x sdiv 2) ^^ n) v = v div 2 ^ n" for v :: int
proof (induction n)
  case (Suc n)
  have "0 \<le> v div 2 ^ n" using Suc.prems by (simp add: pos_imp_zdiv_nonneg_iff)
  then have "v div 2 ^ n sdiv 2 = v div 2 ^ n div 2" by (cases "v div 2 ^ n = 0") (simp_all add: signed_divide_int_def)
  moreover have "v div 2 ^ Suc n = v div 2 ^ n div 2" unfolding power_Suc2 by (simp add: zdiv_zmult2_eq)
  ultimately show ?case using Suc by simp
qed simp

lemma small_literals:
  assumes "32 \<le> w" "- (2 ^ 31) \<le> v" "v < 2 ^ 31"
  shows "in_signed w v" "wrap_signed w v = v"
proof -
  have "(2 :: int) ^ 31 \<le> 2 ^ (w - 1)" using assms(1) by (intro power_increasing) simp_all
  then show "in_signed w v" using assms unfolding in_signed_def by linarith
  then show "wrap_signed w v = v" using assms(1) by (intro wrap_signed_id) simp_all
qed

text \<open>The count is reduced modulo \<open>2 ^ 64\<close> and converted to the type; the multiple of it is exact unless it overflows.\<close>

lemma counted_sum:
  assumes "0 < w" "w \<le> 64" "in_signed w (v + c * wrap_signed w (int (n mod 2 ^ 64)))"
  shows "wrap_signed w (v + c * int n) = v + c * wrap_signed w (int (n mod 2 ^ 64))"
proof (rule wrap_signed_eq [OF assms(1,3)])
  have "(2 :: int) ^ w dvd 2 ^ 64" using assms(2) by (rule le_imp_power_dvd)
  then have "int (n mod 2 ^ 64) mod 2 ^ w = int n mod 2 ^ w" by (simp add: of_nat_mod mod_mod_cancel)
  then have "wrap_signed w (int (n mod 2 ^ 64)) mod 2 ^ w = int n mod 2 ^ w" by (simp only: wrap_signed_mod)
  then show "(v + c * int n) mod 2 ^ w = (v + c * wrap_signed w (int (n mod 2 ^ 64))) mod 2 ^ w"
    by (intro mod_add_cong mod_mult_cong refl) (rule sym)
qed

section \<open>Properties\<close>

lemma counted_steps:
  assumes "0 < w" "w \<le> 64" "in_signed w v" "in_signed w (v + c * wrap_signed w (int (n mod 2 ^ 64)))"
  shows "((\<lambda>x. wrap_signed w (x + c)) ^^ n) v = v + c * wrap_signed w (int (n mod 2 ^ 64))"
  using wrapped_sums [OF assms(1,3)] counted_sum [OF assms(1,2,4)] by simp

lemma wrap_literals:
  assumes "32 \<le> w"
  shows "wrap_signed w 0 = 0" "wrap_signed w 1 = 1" "wrap_signed w 2 = 2" "wrap_signed w 3 = 3" "wrap_signed w 7 = 7" "wrap_signed w 12 = 12"
    "wrap_signed w 23 = 23" "wrap_signed w 33 = 33" "wrap_signed w 43 = 43" "wrap_signed w 100 = 100" "wrap_signed w 123 = 123"
    "wrap_signed w 1000 = 1000"
  by (simp_all add: small_literals [OF assms])

lemma apply_operation_fun:
  "apply_operation w MO_Add c = (\<lambda>v. wrap_signed w (v + c))" "apply_operation w MO_Sub c = (\<lambda>v. wrap_signed w (v + - c))"
  "apply_operation w MO_Inc c = (\<lambda>v. wrap_signed w (v + 1))" "apply_operation w MO_Dec c = (\<lambda>v. wrap_signed w (v + - 1))"
  "apply_operation w MO_Div c = (\<lambda>v. v sdiv c)" "apply_operation w MO_Xor c = (\<lambda>v. v XOR c)"
  by (simp_all add: fun_eq_iff)

text \<open>What \<open>generateTestData\<close> stores for a signed integer type.\<close>

lemma generated_values:
  assumes "generateTestData_T (signed_type w) operation loopIterations operationsPerLoop totalThreadsCount = Ok d"
    "32 \<le> w" "k = wrap_signed w (int ((totalThreadsCount * loopIterations * operationsPerLoop) mod 2 ^ 64))"
  shows "operation = MO_Add \<Longrightarrow> initialValue d = 1000 \<and> otherArgument d = 3 \<and> expectedValue d = 1000 + 3 * k \<and> in_signed w (1000 + 3 * k)"
    "operation = MO_Sub \<Longrightarrow> initialValue d = 1000 \<and> otherArgument d = 3 \<and> expectedValue d = 1000 - 3 * k \<and> in_signed w (1000 - 3 * k)"
    "operation = MO_Inc \<Longrightarrow> initialValue d = 12 \<and> expectedValue d = 12 + k \<and> in_signed w (12 + k)"
    "operation = MO_Dec \<Longrightarrow> initialValue d = 43 \<and> expectedValue d = 43 - k \<and> in_signed w (43 - k)"
    "operation = MO_Div \<Longrightarrow> initialValue d = 2 ^ (w - 1) - 2 \<and> otherArgument d = 2 \<and> expectedValue d = 0"
    "operation = MO_Xchg \<Longrightarrow> expectedValue d = otherArgument d"
    "operation = MO_CmpXchg \<Longrightarrow> initialValue d \<noteq> otherArgument d \<and> expectedValue d = initialValue d"
    "operation = MO_Min \<Longrightarrow> expectedValue d = min (initialValue d) (otherArgument d)"
    "operation = MO_Max \<Longrightarrow> expectedValue d = max (initialValue d) (otherArgument d)"
    "operation = MO_Modulo \<Longrightarrow> initialValue d = 123 \<and> otherArgument d = 100 \<and> expectedValue d = 23"
    "operation = MO_And \<Longrightarrow> expectedValue d = initialValue d AND otherArgument d"
    "operation = MO_Or \<Longrightarrow> expectedValue d = initialValue d OR otherArgument d"
    "operation = MO_Xor \<Longrightarrow> expectedValue d =
       (if (totalThreadsCount * loopIterations * operationsPerLoop) mod 2 ^ 64 mod 2 = 0 then initialValue d else initialValue d XOR otherArgument d)"
    "operation \<noteq> MO_Unknown"
  using assms(1) unfolding generateTestData_T_def Let_def assms(3) signed_type_def
  by (simp_all add: wrap_literals [OF assms(2)] bindR_def checked_def std_min_def std_max_def split: if_splits) auto

text \<open>
  The expected value of a test is the value the operation leaves behind when it is applied as often as
  all threads together apply it, starting from the initial value, for each operation and for both
  signed integer types; counts that exceed the type, or even 64 bits, included. Division needs enough
  applications to reach zero.
\<close>

lemma generateTestData_expected:
  assumes "generateTestData_T (signed_type w) operation loopIterations operationsPerLoop totalThreadsCount = Ok d"
    "w = 32 \<or> w = 64" "n = totalThreadsCount * loopIterations * operationsPerLoop" "0 < n"
    "operation = MO_Div \<longrightarrow> w - 1 \<le> n"
  shows "expectedValue d = (apply_operation w operation (otherArgument d) ^^ n) (initialValue d)"
proof -
  have w: "0 < w" "w \<le> 64" "32 \<le> w" using assms(2) by auto
  define k where "k = wrap_signed w (int (n mod 2 ^ 64))"
  note v = generated_values [OF assms(1) w(3) k_def [unfolded assms(3)]]
  note c = counted_steps [OF w(1,2) small_literals(1) [OF w(3)], of _ _ n, folded k_def]
  show ?thesis
  proof (cases operation)
    case MO_Add then show ?thesis using v(1) c [of 1000 3] by (simp add: apply_operation_fun)
  next
    case MO_Sub then show ?thesis using v(2) c [of 1000 "-3"] by (simp add: apply_operation_fun)
  next
    case MO_Inc then show ?thesis using v(3) c [of 12 1] by (simp add: apply_operation_fun)
  next
    case MO_Dec then show ?thesis using v(4) c [of 43 "-1"] by (simp add: apply_operation_fun)
  next
    case MO_Div
    then have "(2 :: int) ^ (w - 1) \<le> 2 ^ n" using assms(5) by (intro power_increasing) simp_all
    moreover have "(2 :: int) \<le> 2 ^ (w - 1)" using power_increasing [of 1 "w - 1" "2 :: int"] w(3) by simp
    ultimately have "((2 :: int) ^ (w - 1) - 2) div 2 ^ n = 0" by (intro div_pos_pos_trivial) linarith+
    moreover have "(0 :: int) \<le> 2 ^ (w - 1) - 2" using \<open>2 \<le> 2 ^ (w - 1)\<close> by simp
    ultimately show ?thesis using v(5) MO_Div funpow_half [of "2 ^ (w - 1) - 2" n] by (simp add: apply_operation_fun)
  next
    case MO_Xor
    have "n mod 2 ^ 64 mod 2 = n mod 2" by (simp add: mod_mod_cancel)
    then show ?thesis
      using v(13) MO_Xor funpow_involution [of "\<lambda>x. x XOR otherArgument d" n "initialValue d"]
      by (simp add: assms(3) [symmetric] xor.assoc apply_operation_fun even_iff_mod_2_eq_zero)
  qed (use v assms(4) in \<open>simp_all add: funpow_idempotent funpow_fixed and.assoc or.assoc signed_modulo_int_def signed_divide_int_def\<close>)
qed

text \<open>An operation that is supported as an atomic one has a macro; 64-bit integers are refused with an error.\<close>

lemma supported_atomic_has_macro:
  assumes "isSupportedAsAtomic operation type g slm = Ok True" "operation \<noteq> MO_Unknown"
  shows "\<exists>options'. addAtomicOpMacro options operation = Ok options'"
  using assms
  by (cases operation)
    (simp_all add: isSupportedAsAtomic_def addAtomicOpMacro_def table_at_def MathOperation_index_def bindR_def split: DataType.splits)

lemma isSupportedAsAtomic_Int64:
  "isSupportedAsAtomic operation Int64 g slm =
     (if operation \<in> {MO_Div, MO_Modulo} then Ok False else FATAL_ERROR ''Unknown data type'')"
  by (simp add: isSupportedAsAtomic_def)

lemma addAtomicOpMacro_out_of_bounds:
  "operation \<in> {MO_Div, MO_Modulo} \<Longrightarrow> addAtomicOpMacro options operation = Inl (Undefined_behaviour ''array index'')"
  by (auto simp: addAtomicOpMacro_def table_at_def MathOperation_index_def bindR_def)

end
