(* ===== verification/Memory_Helpers.thy ===== *)
theory Memory_Helpers
  imports Enums "HOL-Library.Word"
begin

text \<open>
  The helpers that prepare host memory: \<open>framework/utility/cpu_allocation_helper.cpp\<close>,
  \<open>image_helper.cpp\<close> and \<open>buffer_contents_helper.cpp\<close>. Addresses and sizes are natural numbers below
  \<open>2 ^ 64\<close>; a buffer is the list of its bytes. The address \<open>make_unique\<close> returns and the random number
  generator are parameters. A loop whose counter is an \<open>unsigned int\<close> counts in 32-bit words.
\<close>

section \<open>Host allocations\<close>

record AlignedAllocation =
  rawMemory :: "nat \<times> nat"
  alignedMemory :: nat

record MisalignedAllocation =
  alignedAllocation :: AlignedAllocation
  misalignedMemory :: nat

text \<open>\<open>rawMemory\<close> is the address and the length of the block; \<open>raw\<close> gives the address for a length.\<close>

definition allocateAlignedAllocation :: "(nat \<Rightarrow> nat) \<Rightarrow> nat \<Rightarrow> nat \<Rightarrow> AlignedAllocation result" where
  "allocateAlignedAllocation raw sz alignment =
     (let len = (sz + alignment) mod 2 ^ 64; base = raw len
      in if alignment = 0 then Inl (Undefined_behaviour ''modulo zero'')
         else let misalignment = base mod alignment
              in Ok \<lparr>rawMemory = (base, len), alignedMemory = base + alignment - misalignment\<rparr>)"

definition allocateMisalignedAllocation :: "(nat \<Rightarrow> nat) \<Rightarrow> nat \<Rightarrow> nat \<Rightarrow> nat \<Rightarrow> MisalignedAllocation result" where
  "allocateMisalignedAllocation raw sz alignment misalignment =
     bindR (allocateAlignedAllocation raw sz alignment) (\<lambda>a.
       Ok \<lparr>alignedAllocation = a, misalignedMemory = alignedMemory a + misalignment\<rparr>)"

section \<open>Images\<close>

datatype ChannelOrder = CO_Unknown | CO_R | CO_RG | CO_RGBA
datatype ChannelFormat = CF_Unknown | CF_Float

definition getImageTypeFromDimensions :: "nat \<times> nat \<times> nat \<Rightarrow> ImageType" where
  "getImageTypeFromDimensions dimensions =
     (case dimensions of (d0, d1, d2) \<Rightarrow>
        if d2 > 1 then Image3D else if d1 > 1 then Image2D else Image1D)"

definition getChannelCount :: "ChannelOrder \<Rightarrow> nat result" where
  "getChannelCount order =
     (case order of CO_R \<Rightarrow> Ok 1 | CO_RG \<Rightarrow> Ok 2 | CO_RGBA \<Rightarrow> Ok 4 | CO_Unknown \<Rightarrow> FATAL_ERROR ''Unknown channel order'')"

definition getChannelFormatSize :: "ChannelFormat \<Rightarrow> nat result" where
  "getChannelFormatSize format =
     (case format of CF_Float \<Rightarrow> Ok 4 | CF_Unknown \<Rightarrow> FATAL_ERROR ''Unknown channel format'')"

definition getImageSizeInBytes :: "ChannelOrder \<Rightarrow> ChannelFormat \<Rightarrow> nat \<times> nat \<times> nat \<Rightarrow> nat result" where
  "getImageSizeInBytes order format dimensions =
     (case dimensions of (d0, d1, d2) \<Rightarrow>
        bindR (getChannelCount order) (\<lambda>n.
        bindR (getChannelFormatSize format) (\<lambda>s. Ok ((n * s * d0 * d1 * d2) mod 2 ^ 64))))"

section \<open>Contents of buffers\<close>

type_synonym bytes = "8 word list"

record 'g BufferContentsHelper =
  generator :: 'g
  cachedRandomData :: bytes

definition fillWithZeros :: "bytes \<Rightarrow> nat \<Rightarrow> bytes" where
  "fillWithZeros buffer sz = replicate sz 0 @ drop sz buffer"

text \<open>The bytes of an \<open>uint64_t\<close> in memory, least significant first.\<close>

definition oword_bytes :: "64 word \<Rightarrow> bytes" where
  "oword_bytes v = map (\<lambda>i. ucast (drop_bit (8 * i) v)) [0..<8]"

definition store_oword :: "bytes \<Rightarrow> nat \<Rightarrow> 64 word \<Rightarrow> bytes" where
  "store_oword cache position v = take position cache @ oword_bytes v @ drop (position + 8) cache"

text \<open>The loop of \<open>fillWithRandomBytes\<close>; its counter is an \<open>unsigned int\<close>.\<close>

partial_function (option) random_loop ::
  "('g \<Rightarrow> 64 word \<times> 'g) \<Rightarrow> 32 word \<Rightarrow> nat \<Rightarrow> nat \<Rightarrow> 'g \<Rightarrow> bytes \<Rightarrow> ('g \<times> bytes) option" where
  "random_loop nxt i numOwords bufferIterator gen cache =
     (if unat i < numOwords
      then (case nxt gen of (v, gen') \<Rightarrow>
              random_loop nxt (i + 1) numOwords (bufferIterator + 8) gen' (store_oword cache bufferIterator v))
      else Some (gen, cache))"

definition fillWithRandomBytes ::
  "('g \<Rightarrow> 64 word \<times> 'g) \<Rightarrow> 'g BufferContentsHelper \<Rightarrow> bytes \<Rightarrow> nat \<Rightarrow> ('g BufferContentsHelper \<times> bytes) option" where
  "fillWithRandomBytes nxt h buffer sz =
     (let alignedSize = (sz + (8 - 1)) div 8 * 8;
          oldSize = length (cachedRandomData h);
          h' = (if alignedSize > oldSize
                then (let cache = cachedRandomData h @ replicate (alignedSize - oldSize) 0;
                          numOwords = (alignedSize - oldSize) div 8
                      in map_option (\<lambda>(gen, c). \<lparr>generator = gen, cachedRandomData = c\<rparr>)
                           (random_loop nxt 0 numOwords oldSize (generator h) cache))
                else Some h)
      in map_option (\<lambda>h. (h, take sz (cachedRandomData h) @ drop sz buffer)) h')"

partial_function (option) increasing_loop :: "32 word \<Rightarrow> nat \<Rightarrow> bytes \<Rightarrow> bytes option" where
  "increasing_loop index sz buffer =
     (if unat index < sz then increasing_loop (index + 1) sz (buffer[unat index := ucast index]) else Some buffer)"

definition fillWithIncreasingBytes :: "bytes \<Rightarrow> nat \<Rightarrow> bytes option" where
  "fillWithIncreasingBytes buffer sz = increasing_loop 0 sz buffer"

text \<open>\<open>None\<close> when a loop does not end.\<close>

definition fill ::
  "('g \<Rightarrow> 64 word \<times> 'g) \<Rightarrow> 'g BufferContentsHelper \<Rightarrow> bytes \<Rightarrow> nat \<Rightarrow> BufferContents \<Rightarrow> ('g BufferContentsHelper \<times> bytes) option result" where
  "fill nxt h buffer sz contents =
     (case contents of
        BC_Zeros \<Rightarrow> Ok (Some (h, fillWithZeros buffer sz))
      | BC_Random \<Rightarrow> Ok (fillWithRandomBytes nxt h buffer sz)
      | BC_IncreasingBytes \<Rightarrow> Ok (map_option (Pair h) (fillWithIncreasingBytes buffer sz))
      | BC_Unknown \<Rightarrow> FATAL_ERROR ''Unknown buffer contents'')"

section \<open>Loops with a 32-bit counter\<close>

lemma unat_next: "unat (i :: 32 word) < n \<Longrightarrow> n < 2 ^ 32 \<Longrightarrow> unat (i + 1) = unat i + 1"
  by (simp add: unat_word_ariths)

lemma unat_less_32: "unat (i :: 32 word) < 2 ^ 32"
  by (rule order_less_le_trans [OF unsigned_less]) simp

lemma increasing_loop_result:
  assumes "sz < 2 ^ 32" "sz \<le> length buffer" "unat index \<le> sz"
  shows "increasing_loop index sz buffer = Some (take (unat index) buffer @ map word_of_nat [unat index..<sz] @ drop sz buffer)"
  using assms(2,3)
proof (induction "sz - unat index" arbitrary: index buffer)
  case 0
  then show ?case by (subst increasing_loop.simps) simp
next
  case (Suc k)
  then have l: "unat index < sz" by simp
  have n: "unat (index + 1) = unat index + 1" using unat_next [OF l assms(1)] .
  let ?b = "buffer[unat index := ucast index]"
  have "increasing_loop (index + 1) sz ?b = Some (take (unat index + 1) ?b @ map word_of_nat [unat index + 1..<sz] @ drop sz ?b)"
    using Suc.hyps(1) [of "index + 1" ?b] Suc.hyps(2) Suc.prems l by (simp add: n)
  moreover have "take (unat index + 1) ?b = take (unat index) buffer @ [ucast index]"
    using Suc.prems(1) l by (simp add: take_Suc_conv_app_nth)
  moreover have "[unat index..<sz] = unat index # [unat index + 1..<sz]" using l by (simp add: upt_conv_Cons)
  ultimately show ?case using l by (subst increasing_loop.simps) simp
qed

lemma increasing_loop_ends: "increasing_loop index sz buffer = Some b \<Longrightarrow> sz < 2 ^ 32"
proof (rule increasing_loop.raw_induct [of "\<lambda>index sz buffer b. sz < 2 ^ 32"])
  fix loop :: "32 word \<Rightarrow> nat \<Rightarrow> bytes \<Rightarrow> bytes option" and index sz buffer b
  assume "\<And>index sz buffer b. loop index sz buffer = Some b \<Longrightarrow> sz < 2 ^ 32"
    "(if unat index < sz then loop (index + 1) sz (buffer[unat index := ucast index]) else Some buffer) = Some b"
  then show "sz < 2 ^ 32" using unat_less_32 [of index] by (cases "unat index < sz") auto
qed

lemma length_oword_bytes [simp]: "length (oword_bytes v) = 8"
  by (simp add: oword_bytes_def)

lemma random_loop_result:
  assumes "n < 2 ^ 32" "unat i \<le> n" "length cache = position + 8 * (n - unat i)"
  shows "\<exists>gen' cache'. random_loop nxt i n position gen cache = Some (gen', cache') \<and>
    length cache' = length cache \<and> take position cache' = take position cache"
  using assms(2,3)
proof (induction "n - unat i" arbitrary: i position gen cache)
  case 0
  then show ?case by (subst random_loop.simps) simp
next
  case (Suc k)
  then have l: "unat i < n" by simp
  have u: "unat (i + 1) = unat i + 1" using unat_next [OF l assms(1)] .
  obtain v gen' where g: "nxt gen = (v, gen')" by (cases "nxt gen")
  let ?c = "store_oword cache position v"
  have c: "length ?c = length cache" "take position ?c = take position cache"
    using Suc.prems(2) l by (simp_all add: store_oword_def)
  have "\<exists>gen'' cache'. random_loop nxt (i + 1) n (position + 8) gen' ?c = Some (gen'', cache') \<and>
      length cache' = length ?c \<and> take (position + 8) cache' = take (position + 8) ?c"
    using Suc.hyps(2) Suc.prems l c(1) by (intro Suc.hyps(1)) (simp_all add: u)
  then obtain gen'' cache' where r: "random_loop nxt (i + 1) n (position + 8) gen' ?c = Some (gen'', cache')"
    "length cache' = length ?c" "take (position + 8) cache' = take (position + 8) ?c" by blast
  have "take position cache' = take position ?c" using arg_cong [OF r(3), of "take position"] by simp
  then show ?case using l r c by (subst random_loop.simps) (simp add: g)
qed

lemma fillWithIncreasingBytes_eq:
  assumes "sz \<le> length buffer"
  shows "fillWithIncreasingBytes buffer sz =
    (if sz < 2 ^ 32 then Some (map word_of_nat [0..<sz] @ drop sz buffer) else None)"
proof (cases "sz < 2 ^ 32")
  case True
  then show ?thesis using increasing_loop_result [OF True assms, of 0] by (simp add: fillWithIncreasingBytes_def)
next
  case False
  then have "increasing_loop 0 sz buffer = None" using increasing_loop_ends by (metis not_None_eq)
  with False show ?thesis by (simp add: fillWithIncreasingBytes_def)
qed

section \<open>Properties\<close>

text \<open>
  C33: Filling a buffer with increasing bytes ends exactly when the size is below \<open>2 ^ 32\<close>: the counter of the
  loop is a 32-bit number that is compared with a 64-bit size. When it ends, the first \<open>sz\<close> bytes are
  their indices modulo 256 and the rest of the buffer is unchanged.
\<close>

theorem fillWithIncreasingBytes_ends_iff:
  assumes "sz \<le> length buffer"
  shows "fillWithIncreasingBytes buffer sz =
    (if sz < 2 ^ 32 then Some (map word_of_nat [0..<sz] @ drop sz buffer) else None)"
  by (rule fillWithIncreasingBytes_eq [OF assms])

theorem fillWithIncreasingBytes_ends_iff_witness:
  "fillWithIncreasingBytes [7, 7, 7, 7] 3 = Some [0, 1, 2, 7]"
  using fillWithIncreasingBytes_ends_iff [of 3 "[7, 7, 7, 7]"] by (simp add: upt_rec)

text \<open>The cache of random bytes grows in whole words and never changes what it has.\<close>

lemma fillWithRandomBytes_result:
  assumes "8 dvd length (cachedRandomData h)" "sz < 2 ^ 32"
  shows "\<exists>h'. fillWithRandomBytes nxt h buffer sz = Some (h', take sz (cachedRandomData h') @ drop sz buffer) \<and>
    take (length (cachedRandomData h)) (cachedRandomData h') = cachedRandomData h \<and>
    8 dvd length (cachedRandomData h') \<and> sz \<le> length (cachedRandomData h')"
proof -
  define al old where "al = (sz + (8 - 1)) div 8 * 8" "old = length (cachedRandomData h)"
  have al: "sz \<le> al" "8 dvd al" by (simp_all add: al_old_def)
  show ?thesis
  proof (cases "al > old")
    case False
    then show ?thesis using al assms(1) by (simp add: fillWithRandomBytes_def Let_def al_old_def [symmetric]) (simp add: al_old_def)
  next
    case True
    define n where "n = (al - old) div 8"
    have "8 dvd al - old" using al(2) assms(1) True by (simp add: al_old_def(2) dvd_diff_nat)
    then have n: "al - old = 8 * n" by (simp add: n_def)
    have "n \<le> al div 8" by (simp add: n_def div_le_mono)
    also have "\<dots> < 2 ^ 32" using assms(2) by (simp add: al_old_def(1))
    finally have "n < 2 ^ 32" .
    let ?c = "cachedRandomData h @ replicate (al - old) 0"
    obtain g' c' where r: "random_loop nxt 0 n old (generator h) ?c = Some (g', c')" "length c' = length ?c" "take old c' = take old ?c"
      using random_loop_result [OF \<open>n < 2 ^ 32\<close>, of 0 ?c old nxt "generator h"] n by (auto simp: al_old_def(2))
    then have "length c' = al" "take old c' = cachedRandomData h" using True by (simp_all add: al_old_def(2))
    moreover have "fillWithRandomBytes nxt h buffer sz = Some (\<lparr>generator = g', cachedRandomData = c'\<rparr>, take sz c' @ drop sz buffer)"
      unfolding fillWithRandomBytes_def Let_def al_old_def [symmetric] n_def [symmetric] by (simp add: True r(1))
    ultimately show ?thesis using al by (simp add: al_old_def(2) [symmetric])
  qed
qed

text \<open>
  Filling buffers with random bytes always ends for sizes below \<open>2 ^ 32\<close> and gives the same bytes every time:
  two buffers filled one after the other agree on the length both have been filled to, the rest of a buffer
  is unchanged, and the cache stays a sequence of whole words.
\<close>

lemma fillWithRandomBytes_repeats:
  assumes "8 dvd length (cachedRandomData h)" "m < 2 ^ 32" "n < 2 ^ 32" "m \<le> length a" "n \<le> length b"
  shows "\<exists>h1 a' h2 b'. fillWithRandomBytes nxt h a m = Some (h1, a') \<and> fillWithRandomBytes nxt h1 b n = Some (h2, b') \<and>
    take (min m n) a' = take (min m n) b' \<and> drop m a' = drop m a \<and> drop n b' = drop n b \<and>
    8 dvd length (cachedRandomData h2)"
proof -
  obtain h1 where 1: "fillWithRandomBytes nxt h a m = Some (h1, take m (cachedRandomData h1) @ drop m a)"
    "8 dvd length (cachedRandomData h1)" "m \<le> length (cachedRandomData h1)"
    using fillWithRandomBytes_result [OF assms(1,2)] by blast
  obtain h2 where 2: "fillWithRandomBytes nxt h1 b n = Some (h2, take n (cachedRandomData h2) @ drop n b)"
    "take (length (cachedRandomData h1)) (cachedRandomData h2) = cachedRandomData h1"
    "8 dvd length (cachedRandomData h2)" "n \<le> length (cachedRandomData h2)"
    using fillWithRandomBytes_result [OF 1(2) assms(3)] by blast
  have "take (min m n) (cachedRandomData h1) = take (min m n) (cachedRandomData h2)"
    using arg_cong [OF 2(2), of "take (min m n)"] 1(3) by (simp add: min_def split: if_splits)
  then have "take (min m n) (take m (cachedRandomData h1) @ drop m a) = take (min m n) (take n (cachedRandomData h2) @ drop n b)"
    using 1(3) 2(4) by (simp add: min.absorb1 min.commute)
  then show ?thesis using 1 2 assms(4,5) by (intro exI conjI) (assumption | simp)+
qed

text \<open>
  An aligned host allocation is aligned and its bytes lie inside the block that was reserved. A
  misaligned one lies inside the block exactly when the misalignment does not exceed the distance of the
  block from its previous aligned address, as no room is reserved for it.
\<close>

lemma host_allocation_bounds:
  assumes "0 < alignment" "sz + alignment < 2 ^ 64"
  shows "\<exists>m. allocateMisalignedAllocation raw sz alignment misalignment = Ok m \<and>
    alignment dvd alignedMemory (alignedAllocation m) \<and>
    (case rawMemory (alignedAllocation m) of (base, len) \<Rightarrow>
       base < alignedMemory (alignedAllocation m) \<and> alignedMemory (alignedAllocation m) + sz \<le> base + len \<and>
       (misalignedMemory m + sz \<le> base + len \<longleftrightarrow> misalignment \<le> base mod alignment))"
proof -
  define b where "b = raw (sz + alignment)"
  have lt: "b mod alignment < alignment" using assms(1) by simp
  have "b + alignment - b mod alignment = (b div alignment + 1) * alignment"
    using minus_mod_eq_mult_div [of b alignment] lt by (simp add: algebra_simps)
      (metis add.commute add_diff_cancel_right' diff_add_assoc mod_less_eq_dividend mult.commute)
  then have "alignment dvd b + alignment - b mod alignment" by simp
  then show ?thesis
    using assms lt by (simp add: allocateMisalignedAllocation_def allocateAlignedAllocation_def bindR_def Let_def b_def [symmetric]) linarith
qed

end
