(* ===== verification/Heat3D.thy ===== *)
theory Heat3D
  imports Workload "HOL-Library.Word"
begin

text \<open>
  The heat transfer workload, \<open>workloads/heat3d_workload_l0/heat3d_workload_l0.cpp\<close> with its kernels
  \<open>kernels/heat3d_workload.cl\<close>: a periodic block of mesh points is split among ranks; every rank keeps
  its sub-domain with one layer of ghost points around it, updates its facets and its interior with
  a 7-point stencil, and exchanges its six facets with its neighbours.

  Numbers of type \<open>uint32_t\<close> are words of 32 bits. Indices of type \<open>size_t\<close> are natural numbers, as the
  arrays they address fit in memory. Temperatures are values of any type with addition, subtraction
  and multiplication, of which no law is used: what is shown holds for the rounded arithmetic of
  \<open>float\<close>. A kernel is the list of its work items run in some order; a device buffer is a function
  from indices to values. Calls of the driver other than memory sizes, kernel launches and copies
  are left out.
\<close>

type_synonym uint32 = "32 word"

section \<open>Arguments\<close>

definition Heat3DArguments_fields :: "(string \<times> string \<times> arg_value) list" where
  "Heat3DArguments_fields = [
     (''rank'', ''Execution rank of this process'', Arg_Integer 0),
     (''parentPid'', ''PID of the parent process'', Arg_PositiveInteger 0),
     (''nSubDomainX'', ''Number of sub-domains in the X-direction'', Arg_PositiveInteger 0),
     (''nSubDomainY'', ''Number of sub-domains in the Y-direction'', Arg_PositiveInteger 0),
     (''nSubDomainZ'', ''Number of sub-domains in the Z-direction'', Arg_PositiveInteger 0),
     (''nTimesteps'', ''Number of simulation timesteps'', Arg_PositiveInteger 0),
     (''meshLength'', ''Number of mesh points along each of the X-Y-Z directions'', Arg_PositiveInteger 0)]"

definition make_Heat3DArguments :: ArgumentContainer where
  "make_Heat3DArguments =
     assign_field (make_WorkloadArgumentContainer
         (map (\<lambda>(k, h, v). make_Argument k (Some h) v) Heat3DArguments_fields))
       (''synchronize'', Arg_Boolean (BooleanArgument_assign True))"

section \<open>Facets\<close>

datatype FacetTy = XU | XD | YU | YD | ZU | ZD

primrec FacetTy_code :: "FacetTy \<Rightarrow> int" where
  "FacetTy_code XU = 0"
| "FacetTy_code XD = 1"
| "FacetTy_code YU = 2"
| "FacetTy_code YD = 3"
| "FacetTy_code ZU = 4"
| "FacetTy_code ZD = 5"

text \<open>All values below \<open>LAST\<close>, in the order of the loops over \<open>int(FacetTy::LAST)\<close>.\<close>

definition facets :: "FacetTy list" where
  "facets = [XU, XD, YU, YD, ZU, ZD]"

definition FacetTy_of_code :: "int \<Rightarrow> FacetTy" where
  "FacetTy_of_code c = facets ! nat c"

definition reverseFacetUD :: "FacetTy \<Rightarrow> FacetTy" where
  "reverseFacetUD facet =
     FacetTy_of_code (((FacetTy_code facet div 2) * 2) + (if FacetTy_code facet mod 2 = 1 then 0 else 1))"

record FacetInfoTy =
  bufferLen :: nat
  neighborRank :: uint32
  neighborFacet :: FacetTy
  outerStart :: "uint32 \<times> uint32 \<times> uint32"
  outerEnd :: "uint32 \<times> uint32 \<times> uint32"
  innerStart :: "uint32 \<times> uint32 \<times> uint32"
  innerEnd :: "uint32 \<times> uint32 \<times> uint32"
  dedupStart :: "uint32 \<times> uint32 \<times> uint32"
  dedupEnd :: "uint32 \<times> uint32 \<times> uint32"

record ParamsTy =
  par_rank :: uint32
  nRanks :: uint32
  nSubDomainX :: uint32
  nSubDomainY :: uint32
  nSubDomainZ :: uint32
  subDomainCoordX :: uint32
  subDomainCoordY :: uint32
  subDomainCoordZ :: uint32
  meshLength :: uint32
  nTimesteps :: uint32
  neighbors :: "uint32 list"
  nPointsX :: uint32
  nPointsY :: uint32
  nPointsZ :: uint32
  facetInfo :: "FacetInfoTy list"

section \<open>Topology\<close>

definition subDomainCoordToRank :: "uint32 \<Rightarrow> uint32 \<Rightarrow> uint32 \<Rightarrow> ParamsTy \<Rightarrow> uint32" where
  "subDomainCoordToRank x y z params =
     x * nSubDomainY params * nSubDomainZ params + y * nSubDomainZ params + z"

definition findNeighbors :: "ParamsTy \<Rightarrow> ParamsTy" where
  "findNeighbors params =
     (let coordXU = (subDomainCoordX params + 1 + nSubDomainX params) mod nSubDomainX params;
          coordXD = (subDomainCoordX params - 1 + nSubDomainX params) mod nSubDomainX params;
          coordYU = (subDomainCoordY params + 1 + nSubDomainY params) mod nSubDomainY params;
          coordYD = (subDomainCoordY params - 1 + nSubDomainY params) mod nSubDomainY params;
          coordZU = (subDomainCoordZ params + 1 + nSubDomainZ params) mod nSubDomainZ params;
          coordZD = (subDomainCoordZ params - 1 + nSubDomainZ params) mod nSubDomainZ params
      in params\<lparr>neighbors :=
           [subDomainCoordToRank coordXU (subDomainCoordY params) (subDomainCoordZ params) params,
            subDomainCoordToRank coordXD (subDomainCoordY params) (subDomainCoordZ params) params,
            subDomainCoordToRank (subDomainCoordX params) coordYU (subDomainCoordZ params) params,
            subDomainCoordToRank (subDomainCoordX params) coordYD (subDomainCoordZ params) params,
            subDomainCoordToRank (subDomainCoordX params) (subDomainCoordY params) coordZU params,
            subDomainCoordToRank (subDomainCoordX params) (subDomainCoordY params) coordZD params]\<rparr>)"

text \<open>The three coordinates of a bound are kept together: \<open>facetInfo.outerFacetXStart\<close> is the first of \<open>outerStart\<close>.\<close>

definition makeFacetInfo :: "FacetTy \<Rightarrow> ParamsTy \<Rightarrow> FacetInfoTy" where
  "makeFacetInfo facet params =
     (let nX = nPointsX params; nY = nPointsY params; nZ = nPointsZ params;
          base = (\<lambda>len oS oE iS iE dS dE.
            \<lparr>bufferLen = unat (len :: uint32), neighborRank = neighbors params ! nat (FacetTy_code facet),
             neighborFacet = reverseFacetUD facet, outerStart = oS, outerEnd = oE,
             innerStart = iS, innerEnd = iE, dedupStart = dS, dedupEnd = dE\<rparr>)
      in case facet of
           XU \<Rightarrow> base (nY * nZ) (nX + 1, 1, 1) (nX + 1, nY, nZ) (nX, 1, 1) (nX, nY, nZ) (nX, 1, 1) (nX, nY, nZ)
         | XD \<Rightarrow> base (nY * nZ) (0, 1, 1) (0, nY, nZ) (1, 1, 1) (1, nY, nZ) (1, 1, 1) (1, nY, nZ)
         | YU \<Rightarrow> base (nX * nZ) (1, nY + 1, 1) (nX, nY + 1, nZ) (1, nY, 1) (nX, nY, nZ) (2, nY, 1) (nX - 1, nY, nZ)
         | YD \<Rightarrow> base (nX * nZ) (1, 0, 1) (nX, 0, nZ) (1, 1, 1) (nX, 1, nZ) (2, 1, 1) (nX - 1, 1, nZ)
         | ZU \<Rightarrow> base (nX * nY) (1, 1, nZ + 1) (nX, nY, nZ + 1) (1, 1, nZ) (nX, nY, nZ) (2, 2, nZ) (nX - 1, nY - 1, nZ)
         | ZD \<Rightarrow> base (nX * nY) (1, 1, 0) (nX, nY, 0) (1, 1, 1) (nX, nY, 1) (2, 2, 1) (nX - 1, nY - 1, 1))"

definition initParams :: "ArgumentContainer \<Rightarrow> ParamsTy" where
  "initParams arguments =
     (let rank = word_of_int (arg_int arguments ''rank'') :: uint32;
          nX = word_of_int (arg_int arguments ''nSubDomainX'') :: uint32;
          nY = word_of_int (arg_int arguments ''nSubDomainY'') :: uint32;
          nZ = word_of_int (arg_int arguments ''nSubDomainZ'') :: uint32;
          mesh = word_of_int (arg_int arguments ''meshLength'') :: uint32;
          cX = rank div (nY * nZ);
          cY = (rank - cX * nY * nZ) div nZ;
          cZ = rank - cX * nY * nZ - cY * nZ;
          p0 = \<lparr>par_rank = rank,
                nRanks = word_of_int (arg_int arguments ''nSubDomainX'' * arg_int arguments ''nSubDomainY''
                                      * arg_int arguments ''nSubDomainZ''),
                nSubDomainX = nX, nSubDomainY = nY, nSubDomainZ = nZ,
                subDomainCoordX = cX, subDomainCoordY = cY, subDomainCoordZ = cZ,
                meshLength = mesh, nTimesteps = word_of_int (arg_int arguments ''nTimesteps''), neighbors = [],
                nPointsX = 0, nPointsY = 0, nPointsZ = 0, facetInfo = []\<rparr>;
          p1 = findNeighbors p0;
          p2 = p1\<lparr>nPointsX := mesh div nX, nPointsY := mesh div nY, nPointsZ := mesh div nZ\<rparr>
      in p2\<lparr>facetInfo := map (\<lambda>f. makeFacetInfo f p2) facets\<rparr>)"

text \<open>
  \<open>allocateStorage\<close>: the numbers of floats allocated. The operands of \<open>sizeof(float) * ...\<close> are of
  type \<open>size_t\<close>, the extensions by the ghost layers are computed in 32 bits.
\<close>

definition subDomain_floats :: "ParamsTy \<Rightarrow> nat" where
  "subDomain_floats params =
     unat (nPointsX params + 2) * unat (nPointsY params + 2) * unat (nPointsZ params + 2)"

definition facet_floats :: "FacetTy \<Rightarrow> ParamsTy \<Rightarrow> nat" where
  "facet_floats facet params =
     (case facet of
        XU \<Rightarrow> unat (nPointsY params) * unat (nPointsZ params)
      | XD \<Rightarrow> unat (nPointsY params) * unat (nPointsZ params)
      | YU \<Rightarrow> unat (nPointsX params) * unat (nPointsZ params)
      | YD \<Rightarrow> unat (nPointsX params) * unat (nPointsZ params)
      | ZU \<Rightarrow> unat (nPointsX params) * unat (nPointsY params)
      | ZD \<Rightarrow> unat (nPointsX params) * unat (nPointsY params))"

section \<open>Kernels\<close>

type_synonym point = "nat \<times> nat \<times> nat"
type_synonym 'f buffer = "nat \<Rightarrow> 'f"

definition work_items :: "uint32 \<times> uint32 \<times> uint32 \<Rightarrow> point list" where
  "work_items dispatch =
     (case dispatch of (gx, gy, gz) \<Rightarrow>
        List.product [0..<unat gx] (List.product [0..<unat gy] [0..<unat gz]))"

definition launch :: "(point \<Rightarrow> 'm \<Rightarrow> 'm) \<Rightarrow> uint32 \<times> uint32 \<times> uint32 \<Rightarrow> 'm \<Rightarrow> 'm" where
  "launch k dispatch memory = fold k (work_items dispatch) memory"

definition shift :: "uint32 \<times> uint32 \<times> uint32 \<Rightarrow> point \<Rightarrow> point" where
  "shift start p = (case (start, p) of ((a, b, c), (x, y, z)) \<Rightarrow> (x + unat a, y + unat b, z + unat c))"

definition flatId :: "uint32 \<Rightarrow> uint32 \<Rightarrow> point \<Rightarrow> nat" where
  "flatId nY nZ p =
     (case p of (x, y, z) \<Rightarrow> x * unat (nY + 2) * unat (nZ + 2) + y * unat (nZ + 2) + z)"

text \<open>The range of a bound, \<open>end - start + 1\<close> in 32 bits.\<close>

definition ranges ::
  "uint32 \<times> uint32 \<times> uint32 \<Rightarrow> uint32 \<times> uint32 \<times> uint32 \<Rightarrow> uint32 \<times> uint32 \<times> uint32" where
  "ranges start end =
     (case (start, end) of ((a, b, c), (a', b', c')) \<Rightarrow> (a' - a + 1, b' - b + 1, c' - c + 1))"

definition bufferId :: "uint32 \<times> uint32 \<times> uint32 \<Rightarrow> point \<Rightarrow> nat" where
  "bufferId rng p =
     (case (rng, p) of ((rx, ry, rz), (x, y, z)) \<Rightarrow> x * unat ry * unat rz + y * unat rz + z)"

text \<open>The temperature ball: \<open>hot\<close> decides for the coordinates of a point whether it lies in it.\<close>

definition init_temperature ::
  "(nat \<times> nat \<times> nat \<Rightarrow> bool) \<Rightarrow> 'f \<Rightarrow> 'f \<Rightarrow> ParamsTy \<Rightarrow> point \<Rightarrow> 'f buffer \<Rightarrow> 'f buffer" where
  "init_temperature hot ambient hiTemp params p subDomain =
     (case p of (gx, gy, gz) \<Rightarrow>
        let xId = gx + 1; yId = gy + 1; zId = gz + 1;
            x = unat (subDomainCoordX params * nPointsX params) + xId - 1;
            y = unat (subDomainCoordY params * nPointsY params) + yId - 1;
            z = unat (subDomainCoordZ params * nPointsZ params) + zId - 1
        in subDomain(flatId (nPointsY params) (nPointsZ params) (xId, yId, zId) :=
             (if \<not> hot (x, y, z) then ambient else hiTemp)))"

text \<open>The index \<open>pack_send_buffer\<close> reads, as it is written in the kernel.\<close>

definition pack_index :: "uint32 \<Rightarrow> uint32 \<Rightarrow> point \<Rightarrow> nat" where
  "pack_index nY nZ p =
     (case p of (x, y, z) \<Rightarrow> x * unat (nY + 2) + unat (nZ + 2) + y * unat (nZ + 2) + z)"

definition pack_send_buffer ::
  "ParamsTy \<Rightarrow> uint32 \<times> uint32 \<times> uint32 \<Rightarrow> uint32 \<times> uint32 \<times> uint32 \<Rightarrow> 'f buffer \<Rightarrow> point \<Rightarrow> 'f buffer \<Rightarrow> 'f buffer" where
  "pack_send_buffer params start end subDomain p sendBuffer =
     sendBuffer(bufferId (ranges start end) p :=
       subDomain (pack_index (nPointsY params) (nPointsZ params) (shift start p)))"

definition unpack_recv_buffer ::
  "ParamsTy \<Rightarrow> uint32 \<times> uint32 \<times> uint32 \<Rightarrow> uint32 \<times> uint32 \<times> uint32 \<Rightarrow> 'f buffer \<Rightarrow> point \<Rightarrow> 'f buffer \<Rightarrow> 'f buffer" where
  "unpack_recv_buffer params start end recvBuffer p subDomain =
     subDomain(flatId (nPointsY params) (nPointsZ params) (shift start p) :=
       recvBuffer (bufferId (ranges start end) p))"

text \<open>The new temperature of a point; \<open>six\<close> is the constant \<open>6.0f\<close>.\<close>

definition stencil :: "'f::{plus,minus,times} \<Rightarrow> 'f \<Rightarrow> ParamsTy \<Rightarrow> 'f buffer \<Rightarrow> point \<Rightarrow> 'f" where
  "stencil six weight params old p =
     (let temp = (\<lambda>q. old (flatId (nPointsY params) (nPointsZ params) q))
      in case p of (x, y, z) \<Rightarrow>
           let deltaTemp = weight * (temp (x - 1, y, z) + temp (x + 1, y, z) + temp (x, y - 1, z) + temp (x, y + 1, z)
                 + temp (x, y, z - 1) + temp (x, y, z + 1) - six * temp (x, y, z))
           in temp (x, y, z) + deltaTemp)"

definition update_facet ::
  "'f::{plus,minus,times} \<Rightarrow> 'f \<Rightarrow> ParamsTy \<Rightarrow> uint32 \<times> uint32 \<times> uint32 \<Rightarrow> 'f buffer \<Rightarrow> point \<Rightarrow> 'f buffer \<Rightarrow> 'f buffer" where
  "update_facet six weight params start old p new =
     new(flatId (nPointsY params) (nPointsZ params) (shift start p) := stencil six weight params old (shift start p))"

definition update_interior ::
  "'f::{plus,minus,times} \<Rightarrow> 'f \<Rightarrow> ParamsTy \<Rightarrow> 'f buffer \<Rightarrow> point \<Rightarrow> 'f buffer \<Rightarrow> 'f buffer" where
  "update_interior six weight params old p new =
     new(flatId (nPointsY params) (nPointsZ params) (shift (2, 2, 2) p) := stencil six weight params old (shift (2, 2, 2) p))"

section \<open>Host functions\<close>

record 'f RankMemory =
  subDomainOld :: "'f buffer"
  subDomainNew :: "'f buffer"
  sendBuffers :: "FacetTy \<Rightarrow> 'f buffer"
  recvBuffers :: "FacetTy \<Rightarrow> 'f buffer"

definition info_of :: "ParamsTy \<Rightarrow> FacetTy \<Rightarrow> FacetInfoTy" where
  "info_of params facet = facetInfo params ! nat (FacetTy_code facet)"

definition initTemperature ::
  "(nat \<times> nat \<times> nat \<Rightarrow> bool) \<Rightarrow> 'f \<Rightarrow> 'f \<Rightarrow> ParamsTy \<Rightarrow> 'f RankMemory \<Rightarrow> 'f RankMemory" where
  "initTemperature hot ambient hiTemp params m =
     m\<lparr>subDomainNew := launch (init_temperature hot ambient hiTemp params)
         (nPointsX params, nPointsY params, nPointsZ params) (subDomainNew m)\<rparr>"

definition packSendBuffer :: "ParamsTy \<Rightarrow> FacetTy \<Rightarrow> 'f RankMemory \<Rightarrow> 'f RankMemory" where
  "packSendBuffer params facet m =
     (let fi = info_of params facet
      in m\<lparr>sendBuffers := (sendBuffers m)(facet :=
           launch (pack_send_buffer params (innerStart fi) (innerEnd fi) (subDomainNew m))
             (ranges (innerStart fi) (innerEnd fi)) (sendBuffers m facet))\<rparr>)"

definition unpackRecvBufferHelper :: "ParamsTy \<Rightarrow> FacetTy \<Rightarrow> 'f RankMemory \<Rightarrow> 'f RankMemory" where
  "unpackRecvBufferHelper params facet m =
     (let fi = info_of params facet
      in m\<lparr>subDomainNew :=
           launch (unpack_recv_buffer params (outerStart fi) (outerEnd fi) (recvBuffers m facet))
             (ranges (outerStart fi) (outerEnd fi)) (subDomainNew m)\<rparr>)"

definition unpackRecvBuffers :: "ParamsTy \<Rightarrow> 'f RankMemory \<Rightarrow> 'f RankMemory" where
  "unpackRecvBuffers params m = fold (unpackRecvBufferHelper params) facets m"

definition updateFacet ::
  "'f::{plus,minus,times} \<Rightarrow> 'f \<Rightarrow> ParamsTy \<Rightarrow> FacetTy \<Rightarrow> 'f RankMemory \<Rightarrow> 'f RankMemory" where
  "updateFacet six weight params facet m =
     (let fi = info_of params facet
      in m\<lparr>subDomainNew := launch (update_facet six weight params (dedupStart fi) (subDomainOld m))
             (ranges (dedupStart fi) (dedupEnd fi)) (subDomainNew m)\<rparr>)"

definition updateInterior ::
  "'f::{plus,minus,times} \<Rightarrow> 'f \<Rightarrow> ParamsTy \<Rightarrow> 'f RankMemory \<Rightarrow> 'f RankMemory" where
  "updateInterior six weight params m =
     m\<lparr>subDomainNew := launch (update_interior six weight params (subDomainOld m))
         (nPointsX params - 2, nPointsY params - 2, nPointsZ params - 2) (subDomainNew m)\<rparr>"

text \<open>The first part of a time step of one rank: every facet is updated and then packed for its neighbour.\<close>

definition facet_step :: "'f::{plus,minus,times} \<Rightarrow> 'f \<Rightarrow> ParamsTy \<Rightarrow> 'f RankMemory \<Rightarrow> 'f RankMemory" where
  "facet_step six weight params m =
     fold (\<lambda>f m. packSendBuffer params f (updateFacet six weight params f m)) facets m"

definition initPackSendBuffers :: "ParamsTy \<Rightarrow> 'f RankMemory \<Rightarrow> 'f RankMemory" where
  "initPackSendBuffers params m = fold (packSendBuffer params) facets m"

definition swap_subDomains :: "'f RankMemory \<Rightarrow> 'f RankMemory" where
  "swap_subDomains m = m\<lparr>subDomainNew := subDomainOld m, subDomainOld := subDomainNew m\<rparr>"

text \<open>\<open>sendFacet\<close> of one rank: a copy of \<open>bufferLen\<close> floats into the buffer of the neighbour.\<close>

definition sendFacet :: "ParamsTy list \<Rightarrow> nat \<Rightarrow> FacetTy \<Rightarrow> 'f RankMemory list \<Rightarrow> 'f RankMemory list" where
  "sendFacet ps r facet ms =
     (let fi = info_of (ps ! r) facet; n = unat (neighborRank fi); f' = neighborFacet fi;
          copied = (\<lambda>i. if i < bufferLen fi then sendBuffers (ms ! r) facet i else recvBuffers (ms ! n) f' i)
      in ms[n := (ms ! n)\<lparr>recvBuffers := (recvBuffers (ms ! n))(f' := copied)\<rparr>])"

definition sendFacets :: "ParamsTy list \<Rightarrow> nat \<Rightarrow> 'f RankMemory list \<Rightarrow> 'f RankMemory list" where
  "sendFacets ps r ms = fold (sendFacet ps r) facets ms"

text \<open>
  A time step of all ranks, and what precedes the first one. The barrier \<open>ipcBarrierWorker\<close> separates
  the copies of all ranks from the unpacking; before it a rank writes its own memory and receive
  buffers of its neighbours that no other rank writes, so the ranks are run one after the other. Kernels and copies of a rank
  are run in the order in which the code enqueues them: the barriers between them are left out, and what a missing
  barrier would allow is not expressed here.
\<close>

definition time_step :: "'f::{plus,minus,times} \<Rightarrow> 'f \<Rightarrow> ParamsTy list \<Rightarrow> 'f RankMemory list \<Rightarrow> 'f RankMemory list" where
  "time_step six weight ps ms =
     (let ms1 = map2 (facet_step six weight) ps ms;
          ms2 = fold (sendFacets ps) [0..<length ps] ms1;
          ms3 = map2 (updateInterior six weight) ps ms2
      in map2 (\<lambda>p m. swap_subDomains (unpackRecvBuffers p m)) ps ms3)"

definition first_exchange ::
  "(nat \<times> nat \<times> nat \<Rightarrow> bool) \<Rightarrow> 'f \<Rightarrow> 'f \<Rightarrow> ParamsTy list \<Rightarrow> 'f RankMemory list \<Rightarrow> 'f RankMemory list" where
  "first_exchange hot ambient hiTemp ps ms =
     (let ms1 = map2 (\<lambda>p m. initPackSendBuffers p (initTemperature hot ambient hiTemp p m)) ps ms;
          ms2 = fold (sendFacets ps) [0..<length ps] ms1
      in map2 (\<lambda>p m. swap_subDomains (unpackRecvBuffers p m)) ps ms2)"

text \<open>One iteration of the loop of \<open>run\<close>.\<close>

definition heat3d_iteration ::
  "'f::{plus,minus,times} \<Rightarrow> 'f \<Rightarrow> (nat \<times> nat \<times> nat \<Rightarrow> bool) \<Rightarrow> 'f \<Rightarrow> 'f \<Rightarrow> nat \<Rightarrow> ParamsTy list \<Rightarrow> 'f RankMemory list \<Rightarrow> 'f RankMemory list" where
  "heat3d_iteration six weight hot ambient hiTemp timesteps ps ms =
     ((time_step six weight ps) ^^ timesteps) (first_exchange hot ambient hiTemp ps ms)"

section \<open>Boxes of points\<close>

definition box :: "uint32 \<times> uint32 \<times> uint32 \<Rightarrow> uint32 \<times> uint32 \<times> uint32 \<Rightarrow> point set" where
  "box start end = (case (start, end) of ((a, b, c), (a', b', c')) \<Rightarrow>
     {unat a..unat a'} \<times> {unat b..unat b'} \<times> {unat c..unat c'})"

text \<open>A bound that is empty or proper, so that its range does not wrap around.\<close>

definition proper :: "uint32 \<Rightarrow> uint32 \<Rightarrow> bool" where
  "proper a a' \<longleftrightarrow> unat a \<le> unat a' + 1 \<and> unat a' + 1 < 2 ^ 32"

definition proper_box :: "uint32 \<times> uint32 \<times> uint32 \<Rightarrow> uint32 \<times> uint32 \<times> uint32 \<Rightarrow> bool" where
  "proper_box start end = (case (start, end) of ((a, b, c), (a', b', c')) \<Rightarrow>
     proper a a' \<and> proper b b' \<and> proper c c')"

lemma unat_range: "proper a a' \<Longrightarrow> unat (a' - a + 1) = unat a' + 1 - unat a"
proof -
  assume p: "proper a a'"
  then have s: "unat (a' + 1) = unat a' + 1"
    by (simp add: proper_def unat_word_ariths)
  have "unat (a' + 1 - a) = unat (a' + 1) - unat a"
    using p s by (intro unat_sub) (simp add: proper_def word_le_nat_alt)
  then show ?thesis using s by (simp add: algebra_simps)
qed

lemma shift_interval: "(\<lambda>x. x + a) ` {0..<n} = {a..<a + (n :: nat)}"
  by (simp add: add.commute)

lemma set_work_items: "set (work_items (gx, gy, gz)) = {0..<unat gx} \<times> {0..<unat gy} \<times> {0..<unat gz}"
  by (simp add: work_items_def)

lemma distinct_work_items: "distinct (work_items g)"
  by (cases g) (simp add: work_items_def distinct_product)

lemma shift_inj: "inj (shift start)"
  by (cases start) (auto simp: inj_def shift_def)

lemma shift_work_items:
  assumes "proper_box start end"
  shows "shift start ` set (work_items (ranges start end)) = box start end"
proof -
  obtain a b c a' b' c' where se: "start = (a, b, c)" "end = (a', b', c')" by (metis prod.exhaust)
  have p: "proper a a'" "proper b b'" "proper c c'" using assms by (simp_all add: se proper_box_def)
  have i: "(\<lambda>x. x + unat a) ` {0..<unat a' + 1 - unat a} = {unat a..unat a'}" if "proper a a'" for a a'
    unfolding shift_interval using that by (auto simp: proper_def)
  have "shift start ` (A \<times> B \<times> C) = (\<lambda>x. x + unat a) ` A \<times> (\<lambda>x. x + unat b) ` B \<times> (\<lambda>x. x + unat c) ` C" for A B C
    by (force simp: se shift_def image_iff)
  then show ?thesis
    using p i [OF p(1)] i [OF p(2)] i [OF p(3)]
    by (simp only: se ranges_def set_work_items unat_range box_def prod.case)
qed

section \<open>Kernels that write distinct places\<close>

definition writes :: "('p \<Rightarrow> nat) \<Rightarrow> ('p \<Rightarrow> 'f) \<Rightarrow> 'p list \<Rightarrow> 'f buffer \<Rightarrow> 'f buffer" where
  "writes idx w ps m = fold (\<lambda>p m. m(idx p := w p)) ps m"

lemma writes_simps [simp]:
  "writes idx w [] m = m" "writes idx w (p # ps) m = writes idx w ps (m(idx p := w p))"
  "writes idx w (ps @ qs) m = writes idx w qs (writes idx w ps m)"
  unfolding writes_def by simp_all

lemma writes_other: "\<forall>p \<in> set ps. idx p \<noteq> i \<Longrightarrow> writes idx w ps m i = m i"
  by (induction ps arbitrary: m) auto

lemma writes_at: "inj_on idx (set ps) \<Longrightarrow> p \<in> set ps \<Longrightarrow> writes idx w ps m (idx p) = w p"
proof (induction ps arbitrary: m)
  case (Cons q ps)
  show ?case
  proof (cases "p \<in> set ps")
    case True
    with Cons show ?thesis by simp
  next
    case False
    with Cons have "p = q" "\<forall>p' \<in> set ps. idx p' \<noteq> idx p" by (auto simp: inj_on_def)
    then show ?thesis by (simp add: writes_other)
  qed
qed simp

lemma writes_same_set:
  assumes "inj_on idx (set ps)" "set ps = set qs"
  shows "writes idx w ps m = writes idx w qs m"
proof
  fix i
  show "writes idx w ps m i = writes idx w qs m i"
  proof (cases "\<exists>p \<in> set ps. idx p = i")
    case True
    then obtain p where "p \<in> set ps" "i = idx p" by blast
    moreover have "inj_on idx (set qs)" "p \<in> set qs" using assms \<open>p \<in> set ps\<close> by simp_all
    ultimately show ?thesis using writes_at assms(1) by metis
  next
    case False
    then show ?thesis using assms(2) by (simp add: writes_other)
  qed
qed

lemma launch_writes: "launch (\<lambda>p m. m(idx p := w p)) g m = writes idx w (work_items g) m"
  by (simp add: launch_def writes_def)

lemma writes_map: "writes idx w (map h ps) m = writes (\<lambda>p. idx (h p)) (\<lambda>p. w (h p)) ps m"
  by (induction ps arbitrary: m) auto

section \<open>Index of a point\<close>

definition params_ok :: "ParamsTy \<Rightarrow> bool" where
  "params_ok params \<longleftrightarrow> unat (nPointsX params) + 2 < 2 ^ 32 \<and> unat (nPointsY params) + 2 < 2 ^ 32 \<and>
     unat (nPointsZ params) + 2 < 2 ^ 32 \<and> facetInfo params = map (\<lambda>f. makeFacetInfo f params) facets"

definition wide :: "ParamsTy \<Rightarrow> bool" where
  "wide params \<longleftrightarrow> 2 \<le> unat (nPointsX params) \<and> 2 \<le> unat (nPointsY params) \<and> 2 \<le> unat (nPointsZ params)"

lemma unat_plus_2: "unat (n :: uint32) + 2 < 2 ^ 32 \<Longrightarrow> unat (n + 2) = unat n + 2"
  by (simp add: unat_word_ariths)

lemma mixed_radix_inj:
  fixes x y z x' y' z' Y Z :: nat
  assumes "y < Y" "z < Z" "y' < Y" "z' < Z" "x * Y * Z + y * Z + z = x' * Y * Z + y' * Z + z'"
  shows "x = x' \<and> y = y' \<and> z = z'"
proof -
  have e: "(x * Y + y) * Z + z = (x' * Y + y') * Z + z'" using assms(5) by (simp add: algebra_simps)
  from arg_cong [OF e, of "\<lambda>n. n mod Z"] have "z = z'" using assms(2,4) by simp
  moreover from arg_cong [OF e, of "\<lambda>n. n div Z"] have f: "x * Y + y = x' * Y + y'" using assms(2,4) by simp
  moreover from arg_cong [OF f, of "\<lambda>n. n mod Y"] have "y = y'" using assms(1,3) by simp
  moreover from arg_cong [OF f, of "\<lambda>n. n div Y"] have "x = x'" using assms(1,3) by simp
  ultimately show ?thesis by simp
qed

text \<open>The block of a sub-domain with its ghost layers, and without them.\<close>

definition extended_block :: "ParamsTy \<Rightarrow> point set" where
  "extended_block params = {0..unat (nPointsX params) + 1} \<times> {0..unat (nPointsY params) + 1} \<times> {0..unat (nPointsZ params) + 1}"

definition block :: "ParamsTy \<Rightarrow> point set" where
  "block params = {1..unat (nPointsX params)} \<times> {1..unat (nPointsY params)} \<times> {1..unat (nPointsZ params)}"

lemma flatId_inj: "params_ok params \<Longrightarrow> inj_on (flatId (nPointsY params) (nPointsZ params)) (extended_block params)"
proof (rule inj_onI)
  fix p q
  assume ok: "params_ok params" and pq: "p \<in> extended_block params" "q \<in> extended_block params"
    and e: "flatId (nPointsY params) (nPointsZ params) p = flatId (nPointsY params) (nPointsZ params) q"
  obtain x y z x' y' z' where c: "p = (x, y, z)" "q = (x', y', z')" by (metis prod.exhaust)
  have n: "unat (nPointsY params + 2) = unat (nPointsY params) + 2" "unat (nPointsZ params + 2) = unat (nPointsZ params) + 2"
    using ok unat_plus_2 by (simp_all add: params_ok_def)
  have "x = x' \<and> y = y' \<and> z = z'"
    by (rule mixed_radix_inj [of y "unat (nPointsY params) + 2" z "unat (nPointsZ params) + 2" y' z' x x'])
      (use pq e in \<open>auto simp: c extended_block_def flatId_def n\<close>)
  then show "p = q" by (simp add: c)
qed

lemma block_extended: "block params \<subseteq> extended_block params"
  by (auto simp: block_def extended_block_def)

section \<open>Facets and interior cover the block\<close>

lemma launch_update_facet:
  "launch (update_facet six weight params start old) g m =
     writes (flatId (nPointsY params) (nPointsZ params)) (stencil six weight params old) (map (shift start) (work_items g)) m"
  unfolding writes_map launch_writes [symmetric] by (simp add: launch_def update_facet_def [abs_def])

lemma launch_update_interior:
  "launch (update_interior six weight params old) g m =
     writes (flatId (nPointsY params) (nPointsZ params)) (stencil six weight params old) (map (shift (2, 2, 2)) (work_items g)) m"
  unfolding writes_map launch_writes [symmetric] by (simp add: launch_def update_interior_def [abs_def])

text \<open>The points \<open>updateFacet\<close> and \<open>updateInterior\<close> compute, in the order in which they are launched.\<close>

definition facet_points :: "ParamsTy \<Rightarrow> FacetTy \<Rightarrow> point list" where
  "facet_points params f = map (shift (dedupStart (info_of params f)))
     (work_items (ranges (dedupStart (info_of params f)) (dedupEnd (info_of params f))))"

definition interior_points :: "ParamsTy \<Rightarrow> point list" where
  "interior_points params = map (shift (2, 2, 2))
     (work_items (nPointsX params - 2, nPointsY params - 2, nPointsZ params - 2))"

definition updated_points :: "ParamsTy \<Rightarrow> point list" where
  "updated_points params = concat (map (facet_points params) facets) @ interior_points params"

text \<open>The points of the block in the order of three nested loops.\<close>

definition block_points :: "ParamsTy \<Rightarrow> point list" where
  "block_points params = map (shift (1, 1, 1)) (work_items (nPointsX params, nPointsY params, nPointsZ params))"

lemma info_of_makeFacetInfo: "params_ok params \<Longrightarrow> info_of params f = makeFacetInfo f params"
  by (cases f) (simp_all add: params_ok_def info_of_def facets_def)

lemma pack_keeps [simp]: "subDomainNew (packSendBuffer params f m) = subDomainNew m"
  "subDomainOld (packSendBuffer params f m) = subDomainOld m"
  "recvBuffers (packSendBuffer params f m) = recvBuffers m"
  by (simp_all add: packSendBuffer_def Let_def)

lemma facet_step_writes:
  "subDomainNew (facet_step six weight params m) =
     writes (flatId (nPointsY params) (nPointsZ params)) (stencil six weight params (subDomainOld m))
       (concat (map (facet_points params) facets)) (subDomainNew m)"
  "subDomainOld (facet_step six weight params m) = subDomainOld m"
  "recvBuffers (facet_step six weight params m) = recvBuffers m"
  by (simp_all add: facet_step_def facets_def updateFacet_def Let_def launch_update_facet facet_points_def)

lemma updateInterior_writes:
  "subDomainNew (updateInterior six weight params m) =
     writes (flatId (nPointsY params) (nPointsZ params)) (stencil six weight params (subDomainOld m))
       (interior_points params) (subDomainNew m)"
  "subDomainOld (updateInterior six weight params m) = subDomainOld m"
  "recvBuffers (updateInterior six weight params m) = recvBuffers m"
  by (simp_all add: updateInterior_def launch_update_interior interior_points_def)

lemma set_block_points: "set (block_points params) = block params"
proof -
  have 1: "(\<lambda>x. x + 1) ` {0..<n} = {1..n}" for n :: nat by (auto simp: image_iff intro: exI [of _ "_ - 1"])
  have "shift (1, 1, 1) ` (A \<times> B \<times> C) = (\<lambda>x. x + 1) ` A \<times> (\<lambda>x. x + 1) ` B \<times> (\<lambda>x. x + 1) ` C" for A B C
    by (force simp: shift_def image_iff)
  then show ?thesis by (simp only: block_points_def set_map set_work_items 1 block_def)
qed

lemma distinct_block_points: "distinct (block_points params)"
  by (simp add: block_points_def distinct_map distinct_work_items inj_on_subset [OF shift_inj subset_UNIV])

lemma unat_diff_2: "2 \<le> unat (n :: uint32) \<Longrightarrow> unat (n - 2) = unat n - 2" "2 \<le> unat n \<Longrightarrow> unat (n - 1) = unat n - 1"
  by (simp_all add: unat_sub word_le_nat_alt)

lemma proper_intros:
  assumes "unat n + 2 < 2 ^ 32"
  shows "proper n n" "proper 1 n" "proper (n + 1) (n + 1)" "2 \<le> unat n \<Longrightarrow> proper 2 (n - 1)" "proper 1 1" "proper 0 0"
proof -
  have "unat (n + 1) = unat n + 1" using assms by (simp add: unat_word_ariths)
  with assms show "proper n n" "proper 1 n" "proper (n + 1) (n + 1)" "2 \<le> unat n \<Longrightarrow> proper 2 (n - 1)" "proper 1 1" "proper 0 0"
    by (simp_all add: proper_def unat_diff_2)
qed

lemma params_okD:
  assumes "params_ok params"
  shows "unat (nPointsX params) + 2 < 2 ^ 32" "unat (nPointsY params) + 2 < 2 ^ 32" "unat (nPointsZ params) + 2 < 2 ^ 32"
  using assms by (simp_all add: params_ok_def)

text \<open>The points of a facet that no facet before it has, for a block of \<open>X * Y * Z\<close> points.\<close>

definition own_points :: "nat \<Rightarrow> nat \<Rightarrow> nat \<Rightarrow> FacetTy \<Rightarrow> point set" where
  "own_points X Y Z f = (case f of
       XU \<Rightarrow> {X} \<times> {1..Y} \<times> {1..Z} | XD \<Rightarrow> {1} \<times> {1..Y} \<times> {1..Z}
     | YU \<Rightarrow> {2..X - 1} \<times> {Y} \<times> {1..Z} | YD \<Rightarrow> {2..X - 1} \<times> {1} \<times> {1..Z}
     | ZU \<Rightarrow> {2..X - 1} \<times> {2..Y - 1} \<times> {Z} | ZD \<Rightarrow> {2..X - 1} \<times> {2..Y - 1} \<times> {1})"

lemma own_points_disjoint: "2 \<le> X \<Longrightarrow> 2 \<le> Y \<Longrightarrow> 2 \<le> Z \<Longrightarrow> f \<noteq> f' \<Longrightarrow> own_points X Y Z f \<inter> own_points X Y Z f' = {}"
  by (cases f; cases f'; simp add: own_points_def Times_Int_Times)

lemma own_points_interior: "2 \<le> X \<Longrightarrow> 2 \<le> Y \<Longrightarrow> 2 \<le> Z \<Longrightarrow>
    own_points X Y Z f \<inter> {2..X - 1} \<times> {2..Y - 1} \<times> {2..Z - 1} = {}"
  by (cases f; simp add: own_points_def Times_Int_Times)

lemma own_points_cover:
  fixes X Y Z :: nat
  assumes "2 \<le> X" "2 \<le> Y" "2 \<le> Z"
  shows "{1..X} \<times> {1..Y} \<times> {1..Z} = (\<Union>f \<in> set facets. own_points X Y Z f) \<union> {2..X - 1} \<times> {2..Y - 1} \<times> {2..Z - 1}"
proof -
  have e: "{1..n} = {n} \<union> {1} \<union> {2..n - 1}" if "2 \<le> n" for n :: nat using that by auto
  have "{1..X} \<times> {1..Y} \<times> {1..Z} = {X} \<times> {1..Y} \<times> {1..Z} \<union> {1} \<times> {1..Y} \<times> {1..Z} \<union> {2..X - 1} \<times> {1..Y} \<times> {1..Z}"
    by (subst e [OF assms(1)]) (simp only: Sigma_Un_distrib1)
  also have "{2..X - 1} \<times> {1..Y} \<times> {1..Z} =
      {2..X - 1} \<times> {Y} \<times> {1..Z} \<union> {2..X - 1} \<times> {1} \<times> {1..Z} \<union> {2..X - 1} \<times> {2..Y - 1} \<times> {1..Z}"
    by (subst e [OF assms(2)]) (simp only: Sigma_Un_distrib1 Times_Un_distrib1 Sigma_Un_distrib2)
  also have "{2..X - 1} \<times> {2..Y - 1} \<times> {1..Z} =
      {2..X - 1} \<times> {2..Y - 1} \<times> {Z} \<union> {2..X - 1} \<times> {2..Y - 1} \<times> {1} \<union> {2..X - 1} \<times> {2..Y - 1} \<times> {2..Z - 1}"
    by (subst e [OF assms(3)]) (simp only: Sigma_Un_distrib2)
  finally show ?thesis by (simp add: facets_def own_points_def Un_assoc)
qed

lemma dedup_boxes:
  assumes "params_ok params" "wide params"
  shows "proper_box (dedupStart (info_of params f)) (dedupEnd (info_of params f))"
    and "box (dedupStart (info_of params f)) (dedupEnd (info_of params f)) =
      own_points (unat (nPointsX params)) (unat (nPointsY params)) (unat (nPointsZ params)) f"
proof -
  have w: "2 \<le> unat (nPointsX params)" "2 \<le> unat (nPointsY params)" "2 \<le> unat (nPointsZ params)"
    using assms(2) by (simp_all add: wide_def)
  note p = proper_intros [OF params_okD(1) [OF assms(1)]] proper_intros [OF params_okD(2) [OF assms(1)]]
    proper_intros [OF params_okD(3) [OF assms(1)]]
  note i = info_of_makeFacetInfo [OF assms(1)] makeFacetInfo_def
  show "proper_box (dedupStart (info_of params f)) (dedupEnd (info_of params f))"
    by (cases f) (simp_all add: i Let_def proper_box_def p w)
  show "box (dedupStart (info_of params f)) (dedupEnd (info_of params f)) =
      own_points (unat (nPointsX params)) (unat (nPointsY params)) (unat (nPointsZ params)) f"
    by (cases f) (simp_all add: i Let_def box_def unat_diff_2 w own_points_def)
qed

lemma set_interior_points:
  assumes "wide params"
  shows "set (interior_points params) = {2..unat (nPointsX params) - 1} \<times> {2..unat (nPointsY params) - 1} \<times> {2..unat (nPointsZ params) - 1}"
proof -
  have 2: "(\<lambda>x. x + 2) ` {0..<n - 2} = {2..n - 1}" if "2 \<le> n" for n :: nat
    unfolding shift_interval using that by auto
  have "shift (2, 2, 2) ` (A \<times> B \<times> C) = (\<lambda>x. x + 2) ` A \<times> (\<lambda>x. x + 2) ` B \<times> (\<lambda>x. x + 2) ` C" for A B C
    by (force simp: shift_def image_iff)
  moreover have "2 \<le> unat (nPointsX params)" "2 \<le> unat (nPointsY params)" "2 \<le> unat (nPointsZ params)"
    using assms by (simp_all add: wide_def)
  ultimately show ?thesis by (simp only: interior_points_def set_map set_work_items unat_diff_2 2)
qed

lemma set_facet_points:
  assumes "params_ok params" "wide params"
  shows "set (facet_points params f) = own_points (unat (nPointsX params)) (unat (nPointsY params)) (unat (nPointsZ params)) f"
  using shift_work_items [OF dedup_boxes(1) [OF assms]] by (simp add: facet_points_def dedup_boxes(2) [OF assms])

lemma distinct_facet_points: "distinct (facet_points params f)"
  by (simp add: facet_points_def distinct_map distinct_work_items inj_on_subset [OF shift_inj subset_UNIV])

lemma wideD:
  assumes "wide params"
  shows "2 \<le> unat (nPointsX params)" "2 \<le> unat (nPointsY params)" "2 \<le> unat (nPointsZ params)"
  using assms by (simp_all add: wide_def)

lemma set_updated_points:
  assumes "params_ok params" "wide params"
  shows "set (updated_points params) = block params"
  unfolding block_def own_points_cover [OF wideD [OF assms(2)]] updated_points_def
  by (simp only: set_append set_concat set_map image_image set_facet_points [OF assms] set_interior_points [OF assms(2)])

lemma distinct_concat_map:
  assumes "distinct xs" "\<And>x. distinct (h x)" "\<And>x y. x \<noteq> y \<Longrightarrow> set (h x) \<inter> set (h y) = {}"
  shows "distinct (concat (map h xs))"
  using assms(1) by (induction xs) (use assms(2,3) in \<open>auto simp: disjoint_iff, metis\<close>)

lemma distinct_updated_points:
  assumes "params_ok params" "wide params"
  shows "distinct (updated_points params)"
proof -
  have w: "2 \<le> unat (nPointsX params)" "2 \<le> unat (nPointsY params)" "2 \<le> unat (nPointsZ params)"
    using assms(2) by (simp_all add: wide_def)
  have "distinct (concat (map (facet_points params) facets))"
    by (rule distinct_concat_map)
      (simp_all add: distinct_facet_points set_facet_points [OF assms] own_points_disjoint w, simp add: facets_def)
  moreover have "set (facet_points params f) \<inter> set (interior_points params) = {}" for f
    using own_points_interior [OF w] by (simp add: set_facet_points [OF assms] set_interior_points [OF assms(2)])
  moreover have "distinct (interior_points params)"
    by (simp add: interior_points_def distinct_map distinct_work_items inj_on_subset [OF shift_inj subset_UNIV])
  ultimately show ?thesis by (auto simp: updated_points_def)
qed

section \<open>A time step\<close>

text \<open>The copies to the neighbours leave the sub-domains alone.\<close>

lemma list_update_nth: "g x = g (xs ! i) \<Longrightarrow> map g (xs[i := x]) = map g xs"
  by (cases "i < length xs") (simp_all add: map_update list_update_same_conv list_update_beyond)

lemma sendFacet_keeps:
  "length (sendFacet ps r f ms) = length ms"
  "map subDomainNew (sendFacet ps r f ms) = map subDomainNew ms"
  "map subDomainOld (sendFacet ps r f ms) = map subDomainOld ms"
  "map sendBuffers (sendFacet ps r f ms) = map sendBuffers ms"
  by (simp_all add: sendFacet_def Let_def list_update_nth)

lemma fold_same: "(\<And>x s. h (g x s) = h s) \<Longrightarrow> h (fold g xs s) = h s"
  by (induction xs arbitrary: s) simp_all

lemma sendFacets_keeps:
  "length (fold (sendFacets ps) rs ms) = length ms"
  "map subDomainNew (fold (sendFacets ps) rs ms) = map subDomainNew ms"
  "map subDomainOld (fold (sendFacets ps) rs ms) = map subDomainOld ms"
  "map sendBuffers (fold (sendFacets ps) rs ms) = map sendBuffers ms"
  unfolding sendFacets_def [abs_def]
  by (simp_all only: fold_same [where h = length] fold_same [where h = "map subDomainNew"]
      fold_same [where h = "map subDomainOld"] fold_same [where h = "map sendBuffers"] sendFacet_keeps)

lemma map_eq_nth: "map g xs = map g ys \<Longrightarrow> i < length xs \<Longrightarrow> g (xs ! i) = g (ys ! i)"
  by (metis length_map nth_map)

lemma sent_nth:
  assumes "r < length ms"
  shows "subDomainNew (fold (sendFacets ps) rs ms ! r) = subDomainNew (ms ! r)"
    "subDomainOld (fold (sendFacets ps) rs ms ! r) = subDomainOld (ms ! r)"
    "sendBuffers (fold (sendFacets ps) rs ms ! r) = sendBuffers (ms ! r)"
  using assms by (auto intro!: map_eq_nth simp: sendFacets_keeps)

text \<open>Unpacking writes ghost points only.\<close>

lemma unpack_helper_writes:
  "subDomainNew (unpackRecvBufferHelper params f m) =
     writes (\<lambda>p. flatId (nPointsY params) (nPointsZ params) (shift (outerStart (info_of params f)) p))
       (\<lambda>p. recvBuffers m f (bufferId (ranges (outerStart (info_of params f)) (outerEnd (info_of params f))) p))
       (work_items (ranges (outerStart (info_of params f)) (outerEnd (info_of params f)))) (subDomainNew m)"
  "subDomainOld (unpackRecvBufferHelper params f m) = subDomainOld m"
  "recvBuffers (unpackRecvBufferHelper params f m) = recvBuffers m"
  by (simp_all add: unpackRecvBufferHelper_def Let_def launch_writes [symmetric] launch_def unpack_recv_buffer_def [abs_def])

definition ghost_layer :: "nat \<Rightarrow> nat \<Rightarrow> nat \<Rightarrow> FacetTy \<Rightarrow> point set" where
  "ghost_layer X Y Z f = (case f of
       XU \<Rightarrow> {X + 1} \<times> {1..Y} \<times> {1..Z} | XD \<Rightarrow> {0} \<times> {1..Y} \<times> {1..Z}
     | YU \<Rightarrow> {1..X} \<times> {Y + 1} \<times> {1..Z} | YD \<Rightarrow> {1..X} \<times> {0} \<times> {1..Z}
     | ZU \<Rightarrow> {1..X} \<times> {1..Y} \<times> {Z + 1} | ZD \<Rightarrow> {1..X} \<times> {1..Y} \<times> {0})"

lemma outer_boxes:
  assumes "params_ok params"
  shows "proper_box (outerStart (info_of params f)) (outerEnd (info_of params f))"
    and "box (outerStart (info_of params f)) (outerEnd (info_of params f)) =
      ghost_layer (unat (nPointsX params)) (unat (nPointsY params)) (unat (nPointsZ params)) f"
proof -
  note p = proper_intros [OF params_okD(1) [OF assms]] proper_intros [OF params_okD(2) [OF assms]]
    proper_intros [OF params_okD(3) [OF assms]]
  note i = info_of_makeFacetInfo [OF assms] makeFacetInfo_def
  have u: "unat (n + 1) = unat n + 1" if "unat (n :: uint32) + 2 < 2 ^ 32" for n
    using that by (simp add: unat_word_ariths)
  note u3 = u [OF params_okD(1) [OF assms]] u [OF params_okD(2) [OF assms]] u [OF params_okD(3) [OF assms]]
  show "proper_box (outerStart (info_of params f)) (outerEnd (info_of params f))"
    by (cases f) (simp_all add: i Let_def proper_box_def p)
  show "box (outerStart (info_of params f)) (outerEnd (info_of params f)) =
      ghost_layer (unat (nPointsX params)) (unat (nPointsY params)) (unat (nPointsZ params)) f"
    by (cases f) (simp_all add: i Let_def box_def u3 ghost_layer_def)
qed

lemma ghost_layer_extended: "ghost_layer (unat (nPointsX params)) (unat (nPointsY params)) (unat (nPointsZ params)) f \<subseteq> extended_block params"
  by (cases f) (auto simp: ghost_layer_def extended_block_def)

lemma ghost_layer_block: "ghost_layer (unat (nPointsX params)) (unat (nPointsY params)) (unat (nPointsZ params)) f \<inter> block params = {}"
  by (cases f) (auto simp: ghost_layer_def block_def)

lemma ghost_layer_disjoint: "f \<noteq> f' \<Longrightarrow> ghost_layer X Y Z f \<inter> ghost_layer X Y Z f' = {}"
  by (cases f; cases f'; simp add: ghost_layer_def Times_Int_Times)

lemma unpack_helper_other:
  assumes "params_ok params" "p \<in> extended_block params"
    "p \<notin> ghost_layer (unat (nPointsX params)) (unat (nPointsY params)) (unat (nPointsZ params)) f"
  shows "subDomainNew (unpackRecvBufferHelper params f m) (flatId (nPointsY params) (nPointsZ params) p) =
    subDomainNew m (flatId (nPointsY params) (nPointsZ params) p)"
  unfolding unpack_helper_writes
proof (rule writes_other, rule ballI)
  fix q
  let ?s = "outerStart (info_of params f)"
  assume "q \<in> set (work_items (ranges ?s (outerEnd (info_of params f))))"
  then have g: "shift ?s q \<in> ghost_layer (unat (nPointsX params)) (unat (nPointsY params)) (unat (nPointsZ params)) f"
    using shift_work_items [OF outer_boxes(1) [OF assms(1)]] outer_boxes(2) [OF assms(1)] by blast
  then have "shift ?s q \<in> extended_block params" "shift ?s q \<noteq> p" using ghost_layer_extended assms(3) by blast+
  then show "flatId (nPointsY params) (nPointsZ params) (shift ?s q) \<noteq> flatId (nPointsY params) (nPointsZ params) p"
    using flatId_inj [OF assms(1)] assms(2) by (auto dest: inj_onD)
qed

lemma unpackRecvBuffers_block:
  assumes "params_ok params" "p \<in> block params"
  shows "subDomainNew (unpackRecvBuffers params m) (flatId (nPointsY params) (nPointsZ params) p) =
    subDomainNew m (flatId (nPointsY params) (nPointsZ params) p)"
proof -
  have "p \<in> extended_block params" "p \<notin> ghost_layer (unat (nPointsX params)) (unat (nPointsY params)) (unat (nPointsZ params)) f" for f
    using assms(2) block_extended ghost_layer_block [of params f] by blast+
  then show ?thesis
    by (simp add: unpackRecvBuffers_def facets_def unpack_helper_other [OF assms(1)])
qed

lemma unpackRecvBuffers_keeps: "subDomainOld (unpackRecvBuffers params m) = subDomainOld m"
  "recvBuffers (unpackRecvBuffers params m) = recvBuffers m"
  by (simp_all add: unpackRecvBuffers_def facets_def unpack_helper_writes)

text \<open>The sub-domain and the receive buffers of a rank after a step, in terms of those before.\<close>

lemma time_step_nth:
  assumes "length ms = length ps" "r < length ps"
  shows "time_step six weight ps ms ! r = swap_subDomains (unpackRecvBuffers (ps ! r)
    (updateInterior six weight (ps ! r) (fold (sendFacets ps) [0..<length ps] (map2 (facet_step six weight) ps ms) ! r)))"
  using assms by (simp add: time_step_def Let_def sendFacets_keeps)

lemma length_time_step [simp]: "length ms = length ps \<Longrightarrow> length (time_step six weight ps ms) = length ps"
  by (simp add: time_step_def Let_def sendFacets_keeps)

lemma time_step_sweep:
  assumes "length ms = length ps" "r < length ps" "params_ok (ps ! r)" "wide (ps ! r)" "p \<in> block (ps ! r)"
  shows "subDomainOld (time_step six weight ps ms ! r) (flatId (nPointsY (ps ! r)) (nPointsZ (ps ! r)) p) =
    stencil six weight (ps ! r) (subDomainOld (ms ! r)) p"
proof -
  let ?P = "ps ! r" and ?id = "flatId (nPointsY (ps ! r)) (nPointsZ (ps ! r))"
  let ?m = "fold (sendFacets ps) [0..<length ps] (map2 (facet_step six weight) ps ms) ! r"
  have m: "subDomainOld ?m = subDomainOld (ms ! r)" "subDomainNew ?m = subDomainNew (facet_step six weight ?P (ms ! r))"
    using assms(1,2) by (simp_all add: sent_nth facet_step_writes(2))
  have "subDomainOld (time_step six weight ps ms ! r) (?id p) = subDomainNew (updateInterior six weight ?P ?m) (?id p)"
    using assms by (simp add: time_step_nth swap_subDomains_def unpackRecvBuffers_block)
  also have "\<dots> = writes ?id (stencil six weight ?P (subDomainOld (ms ! r))) (updated_points ?P) (subDomainNew (ms ! r)) (?id p)"
    by (simp add: updateInterior_writes m facet_step_writes updated_points_def)
  also have "\<dots> = stencil six weight ?P (subDomainOld (ms ! r)) p"
    using flatId_inj [OF assms(3)] inj_on_subset [OF _ block_extended] assms(5)
    by (intro writes_at) (simp_all add: set_updated_points [OF assms(3,4)])
  finally show ?thesis .
qed

end
