(* ===== verification/Heat3D_Exchange.thy ===== *)
theory Heat3D_Exchange
  imports Heat3D
begin

text \<open>
  The ranks of the heat transfer workload together: the topology \<open>findNeighbors\<close> builds is the torus of
  sub-domains, every receive buffer is written by exactly one facet of one rank, and a time step is
  a sweep of the stencil over the block followed by an exchange of facets.
\<close>

section \<open>The topology of the ranks\<close>

text \<open>
  The torus of sub-domains in natural numbers: the coordinates of a rank, the rank of coordinates and
  the step through a facet.
\<close>

type_synonym dims = "nat \<times> nat \<times> nat"

definition rank_of :: "dims \<Rightarrow> dims \<Rightarrow> nat" where
  "rank_of d c = (case (d, c) of ((X, Y, Z), (x, y, z)) \<Rightarrow> x * Y * Z + y * Z + z)"

definition coords_of :: "dims \<Rightarrow> nat \<Rightarrow> dims" where
  "coords_of d r = (case d of (X, Y, Z) \<Rightarrow> (r div (Y * Z), r mod (Y * Z) div Z, r mod Z))"

definition inside :: "dims \<Rightarrow> dims \<Rightarrow> bool" where
  "inside d c \<longleftrightarrow> (case (d, c) of ((X, Y, Z), (x, y, z)) \<Rightarrow> x < X \<and> y < Y \<and> z < Z)"

definition up :: "nat \<Rightarrow> nat \<Rightarrow> nat" where
  "up n x = (x + 1) mod n"

definition down :: "nat \<Rightarrow> nat \<Rightarrow> nat" where
  "down n x = (x + (n - 1)) mod n"

definition through :: "dims \<Rightarrow> FacetTy \<Rightarrow> dims \<Rightarrow> dims" where
  "through d f c = (case (d, c) of ((X, Y, Z), (x, y, z)) \<Rightarrow>
     (case f of XU \<Rightarrow> (up X x, y, z) | XD \<Rightarrow> (down X x, y, z) | YU \<Rightarrow> (x, up Y y, z)
              | YD \<Rightarrow> (x, down Y y, z) | ZU \<Rightarrow> (x, y, up Z z) | ZD \<Rightarrow> (x, y, down Z z)))"

lemma up_down: "x < n \<Longrightarrow> up n (down n x) = x" "x < n \<Longrightarrow> down n (up n x) = x"
proof -
  assume "x < n"
  then have "(x + (n - 1) + 1) mod n = x" "(x + 1 + (n - 1)) mod n = x" by simp_all
  then show "up n (down n x) = x" "down n (up n x) = x"
    unfolding up_def down_def by (simp_all only: mod_add_left_eq)
qed

lemma up_down_less: "x < n \<Longrightarrow> up n x < n" "x < n \<Longrightarrow> down n x < n"
  by (simp_all add: up_def down_def)

lemma reverseFacetUD_simps [simp]:
  "reverseFacetUD XU = XD" "reverseFacetUD XD = XU" "reverseFacetUD YU = YD" "reverseFacetUD YD = YU"
  "reverseFacetUD ZU = ZD" "reverseFacetUD ZD = ZU"
  by (simp_all add: reverseFacetUD_def FacetTy_of_code_def facets_def)

lemma reverseFacetUD_reverse [simp]: "reverseFacetUD (reverseFacetUD f) = f"
  by (cases f) simp_all

lemma through_inside: "inside d c \<Longrightarrow> inside d (through d f c)"
  by (cases f) (auto simp: inside_def through_def up_down_less split: prod.splits)

lemma through_reverse: "inside d c \<Longrightarrow> through d (reverseFacetUD f) (through d f c) = c"
  by (cases f) (auto simp: inside_def through_def up_down split: prod.splits)

lemma mixed_less: "y < Y \<Longrightarrow> z < Z \<Longrightarrow> y * Z + z < Y * Z" for y z Y Z :: nat
proof -
  assume "y < Y" "z < Z"
  then have "y * Z + z < Suc y * Z" "Suc y * Z \<le> Y * Z" by (simp, intro mult_le_mono1, simp)
  then show ?thesis by simp
qed

lemma coords_of_rank_of: "inside d c \<Longrightarrow> coords_of d (rank_of d c) = c"
proof -
  assume i: "inside d c"
  obtain X Y Z x y z where d: "d = (X, Y, Z)" "c = (x, y, z)" by (metis prod.exhaust)
  have b: "y < Y" "z < Z" using i by (simp_all add: d inside_def)
  have lt: "y * Z + z < Y * Z"
    using b by (rule mixed_less)
  have e: "rank_of d c = (y * Z + z) + x * (Y * Z)" by (simp add: d rank_of_def algebra_simps)
  have nz: "Y * Z \<noteq> 0" using lt by (metis not_less_zero)
  have "rank_of d c div (Y * Z) = x" "rank_of d c mod (Y * Z) = y * Z + z"
    unfolding e div_mult_self1 [OF nz] mod_mult_self1 using lt by simp_all
  moreover have "rank_of d c = z + (x * Y + y) * Z" by (simp add: d rank_of_def algebra_simps)
  then have "rank_of d c mod Z = z" using b by (simp only: mod_mult_self1 mod_less)
  ultimately show ?thesis using b by (simp add: d(1) coords_of_def) (simp add: d)
qed

lemma rank_of_coords_of: "rank_of d (coords_of d r) = r"
proof -
  obtain X Y Z where d: "d = (X, Y, Z)" by (metis prod.exhaust)
  have "r mod (Y * Z) div Z * Z + r mod Z = r mod (Y * Z)"
    by (metis div_mult_mod_eq dvd_triv_right mod_mod_cancel)
  then have "r div (Y * Z) * (Y * Z) + (r mod (Y * Z) div Z * Z + r mod Z) = r" by (simp only: div_mult_mod_eq)
  then show ?thesis by (simp add: d coords_of_def rank_of_def mult.assoc add.assoc)
qed

lemma coords_inside: "0 < Y \<Longrightarrow> 0 < Z \<Longrightarrow> r < X * Y * Z \<Longrightarrow> inside (X, Y, Z) (coords_of (X, Y, Z) r)"
  by (auto simp: inside_def coords_of_def less_mult_imp_div_less mult.assoc)

text \<open>
  The parameters \<open>initParams\<close> computes for arguments that name a rank of a torus of fewer than
  \<open>2 ^ 31\<close> sub-domains.
\<close>

definition torus_args :: "dims \<Rightarrow> nat \<Rightarrow> ArgumentContainer \<Rightarrow> bool" where
  "torus_args d r arguments \<longleftrightarrow> (case d of (X, Y, Z) \<Rightarrow>
     arg_int arguments ''rank'' = int r \<and> arg_int arguments ''nSubDomainX'' = int X \<and>
     arg_int arguments ''nSubDomainY'' = int Y \<and> arg_int arguments ''nSubDomainZ'' = int Z \<and>
     0 < X \<and> 0 < Y \<and> 0 < Z \<and> r < X * Y * Z \<and> X * Y * Z < 2 ^ 31)"

lemma le_product: "0 < Y \<Longrightarrow> 0 < Z \<Longrightarrow> X \<le> X * Y * Z" "0 < X \<Longrightarrow> 0 < Z \<Longrightarrow> Y \<le> X * Y * Z"
  "0 < X \<Longrightarrow> 0 < Y \<Longrightarrow> Z \<le> X * Y * Z" "0 < X \<Longrightarrow> Y * Z \<le> X * Y * Z" for X Y Z :: nat
  by (simp_all add: mult.assoc)

lemma unat_of_nat_small: "n < 2 ^ 32 \<Longrightarrow> unat (word_of_nat n :: uint32) = n"
  by (simp add: unat_of_nat take_bit_nat_eq_self)

lemma unat_mult_small: "unat a * unat b < 2 ^ 32 \<Longrightarrow> unat (a * b :: uint32) = unat a * unat b"
  by (simp add: unat_word_ariths)

lemma word_up:
  assumes "unat (c :: uint32) < unat n" "unat n < 2 ^ 31"
  shows "unat ((c + 1 + n) mod n) = up (unat n) (unat c)" "unat ((c - 1 + n) mod n) = down (unat n) (unat c)"
proof -
  have "unat (c + 1 + n) = unat c + 1 + unat n" using assms by (simp add: unat_word_ariths)
  then show "unat ((c + 1 + n) mod n) = up (unat n) (unat c)" unfolding up_def unat_mod by (simp only: mod_add_self2)
  have e: "c - 1 + n = c + (n - 1)" by simp
  have "unat (n - 1) = unat n - 1" using assms by (simp add: unat_sub word_le_nat_alt)
  then have "unat (c - 1 + n) = unat c + (unat n - 1)" unfolding e using assms by (simp add: unat_word_ariths)
  then show "unat ((c - 1 + n) mod n) = down (unat n) (unat c)" by (simp add: unat_mod down_def)
qed

lemma unat_subDomainCoordToRank:
  assumes "inside d (unat x, unat y, unat z)" "d = (unat (nSubDomainX P), unat (nSubDomainY P), unat (nSubDomainZ P))"
    "unat (nSubDomainX P) * unat (nSubDomainY P) * unat (nSubDomainZ P) < 2 ^ 31"
  shows "unat (subDomainCoordToRank x y z P) = rank_of d (unat x, unat y, unat z)"
proof -
  let ?Y = "unat (nSubDomainY P)" and ?Z = "unat (nSubDomainZ P)"
  have "unat x * ?Y * ?Z + unat y * ?Z + unat z < unat (nSubDomainX P) * ?Y * ?Z"
    using assms(1) mixed_less [of "unat y" ?Y "unat z" ?Z]
      mixed_less [of "unat x" "unat (nSubDomainX P)" "unat y * ?Z + unat z" "?Y * ?Z"]
    by (simp add: assms(2) inside_def algebra_simps)
  with assms(3) have "unat x * ?Y * ?Z + unat y * ?Z + unat z < 2 ^ 32" by simp
  then have "(unat x * ?Y * ?Z + unat y * ?Z + unat z) mod 2 ^ 32 = unat x * ?Y * ?Z + unat y * ?Z + unat z" by simp
  then show ?thesis
    by (simp add: subDomainCoordToRank_def assms(2) rank_of_def unat_word_ariths mod_simps)
qed

lemma initParams_dims:
  assumes "torus_args d r arguments"
  shows "d = (unat (nSubDomainX (initParams arguments)), unat (nSubDomainY (initParams arguments)), unat (nSubDomainZ (initParams arguments)))"
    and "coords_of d r = (unat (subDomainCoordX (initParams arguments)), unat (subDomainCoordY (initParams arguments)),
      unat (subDomainCoordZ (initParams arguments)))"
proof -
  obtain X Y Z where d: "d = (X, Y, Z)" by (metis prod.exhaust)
  let ?r = "word_of_nat r :: uint32" and ?Y = "word_of_nat Y :: uint32" and ?Z = "word_of_nat Z :: uint32"
  have pos: "0 < X" "0 < Y" "0 < Z" "r < X * Y * Z" "X * Y * Z < 2 ^ 31" using assms by (simp_all add: torus_args_def d)
  have args: "arg_int arguments ''rank'' = int r" "arg_int arguments ''nSubDomainX'' = int X"
     "arg_int arguments ''nSubDomainY'' = int Y" "arg_int arguments ''nSubDomainZ'' = int Z"
    using assms by (simp_all add: torus_args_def d)
  have le: "X \<le> X * Y * Z" "Y \<le> X * Y * Z" "Z \<le> X * Y * Z" "Y * Z \<le> X * Y * Z" using pos le_product by simp_all
  have "n < 2 ^ 32" if "n \<le> X * Y * Z" for n using that pos(5) by simp
  then have b: "r < 2 ^ 32" "X < 2 ^ 32" "Y < 2 ^ 32" "Z < 2 ^ 32" "Y * Z < 2 ^ 32"
    using le less_imp_le [OF pos(4)] by blast+
  note u = b(1-4) [THEN unat_of_nat_small]
  show "d = (unat (nSubDomainX (initParams arguments)), unat (nSubDomainY (initParams arguments)), unat (nSubDomainZ (initParams arguments)))"
    by (simp add: initParams_def Let_def findNeighbors_def args d u)
  have yz: "unat (?Y * ?Z) = Y * Z" using b(5) by (simp only: unat_word_ariths u) simp
  define cX where "cX = ?r div (?Y * ?Z)"
  have cX: "unat cX = r div (Y * Z)" by (simp add: cX_def unat_div yz u)
  have "r div (Y * Z) * (Y * Z) < 2 ^ 32" by (rule le_less_trans [OF div_times_less_eq_dividend b(1)])
  then have "unat (cX * ?Y * ?Z) = r div (Y * Z) * (Y * Z)"
    using unat_mult_small [of cX "?Y * ?Z"] by (simp only: mult.assoc cX yz)
  then have m: "unat (?r - cX * ?Y * ?Z) = r mod (Y * Z)"
    using minus_div_mult_eq_mod [of r "Y * Z"] by (simp add: unat_sub word_le_nat_alt u div_times_less_eq_dividend)
  define cY where "cY = (?r - cX * ?Y * ?Z) div ?Z"
  have cY: "unat cY = r mod (Y * Z) div Z" by (simp add: cY_def unat_div m u)
  have le2: "r mod (Y * Z) div Z * Z \<le> r mod (Y * Z)" by (rule div_times_less_eq_dividend)
  with b(1) have "r mod (Y * Z) div Z * Z < 2 ^ 32" by (meson mod_less_eq_dividend le_less_trans)
  then have cYZ: "unat (cY * ?Z) = r mod (Y * Z) div Z * Z" using unat_mult_small [of cY ?Z] by (simp only: cY u)
  have "unat (?r - cX * ?Y * ?Z - cY * ?Z) = r mod (Y * Z) - r mod (Y * Z) div Z * Z"
    using le2 by (subst unat_sub) (simp_all add: word_le_nat_alt m cYZ)
  also have "\<dots> = r mod Z" by (simp add: minus_div_mult_eq_mod mod_mod_cancel)
  finally have cZ: "unat (?r - cX * ?Y * ?Z - cY * ?Z) = r mod Z" .
  show "coords_of d r = (unat (subDomainCoordX (initParams arguments)), unat (subDomainCoordY (initParams arguments)),
      unat (subDomainCoordZ (initParams arguments)))"
    using cX cY cZ unfolding cX_def cY_def
    by (simp add: initParams_def Let_def findNeighbors_def args d coords_of_def)
qed

lemma info_initParams: "info_of (initParams arguments) f = makeFacetInfo f (initParams arguments)"
  by (cases f) (simp_all add: info_of_def initParams_def Let_def facets_def makeFacetInfo_def)

lemma makeFacetInfo_fields:
  "neighborRank (makeFacetInfo f params) = neighbors params ! nat (FacetTy_code f)"
  "neighborFacet (makeFacetInfo f params) = reverseFacetUD f"
  by (cases f; simp add: makeFacetInfo_def Let_def)+

lemma initParams_neighbors: "neighbors (initParams arguments) = neighbors (findNeighbors (initParams arguments))"
  by (simp add: initParams_def findNeighbors_def Let_def subDomainCoordToRank_def)

lemma unat_neighbors:
  assumes "torus_args d r arguments"
  shows "unat (neighbors (initParams arguments) ! nat (FacetTy_code f)) = rank_of d (through d f (coords_of d r))"
proof -
  let ?P = "initParams arguments"
  note d = initParams_dims(1) [OF assms] and c = initParams_dims(2) [OF assms]
  have pos: "unat (nSubDomainX ?P) * unat (nSubDomainY ?P) * unat (nSubDomainZ ?P) < 2 ^ 31"
    "0 < unat (nSubDomainX ?P)" "0 < unat (nSubDomainY ?P)" "0 < unat (nSubDomainZ ?P)"
    "r < unat (nSubDomainX ?P) * unat (nSubDomainY ?P) * unat (nSubDomainZ ?P)"
    using assms by (subst (asm) d, simp add: torus_args_def)+
  have ins: "inside d (coords_of d r)" by (subst (1 2) d) (rule coords_inside [OF pos(3,4,5)])
  have less: "unat (subDomainCoordX ?P) < unat (nSubDomainX ?P)" "unat (subDomainCoordY ?P) < unat (nSubDomainY ?P)"
    "unat (subDomainCoordZ ?P) < unat (nSubDomainZ ?P)"
    using ins unfolding c by (subst (asm) d, simp add: inside_def)+
  have small: "unat (nSubDomainX ?P) < 2 ^ 31" "unat (nSubDomainY ?P) < 2 ^ 31" "unat (nSubDomainZ ?P) < 2 ^ 31"
    using le_product(1) [OF pos(3,4)] le_product(2) [OF pos(2,4)] le_product(3) [OF pos(2,3)] pos(1) by (meson le_less_trans)+
  note w = word_up [OF less(1) small(1)] word_up [OF less(2) small(2)] word_up [OF less(3) small(3)]
  have t: "through d f (coords_of d r) = (unat x, unat y, unat z) \<Longrightarrow>
      unat (subDomainCoordToRank x y z ?P) = rank_of d (through d f (coords_of d r))" for x y z f
    using unat_subDomainCoordToRank [OF _ d pos(1), of x y z] through_inside [OF ins, of f] by simp
  have th: "through d f (coords_of d r) = (let X = unat (nSubDomainX ?P); Y = unat (nSubDomainY ?P); Z = unat (nSubDomainZ ?P);
      x = unat (subDomainCoordX ?P); y = unat (subDomainCoordY ?P); z = unat (subDomainCoordZ ?P) in
      case f of XU \<Rightarrow> (up X x, y, z) | XD \<Rightarrow> (down X x, y, z) | YU \<Rightarrow> (x, up Y y, z)
              | YD \<Rightarrow> (x, down Y y, z) | ZU \<Rightarrow> (x, y, up Z z) | ZD \<Rightarrow> (x, y, down Z z))" for f
    unfolding c by (subst d) (simp add: through_def Let_def)
  show ?thesis unfolding initParams_neighbors
    by (cases f; simp add: findNeighbors_def Let_def; rule t; simp add: th w)
qed

lemma torus_inside: "torus_args d r arguments \<Longrightarrow> inside d (coords_of d r)"
  by (cases d) (simp add: torus_args_def coords_inside)

lemma neighbor_of_neighbor:
  assumes "torus_args d r a" "torus_args d n b" "n = unat (neighborRank (info_of (initParams a) f))"
  shows "unat (neighborRank (info_of (initParams b) (reverseFacetUD f))) = r"
  using assms torus_inside [OF assms(1)]
  by (simp add: info_initParams makeFacetInfo_fields unat_neighbors coords_of_rank_of through_inside
      through_reverse rank_of_coords_of)

lemma inside_rank_less: "inside (X, Y, Z) c \<Longrightarrow> rank_of (X, Y, Z) c < X * Y * Z"
proof -
  assume i: "inside (X, Y, Z) c"
  obtain x y z where c: "c = (x, y, z)" by (metis prod.exhaust)
  show ?thesis
    using i mixed_less [of y Y z Z] mixed_less [of x X "y * Z + z" "Y * Z"]
    by (simp add: c inside_def rank_of_def algebra_simps)
qed

lemma neighbor_less:
  assumes "torus_args (X, Y, Z) r a"
  shows "unat (neighborRank (info_of (initParams a) f)) < X * Y * Z"
  using torus_inside [OF assms]
  by (simp add: info_initParams makeFacetInfo_fields unat_neighbors [OF assms] inside_rank_less through_inside)

section \<open>The exchange of facets\<close>

text \<open>The receive buffer a facet of a rank is copied to.\<close>

definition target :: "ParamsTy list \<Rightarrow> nat \<times> FacetTy \<Rightarrow> nat \<times> FacetTy" where
  "target ps q = (case q of (r, f) \<Rightarrow>
     (unat (neighborRank (info_of (ps ! r) f)), neighborFacet (info_of (ps ! r) f)))"

lemma sendFacet_recvBuffers:
  assumes "n < length ms"
  shows "recvBuffers (sendFacet ps r f ms ! n) g =
    (if target ps (r, f) = (n, g)
     then (\<lambda>i. if i < bufferLen (info_of (ps ! r) f) then sendBuffers (ms ! r) f i else recvBuffers (ms ! n) g i)
     else recvBuffers (ms ! n) g)"
  using assms
  by (cases "unat (neighborRank (info_of (ps ! r) f)) = n") (auto simp: sendFacet_def target_def Let_def)

lemma sendFacet_sendBuffers: "r < length ms \<Longrightarrow> sendBuffers (sendFacet ps r' f ms ! r) = sendBuffers (ms ! r)"
  using sendFacet_keeps(1,4) by (metis map_eq_nth)

lemma fold_sendFacets: "fold (sendFacets ps) rs ms = fold (case_prod (sendFacet ps)) (List.product rs facets) ms"
proof (induction rs arbitrary: ms)
  case (Cons r rs)
  have "fold (case_prod (sendFacet ps)) (map (Pair r) fs) ms = fold (sendFacet ps r) fs ms" for fs ms
    by (induction fs arbitrary: ms) simp_all
  from this [of facets ms] show ?case
    by (simp only: List.product.simps fold_append comp_apply fold_simps Cons.IH sendFacets_def [of ps r ms])
qed simp

lemma sends_other:
  assumes "n < length ms" "\<forall>q \<in> set qs. target ps q \<noteq> (n, g)"
  shows "recvBuffers (fold (case_prod (sendFacet ps)) qs ms ! n) g = recvBuffers (ms ! n) g"
  using assms by (induction qs arbitrary: ms) (auto simp: sendFacet_recvBuffers sendFacet_keeps)

lemma sends_at:
  assumes "\<forall>q \<in> set qs. fst q < length ms" "inj_on (target ps) (set qs)" "distinct qs" "(r, f) \<in> set qs"
    "target ps (r, f) = (n, g)" "n < length ms" "i < bufferLen (info_of (ps ! r) f)"
  shows "recvBuffers (fold (case_prod (sendFacet ps)) qs ms ! n) g i = sendBuffers (ms ! r) f i"
  using assms
proof (induction qs arbitrary: ms)
  case (Cons q qs)
  obtain r' f' where q: "q = (r', f')" by (cases q)
  have r: "r < length ms" using Cons.prems(1,4) by auto
  show ?case
  proof (cases "q = (r, f)")
    case True
    with Cons.prems have "\<forall>q' \<in> set qs. target ps q' \<noteq> (n, g)" by (auto simp: inj_on_def)
    with True Cons.prems show ?thesis by (simp add: sends_other sendFacet_recvBuffers sendFacet_keeps)
  next
    case False
    have "recvBuffers (fold (case_prod (sendFacet ps)) qs (sendFacet ps r' f' ms) ! n) g i =
        sendBuffers (sendFacet ps r' f' ms ! r) f i"
      using Cons.prems False by (intro Cons.IH) (auto simp: sendFacet_keeps)
    with r show ?thesis by (simp add: q sendFacet_sendBuffers)
  qed
qed simp

text \<open>A run of the workload: one process for each rank, with the same mesh.\<close>

definition torus :: "dims \<Rightarrow> nat \<Rightarrow> ArgumentContainer list \<Rightarrow> bool" where
  "torus d mesh as \<longleftrightarrow> (case d of (X, Y, Z) \<Rightarrow> length as = X * Y * Z) \<and>
     (\<forall>r < length as. torus_args d r (as ! r) \<and> arg_int (as ! r) ''meshLength'' = int mesh)"

text \<open>Every sub-domain has at least two points in each direction and the facets have fewer than \<open>2 ^ 32\<close>.\<close>

definition mesh_fits :: "dims \<Rightarrow> nat \<Rightarrow> bool" where
  "mesh_fits d mesh \<longleftrightarrow> (case d of (X, Y, Z) \<Rightarrow> 2 * X \<le> mesh \<and> 2 * Y \<le> mesh \<and> 2 * Z \<le> mesh \<and> mesh < 2 ^ 16)"

lemma initParams_points:
  assumes "torus_args (X, Y, Z) r a" "arg_int a ''meshLength'' = int mesh" "mesh < 2 ^ 16"
  shows "unat (nPointsX (initParams a)) = mesh div X" "unat (nPointsY (initParams a)) = mesh div Y"
    "unat (nPointsZ (initParams a)) = mesh div Z"
proof -
  note d = initParams_dims(1) [OF assms(1)]
  have m: "unat (word_of_nat mesh :: uint32) = mesh" using assms(3) by (intro unat_of_nat_small) simp
  have "nPointsX (initParams a) = word_of_nat mesh div nSubDomainX (initParams a)"
    "nPointsY (initParams a) = word_of_nat mesh div nSubDomainY (initParams a)"
    "nPointsZ (initParams a) = word_of_nat mesh div nSubDomainZ (initParams a)"
    by (simp_all add: initParams_def Let_def findNeighbors_def assms(2))
  then show "unat (nPointsX (initParams a)) = mesh div X" "unat (nPointsY (initParams a)) = mesh div Y"
    "unat (nPointsZ (initParams a)) = mesh div Z" using d by (simp_all add: unat_div m)
qed

lemma initParams_ok:
  assumes "torus_args d r a" "arg_int a ''meshLength'' = int mesh" "mesh_fits d mesh"
  shows "params_ok (initParams a)" "wide (initParams a)"
proof -
  obtain X Y Z where d: "d = (X, Y, Z)" by (metis prod.exhaust)
  have f: "2 * X \<le> mesh" "2 * Y \<le> mesh" "2 * Z \<le> mesh" "mesh < 2 ^ 16" "0 < X" "0 < Y" "0 < Z"
    using assms(1,3) by (simp_all add: d mesh_fits_def torus_args_def)
  note n = initParams_points [OF assms(1) [unfolded d] assms(2) f(4)]
  have "mesh div k + 2 < 2 ^ 32" for k using le_less_trans [OF div_le_dividend f(4), of k] by simp
  then show "params_ok (initParams a)"
    by (simp add: params_ok_def n) (simp add: initParams_def Let_def facets_def makeFacetInfo_def)
  have "2 \<le> mesh div k" if "2 * k \<le> mesh" "0 < k" for k using that by (simp add: less_eq_div_iff_mult_less_eq)
  then show "wide (initParams a)" using f by (simp add: wide_def n)
qed

lemma outer_ranges:
  assumes "params_ok params"
  shows "(case ranges (outerStart (info_of params f)) (outerEnd (info_of params f)) of (a, b, c) \<Rightarrow> unat a * unat b * unat c) =
    facet_floats f params"
  by (cases f) (simp_all add: info_of_makeFacetInfo [OF assms] makeFacetInfo_def Let_def ranges_def facet_floats_def)

lemma bufferId_less:
  assumes "q \<in> set (work_items (a, b, c))"
  shows "bufferId (a, b, c) q < unat a * unat b * unat c"
proof -
  obtain x y z where q: "q = (x, y, z)" by (metis prod.exhaust)
  have "x < unat a" "y < unat b" "z < unat c" using assms by (auto simp: q set_work_items)
  then show ?thesis
    using mixed_less [of y "unat b" z "unat c"] mixed_less [of x "unat a" "y * unat c + z" "unat b * unat c"]
    by (simp add: q bufferId_def algebra_simps)
qed

lemma bufferLen_facet_floats:
  assumes "facet_floats f params < 2 ^ 32"
  shows "bufferLen (makeFacetInfo f params) = facet_floats f params"
  using assms by (cases f) (simp_all add: makeFacetInfo_def Let_def facet_floats_def unat_mult_small)

lemma facet_floats_reverse: "facet_floats (reverseFacetUD f) params = facet_floats f params"
  by (cases f) (simp_all add: facet_floats_def)

lemma facet_floats_torus:
  assumes "torus_args d r a" "arg_int a ''meshLength'' = int mesh" "mesh_fits d mesh"
  shows "facet_floats f (initParams a) = (case d of (X, Y, Z) \<Rightarrow> case f of XU \<Rightarrow> mesh div Y * (mesh div Z)
      | XD \<Rightarrow> mesh div Y * (mesh div Z) | YU \<Rightarrow> mesh div X * (mesh div Z) | YD \<Rightarrow> mesh div X * (mesh div Z)
      | ZU \<Rightarrow> mesh div X * (mesh div Y) | ZD \<Rightarrow> mesh div X * (mesh div Y))"
    and "facet_floats f (initParams a) < 2 ^ 32"
proof -
  obtain X Y Z where d: "d = (X, Y, Z)" by (metis prod.exhaust)
  have m: "mesh < 2 ^ 16" using assms(3) by (simp add: d mesh_fits_def)
  note n = initParams_points [OF assms(1) [unfolded d] assms(2) m]
  show "facet_floats f (initParams a) = (case d of (X, Y, Z) \<Rightarrow> case f of XU \<Rightarrow> mesh div Y * (mesh div Z)
      | XD \<Rightarrow> mesh div Y * (mesh div Z) | YU \<Rightarrow> mesh div X * (mesh div Z) | YD \<Rightarrow> mesh div X * (mesh div Z)
      | ZU \<Rightarrow> mesh div X * (mesh div Y) | ZD \<Rightarrow> mesh div X * (mesh div Y))"
    by (cases f) (simp_all add: d facet_floats_def n)
  have "mesh div i * (mesh div j) < 2 ^ 16 * 2 ^ 16" for i j
    using le_less_trans [OF div_le_dividend m] by (intro mult_strict_mono') simp_all
  then show "facet_floats f (initParams a) < 2 ^ 32"
    by (cases f) (simp_all add: facet_floats_def n)
qed

lemma torusD:
  assumes "torus d mesh as" "r < length as"
  shows "torus_args d r (as ! r)" "arg_int (as ! r) ''meshLength'' = int mesh"
  using assms by (simp_all add: torus_def)

lemma torus_neighbor:
  assumes "torus d mesh as" "r < length as"
  shows "unat (neighborRank (info_of (initParams (as ! r)) f)) < length as"
proof -
  obtain X Y Z where d: "d = (X, Y, Z)" by (metis prod.exhaust)
  show ?thesis
    using neighbor_less [OF torusD(1) [OF assms, unfolded d]] assms(1) by (simp add: torus_def d)
qed

lemma target_torus:
  assumes "torus d mesh as" "r < length as" "n = unat (neighborRank (info_of (initParams (as ! r)) f))"
  shows "target (map initParams as) (n, reverseFacetUD f) = (r, f)" "target (map initParams as) (r, f) = (n, reverseFacetUD f)"
proof -
  have n: "n < length as" using torus_neighbor [OF assms(1,2)] assms(3) by simp
  show "target (map initParams as) (n, reverseFacetUD f) = (r, f)"
    using neighbor_of_neighbor [OF torusD(1) [OF assms(1,2)] torusD(1) [OF assms(1) n] assms(3)] n
    by (simp add: target_def info_initParams makeFacetInfo_fields)
  show "target (map initParams as) (r, f) = (n, reverseFacetUD f)"
    using assms(2,3) by (simp add: target_def info_initParams makeFacetInfo_fields)
qed

lemma target_inj:
  assumes "torus d mesh as"
  shows "inj_on (target (map initParams as)) ({0..<length as} \<times> UNIV)"
proof (rule inj_onI, clarify)
  fix r f r' f'
  assume r: "r \<in> {0..<length as}" "r' \<in> {0..<length as}"
    and e: "target (map initParams as) (r, f) = target (map initParams as) (r', f')"
  from r have l: "r < length as" "r' < length as" by simp_all
  note t = target_torus [OF assms l(1) refl, of f] and t' = target_torus [OF assms l(2) refl, of f']
  from e have "(r, f) = (r', f')" using t t' by metis
  then show "r = r' \<and> f = f'" by simp
qed

lemma sent_buffers:
  assumes "torus d mesh as" "mesh_fits d mesh" "length ms = length as" "r < length as"
    "n = unat (neighborRank (info_of (initParams (as ! r)) f))" "i < facet_floats f (initParams (as ! r))"
  shows "recvBuffers (fold (sendFacets (map initParams as)) [0..<length as] ms ! r) f i = sendBuffers (ms ! n) (reverseFacetUD f) i"
proof -
  have n: "n < length as" using torus_neighbor [OF assms(1,4)] assms(5) by simp
  note ar = torusD [OF assms(1,4)] and an = torusD [OF assms(1) n]
  have "facet_floats f (initParams (as ! r)) = facet_floats f (initParams (as ! n))"
    by (simp only: facet_floats_torus(1) [OF ar assms(2)] facet_floats_torus(1) [OF an assms(2)])
  also have "\<dots> = facet_floats (reverseFacetUD f) (initParams (as ! n))" by (simp only: facet_floats_reverse)
  also have "\<dots> = bufferLen (info_of (initParams (as ! n)) (reverseFacetUD f))"
    by (simp only: info_initParams bufferLen_facet_floats [OF facet_floats_torus(2) [OF an assms(2)]])
  finally have len: "i < bufferLen (info_of (initParams (as ! n)) (reverseFacetUD f))" using assms(6) by simp
  have "set facets = UNIV" by (auto simp: facets_def intro: FacetTy.exhaust)
  then have s: "set (List.product [0..<length as] facets) = {0..<length as} \<times> UNIV" by simp
  show ?thesis unfolding fold_sendFacets
  proof (rule sends_at [OF _ _ _ _ target_torus(1) [OF assms(1,4,5)]])
    show "inj_on (target (map initParams as)) (set (List.product [0..<length as] facets))"
      unfolding s by (rule target_inj [OF assms(1)])
    show "distinct (List.product [0..<length as] facets)" by (simp add: distinct_product facets_def)
    show "(n, reverseFacetUD f) \<in> set (List.product [0..<length as] facets)" unfolding s using n by simp
    show "\<forall>q \<in> set (List.product [0..<length as] facets). fst q < length ms" unfolding s using assms(3) by auto
    show "r < length ms" using assms(3,4) by simp
    show "i < bufferLen (info_of (map initParams as ! n) (reverseFacetUD f))" using len n by simp
  qed
qed

lemma unpack_at:
  assumes "params_ok params" "q \<in> set (work_items (ranges (outerStart (info_of params f)) (outerEnd (info_of params f))))"
  shows "subDomainNew (unpackRecvBuffers params m) (flatId (nPointsY params) (nPointsZ params) (shift (outerStart (info_of params f)) q)) =
    recvBuffers m f (bufferId (ranges (outerStart (info_of params f)) (outerEnd (info_of params f))) q)"
proof -
  let ?s = "\<lambda>f. outerStart (info_of params f)" and ?e = "\<lambda>f. outerEnd (info_of params f)"
    and ?id = "flatId (nPointsY params) (nPointsZ params)"
    and ?L = "\<lambda>f. ghost_layer (unat (nPointsX params)) (unat (nPointsY params)) (unat (nPointsZ params)) f"
  have L: "shift (?s f) ` set (work_items (ranges (?s f) (?e f))) = ?L f" for f
    using shift_work_items [OF outer_boxes(1) [OF assms(1)]] outer_boxes(2) [OF assms(1)] by simp
  have g: "shift (?s f) q \<in> ?L f" using L assms(2) by blast
  then have x: "shift (?s f) q \<in> extended_block params" using ghost_layer_extended by blast
  have inj: "inj_on (\<lambda>p. ?id (shift (?s f) p)) (set (work_items (ranges (?s f) (?e f))))"
  proof (rule inj_onI)
    fix p p'
    assume "p \<in> set (work_items (ranges (?s f) (?e f)))" "p' \<in> set (work_items (ranges (?s f) (?e f)))"
      and e: "?id (shift (?s f) p) = ?id (shift (?s f) p')"
    then have "shift (?s f) p \<in> extended_block params" "shift (?s f) p' \<in> extended_block params"
      using L [of f] ghost_layer_extended [of params f] by blast+
    with e have "shift (?s f) p = shift (?s f) p'" using flatId_inj [OF assms(1)] by (meson inj_onD)
    then show "p = p'" by (rule injD [OF shift_inj])
  qed
  have at: "subDomainNew (unpackRecvBufferHelper params f m) (?id (shift (?s f) q)) = recvBuffers m f (bufferId (ranges (?s f) (?e f)) q)" for m :: "'a RankMemory"
    unfolding unpack_helper_writes by (rule writes_at [OF inj assms(2)])
  have other: "subDomainNew (unpackRecvBufferHelper params h m) (?id (shift (?s f) q)) = subDomainNew m (?id (shift (?s f) q))"
    if "f \<noteq> h" for h and m :: "'a RankMemory"
    using ghost_layer_disjoint that g by (intro unpack_helper_other [OF assms(1) x]) blast
  have rest: "f \<notin> set fs \<Longrightarrow>
      subDomainNew (fold (unpackRecvBufferHelper params) fs m) (?id (shift (?s f) q)) = subDomainNew m (?id (shift (?s f) q))"
    for fs and m :: "'a RankMemory" by (induction fs arbitrary: m) (simp_all add: other)
  have "f \<in> set fs \<Longrightarrow> distinct fs \<Longrightarrow>
      subDomainNew (fold (unpackRecvBufferHelper params) fs m) (?id (shift (?s f) q)) = recvBuffers m f (bufferId (ranges (?s f) (?e f)) q)"
    for fs and m :: "'a RankMemory"
    by (induction fs arbitrary: m) (auto simp: at rest unpack_helper_writes(3))
  moreover have "f \<in> set facets" "distinct facets" by (cases f) (simp_all add: facets_def)
  ultimately show ?thesis by (simp add: unpackRecvBuffers_def)
qed

section \<open>Packing\<close>

lemma inner_start:
  "innerStart (info_of (initParams a) f) = (let P = initParams a in
     case f of XU \<Rightarrow> (nPointsX P, 1, 1) | XD \<Rightarrow> (1, 1, 1) | YU \<Rightarrow> (1, nPointsY P, 1) | YD \<Rightarrow> (1, 1, 1)
      | ZU \<Rightarrow> (1, 1, nPointsZ P) | ZD \<Rightarrow> (1, 1, 1))"
  by (cases f) (simp_all add: info_initParams makeFacetInfo_def Let_def)

lemma inner_ranges:
  "ranges (innerStart (info_of (initParams a) f)) (innerEnd (info_of (initParams a) f)) = (let P = initParams a in
     case f of XU \<Rightarrow> (1, nPointsY P, nPointsZ P) | XD \<Rightarrow> (1, nPointsY P, nPointsZ P)
      | YU \<Rightarrow> (nPointsX P, 1, nPointsZ P) | YD \<Rightarrow> (nPointsX P, 1, nPointsZ P)
      | ZU \<Rightarrow> (nPointsX P, nPointsY P, 1) | ZD \<Rightarrow> (nPointsX P, nPointsY P, 1))"
  by (cases f) (simp_all add: info_initParams makeFacetInfo_def Let_def ranges_def)

text \<open>The points of the inner facets, counted from the first point of the facet, lie in the block.\<close>

lemma inner_points:
  assumes "wide (initParams a)" "q \<in> set (work_items (ranges (innerStart (info_of (initParams a) f)) (innerEnd (info_of (initParams a) f))))"
  shows "shift (innerStart (info_of (initParams a) f)) q \<in> block (initParams a)"
  using assms(2) [unfolded inner_ranges] wideD [OF assms(1)] unfolding inner_start
  by (cases f) (auto simp: Let_def set_work_items shift_def block_def)

lemma bufferId_inj: "inj_on (bufferId g) (set (work_items g))"
proof (rule inj_onI)
  fix p q
  assume pq: "p \<in> set (work_items g)" "q \<in> set (work_items g)" and e: "bufferId g p = bufferId g q"
  obtain a b c x y z x' y' z' where s: "g = (a, b, c)" "p = (x, y, z)" "q = (x', y', z')" by (metis prod.exhaust)
  have "x = x' \<and> y = y' \<and> z = z'"
    by (rule mixed_radix_inj [of y "unat b" z "unat c" y' z' x x'])
      (use pq e in \<open>auto simp: s set_work_items bufferId_def\<close>)
  then show "p = q" by (simp add: s)
qed

lemma packed_value:
  assumes "q \<in> set (work_items (ranges (innerStart (info_of P f)) (innerEnd (info_of P f))))"
  shows "sendBuffers (packSendBuffer P f m) f (bufferId (ranges (innerStart (info_of P f)) (innerEnd (info_of P f))) q) =
    subDomainNew m (pack_index (nPointsY P) (nPointsZ P) (shift (innerStart (info_of P f)) q))"
proof -
  have "sendBuffers (packSendBuffer P f m) f = writes (bufferId (ranges (innerStart (info_of P f)) (innerEnd (info_of P f))))
      (\<lambda>q. subDomainNew m (pack_index (nPointsY P) (nPointsZ P) (shift (innerStart (info_of P f)) q)))
      (work_items (ranges (innerStart (info_of P f)) (innerEnd (info_of P f)))) (sendBuffers m f)"
    by (simp add: packSendBuffer_def Let_def launch_writes [symmetric] launch_def pack_send_buffer_def [abs_def])
  then show ?thesis using writes_at [OF bufferId_inj assms] by simp
qed

lemma pack_index_other:
  assumes "params_ok P" "1 \<le> fst p"
  shows "pack_index (nPointsY P) (nPointsZ P) p < flatId (nPointsY P) (nPointsZ P) p \<or> unat (nPointsZ P) = 0"
proof -
  obtain x y z where p: "p = (x, y, z)" by (metis prod.exhaust)
  define a b where "a = unat (nPointsY P) + 2" "b = unat (nPointsZ P) + 2"
  have "x * a + b < x * a * b" if "3 \<le> b"
  proof -
    have "2 \<le> x * a" using assms(2) mult_le_mono [of 1 x 2 a] by (simp add: p a_b_def)
    then have "2 * (b - 1) \<le> x * a * (b - 1)" by (rule mult_le_mono1)
    then have "x * a + 2 * (b - 1) \<le> x * a * b" using that by (simp add: right_diff_distrib')
    with that show ?thesis by simp
  qed
  moreover have "unat (nPointsY P + 2) = a" "unat (nPointsZ P + 2) = b"
    using params_okD [OF assms(1)] unat_plus_2 by (simp_all add: a_b_def)
  ultimately show ?thesis by (cases "3 \<le> b") (simp_all add: p pack_index_def flatId_def, simp add: a_b_def)
qed

lemma flatId_less: "params_ok P \<Longrightarrow> p \<in> extended_block P \<Longrightarrow> flatId (nPointsY P) (nPointsZ P) p < subDomain_floats P"
proof -
  assume ok: "params_ok P" and pe: "p \<in> extended_block P"
  obtain x y z where p: "p = (x, y, z)" by (metis prod.exhaust)
  define a b c where "a = unat (nPointsX P) + 2" "b = unat (nPointsY P) + 2" "c = unat (nPointsZ P) + 2"
  have u: "unat (nPointsX P + 2) = a" "unat (nPointsY P + 2) = b" "unat (nPointsZ P + 2) = c"
    using params_okD [OF ok] unat_plus_2 by (simp_all add: a_b_c_def)
  have "x < a" "y < b" "z < c" using pe by (auto simp: p extended_block_def a_b_c_def)
  then show ?thesis
    using mixed_less [of y b z c] mixed_less [of x a "y * c + z" "b * c"]
    by (simp add: p flatId_def subDomain_floats_def u algebra_simps)
qed

text \<open>The points the stencil reads for a point.\<close>

definition stencil_points :: "point \<Rightarrow> point list" where
  "stencil_points p = (case p of (x, y, z) \<Rightarrow>
     [(x - 1, y, z), (x + 1, y, z), (x, y - 1, z), (x, y + 1, z), (x, y, z - 1), (x, y, z + 1), (x, y, z)])"

lemma stencil_reads:
  "(\<And>q. q \<in> set (stencil_points p) \<Longrightarrow> old (flatId (nPointsY P) (nPointsZ P) q) = old' (flatId (nPointsY P) (nPointsZ P) q)) \<Longrightarrow>
    stencil six weight P old p = stencil six weight P old' p"
  by (cases p) (simp add: stencil_def stencil_points_def Let_def)

lemma stencil_points_extended: "p \<in> block P \<Longrightarrow> q \<in> set (stencil_points p) \<Longrightarrow> q \<in> extended_block P"
  by (auto simp: block_def extended_block_def stencil_points_def)

section \<open>Properties\<close>

text \<open>A run with two ranks, split along the z axis, on a mesh of four points in each direction.\<close>

definition example_args :: "nat \<Rightarrow> ArgumentContainer" where
  "example_args r = foldl assign_field make_Heat3DArguments
     [(''rank'', Arg_Integer (int r)), (''nSubDomainX'', Arg_PositiveInteger 1), (''nSubDomainY'', Arg_PositiveInteger 1),
      (''nSubDomainZ'', Arg_PositiveInteger 2), (''meshLength'', Arg_PositiveInteger 4)]"

lemma example_torus: "torus (1, 1, 2) 4 [example_args 0, example_args 1]" "mesh_fits (1, 1, 2) 4"
proof -
  have "arg_int (example_args 0) ''rank'' = 0" "arg_int (example_args 1) ''rank'' = 1" by code_simp+
  moreover have "arg_int (example_args 0) ''nSubDomainX'' = 1" "arg_int (example_args 1) ''nSubDomainX'' = 1" by code_simp+
  moreover have "arg_int (example_args 0) ''nSubDomainY'' = 1" "arg_int (example_args 1) ''nSubDomainY'' = 1" by code_simp+
  moreover have "arg_int (example_args 0) ''nSubDomainZ'' = 2" "arg_int (example_args 1) ''nSubDomainZ'' = 2" by code_simp+
  moreover have "arg_int (example_args 0) ''meshLength'' = 4" "arg_int (example_args 1) ''meshLength'' = 4" by code_simp+
  ultimately show "torus (1, 1, 2) 4 [example_args 0, example_args 1]"
    by (auto simp: torus_def torus_args_def less_Suc_eq)
  show "mesh_fits (1, 1, 2) 4" by (simp add: mesh_fits_def)
qed

lemma example_points: "nPointsX (initParams (example_args r)) = 4" "nPointsY (initParams (example_args r)) = 4"
    "nPointsZ (initParams (example_args r)) = 2"
  if "r < 2"
proof -
  have "torus_args (1, 1, 2) r (example_args r)" "arg_int (example_args r) ''meshLength'' = int 4"
    using torusD [OF example_torus(1), of r] that by (auto simp: less_2_cases_iff)
  from initParams_points [OF this] show "nPointsX (initParams (example_args r)) = 4" "nPointsY (initParams (example_args r)) = 4"
    "nPointsZ (initParams (example_args r)) = 2" by (simp_all add: word_unat_eq_iff)
qed

definition example_memory :: "int RankMemory" where
  "example_memory = \<lparr>subDomainOld = (\<lambda>i. int i * int i), subDomainNew = (\<lambda>i. 0), sendBuffers = (\<lambda>f i. 0), recvBuffers = (\<lambda>f i. 0)\<rparr>"

text \<open>
  C26: A time step of all ranks gives every point of every sub-domain the value that one sweep of the
  seven-point stencil over the old values gives it: updating the six facets with de-duplicated bounds and
  then the interior computes each point exactly once and from old values only, and neither the
  copies to the neighbours nor unpacking the received facets touches the block.
\<close>

theorem time_step_equals_sweep:
  assumes "torus d mesh as" "mesh_fits d mesh" "length ms = length as" "r < length as"
    "P = initParams (as ! r)" "p \<in> block P"
  shows "subDomainOld (time_step six weight (map initParams as) ms ! r) (flatId (nPointsY P) (nPointsZ P) p) =
      stencil six weight P (subDomainOld (ms ! r)) p \<and> mset (updated_points P) = mset (block_points P)"
proof -
  have ok: "params_ok P" "wide P" using initParams_ok [OF torusD [OF assms(1,4)] assms(2)] assms(5) by simp_all
  have "mset (updated_points P) = mset (block_points P)"
    using set_updated_points [OF ok] distinct_updated_points [OF ok]
    by (simp add: set_eq_iff_mset_eq_distinct [symmetric] distinct_block_points set_block_points)
  then show ?thesis using time_step_sweep [of ms "map initParams as" r p six weight] ok assms by simp
qed

theorem time_step_equals_sweep_witness:
  "subDomainOld (time_step 6 1 [initParams (example_args 0), initParams (example_args 1)] [example_memory, example_memory] ! 1)
      (flatId 4 2 (1, 1, 1)) = stencil 6 1 (initParams (example_args 1)) (\<lambda>i. int i * int i) (1, 1, 1)
    \<and> mset (updated_points (initParams (example_args 1))) = mset (block_points (initParams (example_args 1)))"
proof -
  have "(1, 1, 1) \<in> block (initParams (example_args 1))" using example_points [of 1] by (simp add: block_def)
  then show ?thesis
    using time_step_equals_sweep [OF example_torus, of "[example_memory, example_memory]" 1 "initParams (example_args 1)" "(1, 1, 1)" 6 1]
      example_points [of 1] by (simp add: example_memory_def)
qed

text \<open>
  C30: The neighbours a rank computes in wrapping 32-bit arithmetic are its neighbours in the torus of
  sub-domains; they are ranks of the run, and the relation is symmetric: the neighbour's neighbour
  through the facet \<open>reverseFacetUD\<close> gives is the rank itself.
\<close>

theorem neighbors_are_torus:
  assumes "torus d mesh as" "r < length as" "n = unat (neighborRank (info_of (initParams (as ! r)) f))"
  shows "n = rank_of d (through d f (coords_of d r)) \<and> n < length as \<and>
    neighborFacet (info_of (initParams (as ! r)) f) = reverseFacetUD f \<and>
    unat (neighborRank (info_of (initParams (as ! n)) (reverseFacetUD f))) = r \<and>
    neighborFacet (info_of (initParams (as ! n)) (reverseFacetUD f)) = f"
proof -
  note t = torusD(1) [OF assms(1,2)]
  have n: "n < length as" using torus_neighbor [OF assms(1,2)] assms(3) by simp
  moreover have "n = rank_of d (through d f (coords_of d r))"
    by (simp add: assms(3) info_initParams makeFacetInfo_fields unat_neighbors [OF t])
  moreover have "unat (neighborRank (info_of (initParams (as ! n)) (reverseFacetUD f))) = r"
    by (rule neighbor_of_neighbor [OF t torusD(1) [OF assms(1) n] assms(3)])
  ultimately show ?thesis by (simp add: info_initParams makeFacetInfo_fields)
qed

theorem neighbors_are_torus_witness:
  "unat (neighborRank (info_of (initParams (example_args 0)) ZD)) = 1
    \<and> unat (neighborRank (info_of (initParams (example_args 1)) ZU)) = 0"
proof -
  let ?n = "unat (neighborRank (info_of (initParams (example_args 0)) ZD))"
  note t = neighbors_are_torus [OF example_torus(1), of 0 ?n ZD]
  then have "?n = 1" by (simp add: coords_of_def through_def down_def rank_of_def)
  with t show ?thesis by simp
qed

text \<open>
  After a time step the ghost points of a facet hold what the neighbour behind that facet packed
  for it in the same step: the copies of all ranks go to distinct receive buffers, the lengths agree,
  and unpacking writes each ghost point from the position of the buffer it was packed at.
\<close>

lemma time_step_ghost_points:
  assumes "torus d mesh as" "mesh_fits d mesh" "length ms = length as" "r < length as" "P = initParams (as ! r)"
    "rng = ranges (outerStart (info_of P f)) (outerEnd (info_of P f))" "q \<in> set (work_items rng)"
    "n = unat (neighborRank (info_of P f))"
  shows "subDomainOld (time_step six weight (map initParams as) ms ! r)
      (flatId (nPointsY P) (nPointsZ P) (shift (outerStart (info_of P f)) q)) =
    sendBuffers (facet_step six weight (initParams (as ! n)) (ms ! n)) (reverseFacetUD f) (bufferId rng q)"
proof -
  let ?ps = "map initParams as" and ?ms = "map2 (facet_step six weight) (map initParams as) ms"
  have ok: "params_ok P" using initParams_ok(1) [OF torusD [OF assms(1,4)] assms(2)] assms(5) by simp
  have n: "n < length as" using torus_neighbor [OF assms(1,4)] assms(5,8) by simp
  have b: "bufferId rng q < facet_floats f P"
    using bufferId_less [of q "fst rng" "fst (snd rng)" "snd (snd rng)"] assms(7) outer_ranges [OF ok, of f]
    by (simp add: assms(6) split: prod.splits)
  have "subDomainOld (time_step six weight ?ps ms ! r) (flatId (nPointsY P) (nPointsZ P) (shift (outerStart (info_of P f)) q)) =
      recvBuffers (fold (sendFacets ?ps) [0..<length ?ps] ?ms ! r) f (bufferId rng q)"
    using assms(3,4)
    by (simp add: unpack_at [OF ok assms(7) [unfolded assms(6)]] time_step_nth swap_subDomains_def assms(5) [symmetric] assms(6) updateInterior_writes(3))
  also have "\<dots> = sendBuffers (?ms ! n) (reverseFacetUD f) (bufferId rng q)"
    using sent_buffers [OF assms(1,2) _ assms(4), of ?ms n f "bufferId rng q"] b assms(3,5,8) by simp
  finally show ?thesis using n assms(3) by simp
qed

text \<open>
  C31: What is packed for a neighbour is not the facet. For every point of every inner facet
  \<open>pack_send_buffer\<close> reads a cell in front of the cell of that point, because its index adds the two
  extended sizes where all the other kernels multiply them. The cell is inside the allocation.
\<close>

theorem packSendBuffer_reads_other_cell:
  assumes "torus d mesh as" "mesh_fits d mesh" "r < length as" "P = initParams (as ! r)"
    "rng = ranges (innerStart (info_of P f)) (innerEnd (info_of P f))" "q \<in> set (work_items rng)"
    "p = shift (innerStart (info_of P f)) q"
  shows "sendBuffers (packSendBuffer P f m) f (bufferId rng q) = subDomainNew m (pack_index (nPointsY P) (nPointsZ P) p) \<and>
    p \<in> block P \<and> pack_index (nPointsY P) (nPointsZ P) p < flatId (nPointsY P) (nPointsZ P) p \<and>
    flatId (nPointsY P) (nPointsZ P) p < subDomain_floats P"
proof -
  have ok: "params_ok P" "wide P" using initParams_ok [OF torusD [OF assms(1,3)] assms(2)] assms(4) by simp_all
  have pb: "p \<in> block P" using inner_points [of "as ! r" q f] ok(2) assms(4-7) by simp
  then have "1 \<le> fst p" "unat (nPointsZ P) \<noteq> 0" using wideD(3) [OF ok(2)] by (cases p; simp add: block_def)+
  then have "pack_index (nPointsY P) (nPointsZ P) p < flatId (nPointsY P) (nPointsZ P) p"
    using pack_index_other [OF ok(1), of p] by simp
  moreover have "flatId (nPointsY P) (nPointsZ P) p < subDomain_floats P"
    using flatId_less [OF ok(1)] pb block_extended by blast
  ultimately show ?thesis using packed_value [of q P f m] pb assms(5-7) by simp
qed

theorem packSendBuffer_reads_other_cell_witness:
  "sendBuffers (packSendBuffer (initParams (example_args 0)) XD example_memory) XD 0 =
      subDomainNew example_memory (pack_index 4 2 (1, 1, 1)) \<and> pack_index 4 2 (1, 1, 1) < flatId 4 2 (1, 1, 1)"
proof -
  let ?P = "initParams (example_args 0)"
  have i: "innerStart (info_of ?P XD) = (1, 1, 1)" "innerEnd (info_of ?P XD) = (1, 4, 2)"
    using example_points [of 0] by (simp_all add: info_initParams makeFacetInfo_def Let_def)
  show ?thesis
    using packSendBuffer_reads_other_cell [OF example_torus, of 0 ?P "(1, 4, 2)" XD "(0, 0, 0)" "(1, 1, 1)" example_memory]
      example_points [of 0] by (simp add: i ranges_def set_work_items shift_def bufferId_def)
qed

section \<open>Bounds\<close>

text \<open>
  What an operation may depend on and change: the contents of the memory \<open>allocateStorage\<close> reserves. Two states of the
  memory that agree there agree there afterwards, so the operation reads nothing else; and outside nothing changes, so it writes
  nothing else.
\<close>

definition same_storage :: "ParamsTy \<Rightarrow> 'f RankMemory \<Rightarrow> 'f RankMemory \<Rightarrow> bool" where
  "same_storage P m m' \<longleftrightarrow>
     (\<forall>i < subDomain_floats P. subDomainOld m i = subDomainOld m' i \<and> subDomainNew m i = subDomainNew m' i) \<and>
     (\<forall>f. \<forall>i < facet_floats f P. sendBuffers m f i = sendBuffers m' f i \<and> recvBuffers m f i = recvBuffers m' f i)"

definition same_outside :: "ParamsTy \<Rightarrow> 'f RankMemory \<Rightarrow> 'f RankMemory \<Rightarrow> bool" where
  "same_outside P m m' \<longleftrightarrow>
     (\<forall>i \<ge> subDomain_floats P. subDomainOld m i = subDomainOld m' i \<and> subDomainNew m i = subDomainNew m' i) \<and>
     (\<forall>f. \<forall>i \<ge> facet_floats f P. sendBuffers m f i = sendBuffers m' f i \<and> recvBuffers m f i = recvBuffers m' f i)"

definition confined :: "ParamsTy \<Rightarrow> ('f RankMemory \<Rightarrow> 'f RankMemory) \<Rightarrow> bool" where
  "confined P operation \<longleftrightarrow>
     (\<forall>m m'. same_storage P m m' \<longrightarrow> same_storage P (operation m) (operation m')) \<and> (\<forall>m. same_outside P m (operation m))"

lemma confined_comp: "confined P g \<Longrightarrow> confined P h \<Longrightarrow> confined P (\<lambda>m. h (g m))"
  unfolding confined_def same_outside_def by metis

lemma confined_fold: "(\<And>f. confined P (g f)) \<Longrightarrow> confined P (fold g fs)"
proof (induction fs)
  case Nil
  show ?case by (simp add: confined_def same_outside_def)
next
  case (Cons f fs)
  then show ?case using confined_comp [of P "g f" "fold g fs"] by (simp add: comp_def)
qed

lemma writes_inside:
  assumes "\<forall>p \<in> set ps. idx p < n" "\<forall>i < n. m i = m' i" "\<forall>p \<in> set ps. w p = w' p"
  shows "\<forall>i < n. writes idx w ps m i = writes idx w' ps m' i"
  using assms by (induction ps arbitrary: m m') auto

lemma writes_outside: "\<forall>p \<in> set ps. idx p < n \<Longrightarrow> n \<le> i \<Longrightarrow> writes idx w ps m i = m i"
  by (rule writes_other) auto

lemma block_points_less:
  assumes "params_ok P" "p \<in> block P"
  shows "flatId (nPointsY P) (nPointsZ P) p < subDomain_floats P"
  using flatId_less [OF assms(1)] assms(2) block_extended by blast

lemma confined_subDomainNew:
  assumes "\<And>m. operation m = m\<lparr>subDomainNew := writes idx (w m) ps (subDomainNew m)\<rparr>" "\<forall>p \<in> set ps. idx p < subDomain_floats P"
    and "\<And>m m'. same_storage P m m' \<Longrightarrow> \<forall>p \<in> set ps. w m p = w m' p"
  shows "confined P operation"
proof -
  have "same_storage P (operation m) (operation m')" if "same_storage P m m'" for m m'
    using writes_inside [OF assms(2) _ assms(3) [OF that], of "subDomainNew m" "subDomainNew m'"] that
    by (simp add: same_storage_def assms(1))
  moreover have "same_outside P m (operation m)" for m by (simp add: same_outside_def assms(1) writes_outside [OF assms(2)])
  ultimately show ?thesis by (simp add: confined_def)
qed

lemma init_confined:
  assumes "params_ok P"
  shows "confined P (initTemperature hot ambient hiTemp P)"
proof -
  let ?idx = "\<lambda>p. flatId (nPointsY P) (nPointsZ P) (shift (1, 1, 1) p)" and ?ps = "work_items (nPointsX P, nPointsY P, nPointsZ P)"
  obtain w where w: "init_temperature hot ambient hiTemp P = (\<lambda>p m. m(?idx p := w p))"
  proof
    show "init_temperature hot ambient hiTemp P = (\<lambda>p m. m(?idx p := (case p of (gx, gy, gz) \<Rightarrow>
        if \<not> hot (unat (subDomainCoordX P * nPointsX P) + (gx + 1) - 1, unat (subDomainCoordY P * nPointsY P) + (gy + 1) - 1,
            unat (subDomainCoordZ P * nPointsZ P) + (gz + 1) - 1) then ambient else hiTemp)))"
      by (intro ext) (simp add: init_temperature_def shift_def Let_def split: prod.split)
  qed
  have n: "initTemperature hot ambient hiTemp P m = m\<lparr>subDomainNew := writes ?idx w ?ps (subDomainNew m)\<rparr>" for m
    by (simp add: initTemperature_def w launch_writes)
  have image: "shift (1, 1, 1) ` set ?ps = block P" using set_block_points [of P] by (simp add: block_points_def)
  have "shift (1, 1, 1) p \<in> block P" if "p \<in> set ?ps" for p
    using imageI [OF that, of "shift (1, 1, 1)"] by (simp only: image)
  then have i: "\<forall>p \<in> set ?ps. ?idx p < subDomain_floats P" using block_points_less [OF assms] by blast
  show ?thesis by (rule confined_subDomainNew [OF n i]) simp
qed

lemma stencil_confined:
  assumes "params_ok P" "set ps \<subseteq> block P" "same_storage P m m'"
  shows "\<forall>p \<in> set ps. stencil six weight P (subDomainOld m) p = stencil six weight P (subDomainOld m') p"
proof
  fix p assume "p \<in> set ps"
  then have "flatId (nPointsY P) (nPointsZ P) q < subDomain_floats P" if "q \<in> set (stencil_points p)" for q
    using stencil_points_extended [OF _ that, of P] flatId_less [OF assms(1)] assms(2) by blast
  then show "stencil six weight P (subDomainOld m) p = stencil six weight P (subDomainOld m') p"
    using assms(3) by (intro stencil_reads) (simp add: same_storage_def)
qed

lemma update_confined:
  fixes operation :: "'f::{plus,minus,times} RankMemory \<Rightarrow> 'f RankMemory"
  assumes "params_ok P" "set ps \<subseteq> block P"
    and "\<And>m. operation m = m\<lparr>subDomainNew := writes (flatId (nPointsY P) (nPointsZ P)) (stencil six weight P (subDomainOld m)) ps (subDomainNew m)\<rparr>"
  shows "confined P operation"
  using assms(2) block_points_less [OF assms(1)]
  by (intro confined_subDomainNew [OF assms(3)] stencil_confined [OF assms(1,2)]) blast

lemma facet_points_block: "params_ok P \<Longrightarrow> wide P \<Longrightarrow> set (facet_points P f) \<subseteq> block P" "params_ok P \<Longrightarrow> wide P \<Longrightarrow> set (interior_points P) \<subseteq> block P"
  using set_updated_points [of P] by (cases f; auto simp: updated_points_def facets_def)+

lemma pack_confined:
  assumes "params_ok P" "wide P" "P = initParams a"
  shows "confined P (packSendBuffer P f :: 'f RankMemory \<Rightarrow> 'f RankMemory)"
proof -
  let ?rng = "ranges (innerStart (info_of P f)) (innerEnd (info_of P f))"
  let ?src = "\<lambda>q. pack_index (nPointsY P) (nPointsZ P) (shift (innerStart (info_of P f)) q)"
  have b: "\<forall>q \<in> set (work_items ?rng). bufferId ?rng q < facet_floats f P"
  proof
    fix q assume "q \<in> set (work_items ?rng)"
    then show "bufferId ?rng q < facet_floats f P"
      using bufferId_less [of q "fst ?rng" "fst (snd ?rng)" "snd (snd ?rng)"]
      by (cases f) (simp_all add: assms(3) inner_ranges Let_def facet_floats_def)
  qed
  have s: "\<forall>q \<in> set (work_items ?rng). ?src q < subDomain_floats P"
  proof
    fix q assume "q \<in> set (work_items ?rng)"
    then have pb: "shift (innerStart (info_of P f)) q \<in> block P" using inner_points [of a q f] assms(2,3) by simp
    then have "1 \<le> fst (shift (innerStart (info_of P f)) q)" "unat (nPointsZ P) \<noteq> 0"
      using wideD(3) [OF assms(2)] by (cases "shift (innerStart (info_of P f)) q"; simp add: block_def)+
    with pack_index_other [OF assms(1)] block_points_less [OF assms(1) pb] show "?src q < subDomain_floats P"
      by (metis less_trans)
  qed
  have n: "packSendBuffer P f m = m\<lparr>sendBuffers := (sendBuffers m)(f :=
      writes (bufferId ?rng) (\<lambda>q. subDomainNew m (?src q)) (work_items ?rng) (sendBuffers m f))\<rparr>" for m :: "'f RankMemory"
    by (simp add: packSendBuffer_def Let_def launch_writes [symmetric] launch_def pack_send_buffer_def [abs_def])
  have "same_storage P (packSendBuffer P f m) (packSendBuffer P f m')" if "same_storage P m m'" for m m' :: "'f RankMemory"
    using that writes_inside [OF b, where m = "sendBuffers m f" and m' = "sendBuffers m' f" and w = "\<lambda>q. subDomainNew m (?src q)"
        and w' = "\<lambda>q. subDomainNew m' (?src q)"] s
    by (simp add: same_storage_def n)
  moreover have "same_outside P m (packSendBuffer P f m)" for m :: "'f RankMemory"
    by (simp add: same_outside_def n writes_outside [OF b])
  ultimately show ?thesis by (simp add: confined_def)
qed

lemma unpack_confined:
  assumes "params_ok P"
  shows "confined P (unpackRecvBufferHelper P f :: 'f RankMemory \<Rightarrow> 'f RankMemory)"
proof -
  let ?rng = "ranges (outerStart (info_of P f)) (outerEnd (info_of P f))"
  let ?dst = "\<lambda>q. flatId (nPointsY P) (nPointsZ P) (shift (outerStart (info_of P f)) q)"
  have b: "\<forall>q \<in> set (work_items ?rng). bufferId ?rng q < facet_floats f P"
  proof
    fix q assume "q \<in> set (work_items ?rng)"
    then show "bufferId ?rng q < facet_floats f P"
      using bufferId_less [of q "fst ?rng" "fst (snd ?rng)" "snd (snd ?rng)"] outer_ranges [OF assms, of f] by (simp split: prod.splits)
  qed
  have d: "\<forall>q \<in> set (work_items ?rng). ?dst q < subDomain_floats P"
  proof
    fix q assume "q \<in> set (work_items ?rng)"
    then have "shift (outerStart (info_of P f)) q \<in> extended_block P"
      using shift_work_items [OF outer_boxes(1) [OF assms]] outer_boxes(2) [OF assms] ghost_layer_extended by blast
    then show "?dst q < subDomain_floats P" by (rule flatId_less [OF assms])
  qed
  have n: "unpackRecvBufferHelper P f m = m\<lparr>subDomainNew :=
      writes ?dst (\<lambda>q. recvBuffers m f (bufferId ?rng q)) (work_items ?rng) (subDomainNew m)\<rparr>" for m :: "'f RankMemory"
    by (simp add: unpackRecvBufferHelper_def Let_def launch_writes [symmetric] launch_def unpack_recv_buffer_def [abs_def])
  show ?thesis by (rule confined_subDomainNew [OF n d]) (simp add: same_storage_def b)
qed

text \<open>
  C32: On meshes with at least two points per sub-domain and fewer than \<open>2 ^ 16\<close> in all in each direction, no kernel leaves the
  memory \<open>allocateStorage\<close> reserves: initialising the temperatures, updating facets and interior, packing (also where it reads
  the wrong cell) and unpacking read only cells of the sub-domains and positions of the buffers that are allocated, and change
  nothing else; and the copies to a neighbour have the length of the buffer they leave and of the buffer they reach.
\<close>

theorem heat3d_accesses_in_bounds:
  fixes six weight :: "'f::{plus,minus,times}"
  assumes "torus d mesh as" "mesh_fits d mesh" "r < length as" "P = initParams (as ! r)"
  shows "confined P (initTemperature hot (ambient :: 'f) hiTemp P) \<and> confined P (initPackSendBuffers P :: 'f RankMemory \<Rightarrow> 'f RankMemory) \<and>
    confined P (facet_step six weight P) \<and> confined P (updateInterior six weight P) \<and>
    confined P (unpackRecvBuffers P :: 'f RankMemory \<Rightarrow> 'f RankMemory) \<and>
    (\<forall>f. bufferLen (info_of P f) = facet_floats f P \<and>
       bufferLen (info_of P f) = facet_floats (neighborFacet (info_of P f)) (initParams (as ! unat (neighborRank (info_of P f)))))"
proof -
  note t = torusD [OF assms(1,3)] assms(2)
  have ok: "params_ok P" "wide P" using initParams_ok [OF t] assms(4) by simp_all
  have pack: "confined P (packSendBuffer P f :: 'f RankMemory \<Rightarrow> 'f RankMemory)" for f by (rule pack_confined [OF ok assms(4)])
  have upd: "confined P (updateFacet six weight P f)" for f
    by (rule update_confined [OF ok(1) facet_points_block(1) [OF ok]])
      (simp add: updateFacet_def Let_def launch_update_facet facet_points_def)
  have int: "confined P (updateInterior six weight P)"
    by (rule update_confined [OF ok(1) facet_points_block(2) [OF ok]]) (simp add: updateInterior_def launch_update_interior interior_points_def)
  have len: "bufferLen (info_of P f) = facet_floats f P" for f
    using bufferLen_facet_floats [OF facet_floats_torus(2) [OF t]] assms(4) by (simp add: info_initParams)
  have "facet_floats (neighborFacet (info_of P f)) (initParams (as ! unat (neighborRank (info_of P f)))) = facet_floats f P" for f
  proof -
    have n: "unat (neighborRank (info_of P f)) < length as" using torus_neighbor [OF assms(1,3)] assms(4) by simp
    have "neighborFacet (info_of P f) = reverseFacetUD f" using assms(4) by (simp add: info_initParams makeFacetInfo_fields)
    then show ?thesis
      using facet_floats_torus(1) [OF torusD [OF assms(1) n] assms(2), of f] facet_floats_torus(1) [OF t, of f] assms(4)
      by (simp add: facet_floats_reverse)
  qed
  with len have copies: "\<forall>f. bufferLen (info_of P f) = facet_floats f P \<and>
       bufferLen (info_of P f) = facet_floats (neighborFacet (info_of P f)) (initParams (as ! unat (neighborRank (info_of P f))))" by simp
  have "confined P (initPackSendBuffers P :: 'f RankMemory \<Rightarrow> 'f RankMemory)" "confined P (unpackRecvBuffers P :: 'f RankMemory \<Rightarrow> 'f RankMemory)"
    unfolding initPackSendBuffers_def [abs_def] unpackRecvBuffers_def [abs_def]
    by (intro confined_fold pack unpack_confined [OF ok(1)])+
  moreover have "confined P (facet_step six weight P)"
    unfolding facet_step_def [abs_def] by (intro confined_fold confined_comp [OF upd pack])
  ultimately show ?thesis using init_confined [OF ok(1), of hot ambient hiTemp] int copies by blast
qed

text \<open>Of two ranks with four by four by two points: the interior is updated alike whatever lies behind the 144 cells of a sub-domain.\<close>

theorem heat3d_accesses_in_bounds_witness:
  "bufferLen (info_of (initParams (example_args 0)) XU) = 8 \<and> subDomain_floats (initParams (example_args 0)) = 144 \<and>
    same_storage (initParams (example_args 0)) (facet_step 6 1 (initParams (example_args 0)) example_memory)
      (facet_step 6 1 (initParams (example_args 0)) (example_memory\<lparr>subDomainOld := (\<lambda>i. if i < 144 then int i * int i else 7)\<rparr>))"
proof -
  let ?P = "initParams (example_args 0)"
  have s: "subDomain_floats ?P = 144" using example_points [of 0] by (simp add: subDomain_floats_def)
  have same: "same_storage ?P example_memory (example_memory\<lparr>subDomainOld := (\<lambda>i. if i < 144 then int i * int i else 7)\<rparr>)"
    by (simp add: same_storage_def s example_memory_def)
  note b = heat3d_accesses_in_bounds [OF example_torus, of 0 ?P "\<lambda>_. False" "0 :: int" 0 6 1]
  then have "confined ?P (facet_step (6 :: int) 1 ?P)" "bufferLen (info_of ?P XU) = facet_floats XU ?P" by simp_all
  with same s example_points [of 0] show ?thesis by (simp add: confined_def facet_floats_def)
qed

end
