(* ===== verification/Process_Windows.thy ===== *)
theory Process_Windows
  imports Process_Group
begin

text \<open>
  The Windows variants of a process and of the input and output of a workload:
  \<open>framework/utility/windows/process_windows.cpp\<close> and \<open>workload/windows/workload_io_windows.cpp\<close>. The operating
  system is seen through its results, as in \<open>Process_Group\<close>: the outcome of starting a process, the reads of the
  thread that collects the output, the end of the child and its exit code.

  The child of the Windows variant is shown to agree with the Linux child that is given no descriptors. The
  thread that collects the output of a child and \<open>synchronizationWait\<close> read the same pipe; the step relation
  at the end shows that the thread can take the character the parent waits for.
\<close>

section \<open>Process\<close>

record ProcessDataWindows =
  win_stdOutPipe :: string
  win_stdInPipe :: string
  win_exitCode :: "int option"
  win_collected :: string
  win_ended :: bool
  win_hasResult :: bool
  win_result :: int
  win_stdOut :: string

definition make_ProcessDataWindows :: ProcessDataWindows where
  "make_ProcessDataWindows = \<lparr>win_stdOutPipe = [], win_stdInPipe = [], win_exitCode = None, win_collected = [],
     win_ended = False, win_hasResult = False, win_result = int (TestResult_code Error), win_stdOut = []\<rparr>"

text \<open>
  The size of an environment block with its terminator, as the constructor of \<open>EnvironmentRestorer\<close> counts it: the
  first position after the start that holds a zero behind a zero. The position before the block is read when
  the block starts with a zero.
\<close>

function environment_size :: "string \<Rightarrow> nat \<Rightarrow> nat result" where
  "environment_size environment n =
     (if n \<ge> length environment then Inl (Undefined_behaviour ''read behind the environment'')
      else if environment ! n \<noteq> CHR 0x00 then environment_size environment (n + 1)
      else if n = 0 then Inl (Undefined_behaviour ''read before the environment'')
      else if environment ! (n - 1) \<noteq> CHR 0x00 then environment_size environment (n + 1)
      else Ok (n + 1))"
  by pat_completeness auto
termination by (relation "measure (\<lambda>(e, n). length e - n)") auto

declare environment_size.simps [simp del]

definition EnvironmentRestorer :: "string \<Rightarrow> string result" where
  "EnvironmentRestorer environment = bindR (environment_size environment 0) (\<lambda>n. Ok (take n environment))"

text \<open>The loop of \<open>asyncReadThreadBody\<close> over the results of \<open>ReadFile\<close>: \<open>None\<close> for a failed read.\<close>

fun asyncReadThreadBody :: "string option list \<Rightarrow> string" where
  "asyncReadThreadBody [] = []"
| "asyncReadThreadBody (None # rest) = []"
| "asyncReadThreadBody (Some [] # rest) = []"
| "asyncReadThreadBody (Some buffer # rest) = buffer @ asyncReadThreadBody rest"

datatype win_run_outcome =
    StdOutPipe_failed | StdInPipe_failed | Inheritance_failed | SetEnv_failed | CreateProcess_failed | Created

record win_image =
  win_path :: string
  win_commandLine :: string
  win_env :: "(string \<times> string) list"

definition win_arguments :: "Process \<Rightarrow> Process" where
  "win_arguments p = addArgument (addArgument (addArgument p ''synchronizationPipeIn'' ''0'') ''synchronizationPipeOut'' ''0'') ''measurementPipe'' ''0''"

definition win_exeName :: "Process \<Rightarrow> string" where
  "win_exeName p = (if \<not> endsWith (exeName p) ''.exe'' then exeName p @ ''.exe'' else exeName p)"

definition win_run :: "Process \<Rightarrow> win_run_outcome \<Rightarrow> (Process \<times> ProcessDataWindows \<times> win_image) result" where
  "win_run p os =
     FATAL_ERROR_IF (os = StdOutPipe_failed) ''creating pipe for stdout''
    (FATAL_ERROR_IF (os = StdInPipe_failed) ''creating pipe for stdin''
    (FATAL_ERROR_IF (os = Inheritance_failed) ''setting handle inheritance''
     (let p' = win_arguments p;
          commandLine = concat (map (\<lambda>argument. fst argument @ (if snd argument \<noteq> [] then ''='' @ snd argument else []) @ '' '') (proc_arguments p'))
      in FATAL_ERROR_IF (os = SetEnv_failed \<and> envVariables p' \<noteq> []) ''setting env variable''
        (FATAL_ERROR_IF (os = CreateProcess_failed) ''creating process''
          (Ok (p', make_ProcessDataWindows,
               \<lparr>win_path = win_exeName p', win_commandLine = commandLine, win_env = envVariables p'\<rparr>))))))"

text \<open>Waiting joins the reading thread, which by then has collected the rest of the pipe.\<close>

definition win_waitForFinish :: "ProcessDataWindows \<Rightarrow> ProcessDataWindows result" where
  "win_waitForFinish d =
     (if win_ended d then Ok d
      else FATAL_ERROR_IF (win_exitCode d = None) ''waiting for process to end, ''
        (Ok (d\<lparr>win_stdOut := win_collected d @ win_stdOutPipe d, win_collected := [], win_stdOutPipe := [], win_ended := True\<rparr>)))"

definition win_getResult :: "ProcessDataWindows \<Rightarrow> (int \<times> ProcessDataWindows) result" where
  "win_getResult d =
     (if \<not> win_hasResult d
      then bindR (win_waitForFinish d) (\<lambda>d'.
             case win_exitCode d' of
               None \<Rightarrow> FATAL_ERROR ''retrieving process exit code''
             | Some exitCode \<Rightarrow> Ok (exitCode, d'\<lparr>win_hasResult := True, win_result := exitCode\<rparr>))
      else Ok (win_result d, d))"

definition win_getStdout :: "ProcessDataWindows \<Rightarrow> (string \<times> ProcessDataWindows) result" where
  "win_getStdout d = bindR (win_waitForFinish d) (\<lambda>d'. Ok (win_stdOut d', d'))"

definition win_getMeasurements :: "ProcessDataWindows \<Rightarrow> (string \<times> ProcessDataWindows) result" where
  "win_getMeasurements d = win_getStdout d"

definition win_synchronizationSignal :: "ProcessDataWindows \<Rightarrow> ProcessDataWindows" where
  "win_synchronizationSignal d = d\<lparr>win_stdInPipe := win_stdInPipe d @ [synchronizationChar]\<rparr>"

text \<open>\<open>None\<close> while the pipe is empty: the read blocks.\<close>

definition win_synchronizationWait :: "ProcessDataWindows \<Rightarrow> ProcessDataWindows result option" where
  "win_synchronizationWait d =
     (case win_stdOutPipe d of
        [] \<Rightarrow> None
      | buffer # rest \<Rightarrow> Some
          (FATAL_ERROR_IF (buffer \<noteq> synchronizationChar)
            (''Invalid synchronization received from child process: '' @ [CHR 0x27, buffer, CHR 0x27])
            (Ok (d\<lparr>win_stdOutPipe := rest\<rparr>))))"

section \<open>WorkloadIoWindows\<close>

definition win_writeToMeasurements :: "WorkloadIo \<Rightarrow> string \<Rightarrow> WorkloadIo" where
  "win_writeToMeasurements io measurements = io\<lparr>stdout := stdout io @ measurements @ '' ''\<rparr>"

definition win_writeSynchronizationChar :: "WorkloadIo \<Rightarrow> char \<Rightarrow> WorkloadIo" where
  "win_writeSynchronizationChar io c = io\<lparr>stdout := stdout io @ [c]\<rparr>"

definition win_readSynchronizationChar :: "WorkloadIo \<Rightarrow> char \<times> WorkloadIo" where
  "win_readSynchronizationChar io =
     (case sync_input io of [] \<Rightarrow> (CHR 0xFF, io) | c # rest \<Rightarrow> (c, io\<lparr>sync_input := rest\<rparr>))"

section \<open>The reading thread and the parent\<close>

text \<open>
  One child that synchronizes, the reading thread and a parent in \<open>synchronizationWait\<close>. A step is one write or read:
  the child announces itself and then waits for its input; the thread takes some of what is in the pipe, at most
  the 1024 characters of its buffer; the parent takes one character and stops waiting.
\<close>

record win_sys =
  ws_data :: ProcessDataWindows
  ws_announced :: bool
  ws_waiting :: bool

inductive win_step :: "win_sys \<Rightarrow> win_sys \<Rightarrow> bool" where
  win_announce: "\<not> ws_announced s \<Longrightarrow>
    win_step s (s\<lparr>ws_announced := True,
      ws_data := (ws_data s)\<lparr>win_stdOutPipe := win_stdOutPipe (ws_data s) @ [synchronizationChar]\<rparr>\<rparr>)"
| win_collect: "0 < n \<Longrightarrow> n \<le> 1024 \<Longrightarrow> n \<le> length (win_stdOutPipe (ws_data s)) \<Longrightarrow>
    win_step s (s\<lparr>ws_data := (ws_data s)\<lparr>win_collected := win_collected (ws_data s) @ take n (win_stdOutPipe (ws_data s)),
      win_stdOutPipe := drop n (win_stdOutPipe (ws_data s))\<rparr>\<rparr>)"
| win_wait: "ws_waiting s \<Longrightarrow> win_synchronizationWait (ws_data s) = Some (Ok d) \<Longrightarrow>
    win_step s (s\<lparr>ws_data := d, ws_waiting := False\<rparr>)"

inductive_cases win_stepE: "win_step s t"

definition win_start :: win_sys where
  "win_start = \<lparr>ws_data = make_ProcessDataWindows, ws_announced = False, ws_waiting = True\<rparr>"

section \<open>The environment block\<close>

definition environment_block :: "string list \<Rightarrow> string" where
  "environment_block vars = concat (map (\<lambda>v. v @ [CHR 0x00]) vars) @ [CHR 0x00]"

lemma environment_size_step:
  assumes "n < length e" "e ! n \<noteq> CHR 0x00 \<or> 0 < n \<and> e ! (n - 1) \<noteq> CHR 0x00"
  shows "environment_size e n = environment_size e (n + 1)"
  using assms by (subst environment_size.simps) auto

lemma environment_size_variable:
  assumes "CHR 0x00 \<notin> set v" "v \<noteq> []"
  shows "environment_size (done @ v @ CHR 0x00 # rest) (length done) = environment_size (done @ v @ CHR 0x00 # rest) (length done + length v + 1)"
proof -
  let ?e = "done @ v @ CHR 0x00 # rest"
  have at: "?e ! (length done + k) \<noteq> CHR 0x00" if "k < length v" for k
  proof -
    have "v ! k \<noteq> CHR 0x00" using nth_mem [OF that] assms(1) by metis
    with that show ?thesis by (simp add: nth_append)
  qed
  have "environment_size ?e (length done) = environment_size ?e (length done + k)" if "k \<le> length v" for k
    using that
  proof (induction k)
    case (Suc k)
    then show ?case using environment_size_step [of "length done + k" ?e] at [of k] by simp
  qed simp
  from this [of "length v"] have "environment_size ?e (length done) = environment_size ?e (length done + length v)" by simp
  moreover have "length done + length v - 1 = length done + (length v - 1)" using assms(2) by (cases v) simp_all
  then have "environment_size ?e (length done + length v) = environment_size ?e (length done + length v + 1)"
    using assms(2) at [of "length v - 1"] by (intro environment_size_step) simp_all
  ultimately show ?thesis by (rule trans)
qed

lemma environment_size_variables:
  assumes "\<forall>v \<in> set vars. v \<noteq> [] \<and> CHR 0x00 \<notin> set v" "done = [] \<longrightarrow> vars \<noteq> []" "done = [] \<or> last done = CHR 0x00"
  shows "environment_size (done @ environment_block vars @ rest) (length done) = Ok (length done + length (environment_block vars))"
  using assms
proof (induction vars arbitrary: "done")
  case Nil
  then have d: "done \<noteq> []" "done ! (length done - 1) = CHR 0x00" by (simp_all add: last_conv_nth)
  then show ?case by (subst environment_size.simps) (simp add: environment_block_def nth_append)
next
  case (Cons v vars)
  let ?d = "done @ v @ [CHR 0x00]"
  have "environment_size (?d @ environment_block vars @ rest) (length ?d) = Ok (length ?d + length (environment_block vars))"
    using Cons.prems by (intro Cons.IH) simp_all
  moreover have "environment_size (?d @ environment_block vars @ rest) (length done) = environment_size (?d @ environment_block vars @ rest) (length ?d)"
    using environment_size_variable [of v "done" "environment_block vars @ rest"] Cons.prems(1) by simp
  ultimately show ?case by (simp add: environment_block_def)
qed

text \<open>A nonempty environment is stored whole; of an empty one the position before its start is read.\<close>

lemma EnvironmentRestorer_stores:
  assumes "vars \<noteq> []" "\<forall>v \<in> set vars. v \<noteq> [] \<and> CHR 0x00 \<notin> set v"
  shows "EnvironmentRestorer (environment_block vars @ rest) = Ok (environment_block vars)"
  using environment_size_variables [of vars "[]" rest] assms by (simp add: EnvironmentRestorer_def bindR_def)

lemma EnvironmentRestorer_empty:
  "EnvironmentRestorer (environment_block []) = Inl (Undefined_behaviour ''read before the environment'')"
  by (simp add: EnvironmentRestorer_def environment_block_def environment_size.simps bindR_def)

section \<open>Properties\<close>

lemma splitString_command_line:
  assumes "\<forall>t \<in> set ts. is_token t"
  shows "splitString (concat (map (\<lambda>t. t @ '' '') ts)) = ts"
  using assms
proof (induction ts)
  case (Cons t ts)
  have "isspace CHR '' ''" by (simp add: isspace_def)
  then show ?case using Cons splitString_token [of t "'' '' @ concat (map (\<lambda>t. t @ '' '') ts)"] by simp
qed simp

definition no_descriptors :: pipe_ends where
  "no_descriptors = \<lparr>fd_parentToChild_read = 0, fd_childToParent_write = 0, fd_measurement_write = 0\<rparr>"

text \<open>
  C36: The Windows variant of a child agrees with the Linux variant that is given no descriptors. The command line of
  \<open>CreateProcess\<close>, split at blanks, is the argument vector Linux executes, if no argument has a blank; the
  environment is the same; and each operation of \<open>WorkloadIoWindows\<close> is the operation of
  \<open>WorkloadIoLinux\<close> for descriptors that are zero.
\<close>

theorem windows_child_equals_linux_without_descriptors:
  assumes "win_run p Created = Ok (p', d, img)"
    "\<forall>a \<in> set (proc_arguments p). is_token (argument_for_exec a)"
    "synchronizationPipeIn io = 0" "synchronizationPipeOut io = 0" "measurementPipe io = 0"
  shows "splitString (win_commandLine img) = img_argv (child_image p no_descriptors) \<and>
    win_env img = img_env (child_image p no_descriptors) \<and>
    writeToMeasurements io s = Ok (win_writeToMeasurements io s) \<and>
    writeSynchronizationChar io c = win_writeSynchronizationChar io c \<and>
    readSynchronizationChar io = Ok (win_readSynchronizationChar io)"
proof -
  let ?as = "map argument_for_exec (proc_arguments (win_arguments p))"
  have z: "to_string 0 = ''0''" by code_simp
  have img: "win_commandLine img = concat (map (\<lambda>t. t @ '' '') ?as)" "win_env img = envVariables p"
    using assms(1) by (auto simp: win_run_def Let_def argument_for_exec_def comp_def win_arguments_def addArgument_def)
  have argv: "?as = img_argv (child_image p no_descriptors)"
    by (simp add: child_image_def Let_def no_descriptors_def z win_arguments_def)
  have "is_token t" if "t \<in> set ?as" for t
  proof -
    have "is_token ''--synchronizationPipeIn=0''" "is_token ''--synchronizationPipeOut=0''" "is_token ''--measurementPipe=0''"
      by code_simp+
    with that assms(2) show ?thesis
      by (auto simp: win_arguments_def addArgument_def argument_for_exec_def [of "(_, ''0'')"])
  qed
  then have "splitString (win_commandLine img) = ?as" unfolding img(1) by (intro splitString_command_line) blast
  moreover have "img_env (child_image p no_descriptors) = envVariables p"
    by (simp add: child_image_def Let_def addArgument_def)
  moreover have "writeToMeasurements io s = Ok (win_writeToMeasurements io s)"
    "writeSynchronizationChar io c = win_writeSynchronizationChar io c"
    "readSynchronizationChar io = Ok (win_readSynchronizationChar io)"
    using assms(3-5)
    by (simp_all add: writeToMeasurements_def win_writeToMeasurements_def writeSynchronizationChar_def win_writeSynchronizationChar_def
        readSynchronizationChar_def win_readSynchronizationChar_def split: list.splits)
  ultimately show ?thesis using argv img(2) by simp
qed

theorem windows_child_equals_linux_without_descriptors_witness:
  "splitString ''w --size=4 --synchronizationPipeIn=0 --synchronizationPipeOut=0 --measurementPipe=0 '' =
    img_argv (child_image (addArgument (make_Process ''w'') ''size'' ''4'') no_descriptors)"
proof -
  let ?p = "addArgument (make_Process ''w'') ''size'' ''4''"
  let ?io = "\<lparr>synchronizationPipeIn = 0, synchronizationPipeOut = 0, measurementPipe = 0, sync_input = [], sync_output = [],
    measurements_output = [], stdout = []\<rparr>"
  have r: "win_run ?p Created = Ok (win_arguments ?p, make_ProcessDataWindows, \<lparr>win_path = ''w.exe'',
      win_commandLine = ''w --size=4 --synchronizationPipeIn=0 --synchronizationPipeOut=0 --measurementPipe=0 '', win_env = []\<rparr>)"
    by code_simp
  have t: "\<forall>a \<in> set (proc_arguments ?p). is_token (argument_for_exec a)" by code_simp
  show ?thesis using windows_child_equals_linux_without_descriptors [OF r t, of ?io] by simp
qed

text \<open>
  C37: A parent in \<open>synchronizationWait\<close> on Windows can wait forever although its child has announced itself: the thread
  that collects the output of the child reads the same pipe and may take the character first. In
  other runs the parent receives the character and goes on.
\<close>

theorem windows_wait_can_hang:
  "(\<exists>s. win_step\<^sup>*\<^sup>* win_start s \<and> ws_announced s \<and> ws_waiting s \<and> win_collected (ws_data s) = [synchronizationChar] \<and>
      (\<nexists>t. win_step s t)) \<and>
   (\<exists>s. win_step\<^sup>*\<^sup>* win_start s \<and> ws_announced s \<and> \<not> ws_waiting s)"
proof -
  let ?d = "make_ProcessDataWindows\<lparr>win_stdOutPipe := [synchronizationChar]\<rparr>"
  let ?a = "win_start\<lparr>ws_announced := True, ws_data := ?d\<rparr>"
  have a: "win_step win_start ?a"
    using win_announce [of win_start] by (simp add: win_start_def make_ProcessDataWindows_def)
  let ?lost = "?a\<lparr>ws_data := ?d\<lparr>win_collected := [synchronizationChar], win_stdOutPipe := []\<rparr>\<rparr>"
  have l: "win_step ?a ?lost"
    using win_collect [of 1 ?a] by (simp add: win_start_def make_ProcessDataWindows_def)
  have stuck: "\<nexists>t. win_step ?lost t"
    by (auto elim!: win_stepE simp: win_start_def make_ProcessDataWindows_def win_synchronizationWait_def)
  let ?got = "?a\<lparr>ws_data := ?d\<lparr>win_stdOutPipe := []\<rparr>, ws_waiting := False\<rparr>"
  have g: "win_step ?a ?got"
    using win_wait [of ?a "?d\<lparr>win_stdOutPipe := []\<rparr>"] by (simp add: win_start_def make_ProcessDataWindows_def win_synchronizationWait_def)
  have "win_step\<^sup>*\<^sup>* win_start ?lost" "win_step\<^sup>*\<^sup>* win_start ?got" 
    using rtranclp.rtrancl_into_rtrancl [OF r_into_rtranclp [where r = win_step, OF a]] l g by simp_all
  moreover have "ws_announced ?lost" "ws_waiting ?lost" "win_collected (ws_data ?lost) = [synchronizationChar]" "ws_announced ?got" "\<not> ws_waiting ?got"
    by (simp_all add: win_start_def)
  ultimately show ?thesis using stuck by (intro conjI exI [of _ ?lost] exI [of _ ?got])
qed

end
