(* ===== verification/Mpi_Workload.thy ===== *)
theory Mpi_Workload
  imports Workload
begin

text \<open>
  The MPI workload, \<open>workloads/mpi_workload_l0/mpi_workload_l0.cpp\<close>, and the function of the MPI benchmark that
  launches it and reads its output, \<open>benchmarks/mpi_benchmark/utility/mpi_helper.cpp\<close>.

  The workload is a program of several ranks. What it does besides calling MPI and the driver is to turn time stamps
  into one measurement that rank 0 prints. The stamps of each rank are arguments; \<open>MPI_Reduce\<close> is a parameter, of
  which \<open>MPI_Reduce_ok\<close> states what the standard says about the three operations in use. Numbers of type \<open>uint64_t\<close> are
  natural numbers with the reduction written out; the doubles of \<open>testOverlap\<close> are real numbers.
\<close>

section \<open>Arguments\<close>

definition MpiArguments_fields :: "(string \<times> string \<times> arg_value) list" where
  "MpiArguments_fields = [
     (''testType'', ''Type of the test'', Arg_Integer 0),
     (''statsType'', ''Type of the statistics'', Arg_Integer 0),
     (''testArg0'', ''Test-specific argument 0'', Arg_Integer 0),
     (''testArg1'', ''Test-specific argument 1'', Arg_Integer 0),
     (''testArg2'', ''Test-specific argument 2'', Arg_Integer 0),
     (''testArg3'', ''Test-specific argument 3'', Arg_Integer 0),
     (''testArg4'', ''Test-specific argument 4'', Arg_Integer 0)]"

definition make_MpiArguments :: ArgumentContainer where
  "make_MpiArguments =
     foldl assign_field (make_WorkloadArgumentContainer (map (\<lambda>(k, h, v). make_Argument k (Some h) v) MpiArguments_fields))
       [(''testType'', Arg_Integer 1), (''statsType'', Arg_Integer 1), (''testArg0'', Arg_Integer 0), (''testArg1'', Arg_Integer 0),
        (''testArg2'', Arg_Integer 0), (''testArg3'', Arg_Integer 0), (''testArg4'', Arg_Integer 0)]"

section \<open>Time\<close>

type_synonym timespec = "int \<times> int"

definition getTimeDiffNs :: "timespec \<Rightarrow> timespec \<Rightarrow> nat" where
  "getTimeDiffNs t_start t_end =
     nat (((fst t_end - fst t_start) * 1000000000 + (snd t_end - snd t_start)) mod 2 ^ 64)"

section \<open>Memory\<close>

text \<open>
  The call by which \<open>memAlloc\<close> allocates a buffer and the one by which \<open>memFree\<close> releases it, both chosen by the number of a
  placement. An alignment is never zero in this file.
\<close>

datatype alloc_call = Host_alloc nat nat | Device_alloc nat nat | Shared_alloc nat nat | System_alloc nat nat

datatype free_call = Driver_free | System_free

definition memAlloc :: "int \<Rightarrow> nat \<Rightarrow> nat \<Rightarrow> alloc_call" where
  "memAlloc type sz alignment =
     (if type = 1 then Host_alloc sz alignment
      else if type = 2 then Device_alloc sz alignment
      else if type = 3 then Shared_alloc sz alignment
      else System_alloc alignment (if sz mod alignment = 0 then sz else (sz div alignment + 1) * alignment))"

definition memFree :: "int \<Rightarrow> free_call" where
  "memFree type = (if type = 1 \<or> type = 2 \<or> type = 3 then Driver_free else System_free)"

section \<open>Time spent computing\<close>

text \<open>
  The outer loop of \<open>mpiDummyCompute\<close>: \<open>testTimes\<close> are the durations of the calls of \<open>MPI_Test\<close>. The inner loop, which
  only lets time pass, is left out. The result is the value stored in \<open>*mpiTestTime\<close>.
\<close>

function mpiDummyCompute_loop :: "int \<Rightarrow> nat list \<Rightarrow> nat \<Rightarrow> nat" where
  "mpiDummyCompute_loop numMpiTestCalls testTimes mpiTestTime =
     (let mpiTestTime' = (if numMpiTestCalls \<noteq> 0 then (mpiTestTime + (if testTimes = [] then 0 else hd testTimes)) mod 2 ^ 64 else mpiTestTime);
          testTimes' = (if numMpiTestCalls \<noteq> 0 then tl testTimes else testTimes)
      in if numMpiTestCalls - 1 > 0 then mpiDummyCompute_loop (numMpiTestCalls - 1) testTimes' mpiTestTime' else mpiTestTime')"
  by pat_completeness auto
termination by (relation "measure (\<lambda>(n, _, _). nat n)") auto

declare mpiDummyCompute_loop.simps [simp del]

definition mpiDummyCompute :: "int \<Rightarrow> nat list \<Rightarrow> nat" where
  "mpiDummyCompute numMpiTestCalls testTimes = mpiDummyCompute_loop numMpiTestCalls testTimes 0"

section \<open>Measuring\<close>

text \<open>The loop every test has: \<open>stamps\<close> are the pairs of times taken in its passes, the first \<open>warmup\<close> of them without effect.\<close>

definition measure_loop :: "nat \<Rightarrow> nat \<Rightarrow> (timespec \<times> timespec) list \<Rightarrow> nat list" where
  "measure_loop warmup iterations stamps =
     fold (\<lambda>i durations. if i \<ge> warmup then durations[i - warmup := getTimeDiffNs (fst (stamps ! i)) (snd (stamps ! i))] else durations)
       [0..<(iterations + warmup) mod 2 ^ 32] (replicate iterations 0)"

datatype mpi_op = MPI_SUM | MPI_MAX | MPI_MIN

type_synonym mpi_reduce = "mpi_op \<Rightarrow> nat list \<Rightarrow> nat"

definition accumulate :: "nat list \<Rightarrow> nat" where
  "accumulate durations = fold (\<lambda>d s. (s + d) mod 2 ^ 64) durations 0"

text \<open>Division by zero and reading the largest element of an empty vector are undefined.\<close>

definition div_u64 :: "nat \<Rightarrow> nat \<Rightarrow> nat result" where
  "div_u64 a b = (if b = 0 then Inl (Undefined_behaviour ''division by zero'') else Ok (a div b))"

definition max_element :: "nat list \<Rightarrow> nat result" where
  "max_element xs = (if xs = [] then Inl (Undefined_behaviour ''end iterator'') else Ok (Max (set xs)))"

definition min_element :: "nat list \<Rightarrow> nat result" where
  "min_element xs = (if xs = [] then Inl (Undefined_behaviour ''end iterator'') else Ok (Min (set xs)))"

text \<open>What rank 0 prints.\<close>

definition measurement_line :: "nat \<Rightarrow> string" where
  "measurement_line measurement = ''**Measurement:'' @ to_string (int measurement) @ [newline]"

section \<open>The tests\<close>

text \<open>Each test maps the stamps of all ranks to the measurement of rank 0.\<close>

definition testStartup :: "mpi_reduce \<Rightarrow> MpiStatisticsType \<Rightarrow> (timespec \<times> timespec) list \<Rightarrow> nat result" where
  "testStartup reduce statsType stamps =
     (let durations = map (\<lambda>(t0, t1). getTimeDiffNs t0 t1) stamps; nRanks = length stamps
      in case statsType of
           MST_Avg \<Rightarrow> div_u64 (reduce MPI_SUM durations) nRanks
         | MST_Max \<Rightarrow> Ok (reduce MPI_MAX durations)
         | MST_Min \<Rightarrow> Ok (reduce MPI_MIN durations)
         | MST_Unknown \<Rightarrow> Ok 0)"

definition bandwidth_batchSize :: nat where
  "bandwidth_batchSize = 100"

definition testBandwidth :: "mpi_reduce \<Rightarrow> nat \<Rightarrow> MpiStatisticsType \<Rightarrow> (timespec \<times> timespec) list list \<Rightarrow> nat result" where
  "testBandwidth reduce nBatches statsType stamps =
     (let durations = map (measure_loop 10 nBatches) stamps
      in case statsType of
           MST_Avg \<Rightarrow> bindR (mapM (\<lambda>ds. div_u64 (accumulate ds) nBatches) durations)
                        (\<lambda>durationAvg. Ok (reduce MPI_SUM durationAvg div (2 * bandwidth_batchSize)))
         | MST_Max \<Rightarrow> bindR (mapM min_element durations) (\<lambda>durationMin. Ok (reduce MPI_MIN durationMin))
         | MST_Min \<Rightarrow> bindR (mapM max_element durations) (\<lambda>durationMax. Ok (reduce MPI_MAX durationMax))
         | MST_Unknown \<Rightarrow> Ok 0)"

definition testLatency :: "mpi_reduce \<Rightarrow> MpiStatisticsType \<Rightarrow> (timespec \<times> timespec) list list \<Rightarrow> nat result" where
  "testLatency reduce statsType stamps =
     (let iterations = 200; durations = map (measure_loop 10 iterations) stamps
      in case statsType of
           MST_Avg \<Rightarrow> bindR (mapM (\<lambda>ds. div_u64 (accumulate ds) (2 * iterations)) durations)
                        (\<lambda>durationAvg. Ok (reduce MPI_SUM durationAvg div 2))
         | MST_Max \<Rightarrow> bindR (mapM (\<lambda>ds. bindR (max_element ds) (\<lambda>m. Ok (m div 2))) durations) (\<lambda>durationMax. Ok (reduce MPI_MAX durationMax))
         | MST_Min \<Rightarrow> bindR (mapM (\<lambda>ds. bindR (min_element ds) (\<lambda>m. Ok (m div 2))) durations) (\<lambda>durationMin. Ok (reduce MPI_MIN durationMin))
         | MST_Unknown \<Rightarrow> Ok 0)"

text \<open>
  \<open>testOverlap\<close> on rank 0: the stamps of the first loop, and of the second loop \<open>t0\<close>, \<open>t1\<close>, \<open>t2\<close>, \<open>t3\<close> with the durations of the
  calls of \<open>MPI_Test\<close>. Every pass overwrites \<open>mpiTestTime\<close>; its last value is used. A communication time of zero makes the
  quotient infinite or undefined, and \<open>std::max (0.0, _)\<close> is zero for both.
\<close>

record overlap_pass =
  op_t0 :: timespec
  op_t1 :: timespec
  op_t2 :: timespec
  op_t3 :: timespec
  op_tests :: "nat list"

definition testOverlap :: "int \<Rightarrow> (timespec \<times> timespec) list \<Rightarrow> overlap_pass list \<Rightarrow> nat" where
  "testOverlap numMpiTestCalls stamps passes =
     (let iterations = 200; warmup = 10;
          pureCommunicationTime = fold (\<lambda>i t. if i \<ge> warmup then (t + getTimeDiffNs (fst (stamps ! i)) (snd (stamps ! i))) mod 2 ^ 64 else t)
            [0..<iterations + warmup] 0;
          (totalTime, computeTime, mpiTestTime) = fold (\<lambda>i (totalTime, computeTime, mpiTestTime).
              let p = passes ! i; mpiTestTime' = mpiDummyCompute numMpiTestCalls (op_tests p)
              in if i \<ge> warmup
                 then ((totalTime + getTimeDiffNs (op_t0 p) (op_t3 p)) mod 2 ^ 64,
                       (computeTime + getTimeDiffNs (op_t1 p) (op_t2 p)) mod 2 ^ 64, mpiTestTime')
                 else (totalTime, computeTime, mpiTestTime'))
            [0..<iterations + warmup] (0, 0, 0);
          remaining = nat ((int totalTime - (int computeTime - int mpiTestTime)) mod 2 ^ 64)
      in if pureCommunicationTime = 0 then 0
         else nat \<lfloor>10000000 * max 0 (1 - real remaining / real pureCommunicationTime)\<rfloor>)"

text \<open>The four collective tests differ in the MPI operation they time only.\<close>

definition collective_measurement :: "mpi_reduce \<Rightarrow> nat \<Rightarrow> MpiStatisticsType \<Rightarrow> nat list list \<Rightarrow> nat result" where
  "collective_measurement reduce iterations statsType durations =
     (case statsType of
        MST_Avg \<Rightarrow> bindR (mapM (\<lambda>ds. div_u64 (accumulate ds) iterations) durations)
                     (\<lambda>durationAvg. Ok (reduce MPI_SUM durationAvg div 2))
      | MST_Max \<Rightarrow> bindR (mapM max_element durations) (\<lambda>durationMax. Ok (reduce MPI_MAX durationMax))
      | MST_Min \<Rightarrow> bindR (mapM min_element durations) (\<lambda>durationMin. Ok (reduce MPI_MIN durationMin))
      | MST_Unknown \<Rightarrow> Ok 0)"

definition testBroadcast :: "mpi_reduce \<Rightarrow> MpiStatisticsType \<Rightarrow> (timespec \<times> timespec) list list \<Rightarrow> nat result" where
  "testBroadcast reduce statsType stamps = collective_measurement reduce 50 statsType (map (measure_loop 5 50) stamps)"

definition testReduce :: "mpi_reduce \<Rightarrow> MpiStatisticsType \<Rightarrow> (timespec \<times> timespec) list list \<Rightarrow> nat result" where
  "testReduce reduce statsType stamps = collective_measurement reduce 50 statsType (map (measure_loop 5 50) stamps)"

definition testAllReduce :: "mpi_reduce \<Rightarrow> MpiStatisticsType \<Rightarrow> (timespec \<times> timespec) list list \<Rightarrow> nat result" where
  "testAllReduce reduce statsType stamps = collective_measurement reduce 50 statsType (map (measure_loop 5 50) stamps)"

definition testAllToAll :: "mpi_reduce \<Rightarrow> MpiStatisticsType \<Rightarrow> (timespec \<times> timespec) list list \<Rightarrow> nat result" where
  "testAllToAll reduce statsType stamps = collective_measurement reduce 50 statsType (map (measure_loop 5 50) stamps)"

text \<open>
  \<open>run\<close>: what a rank sees of the other ranks, the clock and the file system is the record \<open>mpi_world\<close>. Rank 0 prints the
  measurement on its standard output.
\<close>

record mpi_world =
  mw_rank :: nat
  mw_spirv :: string
  mw_startup :: "(timespec \<times> timespec) list"
  mw_stamps :: "(timespec \<times> timespec) list list"
  mw_overlap :: "(timespec \<times> timespec) list"
  mw_passes :: "overlap_pass list"

fun MpiTestType_of :: "int \<Rightarrow> MpiTestType" where
  "MpiTestType_of n =
     (if n = 1 then MTT_Startup else if n = 2 then MTT_Bandwidth else if n = 3 then MTT_Latency else if n = 4 then MTT_Overlap
      else if n = 5 then MTT_Broadcast else if n = 6 then MTT_Reduce else if n = 7 then MTT_AllReduce
      else if n = 8 then MTT_AllToAll else MTT_Unknown)"

fun MpiStatisticsType_of :: "int \<Rightarrow> MpiStatisticsType" where
  "MpiStatisticsType_of n = (if n = 1 then MST_Avg else if n = 2 then MST_Max else if n = 3 then MST_Min else MST_Unknown)"

definition print_measurement :: "mpi_world \<Rightarrow> WorkloadIo \<Rightarrow> nat \<Rightarrow> WorkloadIo" where
  "print_measurement w io m = (if mw_rank w = 0 then io\<lparr>stdout := stdout io @ measurement_line m\<rparr> else io)"

definition mpi_test :: "mpi_reduce \<Rightarrow> mpi_world \<Rightarrow> ArgumentContainer \<Rightarrow> (TestResult \<times> nat) result" where
  "mpi_test reduce w arguments =
     (let testType = MpiTestType_of (wrap_i32 (arg_int arguments ''testType''));
          statsType = MpiStatisticsType_of (wrap_i32 (arg_int arguments ''statsType''));
          measured = (\<lambda>r. bindR r (\<lambda>m. Ok (Success, m)))
      in case testType of
           MTT_Startup \<Rightarrow> measured (testStartup reduce statsType (mw_startup w))
         | MTT_Bandwidth \<Rightarrow> measured (testBandwidth reduce (nat (arg_int arguments ''testArg3'' mod 2 ^ 32)) statsType (mw_stamps w))
         | MTT_Latency \<Rightarrow> measured (testLatency reduce statsType (mw_stamps w))
         | MTT_Overlap \<Rightarrow>
             (if arg_int arguments ''testArg3'' \<noteq> 0 \<and> mw_rank w = 0 \<and> mw_spirv w = [] then Ok (KernelNotFound, 0)
              else measured (Ok (testOverlap (wrap_i32 (arg_int arguments ''testArg4'')) (mw_overlap w) (mw_passes w))))
         | MTT_Broadcast \<Rightarrow> measured (testBroadcast reduce statsType (mw_stamps w))
         | MTT_Reduce \<Rightarrow> measured (testReduce reduce statsType (mw_stamps w))
         | MTT_AllReduce \<Rightarrow> measured (testAllReduce reduce statsType (mw_stamps w))
         | MTT_AllToAll \<Rightarrow> measured (testAllToAll reduce statsType (mw_stamps w))
         | MTT_Unknown \<Rightarrow> Ok (NoImplementation, 0))"

definition mpi_run :: "mpi_reduce \<Rightarrow> mpi_world \<Rightarrow> WorkloadImplementation" where
  "mpi_run reduce w arguments stats sync io =
     bindR (foldM WorkloadStatistics_push stats
              (replicate (nat (arg_int arguments ''iterations'')) (pushTime 0 MU_Unknown MT_Unknown []))) (\<lambda>stats'.
     bindR (mpi_test reduce w arguments) (\<lambda>(result, m).
       Ok (result, stats', sync, if result = Success then print_measurement w io m else io)))"

section \<open>Reading the measurement\<close>

text \<open>\<open>fgets\<close> with a buffer of 512 characters: at most 511 characters, up to and including the first line end.\<close>

definition fgets_length :: "string \<Rightarrow> nat" where
  "fgets_length s = min 511 (min (length s) (length (takeWhile (\<lambda>c. c \<noteq> newline) s) + 1))"

function fgets_lines :: "string \<Rightarrow> string list" where
  "fgets_lines s = (if s = [] then [] else take (fgets_length s) s # fgets_lines (drop (fgets_length s) s))"
  by pat_completeness auto
termination by (relation "measure length") (auto simp: fgets_length_def)

declare fgets_lines.simps [simp del]

text \<open>\<open>std::stoull\<close>: a minus sign negates the value in 64 bits.\<close>

definition stoull :: "string \<Rightarrow> nat result" where
  "stoull s =
     (let body = dropWhile isspace s;
          digits = (if body \<noteq> [] \<and> hd body \<in> {CHR ''-'', CHR ''+''} then tl body else body)
      in if digits = [] \<or> \<not> isdigit (hd digits) then Inl Invalid_argument
         else let v = parse_digits 0 digits
              in if v \<ge> 2 ^ 64 then Inl Out_of_range
                 else if hd body = CHR ''-'' then Ok (nat ((- int v) mod 2 ^ 64)) else Ok v)"

text \<open>The text behind the last character that occurs in the tag.\<close>

definition after_tag :: "string \<Rightarrow> string" where
  "after_tag line = rev (takeWhile (\<lambda>c. c \<notin> set ''**Measurement:'') (rev line))"

definition find_measurement :: "string list \<Rightarrow> nat option result" where
  "find_measurement output =
     (case find (\<lambda>line. starts_with line ''**Measurement:'') output of
        None \<Rightarrow> Ok None
      | Some line \<Rightarrow> bindR (stoull (after_tag line)) (\<lambda>m. Ok (Some m)))"

text \<open>
  The loop of \<open>runLauncher\<close> over the outputs of the launched commands, one per iteration. A number that is read becomes the
  signed 64-bit count of \<open>std::chrono::nanoseconds\<close>.
\<close>

fun runLauncher_loop :: "string list \<Rightarrow> int list \<Rightarrow> int list result" where
  "runLauncher_loop [] measurements = Ok measurements"
| "runLauncher_loop (output # outputs) measurements =
     bindR (find_measurement (fgets_lines output)) (\<lambda>found.
       case found of
         None \<Rightarrow> Ok measurements
       | Some m \<Rightarrow> runLauncher_loop outputs (measurements @ [wrap_i64 (int m)]))"

text \<open>The directory of the executable with its last slash, and the command with its ranks, program and arguments.\<close>

definition workingDir :: "string \<Rightarrow> string" where
  "workingDir exeFile = rev (dropWhile (\<lambda>c. c \<noteq> CHR ''/'') (rev exeFile))"

definition mpiCommand :: "string \<Rightarrow> string \<Rightarrow> int \<Rightarrow> string \<Rightarrow> string \<Rightarrow> string" where
  "mpiCommand exeFile launcher nRanks binary args =
     launcher @ '' -n '' @ to_string nRanks @ '' '' @ workingDir exeFile @ binary @ '' '' @ args"

text \<open>\<open>popen\<close> is a parameter: the output of a command in the given iteration.\<close>

definition runLauncher ::
  "(string \<Rightarrow> nat \<Rightarrow> string) \<Rightarrow> string \<Rightarrow> string \<Rightarrow> int \<Rightarrow> string \<Rightarrow> string \<Rightarrow> int \<Rightarrow> int list result" where
  "runLauncher popen exeFile launcher nRanks binary args nIters =
     runLauncher_loop (map (popen (mpiCommand exeFile launcher nRanks binary args)) [0..<nat nIters]) []"

section \<open>Lemmas\<close>

definition MPI_Reduce_ok :: "mpi_reduce \<Rightarrow> bool" where
  "MPI_Reduce_ok reduce \<longleftrightarrow> (\<forall>vs. vs \<noteq> [] \<longrightarrow>
     reduce MPI_SUM vs = sum_list vs mod 2 ^ 64 \<and> reduce MPI_MAX vs = Max (set vs) \<and> reduce MPI_MIN vs = Min (set vs))"

definition standard_reduce :: mpi_reduce where
  "standard_reduce op vs = (case op of MPI_SUM \<Rightarrow> sum_list vs mod 2 ^ 64 | MPI_MAX \<Rightarrow> Max (set vs) | MPI_MIN \<Rightarrow> Min (set vs))"

lemma standard_reduce_ok: "MPI_Reduce_ok standard_reduce"
  by (simp add: MPI_Reduce_ok_def standard_reduce_def)

text \<open>A buffer is released by the allocator it came from; a block of the system is aligned and barely larger than asked for.\<close>

lemma memFree_matches: "memFree type = System_free \<longleftrightarrow> (\<exists>a s. memAlloc type sz alignment = System_alloc a s)"
  by (simp add: memFree_def memAlloc_def)

lemma memAlloc_aligned:
  assumes "memAlloc type sz alignment = System_alloc a s" "0 < alignment"
  shows "a = alignment" "alignment dvd s" "sz \<le> s" "s < sz + alignment"
proof -
  have d: "sz = sz div alignment * alignment + sz mod alignment" "sz mod alignment < alignment" using assms(2) by simp_all
  have s: "s = (if sz mod alignment = 0 then sz else (sz div alignment + 1) * alignment)" and "a = alignment"
    using assms(1) by (auto simp: memAlloc_def split: if_splits)
  show "a = alignment" by fact
  show "alignment dvd s" unfolding s by auto
  show "sz \<le> s" "s < sz + alignment" unfolding s using d by (simp_all, linarith+)
qed

text \<open>A time in nanoseconds; the difference is exact for times that are less than \<open>2 ^ 64\<close> nanoseconds apart.\<close>

definition nanoseconds :: "timespec \<Rightarrow> int" where
  "nanoseconds t = fst t * 1000000000 + snd t"

lemma getTimeDiffNs_exact:
  assumes "nanoseconds t0 \<le> nanoseconds t1" "nanoseconds t1 - nanoseconds t0 < 2 ^ 64"
  shows "int (getTimeDiffNs t0 t1) = nanoseconds t1 - nanoseconds t0"
proof -
  have "(fst t1 - fst t0) * 1000000000 + (snd t1 - snd t0) = nanoseconds t1 - nanoseconds t0"
    by (simp add: nanoseconds_def algebra_simps)
  then show ?thesis using assms by (simp add: getTimeDiffNs_def)
qed

text \<open>The loop stores the durations of the passes after the warm-up, in order.\<close>

lemma measure_loop_result:
  assumes "length stamps = iterations + warmup" "iterations + warmup < 2 ^ 32"
  shows "measure_loop warmup iterations stamps = map (\<lambda>(t0, t1). getTimeDiffNs t0 t1) (drop warmup stamps)"
proof -
  let ?d = "\<lambda>i. getTimeDiffNs (fst (stamps ! i)) (snd (stamps ! i))"
  let ?f = "\<lambda>i durations. if i \<ge> warmup then durations[i - warmup := ?d i] else durations"
  have "fold ?f [0..<k] (replicate iterations 0) =
      map (\<lambda>j. ?d (j + warmup)) [0..<k - warmup] @ replicate (iterations - (k - warmup)) 0" if "k \<le> iterations + warmup" for k
    using that
  proof (induction k)
    case (Suc k)
    show ?case
    proof (cases "warmup \<le> k")
      case True
      then have "iterations - (k - warmup) = Suc (iterations - (Suc k - warmup))" "Suc k - warmup = Suc (k - warmup)" using Suc.prems by simp_all
      with True Suc show ?thesis by (simp add: list_update_append)
    qed (use Suc in simp)
  qed simp
  from this [of "iterations + warmup"] have "measure_loop warmup iterations stamps = map (\<lambda>j. ?d (j + warmup)) [0..<iterations]"
    using assms(2) by (simp add: measure_loop_def)
  also have "\<dots> = map (\<lambda>(t0, t1). getTimeDiffNs t0 t1) (drop warmup stamps)"
    using assms by (intro nth_equalityI) (simp_all add: case_prod_unfold add.commute)
  finally show ?thesis .
qed

lemma accumulate_sum: "sum_list ds < 2 ^ 64 \<Longrightarrow> accumulate ds = sum_list ds"
proof -
  have "fold (\<lambda>d s. (s + d) mod 2 ^ 64) ds a = (a + sum_list ds) mod 2 ^ 64" if "a < 2 ^ 64" for a
    using that by (induction ds arbitrary: a) (simp_all add: mod_simps add.assoc)
  from this [of 0] show "sum_list ds < 2 ^ 64 \<Longrightarrow> accumulate ds = sum_list ds" by (simp add: accumulate_def)
qed

lemma mapM_Ok: "(\<And>x. x \<in> set xs \<Longrightarrow> f x = Ok (g x)) \<Longrightarrow> mapM f xs = Ok (map g xs)"
  by (induction xs) simp_all

lemma average_between:
  assumes "ds \<noteq> []" "\<forall>d \<in> set ds. lo \<le> d \<and> d \<le> hi"
  shows "lo \<le> sum_list ds div length ds" "sum_list ds div length ds \<le> hi"
proof -
  have "length ds * lo \<le> sum_list ds" "sum_list ds \<le> length ds * hi"
    using assms(2) by (induction ds) auto
  then show "lo \<le> sum_list ds div length ds" "sum_list ds div length ds \<le> hi"
    using assms(1) by (simp_all add: less_eq_div_iff_mult_less_eq mult.commute div_le_mono [of _ "length ds * hi", THEN order_trans])
qed

lemma Max_of_Max:
  fixes xss :: "nat list list"
  assumes "xss \<noteq> []" "\<forall>xs \<in> set xss. xs \<noteq> []"
  shows "Max (set (map (\<lambda>xs. Max (set xs)) xss)) = Max (set (concat xss))"
    "Min (set (map (\<lambda>xs. Min (set xs)) xss)) = Min (set (concat xss))"
proof -
  have c: "concat xss \<noteq> []" using assms by (cases xss) auto
  have "Max (set (concat xss)) \<in> set (concat xss)" "Min (set (concat xss)) \<in> set (concat xss)" using c by (metis List.finite_set Max_in set_empty, metis List.finite_set Min_in set_empty)
  then obtain xs ys where "xs \<in> set xss" "Max (set (concat xss)) \<in> set xs" "ys \<in> set xss" "Min (set (concat xss)) \<in> set ys" by auto
  moreover have "Max (set zs) \<le> Max (set (concat xss))" "Min (set (concat xss)) \<le> Min (set zs)" if "zs \<in> set xss" for zs
    using that assms(2) by (intro Max_mono Min_antimono; auto)+
  ultimately show "Max (set (map (\<lambda>xs. Max (set xs)) xss)) = Max (set (concat xss))"
    "Min (set (map (\<lambda>xs. Min (set xs)) xss)) = Min (set (concat xss))"
    by (intro Max_eqI Min_eqI; force intro: order_antisym)+
qed

text \<open>What the collective tests compute.\<close>

definition sane_durations :: "nat \<Rightarrow> nat list list \<Rightarrow> bool" where
  "sane_durations iterations durations \<longleftrightarrow> 0 < iterations \<and> iterations < 2 ^ 10 \<and> durations \<noteq> [] \<and> length durations < 2 ^ 10 \<and>
     (\<forall>ds \<in> set durations. length ds = iterations \<and> (\<forall>d \<in> set ds. d < 2 ^ 40))"

lemma sum_list_less: "\<forall>d \<in> set ds. d < B \<Longrightarrow> ds \<noteq> [] \<Longrightarrow> sum_list ds < length ds * B" for B :: nat
proof (induction ds)
  case (Cons d ds)
  then show ?case by (cases "ds = []") (auto intro: add_less_le_mono less_imp_le add_strict_mono)
qed simp

lemma collective_values:
  assumes "MPI_Reduce_ok reduce" "sane_durations iterations durations"
  shows "collective_measurement reduce iterations MST_Min durations = Ok (Min (set (concat durations)))"
    "collective_measurement reduce iterations MST_Max durations = Ok (Max (set (concat durations)))"
    "collective_measurement reduce iterations MST_Avg durations = Ok (sum_list (map (\<lambda>ds. sum_list ds div iterations) durations) div 2)"
proof -
  have it: "0 < iterations" "iterations < 2 ^ 10" "durations \<noteq> []" "length durations < 2 ^ 10" using assms(2) by (simp_all add: sane_durations_def)
  have l: "length ds = iterations" "ds \<noteq> []" "\<forall>d \<in> set ds. d < 2 ^ 40" if "ds \<in> set durations" for ds
    using assms(2) that it(1) by (auto simp: sane_durations_def)
  have s: "sum_list ds < iterations * 2 ^ 40" if "ds \<in> set durations" for ds
    using sum_list_less [OF l(3,2) [OF that]] l(1) [OF that] by simp
  have "iterations * 2 ^ 40 < 2 ^ 64" using it(2) by simp
  then have a: "div_u64 (accumulate ds) iterations = Ok (sum_list ds div iterations)" if "ds \<in> set durations" for ds
    using accumulate_sum [of ds] s [OF that] it(1) by (simp add: div_u64_def)
  have "sum_list ds div iterations < 2 ^ 40" if "ds \<in> set durations" for ds
    using s [OF that] by (simp add: less_mult_imp_div_less mult.commute)
  then have "sum_list (map (\<lambda>ds. sum_list ds div iterations) durations) < length durations * 2 ^ 40"
    using sum_list_less [of "map (\<lambda>ds. sum_list ds div iterations) durations" "2 ^ 40"] it(3) by simp
  then have "sum_list (map (\<lambda>ds. sum_list ds div iterations) durations) < 2 ^ 64" using it(4) by simp
  then show "collective_measurement reduce iterations MST_Avg durations = Ok (sum_list (map (\<lambda>ds. sum_list ds div iterations) durations) div 2)"
    using assms(1) it(3) mapM_Ok [of durations "\<lambda>ds. div_u64 (accumulate ds) iterations", OF a]
    by (simp add: collective_measurement_def MPI_Reduce_ok_def)
  have m: "max_element ds = Ok (Max (set ds))" "min_element ds = Ok (Min (set ds))" if "ds \<in> set durations" for ds
    using l(2) [OF that] by (simp_all add: max_element_def min_element_def)
  show "collective_measurement reduce iterations MST_Max durations = Ok (Max (set (concat durations)))"
    "collective_measurement reduce iterations MST_Min durations = Ok (Min (set (concat durations)))"
    using assms(1) it(3) mapM_Ok [of durations max_element, OF m(1)] mapM_Ok [of durations min_element, OF m(2)]
      Max_of_Max [OF it(3)] l(2) by (simp_all add: collective_measurement_def MPI_Reduce_ok_def del: set_map set_concat)
qed

section \<open>Properties\<close>

lemma sum_between:
  assumes "\<forall>x \<in> set xs. lo \<le> f x \<and> f x \<le> (hi :: nat)"
  shows "length xs * lo \<le> sum_list (map f xs)" "sum_list (map f xs) \<le> length xs * hi"
  using assms by (induction xs) auto

text \<open>
  The minimum and the maximum of a collective MPI test are those of all durations of all ranks, but its average is right
  for two ranks only: it is half of the sum over the ranks of their averages, so it lies between minimum and
  maximum for two ranks and is about \<open>n / 2\<close> times too large for \<open>n\<close> ranks.
\<close>

lemma collective_average_assumes_two_ranks:
  assumes "MPI_Reduce_ok reduce" "sane_durations iterations durations"
  shows "\<exists>mn av mx. collective_measurement reduce iterations MST_Min durations = Ok mn \<and>
    collective_measurement reduce iterations MST_Avg durations = Ok av \<and>
    collective_measurement reduce iterations MST_Max durations = Ok mx \<and>
    mn = Min (set (concat durations)) \<and> mx = Max (set (concat durations)) \<and>
    length durations * mn \<le> 2 * av + 1 \<and> 2 * av \<le> length durations * mx"
proof -
  let ?mn = "Min (set (concat durations))" and ?mx = "Max (set (concat durations))"
    and ?s = "sum_list (map (\<lambda>ds. sum_list ds div iterations) durations)"
  have "?mn \<le> sum_list ds div iterations \<and> sum_list ds div iterations \<le> ?mx" if "ds \<in> set durations" for ds
  proof -
    have "length ds = iterations" "ds \<noteq> []" using assms(2) that by (auto simp: sane_durations_def)
    moreover have "set ds \<subseteq> set (concat durations)" using that by auto
    then have "\<forall>d \<in> set ds. ?mn \<le> d \<and> d \<le> ?mx" by (meson List.finite_set Max_ge Min_le subsetD)
    ultimately show ?thesis using average_between [of ds ?mn ?mx] by simp
  qed
  then have "length durations * ?mn \<le> ?s" "?s \<le> length durations * ?mx"
    using sum_between [of durations ?mn "\<lambda>ds. sum_list ds div iterations" ?mx] by simp_all
  moreover have "2 * (?s div 2) \<le> ?s" "?s \<le> 2 * (?s div 2) + 1" by linarith+
  ultimately have "length durations * ?mn \<le> 2 * (?s div 2) + 1" "2 * (?s div 2) \<le> length durations * ?mx" by linarith+
  then show ?thesis unfolding collective_values [OF assms] by blast
qed

lemma after_tag_line: "after_tag (measurement_line m) = to_string (int m) @ [newline]"
proof -
  have d: "c \<notin> set ''**Measurement:''" if "c \<in> set (rev (to_string (int m) @ [newline]))" for c
    using that to_string_chars [of c "int m"] by (auto simp: isdigit_def)
  have "takeWhile (\<lambda>c. c \<notin> set ''**Measurement:'') (rev (to_string (int m) @ [newline]) @ CHR '':'' # rev ''**Measurement'') =
      rev (to_string (int m) @ [newline])"
    using d by (subst takeWhile_append2) auto
  then show ?thesis by (simp add: after_tag_def measurement_line_def)
qed

lemma stoull_to_string:
  assumes "m < 2 ^ 64"
  shows "stoull (to_string (int m) @ [newline]) = Ok m"
proof -
  obtain c cs where c: "dec_digits m = c # cs" "isdigit c" by (rule dec_digits_Cons)
  have n: "\<not> isdigit newline" by (simp add: isdigit_def)
  have "parse_digits 0 (dec_digits m @ [newline]) = m" using n by (simp add: strings)
  moreover have "\<not> isspace c" "c \<noteq> CHR ''-''" "c \<noteq> CHR ''+''" using c(2) isdigit_not_space by (auto simp: isdigit_def)
  ultimately show ?thesis using assms c by (simp add: stoull_def to_string_def Let_def)
qed

lemma fgets_lines_line:
  assumes "newline \<notin> set l" "length l < 511"
  shows "fgets_lines (l @ newline # rest) = (l @ [newline]) # fgets_lines rest"
proof -
  have "takeWhile (\<lambda>c. c \<noteq> newline) (l @ newline # rest) = l" using assms(1) by (subst takeWhile_append2) auto
  then have "fgets_length (l @ newline # rest) = Suc (length l)" using assms(2) by (simp add: fgets_length_def)
  then show ?thesis by (subst fgets_lines.simps) simp
qed

lemma dec_digits_length: "n < 10 ^ k \<Longrightarrow> 0 < k \<Longrightarrow> length (dec_digits n) \<le> k"
proof (induction k arbitrary: n)
  case (Suc k)
  show ?case
  proof (cases "n < 10")
    case False
    then have "0 < k" using Suc.prems(1) by (cases k) auto
    moreover have "n div 10 < 10 ^ k" using Suc.prems(1) by (simp add: less_mult_imp_div_less mult.commute)
    ultimately show ?thesis using Suc.IH [of "n div 10"] False by (subst dec_digits.simps) simp
  qed (subst dec_digits.simps, simp)
qed simp

definition launched_output :: "string list \<times> nat \<times> string \<Rightarrow> string" where
  "launched_output r = (case r of (pre, m, rest) \<Rightarrow> concat (map (\<lambda>l. l @ [newline]) pre) @ measurement_line m @ rest)"

lemma find_measurement_output:
  assumes "\<forall>l \<in> set pre. newline \<notin> set l \<and> length l < 511 \<and> \<not> starts_with (l @ [newline]) ''**Measurement:''" "m < 2 ^ 64"
  shows "find_measurement (fgets_lines (launched_output (pre, m, rest))) = Ok (Some m)"
  using assms(1)
proof (induction pre)
  case Nil
  have "newline \<notin> set (to_string (int m))" using to_string_not_space [of newline "int m"] by (auto simp: isspace_def)
  moreover have "length (to_string (int m)) \<le> 20" using dec_digits_length [of m 20] assms(2) by (simp add: to_string_def)
  ultimately have "fgets_lines (measurement_line m @ rest) = measurement_line m # fgets_lines rest"
    using fgets_lines_line [of "''**Measurement:'' @ to_string (int m)" rest] by (simp add: measurement_line_def)
  moreover have "starts_with (measurement_line m) ''**Measurement:''" by (simp add: measurement_line_def)
  ultimately show ?case
    using stoull_to_string [OF assms(2)] by (simp add: find_measurement_def launched_output_def after_tag_line)
next
  case (Cons l pre)
  have "fgets_lines (launched_output (l # pre, m, rest)) = (l @ [newline]) # fgets_lines (launched_output (pre, m, rest))"
    using Cons.prems fgets_lines_line [of l] by (simp add: launched_output_def)
  with Cons show ?case by (simp add: find_measurement_def)
qed

lemma runLauncher_loop_reads:
  assumes "\<forall>(pre, m, rest) \<in> set runs. m < 2 ^ 64 \<and>
    (\<forall>l \<in> set pre. newline \<notin> set l \<and> length l < 511 \<and> \<not> starts_with (l @ [newline]) ''**Measurement:'')"
  shows "runLauncher_loop (map launched_output runs) ms = Ok (ms @ map (\<lambda>(pre, m, rest). wrap_i64 (int m)) runs)"
  using assms
proof (induction runs arbitrary: ms)
  case (Cons r runs)
  obtain pre m rest where r: "r = (pre, m, rest)" by (metis prod.exhaust)
  with Cons show ?case by (simp add: find_measurement_output)
qed simp

text \<open>
  C35: The measurements rank 0 prints are the ones \<open>runLauncher\<close> returns, in order and complete, whatever else the launched programs
  print: lines before the measurement that do not begin with its tag and anything behind it. Each is the signed 64-bit count of a
  duration.
\<close>

theorem mpi_measurement_roundtrip:
  assumes "\<forall>(pre, m, rest) \<in> set runs. m < 2 ^ 64 \<and>
    (\<forall>l \<in> set pre. newline \<notin> set l \<and> length l < 511 \<and> \<not> starts_with (l @ [newline]) ''**Measurement:'')"
    and "nIters = int (length runs)"
    and "\<forall>i < length runs. popen (mpiCommand exeFile launcher nRanks binary args) i = launched_output (runs ! i)"
  shows "runLauncher popen exeFile launcher nRanks binary args nIters = Ok (map (\<lambda>(pre, m, rest). wrap_i64 (int m)) runs)"
proof -
  have "map (popen (mpiCommand exeFile launcher nRanks binary args)) [0..<nat nIters] = map launched_output runs"
    using assms(2,3) by (intro nth_equalityI) simp_all
  then show ?thesis using runLauncher_loop_reads [OF assms(1), of "[]"] by (simp add: runLauncher_def)
qed

theorem mpi_measurement_roundtrip_witness:
  "runLauncher (\<lambda>command i. launched_output ([''mpi starts''], 1234, ''bye'')) ''/b/mpi'' ''mpirun'' 2 ''w'' ''--testType=1'' 1 = Ok [1234]"
  using mpi_measurement_roundtrip [of "[([''mpi starts''], 1234, ''bye'')]" 1] by (simp add: wrap_i64_def)

end
