(* ===== verification/Mpi_Benchmark.thy ===== *)
theory Mpi_Benchmark
  imports Mpi_Workload Dump_Command_Line
begin

text \<open>
  The tests of the MPI benchmark, \<open>benchmarks/mpi_benchmark\<close>: the argument containers of \<open>definitions\<close> and the functions
  \<open>run\<close> of \<open>implementations/l0\<close>. A test writes the command line of the workload, launches it under MPI once per iteration,
  collects what rank 0 prints and pushes it to the statistics. \<open>popen\<close>, which runs a command, is a parameter.

  The command line is followed to the argument container of the workload, so that the values a test asks for are
  the ones the workload works with.
\<close>

section \<open>Arguments of the tests\<close>

definition container_of :: "(string \<times> string \<times> arg_value) list \<Rightarrow> (string \<times> arg_value) list \<Rightarrow> ArgumentContainer" where
  "container_of members assignments = foldl assign_field (map (\<lambda>(k, h, v). make_Argument k (Some h) v) members) assignments"

abbreviation launcher_help :: string where
  "launcher_help \<equiv> ''MPI launcher (e.g. mpirun --hostfile /path/to/hosts''"

abbreviation stats_help :: string where
  "stats_help \<equiv> ''MPI statistics type (Avg/Max/Min)''"

abbreviation placement :: "UsmMemoryPlacement \<Rightarrow> arg_value" where
  "placement p \<equiv> Arg_Enum (E_UsmMemoryPlacement p)"

abbreviation stats_arg :: "MpiStatisticsType \<Rightarrow> arg_value" where
  "stats_arg t \<equiv> Arg_Enum (E_MpiStatisticsType t)"

definition MpiStartupArguments :: ArgumentContainer where
  "MpiStartupArguments = container_of
     [(''mpiLauncher'', launcher_help, Arg_String [] False), (''statsType'', stats_help, stats_arg MST_Unknown),
      (''numberOfRanks'', ''Total number of MPI ranks'', Arg_PositiveInteger 0),
      (''initMpiFirst'', ''Initialize MPI before L0'', Arg_Boolean 0),
      (''initFlag'', ''Initialization flag. For Level Zero: 0 - default, 1 - ZE_INIT_FLAG_GPU_ONLY, 2 - ZE_INIT_FLAG_VPU_ONLY'', Arg_Integer 0)]
     [(''mpiLauncher'', Arg_String ''mpirun'' True), (''statsType'', stats_arg MST_Avg), (''numberOfRanks'', Arg_PositiveInteger 1),
      (''initMpiFirst'', Arg_Boolean 1), (''initFlag'', Arg_Integer 0)]"

definition MpiBandwidthArguments :: ArgumentContainer where
  "MpiBandwidthArguments = container_of
     [(''mpiLauncher'', launcher_help, Arg_String [] False), (''statsType'', stats_help, stats_arg MST_Unknown),
      (''messageSize'', ''Size of the messages'', Arg_PositiveInteger 0),
      (''sendType'', ''Memory type of the MPI_Send buffer'', placement UMP_Unknown),
      (''recvType'', ''Memory type of the MPI_Recv buffer'', placement UMP_Unknown),
      (''nBatches'', ''Number of message batches to transfer'', Arg_PositiveInteger 0)]
     [(''mpiLauncher'', Arg_String ''mpirun'' True), (''statsType'', stats_arg MST_Avg), (''messageSize'', Arg_PositiveInteger 1),
      (''sendType'', placement UMP_Host), (''recvType'', placement UMP_Host), (''nBatches'', Arg_PositiveInteger 200)]"

definition MpiLatencyArguments :: ArgumentContainer where
  "MpiLatencyArguments = container_of
     [(''mpiLauncher'', launcher_help, Arg_String [] False), (''statsType'', stats_help, stats_arg MST_Unknown),
      (''messageSize'', ''Size of the messages'', Arg_PositiveInteger 0),
      (''sendType'', ''Memory type of the MPI_Send buffer'', placement UMP_Unknown),
      (''recvType'', ''Memory type of the MPI_Recv buffer'', placement UMP_Unknown)]
     [(''mpiLauncher'', Arg_String ''mpirun'' True), (''statsType'', stats_arg MST_Avg), (''messageSize'', Arg_PositiveInteger 1),
      (''sendType'', placement UMP_Host), (''recvType'', placement UMP_Host)]"

definition MpiOverlapArguments :: ArgumentContainer where
  "MpiOverlapArguments = container_of
     [(''mpiLauncher'', launcher_help, Arg_String [] False),
      (''messageSize'', ''Size of the messages'', Arg_PositiveInteger 0),
      (''sendType'', ''Memory type of the MPI_Send buffer'', placement UMP_Unknown),
      (''recvType'', ''Memory type of the MPI_Recv buffer'', placement UMP_Unknown),
      (''gpuCompute'', ''Whether we do computation on the GPU or not'', Arg_Boolean 0),
      (''numMpiTestCalls'', ''Number of MPI_Test calls during computation'', Arg_Integer 0)]
     [(''mpiLauncher'', Arg_String ''mpirun'' True), (''messageSize'', Arg_PositiveInteger 1),
      (''sendType'', placement UMP_Host), (''recvType'', placement UMP_Host),
      (''gpuCompute'', Arg_Boolean 0), (''numMpiTestCalls'', Arg_Integer 0)]"

definition MpiBroadcastArguments :: ArgumentContainer where
  "MpiBroadcastArguments = container_of
     [(''mpiLauncher'', launcher_help, Arg_String [] False), (''statsType'', stats_help, stats_arg MST_Unknown),
      (''numberOfRanks'', ''Total number of MPI ranks'', Arg_PositiveInteger 0),
      (''messageSize'', ''Size of the messages'', Arg_PositiveInteger 0),
      (''recvType'', ''Memory type of the MPI_Bcast buffer'', placement UMP_Unknown)]
     [(''mpiLauncher'', Arg_String ''mpirun'' True), (''statsType'', stats_arg MST_Avg), (''numberOfRanks'', Arg_PositiveInteger 1),
      (''messageSize'', Arg_PositiveInteger 1), (''recvType'', placement UMP_Host)]"

text \<open>The containers of the reductions and of the all-to-all exchange differ in the name of the MPI function in their help.\<close>

definition MpiReductionArguments :: "string \<Rightarrow> ArgumentContainer" where
  "MpiReductionArguments f = container_of
     [(''mpiLauncher'', launcher_help, Arg_String [] False), (''statsType'', stats_help, stats_arg MST_Unknown),
      (''numberOfRanks'', ''Total number of MPI ranks'', Arg_PositiveInteger 0),
      (''messageSize'', ''Size of the messages'', Arg_PositiveInteger 0),
      (''sendType'', ''Memory type of the '' @ f @ '' send buffer'', placement UMP_Unknown),
      (''recvType'', ''Memory type of the '' @ f @ '' recv buffer'', placement UMP_Unknown)]
     [(''mpiLauncher'', Arg_String ''mpirun'' True), (''statsType'', stats_arg MST_Avg), (''numberOfRanks'', Arg_PositiveInteger 1),
      (''messageSize'', Arg_PositiveInteger 1), (''sendType'', placement UMP_Host), (''recvType'', placement UMP_Host)]"

definition MpiReduceArguments :: ArgumentContainer where
  "MpiReduceArguments = MpiReductionArguments ''MPI_Reduce''"

definition MpiAllReduceArguments :: ArgumentContainer where
  "MpiAllReduceArguments = MpiReductionArguments ''MPI_Allreduce''"

definition MpiAllToAllArguments :: ArgumentContainer where
  "MpiAllToAllArguments = MpiReductionArguments ''MPI_Alltoall''"

section \<open>The command line of the workload\<close>

fun UsmMemoryPlacement_code :: "UsmMemoryPlacement \<Rightarrow> int" where
  "UsmMemoryPlacement_code UMP_Unknown = 0"
| "UsmMemoryPlacement_code UMP_Host = 1"
| "UsmMemoryPlacement_code UMP_Device = 2"
| "UsmMemoryPlacement_code UMP_Shared = 3"
| "UsmMemoryPlacement_code UMP_NonUsm = 4"
| "UsmMemoryPlacement_code UMP_NonUsmImported = 5"
| "UsmMemoryPlacement_code UMP_NonUsmMapped = 6"
| "UsmMemoryPlacement_code UMP_NonUsm2MBAligned = 7"
| "UsmMemoryPlacement_code UMP_NonUsmImported2MBAligned = 8"

definition arg_placement :: "ArgumentContainer \<Rightarrow> string \<Rightarrow> int" where
  "arg_placement args k =
     (case find (\<lambda>a. key a = k) args of
        Some a \<Rightarrow> (case val a of Arg_Enum (E_UsmMemoryPlacement p) \<Rightarrow> UsmMemoryPlacement_code p | _ \<Rightarrow> 0)
      | None \<Rightarrow> 0)"

definition arg_string :: "ArgumentContainer \<Rightarrow> string \<Rightarrow> string" where
  "arg_string args k = cfg_string \<lparr>cfg_args = args, printType = PT_Default\<rparr> k"

text \<open>The keys and values each test writes into its stream, and the text of the stream.\<close>

definition workload_args :: "(string \<times> int) list \<Rightarrow> string" where
  "workload_args kvs = joinStrings '' '' kvs (\<lambda>(k, n). ''--'' @ k @ ''='' @ to_string n)"

definition Startup_workloadArgs :: "ArgumentContainer \<Rightarrow> (string \<times> int) list" where
  "Startup_workloadArgs args =
     [(''testType'', 1), (''testArg0'', arg_int args ''initMpiFirst''), (''testArg1'', arg_int args ''initFlag'')]"

definition Bandwidth_workloadArgs :: "ArgumentContainer \<Rightarrow> (string \<times> int) list" where
  "Bandwidth_workloadArgs args =
     [(''testType'', 2), (''testArg0'', arg_int args ''messageSize''), (''testArg1'', arg_placement args ''sendType''),
      (''testArg2'', arg_placement args ''recvType''), (''testArg3'', arg_int args ''nBatches'')]"

definition Latency_workloadArgs :: "ArgumentContainer \<Rightarrow> (string \<times> int) list" where
  "Latency_workloadArgs args =
     [(''testType'', 3), (''testArg0'', arg_int args ''messageSize''), (''testArg1'', arg_placement args ''sendType''),
      (''testArg2'', arg_placement args ''recvType'')]"

definition Overlap_workloadArgs :: "ArgumentContainer \<Rightarrow> (string \<times> int) list" where
  "Overlap_workloadArgs args =
     [(''testType'', 4), (''testArg0'', arg_int args ''messageSize''), (''testArg1'', arg_placement args ''sendType''),
      (''testArg2'', arg_placement args ''recvType''), (''testArg3'', arg_int args ''gpuCompute''),
      (''testArg4'', arg_int args ''numMpiTestCalls'')]"

definition Broadcast_workloadArgs :: "ArgumentContainer \<Rightarrow> (string \<times> int) list" where
  "Broadcast_workloadArgs args =
     [(''testType'', 5), (''testArg0'', arg_int args ''messageSize''), (''testArg1'', arg_placement args ''recvType'')]"

definition Reduce_workloadArgs :: "ArgumentContainer \<Rightarrow> (string \<times> int) list" where
  "Reduce_workloadArgs args =
     [(''testType'', 6), (''testArg0'', arg_int args ''messageSize''), (''testArg1'', arg_placement args ''sendType''),
      (''testArg2'', arg_placement args ''recvType'')]"

definition AllReduce_workloadArgs :: "ArgumentContainer \<Rightarrow> (string \<times> int) list" where
  "AllReduce_workloadArgs args =
     [(''testType'', 7), (''testArg0'', arg_int args ''messageSize''), (''testArg1'', arg_placement args ''sendType''),
      (''testArg2'', arg_placement args ''recvType'')]"

definition AllToAll_workloadArgs :: "ArgumentContainer \<Rightarrow> (string \<times> int) list" where
  "AllToAll_workloadArgs args =
     [(''testType'', 8), (''testArg0'', arg_int args ''messageSize''), (''testArg1'', arg_placement args ''sendType''),
      (''testArg2'', arg_placement args ''recvType'')]"

section \<open>The functions run\<close>

text \<open>
  The system a test runs on: \<open>popen\<close>, the path of the benchmark and whether the configuration replaces bandwidth by time.
\<close>

record mpi_system =
  sys_popen :: "string \<Rightarrow> nat \<Rightarrow> string"
  sys_exe :: string
  sys_doNotPrintBandwidth :: bool

definition mpi_launch :: "mpi_system \<Rightarrow> TestCaseArgumentContainer \<Rightarrow> int \<Rightarrow> (string \<times> int) list \<Rightarrow> int list result" where
  "mpi_launch sys arguments nRanks kvs =
     runLauncher (sys_popen sys) (sys_exe sys) (arg_string (tca_args arguments) ''mpiLauncher'') (wrap_i32 nRanks) ''mpi_workload_l0''
       (workload_args kvs) (wrap_i32 (tca_iterations arguments))"

definition mpi_report ::
  "mpi_system \<Rightarrow> TestCaseArgumentContainer \<Rightarrow> TestCaseStatistics \<Rightarrow> (int \<Rightarrow> Measurement) \<Rightarrow> int list \<Rightarrow> (TestResult \<times> TestCaseStatistics) result" where
  "mpi_report sys arguments stats push measurements =
     (if int (length measurements) \<noteq> tca_iterations arguments then Ok (Error, stats)
      else bindR (foldM (TestCaseStatistics_push (sys_doNotPrintBandwidth sys)) stats (map push measurements))
        (\<lambda>stats'. Ok (Success, stats')))"

abbreviation ranks_of :: "TestCaseArgumentContainer \<Rightarrow> int" where
  "ranks_of arguments \<equiv> arg_int (tca_args arguments) ''numberOfRanks''"

definition run_MpiStartup :: "mpi_system \<Rightarrow> TestFunction" where
  "run_MpiStartup sys arguments stats =
     bindR (mpi_launch sys arguments (ranks_of arguments) (Startup_workloadArgs (tca_args arguments)))
       (mpi_report sys arguments stats (\<lambda>m. pushTime m Microseconds Cpu []))"

definition run_MpiBandwidth :: "mpi_system \<Rightarrow> TestFunction" where
  "run_MpiBandwidth sys arguments stats =
     bindR (mpi_launch sys arguments 2 (Bandwidth_workloadArgs (tca_args arguments)))
       (mpi_report sys arguments stats (\<lambda>m. pushTime m GigabytesPerSecond Cpu []))"

definition run_MpiLatency :: "mpi_system \<Rightarrow> TestFunction" where
  "run_MpiLatency sys arguments stats =
     bindR (mpi_launch sys arguments 2 (Latency_workloadArgs (tca_args arguments)))
       (mpi_report sys arguments stats (\<lambda>m. pushTime m Microseconds Cpu []))"

definition run_MpiOverlap :: "mpi_system \<Rightarrow> TestFunction" where
  "run_MpiOverlap sys arguments stats =
     bindR (mpi_launch sys arguments 2 (Overlap_workloadArgs (tca_args arguments)))
       (mpi_report sys arguments stats (\<lambda>m. pushPercentage (V_div (V_of_int m) (Fin 100000)) Percentage Cpu []))"

definition run_MpiBroadcast :: "mpi_system \<Rightarrow> TestFunction" where
  "run_MpiBroadcast sys arguments stats =
     bindR (mpi_launch sys arguments (ranks_of arguments) (Broadcast_workloadArgs (tca_args arguments)))
       (mpi_report sys arguments stats (\<lambda>m. pushTime m Microseconds Cpu []))"

definition run_MpiReduce :: "mpi_system \<Rightarrow> TestFunction" where
  "run_MpiReduce sys arguments stats =
     bindR (mpi_launch sys arguments (ranks_of arguments) (Reduce_workloadArgs (tca_args arguments)))
       (mpi_report sys arguments stats (\<lambda>m. pushTime m Microseconds Cpu []))"

definition run_MpiAllReduce :: "mpi_system \<Rightarrow> TestFunction" where
  "run_MpiAllReduce sys arguments stats =
     bindR (mpi_launch sys arguments (ranks_of arguments) (AllReduce_workloadArgs (tca_args arguments)))
       (mpi_report sys arguments stats (\<lambda>m. pushTime m Microseconds Cpu []))"

definition run_MpiAllToAll :: "mpi_system \<Rightarrow> TestFunction" where
  "run_MpiAllToAll sys arguments stats =
     bindR (mpi_launch sys arguments (ranks_of arguments) (AllToAll_workloadArgs (tca_args arguments)))
       (mpi_report sys arguments stats (\<lambda>m. pushTime m Microseconds Cpu []))"

section \<open>The workload reads what a test writes\<close>

definition workload_keys :: "string list" where
  "workload_keys = [''testType'', ''testArg0'', ''testArg1'', ''testArg2'', ''testArg3'', ''testArg4'']"

definition workload_pairs :: "(string \<times> int) list \<Rightarrow> bool" where
  "workload_pairs kvs \<longleftrightarrow> distinct (map fst kvs) \<and> (\<forall>(k, n) \<in> set kvs. k \<in> set workload_keys \<and> in_i64 n)"

definition printed :: "(string \<times> int) list \<Rightarrow> (string \<times> string) list" where
  "printed kvs = map (\<lambda>(k, n). (k, to_string n)) kvs"

definition set_field :: "(string \<times> int) list \<Rightarrow> Argument \<Rightarrow> Argument" where
  "set_field kvs a = (case map_of kvs (key a) of None \<Rightarrow> a | Some n \<Rightarrow> a\<lparr>val := Arg_Integer n, parsed := True\<rparr>)"

lemma workload_keys_ok: "list_all key_ok workload_keys"
  by code_simp

lemma MpiArguments_fields_ok:
  "list_all (\<lambda>a. key a \<in> set workload_keys \<longrightarrow> default_value (val a) = Arg_Integer 0) make_MpiArguments"
  "list_all (\<lambda>k. k \<in> set (map key make_MpiArguments)) workload_keys"
  "list_all parsed make_MpiArguments"
  "arg_int make_MpiArguments ''statsType'' = 1" "arg_int make_MpiArguments ''iterations'' = 10"
  by code_simp+

lemma map_of_printed: "map_of (printed kvs) k = map_option to_string (map_of kvs k)"
  by (induction kvs) (auto simp: printed_def)

lemma workload_args_tokens:
  assumes "workload_pairs kvs"
  shows "splitString (workload_args kvs) = map token_of (printed kvs)"
proof -
  let ?s = "\<lambda>(k, n). ''--'' @ k @ ''='' @ to_string n"
  have "is_token (?s (k, n))" if "(k, n) \<in> set kvs" for k n
  proof -
    have "key_ok k" using assms that workload_keys_ok by (auto simp: workload_pairs_def list_all_iff)
    then show ?thesis using token_of_is_token [of k "to_string n"] by (simp add: token_of_def list_all_iff to_string_not_space)
  qed
  then have "list_all is_token (map ?s kvs)" by (auto simp: list_all_iff)
  from splitString_joinStrings [OF this] show ?thesis
    by (simp add: workload_args_def printed_def token_of_def case_prod_unfold comp_def)
qed

lemma workload_command_line:
  assumes "workload_pairs kvs"
  shows "cla_parseArguments (exe # splitString (workload_args kvs)) = Inr (map cla_of (printed kvs))"
  unfolding workload_args_tokens [OF assms]
  using assms workload_keys_ok
  by (intro parse_tokens) (auto simp: workload_pairs_def printed_def list_all_iff case_prod_unfold comp_def)

lemma set_field_parses:
  assumes "workload_pairs kvs" "a \<in> set make_MpiArguments"
  shows "parse_from (map cla_of (printed kvs)) a = Ok (set_field kvs a)"
proof (cases "map_of kvs (key a)")
  case (Some n)
  then have "key a \<in> set workload_keys" "in_i64 n" using assms(1) by (auto simp: workload_pairs_def dest: map_of_SomeD)
  moreover from this have "default_value (val a) = default_value (Arg_Integer n)"
    using assms(2) MpiArguments_fields_ok(1) by (simp add: list_all_iff)
  ultimately have "parseImpl (val a) (to_string n) = Ok (Arg_Integer n)"
    using value_parse_print [of False "Arg_Integer n"] by (simp add: IntegerArgumentBase_toStringValue_def)
  with Some show ?thesis
    by (simp add: parse_from_def lookup_token_cla_of map_of_printed set_field_def assign_argument_def)
qed (simp add: parse_from_def lookup_token_cla_of map_of_printed set_field_def)

lemma workload_parses:
  assumes "workload_pairs kvs"
  shows "parseArguments make_MpiArguments (map cla_of (printed kvs)) =
    Ok (map (set_field kvs) make_MpiArguments, map (\<lambda>kv. markAsProcessed (cla_of kv)) (printed kvs))"
proof -
  have "mapM (parse_from (map cla_of (printed kvs))) make_MpiArguments = Ok (map (set_field kvs) make_MpiArguments)"
    by (rule mapM_Ok) (rule set_field_parses [OF assms])
  moreover have "mark_token (key ` set make_MpiArguments) (cla_of kv) = markAsProcessed (cla_of kv)" if "kv \<in> set (printed kvs)" for kv
    using that assms MpiArguments_fields_ok(2) by (force simp: mark_token_def cla_of_def printed_def workload_pairs_def list_all_iff)
  moreover have "list_all valid (map cla_of (printed kvs))" "distinct (map cla_key (map cla_of (printed kvs)))"
    using assms by (simp_all add: list_all_iff cla_of_def printed_def workload_pairs_def comp_def case_prod_unfold)
  ultimately show ?thesis by (subst parseArguments_eq_Ok) simp_all
qed

definition int_value :: "arg_value \<Rightarrow> int" where
  "int_value v = (case v of
      Arg_Integer v \<Rightarrow> v
    | Arg_NonNegativeInteger v \<Rightarrow> wrap_u64 v
    | Arg_PositiveInteger v \<Rightarrow> PositiveIntegerArgument_get v
    | Arg_Boolean v \<Rightarrow> (if BooleanArgument_get v then 1 else 0)
    | _ \<Rightarrow> 0)"

lemma arg_int_find: "arg_int args k = (case find (\<lambda>a. key a = k) args of None \<Rightarrow> 0 | Some a \<Rightarrow> int_value (val a))"
  unfolding arg_int_def cfg_int_def cfg_field_def int_value_def by (cases "find (\<lambda>a. key a = k) args") simp_all

lemma arg_int_all:
  assumes "list_all (\<lambda>a. P (int_value (val a))) args" "P 0"
  shows "P (arg_int args k)"
  using assms by (auto simp: arg_int_find list_all_iff find_Some_iff split: option.split)

lemma arg_int_set_field:
  "arg_int (map (set_field kvs) args) k =
    (if k \<in> set (map key args) then case map_of kvs k of None \<Rightarrow> arg_int args k | Some n \<Rightarrow> n else arg_int args k)"
proof -
  have key: "key (set_field kvs a) = key a" for a by (simp add: set_field_def split: option.split)
  have f: "find (\<lambda>a. key a = k) (map (set_field kvs) args) = map_option (set_field kvs) (find (\<lambda>a. key a = k) args)"
    by (induction args) (simp_all add: key)
  show ?thesis
  proof (cases "find (\<lambda>a. key a = k) args")
    case None
    then have "k \<notin> set (map key args)" by (auto simp: find_None_iff)
    with None f show ?thesis by (simp add: arg_int_find)
  next
    case (Some a)
    then have "key a = k" "k \<in> set (map key args)" by (auto simp: find_Some_iff)
    with Some f show ?thesis by (simp add: arg_int_find set_field_def int_value_def split: option.split)
  qed
qed

lemma in_i64_small: "0 \<le> n \<Longrightarrow> n < 2 ^ 63 \<Longrightarrow> in_i64 n"
  by (simp add: in_i64_def)

lemma UsmMemoryPlacement_code_bounds: "0 \<le> UsmMemoryPlacement_code p" "UsmMemoryPlacement_code p < 9"
  by (cases p; simp)+

lemma arg_placement_in_i64: "in_i64 (arg_placement args k)"
  using UsmMemoryPlacement_code_bounds
  by (auto simp: arg_placement_def in_i64_def split: option.split arg_value.split enum_value.split intro: order_trans [of _ 0] less_trans [of _ 9])

lemma arg_int_assign: "k \<noteq> k' \<Longrightarrow> arg_int (assign_field args (k', v)) k = arg_int args k"
proof -
  assume "k \<noteq> k'"
  then have "find (\<lambda>a. key a = k) (assign_field args (k', v)) = find (\<lambda>a. key a = k) args"
    unfolding assign_field_def by (induction args) (auto simp: markAsParsed_def)
  then show ?thesis by (simp add: arg_int_find)
qed

lemma arg_placement_assign: "k \<noteq> k' \<Longrightarrow> arg_placement (assign_field args (k', v)) k = arg_placement args k"
proof -
  assume "k \<noteq> k'"
  then have "find (\<lambda>a. key a = k) (assign_field args (k', v)) = find (\<lambda>a. key a = k) args"
    unfolding assign_field_def by (induction args) (auto simp: markAsParsed_def)
  then show ?thesis by (simp add: arg_placement_def)
qed

definition mpi_workloadArgs :: "(ArgumentContainer \<Rightarrow> (string \<times> int) list) list" where
  "mpi_workloadArgs = [Startup_workloadArgs, Bandwidth_workloadArgs, Latency_workloadArgs, Overlap_workloadArgs,
     Broadcast_workloadArgs, Reduce_workloadArgs, AllReduce_workloadArgs, AllToAll_workloadArgs]"

lemmas workloadArgs_defs = Startup_workloadArgs_def Bandwidth_workloadArgs_def Latency_workloadArgs_def Overlap_workloadArgs_def
  Broadcast_workloadArgs_def Reduce_workloadArgs_def AllReduce_workloadArgs_def AllToAll_workloadArgs_def

lemma workloadArgs_pairs:
  assumes "workloadArgs \<in> set mpi_workloadArgs" "\<forall>k. in_i64 (arg_int args k)"
  shows "workload_pairs (workloadArgs args)"
  using assms unfolding mpi_workloadArgs_def
  by (auto simp: workload_pairs_def workload_keys_def workloadArgs_defs arg_placement_in_i64 in_i64_small)

text \<open>
  The statistics type an MPI test is given has no effect. The command line each of the eight tests writes is accepted
  by the workload without leftovers and sets every value the test names, but none of them names the statistics
  type: the command lines for all statistics types are the same and the workload always computes the average.
\<close>

lemma mpi_statistics_type_ignored:
  assumes "workloadArgs \<in> set mpi_workloadArgs" "\<forall>k. in_i64 (arg_int args k)"
  shows "(\<forall>t. workloadArgs (assign_field args (''statsType'', stats_arg t)) = workloadArgs args) \<and>
    (\<exists>cs arguments cs'. cla_parseArguments (exe # splitString (workload_args (workloadArgs args))) = Inr cs \<and>
      parseArguments make_MpiArguments cs = Ok (arguments, cs') \<and>
      getUnparsedArguments arguments = [] \<and> getUnprocessedArguments cs' = [] \<and>
      (\<forall>(k, n) \<in> set (workloadArgs args). arg_int arguments k = n) \<and>
      MpiStatisticsType_of (wrap_i32 (arg_int arguments ''statsType'')) = MST_Avg)"
proof -
  let ?kvs = "workloadArgs args"
  let ?args = "map (set_field ?kvs) make_MpiArguments"
  have p: "workload_pairs ?kvs" by (rule workloadArgs_pairs [OF assms])
  have "workloadArgs (assign_field args (''statsType'', stats_arg t)) = workloadArgs args" for t
    using assms(1) unfolding mpi_workloadArgs_def
    by (auto simp: workloadArgs_defs arg_int_assign arg_placement_assign)
  moreover have "list_all parsed ?args"
    using MpiArguments_fields_ok(3) by (auto simp: list_all_iff set_field_def split: option.split)
  then have "getUnparsedArguments ?args = []" by (auto simp: getUnparsedArguments_def list_all_iff filter_empty_conv)
  moreover have "arg_int ?args k = n" if "(k, n) \<in> set ?kvs" for k n
    using p that MpiArguments_fields_ok(2)
    by (auto simp: arg_int_set_field workload_pairs_def list_all_iff map_of_eq_Some_iff)
  moreover have "''statsType'' \<notin> set workload_keys" by (simp add: workload_keys_def)
  then have "map_of ?kvs ''statsType'' = None" using p by (force simp: workload_pairs_def map_of_eq_None_iff)
  then have "arg_int ?args ''statsType'' = 1" by (simp add: arg_int_set_field MpiArguments_fields_ok)
  moreover have "wrap_i32 1 = 1" by (simp add: wrap_i32_def)
  moreover have "getUnprocessedArguments (map (\<lambda>kv. markAsProcessed (cla_of kv)) (printed ?kvs)) = []"
    by (simp add: getUnprocessedArguments_def markAsProcessed_def filter_empty_conv)
  ultimately show ?thesis using workload_command_line [OF p] workload_parses [OF p] by auto
qed

lemma MpiBroadcastArguments_in_i64: "in_i64 (arg_int MpiBroadcastArguments k)"
proof -
  have "list_all (\<lambda>a. in_i64 (int_value (val a))) MpiBroadcastArguments" "in_i64 0" by code_simp+
  then show ?thesis by (rule arg_int_all)
qed

text \<open>
  C34: The test of the MPI bandwidth never succeeds. It pushes the time of a message without the size of the message while it
  asks for a bandwidth, which the statistics refuse: as soon as all measurements are read the program stops with
  an error, unless bandwidths are printed as times.
\<close>

theorem mpi_bandwidth_never_succeeds:
  assumes "\<not> sys_doNotPrintBandwidth sys" "0 < tca_iterations arguments"
  shows "run_MpiBandwidth sys arguments stats \<noteq> Ok (Success, stats') \<and>
    (\<forall>ms. mpi_launch sys arguments 2 (Bandwidth_workloadArgs (tca_args arguments)) = Ok ms \<and> int (length ms) = tca_iterations arguments \<longrightarrow>
       run_MpiBandwidth sys arguments stats = FATAL_ERROR ''Buffer size needs to be passed when unit is [GB/s]'')"
proof -
  let ?launch = "mpi_launch sys arguments 2 (Bandwidth_workloadArgs (tca_args arguments))"
  have "mpi_report sys arguments stats (\<lambda>m. pushTime m GigabytesPerSecond Cpu []) ms =
      (if int (length ms) = tca_iterations arguments
       then FATAL_ERROR ''Buffer size needs to be passed when unit is [GB/s]'' else Ok (Error, stats))" for ms
    using assms by (cases ms) (simp_all add: mpi_report_def TestCaseStatistics_pushTime_def overrideMeasurementUnit_def)
  then show ?thesis by (cases ?launch) (auto simp: run_MpiBandwidth_def)
qed

definition example_system :: mpi_system where
  "example_system = \<lparr>sys_popen = (\<lambda>command i. measurement_line 1500), sys_exe = ''/bench/mpi'', sys_doNotPrintBandwidth = False\<rparr>"

definition example_test_arguments :: TestCaseArgumentContainer where
  "example_test_arguments = (make_TestCaseArgumentContainer MpiBandwidthArguments)\<lparr>tca_iterations := 1\<rparr>"

lemma example_launch:
  "mpi_launch example_system example_test_arguments 2 (Bandwidth_workloadArgs (tca_args example_test_arguments)) = Ok [1500]"
proof -
  have "wrap_i32 1 = 1" "wrap_i64 1500 = 1500" by (simp_all add: wrap_i32_def wrap_i64_def)
  then show ?thesis
    using runLauncher_loop_reads [of "[([], 1500, [])]" "[]"]
    by (simp add: mpi_launch_def runLauncher_def example_system_def example_test_arguments_def launched_output_def)
qed

theorem mpi_bandwidth_never_succeeds_witness:
  "run_MpiBandwidth example_system example_test_arguments (make_TestCaseStatistics 1 PT_Default) =
    FATAL_ERROR ''Buffer size needs to be passed when unit is [GB/s]''"
  using mpi_bandwidth_never_succeeds [of example_system example_test_arguments "make_TestCaseStatistics 1 PT_Default"] example_launch
  by (auto simp: example_system_def example_test_arguments_def)

end
