(* ===== verification/Intel_Product.thy ===== *)
theory Intel_Product
  imports Enums
begin

text \<open>
  The tables of Intel products, \<open>framework/intel_product/intel_products.inl\<close>, and the functions
  \<open>get_intel_product.h\<close> builds from them with macros: a \<open>switch\<close> over the entries of a table is a lookup in the list of
  its entries. The device identifiers are 32-bit numbers, here natural numbers.
\<close>

section \<open>Tables\<close>

datatype IntelGen =
    IG_Unknown | IG_Gen8 | IG_Gen9 | IG_Gen11 | IG_Gen12lp | IG_XeHpCore
  | IG_XeHpgCore | IG_XeHpcCore

datatype IntelProduct =
    IP_Unknown | IP_Bdw | IP_Bxt | IP_Cfl | IP_Glk | IP_Kbl | IP_Skl | IP_Ehl
  | IP_Icllp | IP_Lkf | IP_Adlp | IP_Adls | IP_Dg1 | IP_Rkl | IP_Tgllp | IP_Xehp
  | IP_Dg2 | IP_Pvc

text \<open>\<open>INTEL_GEN\<close>, with the names the macro turns into strings.\<close>

definition intel_gens :: "(IntelGen \<times> string) list" where
  "intel_gens = [(IG_Unknown, ''Unknown''), (IG_Gen8, ''Gen8''), (IG_Gen9, ''Gen9''), (IG_Gen11, ''Gen11''), (IG_Gen12lp, ''Gen12lp''), (IG_XeHpCore, ''XeHpCore''), (IG_XeHpgCore, ''XeHpgCore''), (IG_XeHpcCore, ''XeHpcCore'')]"

text \<open>\<open>INTEL_PRODUCT\<close>.\<close>

definition intel_products :: "(IntelProduct \<times> string \<times> IntelGen) list" where
  "intel_products = [
     (IP_Unknown, ''Unknown'', IG_Unknown), (IP_Bdw, ''Bdw'', IG_Gen8), (IP_Bxt, ''Bxt'', IG_Gen9), (IP_Cfl, ''Cfl'', IG_Gen9),
     (IP_Glk, ''Glk'', IG_Gen9), (IP_Kbl, ''Kbl'', IG_Gen9), (IP_Skl, ''Skl'', IG_Gen9), (IP_Ehl, ''Ehl'', IG_Gen11),
     (IP_Icllp, ''Icllp'', IG_Gen11), (IP_Lkf, ''Lkf'', IG_Gen11), (IP_Adlp, ''Adlp'', IG_Gen12lp), (IP_Adls, ''Adls'', IG_Gen12lp),
     (IP_Dg1, ''Dg1'', IG_Gen12lp), (IP_Rkl, ''Rkl'', IG_Gen12lp), (IP_Tgllp, ''Tgllp'', IG_Gen12lp), (IP_Xehp, ''Xehp'', IG_XeHpCore),
     (IP_Dg2, ''Dg2'', IG_XeHpgCore), (IP_Pvc, ''Pvc'', IG_XeHpcCore)]"

text \<open>\<open>INTEL_PRODUCT_ID\<close>.\<close>

definition intel_product_ids :: "(nat \<times> IntelProduct) list" where
  "intel_product_ids = [
     (0x1602, IP_Bdw), (0x160A, IP_Bdw), (0x1606, IP_Bdw), (0x160E, IP_Bdw), (0x160D, IP_Bdw), (0x1612, IP_Bdw), (0x161A, IP_Bdw),
     (0x1616, IP_Bdw), (0x161E, IP_Bdw), (0x161D, IP_Bdw), (0x1622, IP_Bdw), (0x162A, IP_Bdw), (0x1626, IP_Bdw), (0x162B, IP_Bdw),
     (0x162E, IP_Bdw), (0x162D, IP_Bdw), (0x9906, IP_Bxt), (0x9907, IP_Bxt), (0x0A84, IP_Bxt), (0x5A84, IP_Bxt), (0x5A85, IP_Bxt),
     (0x1A85, IP_Bxt), (0x1A84, IP_Bxt), (0x9908, IP_Bxt), (0x3E90, IP_Cfl), (0x3E93, IP_Cfl), (0x3EA4, IP_Cfl), (0x3E99, IP_Cfl),
     (0x3EA1, IP_Cfl), (0x3E92, IP_Cfl), (0x3E9B, IP_Cfl), (0x3E94, IP_Cfl), (0x3E91, IP_Cfl), (0x3E96, IP_Cfl), (0x3E9A, IP_Cfl),
     (0x3EA3, IP_Cfl), (0x3EA9, IP_Cfl), (0x3EA0, IP_Cfl), (0x3E98, IP_Cfl), (0x3E95, IP_Cfl), (0x3EA6, IP_Cfl), (0x3EA7, IP_Cfl),
     (0x3EA8, IP_Cfl), (0x3EA5, IP_Cfl), (0x3EA2, IP_Cfl), (0x9B21, IP_Cfl), (0x9BAA, IP_Cfl), (0x9BAB, IP_Cfl), (0x9BAC, IP_Cfl),
     (0x9BA0, IP_Cfl), (0x9BA5, IP_Cfl), (0x9BA8, IP_Cfl), (0x9BA4, IP_Cfl), (0x9BA2, IP_Cfl), (0x9B41, IP_Cfl), (0x9BCA, IP_Cfl),
     (0x9BCB, IP_Cfl), (0x9BCC, IP_Cfl), (0x9BC0, IP_Cfl), (0x9BC5, IP_Cfl), (0x9BC8, IP_Cfl), (0x9BC4, IP_Cfl), (0x9BC2, IP_Cfl),
     (0x9BC6, IP_Cfl), (0x9BE6, IP_Cfl), (0x3184, IP_Glk), (0x3185, IP_Glk), (0x5902, IP_Kbl), (0x590B, IP_Kbl), (0x590A, IP_Kbl),
     (0x5906, IP_Kbl), (0x590E, IP_Kbl), (0x5908, IP_Kbl), (0x5913, IP_Kbl), (0x5915, IP_Kbl), (0x5912, IP_Kbl), (0x591B, IP_Kbl),
     (0x5917, IP_Kbl), (0x591A, IP_Kbl), (0x5916, IP_Kbl), (0x591E, IP_Kbl), (0x591D, IP_Kbl), (0x591C, IP_Kbl), (0x5921, IP_Kbl),
     (0x5926, IP_Kbl), (0x5927, IP_Kbl), (0x592B, IP_Kbl), (0x592A, IP_Kbl), (0x5923, IP_Kbl), (0x5932, IP_Kbl), (0x593B, IP_Kbl),
     (0x593A, IP_Kbl), (0x593D, IP_Kbl), (0x1902, IP_Skl), (0x190B, IP_Skl), (0x190A, IP_Skl), (0x1906, IP_Skl), (0x190E, IP_Skl),
     (0x1917, IP_Skl), (0x1913, IP_Skl), (0x1912, IP_Skl), (0x191B, IP_Skl), (0x191A, IP_Skl), (0x1916, IP_Skl), (0x191E, IP_Skl),
     (0x191D, IP_Skl), (0x1921, IP_Skl), (0x9905, IP_Skl), (0x192B, IP_Skl), (0x192D, IP_Skl), (0x192A, IP_Skl), (0x1923, IP_Skl),
     (0x1926, IP_Skl), (0x1927, IP_Skl), (0x1932, IP_Skl), (0x193B, IP_Skl), (0x193A, IP_Skl), (0x193D, IP_Skl), (0x4500, IP_Ehl),
     (0x4541, IP_Ehl), (0x4551, IP_Ehl), (0x4571, IP_Ehl), (0x4555, IP_Ehl), (0x4E51, IP_Ehl), (0x4E61, IP_Ehl), (0x4E71, IP_Ehl),
     (0x4E55, IP_Ehl), (0xFF05, IP_Icllp), (0x8A56, IP_Icllp), (0x8A58, IP_Icllp), (0x8A5C, IP_Icllp), (0x8A5A, IP_Icllp), (0x8A50, IP_Icllp),
     (0x8A52, IP_Icllp), (0x8A51, IP_Icllp), (0x9840, IP_Lkf), (0x46A0, IP_Adlp), (0x46B0, IP_Adlp), (0x4680, IP_Adls), (0x46FF, IP_Adls),
     (0x4600, IP_Adls), (0x4905, IP_Dg1), (0x4906, IP_Dg1), (0x4907, IP_Dg1), (0x4C80, IP_Rkl), (0x4C8A, IP_Rkl), (0x4C8B, IP_Rkl),
     (0x4C8C, IP_Rkl), (0x4C90, IP_Rkl), (0x4C9A, IP_Rkl), (0xFF20, IP_Tgllp), (0x9A49, IP_Tgllp), (0x9A40, IP_Tgllp), (0x9A59, IP_Tgllp),
     (0x9A60, IP_Tgllp), (0x9A68, IP_Tgllp), (0x9A70, IP_Tgllp), (0x9A78, IP_Tgllp), (0x0201, IP_Xehp), (0x0202, IP_Xehp), (0x0203, IP_Xehp),
     (0x0204, IP_Xehp), (0x0205, IP_Xehp), (0x0206, IP_Xehp), (0x0207, IP_Xehp), (0x0208, IP_Xehp), (0x0209, IP_Xehp), (0x020A, IP_Xehp),
     (0x020B, IP_Xehp), (0x020C, IP_Xehp), (0x020D, IP_Xehp), (0x020E, IP_Xehp), (0x020F, IP_Xehp), (0x0210, IP_Xehp), (0x4F82, IP_Dg2),
     (0x4F81, IP_Dg2), (0x4F80, IP_Dg2), (0x5690, IP_Dg2), (0x5691, IP_Dg2), (0x5692, IP_Dg2), (0x5693, IP_Dg2), (0x5694, IP_Dg2),
     (0x56A0, IP_Dg2), (0x56A1, IP_Dg2), (0x56A2, IP_Dg2), (0x56A3, IP_Dg2), (0x56A4, IP_Dg2), (0x56A5, IP_Dg2), (0x56A6, IP_Dg2),
     (0x4F83, IP_Dg2), (0x4F84, IP_Dg2), (0x4F87, IP_Dg2), (0x4F88, IP_Dg2), (0x56C0, IP_Dg2), (0x56C1, IP_Dg2), (0x0BD0, IP_Pvc),
     (0x0BD5, IP_Pvc), (0x0BD6, IP_Pvc), (0x0BD7, IP_Pvc), (0x0BD8, IP_Pvc), (0x0BE0, IP_Pvc), (0x0BE1, IP_Pvc), (0x0BE5, IP_Pvc)]"

section \<open>Functions\<close>

definition getIntelProduct :: "nat \<Rightarrow> IntelProduct" where
  "getIntelProduct deviceId = (case map_of intel_product_ids deviceId of Some product \<Rightarrow> product | None \<Rightarrow> IP_Unknown)"

definition getIntelGen :: "IntelProduct \<Rightarrow> IntelGen" where
  "getIntelGen product = (case map_of intel_products product of Some (_, gen) \<Rightarrow> gen | None \<Rightarrow> IG_Unknown)"

definition getIntelGen_of :: "nat \<Rightarrow> IntelGen" where
  "getIntelGen_of arg = getIntelGen (getIntelProduct arg)"

definition IntelProduct_to_string :: "IntelProduct \<Rightarrow> string" where
  "IntelProduct_to_string product = (case map_of intel_products product of Some (name, _) \<Rightarrow> name | None \<Rightarrow> ''Unknown'')"

definition IntelGen_to_string :: "IntelGen \<Rightarrow> string" where
  "IntelGen_to_string gen = (case map_of intel_gens gen of Some name \<Rightarrow> name | None \<Rightarrow> ''Unknown'')"

text \<open>
  The overloads for the drivers, \<open>get_intel_product_l0.cpp\<close> and \<open>get_intel_product_ocl.cpp\<close>: \<open>None\<close> when the query of the
  driver fails; OpenCL devices are asked only if they support the extension of the query.
\<close>

definition getIntelProduct_L0 :: "nat option \<Rightarrow> IntelProduct" where
  "getIntelProduct_L0 deviceId = (case deviceId of None \<Rightarrow> IP_Unknown | Some i \<Rightarrow> getIntelProduct i)"

definition getIntelProduct_OCL :: "bool \<Rightarrow> nat option \<Rightarrow> IntelProduct" where
  "getIntelProduct_OCL extensionSupported deviceId =
     (if \<not> extensionSupported then IP_Unknown
      else case deviceId of None \<Rightarrow> IP_Unknown | Some i \<Rightarrow> getIntelProduct i)"

section \<open>Lemmas\<close>

text \<open>No device has two entries, so the order of the entries does not matter and the \<open>switch\<close> is well formed.\<close>

lemma distinct_ids: "distinct (map fst intel_product_ids)"
  by (simp add: intel_product_ids_def)

lemma getIntelProduct_iff:
  "p \<noteq> IP_Unknown \<Longrightarrow> getIntelProduct i = p \<longleftrightarrow> (i, p) \<in> set intel_product_ids"
proof -
  assume "p \<noteq> IP_Unknown"
  then have "getIntelProduct i = p \<longleftrightarrow> map_of intel_product_ids i = Some p"
    by (auto simp: getIntelProduct_def split: option.splits)
  also have "\<dots> \<longleftrightarrow> (i, p) \<in> set intel_product_ids" using distinct_ids by (rule map_of_eq_Some_iff)
  finally show ?thesis .
qed

lemma getIntelGen_known: "getIntelGen p = IG_Unknown \<longleftrightarrow> p = IP_Unknown"
  by (cases p) (simp_all add: getIntelGen_def intel_products_def)

text \<open>The names of the products, and of the generations, are pairwise distinct and every constructor has one.\<close>

lemma intel_product_names: "distinct (map (fst \<circ> snd) intel_products)"
  by code_simp

lemma intel_gen_names: "distinct (map snd intel_gens)"
  by code_simp

lemma intel_products_total: "map_of intel_products p \<noteq> None"
  by (cases p) (simp_all add: intel_products_def)

lemma intel_gens_total: "map_of intel_gens g \<noteq> None"
  by (cases g) (simp_all add: intel_gens_def)

lemma IntelProduct_to_string_inj: "IntelProduct_to_string p = IntelProduct_to_string q \<Longrightarrow> p = q"
proof -
  assume e: "IntelProduct_to_string p = IntelProduct_to_string q"
  obtain n g m h where m: "map_of intel_products p = Some (n, g)" "map_of intel_products q = Some (m, h)"
    using intel_products_total [of p] intel_products_total [of q] by (metis option.exhaust prod.exhaust)
  then have "n = m" using e by (simp add: IntelProduct_to_string_def)
  with map_of_SomeD [OF m(1)] map_of_SomeD [OF m(2)] show "p = q"
    using intel_product_names \<open>n = m\<close> unfolding distinct_map inj_on_def comp_def by fastforce
qed

lemma IntelGen_to_string_inj: "IntelGen_to_string g = IntelGen_to_string h \<Longrightarrow> g = h"
proof -
  assume e: "IntelGen_to_string g = IntelGen_to_string h"
  obtain n m where m: "map_of intel_gens g = Some n" "map_of intel_gens h = Some m"
    using intel_gens_total [of g] intel_gens_total [of h] by blast
  then have "n = m" using e by (simp add: IntelGen_to_string_def)
  with map_of_SomeD [OF m(1)] map_of_SomeD [OF m(2)] show "g = h"
    using intel_gen_names unfolding distinct_map inj_on_def by fastforce
qed

text \<open>A device has a generation exactly when it is listed.\<close>

lemma getIntelGen_of_known: "getIntelGen_of i \<noteq> IG_Unknown \<longleftrightarrow> i \<in> fst ` set intel_product_ids"
proof -
  have "IP_Unknown \<notin> snd ` set intel_product_ids" by (simp add: intel_product_ids_def)
  then have "getIntelProduct i \<noteq> IP_Unknown \<longleftrightarrow> map_of intel_product_ids i \<noteq> None"
    using map_of_SomeD [of intel_product_ids i] by (force simp: getIntelProduct_def split: option.splits)
  also have "\<dots> \<longleftrightarrow> i \<in> fst ` set intel_product_ids" by (simp add: map_of_eq_None_iff)
  finally have "getIntelProduct i \<noteq> IP_Unknown \<longleftrightarrow> i \<in> fst ` set intel_product_ids" .
  then show ?thesis by (simp add: getIntelGen_of_def getIntelGen_known)
qed

end
