(* ===== verification/Level_Zero.thy ===== *)
theory Level_Zero
  imports Engine_Queues Configuration
begin

unbundle bit_operations_syntax

text \<open>
  The wrapper of the Level Zero driver: \<open>framework/l0/levelzero.h\<close>, \<open>levelzero.cpp\<close>, \<open>context_properties.h\<close>,
  \<open>queue_properties.h\<close> and \<open>extension_properties.h\<close>. The driver is a parameter, a record of its answers: the devices of each
  driver, the sub-devices and queue groups of each device, the handles of new objects and the addresses of
  extension functions. Handles are numbers, a null pointer is \<open>None\<close>. A call that fails is only reported by
  \<open>EXPECT_ZE_RESULT_SUCCESS\<close>; the model covers calls that succeed.

  The locale \<open>device_source\<close> is the contract of \<open>getDevice\<close>, which the wrapper of OpenCL shares.
\<close>

section \<open>Properties\<close>

record ContextProperties =
  ctx_deviceSelection :: DeviceSelection
  ctx_requireCreationSuccess :: bool
  ctx_createContext :: bool
  ctx_fakeSubDeviceAllowed :: bool

definition cfg_subDeviceSelection :: "Configuration \<Rightarrow> DeviceSelection" where
  "cfg_subDeviceSelection cfg =
     (case cfg_field cfg ''subDeviceSelection'' of Some (Arg_Enum (E_DeviceSelection d)) \<Rightarrow> d | _ \<Rightarrow> DS_Unknown)"

definition ContextProperties_setDeviceSelection :: "ContextProperties \<Rightarrow> DeviceSelection \<Rightarrow> ContextProperties" where
  "ContextProperties_setDeviceSelection p newValue = p\<lparr>ctx_deviceSelection := newValue\<rparr>"

definition make_ContextProperties :: ContextProperties where
  "make_ContextProperties = \<lparr>ctx_deviceSelection = DS_Unknown, ctx_requireCreationSuccess = True, ctx_createContext = True,
     ctx_fakeSubDeviceAllowed = False\<rparr>"

definition ContextProperties_create :: "Configuration \<Rightarrow> ContextProperties" where
  "ContextProperties_create cfg = ContextProperties_setDeviceSelection make_ContextProperties (cfg_subDeviceSelection cfg)"

definition ContextProperties_disable :: "ContextProperties \<Rightarrow> ContextProperties" where
  "ContextProperties_disable p = p\<lparr>ctx_createContext := False\<rparr>"

definition createSingleFakeSubDeviceIfNeeded :: "ContextProperties \<Rightarrow> ContextProperties" where
  "createSingleFakeSubDeviceIfNeeded p = p\<lparr>ctx_fakeSubDeviceAllowed := True\<rparr>"

definition ContextProperties_allowCreationFail :: "ContextProperties \<Rightarrow> ContextProperties" where
  "ContextProperties_allowCreationFail p = p\<lparr>ctx_requireCreationSuccess := False\<rparr>"

record QueueProperties =
  qp_createQueue :: bool
  qp_requireCreationSuccess :: bool
  qp_selectedEngine :: Engine
  qp_deviceSelection :: DeviceSelection

definition make_QueueProperties :: QueueProperties where
  "make_QueueProperties = \<lparr>qp_createQueue = True, qp_requireCreationSuccess = True, qp_selectedEngine = Ccs0, qp_deviceSelection = DS_Unknown\<rparr>"

definition QueueProperties_setDeviceSelection :: "QueueProperties \<Rightarrow> DeviceSelection \<Rightarrow> QueueProperties result" where
  "QueueProperties_setDeviceSelection p newValue =
     bindR (hasHost newValue) (\<lambda>host. FATAL_ERROR_IF host ''Cannot create queue on host device''
     (bindR (hasSingleDevice newValue) (\<lambda>single. FATAL_ERROR_IF (\<not> single) ''Queue can be created only on a single device''
       (Ok (p\<lparr>qp_deviceSelection := newValue\<rparr>)))))"

definition QueueProperties_create :: "Configuration \<Rightarrow> QueueProperties result" where
  "QueueProperties_create cfg = QueueProperties_setDeviceSelection make_QueueProperties (cfg_subDeviceSelection cfg)"

definition QueueProperties_allowCreationFail :: "QueueProperties \<Rightarrow> QueueProperties" where
  "QueueProperties_allowCreationFail p = p\<lparr>qp_requireCreationSuccess := False\<rparr>"

definition setForceBlitter :: "QueueProperties \<Rightarrow> bool \<Rightarrow> QueueProperties" where
  "setForceBlitter p bcs = p\<lparr>qp_selectedEngine := (if bcs then Bcs else Ccs0)\<rparr>"

definition setForceEngine :: "QueueProperties \<Rightarrow> Engine \<Rightarrow> QueueProperties" where
  "setForceEngine p engine = p\<lparr>qp_selectedEngine := engine\<rparr>"

definition QueueProperties_disable :: "QueueProperties \<Rightarrow> QueueProperties" where
  "QueueProperties_disable p = p\<lparr>qp_createQueue := False\<rparr>"

record ExtensionProperties =
  getImportHostPointerFunctions :: bool

definition ExtensionProperties_create :: ExtensionProperties where
  "ExtensionProperties_create = \<lparr>getImportHostPointerFunctions = False\<rparr>"

definition setImportHostPointerFunctions :: "ExtensionProperties \<Rightarrow> bool \<Rightarrow> ExtensionProperties" where
  "setImportHostPointerFunctions p v = p\<lparr>getImportHostPointerFunctions := v\<rparr>"

section \<open>The driver and the wrapper\<close>

text \<open>\<open>drv_queue n\<close> is the handle of the queue that is created when \<open>n\<close> queues of the wrapper exist.\<close>

record ze_driver =
  drv_devices :: "nat list"
  drv_subDevices :: "nat \<Rightarrow> nat list"
  drv_groups :: "nat \<Rightarrow> ze_command_queue_group_properties list"
  drv_context :: nat
  drv_queue :: "nat \<Rightarrow> nat"
  drv_function :: "string \<Rightarrow> nat option"

record ImportHostPointerExtension =
  importExternalPointer :: "nat option"
  releaseExternalPointer :: "nat option"
  getHostPointerBaseAddress :: "nat option"

record LevelZero =
  lz_driver :: ze_driver
  lz_rootDevices :: "nat list"
  lz_rootDevice :: nat
  lz_subDevices :: "nat list"
  lz_device :: "nat option"
  lz_context :: "nat option"
  commandQueues :: "nat list"
  commandQueue :: "nat option"
  commandQueueDesc :: "(nat \<times> nat) option"
  commandQueueDevice :: "nat option"
  commandQueueMaxFillSize :: nat
  importHostPointer :: ImportHostPointerExtension

definition getSubDevicesCount :: "LevelZero \<Rightarrow> nat" where
  "getSubDevicesCount lz = length (lz_subDevices lz)"

definition L0_getDevice :: "LevelZero \<Rightarrow> DeviceSelection \<Rightarrow> nat result" where
  "L0_getDevice lz deviceSelection =
     bindR (hasHost deviceSelection) (\<lambda>host. FATAL_ERROR_IF host ''Cannot get ze_device_handle_t for host''
     (bindR (hasSingleDevice deviceSelection) (\<lambda>single. FATAL_ERROR_IF (\<not> single) ''Cannot get multiple devices''
       (if deviceSelection = DS_Root then Ok (lz_rootDevice lz)
        else bindR (getSubDeviceIndex deviceSelection) (\<lambda>subDeviceIndex.
          FATAL_ERROR_IF (\<not> subDeviceIndex < length (lz_subDevices lz)) ''Invalid subDevice index''
            (Ok (lz_subDevices lz ! subDeviceIndex)))))))"

definition L0_createSubDevices :: "LevelZero \<Rightarrow> bool \<Rightarrow> bool \<Rightarrow> LevelZero result" where
  "L0_createSubDevices lz requireSuccess fakeSubDeviceAllowed =
     (let subs = drv_subDevices (lz_driver lz) (lz_rootDevice lz)
      in if length subs > 0 then Ok (lz\<lparr>lz_subDevices := subs\<rparr>)
         else if fakeSubDeviceAllowed then Ok (lz\<lparr>lz_subDevices := [lz_rootDevice lz]\<rparr>)
         else if requireSuccess then FATAL_ERROR ''SubDevice was selected, but device has 0 subDevices''
         else Ok (lz\<lparr>lz_subDevices := []\<rparr>))"

definition L0_createContext :: "LevelZero \<Rightarrow> ContextProperties \<Rightarrow> nat option" where
  "L0_createContext lz contextProperties =
     (if \<not> ctx_createContext contextProperties then None else Some (drv_context (lz_driver lz)))"

definition L0_createQueue_desc :: "LevelZero \<Rightarrow> nat \<times> LevelZero" where
  "L0_createQueue_desc lz =
     (let queue = drv_queue (lz_driver lz) (length (commandQueues lz))
      in (queue, lz\<lparr>commandQueues := commandQueues lz @ [queue]\<rparr>))"

text \<open>The queue with its device and description; \<open>None\<close> is the empty description.\<close>

record created_queue =
  cq_queue :: nat
  cq_device :: nat
  cq_desc :: L0_QueueDesc

definition L0_createQueue :: "LevelZero \<Rightarrow> QueueProperties \<Rightarrow> (created_queue option \<times> LevelZero) result" where
  "L0_createQueue lz queueProperties =
     (if \<not> qp_createQueue queueProperties then Ok (None, lz)
      else bindR (L0_getDevice lz (qp_deviceSelection queueProperties)) (\<lambda>deviceForQueue.
           bindR (L0_getPropertiesForSelectingEngine (drv_groups (lz_driver lz) deviceForQueue) (qp_selectedEngine queueProperties)) (\<lambda>queueDesc.
             case queueDesc of
               None \<Rightarrow> FATAL_ERROR_IF (qp_requireCreationSuccess queueProperties) ''Device does not support such queue'' (Ok (None, lz))
             | Some d \<Rightarrow>
                 let (queue, lz') = L0_createQueue_desc lz
                 in Ok (Some \<lparr>cq_queue = queue, cq_device = deviceForQueue, cq_desc = d\<rparr>, lz'))))"

definition initializeImportHostPointerExtension :: "LevelZero \<Rightarrow> ExtensionProperties \<Rightarrow> LevelZero result" where
  "initializeImportHostPointerExtension lz extensionProperties =
     (if \<not> getImportHostPointerFunctions extensionProperties then Ok lz
      else let f = drv_function (lz_driver lz);
               i = f ''zexDriverImportExternalPointer''; r = f ''zexDriverReleaseImportedPointer''; b = f ''zexDriverGetHostPointerBaseAddress''
           in FATAL_ERROR_IF (i = None) ''zexDriverImportExternalPointer retrieved nullptr''
             (FATAL_ERROR_IF (r = None) ''zexDriverReleaseImportedPointer retrieved nullptr''
             (FATAL_ERROR_IF (b = None) ''zexDriverGetHostPointerBaseAddress retrieved nullptr''
               (Ok (lz\<lparr>importHostPointer := \<lparr>importExternalPointer = i, releaseExternalPointer = r, getHostPointerBaseAddress = b\<rparr>\<rparr>)))))"

text \<open>The constructor. The steps after the sub-devices are a definition of their own, since the code may return before them.\<close>

definition L0_fresh :: "ze_driver \<Rightarrow> nat \<Rightarrow> LevelZero" where
  "L0_fresh driver rootDeviceIndex = \<lparr>lz_driver = driver, lz_rootDevices = drv_devices driver, lz_rootDevice = drv_devices driver ! rootDeviceIndex,
     lz_subDevices = [], lz_device = None, lz_context = None, commandQueues = [], commandQueue = None, commandQueueDesc = None,
     commandQueueDevice = None, commandQueueMaxFillSize = 0,
     importHostPointer = \<lparr>importExternalPointer = None, releaseExternalPointer = None, getHostPointerBaseAddress = None\<rparr>\<rparr>"

definition L0_set_queue :: "LevelZero \<Rightarrow> created_queue option \<Rightarrow> LevelZero" where
  "L0_set_queue lz q =
     (case q of
        None \<Rightarrow> lz\<lparr>commandQueue := None, commandQueueDesc := None, commandQueueDevice := None, commandQueueMaxFillSize := 0\<rparr>
      | Some q \<Rightarrow> lz\<lparr>commandQueue := Some (cq_queue q), commandQueueDesc := Some (desc_ordinal (cq_desc q), desc_index (cq_desc q)),
           commandQueueDevice := Some (cq_device q), commandQueueMaxFillSize := maxFillSize (family (cq_desc q))\<rparr>)"

definition L0_create_objects :: "LevelZero \<Rightarrow> QueueProperties \<Rightarrow> ContextProperties \<Rightarrow> ExtensionProperties \<Rightarrow> LevelZero result" where
  "L0_create_objects lz queueProperties contextProperties extensionProperties =
     bindR (hasSingleDevice (ctx_deviceSelection contextProperties)) (\<lambda>single.
     bindR (if single then bindR (L0_getDevice lz (ctx_deviceSelection contextProperties)) (\<lambda>d. Ok (Some d)) else Ok None) (\<lambda>dev.
     let lz = lz\<lparr>lz_device := dev, lz_context := L0_createContext lz contextProperties\<rparr>
     in if lz_context lz = None then Ok lz
        else bindR (L0_createQueue lz queueProperties) (\<lambda>(q, lz).
             initializeImportHostPointerExtension (L0_set_queue lz q) extensionProperties)))"

definition make_LevelZero ::
  "ze_driver list \<Rightarrow> nat \<Rightarrow> nat \<Rightarrow> QueueProperties \<Rightarrow> ContextProperties \<Rightarrow> ExtensionProperties \<Rightarrow> LevelZero result" where
  "make_LevelZero drivers driverIndex rootDeviceIndex queueProperties contextProperties extensionProperties =
     FATAL_ERROR_IF (driverIndex \<ge> length drivers)
       (''Invalid LevelZero driver index. driverIndex='' @ to_string (int driverIndex) @ '' driverCount='' @ to_string (int (length drivers)))
    (let driver = drivers ! driverIndex; deviceCount = length (drv_devices driver)
     in FATAL_ERROR_IF (rootDeviceIndex \<ge> deviceCount)
          (''Invalid LevelZero device index. deviceIndex='' @ to_string (int rootDeviceIndex) @ '' deviceCount='' @ to_string (int deviceCount))
       (let lz = L0_fresh driver rootDeviceIndex; deviceSelection = ctx_deviceSelection contextProperties
        in bindR (hasAnySubDevice deviceSelection) (\<lambda>anySub.
           if anySub
           then bindR (L0_createSubDevices lz (ctx_requireCreationSuccess contextProperties) (ctx_fakeSubDeviceAllowed contextProperties)) (\<lambda>lz.
                bindR (getMaxSubDeviceIndex deviceSelection) (\<lambda>maxIndex.
                  if length (lz_subDevices lz) < maxIndex + 1 then Ok lz
                  else L0_create_objects lz queueProperties contextProperties extensionProperties))
           else L0_create_objects lz queueProperties contextProperties extensionProperties)))"

text \<open>The destructor: the handles it destroys, in order.\<close>

definition destroy_LevelZero :: "LevelZero \<Rightarrow> nat list \<times> nat option" where
  "destroy_LevelZero lz = (commandQueues lz, lz_context lz)"

section \<open>Time stamps\<close>

definition getKernelTimestampValidBitsMask :: "nat \<Rightarrow> 64 word result" where
  "getKernelTimestampValidBitsMask kernelTimestampValidBits =
     (if kernelTimestampValidBits \<ge> 64 then Inl (Undefined_behaviour ''shift by the width of the type'')
      else Ok (push_bit kernelTimestampValidBits 1 - 1))"

definition getAbsoluteSubmissionTime :: "nat \<Rightarrow> 64 word \<Rightarrow> 64 word \<Rightarrow> 64 word \<Rightarrow> int result" where
  "getAbsoluteSubmissionTime kernelTimestampValidBits truncatedKernelStartTimestamp truncatedDeviceEnqueueTimestamp timerResolution =
     bindR (getKernelTimestampValidBitsMask kernelTimestampValidBits) (\<lambda>kernelTimestampValidBitsMask.
       if truncatedKernelStartTimestamp > truncatedDeviceEnqueueTimestamp
       then Ok (sint ((truncatedKernelStartTimestamp - truncatedDeviceEnqueueTimestamp) * timerResolution))
       else Ok (sint (((kernelTimestampValidBitsMask + 1) + truncatedKernelStartTimestamp - truncatedDeviceEnqueueTimestamp) * timerResolution)))"

section \<open>The contract of getDevice\<close>

lemma hasHost_eq: "hasHost sel = Ok (bit sel 0)"
  using hasDevice_device [of 0 sel] by (simp add: hasHost_def DS_Host_def device_def)

lemma hasSingleDevice_eq: "hasSingleDevice sel = Ok (card (devices_of sel) = 1)"
  by (simp add: hasSingleDevice_def getDevicesCount_eq length_filter_devices)

lemma getSubDeviceIndex_iff: "getSubDeviceIndex sel = Ok i \<longleftrightarrow> i < 4 \<and> sel = device (i + 2)"
proof
  assume "getSubDeviceIndex sel = Ok i"
  then show "i < 4 \<and> sel = device (i + 2)"
    by (auto simp: getSubDeviceIndex_def DS_defs device_def split: if_splits)
qed (use getSubDeviceIndex_device in blast)

lemma DS_Root_device: "DS_Root = device 1"
  by (simp add: DS_Root_def device_def)

lemma bit_device_0: "0 < i \<Longrightarrow> i < 32 \<Longrightarrow> \<not> bit (device i) 0"
  by (simp add: device_def bit_simps)

text \<open>A selection gets a device exactly when it is the root device or one sub-device that exists.\<close>

locale device_source =
  fixes root :: "'s \<Rightarrow> nat"
    and subs :: "'s \<Rightarrow> nat list"
    and getDevice :: "'s \<Rightarrow> DeviceSelection \<Rightarrow> nat result"
  assumes getDevice_iff: "getDevice s sel = Ok d \<longleftrightarrow>
    (sel = DS_Root \<and> d = root s) \<or> (\<exists>i<4. i < length (subs s) \<and> sel = device (i + 2) \<and> d = subs s ! i)"
begin

lemma getDevice_handle: "getDevice s sel = Ok d \<Longrightarrow> d = root s \<or> d \<in> set (subs s)"
  by (auto simp: getDevice_iff)

lemma getDevice_single: "getDevice s sel = Ok d \<Longrightarrow> \<exists>j \<in> {1..5}. devices_of sel = {j}"
  using devices_of_device by (force simp: getDevice_iff DS_Root_device)

lemma getDevice_inj:
  assumes "distinct (root s # subs s)" "getDevice s a = Ok d" "getDevice s b = Ok d"
  shows "a = b"
proof -
  have "subs s ! i \<noteq> root s" if "i < length (subs s)" for i using assms(1) that by (metis distinct.simps(2) nth_mem)
  then show ?thesis using assms by (auto simp: getDevice_iff nth_eq_iff_index_eq)
qed

end

lemma select_device_iff:
  "bindR (hasHost sel) (\<lambda>host. FATAL_ERROR_IF host m1
     (bindR (hasSingleDevice sel) (\<lambda>single. FATAL_ERROR_IF (\<not> single) m2
       (if sel = DS_Root then Ok r
        else bindR (getSubDeviceIndex sel) (\<lambda>i. FATAL_ERROR_IF (\<not> i < length subs) m3 (Ok (subs ! i))))))) = Ok d \<longleftrightarrow>
   (sel = DS_Root \<and> d = r) \<or> (\<exists>i<4. i < length subs \<and> sel = device (i + 2) \<and> d = subs ! i)"
proof (cases "sel = DS_Root")
  case True
  moreover have "\<not> bit DS_Root 0" "card (devices_of DS_Root) = 1"
    by (simp_all add: DS_Root_device bit_device_0 devices_of_device)
  moreover have "DS_Root \<noteq> device (i + 2)" if "i < 4" for i using that by (simp add: DS_Root_device device_inject)
  ultimately show ?thesis by (simp only: hasHost_eq hasSingleDevice_eq) auto
next
  case False
  show ?thesis
  proof (cases "\<exists>i<4. sel = device (i + 2)")
    case True
    then obtain i where i: "i < 4" "sel = device (i + 2)" by blast
    then have "hasHost sel = Ok False" "hasSingleDevice sel = Ok True"
      unfolding hasHost_eq hasSingleDevice_eq by (simp_all add: bit_device_0 devices_of_device del: add_2_eq_Suc')
    moreover have "getSubDeviceIndex sel = Ok i" using i getSubDeviceIndex_iff by blast
    moreover have "j = i" if "j < 4" "sel = device (j + 2)" for j using that i by (simp add: device_inject)
    then have "(\<exists>j<4. j < length subs \<and> sel = device (j + 2) \<and> d = subs ! j) \<longleftrightarrow> i < length subs \<and> d = subs ! i"
      using i by blast
    ultimately show ?thesis using False by (simp only: bindR_simps FATAL_ERROR_IF_def if_False if_True simp_thms) auto
  next
    case no: False
    then have "getSubDeviceIndex sel \<noteq> Ok i" for i using getSubDeviceIndex_iff by blast
    then show ?thesis using False no by (simp only: hasHost_eq hasSingleDevice_eq) (auto simp: FATAL_ERROR_IF_def bindR_eq_Inr)
  qed
qed

interpretation l0dev: device_source lz_rootDevice lz_subDevices L0_getDevice
  by unfold_locales (simp only: L0_getDevice_def select_device_iff)

section \<open>The queue of the wrapper\<close>

lemma L0_families_loop_count:
  "f \<in> set (L0_families_loop k c fs) \<Longrightarrow> ordinal f < k + length fs \<and> queueCount f = numQueues (fs ! (ordinal f - k))"
proof (induction fs arbitrary: k c)
  case (Cons p rest)
  let ?c = "snd (L0_getEngineGroup p c)"
  show ?case
  proof (cases "f \<in> set (L0_families_loop (Suc k) ?c rest)")
    case True
    from Cons.IH [OF True] L0_families_loop_ordinals [OF True] show ?thesis
      by (auto simp: nth_Cons' Suc_diff_le)
  next
    case False
    with Cons.prems show ?thesis by (auto simp: Let_def case_prod_unfold split: if_splits)
  qed
qed simp

lemma L0_queue_exists:
  assumes "L0_queue d e = Ok (Some (n, i))"
  shows "n < length d \<and> i < numQueues (d ! n)"
proof -
  from assms obtain fs f g where "L0_queryQueueFamilies d = Ok fs" "f \<in> set fs" "ordinal f = n" "i < queueCount f"
    by (rule l0.select_cases)
  then show ?thesis
    using L0_families_loop_count [of f 0 False d] by (auto simp: L0_queryQueueFamilies_def FATAL_ERROR_IF_eq_Inr)
qed

definition queue_fits :: "LevelZero \<Rightarrow> QueueProperties \<Rightarrow> created_queue \<Rightarrow> bool" where
  "queue_fits lz qp q \<longleftrightarrow> L0_getDevice lz (qp_deviceSelection qp) = Ok (cq_device q) \<and>
     L0_queue (drv_groups (lz_driver lz) (cq_device q)) (qp_selectedEngine qp) = Ok (Some (desc_ordinal (cq_desc q), desc_index (cq_desc q)))"

lemma L0_createQueue_cases:
  assumes "L0_createQueue lz qp = Ok (r, lz')"
  shows "r = None \<and> lz' = lz \<and> (qp_createQueue qp \<longrightarrow> \<not> qp_requireCreationSuccess qp) \<or>
    (\<exists>q. r = Some q \<and> lz' = lz\<lparr>commandQueues := commandQueues lz @ [cq_queue q]\<rparr> \<and> queue_fits lz qp q)"
  using assms
  by (auto simp: L0_createQueue_def L0_createQueue_desc_def queue_fits_def L0_queue_def bindR_eq_Inr FATAL_ERROR_IF_eq_Inr Let_def
      split: option.splits if_splits)

lemma L0_getDevice_cong:
  "lz_rootDevice lz = lz_rootDevice lz' \<Longrightarrow> lz_subDevices lz = lz_subDevices lz' \<Longrightarrow> L0_getDevice lz sel = L0_getDevice lz' sel"
  by (simp add: L0_getDevice_def)

text \<open>What the constructor has done to a wrapper of which the root device and the sub-devices are set.\<close>

definition L0_built :: "LevelZero \<Rightarrow> QueueProperties \<Rightarrow> ContextProperties \<Rightarrow> LevelZero \<Rightarrow> bool" where
  "L0_built lz0 qp cp lz \<longleftrightarrow>
     lz_driver lz = lz_driver lz0 \<and> lz_rootDevice lz = lz_rootDevice lz0 \<and> lz_subDevices lz = lz_subDevices lz0 \<and>
     (\<forall>d. lz_device lz = Some d \<longrightarrow> L0_getDevice lz0 (ctx_deviceSelection cp) = Ok d) \<and>
     (commandQueue lz = None \<and> commandQueues lz = [] \<or>
      (\<exists>q. queue_fits lz0 qp q \<and> lz_context lz \<noteq> None \<and> commandQueue lz = Some (cq_queue q) \<and> commandQueues lz = [cq_queue q] \<and>
        commandQueueDevice lz = Some (cq_device q) \<and> commandQueueDesc lz = Some (desc_ordinal (cq_desc q), desc_index (cq_desc q))))"

lemma initializeImportHostPointerExtension_cases:
  assumes "initializeImportHostPointerExtension lz ep = Ok lz'"
  obtains p where "lz' = lz\<lparr>importHostPointer := p\<rparr>"
proof (cases "getImportHostPointerFunctions ep")
  case True
  with assms that show thesis
    by (auto simp: initializeImportHostPointerExtension_def FATAL_ERROR_IF_eq_Inr Let_def)
next
  case False
  with assms have "lz' = lz" by (simp add: initializeImportHostPointerExtension_def)
  then show thesis by (intro that [of "importHostPointer lz"]) simp
qed

lemma L0_create_objects_built:
  assumes "L0_create_objects lz0 qp cp ep = Ok lz" "commandQueues lz0 = []" "commandQueue lz0 = None"
  shows "L0_built lz0 qp cp lz"
proof -
  from assms(1) obtain dev where dev: "\<forall>d. dev = Some d \<longrightarrow> L0_getDevice lz0 (ctx_deviceSelection cp) = Ok d"
    and rest: "(let lz = lz0\<lparr>lz_device := dev, lz_context := L0_createContext lz0 cp\<rparr>
     in if lz_context lz = None then Ok lz
        else bindR (L0_createQueue lz qp) (\<lambda>(q, lz).
             initializeImportHostPointerExtension (L0_set_queue lz q) ep)) = Ok lz"
    by (auto simp: L0_create_objects_def bindR_eq_Inr split: if_splits)
  let ?lz1 = "lz0\<lparr>lz_device := dev, lz_context := L0_createContext lz0 cp\<rparr>"
  show ?thesis
  proof (cases "lz_context ?lz1 = None")
    case True
    with rest dev assms show ?thesis by (auto simp: L0_built_def Let_def)
  next
    case False
    with rest obtain r lz2 where q: "L0_createQueue ?lz1 qp = Ok (r, lz2)"
      and i: "initializeImportHostPointerExtension (L0_set_queue lz2 r) ep = Ok lz" by (auto simp: Let_def bindR_eq_Inr)
    obtain p where lz: "lz = (L0_set_queue lz2 r)\<lparr>importHostPointer := p\<rparr>"
      by (rule initializeImportHostPointerExtension_cases [OF i])
    have "L0_getDevice ?lz1 sel = L0_getDevice lz0 sel" for sel by (rule L0_getDevice_cong) simp_all
    then have "queue_fits ?lz1 qp q \<longleftrightarrow> queue_fits lz0 qp q" for q by (simp add: queue_fits_def)
    with L0_createQueue_cases [OF q] show ?thesis
      using dev assms(2,3) False unfolding lz by (auto simp: L0_built_def L0_set_queue_def)
  qed
qed

section \<open>Properties\<close>

lemma L0_createSubDevices_fields:
  assumes "L0_createSubDevices lz r f = Ok lz'"
  shows "lz' = lz\<lparr>lz_subDevices := lz_subDevices lz'\<rparr>"
    "lz_subDevices lz' \<in> {drv_subDevices (lz_driver lz) (lz_rootDevice lz), [lz_rootDevice lz], []}"
  using assms by (auto simp: L0_createSubDevices_def Let_def split: if_splits)

text \<open>
  C38: A wrapper of Level Zero that is constructed without an error uses the devices and the queue it was asked for: the root
  device is the one of the configured driver and index, the default device is the single device of the context selection,
  and the queue, if there is one, belongs to the device of the queue selection, is the one queue that is released, and
  has a family and an index the driver reports for the requested engine.
\<close>

theorem levelzero_uses_what_was_selected:
  assumes "make_LevelZero drivers driverIndex rootDeviceIndex qp cp ep = Ok lz"
  shows "driverIndex < length drivers \<and> rootDeviceIndex < length (drv_devices (drivers ! driverIndex)) \<and>
    lz_rootDevice lz = drv_devices (drivers ! driverIndex) ! rootDeviceIndex \<and>
    (\<forall>d. lz_device lz = Some d \<longrightarrow> L0_getDevice lz (ctx_deviceSelection cp) = Ok d) \<and>
    (case commandQueue lz of
       None \<Rightarrow> fst (destroy_LevelZero lz) = []
     | Some q \<Rightarrow> fst (destroy_LevelZero lz) = [q] \<and> lz_context lz \<noteq> None \<and>
         (\<exists>d n i. commandQueueDevice lz = Some d \<and> L0_getDevice lz (qp_deviceSelection qp) = Ok d \<and>
            commandQueueDesc lz = Some (n, i) \<and>
            L0_queue (drv_groups (drivers ! driverIndex) d) (qp_selectedEngine qp) = Ok (Some (n, i)) \<and>
            n < length (drv_groups (drivers ! driverIndex) d) \<and> i < numQueues (drv_groups (drivers ! driverIndex) d ! n)))"
proof -
  let ?d = "drivers ! driverIndex"
  let ?fresh = "L0_fresh ?d rootDeviceIndex"
  have idx: "driverIndex < length drivers" "rootDeviceIndex < length (drv_devices ?d)"
    using assms by (auto simp: make_LevelZero_def FATAL_ERROR_IF_eq_Inr Let_def)
  have f: "commandQueues ?fresh = []" "commandQueue ?fresh = None" "lz_driver ?fresh = ?d"
    "lz_rootDevice ?fresh = drv_devices ?d ! rootDeviceIndex" "lz_device ?fresh = None" by (simp_all add: L0_fresh_def)
  obtain lz0 where lz0: "lz_driver lz0 = ?d" "lz_rootDevice lz0 = drv_devices ?d ! rootDeviceIndex" "L0_built lz0 qp cp lz"
  proof -
    from assms consider "L0_create_objects ?fresh qp cp ep = Ok lz"
      | lz1 where "L0_createSubDevices ?fresh (ctx_requireCreationSuccess cp) (ctx_fakeSubDeviceAllowed cp) = Ok lz1"
        "lz = lz1 \<or> L0_create_objects lz1 qp cp ep = Ok lz"
      by (auto simp: make_LevelZero_def FATAL_ERROR_IF_eq_Inr Let_def bindR_eq_Inr split: if_splits)
    then show thesis
    proof cases
      case 1
      with f show thesis by (intro that [of ?fresh] L0_create_objects_built) simp_all
    next
      case 2
      have lz1: "commandQueues lz1 = []" "commandQueue lz1 = None" "lz_driver lz1 = ?d"
        "lz_rootDevice lz1 = drv_devices ?d ! rootDeviceIndex" "lz_device lz1 = None"
        using f by (subst L0_createSubDevices_fields(1) [OF 2(1)], simp)+
      then have "L0_built lz1 qp cp lz1" by (simp add: L0_built_def)
      with 2(2) lz1 show thesis by (intro that [of lz1]) (auto intro: L0_create_objects_built)
    qed
  qed
  have "L0_getDevice lz sel = L0_getDevice lz0 sel" for sel
    using lz0(3) by (intro L0_getDevice_cong) (simp_all add: L0_built_def)
  then show ?thesis
    using idx lz0 L0_queue_exists by (auto simp: L0_built_def queue_fits_def destroy_LevelZero_def)
qed

definition example_driver :: ze_driver where
  "example_driver = \<lparr>drv_devices = [7], drv_subDevices = (\<lambda>_. [8, 9]), drv_groups = (\<lambda>_. [\<lparr>flags = 3, maxMemoryFillPatternSize = 16, numQueues = 2\<rparr>]),
     drv_context = 5, drv_queue = (\<lambda>n. 20 + n), drv_function = (\<lambda>_. None)\<rparr>"

definition example_queue :: QueueProperties where
  "example_queue = make_QueueProperties\<lparr>qp_deviceSelection := DS_Root, qp_selectedEngine := Ccs1\<rparr>"

definition example_context :: ContextProperties where
  "example_context = make_ContextProperties\<lparr>ctx_deviceSelection := DS_Root\<rparr>"

lemma example_properties:
  "hasAnySubDevice DS_Root = Ok False" "hasSingleDevice DS_Root = Ok True" "hasHost DS_Root = Ok False"
  "L0_getPropertiesForSelectingEngine (drv_groups example_driver d) Ccs1 =
     Ok (Some \<lparr>family = \<lparr>ordinal = 0, maxFillSize = 16, queueCount = 2, type = EG_Compute\<rparr>, desc_ordinal = 0, desc_index = 1\<rparr>)"
proof -
  show "hasAnySubDevice DS_Root = Ok False" "hasSingleDevice DS_Root = Ok True" "hasHost DS_Root = Ok False" by code_simp+
  show "L0_getPropertiesForSelectingEngine (drv_groups example_driver d) Ccs1 =
     Ok (Some \<lparr>family = \<lparr>ordinal = 0, maxFillSize = 16, queueCount = 2, type = EG_Compute\<rparr>, desc_ordinal = 0, desc_index = 1\<rparr>)"
    by (simp add: example_driver_def L0_getPropertiesForSelectingEngine_def L0_queryQueueFamilies_def
        L0_getEngineGroup_def FLAG_COMPUTE_def FLAG_COPY_def getEngineGroup_def
        getEngineIndexWithinGroup_def is_compute_engine_def is_copy_engine_def)
qed

lemma example_levelzero:
  "\<exists>lz. make_LevelZero [example_driver] 0 0 example_queue example_context ExtensionProperties_create = Ok lz \<and>
    commandQueue lz = Some 20 \<and> commandQueueDevice lz = Some 7"
proof -
  have s: "example_context = \<lparr>ctx_deviceSelection = DS_Root, ctx_requireCreationSuccess = True, ctx_createContext = True, ctx_fakeSubDeviceAllowed = False\<rparr>"
    "example_queue = \<lparr>qp_createQueue = True, qp_requireCreationSuccess = True, qp_selectedEngine = Ccs1, qp_deviceSelection = DS_Root\<rparr>"
    by (simp_all add: example_context_def make_ContextProperties_def example_queue_def make_QueueProperties_def)
  have d: "drv_devices example_driver = [7]" "drv_queue example_driver 0 = 20" by (simp_all add: example_driver_def)
  show ?thesis
    by (simp add: make_LevelZero_def s d L0_create_objects_def L0_getDevice_def L0_createContext_def L0_createQueue_def L0_createQueue_desc_def
        L0_fresh_def L0_set_queue_def initializeImportHostPointerExtension_def ExtensionProperties_create_def example_properties)
qed

theorem levelzero_uses_what_was_selected_witness:
  "\<exists>lz n i. make_LevelZero [example_driver] 0 0 example_queue example_context ExtensionProperties_create = Ok lz \<and>
    fst (destroy_LevelZero lz) = [20] \<and> L0_queue (drv_groups example_driver 7) Ccs1 = Ok (Some (n, i))"
proof -
  obtain lz where lz: "make_LevelZero [example_driver] 0 0 example_queue example_context ExtensionProperties_create = Ok lz"
    "commandQueue lz = Some 20" "commandQueueDevice lz = Some 7" using example_levelzero by blast
  have "qp_selectedEngine example_queue = Ccs1" by (simp add: example_queue_def)
  with levelzero_uses_what_was_selected [OF lz(1)] lz show ?thesis by auto
qed

lemma int_unat_less: "unat w < 2 ^ k \<Longrightarrow> int (unat w) < 2 ^ k" for w :: "64 word"
  by (metis of_nat_less_iff of_nat_numeral of_nat_power)

text \<open>
  The time between an enqueue and the start of a kernel is computed modulo the width of the device's time stamps, so it is right
  when the counter has wrapped around once, with one exception: equal time stamps give a whole period of the
  counter instead of zero. The multiplication does not overflow as long as one period is less than \<open>2 ^ 63\<close>
  nanoseconds; for time stamps of 64 bits the mask is undefined.
\<close>

lemma submission_time_modulo_period:
  assumes "bits < 64" "unat start < 2 ^ bits" "unat enqueue < 2 ^ bits" "2 ^ bits * unat resolution < (2 :: nat) ^ 63"
  shows "getAbsoluteSubmissionTime bits start enqueue resolution =
    Ok ((if start = enqueue then 2 ^ bits else (int (unat start) - int (unat enqueue)) mod 2 ^ bits) * int (unat resolution))"
proof -
  let ?s = "int (unat start)" and ?e = "int (unat enqueue)" and ?r = "int (unat resolution)"
  define t where "t = (if start = enqueue then 2 ^ bits else (?s - ?e) mod 2 ^ bits)"
  have u: "(?s :: int) = uint start" "?e = uint enqueue" "?r = uint resolution" by simp_all
  have bounds: "0 \<le> ?s" "?s < 2 ^ bits" "0 \<le> ?e" "?e < 2 ^ bits" 
    using int_unat_less [OF assms(2)] int_unat_less [OF assms(3)] by simp_all
  have t: "t = (if start > enqueue then ?s - ?e else 2 ^ bits + ?s - ?e)"
  proof (cases "start > enqueue")
    case True
    then have "?e < ?s" by (simp add: word_less_def)
    then have "(?s - ?e) mod 2 ^ bits = ?s - ?e" using bounds by (intro mod_pos_pos_trivial) linarith+
    then show ?thesis using True by (auto simp: t_def)
  next
    case False
    then have le: "?s \<le> ?e" by (simp add: word_less_def not_less)
    show ?thesis
    proof (cases "start = enqueue")
      case False
      then have "?s \<noteq> ?e" by (metis of_nat_eq_iff word_unat_eq_iff)
      moreover have "(?s - ?e) mod 2 ^ bits = (?s - ?e + 2 ^ bits) mod 2 ^ bits" by (rule mod_add_self2 [symmetric])
      ultimately have "(?s - ?e) mod 2 ^ bits = 2 ^ bits + ?s - ?e"
        using le bounds mod_pos_pos_trivial [of "?s - ?e + 2 ^ bits" "2 ^ bits"] by linarith
      with False le show ?thesis by (simp add: t_def word_less_def not_less)
    qed (simp add: t_def)
  qed
  have range: "0 \<le> t" "t \<le> 2 ^ bits" using bounds by (auto simp: t_def intro: less_imp_le)
  have word: "of_int t = (if start > enqueue then start - enqueue else push_bit bits 1 - 1 + 1 + start - enqueue)"
    unfolding t by (simp add: push_bit_eq_mult)
  have "t * ?r \<le> 2 ^ bits * ?r" using range by (intro mult_right_mono) simp_all
  moreover have "int (2 ^ bits * unat resolution) < int (2 ^ 63)" using assms(4) by (simp only: of_nat_less_iff)
  then have "(2 :: int) ^ bits * ?r < 2 ^ 63" by simp
  moreover have "0 \<le> t * ?r" using range by simp
  ultimately have "signed_take_bit 63 (t * ?r) = t * ?r" by (intro signed_take_bit_int_eq_self) linarith+
  moreover have "of_int t * resolution = of_int (t * ?r)" by simp
  ultimately have "sint (of_int t * resolution) = t * ?r" by (simp only: sint_sbintrunc') simp
  then show ?thesis
    using assms(1) word by (auto simp: getAbsoluteSubmissionTime_def getKernelTimestampValidBitsMask_def t_def)
qed

end
