(* ===== verification/Opencl.thy ===== *)
theory Opencl
  imports Level_Zero
begin

unbundle bit_operations_syntax

text \<open>
  The wrapper of the OpenCL driver: \<open>framework/ocl/opencl.cpp\<close>, \<open>context_properties.h\<close> and \<open>queue_properties.h\<close>. As in
  \<open>Level_Zero\<close> the driver is a parameter that is given by its answers; here the return codes of the calls that
  create objects are part of them, since the code looks at them. Reading an array outside its bounds is undefined.
\<close>

section \<open>Properties\<close>

record OCL_ContextProperties =
  oc_deviceSelection :: DeviceSelection
  oc_createContext :: bool
  oc_requireCreationSuccess :: bool

definition make_OCL_ContextProperties :: OCL_ContextProperties where
  "make_OCL_ContextProperties = \<lparr>oc_deviceSelection = DS_Unknown, oc_createContext = True, oc_requireCreationSuccess = True\<rparr>"

definition OCL_ContextProperties_setDeviceSelection :: "OCL_ContextProperties \<Rightarrow> DeviceSelection \<Rightarrow> OCL_ContextProperties" where
  "OCL_ContextProperties_setDeviceSelection p newValue = p\<lparr>oc_deviceSelection := newValue\<rparr>"

definition OCL_ContextProperties_create :: "Configuration \<Rightarrow> OCL_ContextProperties" where
  "OCL_ContextProperties_create cfg = OCL_ContextProperties_setDeviceSelection make_OCL_ContextProperties (cfg_subDeviceSelection cfg)"

definition OCL_ContextProperties_disable :: "OCL_ContextProperties \<Rightarrow> OCL_ContextProperties" where
  "OCL_ContextProperties_disable p = p\<lparr>oc_createContext := False\<rparr>"

definition OCL_ContextProperties_allowCreationFail :: "OCL_ContextProperties \<Rightarrow> OCL_ContextProperties" where
  "OCL_ContextProperties_allowCreationFail p = p\<lparr>oc_requireCreationSuccess := False\<rparr>"

record OCL_QueueProperties =
  oq_createQueue :: bool
  oq_requireCreationSuccess :: bool
  oq_profiling :: bool
  oq_selectedEngine :: Engine
  oq_ooq :: int
  oq_deviceSelection :: DeviceSelection

definition make_OCL_QueueProperties :: OCL_QueueProperties where
  "make_OCL_QueueProperties = \<lparr>oq_createQueue = True, oq_requireCreationSuccess = True, oq_profiling = False,
     oq_selectedEngine = Engine_Unknown, oq_ooq = -1, oq_deviceSelection = DS_Unknown\<rparr>"

definition OCL_QueueProperties_setDeviceSelection :: "OCL_QueueProperties \<Rightarrow> DeviceSelection \<Rightarrow> OCL_QueueProperties result" where
  "OCL_QueueProperties_setDeviceSelection p newValue =
     bindR (hasSingleDevice newValue) (\<lambda>single. FATAL_ERROR_IF (\<not> single) ''Queue can be created only on a single device''
       (Ok (p\<lparr>oq_deviceSelection := newValue\<rparr>)))"

definition OCL_QueueProperties_create :: "Configuration \<Rightarrow> OCL_QueueProperties result" where
  "OCL_QueueProperties_create cfg = OCL_QueueProperties_setDeviceSelection make_OCL_QueueProperties (cfg_subDeviceSelection cfg)"

definition setProfiling :: "OCL_QueueProperties \<Rightarrow> bool \<Rightarrow> OCL_QueueProperties" where
  "setProfiling p newValue = p\<lparr>oq_profiling := newValue\<rparr>"

definition OCL_setForceBlitter :: "OCL_QueueProperties \<Rightarrow> bool \<Rightarrow> OCL_QueueProperties" where
  "OCL_setForceBlitter p bcs = p\<lparr>oq_selectedEngine := (if bcs then Bcs else Engine_Unknown)\<rparr>"

definition OCL_setForceEngine :: "OCL_QueueProperties \<Rightarrow> Engine \<Rightarrow> OCL_QueueProperties" where
  "OCL_setForceEngine p engine = p\<lparr>oq_selectedEngine := engine\<rparr>"

definition setOoq :: "OCL_QueueProperties \<Rightarrow> bool \<Rightarrow> OCL_QueueProperties" where
  "setOoq p newValue = p\<lparr>oq_ooq := (if newValue then 1 else 0)\<rparr>"

definition OCL_QueueProperties_disable :: "OCL_QueueProperties \<Rightarrow> OCL_QueueProperties" where
  "OCL_QueueProperties_disable p = p\<lparr>oq_createQueue := False\<rparr>"

definition OCL_QueueProperties_allowCreationFail :: "OCL_QueueProperties \<Rightarrow> OCL_QueueProperties" where
  "OCL_QueueProperties_allowCreationFail p = p\<lparr>oq_requireCreationSuccess := False\<rparr>"

definition CL_QUEUE_PROPERTIES :: nat where "CL_QUEUE_PROPERTIES = 0x1093"
definition CL_QUEUE_OUT_OF_ORDER_EXEC_MODE_ENABLE :: "64 word" where "CL_QUEUE_OUT_OF_ORDER_EXEC_MODE_ENABLE = 1"
definition CL_QUEUE_PROFILING_ENABLE :: "64 word" where "CL_QUEUE_PROFILING_ENABLE = 2"

text \<open>
  \<open>fillQueueProperties\<close> fills a list of \<open>size\<close> entries: the flags behind their key, then the family and index of the queue; the
  rest stays zero. \<open>None\<close> is the return value false. A list that is too short is written out of bounds.
\<close>

definition queue_flags :: "bool \<Rightarrow> OCL_QueueProperties \<Rightarrow> 64 word" where
  "queue_flags useOOQ p =
     (if oq_profiling p then CL_QUEUE_PROFILING_ENABLE else 0) OR
     (if oq_ooq p = 1 \<or> (oq_ooq p = -1 \<and> useOOQ) then CL_QUEUE_OUT_OF_ORDER_EXEC_MODE_ENABLE else 0)"

definition fillQueueProperties ::
  "bool \<Rightarrow> cl_queue_family_properties_intel list option \<Rightarrow> OCL_QueueProperties \<Rightarrow> nat \<Rightarrow> nat list option result" where
  "fillQueueProperties useOOQ families p sz =
     (let start = [CL_QUEUE_PROPERTIES, unat (queue_flags useOOQ p)];
          filled = (\<lambda>ps. if length (start @ ps) > sz then Inl (Undefined_behaviour ''write behind the properties'')
                        else Ok (Some (start @ ps @ replicate (sz - length (start @ ps)) 0)))
      in if oq_selectedEngine p \<noteq> Engine_Unknown
         then bindR (OCL_getPropertiesForSelectingEngine families (oq_selectedEngine p)) (\<lambda>r.
                case r of None \<Rightarrow> Ok None | Some ps \<Rightarrow> filled ps)
         else filled [])"

section \<open>The driver and the wrapper\<close>

text \<open>
  A platform has the GPU devices \<open>clGetDeviceIDs\<close> reports, or \<open>None\<close> when the call fails. \<open>pl_newQueue\<close> and \<open>pl_newContext\<close> are the
  handle and return code of a creation; a null handle is \<open>None\<close>.
\<close>

record cl_platform =
  pl_devices :: "nat list option"
  pl_families :: "nat \<Rightarrow> cl_queue_family_properties_intel list option"
  pl_nextPartitionable :: "nat \<Rightarrow> bool"
  pl_numa :: "nat \<Rightarrow> bool"
  pl_subDevices :: "nat \<Rightarrow> nat list"
  pl_newContext :: "nat list \<Rightarrow> nat option \<times> int"
  pl_newQueue :: "nat \<Rightarrow> nat list \<Rightarrow> nat option \<times> int"

record Opencl =
  ocl_platform :: cl_platform
  ocl_rootDevice :: nat
  ocl_subDevices :: "nat list"
  ocl_device :: "nat option"
  ocl_context :: "nat option"
  ocl_commandQueue :: "nat option"
  ocl_commandQueues :: "nat list"
  ocl_contexts :: "nat list"

definition OCL_getDevice :: "Opencl \<Rightarrow> DeviceSelection \<Rightarrow> nat result" where
  "OCL_getDevice self deviceSelection =
     bindR (hasHost deviceSelection) (\<lambda>host. FATAL_ERROR_IF host ''Cannot get cl_device_id for host''
     (bindR (hasSingleDevice deviceSelection) (\<lambda>single. FATAL_ERROR_IF (\<not> single) ''Cannot get multiple devices''
       (if deviceSelection = DS_Root then Ok (ocl_rootDevice self)
        else bindR (getSubDeviceIndex deviceSelection) (\<lambda>subDeviceIndex.
          FATAL_ERROR_IF (\<not> subDeviceIndex < length (ocl_subDevices self)) ''Invalid subDevice index''
            (Ok (ocl_subDevices self ! subDeviceIndex)))))))"

definition OCL_getDevices :: "Opencl \<Rightarrow> DeviceSelection \<Rightarrow> bool \<Rightarrow> nat list result" where
  "OCL_getDevices self deviceSelection requireSuccess =
     bindR (hasHost deviceSelection) (\<lambda>host. FATAL_ERROR_IF host ''Cannot get cl_device_id for host''
     (bindR (foldM (\<lambda>res subDevice.
           bindR (hasDevice deviceSelection subDevice) (\<lambda>has.
             if \<not> has then Ok res
             else bindR (getSubDeviceIndex subDevice) (\<lambda>i.
               FATAL_ERROR_IF (i \<ge> length (ocl_subDevices self) \<and> requireSuccess) ''Invalid subDevice selected''
                 (if i \<ge> length (ocl_subDevices self) then Inl (Undefined_behaviour ''read behind the sub-devices'')
                  else Ok (res @ [ocl_subDevices self ! i])))))
         (if DS_and deviceSelection DS_Root = DS_Root then [ocl_rootDevice self] else []) subDevices) (\<lambda>res.
      bindR (getDevicesCount deviceSelection) (\<lambda>expectedCount.
        if expectedCount \<noteq> length res
        then FATAL_ERROR_IF requireSuccess ''Invalid number of devices accumulated'' (Ok [])
        else Ok res))))"

definition OCL_createSubDevices :: "Opencl \<Rightarrow> bool \<Rightarrow> (bool \<times> Opencl) result" where
  "OCL_createSubDevices self requireSuccess =
     (let pl = ocl_platform self; d = ocl_rootDevice self
      in if length (ocl_subDevices self) \<noteq> 0 then Ok (True, self)
         else if \<not> pl_nextPartitionable pl d
         then FATAL_ERROR_IF requireSuccess ''SubDevice was selected, but device is not partitionable'' (Ok (False, self))
         else if \<not> pl_numa pl d
         then FATAL_ERROR_IF requireSuccess ''SubDevice was selected, but device is not CL_DEVICE_AFFINITY_DOMAIN_NUMA'' (Ok (False, self))
         else Ok (True, self\<lparr>ocl_subDevices := pl_subDevices pl d\<rparr>))"

definition OCL_createContext :: "Opencl \<Rightarrow> OCL_ContextProperties \<Rightarrow> (nat option \<times> Opencl) result" where
  "OCL_createContext self contextProperties =
     (if \<not> oc_createContext contextProperties then Ok (None, self)
      else bindR (OCL_getDevices self (oc_deviceSelection contextProperties) False) (\<lambda>devicesForContext.
        if length devicesForContext = 0
        then FATAL_ERROR_IF (oc_requireCreationSuccess contextProperties) ''Failed getting devices for context'' (Ok (None, self))
        else let (createdContext, retVal) = pl_newContext (ocl_platform self) devicesForContext
             in FATAL_ERROR_IF (oc_requireCreationSuccess contextProperties \<and> retVal \<noteq> 0) ''Context creation failed''
               (Ok (createdContext, case createdContext of None \<Rightarrow> self | Some c \<Rightarrow> self\<lparr>ocl_contexts := ocl_contexts self @ [c]\<rparr>))))"

definition OCL_createQueue :: "bool \<Rightarrow> Opencl \<Rightarrow> OCL_QueueProperties \<Rightarrow> (nat option \<times> Opencl) result" where
  "OCL_createQueue useOOQ self queueProperties =
     (if \<not> oq_createQueue queueProperties then Ok (None, self)
      else bindR (OCL_getDevice self (oq_deviceSelection queueProperties)) (\<lambda>deviceForQueue.
        bindR (fillQueueProperties useOOQ (pl_families (ocl_platform self) deviceForQueue) queueProperties 7) (\<lambda>filled.
          let (queue, retVal) = (case filled of Some properties \<Rightarrow> pl_newQueue (ocl_platform self) deviceForQueue properties | None \<Rightarrow> (None, 0))
          in FATAL_ERROR_IF (oq_requireCreationSuccess queueProperties \<and> retVal \<noteq> 0) ''Command queue creation failed''
            (Ok (queue, case queue of None \<Rightarrow> self | Some q \<Rightarrow> self\<lparr>ocl_commandQueues := ocl_commandQueues self @ [q]\<rparr>)))))"

text \<open>
  The platform index: -1 stands for the last platform with a GPU. The loop assigns each such platform in turn. The comparison with the
  number of platforms is of signed 64-bit numbers, so a negative index passes it.
\<close>

definition select_platform :: "cl_platform list \<Rightarrow> int \<Rightarrow> int" where
  "select_platform platforms platformIndex =
     (if platformIndex = -1
      then fold (\<lambda>i index. if pl_devices (platforms ! i) \<noteq> None then int i else index) [0..<length platforms] platformIndex
      else platformIndex)"

definition OCL_create_objects :: "bool \<Rightarrow> Opencl \<Rightarrow> OCL_QueueProperties \<Rightarrow> OCL_ContextProperties \<Rightarrow> Opencl result" where
  "OCL_create_objects useOOQ self queueProperties contextProperties =
     bindR (hasSingleDevice (oc_deviceSelection contextProperties)) (\<lambda>single.
     bindR (if single then bindR (OCL_getDevice self (oc_deviceSelection contextProperties)) (\<lambda>d. Ok (Some d)) else Ok None) (\<lambda>dev.
     bindR (OCL_createContext (self\<lparr>ocl_device := dev\<rparr>) contextProperties) (\<lambda>(context, self).
     let self = self\<lparr>ocl_context := context\<rparr>
     in if context = None then Ok self
        else bindR (OCL_createQueue useOOQ self queueProperties) (\<lambda>(queue, self). Ok (self\<lparr>ocl_commandQueue := queue\<rparr>)))))"

definition OCL_fresh :: "cl_platform \<Rightarrow> nat \<Rightarrow> Opencl" where
  "OCL_fresh platform rootDevice = \<lparr>ocl_platform = platform, ocl_rootDevice = rootDevice, ocl_subDevices = [], ocl_device = None,
     ocl_context = None, ocl_commandQueue = None, ocl_commandQueues = [], ocl_contexts = []\<rparr>"

definition OCL_setup :: "bool \<Rightarrow> Opencl \<Rightarrow> OCL_QueueProperties \<Rightarrow> OCL_ContextProperties \<Rightarrow> Opencl result" where
  "OCL_setup useOOQ self queueProperties contextProperties =
     (let deviceSelection = oc_deviceSelection contextProperties
      in bindR (hasAnySubDevice deviceSelection) (\<lambda>anySub.
         if anySub
         then bindR (OCL_createSubDevices self (oc_requireCreationSuccess contextProperties)) (\<lambda>(_, self).
              bindR (getMaxSubDeviceIndex deviceSelection) (\<lambda>maxIndex.
                if length (ocl_subDevices self) < maxIndex + 1 then Ok self
                else OCL_create_objects useOOQ self queueProperties contextProperties))
         else OCL_create_objects useOOQ self queueProperties contextProperties))"

definition make_Opencl ::
  "cl_platform list \<Rightarrow> bool \<Rightarrow> int \<Rightarrow> nat \<Rightarrow> OCL_QueueProperties \<Rightarrow> OCL_ContextProperties \<Rightarrow> Opencl result" where
  "make_Opencl platforms useOOQ oclPlatformIndex deviceIndex queueProperties contextProperties =
     (let platformIndex = select_platform platforms oclPlatformIndex
      in FATAL_ERROR_IF (platformIndex \<ge> int (length platforms)) 
         (''Invalid OCL platform index. platformIndex='' @ to_string platformIndex @ '' numPlatforms='' @ to_string (int (length platforms)))
        (if platformIndex < 0 then Inl (Undefined_behaviour ''read before the platforms'')
         else let platform = platforms ! nat platformIndex
              in bindR (case pl_devices platform of None \<Rightarrow> Inl (Undefined_behaviour ''read of the unset device count'') | Some ds \<Rightarrow> Ok ds) (\<lambda>devs.
                FATAL_ERROR_IF (deviceIndex \<ge> length devs) 
                  (''Invalid OCL device index. deviceIndex='' @ to_string (int deviceIndex) @ '' numDevices='' @ to_string (int (length devs)))
                (OCL_setup useOOQ (OCL_fresh platform (devs ! deviceIndex)) queueProperties contextProperties))))"

text \<open>The destructor: the queues, contexts and sub-devices it releases.\<close>

definition destroy_Opencl :: "Opencl \<Rightarrow> nat list \<times> nat list \<times> nat list" where
  "destroy_Opencl self = (ocl_commandQueues self, ocl_contexts self, ocl_subDevices self)"

interpretation ocldev: device_source ocl_rootDevice ocl_subDevices OCL_getDevice
  by unfold_locales (simp only: OCL_getDevice_def select_device_iff)

section \<open>The platform\<close>

lemma select_platform_scan:
  "fold (\<lambda>i index. if pl_devices (platforms ! i) \<noteq> None then int i else index) [0..<n] a =
    (if \<exists>i<n. pl_devices (platforms ! i) \<noteq> None then int (GREATEST i. i < n \<and> pl_devices (platforms ! i) \<noteq> None) else a)"
proof (induction n)
  case (Suc n)
  have "(GREATEST i. i < Suc n \<and> pl_devices (platforms ! i) \<noteq> None) = n" if "pl_devices (platforms ! n) \<noteq> None"
    using that by (intro Greatest_equality) auto
  moreover have "(\<lambda>i. i < Suc n \<and> pl_devices (platforms ! i) \<noteq> None) = (\<lambda>i. i < n \<and> pl_devices (platforms ! i) \<noteq> None)"
    if "pl_devices (platforms ! n) = None" using that less_Suc_eq by fastforce
  ultimately show ?case using Suc less_Suc_eq by (cases "pl_devices (platforms ! n)") auto
qed simp

section \<open>Undefined behaviour\<close>

definition undefined_result :: "'a result \<Rightarrow> bool" where
  "undefined_result r \<longleftrightarrow> (\<exists>w. r = Inl (Undefined_behaviour w))"

lemma undefined_result_simps [simp]:
  "\<not> undefined_result (Ok x)" "\<not> undefined_result (FATAL_ERROR m)" "undefined_result (Inl (Undefined_behaviour w))"
  "undefined_result (FATAL_ERROR_IF c m k) \<longleftrightarrow> \<not> c \<and> undefined_result k"
  "undefined_result (bindR r f) \<longleftrightarrow> undefined_result r \<or> (\<exists>x. r = Ok x \<and> undefined_result (f x))"
  by (auto simp: undefined_result_def FATAL_ERROR_IF_def bindR_eq_Inl)

lemma device_lookup_defined [simp]:
  "\<not> undefined_result (hasHost sel)" "\<not> undefined_result (hasSingleDevice sel)" "\<not> undefined_result (getSubDeviceIndex sel)"
  "\<not> undefined_result (hasAnySubDevice sel)" "\<not> undefined_result (getDevicesCount sel)"
  by (simp_all add: hasHost_eq hasSingleDevice_eq getSubDeviceIndex_def hasAnySubDevice_eq getDevicesCount_eq)

lemma OCL_getDevice_defined [simp]: "\<not> undefined_result (OCL_getDevice self sel)"
  by (auto simp: OCL_getDevice_def)

lemma engine_defined [simp]:
  "\<not> undefined_result (getEngineGroup e n)" "\<not> undefined_result (getEngineIndexWithinGroup e n)"
  by (cases e; simp add: getEngineGroup_def getEngineIndexWithinGroup_def is_compute_engine_def is_copy_engine_def Let_def)+

lemma OCL_select_loop_length: "OCL_select_loop g i fs = Some ps \<Longrightarrow> length ps = 4"
  by (induction fs) (auto split: if_splits)

text \<open>The list of seven entries has room for the flags, the queue and the terminator.\<close>

lemma fillQueueProperties_defined [simp]: "\<not> undefined_result (fillQueueProperties useOOQ families p 7)"
  by (auto simp: fillQueueProperties_def OCL_getPropertiesForSelectingEngine_def Let_def bindR_eq_Inr dest: OCL_select_loop_length split: option.split)

lemma OCL_createQueue_defined [simp]: "\<not> undefined_result (OCL_createQueue useOOQ self qp)"
  by (auto simp: OCL_createQueue_def Let_def case_prod_unfold)

text \<open>The constructor reads only sub-devices that exist.\<close>

lemma four_indices: "set [0..<4] \<subseteq> {..<4 :: nat}"
  by auto

lemma OCL_getDevices_defined:
  assumes "\<And>j. j < 4 \<Longrightarrow> bit sel (j + 2) \<Longrightarrow> j < length (ocl_subDevices self)"
  shows "\<not> undefined_result (OCL_getDevices self sel r)"
proof -
  have "\<not> undefined_result (foldM (\<lambda>res subDevice.
           bindR (hasDevice sel subDevice) (\<lambda>has.
             if \<not> has then Ok res
             else bindR (getSubDeviceIndex subDevice) (\<lambda>i.
               FATAL_ERROR_IF (i \<ge> length (ocl_subDevices self) \<and> r) ''Invalid subDevice selected''
                 (if i \<ge> length (ocl_subDevices self) then Inl (Undefined_behaviour ''read behind the sub-devices'')
                  else Ok (res @ [ocl_subDevices self ! i]))))) res (map (\<lambda>j. device (j + 2)) js))" if "set js \<subseteq> {..<4}" for res js
    using that
  proof (induction js arbitrary: res)
    case (Cons j js)
    then have "j < 4" by simp
    then have "hasDevice sel (device (j + 2)) = Ok (bit sel (j + 2))" "getSubDeviceIndex (device (j + 2)) = Ok j"
      using hasDevice_device [of "j + 2" sel] getSubDeviceIndex_device by auto
    with Cons assms [OF \<open>j < 4\<close>] show ?case by (auto simp del: add_2_eq_Suc')
  qed simp
  note loop = this [OF four_indices]
  show ?thesis unfolding OCL_getDevices_def subDevices_eq using loop by auto
qed

lemma getMaxSubDeviceIndex_bound:
  assumes "getMaxSubDeviceIndex sel = Ok m" "j < 4" "bit sel (j + 2)"
  shows "j \<le> m"
proof -
  have h: "hasDevice sel (device (i + 2)) = Ok (bit sel (i + 2))" "getSubDeviceIndex (device (i + 2)) = Ok i" if "i < 4" for i
    using hasDevice_device [of "i + 2" sel] that getSubDeviceIndex_device by auto
  have "foldM (\<lambda>(found, maxIndex) subDevice.
           bindR (hasDevice sel subDevice) (\<lambda>has.
             if has then bindR (getSubDeviceIndex subDevice) (\<lambda>i. Ok (True, max maxIndex i))
             else Ok (found, maxIndex))) (b, k) (map (\<lambda>j. device (j + 2)) js) = Ok (b', m') \<Longrightarrow>
       k \<le> m' \<and> (\<forall>j \<in> set js. bit sel (j + 2) \<longrightarrow> j \<le> m')" if "set js \<subseteq> {..<4}" for js b k b' m'
    using that
  proof (induction js arbitrary: b k)
    case (Cons i js)
    with h [of i] show ?case by (fastforce simp del: add_2_eq_Suc' split: if_splits)
  qed simp
  note loop = this [OF four_indices]
  show ?thesis using assms loop unfolding getMaxSubDeviceIndex_def subDevices_eq
    by (fastforce simp: bindR_eq_Inr FATAL_ERROR_IF_eq_Inr)
qed

lemma OCL_createContext_fields:
  assumes "OCL_createContext self cp = Ok (c, self')"
  shows "ocl_subDevices self' = ocl_subDevices self" "ocl_rootDevice self' = ocl_rootDevice self" "ocl_platform self' = ocl_platform self"
  using assms by (auto simp: OCL_createContext_def bindR_eq_Inr FATAL_ERROR_IF_eq_Inr case_prod_unfold Let_def split: if_splits option.splits)

lemma OCL_create_objects_defined:
  assumes "\<And>j. j < 4 \<Longrightarrow> bit (oc_deviceSelection cp) (j + 2) \<Longrightarrow> j < length (ocl_subDevices self)"
  shows "\<not> undefined_result (OCL_create_objects useOOQ self qp cp)"
proof -
  have "\<not> undefined_result (OCL_createContext (self\<lparr>ocl_device := d\<rparr>) cp)" for d
    using OCL_getDevices_defined [of "oc_deviceSelection cp" "self\<lparr>ocl_device := d\<rparr>"] assms
    by (auto simp: OCL_createContext_def case_prod_unfold Let_def)
  then show ?thesis by (auto simp: OCL_create_objects_def Let_def split: if_splits)
qed

lemma getMaxSubDeviceIndex_defined [simp]: "\<not> undefined_result (getMaxSubDeviceIndex sel)"
proof -
  have "\<not> undefined_result (foldM (\<lambda>(found, maxIndex) subDevice.
           bindR (hasDevice sel subDevice) (\<lambda>has.
             if has then bindR (getSubDeviceIndex subDevice) (\<lambda>i. Ok (True, max maxIndex i))
             else Ok (found, maxIndex))) bk ds)" for bk ds
    by (induction ds arbitrary: bk) (auto simp: hasDevice_def FATAL_ERROR_IF_def split: if_splits)
  then show ?thesis by (auto simp: getMaxSubDeviceIndex_def)
qed

text \<open>
  The constructor of the OpenCL wrapper has undefined behaviour in two cases and no other: the platform index is negative, which its check
  lets pass (an index below -1, or -1 when no platform has a GPU), or the chosen platform has no GPU, so that the number of its
  devices is not set. The sub-devices are never read out of bounds and the list of queue properties is never too short. When
  the index is -1 and a platform has a GPU, the last such platform is used.
\<close>

lemma opencl_constructor_undefined_iff:
  "(undefined_result (make_Opencl platforms useOOQ platformIndex deviceIndex qp cp) \<longleftrightarrow>
     (let i = select_platform platforms platformIndex
      in i < 0 \<or> (i < int (length platforms) \<and> pl_devices (platforms ! nat i) = None))) \<and>
   select_platform platforms platformIndex =
     (if platformIndex \<noteq> -1 then platformIndex
      else if \<exists>i<length platforms. pl_devices (platforms ! i) \<noteq> None
      then int (GREATEST i. i < length platforms \<and> pl_devices (platforms ! i) \<noteq> None)
      else -1)"
proof
  let ?sel = "oc_deviceSelection cp"
  have objects: "\<not> undefined_result (OCL_create_objects useOOQ self qp cp)"
    if "hasAnySubDevice ?sel = Ok False \<or> (\<exists>m. getMaxSubDeviceIndex ?sel = Ok m \<and> m + 1 \<le> length (ocl_subDevices self))" for self
  proof (rule OCL_create_objects_defined)
    fix j :: nat
    assume j: "j < 4" "bit ?sel (j + 2)"
    then have "hasAnySubDevice ?sel \<noteq> Ok False" by (auto simp: hasAnySubDevice_eq)
    with that obtain m where "getMaxSubDeviceIndex ?sel = Ok m" "m + 1 \<le> length (ocl_subDevices self)" by blast
    with getMaxSubDeviceIndex_bound [OF this(1) j] show "j < length (ocl_subDevices self)" by simp
  qed
  have subs: "\<not> undefined_result (OCL_createSubDevices self r)" for self r by (auto simp: OCL_createSubDevices_def Let_def)
  have "\<not> undefined_result (OCL_setup useOOQ self qp cp)" for self
    using objects subs by (auto simp: OCL_setup_def Let_def not_less split: if_splits)
  note rest = this
  show "undefined_result (make_Opencl platforms useOOQ platformIndex deviceIndex qp cp) \<longleftrightarrow>
     (let i = select_platform platforms platformIndex
      in i < 0 \<or> (i < int (length platforms) \<and> pl_devices (platforms ! nat i) = None))"
    using rest by (auto simp: make_Opencl_def Let_def split: option.splits)
qed (unfold select_platform_def select_platform_scan, auto)

text \<open>
  A queue for an engine the device does not have is an error in Level Zero when creation is required, but not in OpenCL: there the
  creation call is skipped, its return code keeps the value of success, and the wrapper goes on without a queue
  although success was required.
\<close>

lemma opencl_missing_queue_unreported:
  assumes "oq_createQueue qp" "oq_requireCreationSuccess qp" "oq_selectedEngine qp \<noteq> Engine_Unknown"
    and "OCL_getDevice self (oq_deviceSelection qp) = Ok d"
    and "OCL_getPropertiesForSelectingEngine (pl_families (ocl_platform self) d) (oq_selectedEngine qp) = Ok None"
    and "qp_createQueue qp'" "qp_requireCreationSuccess qp'" "L0_getDevice lz (qp_deviceSelection qp') = Ok d'"
    and "L0_getPropertiesForSelectingEngine (drv_groups (lz_driver lz) d') (qp_selectedEngine qp') = Ok None"
  shows "OCL_createQueue useOOQ self qp = Ok (None, self) \<and>
    L0_createQueue lz qp' = FATAL_ERROR ''Device does not support such queue''"
  using assms by (simp add: OCL_createQueue_def fillQueueProperties_def L0_createQueue_def)

definition example_platform :: cl_platform where
  "example_platform = \<lparr>pl_devices = Some [4], pl_families = (\<lambda>_. Some []), pl_nextPartitionable = (\<lambda>_. False), pl_numa = (\<lambda>_. False),
     pl_subDevices = (\<lambda>_. []), pl_newContext = (\<lambda>_. (Some 1, 0)), pl_newQueue = (\<lambda>_ _. (Some 2, 0))\<rparr>"

end
