(* ===== verification/Usm_Helpers.thy ===== *)
theory Usm_Helpers
  imports Opencl
begin

text \<open>
  Allocation of memory for the tests: \<open>framework/l0/utility/usm_helper.cpp\<close>, \<open>ocl/utility/usm_helper_ocl.cpp\<close>,
  \<open>ocl/utility/hostptr_reuse_helper.cpp\<close>, \<open>sycl/utility/usm_helper.cpp\<close> and \<open>alloc2MBAligned\<close> of both operating systems.

  The memory of the program is a map from addresses to blocks, each of which remembers the allocator it came from; releasing a
  block with another allocator is undefined. The driver and the system are given by the address of the new block and the
  return codes of the calls; the system never runs out of memory. The locale \<open>memory_helper\<close> is the contract the four
  helpers share: what is allocated for a placement is released for it. The client of the locale is a test that allocates any
  number of buffers and releases them.
\<close>

section \<open>Memory\<close>

datatype block =
    Device_block nat | Host_block | Shared_block nat
  | Malloc_block | Aligned_malloc_block | New_block | Mapped_block nat

record memory =
  mem_blocks :: "nat \<Rightarrow> (block \<times> nat) option"
  mem_imported :: "nat set"
  mem_objects :: "nat set"

definition add_block :: "nat \<Rightarrow> block \<Rightarrow> nat \<Rightarrow> memory \<Rightarrow> memory" where
  "add_block p b sz m = m\<lparr>mem_blocks := (mem_blocks m)(p := Some (b, sz))\<rparr>"

definition remove_block :: "nat \<Rightarrow> (block \<Rightarrow> bool) \<Rightarrow> memory \<Rightarrow> memory result" where
  "remove_block p mine m =
     (case mem_blocks m p of
        Some (b, sz) \<Rightarrow> if mine b then Ok (m\<lparr>mem_blocks := (mem_blocks m)(p := None)\<rparr>)
                       else Inl (Undefined_behaviour ''block of another allocator'')
      | None \<Rightarrow> Inl (Undefined_behaviour ''no block''))"

fun is_driver_block :: "block \<Rightarrow> bool" where
  "is_driver_block (Device_block _) = True"
| "is_driver_block Host_block = True"
| "is_driver_block (Shared_block _) = True"
| "is_driver_block _ = False"

text \<open>The answers to the calls of one allocation and of its release; a code of zero is success.\<close>

record answers =
  an_address :: nat
  an_allocate :: int
  an_second :: int
  an_object :: nat
  an_release :: int
  an_releaseObject :: int
  an_finish :: int
  an_windows :: bool

text \<open>
  \<open>free\<close>, \<open>delete[]\<close> and the release functions of the drivers. The first two accept the null pointer; a driver that reports
  an error has released nothing.
\<close>

definition free_block :: "nat option \<Rightarrow> memory \<Rightarrow> memory result" where
  "free_block p m = (case p of None \<Rightarrow> Ok m | Some p \<Rightarrow> remove_block p (\<lambda>b. b = Malloc_block) m)"

definition delete_array :: "nat option \<Rightarrow> memory \<Rightarrow> memory result" where
  "delete_array p m = (case p of None \<Rightarrow> Ok m | Some p \<Rightarrow> remove_block p (\<lambda>b. b = New_block) m)"

definition driver_free :: "answers \<Rightarrow> nat option \<Rightarrow> memory \<Rightarrow> (int \<times> memory) result" where
  "driver_free a p m =
     (case p of
        None \<Rightarrow> Ok (an_release a, m)
      | Some p \<Rightarrow> bindR (remove_block p is_driver_block m) (\<lambda>m'. Ok (an_release a, if an_release a = 0 then m' else m)))"

definition alignUp :: "64 word \<Rightarrow> 64 word \<Rightarrow> 64 word" where
  "alignUp before alignment = (before + (alignment - 1)) AND NOT (alignment - 1)"

definition sizeOf2MB :: "64 word" where
  "sizeOf2MB = 2 * 1024 * 1024"

text \<open>\<open>aligned_alloc\<close> on Linux gives a block for \<open>free\<close>, \<open>_aligned_malloc\<close> on Windows does not.\<close>

definition alloc2MBAligned :: "answers \<Rightarrow> nat \<Rightarrow> memory \<Rightarrow> memory" where
  "alloc2MBAligned a sz = add_block (an_address a) (if an_windows a then Aligned_malloc_block else Malloc_block) (unat (alignUp (of_nat sz) sizeOf2MB))"

text \<open>An allocation by a driver; the buffer is not set when it fails.\<close>

definition driver_allocate :: "answers \<Rightarrow> block \<Rightarrow> nat \<Rightarrow> memory \<Rightarrow> int \<times> nat option \<times> memory" where
  "driver_allocate a b sz m =
     (if an_allocate a = 0 then (0, Some (an_address a), add_block (an_address a) b sz m) else (an_allocate a, None, m))"

section \<open>Level Zero\<close>

definition L0_allocate :: "UsmMemoryPlacement \<Rightarrow> nat \<Rightarrow> nat \<Rightarrow> answers \<Rightarrow> memory \<Rightarrow> (int \<times> nat option \<times> memory) result" where
  "L0_allocate placement dev sz a m =
     (case placement of
        UMP_Device \<Rightarrow> Ok (driver_allocate a (Device_block dev) sz m)
      | UMP_Host \<Rightarrow> Ok (driver_allocate a Host_block sz m)
      | UMP_Shared \<Rightarrow> Ok (driver_allocate a (Shared_block dev) sz m)
      | _ \<Rightarrow>
        if placement = UMP_NonUsmImported \<or> placement = UMP_NonUsmImported2MBAligned
        then let m' = (if placement = UMP_NonUsmImported2MBAligned then alloc2MBAligned a sz m else add_block (an_address a) Malloc_block sz m)
             in Ok (an_allocate a, Some (an_address a),
                    if an_allocate a = 0 then m'\<lparr>mem_imported := insert (an_address a) (mem_imported m')\<rparr> else m')
        else if placement = UMP_NonUsm \<or> placement = UMP_NonUsm2MBAligned
        then let m' = (if placement = UMP_NonUsm2MBAligned then alloc2MBAligned a sz m else add_block (an_address a) Malloc_block sz m)
             in Ok (0, Some (an_address a), m')
        else FATAL_ERROR ''Unknown placement'')"

fun placement_of_runtime :: "UsmRuntimeMemoryPlacement \<Rightarrow> UsmMemoryPlacement result" where
  "placement_of_runtime URMP_Device = Ok UMP_Device"
| "placement_of_runtime URMP_Host = Ok UMP_Host"
| "placement_of_runtime URMP_Shared = Ok UMP_Shared"
| "placement_of_runtime URMP_Unknown = FATAL_ERROR ''Unknown placement''"

definition L0_allocate_runtime ::
  "UsmRuntimeMemoryPlacement \<Rightarrow> nat \<Rightarrow> nat \<Rightarrow> answers \<Rightarrow> memory \<Rightarrow> (int \<times> nat option \<times> memory) result" where
  "L0_allocate_runtime runtimePlacement dev sz a m =
     bindR (placement_of_runtime runtimePlacement) (\<lambda>placement. L0_allocate placement dev sz a m)"

definition L0_allocate_device ::
  "UsmRuntimeMemoryPlacement \<Rightarrow> nat \<Rightarrow> nat \<Rightarrow> answers \<Rightarrow> memory \<Rightarrow> (int \<times> nat option \<times> memory) result" where
  "L0_allocate_device runtimePlacement dev sz a m =
     (case runtimePlacement of
        URMP_Device \<Rightarrow> Ok (driver_allocate a (Device_block dev) sz m)
      | URMP_Host \<Rightarrow> Ok (driver_allocate a Host_block sz m)
      | URMP_Shared \<Rightarrow> Ok (driver_allocate a (Shared_block dev) sz m)
      | URMP_Unknown \<Rightarrow> FATAL_ERROR ''Unknown placement'')"

text \<open>The release; the answer \<open>an_release\<close> is the code of \<open>releaseExternalPointer\<close> or of \<open>zeMemFree\<close>.\<close>

definition L0_deallocate :: "UsmMemoryPlacement \<Rightarrow> answers \<Rightarrow> nat option \<Rightarrow> memory \<Rightarrow> (int \<times> memory) result" where
  "L0_deallocate placement a p m =
     (if placement = UMP_NonUsm \<or> placement = UMP_NonUsm2MBAligned then bindR (free_block p m) (\<lambda>m. Ok (0, m))
      else if requiresImport placement then
        let ret = an_release a; m = (if ret = 0 then m\<lparr>mem_imported := mem_imported m - set_option p\<rparr> else m)
        in bindR (free_block p m) (\<lambda>m. Ok (ret, m))
      else driver_free a p m)"

text \<open>Allocation by a selection of devices: shared memory for the host and one device, device memory or host memory.\<close>

definition L0_allocate_selection ::
  "DeviceSelection \<Rightarrow> LevelZero \<Rightarrow> nat \<Rightarrow> answers \<Rightarrow> memory \<Rightarrow> (int \<times> nat option \<times> memory) result" where
  "L0_allocate_selection placement levelzero sz a m =
     (let gpuDevice = withoutHost placement
      in bindR (getDevicesCount gpuDevice) (\<lambda>gpuDevicesCount.
         FATAL_ERROR_IF (gpuDevicesCount > 1) ''USM allocations can have 0 or 1 gpu device''
        (bindR (hasDevice placement DS_Host) (\<lambda>hasHost.
           if gpuDevicesCount = 1 \<and> hasHost
           then bindR (L0_getDevice levelzero gpuDevice) (\<lambda>dev. Ok (driver_allocate a (Shared_block dev) sz m))
           else if gpuDevicesCount = 1
           then bindR (L0_getDevice levelzero gpuDevice) (\<lambda>dev. Ok (driver_allocate a (Device_block dev) sz m))
           else if hasHost then Ok (driver_allocate a Host_block sz m)
           else FATAL_ERROR ''USM allocations need at least one storage location''))))"

section \<open>OpenCL\<close>

text \<open>\<open>usmFunctions\<close> is whether the four functions of the extension are found.\<close>

record OCL_Alloc =
  al_ptr :: "nat option"
  al_placement :: UsmMemoryPlacement
  al_object :: "nat option"

definition map_buffer :: "answers \<Rightarrow> nat \<Rightarrow> memory \<Rightarrow> int \<times> nat option \<times> nat option \<times> memory" where
  "map_buffer a sz m =
     (if an_allocate a \<noteq> 0 then (an_allocate a, None, None, m)
      else let m' = m\<lparr>mem_objects := insert (an_object a) (mem_objects m)\<rparr>
           in if an_second a \<noteq> 0 then (an_second a, None, Some (an_object a), m')
              else (0, Some (an_address a), Some (an_object a), add_block (an_address a) (Mapped_block (an_object a)) sz m'))"

text \<open>Unmapping and releasing; a null pointer is not mapped, so the driver reports an error for it.\<close>

definition unmap_buffer :: "answers \<Rightarrow> nat option \<Rightarrow> nat option \<Rightarrow> memory \<Rightarrow> (int \<times> memory) result" where
  "unmap_buffer a p object m =
     (if an_release a \<noteq> 0 then Ok (an_release a, m)
      else case (p, object) of
        (Some p, Some obj) \<Rightarrow>
          bindR (remove_block p (\<lambda>b. b = Mapped_block obj) m) (\<lambda>m.
            if an_releaseObject a \<noteq> 0 then Ok (an_releaseObject a, m)
            else Ok (0, m\<lparr>mem_objects := mem_objects m - {obj}\<rparr>))
      | _ \<Rightarrow> Inl (Undefined_behaviour ''success reported for a null handle''))"

definition OCL_allocate :: "bool \<Rightarrow> UsmMemoryPlacement \<Rightarrow> nat \<Rightarrow> nat \<Rightarrow> answers \<Rightarrow> memory \<Rightarrow> (int \<times> OCL_Alloc \<times> memory) result" where
  "OCL_allocate usmFunctions placement dev sz a m =
     FATAL_ERROR_IF (\<not> usmFunctions) ''USM extension not found''
      (let driver = (\<lambda>b. let (r, p, m) = driver_allocate a b sz m in Ok (r, \<lparr>al_ptr = p, al_placement = placement, al_object = None\<rparr>, m));
           system = (\<lambda>m. Ok (0, \<lparr>al_ptr = Some (an_address a), al_placement = placement, al_object = None\<rparr>, m))
       in case placement of
            UMP_Device \<Rightarrow> driver (Device_block dev)
          | UMP_Host \<Rightarrow> driver Host_block
          | UMP_Shared \<Rightarrow> driver (Shared_block dev)
          | UMP_NonUsm \<Rightarrow> system (add_block (an_address a) New_block sz m)
          | UMP_NonUsm2MBAligned \<Rightarrow> system (alloc2MBAligned a sz m)
          | UMP_NonUsmMapped \<Rightarrow>
              (let (r, p, obj, m) = map_buffer a sz m in Ok (r, \<lparr>al_ptr = p, al_placement = placement, al_object = obj\<rparr>, m))
          | _ \<Rightarrow> FATAL_ERROR ''Unknown placement'')"

definition no_alloc :: OCL_Alloc where
  "no_alloc = \<lparr>al_ptr = None, al_placement = UMP_Unknown, al_object = None\<rparr>"

text \<open>The description of the allocation is cleared, unless unmapping returned early.\<close>

definition OCL_deallocate :: "answers \<Rightarrow> OCL_Alloc \<Rightarrow> memory \<Rightarrow> (int \<times> OCL_Alloc \<times> memory) result" where
  "OCL_deallocate a alloc m =
     (let p = al_ptr alloc; driver = bindR (driver_free a p m) (\<lambda>(retVal, m). Ok (retVal, no_alloc, m))
      in case al_placement alloc of
           UMP_Device \<Rightarrow> driver
         | UMP_Host \<Rightarrow> driver
         | UMP_Shared \<Rightarrow> driver
         | UMP_NonUsm \<Rightarrow> bindR (delete_array p m) (\<lambda>m. Ok (0, no_alloc, m))
         | UMP_NonUsm2MBAligned \<Rightarrow> bindR (free_block p m) (\<lambda>m. Ok (0, no_alloc, m))
         | UMP_NonUsmMapped \<Rightarrow>
             bindR (unmap_buffer a p (al_object alloc) m) (\<lambda>(retVal, m).
               if retVal \<noteq> 0 then Ok (retVal, alloc, m)
               else if an_finish a \<noteq> 0 then Ok (an_finish a, alloc, m)
               else Ok (0, no_alloc, m))
         | _ \<Rightarrow> FATAL_ERROR ''Unknown placement'')"

definition OCL_allocate_selection ::
  "DeviceSelection \<Rightarrow> Opencl \<Rightarrow> nat \<Rightarrow> answers \<Rightarrow> memory \<Rightarrow> (int \<times> nat option \<times> memory) result" where
  "OCL_allocate_selection placement opencl sz a m =
     (let gpuDevice = withoutHost placement
      in bindR (getDevicesCount gpuDevice) (\<lambda>gpuDevicesCount.
         FATAL_ERROR_IF (gpuDevicesCount > 1) ''USM allocations can have 0 or 1 gpu device''
        (bindR (hasDevice placement DS_Host) (\<lambda>hasHost.
           if gpuDevicesCount = 1 \<and> hasHost
           then bindR (OCL_getDevice opencl gpuDevice) (\<lambda>dev. Ok (driver_allocate a (Shared_block dev) sz m))
           else if gpuDevicesCount = 1
           then bindR (OCL_getDevice opencl gpuDevice) (\<lambda>dev. Ok (driver_allocate a (Device_block dev) sz m))
           else if hasHost then Ok (driver_allocate a Host_block sz m)
           else FATAL_ERROR ''USM allocations need at least one storage location''))))"

text \<open>The two flags of the extension are parameters.\<close>

definition getInitialPlacementFlag :: "int \<Rightarrow> int \<Rightarrow> UsmInitialPlacement \<Rightarrow> int result" where
  "getInitialPlacementFlag hostFlag deviceFlag placement =
     (case placement of
        UIP_Any \<Rightarrow> Ok 0
      | UIP_Host \<Rightarrow> Ok hostFlag
      | UIP_Device \<Rightarrow> Ok deviceFlag
      | UIP_Unknown \<Rightarrow> FATAL_ERROR ''Unknown USM initial placement'')"

section \<open>Reuse of host pointers\<close>

record Hostptr_Alloc =
  hp_ptr :: "nat option"
  hp_reuseMode :: HostptrReuseMode
  hp_object :: "nat option"

text \<open>A failing allocation of USM is not reported: the code returns success with whatever pointer the driver gave.\<close>

definition allocateBufferHostptr :: "bool \<Rightarrow> HostptrReuseMode \<Rightarrow> nat \<Rightarrow> answers \<Rightarrow> memory \<Rightarrow> (int \<times> Hostptr_Alloc \<times> memory) result" where
  "allocateBufferHostptr usmFunctions reuseMode sz a m =
     (case reuseMode of
        HRM_None \<Rightarrow> Ok (0, \<lparr>hp_ptr = Some (an_address a), hp_reuseMode = reuseMode, hp_object = None\<rparr>, add_block (an_address a) New_block sz m)
      | HRM_Usm \<Rightarrow>
          FATAL_ERROR_IF (\<not> usmFunctions) ''USM extension not found''
            (let (_, p, m) = driver_allocate a Host_block sz m
             in Ok (0, \<lparr>hp_ptr = p, hp_reuseMode = reuseMode, hp_object = None\<rparr>, m))
      | HRM_Map \<Rightarrow>
          (let (r, p, obj, m) = map_buffer a sz m in Ok (r, \<lparr>hp_ptr = p, hp_reuseMode = reuseMode, hp_object = obj\<rparr>, m))
      | HRM_Unknown \<Rightarrow> FATAL_ERROR ''Unknown reuse mode'')"

definition deallocateBufferHostptr :: "answers \<Rightarrow> Hostptr_Alloc \<Rightarrow> memory \<Rightarrow> (int \<times> memory) result" where
  "deallocateBufferHostptr a alloc m =
     (let p = hp_ptr alloc
      in case hp_reuseMode alloc of
           HRM_None \<Rightarrow> bindR (delete_array p m) (\<lambda>m. Ok (0, m))
         | HRM_Usm \<Rightarrow> driver_free a p m
         | HRM_Map \<Rightarrow> unmap_buffer a p (hp_object alloc) m
         | HRM_Unknown \<Rightarrow> FATAL_ERROR ''Unknown reuse mode'')"

section \<open>SYCL\<close>

text \<open>The allocation functions of SYCL return a pointer only; null when they fail.\<close>

definition SYCL_allocate :: "UsmMemoryPlacement \<Rightarrow> nat \<Rightarrow> nat \<Rightarrow> answers \<Rightarrow> memory \<Rightarrow> (nat option \<times> memory) result" where
  "SYCL_allocate placement dev sz a m =
     (case placement of
        UMP_Device \<Rightarrow> Ok (snd (driver_allocate a (Device_block dev) sz m))
      | UMP_Host \<Rightarrow> Ok (snd (driver_allocate a Host_block sz m))
      | UMP_Shared \<Rightarrow> Ok (snd (driver_allocate a (Shared_block dev) sz m))
      | UMP_NonUsm \<Rightarrow> Ok (Some (an_address a), add_block (an_address a) Malloc_block sz m)
      | _ \<Rightarrow> FATAL_ERROR ''Unknown placement'')"

definition SYCL_allocate_runtime :: "UsmRuntimeMemoryPlacement \<Rightarrow> nat \<Rightarrow> nat \<Rightarrow> answers \<Rightarrow> memory \<Rightarrow> (nat option \<times> memory) result" where
  "SYCL_allocate_runtime runtimePlacement dev sz a m =
     bindR (placement_of_runtime runtimePlacement) (\<lambda>placement. SYCL_allocate placement dev sz a m)"

text \<open>\<open>allocateAligned\<close> uses the aligned functions; \<open>free\<close> releases the block of \<open>aligned_alloc\<close>.\<close>

definition SYCL_allocateAligned :: "UsmMemoryPlacement \<Rightarrow> nat \<Rightarrow> nat \<Rightarrow> nat \<Rightarrow> answers \<Rightarrow> memory \<Rightarrow> (nat option \<times> memory) result" where
  "SYCL_allocateAligned placement dev alignment sz a m =
     (case placement of
        UMP_Device \<Rightarrow> Ok (snd (driver_allocate a (Device_block dev) sz m))
      | UMP_Host \<Rightarrow> Ok (snd (driver_allocate a Host_block sz m))
      | UMP_Shared \<Rightarrow> Ok (snd (driver_allocate a (Shared_block dev) sz m))
      | UMP_NonUsm \<Rightarrow> Ok (Some (an_address a), add_block (an_address a) Malloc_block sz m)
      | _ \<Rightarrow> FATAL_ERROR ''Unknown placement'')"

definition SYCL_allocateAligned_runtime ::
  "UsmRuntimeMemoryPlacement \<Rightarrow> nat \<Rightarrow> nat \<Rightarrow> nat \<Rightarrow> answers \<Rightarrow> memory \<Rightarrow> (nat option \<times> memory) result" where
  "SYCL_allocateAligned_runtime runtimePlacement dev alignment sz a m =
     bindR (placement_of_runtime runtimePlacement) (\<lambda>placement. SYCL_allocateAligned placement dev alignment sz a m)"

text \<open>\<open>sycl::free\<close> has no return value.\<close>

definition SYCL_deallocate :: "UsmMemoryPlacement \<Rightarrow> nat option \<Rightarrow> memory \<Rightarrow> memory result" where
  "SYCL_deallocate placement p m =
     (if placement = UMP_NonUsm then free_block p m
      else case p of None \<Rightarrow> Ok m | Some p \<Rightarrow> remove_block p is_driver_block m)"

section \<open>The contract\<close>

definition unused :: "memory \<Rightarrow> answers \<Rightarrow> bool" where
  "unused m a \<longleftrightarrow> mem_blocks m (an_address a) = None \<and> an_address a \<notin> mem_imported m \<and> an_object a \<notin> mem_objects m"

definition succeeding :: "answers \<Rightarrow> bool" where
  "succeeding a \<longleftrightarrow> an_allocate a = 0 \<and> an_second a = 0 \<and> an_release a = 0 \<and> an_releaseObject a = 0 \<and> an_finish a = 0"

definition apart :: "answers \<Rightarrow> answers \<Rightarrow> bool" where
  "apart a b \<longleftrightarrow> an_address a \<noteq> an_address b \<and> an_object a \<noteq> an_object b"

text \<open>A test that allocates buffers and releases them in the opposite order; a code other than zero ends it.\<close>

fun allocate_all ::
  "('k \<Rightarrow> answers \<Rightarrow> memory \<Rightarrow> (int \<times> 'x \<times> memory) result) \<Rightarrow> ('k \<times> answers) list \<Rightarrow> memory \<Rightarrow> (('k \<times> answers \<times> 'x) list \<times> memory) result" where
  "allocate_all allocate [] m = Ok ([], m)"
| "allocate_all allocate ((k, a) # rs) m =
     bindR (allocate k a m) (\<lambda>(r, x, m). FATAL_ERROR_IF (r \<noteq> 0) ''allocation failed''
       (bindR (allocate_all allocate rs m) (\<lambda>(xs, m). Ok ((k, a, x) # xs, m))))"

fun release_all ::
  "('k \<Rightarrow> answers \<Rightarrow> 'x \<Rightarrow> memory \<Rightarrow> (int \<times> memory) result) \<Rightarrow> ('k \<times> answers \<times> 'x) list \<Rightarrow> memory \<Rightarrow> memory result" where
  "release_all deallocate [] m = Ok m"
| "release_all deallocate ((k, a, x) # xs) m =
     bindR (release_all deallocate xs m) (\<lambda>m.
       bindR (deallocate k a x m) (\<lambda>(r, m). FATAL_ERROR_IF (r \<noteq> 0) ''release failed'' (Ok m)))"

locale memory_helper =
  fixes allocate :: "'k \<Rightarrow> answers \<Rightarrow> memory \<Rightarrow> (int \<times> 'x \<times> memory) result"
    and deallocate :: "'k \<Rightarrow> answers \<Rightarrow> 'x \<Rightarrow> memory \<Rightarrow> (int \<times> memory) result"
    and supported :: "'k \<Rightarrow> answers \<Rightarrow> bool"
  assumes released: "supported k a \<Longrightarrow> unused m a \<Longrightarrow> succeeding a \<Longrightarrow>
      \<exists>x m'. allocate k a m = Ok (0, x, m') \<and> deallocate k a x m' = Ok (0, m)"
    and keeps_unused: "supported k a \<Longrightarrow> allocate k a m = Ok (0, x, m') \<Longrightarrow> apart a b \<Longrightarrow> unused m b \<Longrightarrow> unused m' b"
begin

lemma all_released:
  assumes "\<forall>(k, a) \<in> set rs. supported k a \<and> succeeding a \<and> unused m a" "sorted_wrt apart (map snd rs)"
  shows "\<exists>xs m'. allocate_all allocate rs m = Ok (xs, m') \<and> release_all deallocate xs m' = Ok m"
  using assms(1,2)
proof (induction rs arbitrary: m)
  case (Cons ka rs)
  obtain k a where ka: "ka = (k, a)" by (cases ka)
  from Cons.prems ka have k: "supported k a" "succeeding a" "unused m a" by auto
  with released obtain x m1 where x: "allocate k a m = Ok (0, x, m1)" "deallocate k a x m1 = Ok (0, m)" by blast
  have "\<forall>(k, b) \<in> set rs. supported k b \<and> succeeding b \<and> unused m1 b"
    using Cons.prems ka keeps_unused [OF k(1) x(1)] by (force split: prod.splits)
  with Cons.IH [of m1] Cons.prems(2) ka obtain xs m' where
    "allocate_all allocate rs m1 = Ok (xs, m')" "release_all deallocate xs m' = Ok m1" by auto
  with x ka show ?case by simp
qed simp

end

section \<open>The four helpers keep the contract\<close>

lemmas memory_defs = add_block_def remove_block_def free_block_def delete_array_def driver_free_def alloc2MBAligned_def
  driver_allocate_def map_buffer_def unmap_buffer_def unused_def succeeding_def apart_def

text \<open>The placements each helper knows; the 2 MB aligned ones are released by \<open>free\<close>, which fits on Linux only.\<close>

definition L0_supported :: "UsmMemoryPlacement \<Rightarrow> answers \<Rightarrow> bool" where
  "L0_supported placement a \<longleftrightarrow>
     placement \<notin> {UMP_Unknown, UMP_NonUsmMapped} \<and>
     (an_windows a \<longrightarrow> placement \<notin> {UMP_NonUsm2MBAligned, UMP_NonUsmImported2MBAligned})"

definition OCL_supported :: "UsmMemoryPlacement \<Rightarrow> answers \<Rightarrow> bool" where
  "OCL_supported placement a \<longleftrightarrow>
     placement \<notin> {UMP_Unknown, UMP_NonUsmImported, UMP_NonUsmImported2MBAligned} \<and>
     (an_windows a \<longrightarrow> placement \<noteq> UMP_NonUsm2MBAligned)"

lemma L0_released:
  assumes "L0_supported placement a" "unused m a" "succeeding a"
  shows "\<exists>x m'. L0_allocate placement dev sz a m = Ok (0, x, m') \<and> L0_deallocate placement a x m' = Ok (0, m)"
  using assms
  by (cases placement) (auto simp: L0_supported_def L0_allocate_def L0_deallocate_def requiresImport_def memory_defs Let_def fun_upd_idem)

lemma L0_keeps_unused:
  assumes "L0_allocate placement dev sz a m = Ok (0, x, m')" "apart a b" "unused m b"
  shows "unused m' b"
  using assms
  by (cases placement) (auto simp: L0_allocate_def memory_defs Let_def split: if_splits)

lemma OCL_released:
  assumes "OCL_supported placement a" "unused m a" "succeeding a"
  shows "\<exists>x m'. OCL_allocate True placement dev sz a m = Ok (0, x, m') \<and> OCL_deallocate a x m' = Ok (0, no_alloc, m)"
  using assms
  by (cases placement) (auto simp: OCL_supported_def OCL_allocate_def OCL_deallocate_def memory_defs Let_def fun_upd_idem)

lemma OCL_keeps_unused:
  assumes "OCL_allocate True placement dev sz a m = Ok (0, x, m')" "apart a b" "unused m b"
  shows "unused m' b"
  using assms
  by (cases placement) (auto simp: OCL_allocate_def memory_defs Let_def split: if_splits)

lemma Hostptr_released:
  assumes "mode \<noteq> HRM_Unknown" "unused m a" "succeeding a"
  shows "\<exists>x m'. allocateBufferHostptr True mode sz a m = Ok (0, x, m') \<and> deallocateBufferHostptr a x m' = Ok (0, m)"
  using assms
  by (cases mode) (auto simp: allocateBufferHostptr_def deallocateBufferHostptr_def memory_defs Let_def fun_upd_idem)

lemma Hostptr_keeps_unused:
  assumes "allocateBufferHostptr True mode sz a m = Ok (0, x, m')" "apart a b" "unused m b"
  shows "unused m' b"
  using assms
  by (cases mode) (auto simp: allocateBufferHostptr_def memory_defs Let_def split: if_splits)

text \<open>The SYCL functions report no code; a test checks the pointer.\<close>

definition SYCL_code :: "(nat option \<times> memory) result \<Rightarrow> (int \<times> nat option \<times> memory) result" where
  "SYCL_code r = bindR r (\<lambda>(p, m). Ok (if p = None then 1 else 0, p, m))"

lemma SYCL_released:
  assumes "placement \<in> {UMP_Device, UMP_Host, UMP_Shared, UMP_NonUsm}" "unused m a" "succeeding a"
  shows "\<exists>x m'. SYCL_code (SYCL_allocate placement dev sz a m) = Ok (0, x, m') \<and> SYCL_deallocate placement x m' = Ok m"
  using assms
  by (cases placement) (auto simp: SYCL_code_def SYCL_allocate_def SYCL_deallocate_def memory_defs Let_def fun_upd_idem)

lemma SYCL_keeps_unused:
  assumes "SYCL_code (SYCL_allocate placement dev sz a m) = Ok (0, x, m')" "apart a b" "unused m b"
  shows "unused m' b"
  using assms
  by (cases placement) (auto simp: SYCL_code_def SYCL_allocate_def memory_defs Let_def split: if_splits)

lemma bind_after_SYCL_deallocate: "(bindR r (\<lambda>m. Ok (0 :: int, m)) = Ok (0, m')) = (r = Ok m')"
  by (cases r) auto

section \<open>The interface, interpreted\<close>

interpretation l0mem: memory_helper "\<lambda>(placement, dev, sz). L0_allocate placement dev sz"
    "\<lambda>(placement, dev, sz). L0_deallocate placement" "\<lambda>(placement, dev, sz). L0_supported placement"
proof (unfold_locales, goal_cases)
  case (1 k a m)
  then show ?case by (cases k) (simp add: L0_released)
next
  case (2 k a m x m' b)
  obtain p d sz where "k = (p, d, sz)" by (cases k)
  with 2(2) have "L0_allocate p d sz a m = Ok (0, x, m')" by simp
  then show ?case using 2(3,4) by (rule L0_keeps_unused)
qed

interpretation oclmem: memory_helper "\<lambda>(placement, dev, sz). OCL_allocate True placement dev sz"
    "\<lambda>_ a x m. bindR (OCL_deallocate a x m) (\<lambda>(r, x, m). Ok (r, m))" "\<lambda>(placement, dev, sz). OCL_supported placement"
proof (unfold_locales, goal_cases)
  case (1 k a m)
  obtain p d sz where k: "k = (p, d, sz)" by (cases k)
  with 1 obtain x m' where "OCL_allocate True p d sz a m = Ok (0, x, m')" "OCL_deallocate a x m' = Ok (0, no_alloc, m)"
    using OCL_released [of p a m d sz] by auto
  with k show ?case by simp
next
  case (2 k a m x m' b)
  obtain p d sz where "k = (p, d, sz)" by (cases k)
  with 2(2) have "OCL_allocate True p d sz a m = Ok (0, x, m')" by simp
  then show ?case using 2(3,4) by (rule OCL_keeps_unused)
qed

interpretation hostptrmem: memory_helper "\<lambda>(mode, sz). allocateBufferHostptr True mode sz"
    "\<lambda>_. deallocateBufferHostptr" "\<lambda>(mode, sz) a. mode \<noteq> HRM_Unknown"
  by unfold_locales (use Hostptr_released Hostptr_keeps_unused in force)+

interpretation syclmem: memory_helper "\<lambda>(placement, dev, sz) a m. SYCL_code (SYCL_allocate placement dev sz a m)"
    "\<lambda>(placement, dev, sz) a x m. bindR (SYCL_deallocate placement x m) (\<lambda>m. Ok (0, m))"
    "\<lambda>(placement, dev, sz) a. placement \<in> {UMP_Device, UMP_Host, UMP_Shared, UMP_NonUsm}"
  by unfold_locales (auto simp: bind_after_SYCL_deallocate intro!: SYCL_released elim: SYCL_keeps_unused split: prod.splits)

section \<open>On Windows\<close>

lemma aligned_block_not_freed_on_windows:
  assumes "an_windows a" "placement \<in> {UMP_NonUsm2MBAligned, UMP_NonUsmImported2MBAligned}" "succeeding a"
  shows "\<exists>x m'. L0_allocate placement dev sz a m = Ok (0, x, m') \<and>
    L0_deallocate placement a x m' = Inl (Undefined_behaviour ''block of another allocator'')"
  using assms by (auto simp: L0_allocate_def L0_deallocate_def requiresImport_def memory_defs Let_def)

text \<open>A failing import leaves the block behind: the caller gets an error and has nothing to release.\<close>

lemma L0_import_failure_keeps_block:
  assumes "an_allocate a \<noteq> 0"
  shows "L0_allocate UMP_NonUsmImported dev sz a m = Ok (an_allocate a, Some (an_address a), add_block (an_address a) Malloc_block sz m)"
  using assms by (simp add: L0_allocate_def Let_def)

lemma OCL_map_failure_keeps_object:
  assumes "an_allocate a = 0" "an_second a \<noteq> 0"
  shows "\<exists>x. OCL_allocate True UMP_NonUsmMapped dev sz a m = Ok (an_second a, x, m\<lparr>mem_objects := insert (an_object a) (mem_objects m)\<rparr>)"
  using assms by (simp add: OCL_allocate_def map_buffer_def Let_def)

lemma hostptr_usm_failure_unreported:
  assumes "an_allocate a \<noteq> 0"
  shows "\<exists>x. allocateBufferHostptr True HRM_Usm sz a m = Ok (0, x, m) \<and> hp_ptr x = None"
  using assms by (simp add: allocateBufferHostptr_def driver_allocate_def Let_def)

lemma OCL_deallocate_twice: "OCL_deallocate a no_alloc m = FATAL_ERROR ''Unknown placement''"
  by (simp add: OCL_deallocate_def no_alloc_def Let_def)

section \<open>Allocation by a selection of devices\<close>

lemma withoutHost_single:
  assumes "v AND NOT (mask 6) = 0" "devices_of v - {0} = {j}"
  shows "withoutHost v = device j"
proof (rule bit_word_eqI)
  fix i assume i: "i < LENGTH(32)"
  have "j \<in> devices_of v - {0}" unfolding assms(2) by simp
  then have j: "j < 6" "j \<noteq> 0" "bit v j" by (simp_all add: devices_of_def)
  have "\<not> bit (v AND NOT (mask 6)) i" using assms(1) by simp
  then have six: "bit v i \<Longrightarrow> i < 6" using i by (simp add: bit_and_iff bit_not_iff bit_mask_iff)
  have "bit (withoutHost v) i \<longleftrightarrow> bit v i \<and> i \<noteq> 0"
    using i by (simp add: withoutHost_def DS_and_def DS_not_def DS_Host_def bit_and_iff bit_not_iff bit_1_iff)
  moreover have "i = j" if "bit v i" "i \<noteq> 0"
  proof -
    have "i \<in> devices_of v - {0}" using that six by (simp add: devices_of_def)
    then show ?thesis using assms(2) by simp
  qed
  moreover have "bit (device j) i \<longleftrightarrow> i = j" using i j(1) by (auto simp: device_def bit_simps)
  ultimately show "bit (withoutHost v) i \<longleftrightarrow> bit (device j) i" using j by blast
qed

lemma L0_getDevice_existing:
  assumes "j \<in> {1..<6}" "\<forall>i<4. j = i + 2 \<longrightarrow> i < length (lz_subDevices lz)"
  shows "\<exists>d. L0_getDevice lz (device j) = Ok d"
proof (cases "j = 1")
  case True
  then show ?thesis by (auto simp: l0dev.getDevice_iff DS_Root_device)
next
  case False
  with assms(1) have "j - 2 < 4" "j = (j - 2) + 2" by auto
  with assms(2) show ?thesis by (metis l0dev.getDevice_iff)
qed

fun block_is_shared :: "block \<Rightarrow> bool" where
  "block_is_shared (Shared_block _) = True"
| "block_is_shared _ = False"

lemma selection_cases:
  assumes "UsmDeviceSelectionArgument_validate v = Ok True"
  obtains "devices_of v = {0}" | j where "j \<in> {1..<6}" "devices_of v - {0} = {j}" "withoutHost v = device j"
proof -
  have v: "devices_of v \<noteq> {}" "v AND NOT (mask 6) = 0" "card (devices_of v - {0}) \<le> 1"
    using assms unfolding UsmDeviceSelectionArgument_validate_def UsmDeviceSelectionArgument_validate_iff sum.inject
    by (simp_all only: simp_thms)
  have fin: "finite (devices_of v - {0})" by (simp add: devices_of_def)
  show thesis
  proof (cases "devices_of v - {0} = {}")
    case True
    with v(1) have "devices_of v = {0}" by blast
    then show thesis by (rule that(1))
  next
    case False
    with fin v(3) have "card (devices_of v - {0}) = 1" by (simp add: card_gt_0_iff le_antisym Suc_leI)
    then obtain j where j: "devices_of v - {0} = {j}" by (auto simp: card_1_singleton_iff)
    then have "j \<in> devices_of v - {0}" by simp
    then have "j \<in> {1..<6}" by (auto simp: devices_of_def)
    then show thesis using j withoutHost_single [OF v(2) j] by (rule that(2))
  qed
qed

text \<open>
  The value of an argument of the kind \<open>UsmDeviceSelectionArgument\<close> is always allocated without an error message, when the
  tile it names exists: in host memory for the host alone, in shared memory for the host and a device, and in device
  memory for a device alone, with the handle \<open>getDevice\<close> gives.
\<close>

lemma validated_selection_is_allocated:
  assumes "UsmDeviceSelectionArgument_validate v = Ok True"
    and "\<forall>i<4. i + 2 \<in> devices_of v \<longrightarrow> i < length (lz_subDevices lz)"
  shows "\<exists>b. L0_allocate_selection v lz sz a m = Ok (driver_allocate a b sz m) \<and>
    (if devices_of v = {0} then b = Host_block
     else \<exists>dev. L0_getDevice lz (withoutHost v) = Ok dev \<and> b = (if 0 \<in> devices_of v then Shared_block dev else Device_block dev))"
  using assms(1)
proof (cases rule: selection_cases)
  case 1
  then have "devices_of v - {0} = {}" "0 \<in> devices_of v" by simp_all
  then have "getDevicesCount (withoutHost v) = Ok 0" "hasDevice v DS_Host = Ok True"
    by (simp_all only: getDevicesCount_eq length_filter_devices devices_of_withoutHost card.empty hasHost_eq [unfolded hasHost_def])
      (simp add: devices_of_def)
  with 1 show ?thesis by (simp add: L0_allocate_selection_def)
next
  case (2 j)
  have "i < length (lz_subDevices lz)" if "i < 4" "j = i + 2" for i using assms(2) 2(2) that by auto
  then obtain dev where dev: "L0_getDevice lz (device j) = Ok dev" using L0_getDevice_existing 2(1) by blast
  have "devices_of v \<noteq> {0}" using 2(2) by auto
  moreover have "getDevicesCount (withoutHost v) = Ok 1"
    using 2(2) by (simp add: getDevicesCount_eq length_filter_devices)
  moreover have "hasDevice v DS_Host = Ok (0 \<in> devices_of v)"
    by (simp add: hasHost_eq [unfolded hasHost_def] devices_of_def)
  ultimately show ?thesis using 2(3) dev by (simp add: L0_allocate_selection_def)
qed

definition example_memory :: memory where
  "example_memory = \<lparr>mem_blocks = (\<lambda>_. None), mem_imported = {}, mem_objects = {}\<rparr>"

definition example_answers :: "nat \<Rightarrow> answers" where
  "example_answers p = \<lparr>an_address = p, an_allocate = 0, an_second = 0, an_object = p, an_release = 0, an_releaseObject = 0,
     an_finish = 0, an_windows = False\<rparr>"

definition example_devices :: LevelZero where
  "example_devices = \<lparr>lz_driver = example_driver, lz_rootDevices = [7], lz_rootDevice = 7, lz_subDevices = [8, 9], lz_device = Some 7,
     lz_context = Some 1, commandQueues = [], commandQueue = None, commandQueueDesc = None, commandQueueDevice = None,
     commandQueueMaxFillSize = 0, importHostPointer = \<lparr>importExternalPointer = None, releaseExternalPointer = None, getHostPointerBaseAddress = None\<rparr>\<rparr>"

lemma example_selection:
  "UsmDeviceSelectionArgument_validate 5 = Ok True" "devices_of 5 = {0, 2}" "L0_getDevice example_devices (withoutHost 5) = Ok 8"
proof -
  have "i \<in> devices_of 5 \<longleftrightarrow> i \<in> {0, 2}" for i
    by (cases "i < 6") (auto simp: devices_of_def numeral_eq_Suc less_Suc_eq)
  then show "devices_of 5 = {0, 2}" by blast
  show "UsmDeviceSelectionArgument_validate 5 = Ok True" "L0_getDevice example_devices (withoutHost 5) = Ok 8"
    by code_simp+
qed

text \<open>
  C39: A test that allocates any number of buffers with \<open>L0::UsmHelper\<close>, in every mixture of placements, and releases them in the
  opposite order leaves the memory as it was: every block goes back to the allocator it came from, the imports are
  withdrawn, and nothing is leaked. The driver gives addresses that are not in use and reports success. On Windows the two
  placements aligned to 2 MB are excluded: their blocks come from \<open>_aligned_malloc\<close> and go to \<open>free\<close>.
\<close>

theorem usm_buffers_released:
  assumes "\<forall>((placement, dev, sz), a) \<in> set rs. L0_supported placement a \<and> succeeding a \<and> unused m a"
    and "sorted_wrt apart (map snd rs)"
  shows "\<exists>xs m'. allocate_all (\<lambda>(placement, dev, sz). L0_allocate placement dev sz) rs m = Ok (xs, m') \<and>
    release_all (\<lambda>(placement, dev, sz). L0_deallocate placement) xs m' = Ok m"
  using l0mem.all_released [of rs m] assms by (auto simp: case_prod_beta)

theorem usm_buffers_released_witness:
  "\<exists>xs m'. allocate_all (\<lambda>(placement, dev, sz). L0_allocate placement dev sz)
      [((UMP_NonUsmImported2MBAligned, 0, 5), example_answers 100), ((UMP_Shared, 1, 7), example_answers 200)] example_memory = Ok (xs, m') \<and>
    release_all (\<lambda>(placement, dev, sz). L0_deallocate placement) xs m' = Ok example_memory"
  by (rule usm_buffers_released)
    (auto simp: L0_supported_def succeeding_def unused_def apart_def example_answers_def example_memory_def)

end
