(* ===== verification/Clflush_Comparison.thy ===== *)
theory Clflush_Comparison
  imports Metrics
begin

text \<open>
  The tool \<open>tools/clflush_comparison/main.cpp\<close>, which measures the flushing of cache lines.

  An address is a natural number. The size of a cache line, the addresses of the vectors, the clock (the time of its
  \<open>n\<close>-th reading in nanoseconds), \<open>rand\<close> and the printing of a \<open>double\<close> are parameters. A run gives the printed text and
  the flush instructions in order. The exit code of the tool is zero in every case, so it is left out. Pointers are not
  checked against the end of their array.
\<close>

section \<open>Options\<close>

datatype CachelineFlushOp = MM_CLFLUSH | MM_CLFLUSHOPT | MM_CLWB
datatype OverrideMemType = OM_NONE | OM_ONES | OM_RANDOM

fun CachelineFlushOp_code :: "CachelineFlushOp \<Rightarrow> nat" where
  "CachelineFlushOp_code MM_CLFLUSH = 0"
| "CachelineFlushOp_code MM_CLFLUSHOPT = 1"
| "CachelineFlushOp_code MM_CLWB = 2"

fun OverrideMemType_code :: "OverrideMemType \<Rightarrow> nat" where
  "OverrideMemType_code OM_NONE = 0"
| "OverrideMemType_code OM_ONES = 1"
| "OverrideMemType_code OM_RANDOM = 2"

record clflush_options =
  comparisonIterations :: nat
  clflushIterations :: nat
  overrideMem :: OverrideMemType
  clOp :: CachelineFlushOp
  alignMem :: bool
  precise :: bool
  constClSize :: bool
  sizes :: "nat list"

definition default_options :: clflush_options where
  "default_options = \<lparr>comparisonIterations = 10, clflushIterations = 1, overrideMem = OM_RANDOM, clOp = MM_CLFLUSHOPT,
     alignMem = False, precise = False, constClSize = True, sizes = []\<rparr>"

definition defaultSizes :: "nat list" where
  "defaultSizes = [1, 4, 8, 64, 1024, 4096, 2097152, 2147483648]"

definition clflush_printHelp :: string where
  "clflush_printHelp =
     ''options:'' @ [newline] @ ''-h : print help and quit'' @ [newline] @
     ''-s <NUMBER,NUMBER,...>. : set allocation sizes separated by , ,defaults are'' @
     concat (map (\<lambda>s. '' '' @ to_string (int s)) defaultSizes) @ [newline] @
     ''-f [NONE,ONES,RANDOM] : fill memory between iterations, default is RANDOM '' @ [newline] @
     ''-i <NUMBER>: set iterations count, default is 10'' @ [newline] @
     ''-m <NUMBER> : set clflush count in single iteration, default is 1'' @ [newline] @
     ''-a [0,1] : align pointer to cacheline, default is 0'' @ [newline] @
     ''-p [0,1] : substract cost of loops, default is 0'' @ [newline] @
     ''-t [0,1] : use compile time cl size = 64, default is 1'' @ [newline] @
     ''-c [MM_CLFLUSH,MM_CLFLUSHOPT,MM_CLWB] : set clflush intrinsic type to be used, default is MM_CLFLUSHOPT '' @ [newline]"

text \<open>\<open>strtok\<close> with a comma: the parts between commas that are not empty.\<close>

function strtok_comma :: "string \<Rightarrow> string list" where
  "strtok_comma s =
     (case dropWhile (\<lambda>c. c = CHR '','') s of
        [] \<Rightarrow> []
      | c # cs \<Rightarrow> (c # takeWhile (\<lambda>c. c \<noteq> CHR '','') cs) # strtok_comma (dropWhile (\<lambda>c. c \<noteq> CHR '','') cs))"
  by pat_completeness auto
termination
proof (relation "measure length")
  fix s :: string and c cs
  assume "dropWhile (\<lambda>c. c = CHR '','') s = c # cs"
  then have "length cs < length s" by (metis Suc_le_eq length_Cons length_dropWhile_le)
  then show "(dropWhile (\<lambda>c. c \<noteq> CHR '','') cs, s) \<in> measure length"
    using length_dropWhile_le [of "\<lambda>c. c \<noteq> CHR '',''" cs] by simp
qed simp

definition size_of_int :: "int \<Rightarrow> nat" where
  "size_of_int v = nat (wrap_u64 v)"

text \<open>\<open>argv[argc]\<close> is the null pointer; \<open>strcmp\<close>, \<open>atoi\<close> and \<open>strtok\<close> must not be given it.\<close>

definition option_value :: "string list \<Rightarrow> string result" where
  "option_value rest = (case rest of [] \<Rightarrow> Inl (Undefined_behaviour ''null string'') | v # _ \<Rightarrow> Ok v)"

definition option_number :: "string list \<Rightarrow> int result" where
  "option_number rest = bindR (option_value rest) atoi"

datatype clflush_parsed = Printed string | Parsed clflush_options

function parse_options :: "string list \<Rightarrow> clflush_options \<Rightarrow> clflush_parsed result" where
  "parse_options [] opts = Ok (Parsed opts)"
| "parse_options (arg # rest) opts =
     (if arg = ''-h'' then Ok (Printed clflush_printHelp)
      else if arg = ''-s'' then
        bindR (option_value rest) (\<lambda>v. bindR (mapM atoi (strtok_comma v)) (\<lambda>ns.
          parse_options (tl rest) (opts\<lparr>sizes := sizes opts @ map size_of_int ns\<rparr>)))
      else if arg = ''-f'' then
        bindR (option_value rest) (\<lambda>v.
          if v = ''NONE'' then parse_options (tl rest) (opts\<lparr>overrideMem := OM_NONE\<rparr>)
          else if v = ''ONES'' then parse_options (tl rest) (opts\<lparr>overrideMem := OM_ONES\<rparr>)
          else if v = ''RANDOM'' then parse_options (tl rest) (opts\<lparr>overrideMem := OM_RANDOM\<rparr>)
          else Ok (Printed (''Unknown override memory type '' @ [newline])))
      else if arg = ''-i'' then
        bindR (option_number rest) (\<lambda>n. parse_options (tl rest) (opts\<lparr>comparisonIterations := size_of_int n\<rparr>))
      else if arg = ''-p'' then
        bindR (option_number rest) (\<lambda>n. parse_options (tl rest) (opts\<lparr>precise := (n \<noteq> 0)\<rparr>))
      else if arg = ''-m'' then
        bindR (option_number rest) (\<lambda>n. parse_options (tl rest) (opts\<lparr>clflushIterations := size_of_int n\<rparr>))
      else if arg = ''-a'' then
        bindR (option_number rest) (\<lambda>n. parse_options (tl rest) (opts\<lparr>alignMem := (n \<noteq> 0)\<rparr>))
      else if arg = ''-t'' then
        bindR (option_number rest) (\<lambda>n. parse_options (tl rest) (opts\<lparr>constClSize := (n \<noteq> 0)\<rparr>))
      else if arg = ''-c'' then
        bindR (option_value rest) (\<lambda>v.
          if v = ''MM_CLFLUSH'' then parse_options (tl rest) (opts\<lparr>clOp := MM_CLFLUSH\<rparr>)
          else if v = ''MM_CLFLUSHOPT'' then parse_options (tl rest) (opts\<lparr>clOp := MM_CLFLUSHOPT\<rparr>)
          else if v = ''MM_CLWB'' then parse_options (tl rest) (opts\<lparr>clOp := MM_CLWB\<rparr>)
          else Ok (Printed (''Unknown cacheline flush type '' @ [newline])))
      else parse_options rest opts)"
  by pat_completeness auto
termination by (relation "measure (\<lambda>(args, opts). length args)") auto

section \<open>Flushing\<close>

text \<open>The loop over the lines of a range: the addresses it visits, \<open>None\<close> when it does not end.\<close>

partial_function (option) line_loop :: "nat \<Rightarrow> nat \<Rightarrow> nat \<Rightarrow> nat list option" where
  "line_loop step lastPtr ptr =
     (if ptr < lastPtr then Option.bind (line_loop step lastPtr (ptr + step)) (\<lambda>ps. Some (ptr # ps)) else Some [])"

definition flushMemory :: "CachelineFlushOp \<Rightarrow> bool \<Rightarrow> nat \<Rightarrow> nat \<Rightarrow> nat \<Rightarrow> (CachelineFlushOp \<times> nat) list option" where
  "flushMemory clop constSize cachelineSize sz ptr =
     (let lastPtr = ptr + sz in map_option (map (Pair clop)) (line_loop (if constSize then 64 else cachelineSize) lastPtr ptr))"

definition overrideMemoryOnes :: "8 word list \<Rightarrow> 8 word list" where
  "overrideMemoryOnes mem = map (\<lambda>byte. 1) mem"

definition overrideMemoryRandom :: "(nat \<Rightarrow> 8 word) \<Rightarrow> 8 word list \<Rightarrow> 8 word list" where
  "overrideMemoryRandom rand mem = map rand [0..<length mem]"

text \<open>\<open>std::align\<close>, for an alignment that is a power of two.\<close>

definition std_align :: "nat \<Rightarrow> nat \<Rightarrow> nat \<Rightarrow> nat \<Rightarrow> nat option" where
  "std_align alignment sz ptr space =
     (let aligned = (ptr + alignment - 1) div alignment * alignment
      in if space < sz \<or> space - sz < aligned - ptr then None else Some aligned)"

section \<open>Printing\<close>

definition printTimes :: "(Value \<Rightarrow> string) \<Rightarrow> Value list \<Rightarrow> string result" where
  "printTimes print vec =
     bindR (calculateMin vec) (\<lambda>minimum. bindR (calculateMax vec) (\<lambda>maximum. bindR (V_sort vec) (\<lambda>sorted.
       let avg = V_div (foldl V_add (Fin 0) vec) (V_of_int (int (length vec))); median = sorted ! (length sorted div 2)
       in Ok (''Min: '' @ print minimum @ '' ns, Max: '' @ print maximum @ '' ns, Avg: '' @ print avg @
              '' ns, Median: '' @ print median @ '' ns'' @ [newline]))))"

definition printIteration :: "(Value \<Rightarrow> string) \<Rightarrow> nat \<Rightarrow> Value list \<Rightarrow> string result" where
  "printIteration print sz vec =
     bindR (printTimes print vec) (\<lambda>s.
       Ok (''----------'' @ [newline] @ ''size: '' @ to_string (int sz) @ '' [B]'' @ [newline] @ s))"

definition print_flag :: "bool \<Rightarrow> string" where
  "print_flag b = (if b then ''1'' else ''0'')"

definition printInitialInfo :: "nat \<Rightarrow> clflush_options \<Rightarrow> string" where
  "printInitialInfo cachelineSize opts =
     ''clflush statistics'' @ [newline] @
     ''cachelineSize: '' @ to_string (int cachelineSize) @ [newline] @
     ''comparisonIterations [-i]: '' @ to_string (int (comparisonIterations opts)) @ [newline] @
     ''clflushIterations [-m]: '' @ to_string (int (clflushIterations opts)) @ [newline] @
     ''overrideMem [-f]: '' @ to_string (int (OverrideMemType_code (overrideMem opts))) @ [newline] @
     ''cacheline flush type [-c]: '' @ to_string (int (CachelineFlushOp_code (clOp opts))) @ [newline] @
     ''alignment [-a]: '' @ print_flag (alignMem opts) @ [newline] @
     ''precise [-p]: '' @ print_flag (precise opts) @ [newline] @
     ''constClSize [-t]: '' @ print_flag (constClSize opts) @ [newline] @
     ''sizes [-s]:'' @ concat (map (\<lambda>s. '' '' @ to_string (int s) @ '','') (sizes opts)) @ [newline]"

section \<open>The measurement\<close>

text \<open>\<open>Ok None\<close> is a loop that does not end.\<close>

definition bindO :: "'a option result \<Rightarrow> ('a \<Rightarrow> 'b option result) \<Rightarrow> 'b option result" where
  "bindO m f = bindR m (\<lambda>r. case r of None \<Rightarrow> Ok None | Some x \<Rightarrow> f x)"

lemma bindO_simps [simp]: "bindO (Inl e) f = Inl e" "bindO (Ok None) f = Ok None" "bindO (Ok (Some x)) f = f x"
  by (simp_all add: bindO_def)

primrec flush_times :: "nat \<Rightarrow> CachelineFlushOp \<Rightarrow> bool \<Rightarrow> nat \<Rightarrow> nat \<Rightarrow> nat option \<Rightarrow> (CachelineFlushOp \<times> nat) list option result" where
  "flush_times 0 clop constSize cachelineSize sz ptr = Ok (Some [])"
| "flush_times (Suc n) clop constSize cachelineSize sz ptr =
     (case ptr of None \<Rightarrow> Inl (Undefined_behaviour ''flush of the null pointer'')
      | Some p \<Rightarrow>
          bindO (Ok (flushMemory clop constSize cachelineSize sz p)) (\<lambda>fs.
          bindO (flush_times n clop constSize cachelineSize sz ptr) (\<lambda>gs. Ok (Some (fs @ gs)))))"

partial_function (option) advance_loop :: "nat \<Rightarrow> nat \<Rightarrow> nat \<Rightarrow> nat option" where
  "advance_loop step lastPtr ptr = (if ptr < lastPtr then advance_loop step lastPtr (ptr + step) else Some ptr)"

primrec advance_times :: "nat \<Rightarrow> nat \<Rightarrow> nat \<Rightarrow> nat \<Rightarrow> nat option" where
  "advance_times 0 cachelineSize sz ptr = Some ptr"
| "advance_times (Suc n) cachelineSize sz ptr =
     Option.bind (advance_loop cachelineSize (ptr + sz) ptr) (advance_times n cachelineSize sz)"

text \<open>
  One iteration of the comparison, from the reading \<open>t\<close> of the clock. \<open>Inl\<close> is the message with which the tool stops,
  \<open>Inr\<close> the score and the next reading.
\<close>

definition run_iteration ::
  "(nat \<Rightarrow> int) \<Rightarrow> clflush_options \<Rightarrow> nat \<Rightarrow> nat \<Rightarrow> nat \<Rightarrow> nat option \<Rightarrow> nat \<Rightarrow>
   ((CachelineFlushOp \<times> nat) list \<times> (string + Value \<times> nat)) option result" where
  "run_iteration clock opts cachelineSize sz memPtr ptrToFlush t =
     (let n = clflushIterations opts; count = V_of_int (int n)
      in bindO (flush_times n (clOp opts) (constClSize opts) cachelineSize sz ptrToFlush) (\<lambda>fs.
           let score = (if n = 0 then Fin 0 else V_div (V_of_int (clock (t + 1) - clock t)) count)
           in if \<not> precise opts then Ok (Some (fs, Inr (score, t + 2)))
              else bindO (Ok (advance_times n cachelineSize sz memPtr)) (\<lambda>pointerToModify.
                if pointerToModify < memPtr + sz then Ok (Some (fs, Inl (''Error in loop'' @ [newline])))
                else let preciseScore = V_div (V_of_int (clock (t + 3) - clock (t + 2))) count
                     in Ok (Some (fs, Inr (V_sub score preciseScore, t + 4))))))"

definition override_memory :: "(nat \<Rightarrow> 8 word) \<Rightarrow> OverrideMemType \<Rightarrow> 8 word list \<Rightarrow> 8 word list" where
  "override_memory rand kind mem =
     (case kind of OM_ONES \<Rightarrow> overrideMemoryOnes mem | OM_RANDOM \<Rightarrow> overrideMemoryRandom rand mem | OM_NONE \<Rightarrow> mem)"

fun run_iterations ::
  "(nat \<Rightarrow> int) \<Rightarrow> (nat \<Rightarrow> 8 word) \<Rightarrow> clflush_options \<Rightarrow> nat \<Rightarrow> nat \<Rightarrow> nat \<Rightarrow> nat option \<Rightarrow> nat \<Rightarrow> 8 word list \<Rightarrow> nat \<Rightarrow> Value list \<Rightarrow>
   ((CachelineFlushOp \<times> nat) list \<times> (string + Value list \<times> nat)) option result" where
  "run_iterations clock rand opts cachelineSize sz memPtr ptrToFlush 0 mem t scores = Ok (Some ([], Inr (scores, t)))"
| "run_iterations clock rand opts cachelineSize sz memPtr ptrToFlush (Suc k) mem t scores =
     (let mem = override_memory rand (overrideMem opts) mem
      in bindO (run_iteration clock opts cachelineSize sz memPtr ptrToFlush t) (\<lambda>(fs, r).
           case r of Inl msg \<Rightarrow> Ok (Some (fs, Inl msg))
           | Inr (score, t) \<Rightarrow>
               bindO (run_iterations clock rand opts cachelineSize sz memPtr ptrToFlush k mem t (scores @ [score])) (\<lambda>(gs, r).
                 Ok (Some (fs @ gs, r)))))"

text \<open>One size. The two bounds are \<open>max_size\<close> of a vector of \<open>double\<close> and of \<open>char\<close>; \<open>std::align\<close> moves \<open>memPtr\<close>.\<close>

definition run_size ::
  "(Value \<Rightarrow> string) \<Rightarrow> (nat \<Rightarrow> nat) \<Rightarrow> (nat \<Rightarrow> int) \<Rightarrow> (nat \<Rightarrow> 8 word) \<Rightarrow> clflush_options \<Rightarrow> nat \<Rightarrow> nat \<Rightarrow> nat \<Rightarrow>
   ((CachelineFlushOp \<times> nat) list \<times> string \<times> nat option) option result" where
  "run_size print address clock rand opts cachelineSize sz t =
     FATAL_ERROR_IF (comparisonIterations opts \<ge> 2 ^ 60) ''vector::reserve''
      (let sizeToAlloc = (if alignMem opts then (sz + cachelineSize) mod 2 ^ 64 else sz)
       in FATAL_ERROR_IF (sizeToAlloc \<ge> 2 ^ 63) ''cannot create std::vector larger than max_size()''
        (let memPtr = address sizeToAlloc; memory = replicate sizeToAlloc 0;
             aligned = std_align cachelineSize sz memPtr sizeToAlloc;
             ptrToFlush = (if alignMem opts then aligned else Some memPtr);
             memPtr = (if alignMem opts then (case aligned of None \<Rightarrow> memPtr | Some p \<Rightarrow> p) else memPtr)
         in bindO (run_iterations clock rand opts cachelineSize sz memPtr ptrToFlush (comparisonIterations opts) memory t []) (\<lambda>(fs, r).
              case r of Inl msg \<Rightarrow> Ok (Some (fs, msg, None))
              | Inr (scores, t) \<Rightarrow> bindR (printIteration print sz scores) (\<lambda>s. Ok (Some (fs, s, Some t))))))"

fun run_sizes ::
  "(Value \<Rightarrow> string) \<Rightarrow> (nat \<Rightarrow> nat) \<Rightarrow> (nat \<Rightarrow> int) \<Rightarrow> (nat \<Rightarrow> 8 word) \<Rightarrow> clflush_options \<Rightarrow> nat \<Rightarrow> nat list \<Rightarrow> nat \<Rightarrow>
   ((CachelineFlushOp \<times> nat) list \<times> string) option result" where
  "run_sizes print address clock rand opts cachelineSize [] t = Ok (Some ([], []))"
| "run_sizes print address clock rand opts cachelineSize (sz # szs) t =
     bindO (run_size print address clock rand opts cachelineSize sz t) (\<lambda>(fs, s, t').
       case t' of None \<Rightarrow> Ok (Some (fs, s))
       | Some t \<Rightarrow> bindO (run_sizes print address clock rand opts cachelineSize szs t) (\<lambda>(gs, s'). Ok (Some (fs @ gs, s @ s'))))"

text \<open>\<open>main\<close>; the arguments are \<open>argv\<close> after the name of the program.\<close>

definition clflush_main ::
  "(Value \<Rightarrow> string) \<Rightarrow> (nat \<Rightarrow> nat) \<Rightarrow> (nat \<Rightarrow> int) \<Rightarrow> (nat \<Rightarrow> 8 word) \<Rightarrow> nat \<Rightarrow> string list \<Rightarrow>
   ((CachelineFlushOp \<times> nat) list \<times> string) option result" where
  "clflush_main print address clock rand cachelineSize args =
     bindR (parse_options args default_options) (\<lambda>parsed.
       case parsed of
         Printed s \<Rightarrow> Ok (Some ([], s))
       | Parsed opts \<Rightarrow>
           (let opts = (if sizes opts = [] then opts\<lparr>sizes := defaultSizes\<rparr> else opts)
            in if cachelineSize = 0 then Ok (Some ([], ''Query cacheline size failed'' @ [newline]))
               else bindO (run_sizes print address clock rand opts cachelineSize (sizes opts) 0) (\<lambda>(fs, s).
                 Ok (Some (fs, printInitialInfo cachelineSize opts @ s)))))"

section \<open>The loops\<close>

definition line_count :: "nat \<Rightarrow> nat \<Rightarrow> nat" where
  "line_count step sz = (sz + step - 1) div step"

lemma line_count_next:
  assumes "0 < step" "0 < sz"
  shows "line_count step sz = Suc (line_count step (sz - step))"
proof -
  have step: "(a + step) div step = a div step + 1" for a using assms(1) by (intro div_add_self2) simp
  show ?thesis
  proof (cases "step \<le> sz")
    case True
    then have "sz + step - 1 = (sz - step + step - 1) + step" using assms by linarith
    then show ?thesis unfolding line_count_def using step by (metis Suc_eq_plus1)
  next
    case False
    then have "sz + step - 1 = (sz - 1) + step" "sz - step = 0" "sz - 1 < step" "step - 1 < step" using assms by linarith+
    then show ?thesis unfolding line_count_def using step by (metis Suc_eq_plus1 add_0 div_less)
  qed
qed

lemma line_count_0 [simp]: "0 < step \<Longrightarrow> line_count step 0 = 0"
  by (simp add: line_count_def)

lemma line_loop_result:
  assumes "0 < step"
  shows "line_loop step (p + sz) p = Some (map (\<lambda>k. p + k * step) [0..<line_count step sz])"
proof (induction sz arbitrary: p rule: less_induct)
  case (less sz)
  show ?case
  proof (cases "sz = 0")
    case True
    then show ?thesis using assms by (subst line_loop.simps) simp
  next
    case False
    have shift: "map (\<lambda>k. p + k * step) [0..<Suc n] = p # map (\<lambda>k. p + step + k * step) [0..<n]" for n
      by (simp add: upt_conv_Cons map_Suc_upt [symmetric] algebra_simps del: upt_Suc)
    have "line_loop step (p + sz) (p + step) = Some (map (\<lambda>k. p + step + k * step) [0..<line_count step (sz - step)])"
    proof (cases "step \<le> sz")
      case True
      then have "p + sz = p + step + (sz - step)" by simp
      moreover have "sz - step < sz" using False assms by simp
      ultimately show ?thesis using less.IH [of "sz - step" "p + step"] by simp
    next
      case False
      then show ?thesis using assms by (subst line_loop.simps) simp
    qed
    then show ?thesis using False by (subst line_loop.simps) (simp add: line_count_next [OF assms] shift del: upt_Suc)
  qed
qed

lemma line_loop_stuck: "0 < sz \<Longrightarrow> line_loop 0 (p + sz) p = None"
proof -
  assume "0 < sz"
  have stuck: "step = 0 \<longrightarrow> lastPtr \<le> ptr" if "line_loop step lastPtr ptr = Some ps" for step lastPtr ptr ps
    by (rule line_loop.raw_induct [of "\<lambda>step lastPtr ptr ps. step = 0 \<longrightarrow> lastPtr \<le> ptr", OF _ that])
      (auto simp: bind_eq_Some_conv split: if_splits, fastforce)
  show ?thesis
  proof (cases "line_loop 0 (p + sz) p")
    case (Some ps)
    with stuck [OF Some] \<open>0 < sz\<close> show ?thesis by simp
  qed
qed

lemma advance_loop_result:
  assumes "0 < step"
  shows "\<exists>q. advance_loop step lastPtr p = Some q \<and> lastPtr \<le> q \<and> p \<le> q"
proof (induction "lastPtr - p" arbitrary: p rule: less_induct)
  case less
  show ?case
  proof (cases "p < lastPtr")
    case True
    then have "lastPtr - (p + step) < lastPtr - p" using assms by simp
    from less [OF this] True show ?thesis by (subst advance_loop.simps) auto
  next
    case False
    then show ?thesis by (subst advance_loop.simps) simp
  qed
qed

lemma advance_times_result:
  assumes "0 < step"
  shows "\<exists>q. advance_times n step sz p = Some q \<and> p \<le> q \<and> (0 < n \<longrightarrow> p + sz \<le> q)"
proof (induction n arbitrary: p)
  case (Suc n)
  obtain q where q: "advance_loop step (p + sz) p = Some q" "p + sz \<le> q" "p \<le> q" using advance_loop_result [OF assms] by blast
  with Suc [of q] show ?case by fastforce
qed simp

section \<open>The lines that are flushed\<close>

definition touched_lines :: "nat \<Rightarrow> nat \<Rightarrow> nat \<Rightarrow> nat set" where
  "touched_lines line p sz = {a div line | a. p \<le> a \<and> a < p + sz}"

lemma touched_lines_eq:
  assumes "0 < line" "0 < sz"
  shows "touched_lines line p sz = {p div line .. p div line + (p mod line + sz - 1) div line}"
proof -
  have last: "(p + sz - 1) div line = p div line + (p mod line + sz - 1) div line"
  proof -
    have "p + sz - 1 = p div line * line + (p mod line + sz - 1)" using assms(2) by (metis Nat.add_diff_assoc Suc_leI add.assoc add_gr_0 div_mult_mod_eq One_nat_def)
    then show ?thesis using assms(1) by (metis add.commute div_mult_self1 neq0_conv)
  qed
  have "l \<in> touched_lines line p sz" if l: "p div line \<le> l" "l \<le> (p + sz - 1) div line" for l
  proof -
    let ?a = "max p (l * line)"
    have "l * line \<le> p + sz - 1" using l(2) assms(1) by (metis div_mult_self_is_m div_le_mono less_eq_div_iff_mult_less_eq)
    then have a: "p \<le> ?a" "?a < p + sz" using assms(2) by auto
    have "p < (p div line + 1) * line" using assms(1) by (metis Suc_eq_plus1 dividend_less_div_times mult.commute mult_Suc)
    then have "p < (l + 1) * line" using l(1) by (meson add_le_mono1 le_trans mult_le_mono1 not_le)
    then have "?a < (l + 1) * line" using assms(1) by simp
    moreover have "l * line \<le> ?a" by simp
    ultimately have "?a div line = l" using div_nat_eqI [of line l ?a] by (simp add: mult.commute)
    with a show ?thesis unfolding touched_lines_def mem_Collect_eq by (intro exI [of _ ?a]) simp
  qed
  moreover have "touched_lines line p sz \<subseteq> {p div line .. (p + sz - 1) div line}"
    using assms(2) by (auto simp: touched_lines_def intro!: div_le_mono)
  ultimately show ?thesis unfolding last [symmetric] by auto
qed

text \<open>
  Flushing a range visits lines in order and none twice, and visits every cache line of the range exactly when the offset
  of the pointer in its line does not push the end of the range into one more line. So every line is flushed for an aligned
  pointer, which the option \<open>-a 1\<close> gives, and for other pointers the last line is left out for many sizes. The size zero
  flushes nothing.
\<close>

lemma flush_covers_lines_iff:
  assumes "0 < sz"
  shows "\<exists>fs. flushMemory clop constSize 64 sz p = Some fs \<and>
    map (\<lambda>(clop, a). a div 64) fs = [p div 64 ..< p div 64 + line_count 64 sz] \<and>
    (touched_lines 64 p sz = (\<lambda>(clop, a). a div 64) ` set fs \<longleftrightarrow> (p mod 64 + sz - 1) div 64 = (sz - 1) div 64)"
proof -
  let ?n = "line_count 64 sz"
  let ?fs = "map (\<lambda>k. (clop, p + k * 64)) [0..<?n]"
  have fs: "flushMemory clop constSize 64 sz p = Some ?fs"
    by (simp add: flushMemory_def line_loop_result comp_def)
  have lines: "map (\<lambda>(clop, a). a div 64) ?fs = [p div 64 ..< p div 64 + ?n]"
    using map_add_upt [of "p div 64" ?n] by (simp add: comp_def add.commute)
  have n: "?n = Suc ((sz - 1) div 64)" using assms by (simp add: line_count_def)
  have "(\<lambda>(clop, a). a div 64) ` set ?fs = {p div 64 .. p div 64 + (sz - 1) div 64}"
    using arg_cong [OF lines, of set] by (simp only: set_map set_upt n add_Suc_right atLeastLessThanSuc_atLeastAtMost)
  then have "touched_lines 64 p sz = (\<lambda>(clop, a). a div 64) ` set ?fs \<longleftrightarrow> (p mod 64 + sz - 1) div 64 = (sz - 1) div 64"
    using touched_lines_eq [of 64 sz p] assms by (simp add: Icc_eq_Icc)
  with fs lines show ?thesis by blast
qed

section \<open>The options\<close>

lemma option_value_append: "rest \<noteq> [] \<Longrightarrow> option_value (rest @ ys) = option_value rest"
  by (cases rest) (simp_all add: option_value_def)

lemma option_value_Ok: "option_value rest = Ok v \<longleftrightarrow> (\<exists>r. rest = v # r)"
  by (cases rest) (auto simp: option_value_def)

lemma option_number_Ok: "option_number rest = Ok n \<longleftrightarrow> (\<exists>v r. rest = v # r \<and> atoi v = Ok n)"
  by (auto simp: option_number_def bindR_eq_Inr option_value_Ok)

lemma option_value_Cons [simp]: "option_value (v # r) = Ok v"
  by (simp add: option_value_def)

declare strtok_comma.simps [simp del]

lemma option_number_Cons [simp]: "option_number (v # r) = atoi v"
  by (simp add: option_number_def option_value_def)

lemma if_ext: "(if c then a else b) = v \<Longrightarrow> (a = v \<Longrightarrow> a' = w) \<Longrightarrow> (b = v \<Longrightarrow> b' = w) \<Longrightarrow> (if c then a' else b') = w"
  by (auto split: if_splits)

lemma parse_options_append:
  assumes "parse_options xs opts = Ok (Parsed opts')"
  shows "parse_options (xs @ ys) opts = parse_options ys opts'"
  using assms
proof (induction "length xs" arbitrary: xs opts rule: less_induct)
  case less
  show ?case
  proof (cases xs)
    case Nil
    then show ?thesis using less.prems by simp
  next
    case (Cons arg rest)
    have rec: "parse_options (r @ ys) o1 = parse_options ys opts'" if "parse_options r o1 = Ok (Parsed opts')" "length r \<le> length rest" for r o1
      using less.hyps [of r o1] that Cons by simp
    show ?thesis using less.prems unfolding Cons append_Cons parse_options.simps(2)
      by (elim if_ext) (auto simp: bindR_eq_Inr option_value_Ok option_number_Ok option_value_append rec elim!: if_ext)
  qed
qed

text \<open>Each option takes the next argument as its value; there is none when the option comes last.\<close>

definition value_options :: "string list" where
  "value_options = [''-s'', ''-f'', ''-i'', ''-p'', ''-m'', ''-a'', ''-t'', ''-c'']"

lemma missing_value_undefined:
  assumes "parse_options xs default_options = Ok (Parsed opts)" "opt \<in> set value_options"
  shows "clflush_main print address clock rand cachelineSize (xs @ [opt]) = Inl (Undefined_behaviour ''null string'')"
  using assms(2) unfolding clflush_main_def parse_options_append [OF assms(1)]
  by (auto simp: value_options_def option_value_def option_number_def)

section \<open>A whole run\<close>

definition line_step :: "clflush_options \<Rightarrow> nat \<Rightarrow> nat" where
  "line_step opts cachelineSize = (if constClSize opts then 64 else cachelineSize)"

definition flushed_range :: "clflush_options \<Rightarrow> nat \<Rightarrow> nat \<Rightarrow> nat \<Rightarrow> (CachelineFlushOp \<times> nat) list" where
  "flushed_range opts cachelineSize sz p =
     map (\<lambda>k. (clOp opts, p + k * line_step opts cachelineSize)) [0..<line_count (line_step opts cachelineSize) sz]"

lemma flush_times_result:
  assumes "0 < cachelineSize"
  shows "flush_times n (clOp opts) (constClSize opts) cachelineSize sz (Some p) =
    Ok (Some (concat (replicate n (flushed_range opts cachelineSize sz p))))"
  using assms
  by (induction n) (simp_all add: flushMemory_def flushed_range_def line_step_def line_loop_result comp_def)

text \<open>The times between two readings of the clock fit the count of a duration.\<close>

definition times_fit :: "(nat \<Rightarrow> int) \<Rightarrow> bool" where
  "times_fit clock \<longleftrightarrow> (\<forall>t. \<bar>clock (Suc t) - clock t\<bar> < 2 ^ 63)"

lemma run_iteration_result:
  assumes "0 < cachelineSize" "precise opts \<longrightarrow> 0 < clflushIterations opts" "times_fit clock"
  shows "\<exists>score t'. run_iteration clock opts cachelineSize sz memPtr (Some p) t =
    Ok (Some (concat (replicate (clflushIterations opts) (flushed_range opts cachelineSize sz p)), Inr (Fin score, t')))"
proof -
  let ?n = "clflushIterations opts"
  obtain q where q: "advance_times ?n cachelineSize sz memPtr = Some q" "0 < ?n \<longrightarrow> memPtr + sz \<le> q"
    using advance_times_result [OF assms(1)] by blast
  show ?thesis
  proof (cases "?n = 0")
    case True
    with assms(2) flush_times_result [OF assms(1), of ?n opts sz p] show ?thesis
      by (simp add: run_iteration_def Let_def)
  next
    case False
    let ?score = "\<lambda>t. V_div (V_of_int (clock (t + 1) - clock t)) (V_of_int (int ?n))"
    have score: "\<exists>r. ?score t = Fin r \<and> \<bar>r\<bar> \<le> 2 powi 63" for t
      using V_div_count [of "clock (t + 1) - clock t" ?n] assms(3) False by (simp add: times_fit_def)
    obtain r r' where r: "?score t = Fin r" "?score (t + 2) = Fin r'" "\<bar>r\<bar> \<le> 2 powi 63" "\<bar>r'\<bar> \<le> 2 powi 63"
      using score by meson
    obtain d where "V_sub (Fin r) (Fin r') = Fin d" using V_sub_times [OF r(3,4)] by blast
    with q r(1,2) False flush_times_result [OF assms(1), of ?n opts sz p] show ?thesis
      by (simp add: run_iteration_def Let_def eval_nat_numeral)
  qed
qed

lemma concat_replicate_add: "concat (replicate a xs) @ concat (replicate b xs) = concat (replicate (a + b) xs)"
  by (simp add: replicate_add)

lemma run_iterations_result:
  assumes "0 < cachelineSize" "precise opts \<longrightarrow> 0 < clflushIterations opts" "times_fit clock"
  shows "\<exists>scores t'. length scores = k \<and>
    run_iterations clock rand opts cachelineSize sz memPtr (Some p) k mem t ts =
    Ok (Some (concat (replicate (k * clflushIterations opts) (flushed_range opts cachelineSize sz p)), Inr (ts @ map Fin scores, t')))"
proof (induction k arbitrary: mem t ts)
  case (Suc k)
  obtain score t1 where one: "run_iteration clock opts cachelineSize sz memPtr (Some p) t =
      Ok (Some (concat (replicate (clflushIterations opts) (flushed_range opts cachelineSize sz p)), Inr (Fin score, t1)))"
    using run_iteration_result [OF assms] by blast
  from Suc [of "override_memory rand (overrideMem opts) mem" t1 "ts @ [Fin score]"] obtain scores t' where
    rest: "length scores = k" "run_iterations clock rand opts cachelineSize sz memPtr (Some p) k
      (override_memory rand (overrideMem opts) mem) t1 (ts @ [Fin score]) =
      Ok (Some (concat (replicate (k * clflushIterations opts) (flushed_range opts cachelineSize sz p)), Inr ((ts @ [Fin score]) @ map Fin scores, t')))"
    by blast
  have "run_iterations clock rand opts cachelineSize sz memPtr (Some p) (Suc k) mem t ts =
      Ok (Some (concat (replicate (Suc k * clflushIterations opts) (flushed_range opts cachelineSize sz p)), Inr (ts @ map Fin (score # scores), t')))"
    by (simp add: one rest(2) Let_def concat_replicate_add)
  with rest(1) show ?case by (metis length_Cons)
qed (simp add: exI [of _ "[]"])

lemma printIteration_defined: "ts \<noteq> [] \<Longrightarrow> \<exists>s. printIteration print sz (map Fin ts) = Ok s"
  by (cases ts) (simp_all add: printIteration_def printTimes_def calculateMin_def calculateMax_def
      V_sort_Fin [of "x # xs" for x xs, simplified] Let_def)

lemma std_align_fits:
  assumes "0 < line"
  shows "std_align line sz p (sz + line) = Some ((p + line - 1) div line * line)"
proof -
  have "(p + line - 1) div line * line \<le> p + line - 1" by (rule div_times_less_eq_dividend)
  then have "(p + line - 1) div line * line - p < line" using assms by linarith
  then show ?thesis by (simp add: std_align_def Let_def)
qed

definition flushed_pointer :: "(nat \<Rightarrow> nat) \<Rightarrow> clflush_options \<Rightarrow> nat \<Rightarrow> nat \<Rightarrow> nat" where
  "flushed_pointer address opts cachelineSize sz =
     (if alignMem opts then (address (sz + cachelineSize) + cachelineSize - 1) div cachelineSize * cachelineSize else address sz)"

definition flushes_of_size :: "(nat \<Rightarrow> nat) \<Rightarrow> clflush_options \<Rightarrow> nat \<Rightarrow> nat \<Rightarrow> (CachelineFlushOp \<times> nat) list" where
  "flushes_of_size address opts cachelineSize sz =
     concat (replicate (comparisonIterations opts * clflushIterations opts)
       (flushed_range opts cachelineSize sz (flushed_pointer address opts cachelineSize sz)))"

lemma run_size_result:
  assumes "0 < cachelineSize" "precise opts \<longrightarrow> 0 < clflushIterations opts"
    and "0 < comparisonIterations opts" "comparisonIterations opts < 2 ^ 60" "sz + cachelineSize < 2 ^ 63" "times_fit clock"
  shows "\<exists>s t'. run_size print address clock rand opts cachelineSize sz t = Ok (Some (flushes_of_size address opts cachelineSize sz, s, Some t'))"
proof -
  let ?space = "if alignMem opts then sz + cachelineSize else sz"
  let ?p = "flushed_pointer address opts cachelineSize sz"
  obtain scores t' where r: "length scores = comparisonIterations opts" "run_iterations clock rand opts cachelineSize sz ?p (Some ?p)
      (comparisonIterations opts) (replicate ?space 0) t [] =
      Ok (Some (concat (replicate (comparisonIterations opts * clflushIterations opts) (flushed_range opts cachelineSize sz ?p)), Inr ([] @ map Fin scores, t')))"
    using run_iterations_result [OF assms(1,2,6)] by metis
  have "scores \<noteq> []" using r(1) assms(3) by auto
  then obtain s where s: "printIteration print sz (map Fin scores) = Ok s" using printIteration_defined by blast
  show ?thesis
  proof (cases "alignMem opts")
    case True
    with r(2) s assms(4,5) std_align_fits [OF assms(1), of sz "address (sz + cachelineSize)"] show ?thesis
      by (simp add: run_size_def Let_def FATAL_ERROR_IF_def flushed_pointer_def flushes_of_size_def)
  next
    case False
    with r(2) s assms(4,5) show ?thesis
      by (simp add: run_size_def Let_def FATAL_ERROR_IF_def flushed_pointer_def flushes_of_size_def)
  qed
qed

lemma run_sizes_result:
  assumes "0 < cachelineSize" "precise opts \<longrightarrow> 0 < clflushIterations opts"
    and "0 < comparisonIterations opts" "comparisonIterations opts < 2 ^ 60" "\<forall>sz \<in> set szs. sz + cachelineSize < 2 ^ 63" "times_fit clock"
  shows "\<exists>s. run_sizes print address clock rand opts cachelineSize szs t =
    Ok (Some (concat (map (flushes_of_size address opts cachelineSize) szs), s))"
  using assms(5)
proof (induction szs arbitrary: t)
  case (Cons sz szs)
  from Cons.prems obtain s t' where
    one: "run_size print address clock rand opts cachelineSize sz t = Ok (Some (flushes_of_size address opts cachelineSize sz, s, Some t'))"
    using run_size_result [OF assms(1-4) _ assms(6), of sz print address rand t] by auto
  from Cons.prems Cons.IH [of t'] obtain s' where
    "run_sizes print address clock rand opts cachelineSize szs t' = Ok (Some (concat (map (flushes_of_size address opts cachelineSize) szs), s'))"
    by auto
  with one show ?case by simp
qed simp

text \<open>
  With options that are understood, at least one comparison and, where the cost of the loops is subtracted, at least one
  flush, the tool ends without undefined behaviour, and it has executed exactly the flush instructions it was asked for: for
  each size in turn, every line of the range, as often as comparisons times flushes, with the chosen instruction.
  The sizes leave room for the alignment below \<open>2 ^ 63\<close>, and the times between two readings of the clock fit their type.
\<close>

lemma clflush_main_flushes:
  assumes "parse_options args default_options = Ok (Parsed opts)" "0 < cachelineSize"
    and "precise opts \<longrightarrow> 0 < clflushIterations opts"
    and "0 < comparisonIterations opts" "comparisonIterations opts < 2 ^ 60" "\<forall>sz \<in> set (sizes opts). sz + cachelineSize < 2 ^ 63"
    and "cachelineSize < 2 ^ 62" "times_fit clock"
  shows "\<exists>s. clflush_main print address clock rand cachelineSize args =
    Ok (Some (concat (map (flushes_of_size address opts cachelineSize) (if sizes opts = [] then defaultSizes else sizes opts)), s))"
proof (cases "sizes opts = []")
  case True
  let ?opts = "opts\<lparr>sizes := defaultSizes\<rparr>"
  have "flushes_of_size address ?opts cachelineSize = flushes_of_size address opts cachelineSize"
    by (rule ext) (simp add: flushes_of_size_def flushed_range_def flushed_pointer_def line_step_def)
  moreover have "\<forall>sz \<in> set defaultSizes. sz + cachelineSize < 2 ^ 63" using assms(7) by (simp add: defaultSizes_def)
  ultimately show ?thesis
    using run_sizes_result [of cachelineSize ?opts defaultSizes clock print address rand 0] assms True
    by (auto simp: clflush_main_def Let_def)
next
  case False
  then show ?thesis
    using run_sizes_result [of cachelineSize opts "sizes opts" clock print address rand 0] assms
    by (auto simp: clflush_main_def Let_def)
qed

text \<open>Without a comparison the statistics of an empty vector are printed; without a flush the subtracted loop is an error.\<close>

lemma no_iterations_undefined:
  assumes "comparisonIterations opts = 0" "sz + cachelineSize < 2 ^ 63" "0 < cachelineSize"
  shows "run_size print address clock rand opts cachelineSize sz t = Inl (Undefined_behaviour ''dereferenced end'')"
  using assms by (simp add: run_size_def Let_def printIteration_def printTimes_def calculateMin_def)

lemma subtracting_without_flushes_stops:
  assumes "precise opts" "clflushIterations opts = 0" "0 < sz"
  shows "run_iteration clock opts cachelineSize sz memPtr p t = Ok (Some ([], Inl (''Error in loop'' @ [newline])))"
  using assms by (simp add: run_iteration_def Let_def)

end
