(* ===== verification/Ipc.thy ===== *)
theory Ipc
  imports Test_Case
begin

text \<open>
  Communication of processes on Linux, \<open>framework/utility/linux/ipc.cpp\<close>: sockets in the file system, messages that carry a
  file descriptor, and handles printed as hexadecimal digits.

  The outcome of a system call is an argument. A process is its table of open descriptors, which says for each the object it
  refers to; a new descriptor gets a number above the others. A message is the object a descriptor of the sender
  refers to and the bytes beside it; the kernel gives the receiver a descriptor of its own for the object.
\<close>

section \<open>Processes and messages\<close>

record 'o process =
  fds :: "int \<Rightarrow> 'o option"
  next_fd :: int

definition install_fd :: "'o \<Rightarrow> 'o process \<Rightarrow> int \<times> 'o process" where
  "install_fd obj p = (next_fd p, p\<lparr>fds := (fds p)(next_fd p := Some obj), next_fd := next_fd p + 1\<rparr>)"

definition process_ok :: "'o process \<Rightarrow> bool" where
  "process_ok p \<longleftrightarrow> 0 < next_fd p \<and> (\<forall>fd. next_fd p \<le> fd \<longrightarrow> fds p fd = None)"

section \<open>Sockets\<close>

text \<open>The size of \<open>sun_path\<close> on Linux and the size of a set of descriptors for \<open>select\<close>.\<close>

definition sun_path_size :: nat where
  "sun_path_size = 108"

definition FD_SETSIZE :: int where
  "FD_SETSIZE = 1024"

definition socketCreate :: "int \<Rightarrow> int \<Rightarrow> int \<times> TestResult" where
  "socketCreate sock setsockopt =
     (if sock \<le> 0 then (sock, Error) else if 0 \<noteq> setsockopt then (sock, Error) else (sock, Success))"

text \<open>The array of the address: the name and then zeros.\<close>

definition sun_path :: "string \<Rightarrow> string" where
  "sun_path socketName = map (\<lambda>i. if i < length socketName then socketName ! i else CHR 0x00) [0..<sun_path_size]"

text \<open>The address that is bound is given with the result.\<close>

definition socketBindAndListen :: "string \<Rightarrow> int \<Rightarrow> int \<Rightarrow> string option \<times> TestResult" where
  "socketBindAndListen socketName bind listen =
     (if length socketName + 1 > sun_path_size then (None, Error)
      else let address = sun_path socketName
           in if 0 \<noteq> bind then (None, Error) else if 0 \<noteq> listen then (Some address, Error) else (Some address, Success))"

text \<open>
  \<open>select\<close> gives its return value, whether the error is \<open>EINTR\<close>, and the descriptors left in the set; a descriptor that is
  negative or too large for the set is undefined behaviour. The set holds the listening and the positive active sockets.
\<close>

definition socketAccept ::
  "int \<Rightarrow> int list \<Rightarrow> (int \<Rightarrow> int set \<Rightarrow> int \<times> bool \<times> int set) \<Rightarrow> int \<Rightarrow> int \<Rightarrow> (int list \<times> int \<times> TestResult) result" where
  "socketAccept socketListening activeSockets select accept socketNew =
     (let fdSet = insert socketListening (set (filter (\<lambda>d. d > 0) activeSockets));
          maxFd = foldl (\<lambda>m d. if d > m then d else m) socketListening activeSockets
      in if socketListening < 0 \<or> \<not> list_all (\<lambda>d. d < FD_SETSIZE) (socketListening # activeSockets)
         then Inl (Undefined_behaviour ''FD_SET'')
         else let (activity, eintr, ready) = select (maxFd + 1) fdSet
              in if activity < 0 \<and> \<not> eintr then Ok (activeSockets, socketNew, Error)
                 else if socketListening \<notin> ready then Ok (activeSockets, socketNew, Error)
                 else if accept \<le> 0 then Ok (activeSockets, accept, Error)
                 else Ok (activeSockets @ [accept], accept, Success))"

text \<open>The outcome of an attempt to connect. The loop may not end: then the result is \<open>None\<close>.\<close>

datatype connect_outcome = Connected | No_entry | Connect_error string

partial_function (option) connect_loop :: "(nat \<Rightarrow> connect_outcome) \<Rightarrow> nat \<Rightarrow> (string \<times> TestResult) option" where
  "connect_loop attempt i =
     (case attempt i of
        Connected \<Rightarrow> Some ([], Success)
      | No_entry \<Rightarrow> connect_loop attempt (i + 1)
      | Connect_error e \<Rightarrow> Some (''Worker connect() failed with '' @ e @ [newline], Error))"

definition socketConnect :: "string \<Rightarrow> (nat \<Rightarrow> connect_outcome) \<Rightarrow> (string \<times> TestResult) option" where
  "socketConnect socketName attempt =
     (if length socketName + 1 > sun_path_size then Some ([], Error) else connect_loop attempt 0)"

section \<open>Messages with a descriptor\<close>

type_synonym bytes = "8 word list"

text \<open>\<open>CMSG_SPACE\<close> and \<open>CMSG_LEN\<close> on 64-bit Linux.\<close>

definition CMSG_SPACE :: "nat \<Rightarrow> nat" where
  "CMSG_SPACE n = (n + 7) div 8 * 8 + 16"

definition CMSG_LEN :: "nat \<Rightarrow> nat" where
  "CMSG_LEN n = n + 16"

text \<open>\<open>sendmsg\<close> fails for a descriptor that is not open. The control buffer is too small for data of no bytes.\<close>

definition socketSendDataWithFd :: "'o process \<Rightarrow> int \<Rightarrow> bytes \<Rightarrow> ('o \<times> bytes) list \<Rightarrow> (('o \<times> bytes) list \<times> TestResult) result" where
  "socketSendDataWithFd p fd data channel =
     (if CMSG_SPACE (length data) < CMSG_LEN 4 then Inl (Undefined_behaviour ''control message outside its buffer'')
      else case fds p fd of None \<Rightarrow> Ok (channel, Error) | Some obj \<Rightarrow> Ok (channel @ [(obj, data)], Success))"

text \<open>\<open>None\<close> when no message is there: the call blocks.\<close>

definition socketRecvDataWithFd ::
  "('o \<times> bytes) list \<Rightarrow> nat \<Rightarrow> 'o process \<Rightarrow> (int \<times> bytes \<times> ('o \<times> bytes) list \<times> 'o process \<times> TestResult) option result" where
  "socketRecvDataWithFd channel nBytes p =
     (if CMSG_SPACE nBytes < CMSG_LEN 4 then Inl (Undefined_behaviour ''control message outside its buffer'')
      else case channel of [] \<Rightarrow> Ok None
      | (obj, data) # channel \<Rightarrow>
          if length data \<noteq> nBytes then Ok (Some (-1, data, channel, p, Error))
          else let (fd, p) = install_fd obj p
               in if fd \<le> 0 then Ok (Some (fd, data, channel, p, Error)) else Ok (Some (fd, data, channel, p, Success)))"

section \<open>Handles as text\<close>

definition hex_digit_lower :: "nat \<Rightarrow> char" where
  "hex_digit_lower d = (if d < 10 then char_of (48 + d) else char_of (87 + d))"

definition serializeBinaryToStr :: "bytes \<Rightarrow> string" where
  "serializeBinaryToStr data = concat (map (\<lambda>b. [hex_digit_lower (unat b div 16), hex_digit_lower (unat b mod 16)]) data)"

text \<open>\<open>std::stoi\<close> of two characters in base 16 agrees with \<open>std::stoul\<close> in the byte that is stored.\<close>

fun deserialize_loop :: "nat \<Rightarrow> bytes \<Rightarrow> string \<Rightarrow> bytes result" where
  "deserialize_loop i data (a # b # s) =
     bindR (stoul16 [a, b]) (\<lambda>v.
       if i < length data then deserialize_loop (i + 1) (data[i := word_of_int v]) s
       else Inl (Undefined_behaviour ''write outside the handle''))"
| "deserialize_loop i data _ = Ok data"

definition deserializeStrToBinary :: "bytes \<Rightarrow> string \<Rightarrow> bytes result" where
  "deserializeStrToBinary data str = deserialize_loop 0 data str"

text \<open>The kernel finds a process by its number; \<open>pidfd_getfd\<close> duplicates a descriptor of it into the caller.\<close>

definition translateParentFd :: "(int \<Rightarrow> 'o process option) \<Rightarrow> int \<Rightarrow> int \<Rightarrow> 'o process \<Rightarrow> int \<times> 'o process \<times> TestResult" where
  "translateParentFd processes parentPid parentFd p =
     (case processes parentPid of
        None \<Rightarrow> (-1, p, Error)
      | Some parent \<Rightarrow>
          (case fds parent parentFd of
             None \<Rightarrow> (-1, p, Error)
           | Some obj \<Rightarrow> (let (fd, p) = install_fd obj p in if fd \<le> 0 then (fd, p, Error) else (fd, p, Success))))"

section \<open>Lemmas\<close>

lemma install_fd_ok:
  assumes "process_ok p" "install_fd obj p = (fd, p')"
  shows "process_ok p'" "0 < fd" "fds p' fd = Some obj" "fds p fd = None" "fd' \<noteq> fd \<Longrightarrow> fds p' fd' = fds p fd'"
  using assms by (auto simp: install_fd_def process_ok_def)

lemma hex_digit_lower_props:
  assumes "d < 16"
  shows "hex_val (hex_digit_lower d) = Some d" "\<not> isspace (hex_digit_lower d)"
    "hex_digit_lower d \<noteq> CHR ''-'' \<and> hex_digit_lower d \<noteq> CHR ''+''"
  using assms
  by (auto simp: hex_val_def hex_digit_lower_def Let_def isspace_def dest!: arg_cong [where f = "of_char :: char \<Rightarrow> nat"])

lemma stoul16_two_digits_lower:
  assumes "a < 16" "b < 16"
  shows "stoul16 [hex_digit_lower a, hex_digit_lower b] = Ok (int (16 * a + b))"
  using assms hex_digit_lower_props [of a] hex_digit_lower_props [of b]
  by (simp add: stoul16_def stoul16_unsigned_def skip_0x_def)

lemma deserialize_loop_serialize:
  assumes "i + length bs \<le> length data"
  shows "deserialize_loop i data (serializeBinaryToStr bs) = Ok (take i data @ bs @ drop (i + length bs) data)"
  using assms
proof (induction bs arbitrary: i data)
  case Nil
  then show ?case by (simp add: serializeBinaryToStr_def)
next
  case (Cons b bs)
  have "unat b < 256" by (rule order_less_le_trans [OF unsigned_less]) simp
  then have digits: "stoul16 [hex_digit_lower (unat b div 16), hex_digit_lower (unat b mod 16)] = Ok (int (unat b))"
    by (subst stoul16_two_digits_lower) auto
  have i: "i < length data" using Cons.prems by simp
  then have "take (i + 1) (data[i := b]) = take i data @ [b]" by (simp add: take_Suc_conv_app_nth)
  then show ?case
    using Cons.IH [of "i + 1" "data[i := b]"] Cons.prems i
    by (simp add: serializeBinaryToStr_def digits)
qed

text \<open>
  A handle that is printed on the command line of a process and read there is the same handle: the bytes are printed
  as two digits each, and reading them fills the array of the reader from its start and leaves the rest as it was.
\<close>

lemma serialized_handle_roundtrip:
  assumes "length bs \<le> length data"
  shows "deserializeStrToBinary data (serializeBinaryToStr bs) = Ok (bs @ drop (length bs) data)"
  using deserialize_loop_serialize [of 0 bs data] assms by (simp add: deserializeStrToBinary_def)

lemma deserialize_loop_outside:
  assumes "i \<le> length data" "length data < i + length bs"
  shows "deserialize_loop i data (serializeBinaryToStr bs) = Inl (Undefined_behaviour ''write outside the handle'')"
  using assms
proof (induction bs arbitrary: i data)
  case (Cons b bs)
  have "unat b < 256" by (rule order_less_le_trans [OF unsigned_less]) simp
  then have digits: "stoul16 [hex_digit_lower (unat b div 16), hex_digit_lower (unat b mod 16)] = Ok (int (unat b))"
    by (subst stoul16_two_digits_lower) auto
  then show ?case using Cons.IH [of "i + 1" "data[i := b]"] Cons.prems by (simp add: serializeBinaryToStr_def digits)
qed simp

text \<open>Connecting ends when the other side has created its socket, or at the first other error.\<close>

lemma connect_loop_result:
  assumes "\<forall>j. i \<le> j \<and> j < n \<longrightarrow> attempt j = No_entry" "attempt n \<noteq> No_entry" "i \<le> n"
  shows "connect_loop attempt i = (case attempt n of Connect_error e \<Rightarrow> Some (''Worker connect() failed with '' @ e @ [newline], Error) | _ \<Rightarrow> Some ([], Success))"
  using assms
proof (induction "n - i" arbitrary: i)
  case 0
  then show ?case by (subst connect_loop.simps) (auto split: connect_outcome.splits)
next
  case (Suc k)
  then have "connect_loop attempt (i + 1) = (case attempt n of Connect_error e \<Rightarrow> Some (''Worker connect() failed with '' @ e @ [newline], Error) | _ \<Rightarrow> Some ([], Success))"
    by simp
  moreover have "attempt i = No_entry" using Suc by simp
  ultimately show ?case by (subst connect_loop.simps) simp
qed

lemma connect_loop_ends: "connect_loop attempt i = Some r \<Longrightarrow> \<exists>n\<ge>i. attempt n \<noteq> No_entry"
proof (rule connect_loop.raw_induct [of "\<lambda>attempt i r. \<exists>n\<ge>i. attempt n \<noteq> No_entry"])
  fix loop :: "(nat \<Rightarrow> connect_outcome) \<Rightarrow> nat \<Rightarrow> (string \<times> TestResult) option" and attempt i r
  assume IH: "\<And>attempt i r. loop attempt i = Some r \<Longrightarrow> \<exists>n\<ge>i. attempt n \<noteq> No_entry"
    and r: "(case attempt i of Connected \<Rightarrow> Some ([], Success) | No_entry \<Rightarrow> loop attempt (i + 1)
      | Connect_error e \<Rightarrow> Some (''Worker connect() failed with '' @ e @ [newline], Error)) = Some r"
  show "\<exists>n\<ge>i. attempt n \<noteq> No_entry"
  proof (cases "attempt i = No_entry")
    case True
    with r IH [of attempt "i + 1" r] obtain n where "i + 1 \<le> n" "attempt n \<noteq> No_entry" by auto
    then show ?thesis by (intro exI [of _ n]) simp
  qed blast
qed

lemma socketConnect_ends_iff:
  assumes "length socketName + 1 \<le> sun_path_size"
  shows "socketConnect socketName attempt \<noteq> None \<longleftrightarrow> (\<exists>n. attempt n \<noteq> No_entry)"
proof
  assume "socketConnect socketName attempt \<noteq> None"
  then obtain r where "connect_loop attempt 0 = Some r" using assms by (auto simp: socketConnect_def)
  then show "\<exists>n. attempt n \<noteq> No_entry" using connect_loop_ends by blast
next
  assume ex: "\<exists>n. attempt n \<noteq> No_entry"
  define n where "n = (LEAST n. attempt n \<noteq> No_entry)"
  have "attempt n \<noteq> No_entry" unfolding n_def using ex by (rule LeastI_ex)
  moreover have "\<forall>j. 0 \<le> j \<and> j < n \<longrightarrow> attempt j = No_entry" unfolding n_def using not_less_Least by blast
  ultimately have "connect_loop attempt 0 = (case attempt n of Connect_error e \<Rightarrow> Some (''Worker connect() failed with '' @ e @ [newline], Error) | _ \<Rightarrow> Some ([], Success))"
    by (intro connect_loop_result) auto
  then show "socketConnect socketName attempt \<noteq> None"
    using assms by (cases "attempt n") (auto simp: socketConnect_def)
qed

text \<open>The server calls \<open>bind\<close> before \<open>listen\<close>; an attempt in between is refused, which is not the error that is retried.\<close>

lemma refused_connection_is_final:
  assumes "length socketName + 1 \<le> sun_path_size" "\<forall>j<n. attempt j = No_entry" "attempt n = Connect_error e"
  shows "\<exists>s. socketConnect socketName attempt = Some (s, Error)"
  using connect_loop_result [of 0 n attempt] assms by (simp add: socketConnect_def)

text \<open>A message arrives with a descriptor of the receiver for the object of the sender.\<close>

lemma message_with_fd_arrives:
  assumes "process_ok q" "fds p fd = Some obj" "0 < length data"
  shows "socketSendDataWithFd p fd data channel = Ok (channel @ [(obj, data)], Success)"
    and "\<exists>fd' q'. socketRecvDataWithFd ((obj, data) # channel) (length data) q = Ok (Some (fd', data, channel, q', Success)) \<and>
      install_fd obj q = (fd', q')"
proof -
  have "CMSG_LEN 4 \<le> CMSG_SPACE (length data)" using assms(3) div_le_mono [of 8 "length data + 7" 8]
    by (simp add: CMSG_SPACE_def CMSG_LEN_def Suc_le_eq)
  then show "socketSendDataWithFd p fd data channel = Ok (channel @ [(obj, data)], Success)"
    "\<exists>fd' q'. socketRecvDataWithFd ((obj, data) # channel) (length data) q = Ok (Some (fd', data, channel, q', Success)) \<and>
      install_fd obj q = (fd', q')"
    using assms by (auto simp: socketSendDataWithFd_def socketRecvDataWithFd_def install_fd_def process_ok_def)
qed

end
