(* ===== verification/Heat3D_Ipc.thy ===== *)
theory Heat3D_Ipc
  imports Heat3D_Exchange Ipc
begin

text \<open>
  How the ranks of the heat transfer workload get at the receive buffers of their neighbours: the second half of \<open>initParams\<close>
  of \<open>workloads/heat3d_workload_l0/heat3d_workload_l0.cpp\<close>, in the variant that duplicates descriptors of other processes
  (\<open>USE_PIDFD\<close>) and in the one that sends descriptors through sockets.

  The two calls of the driver that make and open a handle are parameters; the code relies on the first \<open>int\<close> of a handle being
  a descriptor of the process. A process is its table of descriptors, as in theory Ipc.
\<close>

section \<open>Handles\<close>

definition ZE_MAX_IPC_HANDLE_SIZE :: nat where
  "ZE_MAX_IPC_HANDLE_SIZE = 64"

text \<open>The \<open>int\<close> at the start of a handle, least significant byte first.\<close>

definition int_bytes :: "int \<Rightarrow> bytes" where
  "int_bytes v = map (\<lambda>i. word_of_int (v div 256 ^ i)) [0..<4]"

definition handle_fd :: "bytes \<Rightarrow> int" where
  "handle_fd h = wrap_i32 (uint (h ! 0) + 256 * uint (h ! 1) + 65536 * uint (h ! 2) + 16777216 * uint (h ! 3))"

definition patch_fd :: "int \<Rightarrow> bytes \<Rightarrow> bytes" where
  "patch_fd fd h = int_bytes fd @ drop 4 h"

text \<open>The result of \<open>translateParentFd\<close> is not looked at.\<close>

definition deserializeAndPatchIpcHandle ::
  "(int \<Rightarrow> 'o process option) \<Rightarrow> int \<Rightarrow> string \<Rightarrow> bytes \<Rightarrow> 'o process \<Rightarrow> (bytes \<times> 'o process \<times> TestResult) result" where
  "deserializeAndPatchIpcHandle processes parentPid handleDataStr handleData p =
     bindR (deserializeStrToBinary handleData handleDataStr) (\<lambda>handleData.
       let parentFd = handle_fd handleData
       in if parentFd \<le> 0 then Ok (handleData, p, Error)
          else let (fd, p, _) = translateParentFd processes parentPid parentFd p in Ok (patch_fd fd handleData, p, Success))"

section \<open>Exchange through the shared buffer\<close>

record HaloBufferInfoTy =
  halo_pid :: int
  halo_handle :: bytes

text \<open>The offset of a slot in bytes; the product is computed in 32 bits.\<close>

definition initBufferOffset :: "uint32 \<Rightarrow> FacetTy \<Rightarrow> nat" where
  "initBufferOffset rank facet = unat ((6 * rank + word_of_int (FacetTy_code facet)) * 1024)"

definition write_halo ::
  "('o process \<Rightarrow> 'o \<Rightarrow> bytes \<times> 'o process) \<Rightarrow> int \<Rightarrow> uint32 \<Rightarrow> (FacetTy \<Rightarrow> 'o) \<Rightarrow> FacetTy \<Rightarrow>
   (nat \<Rightarrow> HaloBufferInfoTy) \<times> 'o process \<Rightarrow> (nat \<Rightarrow> HaloBufferInfoTy) \<times> 'o process" where
  "write_halo getIpcHandle getpid rank buffers f s =
     (let (h, p) = getIpcHandle (snd s) (buffers f)
      in ((fst s)(initBufferOffset rank f := \<lparr>halo_pid = getpid, halo_handle = h\<rparr>), p))"

definition write_halos ::
  "('o process \<Rightarrow> 'o \<Rightarrow> bytes \<times> 'o process) \<Rightarrow> int list \<Rightarrow> (nat \<Rightarrow> FacetTy \<Rightarrow> 'o) \<Rightarrow> nat \<Rightarrow>
   (nat \<Rightarrow> HaloBufferInfoTy) \<times> 'o process list \<Rightarrow> (nat \<Rightarrow> HaloBufferInfoTy) \<times> 'o process list" where
  "write_halos getIpcHandle pids buf r s =
     (let (shared, p) = fold (write_halo getIpcHandle (pids ! r) (of_nat r) (buf r)) facets (fst s, snd s ! r)
      in (shared, (snd s)[r := p]))"

text \<open>The processes by number, as the kernel finds them.\<close>

definition find_process :: "int list \<Rightarrow> 'o process list \<Rightarrow> int \<Rightarrow> 'o process option" where
  "find_process pids ps pid = map_of (zip pids ps) pid"

text \<open>A facet of a rank after the barrier: \<open>None\<close> when the handle cannot be opened.\<close>

definition read_halo ::
  "('o process \<Rightarrow> bytes \<Rightarrow> 'o option) \<Rightarrow> int list \<Rightarrow> (nat \<Rightarrow> HaloBufferInfoTy) \<Rightarrow> ParamsTy \<Rightarrow> nat \<Rightarrow> FacetTy \<Rightarrow>
   'o process list \<Rightarrow> 'o option \<times> 'o process list" where
  "read_halo openIpcHandle pids shared params r f ps =
     (let neighborRank = neighbors params ! nat (FacetTy_code f);
          slot = shared (initBufferOffset neighborRank (reverseFacetUD f));
          parentFd = handle_fd (halo_handle slot);
          (fd, p, _) = translateParentFd (find_process pids ps) (halo_pid slot) parentFd (ps ! r)
      in (openIpcHandle p (patch_fd fd (halo_handle slot)), ps[r := p]))"

fun read_halos ::
  "('o process \<Rightarrow> bytes \<Rightarrow> 'o option) \<Rightarrow> int list \<Rightarrow> (nat \<Rightarrow> HaloBufferInfoTy) \<Rightarrow> ParamsTy \<Rightarrow> nat \<Rightarrow> FacetTy list \<Rightarrow>
   'o process list \<Rightarrow> (FacetTy \<Rightarrow> 'o option) \<times> 'o process list" where
  "read_halos openIpcHandle pids shared params r [] ps = (\<lambda>_. None, ps)"
| "read_halos openIpcHandle pids shared params r (f # fs) ps =
     (let (obj, ps) = read_halo openIpcHandle pids shared params r f ps;
          (opened, ps) = read_halos openIpcHandle pids shared params r fs ps
      in (opened(f := obj), ps))"

text \<open>All ranks read, one after the other in the order given.\<close>

fun read_all ::
  "('o process \<Rightarrow> bytes \<Rightarrow> 'o option) \<Rightarrow> int list \<Rightarrow> (nat \<Rightarrow> HaloBufferInfoTy) \<Rightarrow> ParamsTy list \<Rightarrow> nat list \<Rightarrow>
   'o process list \<Rightarrow> (nat \<Rightarrow> FacetTy \<Rightarrow> 'o option) \<times> 'o process list" where
  "read_all openIpcHandle pids shared params [] ps = (\<lambda>_ _. None, ps)"
| "read_all openIpcHandle pids shared params (r # rs) ps =
     (let (opened, ps) = read_halos openIpcHandle pids shared (params ! r) r facets ps;
          (others, ps) = read_all openIpcHandle pids shared params rs ps
      in (others(r := opened), ps))"

definition exchange_by_pidfd ::
  "('o process \<Rightarrow> 'o \<Rightarrow> bytes \<times> 'o process) \<Rightarrow> ('o process \<Rightarrow> bytes \<Rightarrow> 'o option) \<Rightarrow> int list \<Rightarrow> (nat \<Rightarrow> FacetTy \<Rightarrow> 'o) \<Rightarrow>
   ParamsTy list \<Rightarrow> nat list \<Rightarrow> nat list \<Rightarrow> (nat \<Rightarrow> HaloBufferInfoTy) \<Rightarrow> 'o process list \<Rightarrow> nat \<Rightarrow> FacetTy \<Rightarrow> 'o option" where
  "exchange_by_pidfd getIpcHandle openIpcHandle pids buf params writers readers shared ps =
     (let (shared, ps) = fold (write_halos getIpcHandle pids buf) writers (shared, ps)
      in fst (read_all openIpcHandle pids shared params readers ps))"

section \<open>Exchange through sockets\<close>

text \<open>The results of sending and receiving are not looked at; \<open>Ok None\<close> is a receive that blocks for ever.\<close>

fun send_handles :: "'o process \<Rightarrow> bytes list \<Rightarrow> ('o \<times> bytes) list \<Rightarrow> ('o \<times> bytes) list result" where
  "send_handles p [] channel = Ok channel"
| "send_handles p (h # hs) channel =
     bindR (socketSendDataWithFd p (handle_fd h) h channel) (\<lambda>(channel, _). send_handles p hs channel)"

fun recv_handles :: "nat \<Rightarrow> ('o \<times> bytes) list \<Rightarrow> 'o process \<Rightarrow> (bytes list \<times> 'o process) option result" where
  "recv_handles 0 channel p = Ok (Some ([], p))"
| "recv_handles (Suc k) channel p =
     bindR (socketRecvDataWithFd channel ZE_MAX_IPC_HANDLE_SIZE p) (\<lambda>r.
       case r of None \<Rightarrow> Ok None
       | Some (fd, data, channel, p, _) \<Rightarrow>
           bindR (recv_handles k channel p) (\<lambda>r.
             Ok (map_option (\<lambda>(hs, p). (patch_fd fd data # hs, p)) r)))"

text \<open>The handles of the own buffers.\<close>

fun own_handles :: "('o process \<Rightarrow> 'o \<Rightarrow> bytes \<times> 'o process) \<Rightarrow> 'o list \<Rightarrow> 'o process \<Rightarrow> bytes list \<times> 'o process" where
  "own_handles getIpcHandle [] p = ([], p)"
| "own_handles getIpcHandle (obj # objs) p =
     (let (h, p) = getIpcHandle p obj; (hs, p) = own_handles getIpcHandle objs p in (h # hs, p))"

text \<open>
  The round of the sender \<open>r\<close>: it accepts the others in some order, and each of them has a connection of its own. The table
  has the handles rank \<open>i\<close> knows of the buffers of rank \<open>j\<close>. To connect and to accept is one step here: which of the others is
  accepted next is the order, and the failures of both calls are those of theory \<open>Ipc\<close>.
\<close>

fun socket_round ::
  "nat \<Rightarrow> nat list \<Rightarrow> 'o process list \<Rightarrow> (nat \<Rightarrow> nat \<Rightarrow> bytes list) \<Rightarrow> ('o process list \<times> (nat \<Rightarrow> nat \<Rightarrow> bytes list)) option result" where
  "socket_round r [] ps tab = Ok (Some (ps, tab))"
| "socket_round r (other # others) ps tab =
     bindR (send_handles (ps ! r) (tab r r) []) (\<lambda>channel.
     bindR (recv_handles (length facets) channel (ps ! other)) (\<lambda>received.
       case received of None \<Rightarrow> Ok None
       | Some (hs, p) \<Rightarrow> socket_round r others (ps[other := p]) (tab(other := (tab other)(r := hs)))))"

fun socket_rounds ::
  "(nat \<Rightarrow> nat list) \<Rightarrow> nat list \<Rightarrow> 'o process list \<Rightarrow> (nat \<Rightarrow> nat \<Rightarrow> bytes list) \<Rightarrow>
   ('o process list \<times> (nat \<Rightarrow> nat \<Rightarrow> bytes list)) option result" where
  "socket_rounds order [] ps tab = Ok (Some (ps, tab))"
| "socket_rounds order (r # rs) ps tab =
     bindR (socket_round r (order r) ps tab) (\<lambda>x.
       case x of None \<Rightarrow> Ok None | Some (ps, tab) \<Rightarrow> socket_rounds order rs ps tab)"

fun make_handles ::
  "('o process \<Rightarrow> 'o \<Rightarrow> bytes \<times> 'o process) \<Rightarrow> (nat \<Rightarrow> FacetTy \<Rightarrow> 'o) \<Rightarrow> nat list \<Rightarrow> 'o process list \<Rightarrow> (nat \<Rightarrow> nat \<Rightarrow> bytes list) \<Rightarrow>
   'o process list \<times> (nat \<Rightarrow> nat \<Rightarrow> bytes list)" where
  "make_handles getIpcHandle buf [] ps tab = (ps, tab)"
| "make_handles getIpcHandle buf (r # rs) ps tab =
     (let (hs, p) = own_handles getIpcHandle (map (buf r) facets) (ps ! r)
      in make_handles getIpcHandle buf rs (ps[r := p]) (tab(r := (tab r)(r := hs))))"

definition exchange_by_sockets ::
  "('o process \<Rightarrow> 'o \<Rightarrow> bytes \<times> 'o process) \<Rightarrow> ('o process \<Rightarrow> bytes \<Rightarrow> 'o option) \<Rightarrow> (nat \<Rightarrow> FacetTy \<Rightarrow> 'o) \<Rightarrow>
   ParamsTy list \<Rightarrow> (nat \<Rightarrow> nat list) \<Rightarrow> 'o process list \<Rightarrow> (nat \<Rightarrow> FacetTy \<Rightarrow> 'o option) option result" where
  "exchange_by_sockets getIpcHandle openIpcHandle buf params order ps =
     (let (ps, tab) = make_handles getIpcHandle buf [0..<length ps] ps (\<lambda>_ _. [])
      in bindR (socket_rounds order (if length ps = 1 then [] else [0..<length ps]) ps tab) (\<lambda>x.
           Ok (map_option (\<lambda>(ps, tab) r f.
             let neighborRank = neighbors (params ! r) ! nat (FacetTy_code f); neighborFacet = nat (FacetTy_code (reverseFacetUD f))
             in openIpcHandle (ps ! r) (tab r (unat neighborRank) ! neighborFacet)) x)))"

section \<open>Lemmas on handles and descriptors\<close>

lemma bytes_of_int:
  "v mod 256 + 256 * (v div 256 mod 256) + 65536 * (v div 65536 mod 256) + 16777216 * (v div 16777216 mod 256) = v mod 2 ^ 32" for v :: int
proof -
  have a: "v mod 65536 = 256 * (v div 256 mod 256) + v mod 256" using zmod_zmult2_eq [of 256 v 256] by simp
  have b: "v mod 16777216 = 65536 * (v div 65536 mod 256) + v mod 65536" using zmod_zmult2_eq [of 256 v 65536] by simp
  have c: "v mod 2 ^ 32 = 16777216 * (v div 16777216 mod 256) + v mod 16777216" using zmod_zmult2_eq [of 256 v 16777216] by simp
  show ?thesis by (simp only: c b a ac_simps)
qed

lemma handle_fd_patch [simp]:
  assumes "in_i32 fd"
  shows "handle_fd (patch_fd fd h) = fd"
proof -
  have four: "[0..<4] = [0, 1, 2, 3 :: nat]" by (simp add: upt_rec)
  have nth: "patch_fd fd h ! i = word_of_int (fd div 256 ^ i)" if "i < 4" for i
    using that by (simp add: patch_fd_def int_bytes_def nth_append)
  have "handle_fd (patch_fd fd h) = wrap_i32 (fd mod 2 ^ 32)"
    unfolding handle_fd_def bytes_of_int [symmetric]
    by (simp only: nth [of 0] nth [of 1] nth [of 2] nth [of 3] uint_word_of_int) simp
  also have "\<dots> = wrap_i32 fd" by (simp add: wrap_i32_def mod_simps)
  finally show ?thesis using assms by simp
qed

lemma length_patch_fd [simp]: "length h = ZE_MAX_IPC_HANDLE_SIZE \<Longrightarrow> length (patch_fd fd h) = ZE_MAX_IPC_HANDLE_SIZE"
  by (simp add: patch_fd_def int_bytes_def ZE_MAX_IPC_HANDLE_SIZE_def)

text \<open>Room for \<open>k\<close> more descriptors, and a process that still has all descriptors it had.\<close>

definition room :: "int \<Rightarrow> 'o process \<Rightarrow> bool" where
  "room k p \<longleftrightarrow> process_ok p \<and> next_fd p + k < 2 ^ 31"

definition grown :: "int \<Rightarrow> 'o process \<Rightarrow> 'o process \<Rightarrow> bool" where
  "grown k p p' \<longleftrightarrow> process_ok p' \<and> next_fd p' \<le> next_fd p + k \<and> (\<forall>fd obj. fds p fd = Some obj \<longrightarrow> fds p' fd = Some obj)"

lemma grown_refl: "process_ok p \<Longrightarrow> grown 0 p p"
  by (simp add: grown_def)

lemma grown_trans: "grown j p q \<Longrightarrow> grown k q r \<Longrightarrow> grown (j + k) p r"
  by (simp add: grown_def)

lemma grown_room: "grown j p q \<Longrightarrow> room k p \<Longrightarrow> room (k - j) q"
  by (simp add: grown_def room_def)

lemma grown_fds: "grown k p q \<Longrightarrow> fds p fd = Some obj \<Longrightarrow> fds q fd = Some obj"
  by (simp add: grown_def)

lemma fds_less: "process_ok p \<Longrightarrow> fds p fd = Some obj \<Longrightarrow> fd < next_fd p"
  by (metis not_le option.distinct(1) process_ok_def)

lemma install_fd_grown:
  assumes "room k p" "0 < k" "install_fd obj p = (fd, q)"
  shows "grown 1 p q" "fds q fd = Some obj" "0 < fd" "in_i32 fd"
  using assms by (auto simp: grown_def room_def install_fd_def process_ok_def in_i32_def)

text \<open>
  What the code relies on: a handle has 64 bytes and starts with a positive descriptor of the process for the object; opening
  a handle gives the object its descriptor refers to in the process that opens it.
\<close>

definition ipc_driver_ok :: "('o process \<Rightarrow> 'o \<Rightarrow> bytes \<times> 'o process) \<Rightarrow> ('o process \<Rightarrow> bytes \<Rightarrow> 'o option) \<Rightarrow> bool" where
  "ipc_driver_ok getIpcHandle openIpcHandle \<longleftrightarrow>
     (\<forall>p obj h q. room 1 p \<longrightarrow> getIpcHandle p obj = (h, q) \<longrightarrow>
        length h = ZE_MAX_IPC_HANDLE_SIZE \<and> 0 < handle_fd h \<and> grown 1 p q \<and> fds q (handle_fd h) = Some obj) \<and>
     (\<forall>p h obj. length h = ZE_MAX_IPC_HANDLE_SIZE \<longrightarrow> fds p (handle_fd h) = Some obj \<longrightarrow> openIpcHandle p h = Some obj)"

lemma driver_get:
  assumes "ipc_driver_ok getIpcHandle openIpcHandle" "room k p" "0 < k" "getIpcHandle p obj = (h, q)"
  shows "length h = ZE_MAX_IPC_HANDLE_SIZE" "0 < handle_fd h" "grown 1 p q" "fds q (handle_fd h) = Some obj"
proof -
  have "room 1 p" using assms(2,3) by (simp add: room_def)
  with assms(1,4) show "length h = ZE_MAX_IPC_HANDLE_SIZE" "0 < handle_fd h" "grown 1 p q" "fds q (handle_fd h) = Some obj"
    by (simp_all add: ipc_driver_ok_def)
qed

lemma driver_open:
  assumes "ipc_driver_ok getIpcHandle openIpcHandle" "length h = ZE_MAX_IPC_HANDLE_SIZE" "fds p (handle_fd h) = Some obj"
  shows "openIpcHandle p h = Some obj"
  using assms by (simp add: ipc_driver_ok_def)

section \<open>Sockets\<close>

definition knows :: "'o process \<Rightarrow> 'o list \<Rightarrow> bytes list \<Rightarrow> bool" where
  "knows p objs hs \<longleftrightarrow> list_all2 (\<lambda>obj h. length h = ZE_MAX_IPC_HANDLE_SIZE \<and> fds p (handle_fd h) = Some obj) objs hs"

lemma knows_grown: "knows p objs hs \<Longrightarrow> grown k p q \<Longrightarrow> knows q objs hs"
  unfolding knows_def by (erule list_all2_mono) (auto dest: grown_fds)

lemma knows_nth: "knows p objs hs \<Longrightarrow> i < length objs \<Longrightarrow> length (hs ! i) = ZE_MAX_IPC_HANDLE_SIZE \<and> fds p (handle_fd (hs ! i)) = Some (objs ! i)"
  by (simp add: knows_def list_all2_conv_all_nth)

lemma own_handles_known:
  assumes "ipc_driver_ok getIpcHandle openIpcHandle" "room (int (length objs)) p" "own_handles getIpcHandle objs p = (hs, q)"
  shows "grown (int (length objs)) p q \<and> knows q objs hs"
  using assms(2,3)
proof (induction objs arbitrary: p hs q)
  case Nil
  then show ?case by (simp add: grown_refl room_def knows_def)
next
  case (Cons obj objs)
  obtain h p1 hs' where r: "getIpcHandle p obj = (h, p1)" "own_handles getIpcHandle objs p1 = (hs', q)" "hs = h # hs'"
    using Cons.prems(2) by (auto split: prod.splits)
  have g: "length h = ZE_MAX_IPC_HANDLE_SIZE" "grown 1 p p1" "fds p1 (handle_fd h) = Some obj"
    using driver_get [OF assms(1) Cons.prems(1) _ r(1)] by auto
  have "room (int (length objs)) p1" using grown_room [OF g(2) Cons.prems(1)] by simp
  from Cons.IH [OF this r(2)] have i: "grown (int (length objs)) p1 q" "knows q objs hs'" by auto
  have "grown (int (length (obj # objs))) p q" using grown_trans [OF g(2) i(1)] by (simp add: add.commute)
  with g i r(3) grown_fds [OF i(1) g(3)] show ?case by (simp add: knows_def)
qed

lemma send_handles_known:
  assumes "knows p objs hs"
  shows "send_handles p hs channel = Ok (channel @ zip objs hs)"
  using assms unfolding knows_def
proof (induction arbitrary: channel rule: list_all2_induct)
  case (Cons obj objs h hs)
  have "socketSendDataWithFd p (handle_fd h) h channel = Ok (channel @ [(obj, h)], Success)"
    using Cons.hyps(1) by (simp add: socketSendDataWithFd_def CMSG_SPACE_def CMSG_LEN_def ZE_MAX_IPC_HANDLE_SIZE_def)
  with Cons.IH show ?case by simp
qed simp

lemma recv_handles_known:
  assumes "room (int (length objs)) p" "length datas = length objs" "\<forall>d \<in> set datas. length d = ZE_MAX_IPC_HANDLE_SIZE"
  shows "\<exists>hs q. recv_handles (length objs) (zip objs datas) p = Ok (Some (hs, q)) \<and> grown (int (length objs)) p q \<and> knows q objs hs"
  using assms
proof (induction objs arbitrary: p datas)
  case Nil
  then show ?case by (simp add: grown_refl room_def knows_def)
next
  case (Cons obj objs)
  then obtain d ds where d: "datas = d # ds" "length d = ZE_MAX_IPC_HANDLE_SIZE" "length ds = length objs"
    "\<forall>d \<in> set ds. length d = ZE_MAX_IPC_HANDLE_SIZE" by (cases datas) auto
  obtain fd p1 where i: "install_fd obj p = (fd, p1)" by (cases "install_fd obj p") auto
  note g = install_fd_grown [OF Cons.prems(1) _ i]
  have "room (int (length objs)) p1" using grown_room [OF g(1) Cons.prems(1)] by simp
  from Cons.IH [OF this d(3,4)] obtain hs q where r: "recv_handles (length objs) (zip objs ds) p1 = Ok (Some (hs, q))"
    "grown (int (length objs)) p1 q" "knows q objs hs" by blast
  have "grown (int (length (obj # objs))) p q" using grown_trans [OF g(1) r(2)] by (simp add: add.commute)
  moreover have "knows q (obj # objs) (patch_fd fd d # hs)" using r(3) g d(2) grown_fds [OF r(2)] by (simp add: knows_def)
  moreover have "recv_handles (length (obj # objs)) (zip (obj # objs) datas) p = Ok (Some (patch_fd fd d # hs, q))"
    using r(1) d(1,2) i g(3) by (simp add: socketRecvDataWithFd_def CMSG_SPACE_def CMSG_LEN_def ZE_MAX_IPC_HANDLE_SIZE_def)
  ultimately show ?case by blast
qed

lemma knows_lengths: "knows p objs hs \<Longrightarrow> length hs = length objs \<and> (\<forall>h \<in> set hs. length h = ZE_MAX_IPC_HANDLE_SIZE)"
  by (auto simp: knows_def list_all2_conv_all_nth in_set_conv_nth)

lemma socket_round_known:
  assumes "knows (ps ! r) objs (tab r r)" "length objs = length facets"
    and "distinct others" "r \<notin> set others" "\<forall>x \<in> set others. x < length ps \<and> room 6 (ps ! x)"
  shows "\<exists>ps' tab'. socket_round r others ps tab = Ok (Some (ps', tab')) \<and> length ps' = length ps \<and>
    (\<forall>x. if x \<in> set others then grown 6 (ps ! x) (ps' ! x) \<and> knows (ps' ! x) objs (tab' x r) else ps' ! x = ps ! x) \<and>
    (\<forall>x y. \<not> (x \<in> set others \<and> y = r) \<longrightarrow> tab' x y = tab x y)"
  using assms
proof (induction others arbitrary: ps tab)
  case (Cons other others)
  have six: "length facets = 6" by (simp add: facets_def)
  have other: "other < length ps" "room 6 (ps ! other)" "other \<noteq> r" using Cons.prems by auto
  obtain hs p where r: "recv_handles (length facets) (zip objs (tab r r)) (ps ! other) = Ok (Some (hs, p))" "grown 6 (ps ! other) p" "knows p objs hs"
    using recv_handles_known [of objs "ps ! other" "tab r r"] knows_lengths [OF Cons.prems(1)] other(2) Cons.prems(2) six by auto
  let ?ps = "ps[other := p]" and ?tab = "tab(other := (tab other)(r := hs))"
  have a: "knows (?ps ! r) objs (?tab r r)" using Cons.prems(1) other(3) by simp
  have b: "\<forall>x \<in> set others. x < length ?ps \<and> room 6 (?ps ! x)"
    using Cons.prems(3,5) by (auto simp: nth_list_update)
  have d: "distinct others" "r \<notin> set others" using Cons.prems(3,4) by simp_all
  from Cons.IH [of ?ps ?tab, OF a Cons.prems(2) d b] obtain ps' tab' where i: "socket_round r others ?ps ?tab = Ok (Some (ps', tab'))" "length ps' = length ?ps"
    "\<forall>x. if x \<in> set others then grown 6 (?ps ! x) (ps' ! x) \<and> knows (ps' ! x) objs (tab' x r) else ps' ! x = ?ps ! x"
    "\<forall>x y. \<not> (x \<in> set others \<and> y = r) \<longrightarrow> tab' x y = ?tab x y"
    by blast
  have "socket_round r (other # others) ps tab = Ok (Some (ps', tab'))"
    using i(1) r(1) send_handles_known [OF Cons.prems(1)] by simp
  moreover have "if x \<in> set (other # others) then grown 6 (ps ! x) (ps' ! x) \<and> knows (ps' ! x) objs (tab' x r) else ps' ! x = ps ! x" for x
  proof (cases "x = other")
    case True
    with Cons.prems(3) i(3,4) r(2,3) other(1) show ?thesis by (auto split: if_splits)
  next
    case False
    then have "ps[other := p] ! x = ps ! x" by simp
    with False i(3) [rule_format, of x] show ?thesis by (simp split: if_splits)
  qed
  moreover have "tab' x y = tab x y" if "\<not> (x \<in> set (other # others) \<and> y = r)" for x y
    using i(4) [rule_format, of x y] that by (auto split: if_splits)
  ultimately show ?case using i(2) by (intro exI [of _ ps'] exI [of _ tab']) simp
qed simp

lemma socket_rounds_known:
  assumes "\<forall>r \<in> set rs. r < length ps \<and> distinct (order r) \<and> set (order r) = {0..<length ps} - {r}"
    and "\<forall>x < length ps. room (6 * int (length rs)) (ps ! x)"
    and "\<forall>r < length ps. knows (ps ! r) (map (buf r) facets) (tab r r)"
    and "\<forall>x < length ps. \<forall>y < length ps. y \<notin> set rs \<longrightarrow> knows (ps ! x) (map (buf y) facets) (tab x y)"
  shows "\<exists>ps' tab'. socket_rounds order rs ps tab = Ok (Some (ps', tab')) \<and> length ps' = length ps \<and>
    (\<forall>x < length ps. \<forall>y < length ps. knows (ps' ! x) (map (buf y) facets) (tab' x y))"
  using assms
proof (induction rs arbitrary: ps tab)
  case (Cons r rs)
  let ?n = "length ps"
  have r: "r < ?n" "distinct (order r)" "set (order r) = {0..<?n} - {r}" using Cons.prems(1) by auto
  have room: "room (6 + 6 * int (length rs)) (ps ! x)" if "x < ?n" for x using Cons.prems(2) that by (simp add: algebra_simps)
  then have "\<forall>x \<in> set (order r). x < ?n \<and> room 6 (ps ! x)" using r(3) by (fastforce simp: room_def)
  moreover have "r \<notin> set (order r)" "length (map (buf r) facets) = length facets" using r(3) by simp_all
  ultimately obtain ps1 tab1 where one: "socket_round r (order r) ps tab = Ok (Some (ps1, tab1))" "length ps1 = ?n"
    "\<forall>x. if x \<in> set (order r) then grown 6 (ps ! x) (ps1 ! x) \<and> knows (ps1 ! x) (map (buf r) facets) (tab1 x r) else ps1 ! x = ps ! x"
    "\<forall>x y. \<not> (x \<in> set (order r) \<and> y = r) \<longrightarrow> tab1 x y = tab x y"
    using socket_round_known [where ps = ps and r = r and tab = tab and objs = "map (buf r) facets" and others = "order r"] Cons.prems(3) r(1,2) by blast
  have g: "grown 6 (ps ! x) (ps1 ! x)" if "x < ?n" for x
  proof (cases "x \<in> set (order r)")
    case False
    then have "ps1 ! x = ps ! x" using one(3) by presburger
    then show ?thesis using room [OF that] by (simp add: grown_def room_def)
  qed (use one(3) in presburger)
  have k: "knows (ps1 ! x) (map (buf y) facets) (tab1 x y)" if "x < ?n" "y < ?n" "y \<notin> set rs \<or> y = x" for x y
  proof (cases "x \<in> set (order r) \<and> y = r")
    case True
    then show ?thesis using one(3) by presburger
  next
    case False
    then have "tab1 x y = tab x y" using one(4) by blast
    moreover have "knows (ps ! x) (map (buf y) facets) (tab x y)"
      using Cons.prems(3,4) that False r(3) by (cases "y = x") auto
    ultimately show ?thesis using knows_grown [OF _ g [OF that(1)]] by simp
  qed
  have "room (6 * int (length rs)) (ps1 ! x)" if "x < ?n" for x
    using grown_room [OF g [OF that] room [OF that]] by simp
  then have "\<exists>ps' tab'. socket_rounds order rs ps1 tab1 = Ok (Some (ps', tab')) \<and> length ps' = length ps1 \<and>
    (\<forall>x < length ps1. \<forall>y < length ps1. knows (ps' ! x) (map (buf y) facets) (tab' x y))"
    using Cons.prems(1) k one(2) by (intro Cons.IH) auto
  with one(1,2) show ?case by auto
qed auto

lemma make_handles_known:
  assumes "ipc_driver_ok getIpcHandle openIpcHandle" "distinct rs"
    and "\<forall>r \<in> set rs. r < length ps \<and> room (6 + k) (ps ! r)" "0 \<le> k"
    and "make_handles getIpcHandle buf rs ps tab = (ps', tab')"
    and "\<forall>x < length ps. x \<notin> set rs \<longrightarrow> room k (ps ! x) \<and> knows (ps ! x) (map (buf x) facets) (tab x x)"
  shows "length ps' = length ps \<and> (\<forall>x < length ps. room k (ps' ! x) \<and> knows (ps' ! x) (map (buf x) facets) (tab' x x))"
  using assms(2-)
proof (induction rs arbitrary: ps tab)
  case (Cons r rs)
  obtain hs p where o: "own_handles getIpcHandle (map (buf r) facets) (ps ! r) = (hs, p)"
    by (cases "own_handles getIpcHandle (map (buf r) facets) (ps ! r)") auto
  have r: "r < length ps" "room (6 + k) (ps ! r)" "int (length (map (buf r) facets)) = 6"
    using Cons.prems(2) by (auto simp: facets_def)
  then have "room 6 (ps ! r)" using Cons.prems(3) by (simp add: room_def)
  from own_handles_known [OF assms(1) this [folded r(3)] o] have g: "grown 6 (ps ! r) p" "knows p (map (buf r) facets) hs"
    using r(3) by simp_all
  have k: "room k p" using grown_room [OF g(1) r(2)] by simp
  have "length ps' = length (ps[r := p]) \<and>
    (\<forall>x < length (ps[r := p]). room k (ps' ! x) \<and> knows (ps' ! x) (map (buf x) facets) (tab' x x))"
  proof (rule Cons.IH)
    show "make_handles getIpcHandle buf rs (ps[r := p]) (tab(r := (tab r)(r := hs))) = (ps', tab')"
      using Cons.prems(4) o by simp
  qed (use Cons.prems k g(2) in \<open>auto simp: nth_list_update\<close>)
  then show ?case by simp
qed auto

lemma facets_nth [simp]: "facets ! nat (FacetTy_code f) = f" "nat (FacetTy_code f) < length facets"
  by (cases f; simp add: facets_def)+

text \<open>Every neighbour is a rank.\<close>

definition neighbors_ok :: "nat \<Rightarrow> ParamsTy list \<Rightarrow> bool" where
  "neighbors_ok n params \<longleftrightarrow> (\<forall>r < n. \<forall>f. unat (neighbors (params ! r) ! nat (FacetTy_code f)) < n)"

definition neighbor_buffer :: "(nat \<Rightarrow> FacetTy \<Rightarrow> 'o) \<Rightarrow> ParamsTy list \<Rightarrow> nat \<Rightarrow> FacetTy \<Rightarrow> 'o" where
  "neighbor_buffer buf params r f = buf (unat (neighbors (params ! r) ! nat (FacetTy_code f))) (reverseFacetUD f)"

lemma exchange_by_sockets_result:
  assumes driver: "ipc_driver_ok getIpcHandle openIpcHandle"
    and room: "\<forall>x < length ps. room (6 + 6 * int (length ps)) (ps ! x)"
    and order: "\<forall>r < length ps. distinct (order r) \<and> set (order r) = {0..<length ps} - {r}"
    and nb: "neighbors_ok (length ps) params"
  shows "\<exists>opened. exchange_by_sockets getIpcHandle openIpcHandle buf params order ps = Ok (Some opened) \<and>
    (\<forall>r < length ps. \<forall>f. opened r f = Some (neighbor_buffer buf params r f))"
proof -
  let ?n = "length ps"
  obtain ps1 tab1 where m: "make_handles getIpcHandle buf [0..<?n] ps (\<lambda>_ _. []) = (ps1, tab1)"
    by (cases "make_handles getIpcHandle buf [0..<?n] ps (\<lambda>_ _. [])") auto
  have k: "length ps1 = ?n" "\<forall>x < ?n. room (6 * int ?n) (ps1 ! x)" "\<forall>x < ?n. knows (ps1 ! x) (map (buf x) facets) (tab1 x x)"
    using make_handles_known [OF driver _ _ _ m, of "6 * int ?n"] room by auto
  let ?rs = "if ?n = 1 then [] else [0..<?n]"
  obtain ps2 tab2 where s: "socket_rounds order ?rs ps1 tab1 = Ok (Some (ps2, tab2))"
    "\<forall>x < ?n. \<forall>y < ?n. knows (ps2 ! x) (map (buf y) facets) (tab2 x y)"
  proof -
    have "\<forall>r \<in> set ?rs. r < length ps1 \<and> distinct (order r) \<and> set (order r) = {0..<length ps1} - {r}"
      using order k(1) by simp
    moreover have "\<forall>x < length ps1. room (6 * int (length ?rs)) (ps1 ! x)" using k(1,2) by (auto simp: room_def)
    moreover have "\<forall>r < length ps1. knows (ps1 ! r) (map (buf r) facets) (tab1 r r)" using k(1,3) by simp
    moreover have "\<forall>x < length ps1. \<forall>y < length ps1. y \<notin> set ?rs \<longrightarrow> knows (ps1 ! x) (map (buf y) facets) (tab1 x y)"
      using k(1,3) by (cases "?n = 1") auto
    ultimately have "\<exists>ps' tab'. socket_rounds order ?rs ps1 tab1 = Ok (Some (ps', tab')) \<and> length ps' = length ps1 \<and>
      (\<forall>x < length ps1. \<forall>y < length ps1. knows (ps' ! x) (map (buf y) facets) (tab' x y))"
      by (rule socket_rounds_known)
    then show thesis using that unfolding k(1) by blast
  qed
  let ?opened = "\<lambda>r f. openIpcHandle (ps2 ! r) (tab2 r (unat (neighbors (params ! r) ! nat (FacetTy_code f))) ! nat (FacetTy_code (reverseFacetUD f)))"
  have "?opened r f = Some (neighbor_buffer buf params r f)" if "r < ?n" for r f
  proof -
    let ?y = "unat (neighbors (params ! r) ! nat (FacetTy_code f))" and ?i = "nat (FacetTy_code (reverseFacetUD f))"
    have "?y < ?n" using nb that by (simp add: neighbors_ok_def)
    then have "knows (ps2 ! r) (map (buf ?y) facets) (tab2 r ?y)" using s(2) that by blast
    from knows_nth [OF this, of ?i] show ?thesis
      by (intro driver_open [OF driver]) (simp_all add: neighbor_buffer_def)
  qed
  moreover have "exchange_by_sockets getIpcHandle openIpcHandle buf params order ps = Ok (Some ?opened)"
    using s(1) by (simp only: exchange_by_sockets_def m Let_def split k(1) bindR_simps option.map)
  ultimately show ?thesis by blast
qed

section \<open>The shared buffer\<close>

definition halo_ok :: "'o process \<Rightarrow> 'o \<Rightarrow> int \<Rightarrow> HaloBufferInfoTy \<Rightarrow> bool" where
  "halo_ok p obj pid slot \<longleftrightarrow> halo_pid slot = pid \<and> length (halo_handle slot) = ZE_MAX_IPC_HANDLE_SIZE \<and>
     fds p (handle_fd (halo_handle slot)) = Some obj"

lemma halo_ok_grown: "halo_ok p obj pid slot \<Longrightarrow> grown k p q \<Longrightarrow> halo_ok q obj pid slot"
  by (auto simp: halo_ok_def dest: grown_fds)

lemma initBufferOffset_eq:
  assumes "6 * n * 1024 < 2 ^ 32" "r < n"
  shows "initBufferOffset (of_nat r) f = (6 * r + nat (FacetTy_code f)) * 1024"
proof -
  have c: "nat (FacetTy_code f) < 6" "(word_of_int (FacetTy_code f) :: uint32) = of_nat (nat (FacetTy_code f))"
    by (cases f; simp)+
  have "6 * r + nat (FacetTy_code f) < 6 * n" using c(1) assms(2) by linarith
  then have "(6 * r + nat (FacetTy_code f)) * 1024 < 6 * n * 1024" by simp
  then have "(6 * r + nat (FacetTy_code f)) * 1024 < 2 ^ 32" using assms(1) by (rule less_trans)
  then have "unat (of_nat ((6 * r + nat (FacetTy_code f)) * 1024) :: uint32) = (6 * r + nat (FacetTy_code f)) * 1024"
    by (rule unat_of_nat_small)
  then show ?thesis by (simp add: initBufferOffset_def c(2))
qed

lemma six_digits: "a < 6 \<Longrightarrow> b < 6 \<Longrightarrow> 6 * r + a = 6 * r' + b \<longleftrightarrow> r = r' \<and> a = b" for a b r r' :: nat
proof
  assume "a < 6" "b < 6" and e: "6 * r + a = 6 * r' + b"
  then have "(6 * r + a) div 6 = r" "(6 * r' + b) div 6 = r'" by simp_all
  with e show "r = r' \<and> a = b" by simp
qed simp

lemma initBufferOffset_inject:
  assumes "6 * n * 1024 < 2 ^ 32" "r < n" "r' < n"
  shows "initBufferOffset (of_nat r) f = initBufferOffset (of_nat r') f' \<longleftrightarrow> r = r' \<and> f = f'"
proof -
  have c: "nat (FacetTy_code g) < 6" for g by (cases g) simp_all
  have "6 * r + nat (FacetTy_code f) = 6 * r' + nat (FacetTy_code f') \<longleftrightarrow> r = r' \<and> nat (FacetTy_code f) = nat (FacetTy_code f')"
    using six_digits [OF c [of f] c [of f']] .
  moreover have "nat (FacetTy_code f) = nat (FacetTy_code f') \<longleftrightarrow> f = f'" by (metis facets_nth(1))
  ultimately show ?thesis
    unfolding initBufferOffset_eq [OF assms(1,2)] initBufferOffset_eq [OF assms(1,3)] mult_cancel2 by simp
qed

lemma write_halo_fold:
  assumes "ipc_driver_ok getIpcHandle openIpcHandle" "6 * n * 1024 < 2 ^ 32" "r < n" "distinct fs" "room (int (length fs)) p"
    and "fold (write_halo getIpcHandle pid (of_nat r) buffers) fs (shared, p) = (shared', p')"
  shows "grown (int (length fs)) p p' \<and> (\<forall>f \<in> set fs. halo_ok p' (buffers f) pid (shared' (initBufferOffset (of_nat r) f))) \<and>
    (\<forall>off. off \<notin> initBufferOffset (of_nat r) ` set fs \<longrightarrow> shared' off = shared off)"
  using assms(4-)
proof (induction fs arbitrary: shared p)
  case Nil
  then show ?case by (simp add: grown_refl room_def)
next
  case (Cons f fs)
  obtain h p1 where h: "getIpcHandle p (buffers f) = (h, p1)" by (cases "getIpcHandle p (buffers f)") auto
  let ?off = "initBufferOffset (of_nat r)" and ?slot = "\<lparr>halo_pid = pid, halo_handle = h\<rparr>"
  have g: "length h = ZE_MAX_IPC_HANDLE_SIZE" "grown 1 p p1" "fds p1 (handle_fd h) = Some (buffers f)"
    using driver_get [OF assms(1) Cons.prems(2) _ h] by auto
  have room: "room (int (length fs)) p1" using grown_room [OF g(2) Cons.prems(2)] by simp
  have "write_halo getIpcHandle pid (of_nat r) buffers f (shared, p) = (shared(?off f := ?slot), p1)"
    by (simp add: write_halo_def h)
  then have "fold (write_halo getIpcHandle pid (of_nat r) buffers) fs (shared(?off f := ?slot), p1) = (shared', p')"
    using Cons.prems(3) by simp
  moreover have "distinct fs" using Cons.prems(1) by simp
  ultimately have i: "grown (int (length fs)) p1 p'" "\<forall>f \<in> set fs. halo_ok p' (buffers f) pid (shared' (?off f))"
    "\<forall>off. off \<notin> ?off ` set fs \<longrightarrow> shared' off = (shared(?off f := ?slot)) off"
    using Cons.IH [of p1 "shared(?off f := ?slot)"] room by blast+
  have "?off f \<notin> ?off ` set fs" using Cons.prems(1) initBufferOffset_inject [OF assms(2,3,3)] by auto
  then have "shared' (?off f) = ?slot" using i(3) by simp
  moreover have "halo_ok p1 (buffers f) pid ?slot" using g by (simp add: halo_ok_def)
  ultimately have "halo_ok p' (buffers f) pid (shared' (?off f))" using halo_ok_grown [OF _ i(1)] by simp
  moreover have "grown (int (length (f # fs))) p p'" using grown_trans [OF g(2) i(1)] by (simp add: add.commute)
  ultimately show ?case using i(2,3) by simp
qed

lemma write_halos_fold:
  assumes driver: "ipc_driver_ok getIpcHandle openIpcHandle" and n: "6 * n * 1024 < 2 ^ 32"
    and "distinct rs" "\<forall>r \<in> set rs. r < n \<and> room 6 (ps ! r)" "length ps = n" "set rs \<subseteq> {..<n}"
    and "fold (write_halos getIpcHandle pids buf) rs (shared, ps) = (shared', ps')"
  shows "length ps' = n \<and>
    (\<forall>r \<in> set rs. grown 6 (ps ! r) (ps' ! r) \<and> (\<forall>f. halo_ok (ps' ! r) (buf r f) (pids ! r) (shared' (initBufferOffset (of_nat r) f)))) \<and>
    (\<forall>r < n. r \<notin> set rs \<longrightarrow> ps' ! r = ps ! r \<and> (\<forall>f. shared' (initBufferOffset (of_nat r) f) = shared (initBufferOffset (of_nat r) f)))"
  using assms(3-)
proof (induction rs arbitrary: shared ps)
  case (Cons r rs)
  have all: "f \<in> set facets" for f by (cases f) (simp_all add: facets_def)
  have facets: "distinct facets" "int (length facets) = 6" by (simp_all add: facets_def)
  have r: "r < n" "room (int (length facets)) (ps ! r)" using Cons.prems(2) facets(2) by auto
  obtain sh p where w: "fold (write_halo getIpcHandle (pids ! r) (of_nat r) (buf r)) facets (shared, ps ! r) = (sh, p)"
    by (cases "fold (write_halo getIpcHandle (pids ! r) (of_nat r) (buf r)) facets (shared, ps ! r)") auto
  note h = write_halo_fold [OF driver n r(1) facets(1) r(2) w, unfolded facets(2)]
  have step: "write_halos getIpcHandle pids buf r (shared, ps) = (sh, ps[r := p])" by (simp add: write_halos_def w)
  have "fold (write_halos getIpcHandle pids buf) rs (sh, ps[r := p]) = (shared', ps')"
    using Cons.prems(5) step by simp
  moreover have "distinct rs" "set rs \<subseteq> {..<n}" "length (ps[r := p]) = n" "\<forall>x \<in> set rs. x < n \<and> room 6 (ps[r := p] ! x)"
    using Cons.prems(1-4) by (auto simp: nth_list_update)
  ultimately have i: "length ps' = n"
    "\<forall>x \<in> set rs. grown 6 (ps[r := p] ! x) (ps' ! x) \<and> (\<forall>f. halo_ok (ps' ! x) (buf x f) (pids ! x) (shared' (initBufferOffset (of_nat x) f)))"
    "\<forall>x < n. x \<notin> set rs \<longrightarrow> ps' ! x = ps[r := p] ! x \<and> (\<forall>f. shared' (initBufferOffset (of_nat x) f) = sh (initBufferOffset (of_nat x) f))"
    using Cons.IH [of "ps[r := p]" sh] by blast+
  have "r \<notin> set rs" using Cons.prems(1) by simp
  then have p: "ps' ! r = p" "\<forall>f. shared' (initBufferOffset (of_nat r) f) = sh (initBufferOffset (of_nat r) f)"
    using i(3) r(1) Cons.prems(3) by auto
  have "grown 6 (ps ! x) (ps' ! x) \<and> (\<forall>f. halo_ok (ps' ! x) (buf x f) (pids ! x) (shared' (initBufferOffset (of_nat x) f)))" if "x \<in> set (r # rs)" for x
  proof (cases "x = r")
    case True
    then show ?thesis using h p all by simp
  next
    case False
    then show ?thesis using i(2) that by auto
  qed
  moreover have "ps' ! x = ps ! x \<and> (\<forall>f. shared' (initBufferOffset (of_nat x) f) = shared (initBufferOffset (of_nat x) f))"
    if "x < n" "x \<notin> set (r # rs)" for x
  proof -
    have "initBufferOffset (of_nat x) f \<notin> initBufferOffset (of_nat r) ` set facets" for f
      using initBufferOffset_inject [OF n that(1) r(1)] that(2) by auto
    then show ?thesis using i(3) that h by simp
  qed
  ultimately show ?case using i(1) by blast
qed simp

text \<open>Only rank \<open>r\<close> opens descriptors, at most \<open>k\<close> of them.\<close>

definition all_grown :: "nat \<Rightarrow> int \<Rightarrow> 'o process list \<Rightarrow> 'o process list \<Rightarrow> bool" where
  "all_grown r k ps ps' \<longleftrightarrow> length ps' = length ps \<and> grown k (ps ! r) (ps' ! r) \<and> (\<forall>x. x \<noteq> r \<longrightarrow> ps' ! x = ps ! x)"

lemma find_process_nth:
  assumes "distinct pids" "length pids = length ps" "x < length ps"
  shows "find_process pids ps (pids ! x) = Some (ps ! x)"
proof -
  have "(pids ! x, ps ! x) \<in> set (zip pids ps)" using assms by (auto simp: set_zip)
  then show ?thesis using assms(1,2) by (simp add: find_process_def)
qed

lemma read_halo_result:
  assumes driver: "ipc_driver_ok getIpcHandle openIpcHandle"
    and ok: "\<forall>x < length ps. \<forall>f. halo_ok (ps ! x) (buf x f) (pids ! x) (shared (initBufferOffset (of_nat x) f))"
    and pids: "distinct pids" "length pids = length ps"
    and r: "r < length ps" "room k (ps ! r)" "0 < k" and nb: "neighbors_ok (length ps) params"
  shows "\<exists>ps'. read_halo openIpcHandle pids shared (params ! r) r f ps = (Some (neighbor_buffer buf params r f), ps') \<and> all_grown r 1 ps ps'"
proof -
  let ?w = "neighbors (params ! r) ! nat (FacetTy_code f)" and ?g = "reverseFacetUD f"
  let ?slot = "shared (initBufferOffset ?w ?g)"
  have w: "unat ?w < length ps" using nb r(1) by (simp add: neighbors_ok_def)
  then have slot: "halo_ok (ps ! unat ?w) (buf (unat ?w) ?g) (pids ! unat ?w) ?slot" using ok [rule_format, OF w, of ?g] by simp
  obtain fd p where i: "install_fd (buf (unat ?w) ?g) (ps ! r) = (fd, p)" by (cases "install_fd (buf (unat ?w) ?g) (ps ! r)") auto
  note g = install_fd_grown [OF r(2,3) i]
  have t: "translateParentFd (find_process pids ps) (halo_pid ?slot) (handle_fd (halo_handle ?slot)) (ps ! r) = (fd, p, Success)"
    using slot find_process_nth [OF pids w] i g(3) by (simp add: translateParentFd_def halo_ok_def)
  have "openIpcHandle p (patch_fd fd (halo_handle ?slot)) = Some (buf (unat ?w) ?g)"
    using slot g by (intro driver_open [OF driver]) (simp_all add: halo_ok_def)
  then have "read_halo openIpcHandle pids shared (params ! r) r f ps = (Some (neighbor_buffer buf params r f), ps[r := p])"
    by (simp add: read_halo_def Let_def t neighbor_buffer_def)
  moreover have "all_grown r 1 ps (ps[r := p])" using g(1) r(1) by (simp add: all_grown_def)
  ultimately show ?thesis by blast
qed

lemma all_grown_trans: "all_grown r j ps ps1 \<Longrightarrow> all_grown r k ps1 ps2 \<Longrightarrow> all_grown r (j + k) ps ps2"
  by (auto simp: all_grown_def intro: grown_trans)

lemma all_grown_halos:
  assumes "all_grown r k ps ps'" "\<forall>x < length ps. \<forall>f. halo_ok (ps ! x) (buf x f) (pids ! x) (sh x f)"
  shows "\<forall>x < length ps'. \<forall>f. halo_ok (ps' ! x) (buf x f) (pids ! x) (sh x f)"
proof (intro allI impI)
  fix x f assume "x < length ps'"
  then have "halo_ok (ps ! x) (buf x f) (pids ! x) (sh x f)" using assms by (simp add: all_grown_def)
  moreover have "grown k (ps ! x) (ps' ! x) \<or> ps' ! x = ps ! x" using assms(1) by (auto simp: all_grown_def)
  ultimately show "halo_ok (ps' ! x) (buf x f) (pids ! x) (sh x f)" using halo_ok_grown by metis
qed

lemma read_halos_result:
  assumes driver: "ipc_driver_ok getIpcHandle openIpcHandle"
    and ok: "\<forall>x < length ps. \<forall>f. halo_ok (ps ! x) (buf x f) (pids ! x) (shared (initBufferOffset (of_nat x) f))"
    and pids: "distinct pids" "length pids = length ps"
    and r: "r < length ps" "room (int (length fs)) (ps ! r)" and nb: "neighbors_ok (length ps) params"
  shows "\<exists>opened ps'. read_halos openIpcHandle pids shared (params ! r) r fs ps = (opened, ps') \<and> (\<forall>f \<in> set fs. opened f = Some (neighbor_buffer buf params r f)) \<and>
    all_grown r (int (length fs)) ps ps'"
  using ok pids r nb
proof (induction fs arbitrary: ps)
  case Nil
  then show ?case by (simp add: all_grown_def grown_refl room_def)
next
  case (Cons f fs)
  obtain ps1 where one: "read_halo openIpcHandle pids shared (params ! r) r f ps = (Some (neighbor_buffer buf params r f), ps1)" "all_grown r 1 ps ps1"
    using read_halo_result [OF driver Cons.prems(1,2,3,4,5) _ Cons.prems(6), of f] by auto
  have l: "length ps1 = length ps" using one(2) by (simp add: all_grown_def)
  have "room (int (length fs)) (ps1 ! r)" using grown_room [of 1 "ps ! r" "ps1 ! r" "int (length (f # fs))"] one(2) Cons.prems(5) by (simp add: all_grown_def)
  then obtain opened ps' where rest: "read_halos openIpcHandle pids shared (params ! r) r fs ps1 = (opened, ps')"
    "\<forall>f \<in> set fs. opened f = Some (neighbor_buffer buf params r f)" "all_grown r (int (length fs)) ps1 ps'"
    using Cons.IH [of ps1] all_grown_halos [OF one(2) Cons.prems(1)] Cons.prems(2-4,6) l by auto
  have "read_halos openIpcHandle pids shared (params ! r) r (f # fs) ps = (opened(f := Some (neighbor_buffer buf params r f)), ps')"
    by (simp add: one(1) rest(1))
  moreover have "all_grown r (int (length (f # fs))) ps ps'" using all_grown_trans [OF one(2) rest(3)] by (simp add: add.commute)
  ultimately show ?case using rest(2) by auto
qed

lemma read_all_result:
  assumes driver: "ipc_driver_ok getIpcHandle openIpcHandle"
    and ok: "\<forall>x < length ps. \<forall>f. halo_ok (ps ! x) (buf x f) (pids ! x) (shared (initBufferOffset (of_nat x) f))"
    and pids: "distinct pids" "length pids = length ps" and nb: "neighbors_ok (length ps) params"
    and rs: "distinct rs" "\<forall>r \<in> set rs. r < length ps \<and> room 6 (ps ! r)"
  shows "\<forall>r \<in> set rs. \<forall>f. fst (read_all openIpcHandle pids shared params rs ps) r f = Some (neighbor_buffer buf params r f)"
  using ok pids nb rs
proof (induction rs arbitrary: ps)
  case (Cons r rs)
  have all: "f \<in> set facets" for f by (cases f) (simp_all add: facets_def)
  have r: "r < length ps" "room (int (length facets)) (ps ! r)" using Cons.prems(6) by (auto simp: facets_def)
  obtain opened ps1 where one: "read_halos openIpcHandle pids shared (params ! r) r facets ps = (opened, ps1)"
    "\<forall>f \<in> set facets. opened f = Some (neighbor_buffer buf params r f)" "all_grown r (int (length facets)) ps ps1"
    using read_halos_result [OF driver Cons.prems(1-3) r Cons.prems(4)] by blast
  have l: "length ps1 = length ps" using one(3) by (simp add: all_grown_def)
  have "\<forall>x \<in> set rs. x < length ps1 \<and> room 6 (ps1 ! x)"
    using Cons.prems(5,6) one(3) l by (auto simp: all_grown_def)
  then have "\<forall>x \<in> set rs. \<forall>f. fst (read_all openIpcHandle pids shared params rs ps1) x f = Some (neighbor_buffer buf params x f)"
    using Cons.IH [of ps1] all_grown_halos [OF one(3) Cons.prems(1)] Cons.prems(2-5) l by simp
  moreover have "fst (read_all openIpcHandle pids shared params (r # rs) ps) = (fst (read_all openIpcHandle pids shared params rs ps1))(r := opened)"
    by (simp add: one(1) split: prod.split)
  ultimately show ?case using one(2) all by auto
qed simp

lemma exchanges_agree:
  assumes driver: "ipc_driver_ok getIpcHandle openIpcHandle"
    and room: "\<forall>x < length ps. room (12 + 6 * int (length ps)) (ps ! x)" and nb: "neighbors_ok (length ps) params"
    and order: "\<forall>r < length ps. distinct (order r) \<and> set (order r) = {0..<length ps} - {r}"
    and pids: "distinct pids" "length pids = length ps" "6 * length ps * 1024 < 2 ^ 32"
    and writers: "distinct writers" "set writers = {0..<length ps}" and readers: "distinct readers" "set readers = {0..<length ps}"
  shows "\<exists>opened. exchange_by_sockets getIpcHandle openIpcHandle buf params order ps = Ok (Some opened) \<and>
    (\<forall>r < length ps. \<forall>f. opened r f = Some (neighbor_buffer buf params r f) \<and>
       exchange_by_pidfd getIpcHandle openIpcHandle pids buf params writers readers shared ps r f = Some (neighbor_buffer buf params r f))"
proof -
  let ?n = "length ps"
  have room6: "room (6 + 6 * int ?n) (ps ! x)" "room 12 (ps ! x)" "room 6 (ps ! x)" if "x < ?n" for x
    using room that by (auto simp: room_def)
  obtain shared' ps' where w: "fold (write_halos getIpcHandle pids buf) writers (shared, ps) = (shared', ps')"
    by (cases "fold (write_halos getIpcHandle pids buf) writers (shared, ps)") auto
  have h: "length ps' = ?n" "\<forall>r < ?n. grown 6 (ps ! r) (ps' ! r) \<and> (\<forall>f. halo_ok (ps' ! r) (buf r f) (pids ! r) (shared' (initBufferOffset (of_nat r) f)))"
  proof -
    have "\<forall>r \<in> set writers. r < ?n \<and> room 6 (ps ! r)" "set writers \<subseteq> {..<?n}" using writers(2) room6(3) by auto
    from write_halos_fold [OF driver pids(3) writers(1) this(1) refl this(2) w] writers(2)
    show "length ps' = ?n" "\<forall>r < ?n. grown 6 (ps ! r) (ps' ! r) \<and> (\<forall>f. halo_ok (ps' ! r) (buf r f) (pids ! r) (shared' (initBufferOffset (of_nat r) f)))"
      by simp_all
  qed
  have "\<forall>r \<in> set readers. r < length ps' \<and> room 6 (ps' ! r)"
    using h readers(2) grown_room [OF _ room6(2)] by fastforce
  then have "\<forall>r \<in> set readers. \<forall>f. fst (read_all openIpcHandle pids shared' params readers ps') r f = Some (neighbor_buffer buf params r f)"
    using h pids nb readers(1) by (intro read_all_result [OF driver]) auto
  then have "exchange_by_pidfd getIpcHandle openIpcHandle pids buf params writers readers shared ps r f = Some (neighbor_buffer buf params r f)" if "r < ?n" for r f
    using that readers(2) by (simp add: exchange_by_pidfd_def w)
  then show ?thesis using exchange_by_sockets_result [OF driver _ order nb, of buf] room6(1) by blast
qed

lemma torus_neighbors_ok:
  assumes "torus d mesh as"
  shows "neighbors_ok (length as) (map initParams as)"
  using torus_neighbor [OF assms] by (simp add: neighbors_ok_def info_initParams makeFacetInfo_fields)

lemma neighbor_buffer_target:
  assumes "r < length as"
  shows "neighbor_buffer buf (map initParams as) r f = (case target (map initParams as) (r, f) of (r', f') \<Rightarrow> buf r' f')"
  using assms by (simp add: neighbor_buffer_def target_def info_initParams makeFacetInfo_fields)

text \<open>
  C29: Both ways of exchanging handles give the same result, and the right one: after the exchange, every rank has opened for
  each facet the receive buffer that the model of a time step copies the facet to, the one its neighbour keeps for the opposite facet. With the shared buffer this holds for every
  order in which the ranks write before the barrier and read after it, as the slots do not overlap; with sockets for every order
  in which the ranks are accepted, and no receive blocks for ever. The descriptors stay below \<open>2 ^ 31\<close>.
\<close>

theorem heat3d_exchanges_agree:
  assumes "ipc_driver_ok getIpcHandle openIpcHandle" "torus d mesh as" "length ps = length as"
    and "\<forall>x < length ps. room (12 + 6 * int (length ps)) (ps ! x)"
    and "\<forall>r < length ps. distinct (order r) \<and> set (order r) = {0..<length ps} - {r}"
    and "distinct pids" "length pids = length ps" "6 * length ps * 1024 < 2 ^ 32"
    and "distinct writers" "set writers = {0..<length ps}" and "distinct readers" "set readers = {0..<length ps}"
  shows "\<exists>opened. exchange_by_sockets getIpcHandle openIpcHandle buf (map initParams as) order ps = Ok (Some opened) \<and>
    (\<forall>r < length ps. \<forall>f. opened r f = Some (case target (map initParams as) (r, f) of (r', f') \<Rightarrow> buf r' f') \<and>
       exchange_by_pidfd getIpcHandle openIpcHandle pids buf (map initParams as) writers readers shared ps r f = opened r f)"
proof -
  have nb: "neighbors_ok (length ps) (map initParams as)" using torus_neighbors_ok [OF assms(2)] assms(3) by simp
  from exchanges_agree [OF assms(1,4) nb assms(5-12), of buf shared] obtain opened where
    o: "exchange_by_sockets getIpcHandle openIpcHandle buf (map initParams as) order ps = Ok (Some opened)"
    "\<forall>r < length ps. \<forall>f. opened r f = Some (neighbor_buffer buf (map initParams as) r f) \<and>
       exchange_by_pidfd getIpcHandle openIpcHandle pids buf (map initParams as) writers readers shared ps r f = Some (neighbor_buffer buf (map initParams as) r f)"
    by blast
  then show ?thesis using neighbor_buffer_target [of _ as buf] assms(3) by (intro exI [of _ opened]) simp
qed

definition example_get :: "'o process \<Rightarrow> 'o \<Rightarrow> bytes \<times> 'o process" where
  "example_get p obj = (let (fd, q) = install_fd obj p in (patch_fd fd (replicate 64 0), q))"

definition example_process :: "'o process" where
  "example_process = \<lparr>fds = (\<lambda>_. None), next_fd = 3\<rparr>"

lemma example_driver_ok: "ipc_driver_ok example_get (\<lambda>p h. fds p (handle_fd h))"
proof -
  have "length h = ZE_MAX_IPC_HANDLE_SIZE \<and> 0 < handle_fd h \<and> grown 1 p q \<and> fds q (handle_fd h) = Some obj"
    if p: "room 1 p" and g: "example_get p obj = (h, q)" for p obj h and q :: "'a process"
  proof -
    obtain fd where i: "install_fd obj p = (fd, q)" "h = patch_fd fd (replicate 64 0)"
      using g by (auto simp: example_get_def split: prod.splits)
    have "length (patch_fd fd (replicate 64 0)) = ZE_MAX_IPC_HANDLE_SIZE"
      by (rule length_patch_fd) (simp add: ZE_MAX_IPC_HANDLE_SIZE_def)
    with install_fd_grown [OF p _ i(1)] i(2) show ?thesis by simp
  qed
  then show ?thesis by (simp add: ipc_driver_ok_def)
qed

theorem heat3d_exchanges_agree_witness:
  "\<exists>opened. exchange_by_sockets example_get (\<lambda>p h. fds p (handle_fd h)) Pair (map initParams [example_args 0, example_args 1])
      (\<lambda>r. [1 - r]) [example_process, example_process] = Ok (Some opened) \<and>
    opened 0 XU = Some (target (map initParams [example_args 0, example_args 1]) (0, XU))"
proof -
  let ?ps = "[example_process, example_process :: (nat \<times> FacetTy) process]"
  have "room 24 (example_process :: (nat \<times> FacetTy) process)"
    by (simp add: room_def process_ok_def example_process_def)
  then have rooms: "\<forall>x < length ?ps. room (12 + 6 * int (length ?ps)) (?ps ! x)" by (simp add: less_Suc_eq)
  have order: "\<forall>r < length ?ps. distinct [1 - r] \<and> set [1 - r] = {0..<length ?ps} - {r}" by (auto simp: less_Suc_eq)
  have ranks: "set [0, 1] = {0..<length ?ps}" "set [1, 0] = {0..<length ?ps}" by auto
  obtain opened where "exchange_by_sockets example_get (\<lambda>p h. fds p (handle_fd h)) Pair (map initParams [example_args 0, example_args 1])
      (\<lambda>r. [1 - r]) ?ps = Ok (Some opened)"
    "\<forall>r < length ?ps. \<forall>f. opened r f = Some (case target (map initParams [example_args 0, example_args 1]) (r, f) of (r', f') \<Rightarrow> (r', f'))"
    using heat3d_exchanges_agree [OF example_driver_ok example_torus(1) _ rooms order, of "[10, 11]" "[0, 1]" "[1, 0]" Pair "\<lambda>_. undefined"] ranks
    by (simp del: list.map length_Cons) (metis length_Cons)
  then show ?thesis by (intro exI [of _ opened]) (simp add: case_prod_beta)
qed

text \<open>A handle that goes through the command line is patched with a descriptor for the same object; a failing translation is not reported.\<close>

lemma patched_handle_refers_to_object:
  assumes "room 1 p" "length h = ZE_MAX_IPC_HANDLE_SIZE" "0 < handle_fd h" "processes pid = Some parent" "fds parent (handle_fd h) = Some obj"
  shows "\<exists>fd q. deserializeAndPatchIpcHandle processes pid (serializeBinaryToStr h) (replicate ZE_MAX_IPC_HANDLE_SIZE 0) p = Ok (patch_fd fd h, q, Success) \<and>
    handle_fd (patch_fd fd h) = fd \<and> fds q fd = Some obj"
proof -
  have d: "deserializeStrToBinary (replicate ZE_MAX_IPC_HANDLE_SIZE 0) (serializeBinaryToStr h) = Ok h"
    using deserialize_loop_serialize [of 0 h "replicate ZE_MAX_IPC_HANDLE_SIZE 0"] assms(2) by (simp add: deserializeStrToBinary_def)
  obtain fd q where i: "install_fd obj p = (fd, q)" by (cases "install_fd obj p") auto
  have g: "0 < fd" "fds q fd = Some obj" using install_fd_grown [OF assms(1) _ i] by simp_all
  have "deserializeAndPatchIpcHandle processes pid (serializeBinaryToStr h) (replicate ZE_MAX_IPC_HANDLE_SIZE 0) p = Ok (patch_fd fd h, q, Success)"
    using assms(3-5) d i g by (simp add: deserializeAndPatchIpcHandle_def translateParentFd_def Let_def)
  moreover have "handle_fd (patch_fd fd h) = fd" using install_fd_grown [OF assms(1) _ i] assms(2) by simp
  ultimately show ?thesis using g(2) by blast
qed

lemma failing_translation_unreported:
  assumes "deserializeStrToBinary data str = Ok h" "0 < handle_fd h" "processes pid = None"
  shows "deserializeAndPatchIpcHandle processes pid str data p = Ok (patch_fd (-1) h, p, Success)"
  using assms by (simp add: deserializeAndPatchIpcHandle_def translateParentFd_def Let_def)

end
