(* ===== verification/Heat3D_Barrier.thy ===== *)
theory Heat3D_Barrier
  imports Heat3D_Ipc Barrier
begin

text \<open>
  The ranks of the heat transfer workload and their parent on the events of the driver: \<open>ipcBarrierWorker\<close> of
  \<open>workloads/heat3d_workload_l0/heat3d_workload_l0.cpp\<close>, \<open>ipcBarrierMaster\<close> of
  \<open>benchmarks/algorithm_benchmark/implementations/l0/heat3d_l0.cpp\<close>, and the time steps between them.

  The events are a list of flags, the first half for arrivals and the second for releases. A step of the system is one call
  of the driver by one process on an event, or an internal step: a rank sends all its facets or unpacks them, the parent goes
  from one of its loops to the next. Waiting for an event that is not signalled has no step. Of a time step of a rank the system has
  the sending of the facets, the barrier and the unpacking; a facet that is sent is represented by the number of its time
  step, from one. The first exchange of an iteration counts as such a step; the synchronization of the framework that follows
  it is the subject of theory Barrier. Unpacking is one step here, before the rank sends again; the code only appends it to the
  command list, so that it may happen later still. The protocol is an instance of the locale \<open>bounded_system\<close> of theory Barrier.
\<close>

section \<open>State and steps\<close>

datatype worker_pc = W_send | W_signal | W_wait | W_reset | W_unpack

datatype master_pc = M_wait nat | M_reset nat | M_release nat

record event_sys =
  events :: "bool list"
  workers :: "(worker_pc \<times> nat) list"
  m_pc :: master_pc
  m_step :: nat
  inbox :: "nat \<times> FacetTy \<Rightarrow> nat"

definition send_facets :: "(nat \<times> FacetTy \<Rightarrow> nat \<times> FacetTy) \<Rightarrow> nat \<Rightarrow> nat \<Rightarrow> (nat \<times> FacetTy \<Rightarrow> nat) \<Rightarrow> nat \<times> FacetTy \<Rightarrow> nat" where
  "send_facets tgt i k m = fold (\<lambda>f m. m(tgt (i, f) := k)) facets m"

definition set_worker :: "nat \<Rightarrow> worker_pc \<Rightarrow> nat \<Rightarrow> event_sys \<Rightarrow> event_sys" where
  "set_worker i pc k s = s\<lparr>workers := (workers s)[i := (pc, k)]\<rparr>"

text \<open>\<open>n\<close> ranks and \<open>T\<close> barriers, each after a time step.\<close>

inductive event_step :: "nat \<Rightarrow> nat \<Rightarrow> (nat \<times> FacetTy \<Rightarrow> nat \<times> FacetTy) \<Rightarrow> event_sys \<Rightarrow> event_sys \<Rightarrow> bool" for n T tgt where
  send: "i < n \<Longrightarrow> workers s ! i = (W_send, k) \<Longrightarrow> k < T \<Longrightarrow>
    event_step n T tgt s (set_worker i W_signal k (s\<lparr>inbox := send_facets tgt i (Suc k) (inbox s)\<rparr>))"
| signal_arrival: "i < n \<Longrightarrow> workers s ! i = (W_signal, k) \<Longrightarrow>
    event_step n T tgt s (set_worker i W_wait k (s\<lparr>events := (events s)[i := True]\<rparr>))"
| wait_release: "i < n \<Longrightarrow> workers s ! i = (W_wait, k) \<Longrightarrow> events s ! (i + n) \<Longrightarrow>
    event_step n T tgt s (set_worker i W_reset k s)"
| reset_release: "i < n \<Longrightarrow> workers s ! i = (W_reset, k) \<Longrightarrow>
    event_step n T tgt s (set_worker i W_unpack k (s\<lparr>events := (events s)[i + n := False]\<rparr>))"
| unpack: "i < n \<Longrightarrow> workers s ! i = (W_unpack, k) \<Longrightarrow> event_step n T tgt s (set_worker i W_send (Suc k) s)"
| wait_arrival: "m_pc s = M_wait j \<Longrightarrow> j < n \<Longrightarrow> m_step s < T \<Longrightarrow> events s ! j \<Longrightarrow> event_step n T tgt s (s\<lparr>m_pc := M_reset j\<rparr>)"
| reset_arrival: "m_pc s = M_reset j \<Longrightarrow>
    event_step n T tgt s (s\<lparr>m_pc := M_wait (Suc j), events := (events s)[j := False]\<rparr>)"
| all_arrived: "m_pc s = M_wait n \<Longrightarrow> m_step s < T \<Longrightarrow> event_step n T tgt s (s\<lparr>m_pc := M_release 0\<rparr>)"
| signal_release: "m_pc s = M_release j \<Longrightarrow> j < n \<Longrightarrow>
    event_step n T tgt s (s\<lparr>m_pc := M_release (Suc j), events := (events s)[j + n := True]\<rparr>)"
| all_released: "m_pc s = M_release n \<Longrightarrow> event_step n T tgt s (s\<lparr>m_pc := M_wait 0, m_step := Suc (m_step s)\<rparr>)"

definition event_init :: "nat \<Rightarrow> event_sys" where
  "event_init n = \<lparr>events = replicate (2 * n) False, workers = replicate n (W_send, 0), m_pc = M_wait 0, m_step = 0, inbox = (\<lambda>_. 0)\<rparr>"

definition event_final :: "nat \<Rightarrow> event_sys \<Rightarrow> bool" where
  "event_final T s \<longleftrightarrow> m_step s = T \<and> list_all (\<lambda>w. w = (W_send, T)) (workers s)"

section \<open>Invariant\<close>

text \<open>What a worker has done: facets sent, arrivals signalled, releases taken; and the parent for a worker.\<close>

definition sent :: "worker_pc \<times> nat \<Rightarrow> nat" where
  "sent w = snd w + (if fst w = W_send then 0 else 1)"

definition arrivals :: "worker_pc \<times> nat \<Rightarrow> nat" where
  "arrivals w = snd w + (if fst w \<in> {W_send, W_signal} then 0 else 1)"

definition passed :: "worker_pc \<times> nat \<Rightarrow> nat" where
  "passed w = snd w + (if fst w = W_unpack then 1 else 0)"

definition taken :: "event_sys \<Rightarrow> nat \<Rightarrow> nat" where
  "taken s i = m_step s + (case m_pc s of M_wait j \<Rightarrow> if i < j then 1 else 0 | M_reset j \<Rightarrow> if i < j then 1 else 0 | M_release _ \<Rightarrow> 1)"

definition given :: "event_sys \<Rightarrow> nat \<Rightarrow> nat" where
  "given s i = m_step s + (case m_pc s of M_release j \<Rightarrow> if i < j then 1 else 0 | _ \<Rightarrow> 0)"

text \<open>
  One worker: \<open>tk\<close> arrivals taken and \<open>gv\<close> releases given by the parent, the two events of the worker, and whether the parent
  is about to reset the first one.
\<close>

definition worker_inv :: "nat \<Rightarrow> worker_pc \<times> nat \<Rightarrow> nat \<Rightarrow> nat \<Rightarrow> bool \<Rightarrow> bool \<Rightarrow> bool \<Rightarrow> bool" where
  "worker_inv T w tk gv arrival release resetting \<longleftrightarrow>
     arrivals w \<le> T \<and> sent w \<le> T \<and> gv \<le> tk \<and> tk \<le> arrivals w \<and> arrivals w \<le> Suc tk \<and> (arrival \<longleftrightarrow> arrivals w = Suc tk) \<and>
     passed w \<le> gv \<and> gv \<le> Suc (passed w) \<and> (release \<longleftrightarrow> gv = Suc (passed w)) \<and> (fst w = W_reset \<longrightarrow> release) \<and>
     (resetting \<longrightarrow> arrival)"

definition worker_ok :: "nat \<Rightarrow> event_sys \<Rightarrow> nat \<Rightarrow> nat \<Rightarrow> bool" where
  "worker_ok n s T i \<longleftrightarrow>
     worker_inv T (workers s ! i) (taken s i) (given s i) (events s ! i) (events s ! (i + n)) (m_pc s = M_reset i)"

definition master_ok :: "nat \<Rightarrow> nat \<Rightarrow> event_sys \<Rightarrow> bool" where
  "master_ok n T s \<longleftrightarrow>
     (case m_pc s of M_wait j \<Rightarrow> m_step s \<le> T \<and> j \<le> n \<and> (m_step s = T \<longrightarrow> j = 0)
      | M_reset j \<Rightarrow> m_step s < T \<and> j < n | M_release j \<Rightarrow> m_step s < T \<and> j \<le> n)"

definition event_inv :: "nat \<Rightarrow> nat \<Rightarrow> event_sys \<Rightarrow> bool" where
  "event_inv n T s \<longleftrightarrow> length (events s) = 2 * n \<and> length (workers s) = n \<and> master_ok n T s \<and> (\<forall>i < n. worker_ok n s T i)"

fun pc_work :: "worker_pc \<Rightarrow> nat" where
  "pc_work W_send = 0" | "pc_work W_signal = 1" | "pc_work W_wait = 2" | "pc_work W_reset = 3" | "pc_work W_unpack = 4"

definition worker_work :: "worker_pc \<times> nat \<Rightarrow> nat" where
  "worker_work w = 5 * snd w + pc_work (fst w)"

definition master_work :: "nat \<Rightarrow> event_sys \<Rightarrow> nat" where
  "master_work n s = m_step s * (3 * n + 2) +
     (case m_pc s of M_wait j \<Rightarrow> 2 * j | M_reset j \<Rightarrow> 2 * j + 1 | M_release j \<Rightarrow> 2 * n + 1 + j)"

definition event_work :: "event_sys \<Rightarrow> nat" where
  "event_work s = master_work (length (workers s)) s + sum_list (map worker_work (workers s))"

lemmas worker_simps = worker_inv_def sent_def arrivals_def passed_def

lemma worker_send: "worker_inv T (W_send, k) tk gv a r h \<Longrightarrow> k < T \<Longrightarrow> worker_inv T (W_signal, k) tk gv a r h"
  by (auto simp: worker_simps)

lemma worker_signal: "worker_inv T (W_signal, k) tk gv a r h \<Longrightarrow> worker_inv T (W_wait, k) tk gv True r h"
  by (auto simp: worker_simps)

lemma worker_wait: "worker_inv T (W_wait, k) tk gv a r h \<Longrightarrow> r \<Longrightarrow> worker_inv T (W_reset, k) tk gv a r h"
  by (auto simp: worker_simps)

lemma worker_reset: "worker_inv T (W_reset, k) tk gv a r h \<Longrightarrow> worker_inv T (W_unpack, k) tk gv a False h"
  by (auto simp: worker_simps)

lemma worker_unpack: "worker_inv T (W_unpack, k) tk gv a r h \<Longrightarrow> worker_inv T (W_send, Suc k) tk gv a r h"
  by (auto simp: worker_simps)

lemma worker_arrival_taken: "worker_inv T w tk gv a r True \<Longrightarrow> worker_inv T w (Suc tk) gv False r False"
  by (auto simp: worker_inv_def)

lemma worker_resetting: "worker_inv T w tk gv a r h \<Longrightarrow> (h' \<Longrightarrow> a) \<Longrightarrow> worker_inv T w tk gv a r h'"
  by (auto simp: worker_inv_def)

lemma worker_released: "worker_inv T w (Suc k) k a r h \<Longrightarrow> worker_inv T w (Suc k) (Suc k) a True h"
  by (auto simp: worker_simps split: if_splits)

lemmas master_simps = taken_def given_def worker_ok_def

lemma worker_step_ok:
  assumes inv: "event_inv n T s" and step: "event_step n T tgt s s'" and i: "i < n"
  shows "worker_ok n s' T i"
proof -
  have w: "worker_inv T (workers s ! i) (taken s i) (given s i) (events s ! i) (events s ! (i + n)) (m_pc s = M_reset i)"
    and l: "length (events s) = 2 * n" "length (workers s) = n"
    using inv i by (simp_all add: event_inv_def worker_ok_def)
  show ?thesis using step
  proof cases
    case (send j k)
    with w l i show ?thesis by (cases "i = j") (simp_all add: master_simps set_worker_def worker_send)
  next
    case (signal_arrival j k)
    with w l i show ?thesis by (cases "i = j") (simp_all add: master_simps set_worker_def worker_signal)
  next
    case (wait_release j k)
    with w l i show ?thesis by (cases "i = j") (simp_all add: master_simps set_worker_def worker_wait)
  next
    case (reset_release j k)
    with w l i show ?thesis by (cases "i = j") (simp_all add: master_simps set_worker_def worker_reset)
  next
    case (unpack j k)
    with w l i show ?thesis by (cases "i = j") (simp_all add: master_simps set_worker_def worker_unpack)
  next
    case (wait_arrival j)
    with w show ?thesis by (auto simp: master_simps intro: worker_resetting)
  next
    case (reset_arrival j)
    then have "j < n" using inv by (simp add: event_inv_def master_ok_def)
    with reset_arrival w l i show ?thesis
      by (cases "i = j") (auto simp: master_simps less_Suc_eq dest: worker_arrival_taken intro: worker_resetting)
  next
    case all_arrived
    with w i show ?thesis by (simp add: master_simps)
  next
    case (signal_release j)
    with w l i show ?thesis
      by (cases "i = j") (auto simp: master_simps less_Suc_eq dest: worker_released)
  next
    case all_released
    with w i show ?thesis by (simp add: master_simps)
  qed
qed

lemma event_step_lengths:
  "event_step n T tgt s s' \<Longrightarrow> length (events s') = length (events s) \<and> length (workers s') = length (workers s)"
  by (auto simp: set_worker_def elim: event_step.cases)

lemma event_step_master:
  assumes "master_ok n T s" "event_step n T tgt s s'"
  shows "master_ok n T s'"
  using assms(2,1) by cases (auto simp: master_ok_def set_worker_def split: master_pc.splits)

lemma event_step_inv:
  assumes "event_inv n T s" "event_step n T tgt s s'"
  shows "event_inv n T s'"
  using assms worker_step_ok [OF assms] event_step_lengths [OF assms(2)] event_step_master [OF _ assms(2)]
  by (simp add: event_inv_def)

lemma event_init_inv: "event_inv n T (event_init n)"
  by (auto simp: event_inv_def event_init_def master_ok_def worker_ok_def worker_simps taken_def given_def)

text \<open>The work: every step moves one process by one place.\<close>

lemma event_step_work:
  assumes inv: "event_inv n T s" and step: "event_step n T tgt s s'"
  shows "event_work s' = Suc (event_work s)"
proof -
  have l: "length (workers s) = n" using inv by (simp add: event_inv_def)
  have worker: "event_work (set_worker i pc k t) = Suc (event_work s)"
    if "i < n" "worker_work (pc, k) = Suc (worker_work (workers s ! i))" "workers t = workers s" "m_pc t = m_pc s" "m_step t = m_step s"
    for i pc k t
    using that l by (simp add: event_work_def set_worker_def master_work_def sum_list_update_Suc)
  show ?thesis using step
    by cases (simp_all add: worker worker_work_def l, simp_all add: event_work_def master_work_def l)
qed

lemma event_init_work: "event_work (event_init n) = 0"
  by (simp add: event_work_def event_init_def master_work_def worker_work_def sum_list_triv)

lemma worker_work_bound:
  assumes "worker_inv T w tk gv a r h"
  shows "worker_work w \<le> 5 * T" "worker_work w = 5 * T \<longleftrightarrow> w = (W_send, T)"
  using assms by (cases w; cases "fst w"; auto simp: worker_simps worker_work_def)+

lemma master_work_bound:
  assumes "master_ok n T s"
  shows "master_work n s \<le> T * (3 * n + 2)" "master_work n s = T * (3 * n + 2) \<longleftrightarrow> m_step s = T"
proof -
  consider "m_step s = T" "m_pc s = M_wait 0" | "m_step s < T"
    "(case m_pc s of M_wait j \<Rightarrow> 2 * j | M_reset j \<Rightarrow> 2 * j + 1 | M_release j \<Rightarrow> 2 * n + 1 + j) < 3 * n + 2"
    using assms by (fastforce simp: master_ok_def split: master_pc.splits)
  then have "m_step s = T \<and> master_work n s = T * (3 * n + 2) \<or> m_step s < T \<and> master_work n s < T * (3 * n + 2)"
  proof cases
    case 2
    then have "Suc (m_step s) * (3 * n + 2) \<le> T * (3 * n + 2)" by (intro mult_le_mono1) simp
    with 2 show ?thesis by (simp add: master_work_def)
  qed (simp add: master_work_def)
  then show "master_work n s \<le> T * (3 * n + 2)" "master_work n s = T * (3 * n + 2) \<longleftrightarrow> m_step s = T" by auto
qed

lemma workers_work_bound:
  assumes "\<And>w. w \<in> set ws \<Longrightarrow> worker_work w \<le> 5 * T \<and> (worker_work w = 5 * T \<longleftrightarrow> w = (W_send, T))"
  shows "sum_list (map worker_work ws) \<le> length ws * (5 * T) \<and>
    (sum_list (map worker_work ws) = length ws * (5 * T) \<longleftrightarrow> list_all (\<lambda>w. w = (W_send, T)) ws)"
  using assms
proof (induction ws)
  case (Cons w ws)
  have "worker_work w \<le> 5 * T" "worker_work w = 5 * T \<longleftrightarrow> w = (W_send, T)" using Cons.prems [of w] by simp_all
  moreover have "sum_list (map worker_work ws) \<le> length ws * (5 * T)"
    "sum_list (map worker_work ws) = length ws * (5 * T) \<longleftrightarrow> list_all (\<lambda>w. w = (W_send, T)) ws"
    using Cons.IH [OF Cons.prems] by simp_all
  ultimately show ?case by (simp only: list.map sum_list.Cons length_Cons list.pred_inject mult_Suc) linarith
qed simp

definition event_bound :: "nat \<Rightarrow> nat \<Rightarrow> nat" where
  "event_bound n T = T * (8 * n + 2)"

lemma event_work_bound:
  assumes "event_inv n T s"
  shows "event_work s \<le> event_bound n T" "event_final T s \<longleftrightarrow> event_work s = event_bound n T"
proof -
  have l: "length (workers s) = n" using assms by (simp add: event_inv_def)
  have w: "worker_work w \<le> 5 * T \<and> (worker_work w = 5 * T \<longleftrightarrow> w = (W_send, T))" if "w \<in> set (workers s)" for w
  proof -
    obtain i where "i < n" "w = workers s ! i" using \<open>w \<in> _\<close> l by (metis in_set_conv_nth)
    then have "worker_inv T w (taken s i) (given s i) (events s ! i) (events s ! (i + n)) (m_pc s = M_reset i)"
      using assms by (simp add: event_inv_def worker_ok_def)
    from worker_work_bound [OF this] show ?thesis by blast
  qed
  have m: "master_ok n T s" using assms by (simp add: event_inv_def)
  have b: "event_bound n T = T * (3 * n + 2) + n * (5 * T)" by (simp add: event_bound_def algebra_simps)
  have ws: "sum_list (map worker_work (workers s)) \<le> n * (5 * T)"
    "sum_list (map worker_work (workers s)) = n * (5 * T) \<longleftrightarrow> list_all (\<lambda>w. w = (W_send, T)) (workers s)"
    using workers_work_bound [of "workers s", OF w] l by simp_all
  note bounds = master_work_bound [OF m] ws
  show "event_work s \<le> event_bound n T" unfolding b event_work_def l using bounds by linarith
  have "master_work n s + sum_list (map worker_work (workers s)) = event_bound n T \<longleftrightarrow>
    m_step s = T \<and> list_all (\<lambda>w. w = (W_send, T)) (workers s)"
    unfolding b using bounds by linarith
  then show "event_final T s \<longleftrightarrow> event_work s = event_bound n T" by (simp add: event_final_def event_work_def l)
qed

text \<open>Progress: a worker that has not signalled more arrivals than it has releases can move.\<close>

lemma worker_moves:
  assumes "i < n" "worker_inv T (workers s ! i) tk gv a (events s ! (i + n)) h" "arrivals (workers s ! i) \<le> gv"
    and "workers s ! i \<noteq> (W_send, T)"
  shows "\<exists>s'. event_step n T tgt s s'"
proof (cases "workers s ! i")
  case (Pair pc k)
  show ?thesis
  proof (cases pc)
    case W_send
    then have "k < T" using assms Pair by (auto simp: worker_simps)
    with send [OF assms(1)] Pair W_send show ?thesis by blast
  next
    case W_wait
    then have "events s ! (i + n)" using assms Pair by (auto simp: worker_simps)
    with wait_release [OF assms(1)] Pair W_wait show ?thesis by blast
  next
    case W_signal
    with signal_arrival [OF assms(1)] Pair show ?thesis by blast
  next
    case W_reset
    with reset_release [OF assms(1)] Pair show ?thesis by blast
  next
    case W_unpack
    with unpack [OF assms(1)] Pair show ?thesis by blast
  qed
qed

lemma event_progress:
  assumes inv: "event_inv n T s" and nf: "\<not> event_final T s"
  shows "\<exists>s'. event_step n T tgt s s'"
proof -
  have l: "length (workers s) = n" and m: "master_ok n T s" using inv by (simp_all add: event_inv_def)
  have w: "worker_inv T (workers s ! i) (taken s i) (given s i) (events s ! i) (events s ! (i + n)) (m_pc s = M_reset i)" if "i < n" for i
    using inv that by (simp add: event_inv_def worker_ok_def)
  show ?thesis
  proof (cases "m_pc s")
    case (M_reset j)
    then show ?thesis using reset_arrival by blast
  next
    case (M_release j)
    then consider "j = n" | "j < n" using m by (fastforce simp: master_ok_def)
    then show ?thesis using signal_release [OF M_release] all_released [of s n] M_release by cases blast+
  next
    case (M_wait j)
    then have j: "j \<le> n" "m_step s \<le> T" using m by (simp_all add: master_ok_def)
    consider "m_step s = T" | "m_step s < T" "j = n" | "m_step s < T" "j < n" using j by linarith
    then show ?thesis
    proof cases
      case 1
      then obtain i where i: "i < n" "workers s ! i \<noteq> (W_send, T)" using nf l by (auto simp: event_final_def list_all_length)
      have "arrivals (workers s ! i) \<le> given s i" using w [OF i(1)] 1 M_wait by (simp add: worker_inv_def given_def)
      then show ?thesis using worker_moves [OF i(1) w [OF i(1)] _ i(2)] by blast
    next
      case 2
      then show ?thesis using all_arrived M_wait by blast
    next
      case 3
      show ?thesis
      proof (cases "events s ! j")
        case True
        then show ?thesis using wait_arrival M_wait 3 by blast
      next
        case False
        then have "arrivals (workers s ! j) = m_step s" using w [OF 3(2)] M_wait by (auto simp: worker_inv_def taken_def)
        then have "arrivals (workers s ! j) \<le> given s j" "workers s ! j \<noteq> (W_send, T)"
          using 3 M_wait by (auto simp: given_def arrivals_def)
        then show ?thesis using worker_moves [OF 3(2) w [OF 3(2)]] by blast
      qed
    qed
  qed
qed

interpretation event_barrier: bounded_system "\<lambda>_. True" "\<lambda>(n, T, tgt). event_step n T tgt" "\<lambda>(n, T, tgt). event_init n"
  "\<lambda>(n, T, tgt). event_inv n T" event_work "\<lambda>(n, T, tgt). event_bound n T" "\<lambda>(n, T, tgt). event_final T"
proof (unfold_locales; clarify)
  fix n T :: nat and tgt :: "nat \<times> FacetTy \<Rightarrow> nat \<times> FacetTy" and s s'
  show "event_inv n T (event_init n)" "event_work (event_init n) = 0" by (rule event_init_inv event_init_work)+
  assume inv: "event_inv n T s"
  show "event_work s \<le> event_bound n T" "event_final T s \<longleftrightarrow> event_work s = event_bound n T"
    using event_work_bound [OF inv] by simp_all
  show "\<exists>s'. event_step n T tgt s s'" if "\<not> event_final T s" using event_progress [OF inv that] .
  show "event_inv n T s'" "event_work s' = Suc (event_work s)" if "event_step n T tgt s s'"
    using event_step_inv [OF inv that] event_step_work [OF inv that] .
qed

section \<open>The facets in the receive buffers\<close>

lemma set_facets: "set facets = UNIV"
  by (auto simp: facets_def) (metis FacetTy.exhaust)

lemma send_facets_apply: "send_facets tgt i k m q = (if \<exists>f. tgt (i, f) = q then k else m q)"
proof -
  have "fold (\<lambda>f m. m(tgt (i, f) := k)) fs m q = (if \<exists>f \<in> set fs. tgt (i, f) = q then k else m q)" for fs
    by (induction fs arbitrary: m) auto
  then show ?thesis by (simp add: send_facets_def set_facets)
qed

definition mail_ok :: "nat \<Rightarrow> (nat \<times> FacetTy \<Rightarrow> nat \<times> FacetTy) \<Rightarrow> event_sys \<Rightarrow> bool" where
  "mail_ok n tgt s \<longleftrightarrow> (\<forall>j < n. \<forall>f. inbox s (tgt (j, f)) = sent (workers s ! j))"

lemma mail_worker:
  assumes "mail_ok n tgt s" "i < n" "length (workers s) = n" "sent (pc, k) = sent (workers s ! i)"
    "inbox t = inbox s" "workers t = workers s"
  shows "mail_ok n tgt (set_worker i pc k t)"
  using assms by (auto simp: mail_ok_def set_worker_def nth_list_update)

lemma mail_step:
  assumes inj: "inj_on tgt ({..<n} \<times> UNIV)" and mail: "mail_ok n tgt s" and l: "length (workers s) = n"
    and step: "event_step n T tgt s s'"
  shows "mail_ok n tgt s'"
  using step
proof cases
  case (send i k)
  have "inbox s' (tgt (j, f)) = sent (workers s' ! j)" if j: "j < n" for j f
  proof (cases "j = i")
    case True
    then show ?thesis using send l by (auto simp: set_worker_def send_facets_apply sent_def)
  next
    case False
    have "tgt (i, g) \<noteq> tgt (j, f)" for g
      using inj_onD [OF inj, of "(i, g)" "(j, f)"] j send(2) False by auto
    then show ?thesis using False mail j send(1) by (simp add: set_worker_def send_facets_apply mail_ok_def)
  qed
  then show ?thesis by (simp add: mail_ok_def)
qed (simp_all add: mail_worker [OF mail] l sent_def, use mail in \<open>simp_all add: mail_ok_def\<close>)

lemma mail_run:
  assumes "inj_on tgt ({..<n} \<times> UNIV)" "(event_step n T tgt ^^ m) (event_init n) s"
  shows "mail_ok n tgt s \<and> event_inv n T s"
  using assms(2)
proof (induction m arbitrary: s)
  case 0
  then have "s = event_init n" by simp
  then show ?case using event_init_inv by (simp add: mail_ok_def) (simp add: event_init_def sent_def)
next
  case (Suc m)
  from Suc.prems obtain t where t: "(event_step n T tgt ^^ m) (event_init n) t" "event_step n T tgt t s" by (rule relpowp_Suc_E)
  have inv: "mail_ok n tgt t" "event_inv n T t" using Suc.IH [OF t(1)] by simp_all
  then have "length (workers t) = n" by (simp add: event_inv_def)
  from mail_step [OF assms(1) inv(1) this t(2)] event_step_inv [OF inv(2) t(2)] show ?case by simp
qed

section \<open>Executable runs\<close>

text \<open>The next call of a rank, or of the parent; \<open>None\<close> when it has to wait.\<close>

definition worker_next :: "nat \<Rightarrow> nat \<Rightarrow> (nat \<times> FacetTy \<Rightarrow> nat \<times> FacetTy) \<Rightarrow> nat \<Rightarrow> event_sys \<Rightarrow> event_sys option" where
  "worker_next n T tgt i s =
     (case workers s ! i of (pc, k) \<Rightarrow>
        (case pc of
           W_send \<Rightarrow> if k < T then Some (set_worker i W_signal k (s\<lparr>inbox := send_facets tgt i (Suc k) (inbox s)\<rparr>)) else None
         | W_signal \<Rightarrow> Some (set_worker i W_wait k (s\<lparr>events := (events s)[i := True]\<rparr>))
         | W_wait \<Rightarrow> if events s ! (i + n) then Some (set_worker i W_reset k s) else None
         | W_reset \<Rightarrow> Some (set_worker i W_unpack k (s\<lparr>events := (events s)[i + n := False]\<rparr>))
         | W_unpack \<Rightarrow> Some (set_worker i W_send (Suc k) s)))"

definition master_next :: "nat \<Rightarrow> nat \<Rightarrow> event_sys \<Rightarrow> event_sys option" where
  "master_next n T s =
     (case m_pc s of
        M_wait j \<Rightarrow> if j = n \<and> m_step s < T then Some (s\<lparr>m_pc := M_release 0\<rparr>)
                    else if j < n \<and> m_step s < T \<and> events s ! j then Some (s\<lparr>m_pc := M_reset j\<rparr>) else None
      | M_reset j \<Rightarrow> Some (s\<lparr>m_pc := M_wait (Suc j), events := (events s)[j := False]\<rparr>)
      | M_release j \<Rightarrow> if j = n then Some (s\<lparr>m_pc := M_wait 0, m_step := Suc (m_step s)\<rparr>)
                       else if j < n then Some (s\<lparr>m_pc := M_release (Suc j), events := (events s)[j + n := True]\<rparr>) else None)"

fun event_run :: "nat \<Rightarrow> nat \<Rightarrow> (nat \<times> FacetTy \<Rightarrow> nat \<times> FacetTy) \<Rightarrow> nat option list \<Rightarrow> event_sys \<Rightarrow> event_sys option" where
  "event_run n T tgt [] s = Some s"
| "event_run n T tgt (p # ps) s =
     (case (case p of Some i \<Rightarrow> if i < n then worker_next n T tgt i s else None | None \<Rightarrow> master_next n T s) of
        None \<Rightarrow> None | Some s' \<Rightarrow> event_run n T tgt ps s')"

lemma worker_next_step: "worker_next n T tgt i s = Some s' \<Longrightarrow> i < n \<Longrightarrow> event_step n T tgt s s'"
  by (auto simp: worker_next_def intro: event_step.intros split: prod.splits worker_pc.splits if_splits)

lemma master_next_step: "master_next n T s = Some s' \<Longrightarrow> event_step n T tgt s s'"
  by (auto simp: master_next_def intro: event_step.intros split: master_pc.splits if_splits)

lemma event_run_steps: "event_run n T tgt ps s = Some s' \<Longrightarrow> (event_step n T tgt ^^ length ps) s s'"
proof (induction ps arbitrary: s)
  case (Cons p ps)
  then obtain t where t: "event_step n T tgt s t" "event_run n T tgt ps t = Some s'"
    by (auto dest: worker_next_step master_next_step split: option.splits if_splits)
  from relpowp_Suc_I2 [OF t(1) Cons.IH [OF t(2)]] show ?case by simp
qed simp

text \<open>
  Two ranks that are neighbours of each other in all directions, and the run in which the second one leaves the barrier
  and sends its facets of the next step while the first one has not yet unpacked those of this step.
\<close>

definition two_ranks :: "nat \<times> FacetTy \<Rightarrow> nat \<times> FacetTy" where
  "two_ranks = (\<lambda>(r, f). (1 - r, reverseFacetUD f))"

definition overwriting_schedule :: "nat option list" where
  "overwriting_schedule = [Some 0, Some 1, Some 0, Some 1] @ replicate 7 None @ [Some 0, Some 0, Some 1, Some 1, Some 1, Some 1]"

lemma two_ranks_reaches: "(\<exists>f. two_ranks (i, f) = (r, g)) = (r = 1 - i)"
  by (auto simp: two_ranks_def intro: exI [of _ "reverseFacetUD g"])

lemma overwriting_run:
  "\<exists>s. event_run 2 2 two_ranks overwriting_schedule (event_init 2) = Some s \<and> workers s ! 0 = (W_unpack, 0) \<and>
     inbox s (0, XU) = 2"
  by (simp add: overwriting_schedule_def event_init_def worker_next_def master_next_def set_worker_def send_facets_apply
      two_ranks_reaches numeral_eq_Suc)

section \<open>Properties\<close>

text \<open>
  C27: the barrier of the heat transfer workload never deadlocks. However the parent and the \<open>n\<close> ranks are scheduled, a run of
  \<open>T\<close> time steps takes at most \<open>T * (8 * n + 2)\<close> steps, can be continued to its end from every state it reaches, is stuck only
  when it is over, and then the parent has left its loop and every rank has unpacked its last facets. Events are reused from
  one step to the next and reset by the process that waited for them.
\<close>

theorem heat3d_barrier_completes:
  assumes "(event_step n T tgt ^^ m) (event_init n) s"
  shows "m \<le> T * (8 * n + 2) \<and>
    (event_final T s \<longleftrightarrow> (\<nexists>s'. event_step n T tgt s s')) \<and>
    (\<exists>s'. (event_step n T tgt ^^ (T * (8 * n + 2) - m)) s s' \<and> event_final T s')"
proof -
  have run: "((case (n, T, tgt) of (n, T, tgt) \<Rightarrow> event_step n T tgt) ^^ m) (case (n, T, tgt) of (n, T, tgt) \<Rightarrow> event_init n) s"
    using assms by simp
  have inv: "event_inv n T s" using event_barrier.run_inv_work [OF TrueI run] by simp
  have "\<not> event_step n T tgt s s'" if "event_final T s" for s'
    using event_work_bound [OF inv] event_work_bound(1) [OF event_step_inv [OF inv]] event_step_work [OF inv] that by fastforce
  then show ?thesis
    using event_barrier.run_length [OF TrueI run] event_barrier.run_completes [OF TrueI run] event_progress [OF inv, of tgt]
    by (auto simp: event_bound_def)
qed

theorem heat3d_barrier_completes_witness:
  "\<exists>s. (event_step 2 2 two_ranks ^^ 36) (event_init 2) s \<and> event_final 2 s"
  using heat3d_barrier_completes [of 0 2 2 two_ranks "event_init 2"] by simp

text \<open>
  C28: what a rank finds when it unpacks its receive buffers. In every interleaving the facets of all its neighbours
  have arrived: when rank \<open>i\<close> unpacks after step \<open>k\<close>, the buffer that facet \<open>f\<close> of rank \<open>j\<close> is sent to holds the facet of
  this step or already the one of the next step, never an older one. The barrier gives no more: it does not keep a fast
  neighbour from sending the next facet before the rank has unpacked.
\<close>

theorem unpacked_facets_are_current_or_next:
  assumes "inj_on tgt ({..<n} \<times> UNIV)" "(event_step n T tgt ^^ m) (event_init n) s"
    and "i < n" "workers s ! i = (W_unpack, k)" "j < n" "tgt (j, f) = (i, g)"
  shows "inbox s (i, g) \<in> {Suc k, Suc (Suc k)}"
proof -
  have inv: "mail_ok n tgt s" "event_inv n T s" using mail_run [OF assms(1,2)] by simp_all
  have w: "worker_inv T (workers s ! x) (taken s x) (given s x) (events s ! x) (events s ! (x + n)) (m_pc s = M_reset x)" if "x < n" for x
    using inv(2) that by (simp add: event_inv_def worker_ok_def)
  have "given s j \<le> taken s i" "given s i \<le> taken s j" using assms(3,5) inv(2)
    by (auto simp: given_def taken_def event_inv_def master_ok_def split: master_pc.splits)
  moreover have "sent (workers s ! j) \<le> Suc (passed (workers s ! j))" "arrivals (workers s ! j) \<le> sent (workers s ! j)"
    by (auto simp: sent_def passed_def arrivals_def)
  moreover have "taken s i \<le> Suc k" "Suc k \<le> given s i" using w [OF assms(3)] assms(4) by (auto simp: worker_simps)
  moreover have "passed (workers s ! j) \<le> given s j" "taken s j \<le> arrivals (workers s ! j)"
    using w [OF assms(5)] by (simp_all add: worker_inv_def)
  ultimately have "Suc k \<le> sent (workers s ! j)" "sent (workers s ! j) \<le> Suc (Suc k)" by linarith+
  moreover have "inbox s (i, g) = sent (workers s ! j)" using inv(1) assms(5,6) by (metis mail_ok_def)
  ultimately show ?thesis by auto
qed

lemma inj_two_ranks: "inj_on two_ranks ({..<2} \<times> UNIV)"
proof (rule inj_onI)
  fix p q :: "nat \<times> FacetTy"
  assume pq: "p \<in> {..<2} \<times> UNIV" "q \<in> {..<2} \<times> UNIV" "two_ranks p = two_ranks q"
  then have "1 - fst p = 1 - fst q" "reverseFacetUD (snd p) = reverseFacetUD (snd q)" by (auto simp: two_ranks_def)
  moreover from this(2) have "snd p = snd q" by (metis reverseFacetUD_reverse)
  moreover have "fst p < 2" "fst q < 2" using pq by auto
  ultimately show "p = q" by (simp add: prod_eq_iff)
qed

theorem unpacked_facets_are_current_or_next_witness:
  "\<exists>s. event_run 2 2 two_ranks overwriting_schedule (event_init 2) = Some s \<and> inbox s (0, XU) = 2 \<and>
     inbox s (0, XU) \<in> {Suc 0, Suc (Suc 0)}"
proof -
  obtain s where s: "event_run 2 2 two_ranks overwriting_schedule (event_init 2) = Some s" "workers s ! 0 = (W_unpack, 0)"
    "inbox s (0, XU) = 2" using overwriting_run by blast
  have "two_ranks (1, XD) = (0, XU)" by (simp add: two_ranks_def)
  with unpacked_facets_are_current_or_next [OF inj_two_ranks event_run_steps [OF s(1)] _ s(2), of 1 XD XU] s show ?thesis by auto
qed

end
