(* ===== verification/Device_Contents.thy ===== *)
theory Device_Contents
  imports Memory_Helpers
begin

text \<open>
  Filling buffers of a device: \<open>framework/ocl/utility/buffer_contents_helper_ocl.cpp\<close> and
  \<open>framework/l0/utility/buffer_contents_helper_l0.cpp\<close>, over the host helper of theory Memory_Helpers.

  The code a call of the driver returns is an argument, zero for success. What the driver does is modelled as documented:
  a copy or a fill that succeeds changes the buffer, a fill of OpenCL refuses sizes that are not a multiple of its pattern, and
  a regular command list of Level Zero does its commands when it is executed. Staging allocations and command lists
  that have not been released are counted. \<open>None\<close> is a loop of the host helper that does not end.
\<close>

section \<open>OpenCL\<close>

datatype ocl_call =
    Enqueue_write_buffer | Enqueue_fill_buffer | Ocl_finish | Queue_device | Queue_context | Device_platform
  | Host_mem_alloc | Enqueue_memcpy | Enqueue_mem_fill | Ocl_mem_free

record 'g ocl_state =
  ocl_helper :: "'g BufferContentsHelper"
  ocl_buffer :: bytes
  ocl_staging :: nat

type_synonym 'g ocl_outcome = "(int \<times> 'g ocl_state) option result"

definition CL_INVALID_VALUE :: int where
  "CL_INVALID_VALUE = -30"

definition write_prefix :: "bytes \<Rightarrow> nat \<Rightarrow> bytes \<Rightarrow> bytes" where
  "write_prefix data sz buffer = take sz data @ drop sz buffer"

definition ocl_enqueueWrite :: "int \<Rightarrow> bytes \<Rightarrow> nat \<Rightarrow> 'g ocl_state \<Rightarrow> int \<times> 'g ocl_state" where
  "ocl_enqueueWrite ret data sz s = (ret, if ret = 0 then s\<lparr>ocl_buffer := write_prefix data sz (ocl_buffer s)\<rparr> else s)"

definition ocl_enqueueFill :: "int \<Rightarrow> bytes \<Rightarrow> nat \<Rightarrow> 'g ocl_state \<Rightarrow> int \<times> 'g ocl_state" where
  "ocl_enqueueFill ret pattern sz s =
     (if sz mod length pattern \<noteq> 0 then (CL_INVALID_VALUE, s)
      else ocl_enqueueWrite ret (concat (replicate (sz div length pattern) pattern)) sz s)"

text \<open>\<open>CL_SUCCESS_OR_RETURN\<close>: the rest of a function after a call that succeeded.\<close>

definition cl_success_or_return :: "int \<times> 's \<Rightarrow> ('s \<Rightarrow> (int \<times> 's) option result) \<Rightarrow> (int \<times> 's) option result" where
  "cl_success_or_return r k = (case r of (ret, s) \<Rightarrow> if ret \<noteq> 0 then Ok (Some (ret, s)) else k s)"

text \<open>The host helper applied to a fresh buffer of zeros.\<close>

definition with_random_bytes ::
  "('g \<Rightarrow> 64 word \<times> 'g) \<Rightarrow> 'g BufferContentsHelper \<Rightarrow> nat \<Rightarrow> ('g BufferContentsHelper \<Rightarrow> bytes \<Rightarrow> 'a option result) \<Rightarrow> 'a option result" where
  "with_random_bytes nxt h sz k =
     (case fillWithRandomBytes nxt h (replicate sz 0) sz of None \<Rightarrow> Ok None | Some (h, data) \<Rightarrow> k h data)"

definition OCL_fillBufferWithRandomBytes :: "('g \<Rightarrow> 64 word \<times> 'g) \<Rightarrow> (ocl_call \<Rightarrow> int) \<Rightarrow> nat \<Rightarrow> 'g ocl_state \<Rightarrow> 'g ocl_outcome" where
  "OCL_fillBufferWithRandomBytes nxt ans bufferSize s =
     with_random_bytes nxt (ocl_helper s) bufferSize (\<lambda>h cpuBuffer.
       cl_success_or_return (ocl_enqueueWrite (ans Enqueue_write_buffer) cpuBuffer bufferSize (s\<lparr>ocl_helper := h\<rparr>)) (\<lambda>s.
         Ok (Some (0, s))))"

definition OCL_fillBufferWithZeros :: "(ocl_call \<Rightarrow> int) \<Rightarrow> nat \<Rightarrow> 'g ocl_state \<Rightarrow> 'g ocl_outcome" where
  "OCL_fillBufferWithZeros ans bufferSize s =
     (let pattern = replicate 4 0 in
      cl_success_or_return (ocl_enqueueFill (ans Enqueue_fill_buffer) pattern bufferSize s) (\<lambda>s.
      cl_success_or_return (ans Ocl_finish, s) (\<lambda>s. Ok (Some (0, s)))))"

definition OCL_fillBufferWithIncreasingBytes :: "(ocl_call \<Rightarrow> int) \<Rightarrow> nat \<Rightarrow> 'g ocl_state \<Rightarrow> 'g ocl_outcome" where
  "OCL_fillBufferWithIncreasingBytes ans bufferSize s =
     (case fillWithIncreasingBytes (replicate bufferSize 0) bufferSize of None \<Rightarrow> Ok None
      | Some cpuBuffer \<Rightarrow>
          cl_success_or_return (ocl_enqueueWrite (ans Enqueue_write_buffer) cpuBuffer bufferSize s) (\<lambda>s. Ok (Some (0, s))))"

definition OCL_fillBuffer :: "('g \<Rightarrow> 64 word \<times> 'g) \<Rightarrow> (ocl_call \<Rightarrow> int) \<Rightarrow> nat \<Rightarrow> BufferContents \<Rightarrow> 'g ocl_state \<Rightarrow> 'g ocl_outcome" where
  "OCL_fillBuffer nxt ans bufferSize contents s =
     (case contents of
        BC_Zeros \<Rightarrow> OCL_fillBufferWithZeros ans bufferSize s
      | BC_Random \<Rightarrow> OCL_fillBufferWithRandomBytes nxt ans bufferSize s
      | BC_IncreasingBytes \<Rightarrow> OCL_fillBufferWithIncreasingBytes ans bufferSize s
      | BC_Unknown \<Rightarrow> FATAL_ERROR ''Unknown buffer contents'')"

text \<open>A copy that does not block has happened when the queue is finished; nothing looks at the buffer before.\<close>

definition OCL_fillUsmBufferWithRandomBytes :: "('g \<Rightarrow> 64 word \<times> 'g) \<Rightarrow> (ocl_call \<Rightarrow> int) \<Rightarrow> nat \<Rightarrow> 'g ocl_state \<Rightarrow> 'g ocl_outcome" where
  "OCL_fillUsmBufferWithRandomBytes nxt ans bufferSize s =
     cl_success_or_return (ans Queue_device, s) (\<lambda>s.
     cl_success_or_return (ans Queue_context, s) (\<lambda>s.
     cl_success_or_return (ans Device_platform, s) (\<lambda>s.
     cl_success_or_return (ans Host_mem_alloc, if ans Host_mem_alloc = 0 then s\<lparr>ocl_staging := ocl_staging s + 1\<rparr> else s) (\<lambda>s.
     with_random_bytes nxt (ocl_helper s) bufferSize (\<lambda>h stagingAlloc.
     cl_success_or_return (ocl_enqueueWrite (ans Enqueue_memcpy) stagingAlloc bufferSize (s\<lparr>ocl_helper := h\<rparr>)) (\<lambda>s.
     cl_success_or_return (ans Ocl_finish, s) (\<lambda>s.
     cl_success_or_return (ans Ocl_mem_free, if ans Ocl_mem_free = 0 then s\<lparr>ocl_staging := ocl_staging s - 1\<rparr> else s) (\<lambda>s.
       Ok (Some (0, s))))))))))"

definition OCL_fillUsmBufferWithZeros :: "(ocl_call \<Rightarrow> int) \<Rightarrow> nat \<Rightarrow> 'g ocl_state \<Rightarrow> 'g ocl_outcome" where
  "OCL_fillUsmBufferWithZeros ans bufferSize s =
     (let pattern = replicate 4 0 in
      cl_success_or_return (ans Queue_device, s) (\<lambda>s.
      cl_success_or_return (ans Device_platform, s) (\<lambda>s.
      cl_success_or_return (ocl_enqueueFill (ans Enqueue_mem_fill) pattern bufferSize s) (\<lambda>s.
      cl_success_or_return (ans Ocl_finish, s) (\<lambda>s. Ok (Some (0, s)))))))"

definition OCL_fillUsmBuffer :: "('g \<Rightarrow> 64 word \<times> 'g) \<Rightarrow> (ocl_call \<Rightarrow> int) \<Rightarrow> nat \<Rightarrow> BufferContents \<Rightarrow> 'g ocl_state \<Rightarrow> 'g ocl_outcome" where
  "OCL_fillUsmBuffer nxt ans bufferSize contents s =
     (case contents of
        BC_Zeros \<Rightarrow> OCL_fillUsmBufferWithZeros ans bufferSize s
      | BC_Random \<Rightarrow> OCL_fillUsmBufferWithRandomBytes nxt ans bufferSize s
      | _ \<Rightarrow> FATAL_ERROR ''Unknown buffer contents'')"

definition OCL_fillUsmBufferOrHostPtr ::
  "('g \<Rightarrow> 64 word \<times> 'g) \<Rightarrow> (ocl_call \<Rightarrow> int) \<Rightarrow> nat \<Rightarrow> UsmMemoryPlacement \<Rightarrow> BufferContents \<Rightarrow> 'g ocl_state \<Rightarrow> 'g ocl_outcome" where
  "OCL_fillUsmBufferOrHostPtr nxt ans ptrSize placement contents s =
     (if placement \<in> {UMP_Device, UMP_Host, UMP_Shared} then OCL_fillUsmBuffer nxt ans ptrSize contents s
      else if placement \<in> {UMP_NonUsm, UMP_NonUsmMapped, UMP_NonUsm2MBAligned} then
        bindR (fill nxt (ocl_helper s) (ocl_buffer s) ptrSize contents) (\<lambda>r.
          Ok (map_option (\<lambda>(h, buffer). (0, s\<lparr>ocl_helper := h, ocl_buffer := buffer\<rparr>)) r))
      else FATAL_ERROR ''Unknown usm memory placement'')"

section \<open>Level Zero\<close>

datatype l0_call =
    Create_immediate | Create_list | Append_fill | Append_copy | Alloc_host | Close_list | Execute_lists
  | Queue_synchronize | Destroy_list | Free_memory

text \<open>The commands a list has recorded: what is written, and its length.\<close>

record 'g l0_state =
  l0_helper :: "'g BufferContentsHelper"
  l0_buffer :: bytes
  l0_recorded :: "(bytes \<times> nat) list"
  l0_lists :: nat
  l0_staging :: nat

type_synonym 'g l0_outcome = "(int \<times> 'g l0_state) option result"

definition ZE_RESULT_ERROR_INVALID_NULL_POINTER :: int where
  "ZE_RESULT_ERROR_INVALID_NULL_POINTER = 0x78000007"

definition l0_execute :: "bytes \<times> nat \<Rightarrow> 'g l0_state \<Rightarrow> 'g l0_state" where
  "l0_execute c s = s\<lparr>l0_buffer := write_prefix (fst c) (snd c) (l0_buffer s)\<rparr>"

definition l0_append :: "bool \<Rightarrow> int \<Rightarrow> bytes \<times> nat \<Rightarrow> 'g l0_state \<Rightarrow> int \<times> 'g l0_state" where
  "l0_append useImmediate ret c s =
     (ret, if ret \<noteq> 0 then s else if useImmediate then l0_execute c s else s\<lparr>l0_recorded := l0_recorded s @ [c]\<rparr>)"

text \<open>The result has the staging allocation, which is null unless it was made.\<close>

definition L0_fillBufferWithRandomBytes ::
  "('g \<Rightarrow> 64 word \<times> 'g) \<Rightarrow> (l0_call \<Rightarrow> int) \<Rightarrow> bool \<Rightarrow> nat \<Rightarrow> 'g l0_state \<Rightarrow> (int \<times> bool \<times> 'g l0_state) option result" where
  "L0_fillBufferWithRandomBytes nxt ans useImmediate bufferSize s =
     (if ans Alloc_host \<noteq> 0 then Ok (Some (ans Alloc_host, False, s))
      else with_random_bytes nxt (l0_helper s) bufferSize (\<lambda>h staging.
             case l0_append useImmediate (ans Append_copy) (staging, bufferSize) (s\<lparr>l0_helper := h, l0_staging := l0_staging s + 1\<rparr>) of
               (ret, s) \<Rightarrow> Ok (Some (ret, True, s))))"

definition L0_fillBufferWithZeros :: "(l0_call \<Rightarrow> int) \<Rightarrow> bool \<Rightarrow> nat \<Rightarrow> 'g l0_state \<Rightarrow> int \<times> 'g l0_state" where
  "L0_fillBufferWithZeros ans useImmediate bufferSize s =
     (let pattern = [0] in l0_append useImmediate (ans Append_fill) (concat (replicate bufferSize pattern), bufferSize) s)"

definition l0_free :: "int \<Rightarrow> bool \<Rightarrow> 'g l0_state \<Rightarrow> int \<times> 'g l0_state" where
  "l0_free ret allocated s =
     (if \<not> allocated then (ZE_RESULT_ERROR_INVALID_NULL_POINTER, s)
      else (ret, if ret = 0 then s\<lparr>l0_staging := l0_staging s - 1\<rparr> else s))"

definition L0_finish_list :: "(l0_call \<Rightarrow> int) \<Rightarrow> bool \<Rightarrow> 'g l0_state \<Rightarrow> ('g l0_state \<Rightarrow> 'g l0_outcome) \<Rightarrow> 'g l0_outcome" where
  "L0_finish_list ans useImmediate s k =
     (if useImmediate then k s
      else cl_success_or_return (ans Close_list, s) (\<lambda>s.
           cl_success_or_return (ans Execute_lists, if ans Execute_lists = 0 then fold l0_execute (l0_recorded s) s else s) (\<lambda>s.
           cl_success_or_return (ans Queue_synchronize, s) k)))"

definition L0_release :: "(l0_call \<Rightarrow> int) \<Rightarrow> BufferContents \<Rightarrow> int \<Rightarrow> bool \<Rightarrow> 'g l0_state \<Rightarrow> 'g l0_outcome" where
  "L0_release ans contents retVal allocated s =
     cl_success_or_return (ans Destroy_list, if ans Destroy_list = 0 then s\<lparr>l0_lists := l0_lists s - 1\<rparr> else s) (\<lambda>s.
       if contents = BC_Random then cl_success_or_return (l0_free (ans Free_memory) allocated s) (\<lambda>s. Ok (Some (retVal, s)))
       else Ok (Some (retVal, s)))"

definition L0_fillBuffer ::
  "('g \<Rightarrow> 64 word \<times> 'g) \<Rightarrow> (l0_call \<Rightarrow> int) \<Rightarrow> bool \<Rightarrow> nat \<Rightarrow> BufferContents \<Rightarrow> 'g l0_state \<Rightarrow> 'g l0_outcome" where
  "L0_fillBuffer nxt ans useImmediate bufferSize contents s =
     (let ret = (if useImmediate then ans Create_immediate else ans Create_list) in
      cl_success_or_return (ret, if ret = 0 then s\<lparr>l0_lists := l0_lists s + 1, l0_recorded := []\<rparr> else s) (\<lambda>s.
        case contents of
          BC_Zeros \<Rightarrow>
            (case L0_fillBufferWithZeros ans useImmediate bufferSize s of
               (retVal, s) \<Rightarrow> L0_finish_list ans useImmediate s (L0_release ans contents retVal False))
        | BC_Random \<Rightarrow>
            bindR (L0_fillBufferWithRandomBytes nxt ans useImmediate bufferSize s) (\<lambda>r.
              case r of None \<Rightarrow> Ok None
              | Some (retVal, allocated, s) \<Rightarrow> L0_finish_list ans useImmediate s (L0_release ans contents retVal allocated))
        | _ \<Rightarrow> FATAL_ERROR ''Unknown buffer contents''))"

section \<open>The contents a successful call leaves\<close>

lemma cl_success_or_return_ok:
  "cl_success_or_return r k = Ok (Some (0, s')) \<longleftrightarrow> fst r = 0 \<and> k (snd r) = Ok (Some (0, s'))"
  by (cases r) (auto simp: cl_success_or_return_def)

lemma write_prefix_prefix [simp]: "write_prefix (take n data) n buffer = write_prefix data n buffer"
  by (simp add: write_prefix_def)

lemma write_prefix_exact: "length data = n \<Longrightarrow> write_prefix data n buffer = data @ drop n buffer"
  by (simp add: write_prefix_def)

lemma concat_pattern: "concat (replicate n (replicate k x)) = replicate (n * k) x"
  by (induction n) (simp_all add: replicate_add)

lemma ocl_enqueueFill_zeros:
  "ocl_enqueueFill ret (replicate 4 0) sz s = (r, s') \<Longrightarrow> r = 0 \<Longrightarrow>
     s' = s\<lparr>ocl_buffer := fillWithZeros (ocl_buffer s) sz\<rparr> \<and> 4 dvd sz"
  by (auto simp: ocl_enqueueFill_def ocl_enqueueWrite_def concat_pattern CL_INVALID_VALUE_def fillWithZeros_def
      write_prefix_def dvd_eq_mod_eq_0 dvd_div_mult_self split: if_splits)

lemma fillWithRandomBytes_shift:
  "fillWithRandomBytes nxt h a sz = Some (h', data) \<Longrightarrow> length a = sz \<Longrightarrow>
     fillWithRandomBytes nxt h buffer sz = Some (h', write_prefix data sz buffer)"
  by (auto simp: fillWithRandomBytes_def Let_def write_prefix_def)

lemma with_random_bytes_ok:
  assumes "with_random_bytes nxt h sz k = Ok (Some x)"
  obtains h' data where "k h' data = Ok (Some x)" "\<And>buffer. fillWithRandomBytes nxt h buffer sz = Some (h', write_prefix data sz buffer)"
proof -
  from assms obtain h' data where d: "fillWithRandomBytes nxt h (replicate sz 0) sz = Some (h', data)" "k h' data = Ok (Some x)"
    by (auto simp: with_random_bytes_def split: option.splits)
  from that [OF d(2) fillWithRandomBytes_shift [OF d(1)]] show thesis by simp
qed

lemma increasing_bytes_shift:
  assumes "fillWithIncreasingBytes (replicate sz 0) sz = Some data" "sz \<le> length buffer"
  shows "fillWithIncreasingBytes buffer sz = Some (write_prefix data sz buffer)"
  using assms by (auto simp: fillWithIncreasingBytes_eq write_prefix_def split: if_splits)

lemma OCL_fillBuffer_contents:
  assumes "OCL_fillBuffer nxt ans sz contents s = Ok (Some (0, s'))" "sz \<le> length (ocl_buffer s)"
  shows "fill nxt (ocl_helper s) (ocl_buffer s) sz contents = Ok (Some (ocl_helper s', ocl_buffer s')) \<and> ocl_staging s' = ocl_staging s"
proof (cases contents)
  case BC_Zeros
  then show ?thesis using assms(1)
    by (auto simp: OCL_fillBuffer_def OCL_fillBufferWithZeros_def Let_def cl_success_or_return_ok fill_def
        dest!: ocl_enqueueFill_zeros [OF prod.collapse [symmetric]])
next
  case BC_Random
  then have "OCL_fillBufferWithRandomBytes nxt ans sz s = Ok (Some (0, s'))" using assms(1) by (simp add: OCL_fillBuffer_def)
  then show ?thesis unfolding OCL_fillBufferWithRandomBytes_def BC_Random
    by (elim with_random_bytes_ok) (auto simp: cl_success_or_return_ok ocl_enqueueWrite_def fill_def)
next
  case BC_IncreasingBytes
  then show ?thesis using assms
    by (auto simp: OCL_fillBuffer_def OCL_fillBufferWithIncreasingBytes_def cl_success_or_return_ok ocl_enqueueWrite_def fill_def
        dest: increasing_bytes_shift split: option.splits)
qed (use assms in \<open>simp add: OCL_fillBuffer_def\<close>)

lemma OCL_fillUsmBuffer_contents:
  assumes "OCL_fillUsmBuffer nxt ans sz contents s = Ok (Some (0, s'))"
  shows "fill nxt (ocl_helper s) (ocl_buffer s) sz contents = Ok (Some (ocl_helper s', ocl_buffer s')) \<and> ocl_staging s' = ocl_staging s"
proof (cases contents)
  case BC_Zeros
  then show ?thesis using assms
    by (auto simp: OCL_fillUsmBuffer_def OCL_fillUsmBufferWithZeros_def Let_def cl_success_or_return_ok fill_def
        dest!: ocl_enqueueFill_zeros [OF prod.collapse [symmetric]])
next
  case BC_Random
  then have "OCL_fillUsmBufferWithRandomBytes nxt ans sz s = Ok (Some (0, s'))" using assms by (simp add: OCL_fillUsmBuffer_def)
  then show ?thesis unfolding OCL_fillUsmBufferWithRandomBytes_def BC_Random cl_success_or_return_ok fst_conv snd_conv
    by (elim conjE with_random_bytes_ok) (auto simp: cl_success_or_return_ok ocl_enqueueWrite_def fill_def)
qed (use assms in \<open>simp_all add: OCL_fillUsmBuffer_def\<close>)

lemma OCL_fillUsmBufferOrHostPtr_contents:
  assumes "OCL_fillUsmBufferOrHostPtr nxt ans sz placement contents s = Ok (Some (0, s'))"
  shows "fill nxt (ocl_helper s) (ocl_buffer s) sz contents = Ok (Some (ocl_helper s', ocl_buffer s')) \<and> ocl_staging s' = ocl_staging s"
proof (cases "placement \<in> {UMP_Device, UMP_Host, UMP_Shared}")
  case True
  then have "OCL_fillUsmBuffer nxt ans sz contents s = Ok (Some (0, s'))" using assms by (simp add: OCL_fillUsmBufferOrHostPtr_def)
  then show ?thesis by (rule OCL_fillUsmBuffer_contents)
next
  case False
  with assms show ?thesis by (auto simp: OCL_fillUsmBufferOrHostPtr_def bindR_eq_Inr split: if_splits)
qed

text \<open>A list: whether its commands are done at once or when it is executed, the buffer ends up with the same contents.\<close>

lemma L0_finish_list_ok:
  assumes "L0_finish_list ans useImmediate s k = Ok (Some (0, s'))"
  shows "k (if useImmediate then s else fold l0_execute (l0_recorded s) s) = Ok (Some (0, s'))"
  using assms by (auto simp: L0_finish_list_def cl_success_or_return_ok split: if_splits)

lemma L0_release_ok:
  assumes "L0_release ans contents retVal allocated s = Ok (Some (0, s'))" "contents = BC_Random \<longrightarrow> allocated"
  shows "retVal = 0 \<and> s' = s\<lparr>l0_lists := l0_lists s - 1, l0_staging := l0_staging s - (if contents = BC_Random then 1 else 0)\<rparr>"
  using assms by (auto simp: L0_release_def cl_success_or_return_ok l0_free_def split: if_splits)

lemma L0_fillBuffer_contents:
  assumes "L0_fillBuffer nxt ans useImmediate sz contents s = Ok (Some (0, s'))"
  shows "fill nxt (l0_helper s) (l0_buffer s) sz contents = Ok (Some (l0_helper s', l0_buffer s')) \<and>
    l0_staging s' = l0_staging s \<and> l0_lists s' = l0_lists s"
proof (cases contents)
  case BC_Zeros
  have z: "concat (replicate sz [0]) = replicate sz (0 :: 8 word)" using concat_pattern [of sz 1 0] by simp
  from assms BC_Zeros show ?thesis
    by (auto simp: L0_fillBuffer_def L0_fillBufferWithZeros_def Let_def cl_success_or_return_ok l0_append_def z fill_def
        write_prefix_def fillWithZeros_def l0_execute_def split: if_splits dest!: L0_finish_list_ok L0_release_ok)
next
  case BC_Random
  from assms BC_Random have "ans Alloc_host = 0"
    by (auto simp: L0_fillBuffer_def L0_fillBufferWithRandomBytes_def Let_def cl_success_or_return_ok L0_release_def l0_free_def
        ZE_RESULT_ERROR_INVALID_NULL_POINTER_def split: if_splits dest!: L0_finish_list_ok)
  with assms BC_Random show ?thesis
    by (auto simp: L0_fillBuffer_def L0_fillBufferWithRandomBytes_def Let_def cl_success_or_return_ok bindR_eq_Inr fill_def
        l0_append_def l0_execute_def split: if_splits option.splits elim!: with_random_bytes_ok dest!: L0_finish_list_ok L0_release_ok)
qed (use assms in \<open>auto simp: L0_fillBuffer_def Let_def cl_success_or_return_def split: if_splits\<close>)

section \<open>Errors\<close>

text \<open>Zeros are written with a pattern of four bytes by OpenCL, and of one byte by Level Zero.\<close>

lemma OCL_zeros_need_multiple:
  assumes "\<not> 4 dvd sz"
  shows "OCL_fillBuffer nxt ans sz BC_Zeros s = Ok (Some (CL_INVALID_VALUE, s))"
  using assms
  by (simp add: OCL_fillBuffer_def OCL_fillBufferWithZeros_def Let_def ocl_enqueueFill_def cl_success_or_return_def CL_INVALID_VALUE_def
      dvd_eq_mod_eq_0)

text \<open>The code of a staging allocation that fails is replaced by the one for releasing the null pointer.\<close>

lemma L0_failed_allocation_code:
  assumes "ans Alloc_host \<noteq> 0" "\<And>c. c \<noteq> Alloc_host \<Longrightarrow> ans c = 0"
  shows "\<exists>s'. L0_fillBuffer nxt ans useImmediate sz BC_Random s = Ok (Some (ZE_RESULT_ERROR_INVALID_NULL_POINTER, s'))"
  using assms
  by (simp add: L0_fillBuffer_def L0_fillBufferWithRandomBytes_def L0_finish_list_def L0_release_def l0_free_def Let_def
      cl_success_or_return_def ZE_RESULT_ERROR_INVALID_NULL_POINTER_def)

text \<open>After a failing execution neither the list nor the staging allocation is released.\<close>

lemma L0_failed_execution_leaks:
  assumes "ans Execute_lists \<noteq> 0" "\<And>c. c \<noteq> Execute_lists \<Longrightarrow> ans c = 0" "fillWithRandomBytes nxt (l0_helper s) (replicate sz 0) sz = Some (h, data)"
  shows "\<exists>s'. L0_fillBuffer nxt ans False sz BC_Random s = Ok (Some (ans Execute_lists, s')) \<and>
    l0_lists s' = l0_lists s + 1 \<and> l0_staging s' = l0_staging s + 1"
  using assms
  by (simp add: L0_fillBuffer_def L0_fillBufferWithRandomBytes_def L0_finish_list_def with_random_bytes_def l0_append_def Let_def
      cl_success_or_return_def)

section \<open>Properties\<close>

text \<open>
  C40: All ways to fill a buffer agree. When OpenCL, for any placement of the memory, and Level Zero, with an immediate or a
  regular command list, fill buffers of the same contents from the same state of the random cache and both report success, both
  buffers hold what the helper writes into host memory, the cache has the same state, and no command list
  and no staging allocation is left over. In a buffer object of OpenCL the same holds.
\<close>

theorem device_fills_agree:
  assumes "OCL_fillUsmBufferOrHostPtr nxt ans sz placement contents s = Ok (Some (0, s1))"
    and "L0_fillBuffer nxt ans2 useImmediate sz contents t = Ok (Some (0, t1))"
    and "OCL_fillBuffer nxt ans3 sz contents s = Ok (Some (0, s2))"
    and "l0_helper t = ocl_helper s" "l0_buffer t = ocl_buffer s" "sz \<le> length (ocl_buffer s)"
  shows "fill nxt (ocl_helper s) (ocl_buffer s) sz contents = Ok (Some (ocl_helper s1, ocl_buffer s1)) \<and>
    l0_helper t1 = ocl_helper s1 \<and> l0_buffer t1 = ocl_buffer s1 \<and> ocl_helper s2 = ocl_helper s1 \<and> ocl_buffer s2 = ocl_buffer s1 \<and>
    ocl_staging s1 = ocl_staging s \<and> ocl_staging s2 = ocl_staging s \<and> l0_staging t1 = l0_staging t \<and> l0_lists t1 = l0_lists t"
  using OCL_fillUsmBufferOrHostPtr_contents [OF assms(1)] L0_fillBuffer_contents [OF assms(2)] OCL_fillBuffer_contents [OF assms(3,6)]
    assms(4,5) by simp

definition example_ocl :: "nat ocl_state" where
  "example_ocl = \<lparr>ocl_helper = \<lparr>generator = 5, cachedRandomData = [9, 8, 7, 6, 5, 4, 3, 2]\<rparr>, ocl_buffer = [1, 1, 1, 1, 1], ocl_staging = 0\<rparr>"

definition example_l0 :: "nat l0_state" where
  "example_l0 = \<lparr>l0_helper = ocl_helper example_ocl, l0_buffer = [1, 1, 1, 1, 1], l0_recorded = [], l0_lists = 0, l0_staging = 0\<rparr>"

lemma example_random: "with_random_bytes (Pair 0) (ocl_helper example_ocl) 3 k = k (ocl_helper example_ocl) [9, 8, 7]"
  by (simp add: with_random_bytes_def fillWithRandomBytes_def example_ocl_def)

theorem device_fills_agree_witness:
  "\<exists>t1. L0_fillBuffer (Pair 0) (\<lambda>_. 0) False 3 BC_Random example_l0 = Ok (Some (0, t1)) \<and> l0_buffer t1 = [9, 8, 7, 1, 1]"
proof -
  let ?nxt = "Pair 0 :: nat \<Rightarrow> 64 word \<times> nat"
  obtain s1 where 1: "OCL_fillUsmBufferOrHostPtr ?nxt (\<lambda>_. 0) 3 UMP_Shared BC_Random example_ocl = Ok (Some (0, s1))"
    "ocl_buffer s1 = [9, 8, 7, 1, 1]"
    by (simp add: example_random OCL_fillUsmBufferOrHostPtr_def OCL_fillUsmBuffer_def OCL_fillUsmBufferWithRandomBytes_def
      cl_success_or_return_def ocl_enqueueWrite_def write_prefix_def) (simp add: example_ocl_def)
  obtain t1 where 2: "L0_fillBuffer ?nxt (\<lambda>_. 0) False 3 BC_Random example_l0 = Ok (Some (0, t1))"
    by (simp add: example_random L0_fillBuffer_def L0_fillBufferWithRandomBytes_def L0_finish_list_def L0_release_def l0_free_def
      cl_success_or_return_def example_l0_def l0_append_def)
  obtain s2 where 3: "OCL_fillBuffer ?nxt (\<lambda>_. 0) 3 BC_Random example_ocl = Ok (Some (0, s2))"
    by (simp add: example_random OCL_fillBuffer_def OCL_fillBufferWithRandomBytes_def cl_success_or_return_def ocl_enqueueWrite_def)
  from device_fills_agree [OF 1(1) 2 3] have "l0_buffer t1 = ocl_buffer s1" by (simp add: example_l0_def) (simp add: example_ocl_def)
  with 1(2) 2 show ?thesis by auto
qed

end
