(* ===== verification/Error_Codes.thy ===== *)
theory Error_Codes
  imports Cpp_Prelude
begin

text \<open>
  The names of return codes of the drivers: \<open>framework/ocl/utility/error_codes.cpp\<close> and \<open>framework/l0/utility/error_codes.cpp\<close>. The
  values of the codes are those of the headers of the drivers.
\<close>

definition ocl_error_names :: "(int \<times> string) list" where
  "ocl_error_names =
    [(0, ''CL_SUCCESS''),
     (-1, ''CL_DEVICE_NOT_FOUND''),
     (-2, ''CL_DEVICE_NOT_AVAILABLE''),
     (-3, ''CL_COMPILER_NOT_AVAILABLE''),
     (-4, ''CL_MEM_OBJECT_ALLOCATION_FAILURE''),
     (-5, ''CL_OUT_OF_RESOURCES''),
     (-6, ''CL_OUT_OF_HOST_MEMORY''),
     (-7, ''CL_PROFILING_INFO_NOT_AVAILABLE''),
     (-8, ''CL_MEM_COPY_OVERLAP''),
     (-9, ''CL_IMAGE_FORMAT_MISMATCH''),
     (-10, ''CL_IMAGE_FORMAT_NOT_SUPPORTED''),
     (-11, ''CL_BUILD_PROGRAM_FAILURE''),
     (-12, ''CL_MAP_FAILURE''),
     (-13, ''CL_MISALIGNED_SUB_BUFFER_OFFSET''),
     (-14, ''CL_EXEC_STATUS_ERROR_FOR_EVENTS_IN_WAIT_LIST''),
     (-15, ''CL_COMPILE_PROGRAM_FAILURE''),
     (-16, ''CL_LINKER_NOT_AVAILABLE''),
     (-17, ''CL_LINK_PROGRAM_FAILURE''),
     (-18, ''CL_DEVICE_PARTITION_FAILED''),
     (-19, ''CL_KERNEL_ARG_INFO_NOT_AVAILABLE''),
     (-30, ''CL_INVALID_VALUE''),
     (-31, ''CL_INVALID_DEVICE_TYPE''),
     (-33, ''CL_INVALID_DEVICE''),
     (-34, ''CL_INVALID_CONTEXT''),
     (-35, ''CL_INVALID_QUEUE_PROPERTIES''),
     (-36, ''CL_INVALID_COMMAND_QUEUE''),
     (-37, ''CL_INVALID_HOST_PTR''),
     (-38, ''CL_INVALID_MEM_OBJECT''),
     (-39, ''CL_INVALID_IMAGE_FORMAT_DESCRIPTOR''),
     (-40, ''CL_INVALID_IMAGE_SIZE''),
     (-41, ''CL_INVALID_SAMPLER''),
     (-42, ''CL_INVALID_BINARY''),
     (-43, ''CL_INVALID_BUILD_OPTIONS''),
     (-44, ''CL_INVALID_PROGRAM''),
     (-45, ''CL_INVALID_PROGRAM_EXECUTABLE''),
     (-46, ''CL_INVALID_KERNEL_NAME''),
     (-47, ''CL_INVALID_KERNEL_DEFINITION''),
     (-48, ''CL_INVALID_KERNEL''),
     (-49, ''CL_INVALID_ARG_INDEX''),
     (-50, ''CL_INVALID_ARG_VALUE''),
     (-51, ''CL_INVALID_ARG_SIZE''),
     (-52, ''CL_INVALID_KERNEL_ARGS''),
     (-53, ''CL_INVALID_WORK_DIMENSION''),
     (-54, ''CL_INVALID_WORK_GROUP_SIZE''),
     (-55, ''CL_INVALID_WORK_ITEM_SIZE''),
     (-56, ''CL_INVALID_GLOBAL_OFFSET''),
     (-57, ''CL_INVALID_EVENT_WAIT_LIST''),
     (-58, ''CL_INVALID_EVENT''),
     (-59, ''CL_INVALID_OPERATION''),
     (-60, ''CL_INVALID_GL_OBJECT''),
     (-61, ''CL_INVALID_BUFFER_SIZE''),
     (-62, ''CL_INVALID_MIP_LEVEL''),
     (-63, ''CL_INVALID_GLOBAL_WORK_SIZE''),
     (-64, ''CL_INVALID_PROPERTY''),
     (-65, ''CL_INVALID_IMAGE_DESCRIPTOR''),
     (-66, ''CL_INVALID_COMPILER_OPTIONS''),
     (-67, ''CL_INVALID_LINKER_OPTIONS''),
     (-68, ''CL_INVALID_DEVICE_PARTITION_COUNT''),
     (-69, ''CL_INVALID_PIPE_SIZE''),
     (-70, ''CL_INVALID_DEVICE_QUEUE''),
     (-71, ''CL_INVALID_SPEC_ID''),
     (-72, ''CL_MAX_SIZE_RESTRICTION_EXCEEDED''),
     (-1001, ''CL_PLATFORM_NOT_FOUND_KHR'')]"

definition l0_error_names :: "(int \<times> string) list" where
  "l0_error_names =
    [(0, ''ZE_RESULT_SUCCESS''),
     (1, ''ZE_RESULT_NOT_READY''),
     (2013265921, ''ZE_RESULT_ERROR_UNINITIALIZED''),
     (1879048193, ''ZE_RESULT_ERROR_DEVICE_LOST''),
     (2013265924, ''ZE_RESULT_ERROR_INVALID_ARGUMENT''),
     (1879048194, ''ZE_RESULT_ERROR_OUT_OF_HOST_MEMORY''),
     (1879048195, ''ZE_RESULT_ERROR_OUT_OF_DEVICE_MEMORY''),
     (1879048196, ''ZE_RESULT_ERROR_MODULE_BUILD_FAILURE''),
     (1879048197, ''ZE_RESULT_ERROR_MODULE_LINK_FAILURE''),
     (1879113728, ''ZE_RESULT_ERROR_INSUFFICIENT_PERMISSIONS''),
     (1879113729, ''ZE_RESULT_ERROR_NOT_AVAILABLE''),
     (1879179264, ''ZE_RESULT_ERROR_DEPENDENCY_UNAVAILABLE''),
     (2013265922, ''ZE_RESULT_ERROR_UNSUPPORTED_VERSION''),
     (2013265923, ''ZE_RESULT_ERROR_UNSUPPORTED_FEATURE''),
     (2013265925, ''ZE_RESULT_ERROR_INVALID_NULL_HANDLE''),
     (2013265926, ''ZE_RESULT_ERROR_HANDLE_OBJECT_IN_USE''),
     (2013265927, ''ZE_RESULT_ERROR_INVALID_NULL_POINTER''),
     (2013265928, ''ZE_RESULT_ERROR_INVALID_SIZE''),
     (2013265929, ''ZE_RESULT_ERROR_UNSUPPORTED_SIZE''),
     (2013265930, ''ZE_RESULT_ERROR_UNSUPPORTED_ALIGNMENT''),
     (2013265931, ''ZE_RESULT_ERROR_INVALID_SYNCHRONIZATION_OBJECT''),
     (2013265932, ''ZE_RESULT_ERROR_INVALID_ENUMERATION''),
     (2013265933, ''ZE_RESULT_ERROR_UNSUPPORTED_ENUMERATION''),
     (2013265934, ''ZE_RESULT_ERROR_UNSUPPORTED_IMAGE_FORMAT''),
     (2013265935, ''ZE_RESULT_ERROR_INVALID_NATIVE_BINARY''),
     (2013265936, ''ZE_RESULT_ERROR_INVALID_GLOBAL_NAME''),
     (2013265937, ''ZE_RESULT_ERROR_INVALID_KERNEL_NAME''),
     (2013265938, ''ZE_RESULT_ERROR_INVALID_FUNCTION_NAME''),
     (2013265939, ''ZE_RESULT_ERROR_INVALID_GROUP_SIZE_DIMENSION''),
     (2013265940, ''ZE_RESULT_ERROR_INVALID_GLOBAL_WIDTH_DIMENSION''),
     (2013265941, ''ZE_RESULT_ERROR_INVALID_KERNEL_ARGUMENT_INDEX''),
     (2013265942, ''ZE_RESULT_ERROR_INVALID_KERNEL_ARGUMENT_SIZE''),
     (2013265943, ''ZE_RESULT_ERROR_INVALID_KERNEL_ATTRIBUTE_VALUE''),
     (2013265944, ''ZE_RESULT_ERROR_INVALID_MODULE_UNLINKED''),
     (2013265945, ''ZE_RESULT_ERROR_INVALID_COMMAND_LIST_TYPE''),
     (2013265946, ''ZE_RESULT_ERROR_OVERLAPPING_REGIONS''),
     (2147483646, ''ZE_RESULT_ERROR_UNKNOWN'')]"

definition oclErrorToString :: "int \<Rightarrow> string" where
  "oclErrorToString retVal = (case map_of ocl_error_names retVal of Some s \<Rightarrow> s | None \<Rightarrow> ''Unknown OpenCL error'')"

definition l0ErrorToString :: "int \<Rightarrow> string" where
  "l0ErrorToString retVal = (case map_of l0_error_names retVal of Some s \<Rightarrow> s | None \<Rightarrow> ''Unknown LevelZero error'')"

text \<open>No code has two cases, so the order of the cases does not matter, and a name determines its code.\<close>

lemma error_codes_distinct: "distinct (map fst ocl_error_names)" "distinct (map fst l0_error_names)"
  by code_simp+

lemma error_names_distinct:
  "distinct (''Unknown OpenCL error'' # map snd ocl_error_names)" "distinct (''Unknown LevelZero error'' # map snd l0_error_names)"
  by code_simp+

lemma table_inject:
  assumes "distinct (unknown # map snd table)" "map_of table v = Some s"
    "(case map_of table w of Some t \<Rightarrow> t | None \<Rightarrow> unknown) = s"
  shows "w = v"
proof -
  have v: "(v, s) \<in> set table" using assms(2) by (rule map_of_SomeD)
  then have "s \<noteq> unknown" using assms(1) by (auto simp: image_iff)
  then have "(w, s) \<in> set table" using assms(3) map_of_SomeD [of table w] by (auto split: option.splits)
  moreover have "inj_on snd (set table)" using assms(1) by (simp add: distinct_map)
  ultimately show ?thesis using v inj_onD [of snd "set table" "(v, s)" "(w, s)"] by auto
qed

text \<open>A printed name of a known code is not printed for any other code.\<close>

lemma error_name_determines_code:
  "v \<in> fst ` set ocl_error_names \<Longrightarrow> oclErrorToString w = oclErrorToString v \<Longrightarrow> w = v"
  "v \<in> fst ` set l0_error_names \<Longrightarrow> l0ErrorToString w = l0ErrorToString v \<Longrightarrow> w = v"
  using table_inject [OF error_names_distinct(1), of v _ w] table_inject [OF error_names_distinct(2), of v _ w]
  by (auto simp: oclErrorToString_def l0ErrorToString_def map_of_eq_None_iff [symmetric] simp del: not_None_eq split: option.splits
      dest: weak_map_of_SomeI)

text \<open>\<open>CL_INVALID_PLATFORM\<close> is the one code of OpenCL 1.0 that has no case.\<close>

lemma invalid_platform_unknown: "oclErrorToString (-32) = ''Unknown OpenCL error''"
  "map oclErrorToString [-31, -33] = [''CL_INVALID_DEVICE_TYPE'', ''CL_INVALID_DEVICE'']"
  by (simp_all add: oclErrorToString_def ocl_error_names_def)

end
