(* ===== verification/Show_Devices.thy ===== *)
theory Show_Devices
  imports Engine_Queues Intel_Product Statistics Ipc Error_Codes
begin

unbundle bit_operations_syntax

text \<open>
  The tools that print the devices of the drivers, \<open>tools/show_devices_l0/main.cpp\<close> and \<open>tools/show_devices_ocl/main.cpp\<close>.

  What the drivers report is a tree of devices, a parameter; a query of Level Zero that fails is \<open>None\<close>. A function of the first
  tool gives the text it prints and whether it returned zero. In the second tool the queries of a device succeed; an
  exception loses the text printed so far.
\<close>

section \<open>Numbers in base 16\<close>

fun hex_text :: "nat \<Rightarrow> string" where
  "hex_text n = (if n < 16 then [hex_digit_lower n] else hex_text (n div 16) @ [hex_digit_lower (n mod 16)])"

declare hex_text.simps [simp del]

text \<open>\<open>std::setw\<close> with the fill character zero.\<close>

definition padded_hex :: "nat \<Rightarrow> nat \<Rightarrow> string" where
  "padded_hex width n = replicate (width - length (hex_text n)) CHR ''0'' @ hex_text n"

definition lower_digit_value :: "char \<Rightarrow> nat" where
  "lower_digit_value c = (if of_char c < (58 :: nat) then of_char c - 48 else of_char c - 87)"

definition lower_hex_value :: "string \<Rightarrow> nat" where
  "lower_hex_value s = foldl (\<lambda>a c. 16 * a + lower_digit_value c) 0 s"

lemma lower_digit_value [simp]: "d < 16 \<Longrightarrow> lower_digit_value (hex_digit_lower d) = d"
  by (simp add: lower_digit_value_def hex_digit_lower_def)

lemma lower_hex_value_text [simp]: "lower_hex_value (hex_text n) = n"
proof (induction n rule: hex_text.induct)
  case (1 n)
  then show ?case by (subst hex_text.simps) (simp add: lower_hex_value_def)
qed

lemma lower_hex_value_zeros: "lower_hex_value (replicate k CHR ''0'' @ s) = lower_hex_value s"
proof -
  have "foldl (\<lambda>a c. 16 * a + lower_digit_value c) 0 (replicate k CHR ''0'') = 0"
    by (induction k) (simp_all add: lower_digit_value_def)
  then show ?thesis by (simp add: lower_hex_value_def)
qed

lemma padded_hex_inject: "padded_hex k m = padded_hex k n \<longleftrightarrow> m = n"
  using lower_hex_value_zeros by (metis lower_hex_value_text padded_hex_def)

lemma hex_text_inject: "hex_text m = hex_text n \<longleftrightarrow> m = n"
  by (metis lower_hex_value_text)

lemma hex_text_no_colon: "CHR '':'' \<notin> set (hex_text n)"
proof (induction n rule: hex_text.induct)
  case (1 n)
  have "CHR '':'' \<noteq> hex_digit_lower d" if "d < 16" for d
  proof
    assume "CHR '':'' = hex_digit_lower d"
    then have "of_char CHR '':'' = (of_char (hex_digit_lower d) :: nat)" by simp
    with that show False by (simp add: hex_digit_lower_def split: if_splits)
  qed
  with 1 show ?case by (subst hex_text.simps) (auto split: if_splits)
qed

lemma padded_hex_no_colon: "CHR '':'' \<notin> set (padded_hex k n)"
  using hex_text_no_colon by (simp add: padded_hex_def)

section \<open>Level Zero: one device\<close>

type_synonym printed = "string \<times> bool"

text \<open>The rest of a function after a call that is checked: nothing more is printed when it failed.\<close>

definition then_print :: "printed \<Rightarrow> printed \<Rightarrow> printed" where
  "then_print p q = (if snd p then (fst p @ fst q, snd q) else p)"

definition tab :: string where
  "tab = [CHR 0x09]"

definition tabs :: "nat \<Rightarrow> string" where
  "tabs n = replicate n CHR 0x09"

definition queue_group_line :: "nat \<Rightarrow> nat \<Rightarrow> ze_command_queue_group_properties \<Rightarrow> string" where
  "queue_group_line numberOfTabs i g =
     (if flags g AND FLAG_COMPUTE \<noteq> 0 then
        tabs numberOfTabs @ tab @ '' Group '' @ to_string (int i) @ '' (compute): '' @ to_string (int (numQueues g)) @ '' queues'' @ [newline]
      else if flags g AND FLAG_COMPUTE = 0 \<and> flags g AND FLAG_COPY \<noteq> 0 then
        tabs numberOfTabs @ tab @ '' Group '' @ to_string (int i) @ '' (copy): '' @ to_string (int (numQueues g)) @ '' queues'' @ [newline]
      else [])"

definition printAvailableEngines :: "ze_command_queue_group_properties list \<Rightarrow> nat \<Rightarrow> printed" where
  "printAvailableEngines queueProperties numberOfTabs =
     (if queueProperties = [] then ([], False)
      else (tabs numberOfTabs @ tab @ to_string (int (length queueProperties)) @ '' queue groups found'' @ [newline] @
            concat (map (\<lambda>i. queue_group_line numberOfTabs i (queueProperties ! i)) [0..<length queueProperties]), True))"

definition parseCaps :: "32 word \<Rightarrow> string" where
  "parseCaps caps =
     (if caps AND 1 \<noteq> 0 then ''ZE_MEMORY_ACCESS_CAP_FLAG_RW '' else []) @
     (if caps AND 2 \<noteq> 0 then ''ZE_MEMORY_ACCESS_CAP_FLAG_ATOMIC '' else []) @
     (if caps AND 4 \<noteq> 0 then ''ZE_MEMORY_ACCESS_CAP_FLAG_CONCURRENT '' else []) @
     (if caps AND 8 \<noteq> 0 then ''ZE_MEMORY_ACCESS_CAP_FLAG_CONCURRENT_ATOMIC '' else []) @
     (if caps = 0 then ''UNSUPPORTED '' else [])"

record ze_device_properties =
  zd_name :: string
  zd_numSlices :: nat
  zd_numSubslicesPerSlice :: nat
  zd_numEUsPerSubslice :: nat
  zd_numThreadsPerEU :: nat
  zd_deviceId :: nat
  zd_subdeviceId :: nat
  zd_uuid :: "nat list"

record memory_access_properties =
  hostCaps :: "32 word"
  deviceCaps :: "32 word"
  sharedSingleDeviceCaps :: "32 word"
  sharedCrossDeviceCaps :: "32 word"
  sharedSystemCaps :: "32 word"

text \<open>From the device identifier on numbers are printed in base 16; the flags of the stream are restored at the end.\<close>

definition printDeviceProperties :: "ze_device_properties option \<Rightarrow> memory_access_properties option \<Rightarrow> nat \<Rightarrow> printed" where
  "printDeviceProperties deviceProperties memoryAccessCapabilities numberOfTabs =
     (case deviceProperties of None \<Rightarrow> ([], False)
      | Some d \<Rightarrow>
          let t = tabs numberOfTabs;
              head = t @ (if numberOfTabs = 0 then ''Device properties'' else ''Subdevice properties'') @ [newline] @
                t @ tab @ ''name:        '' @ zd_name d @ [newline] @
                t @ tab @ ''slices: '' @ to_string (int (zd_numSlices d)) @ [newline] @
                t @ tab @ ''subslices per slice: '' @ to_string (int (zd_numSubslicesPerSlice d)) @ [newline] @
                t @ tab @ ''EUs per slice: '' @ to_string (int (zd_numEUsPerSubslice d)) @ [newline] @
                t @ tab @ ''threads per EU: '' @ to_string (int (zd_numThreadsPerEU d)) @ [newline] @
                t @ tab @ ''deviceId:    0x'' @ padded_hex 4 (zd_deviceId d) @ [newline] @
                t @ tab @ ''subdeviceId: '' @ hex_text (zd_subdeviceId d) @ [newline] @
                t @ tab @ ''UUID: '' @ concat (map (\<lambda>b. hex_text b @ '' '') (zd_uuid d)) @ [newline]
          in case memoryAccessCapabilities of None \<Rightarrow> (head, False)
             | Some m \<Rightarrow>
                 (head @ t @ ''Memory access capabilities: '' @ [newline] @
                  t @ tab @ ''host: '' @ parseCaps (hostCaps m) @ [newline] @
                  t @ tab @ ''device: '' @ parseCaps (deviceCaps m) @ [newline] @
                  t @ tab @ ''shared single device: '' @ parseCaps (sharedSingleDeviceCaps m) @ [newline] @
                  t @ tab @ ''shared cross device: '' @ parseCaps (sharedCrossDeviceCaps m) @ [newline] @
                  t @ tab @ ''shared system caps: '' @ parseCaps (sharedSystemCaps m) @ [newline], True))"

section \<open>Level Zero: the tree of devices\<close>

text \<open>The address has the domain, the bus, the device and the function.\<close>

type_synonym pci_address = "nat \<times> nat \<times> nat \<times> nat"

datatype ze_device =
  Ze_Device (zn_properties: "ze_device_properties option") (zn_access: "memory_access_properties option")
    (zn_groups: "ze_command_queue_group_properties list") (zn_pci: "pci_address option") (zn_subDevices: "ze_device list option")

text \<open>A device by itself, before its sub-devices.\<close>

definition print_device :: "ze_device \<Rightarrow> nat \<Rightarrow> printed" where
  "print_device dev numberOfTabs =
     then_print (printDeviceProperties (zn_properties dev) (zn_access dev) numberOfTabs)
       (then_print (printAvailableEngines (zn_groups dev) numberOfTabs) ([], zn_subDevices dev \<noteq> None))"

fun printPropertiesForAllSubDevices :: "ze_device \<Rightarrow> nat \<Rightarrow> printed"
  and print_sub_devices :: "ze_device list \<Rightarrow> nat \<Rightarrow> printed" where
  "printPropertiesForAllSubDevices (Ze_Device p a g pci None) numberOfTabs = print_device (Ze_Device p a g pci None) numberOfTabs"
| "printPropertiesForAllSubDevices (Ze_Device p a g pci (Some subs)) numberOfTabs =
     then_print (print_device (Ze_Device p a g pci (Some subs)) numberOfTabs) (print_sub_devices subs (numberOfTabs + 1))"
| "print_sub_devices [] numberOfTabs = ([], True)"
| "print_sub_devices (d # ds) numberOfTabs =
     then_print (printPropertiesForAllSubDevices d numberOfTabs) (print_sub_devices ds numberOfTabs)"

definition pciBdf :: "pci_address \<Rightarrow> string" where
  "pciBdf a = (case a of (domain, bus, dev, func) \<Rightarrow>
     padded_hex 4 domain @ '':'' @ padded_hex 2 bus @ '':'' @ padded_hex 2 dev @ '':'' @ hex_text func)"

text \<open>\<open>properties\<close> has the address and the index of each device; the map is sorted by its keys.\<close>

fun pci_loop :: "(pci_address \<times> nat) list \<Rightarrow> (pci_address \<times> nat) list \<Rightarrow> (string \<times> nat list) list \<Rightarrow> (string \<times> nat list) list" where
  "pci_loop properties [] pciIdentifiers = pciIdentifiers"
| "pci_loop properties ((a, i) # rest) pciIdentifiers =
     (if map_of pciIdentifiers (pciBdf a) \<noteq> None then pci_loop properties rest pciIdentifiers
      else let deviceIndexes = map snd (filter (\<lambda>property. a = fst property) properties)
           in pci_loop properties rest (map_set pciIdentifiers (pciBdf a) deviceIndexes))"

definition pci_groups :: "pci_address list \<Rightarrow> (string \<times> nat list) list" where
  "pci_groups addresses = (let properties = zip addresses [0..<length addresses] in pci_loop properties properties [])"

definition printDevicesWithTheSameBdfAddress :: "ze_device list \<Rightarrow> printed" where
  "printDevicesWithTheSameBdfAddress devs =
     (if devs = [] then ([], True)
      else if list_ex (\<lambda>d. zn_pci d = None) devs then ([], False)
      else (concat (map (\<lambda>(pci, indexes).
              ''PCI: '' @ pci @ [newline] @ tab @ ''|'' @ [newline] @ tab @ ''|'' @ [newline] @
              concat (map (\<lambda>i. tab @ ''___________ Device '' @ to_string (int i) @ [newline]) indexes))
              (pci_groups (map (the \<circ> zn_pci) devs))), True))"

text \<open>\<open>main\<close>: the drivers, each with its devices unless they cannot be queried; the exit code is that of the process.\<close>

fun show_drivers :: "ze_device list option list \<Rightarrow> printed" where
  "show_drivers [] = ([], True)"
| "show_drivers (driver # drivers) =
     (if driver = None \<or> driver = Some [] then then_print (''No devices found'' @ [newline], True) (show_drivers drivers)
      else then_print (print_sub_devices (the driver) 0)
             (then_print (printDevicesWithTheSameBdfAddress (the driver)) (show_drivers drivers)))"

definition show_devices_l0_main :: "bool \<Rightarrow> ze_device list option list option \<Rightarrow> string \<times> int" where
  "show_devices_l0_main initialized drivers =
     (if \<not> initialized \<or> drivers = None \<or> drivers = Some [] then ([], -1)
      else case show_drivers (the drivers) of (s, success) \<Rightarrow> (s, if success then 0 else -1))"

section \<open>Lemmas\<close>

lemma then_print_simps [simp]: "then_print p ([], True) = p" "then_print ([], True) q = q"
  by (cases p; simp add: then_print_def)+

lemma then_print_assoc: "then_print (then_print p q) r = then_print p (then_print q r)"
  by (simp add: then_print_def)

text \<open>The devices of a tree with their depths, a device before its sub-devices.\<close>

fun device_tree :: "ze_device \<Rightarrow> nat \<Rightarrow> (ze_device \<times> nat) list"
  and device_trees :: "ze_device list \<Rightarrow> nat \<Rightarrow> (ze_device \<times> nat) list" where
  "device_tree (Ze_Device p a g pci None) k = [(Ze_Device p a g pci None, k)]"
| "device_tree (Ze_Device p a g pci (Some subs)) k = (Ze_Device p a g pci (Some subs), k) # device_trees subs (k + 1)"
| "device_trees [] k = []"
| "device_trees (d # ds) k = device_tree d k @ device_trees ds k"

definition print_devices :: "(ze_device \<times> nat) list \<Rightarrow> printed" where
  "print_devices ds = foldr (\<lambda>(d, k). then_print (print_device d k)) ds ([], True)"

lemma print_devices_append: "print_devices (xs @ ys) = then_print (print_devices xs) (print_devices ys)"
  by (induction xs) (simp_all add: print_devices_def then_print_assoc case_prod_beta)

lemma print_tree:
  "printPropertiesForAllSubDevices d k = print_devices (device_tree d k)"
  "print_sub_devices ds k = print_devices (device_trees ds k)"
  by (induction d k and ds k rule: printPropertiesForAllSubDevices_print_sub_devices.induct)
    (simp_all add: print_devices_append, simp_all add: print_devices_def)

text \<open>The text of addresses is one-to-one.\<close>

lemma split_colon: "CHR '':'' \<notin> set a \<Longrightarrow> CHR '':'' \<notin> set b \<Longrightarrow> a @ '':'' @ s = b @ '':'' @ t \<longleftrightarrow> a = b \<and> s = t"
proof (induction a arbitrary: b)
  case Nil
  then show ?case by (cases b) auto
next
  case (Cons c a)
  then show ?case by (cases b) auto
qed

lemma pciBdf_inject: "pciBdf a = pciBdf b \<longleftrightarrow> a = b"
  by (cases a; cases b) (simp add: pciBdf_def split_colon padded_hex_no_colon padded_hex_inject hex_text_inject del: append.simps)

definition same_address :: "pci_address list \<Rightarrow> pci_address \<Rightarrow> nat list" where
  "same_address addresses a = filter (\<lambda>i. addresses ! i = a) [0..<length addresses]"

lemma indexes_of_address: "map snd (filter (\<lambda>property. a = fst property) (zip xs [0..<length xs])) = same_address xs a"
proof -
  have z: "zip xs [0..<length xs] = map (\<lambda>i. (xs ! i, i)) [0..<length xs]"
    by (rule nth_equalityI) simp_all
  show ?thesis unfolding z same_address_def by (simp only: filter_map map_map comp_def fst_conv snd_conv eq_commute [of a] list.map_ident)
qed

lemma set_keys_map_set: "fst ` set (map_set m k v) = insert k (fst ` set m)"
  by (induction m k v rule: map_set.induct) auto

lemma pci_loop_groups:
  assumes "sorted_wrt (<) (map fst m)" "properties = zip xs [0..<length xs]" "\<And>a. a \<in> seen \<Longrightarrow> map_of m (pciBdf a) = Some (same_address xs a)"
    and "fst ` set m = pciBdf ` seen"
  shows "sorted_wrt (<) (map fst (pci_loop properties rest m)) \<and>
    fst ` set (pci_loop properties rest m) = pciBdf ` (seen \<union> fst ` set rest) \<and>
    (\<forall>a \<in> seen \<union> fst ` set rest. map_of (pci_loop properties rest m) (pciBdf a) = Some (same_address xs a))"
  using assms
proof (induction properties rest m arbitrary: seen rule: pci_loop.induct)
  case (1 properties m)
  then show ?case by simp
next
  case (2 properties a i rest m)
  show ?case
  proof (cases "map_of m (pciBdf a) = None")
    case False
    then have "pciBdf a \<in> pciBdf ` seen" using "2.prems"(4) by (metis map_of_eq_None_iff)
    then have "a \<in> seen" by (auto simp: pciBdf_inject)
    have "sorted_wrt (<) (map fst (pci_loop properties rest m)) \<and>
      fst ` set (pci_loop properties rest m) = pciBdf ` (seen \<union> fst ` set rest) \<and>
      (\<forall>b \<in> seen \<union> fst ` set rest. map_of (pci_loop properties rest m) (pciBdf b) = Some (same_address xs b))"
      by (rule "2.IH"(1) [OF False "2.prems"])
    moreover have "seen \<union> fst ` set ((a, i) # rest) = seen \<union> fst ` set rest" using \<open>a \<in> seen\<close> by auto
    moreover have "pci_loop properties ((a, i) # rest) m = pci_loop properties rest m" using False by simp
    ultimately show ?thesis by presburger
  next
    case True
    let ?m = "map_set m (pciBdf a) (map snd (filter (\<lambda>property. a = fst property) properties))"
    have "sorted_wrt (<) (map fst ?m)" by (rule map_set_sorted [OF "2.prems"(1)])
    moreover have "map_of ?m (pciBdf b) = Some (same_address xs b)" if "b \<in> insert a seen" for b
    proof (cases "b = a")
      case True
      then show ?thesis unfolding "2.prems"(2) indexes_of_address by (simp add: map_of_map_set [OF "2.prems"(1)])
    next
      case False
      then have "map_of m (pciBdf b) = Some (same_address xs b)" using that "2.prems"(3) by blast
      with False show ?thesis by (simp add: map_of_map_set [OF "2.prems"(1)] pciBdf_inject)
    qed
    moreover have "fst ` set ?m = pciBdf ` insert a seen" using "2.prems"(4) by (simp add: set_keys_map_set)
    ultimately show ?thesis using "2.IH"(2) [of _ "insert a seen"] True "2.prems"(2) by (simp add: Let_def)
  qed
qed

section \<open>OpenCL\<close>

text \<open>What OpenCL reports of a device; the affinity domains are those it can be partitioned by.\<close>

datatype ocl_device =
  Ocl_Device (on_name: string) (on_product: IntelProduct) (on_queueFamilies: bool) (on_default: "nat \<times> nat")
    (on_families: "cl_queue_family_properties_intel list") (on_domain: "64 word") (on_subDevices: "ocl_device list")

record ocl_platform =
  op_name :: string
  op_devices :: "int + ocl_device list"

definition CL_SUCCESS_OR_ERROR :: "int + 'a \<Rightarrow> string \<Rightarrow> 'a result" where
  "CL_SUCCESS_OR_ERROR r message =
     (case r of Inr x \<Rightarrow> Ok x
      | Inl retVal \<Rightarrow> FATAL_ERROR (message @ '' (Fatal OpenCL error occurred, retVal='' @ to_string retVal @ '')''))"

definition getPlatforms :: "int + ocl_platform list \<Rightarrow> string \<times> ocl_platform list" where
  "getPlatforms answer =
     (case answer of
        Inl retVal \<Rightarrow> (''OpenCL platforms: NONE (clGetPlatformIDs returned '' @ oclErrorToString retVal @ '')'' @ [newline], [])
      | Inr platforms \<Rightarrow> ([], platforms))"

definition show_getDevices :: "ocl_platform \<Rightarrow> ocl_device list result" where
  "show_getDevices platform =
     bindR (CL_SUCCESS_OR_ERROR (op_devices platform) ''Querying devices'') (\<lambda>devs. if length devs = 0 then Ok [] else Ok devs)"

definition show_createSubDevices :: "ocl_device \<Rightarrow> ocl_device list" where
  "show_createSubDevices rootDevice =
     (let domain = on_domain rootDevice in
      if domain AND 32 = 0 then [] else if domain AND 1 = 0 then [] else on_subDevices rootDevice)"

definition showPlatform :: "nat \<Rightarrow> ocl_platform \<Rightarrow> nat \<Rightarrow> string" where
  "showPlatform indentLevel platform platformIndex =
     tabs indentLevel @ ''Platform '' @ to_string (int platformIndex) @ '': '' @ op_name platform @ [newline]"

definition showDevice :: "nat \<Rightarrow> ocl_device \<Rightarrow> string \<Rightarrow> nat \<Rightarrow> string" where
  "showDevice indentLevel dev deviceLabel deviceIndex =
     (let indent1 = tabs (indentLevel + 1); indent2 = tabs (indentLevel + 2);
          families = on_families dev; default = fst (on_default dev)
      in tabs indentLevel @ deviceLabel @ '' '' @ to_string (int deviceIndex) @ '': '' @ on_name dev @
         (if on_product dev \<noteq> IP_Unknown then '' ('' @ IntelProduct_to_string (on_product dev) @ '')'' else []) @ [newline] @
         (if \<not> on_queueFamilies dev then indent1 @ ''Extension cl_intel_command_queue_families is NOT SUPPORTED''
          else indent1 @ ''defaultFamilyIndex='' @ to_string (int default) @
               '' defaultQueueIndex='' @ to_string (int (snd (on_default dev))) @ [newline] @
               indent1 @ ''Queue families:'' @ [newline] @
               concat (map (\<lambda>i. indent2 @ to_string (int (cl_count (families ! i))) @ '' '' @ cl_name (families ! i) @
                 (if i = default then '' (default)'' else []) @ [newline]) [0..<length families])))"

definition deviceNames :: "string list" where
  "deviceNames = [''RootDevice'', ''SubDevice'', ''SubSubDevice'']"

lemma size_show_createSubDevices: "size_list size (show_createSubDevices d) < size d"
  by (cases d) (auto simp: show_createSubDevices_def Let_def)

lemma twice_size_show_createSubDevices: "Suc (2 * size_list size (show_createSubDevices d)) < 2 * size d"
  using size_show_createSubDevices [of d] by linarith

text \<open>The sub-devices of a device are numbered from zero.\<close>

function showDeviceAndItsSubDevices :: "nat \<Rightarrow> nat \<Rightarrow> ocl_device \<Rightarrow> nat \<Rightarrow> string result"
  and show_sub_devices :: "nat \<Rightarrow> nat \<Rightarrow> ocl_device list \<Rightarrow> nat \<Rightarrow> string result" where
  "showDeviceAndItsSubDevices indentLevel deviceLevel d deviceIndex =
     (if deviceLevel \<ge> length deviceNames then Inl (Undefined_behaviour ''array index'')
      else bindR (show_sub_devices (indentLevel + 1) (deviceLevel + 1) (show_createSubDevices d) 0) (\<lambda>s.
             Ok (showDevice indentLevel d (deviceNames ! deviceLevel) deviceIndex @ s)))"
| "show_sub_devices indentLevel deviceLevel [] i = Ok []"
| "show_sub_devices indentLevel deviceLevel (d # ds) i =
     bindR (showDeviceAndItsSubDevices indentLevel deviceLevel d i) (\<lambda>s.
     bindR (show_sub_devices indentLevel deviceLevel ds (i + 1)) (\<lambda>s'. Ok (s @ s')))"
  by pat_completeness auto
termination
  by (relation "measure (\<lambda>x. case x of Inl (_, _, d, _) \<Rightarrow> 2 * size d | Inr (_, _, ds, _) \<Rightarrow> 2 * size_list size ds + 1)")
    (use twice_size_show_createSubDevices in \<open>auto simp: not_le\<close>)

fun show_platforms :: "ocl_platform list \<Rightarrow> nat \<Rightarrow> string result" where
  "show_platforms [] platformIndex = Ok []"
| "show_platforms (platform # platforms) platformIndex =
     bindR (show_getDevices platform) (\<lambda>devs.
     bindR (show_sub_devices 1 0 devs 0) (\<lambda>s.
     bindR (show_platforms platforms (platformIndex + 1)) (\<lambda>s'.
       Ok (showPlatform 0 platform platformIndex @ s @ s'))))"

definition show_devices_ocl_main :: "int + ocl_platform list \<Rightarrow> string result" where
  "show_devices_ocl_main answer =
     (case getPlatforms answer of (s, platforms) \<Rightarrow> bindR (show_platforms platforms 0) (\<lambda>s'. Ok (s @ s')))"

text \<open>The levels of the devices that are shown.\<close>

function shown_depth :: "ocl_device \<Rightarrow> nat" and shown_depths :: "ocl_device list \<Rightarrow> nat" where
  "shown_depth d = Suc (shown_depths (show_createSubDevices d))"
| "shown_depths [] = 0"
| "shown_depths (d # ds) = max (shown_depth d) (shown_depths ds)"
  by pat_completeness auto
termination
  by (relation "measure (\<lambda>x. case x of Inl d \<Rightarrow> 2 * size d | Inr ds \<Rightarrow> 2 * size_list size ds + 1)")
    (use twice_size_show_createSubDevices in \<open>auto simp: not_le\<close>)

declare showDeviceAndItsSubDevices.simps [simp del] shown_depth.simps [simp del]

text \<open>There are labels for three levels: a deeper tree of devices makes the tool read behind the end of the array.\<close>

lemma shown_levels:
  "(k + shown_depth d \<le> 3 \<longrightarrow> is_ok (showDeviceAndItsSubDevices l k d i)) \<and>
     (3 < k + shown_depth d \<longrightarrow> showDeviceAndItsSubDevices l k d i = Inl (Undefined_behaviour ''array index''))"
  "(ds = [] \<or> k + shown_depths ds \<le> 3 \<longrightarrow> is_ok (show_sub_devices l k ds i)) \<and>
     (ds \<noteq> [] \<and> 3 < k + shown_depths ds \<longrightarrow> show_sub_devices l k ds i = Inl (Undefined_behaviour ''array index''))"
proof (induction l k d i and l k ds i rule: showDeviceAndItsSubDevices_show_sub_devices.induct)
  case (1 l k d i)
  show ?case
  proof (cases "3 \<le> k")
    case True
    then show ?thesis by (simp add: showDeviceAndItsSubDevices.simps shown_depth.simps deviceNames_def)
  next
    case False
    with 1 have "(show_createSubDevices d = [] \<or> k + 1 + shown_depths (show_createSubDevices d) \<le> 3 \<longrightarrow>
        is_ok (show_sub_devices (l + 1) (k + 1) (show_createSubDevices d) 0)) \<and>
      (show_createSubDevices d \<noteq> [] \<and> 3 < k + 1 + shown_depths (show_createSubDevices d) \<longrightarrow>
        show_sub_devices (l + 1) (k + 1) (show_createSubDevices d) 0 = Inl (Undefined_behaviour ''array index''))"
      by (simp add: deviceNames_def)
    with False show ?thesis
      by (cases "show_createSubDevices d = []")
        (auto simp: showDeviceAndItsSubDevices.simps [of l] shown_depth.simps [of d] deviceNames_def is_ok_iff)
  qed
next
  case (3 l k d ds i)
  have "k + shown_depths (d # ds) \<le> 3 \<longleftrightarrow> k + shown_depth d \<le> 3 \<and> (ds = [] \<or> k + shown_depths ds \<le> 3)"
    by (cases ds) auto
  with 3 show ?case by (cases ds) (auto simp: is_ok_iff not_le [symmetric])
qed simp

text \<open>A platform without GPU devices stops the tool: the query of its devices fails with \<open>CL_DEVICE_NOT_FOUND\<close>.\<close>

lemma platform_without_gpu_stops:
  assumes "op_devices p = Inl (-1)"
  shows "show_platforms (p # ps) i = FATAL_ERROR ''Querying devices (Fatal OpenCL error occurred, retVal=-1)''"
proof -
  have "to_string (-1) = ''-1''" by code_simp
  with assms show ?thesis by (simp add: show_getDevices_def CL_SUCCESS_OR_ERROR_def)
qed

section \<open>The groups\<close>

lemma pci_groups_facts:
  shows sorted_pci_groups: "sorted_wrt (<) (map fst (pci_groups addresses))"
    and keys_pci_groups: "fst ` set (pci_groups addresses) = pciBdf ` set addresses"
    and map_of_pci_groups: "a \<in> set addresses \<Longrightarrow> map_of (pci_groups addresses) (pciBdf a) = Some (same_address addresses a)"
proof -
  let ?p = "zip addresses [0..<length addresses]"
  have "fst ` set ?p = set addresses" by (metis length_map length_upt map_fst_zip minus_nat.diff_0 set_map)
  then show "sorted_wrt (<) (map fst (pci_groups addresses))" "fst ` set (pci_groups addresses) = pciBdf ` set addresses"
    "a \<in> set addresses \<Longrightarrow> map_of (pci_groups addresses) (pciBdf a) = Some (same_address addresses a)"
    using pci_loop_groups [of "[]" ?p addresses "{}" ?p] by (simp_all add: pci_groups_def Let_def)
qed

lemma distinct_pci_keys: "distinct (map fst (pci_groups addresses))"
  using sorted_pci_groups by (simp add: strict_sorted_iff)

lemma pci_group:
  assumes "(k, is) \<in> set (pci_groups addresses)"
  obtains a where "k = pciBdf a" "a \<in> set addresses" "is = same_address addresses a"
proof -
  obtain a where a: "k = pciBdf a" "a \<in> set addresses" using assms keys_pci_groups by (metis fst_conv image_iff)
  have "map_of (pci_groups addresses) k = Some is" by (rule map_of_is_SomeI [OF distinct_pci_keys assms])
  with a map_of_pci_groups [OF a(2)] that show thesis by simp
qed

lemma pci_index_group: "ys \<in> set (map snd (pci_groups addresses)) \<Longrightarrow> \<exists>a \<in> set addresses. ys = same_address addresses a"
proof -
  assume "ys \<in> set (map snd (pci_groups addresses))"
  then obtain k where "(k, ys) \<in> set (pci_groups addresses)" by auto
  then show ?thesis by (rule pci_group) blast
qed

lemma distinct_pci_indexes: "distinct (concat (map snd (pci_groups addresses)))"
proof (rule distinct_concat)
  show "distinct (map snd (pci_groups addresses))" unfolding distinct_map
  proof (intro conjI inj_onI)
    show "distinct (pci_groups addresses)" using distinct_pci_keys by (simp add: distinct_map)
    fix x y
    assume x: "x \<in> set (pci_groups addresses)" "y \<in> set (pci_groups addresses)" "snd x = snd y"
    obtain a where a: "fst x = pciBdf a" "a \<in> set addresses" "snd x = same_address addresses a"
      using x(1) pci_group [of "fst x" "snd x"] by (metis prod.collapse)
    obtain b where b: "fst y = pciBdf b" "snd y = same_address addresses b"
      using x(2) pci_group [of "fst y" "snd y"] by (metis prod.collapse)
    obtain i where i: "i < length addresses" "addresses ! i = a" using a(2) by (metis in_set_conv_nth)
    then have "i \<in> set (same_address addresses a)" by (simp add: same_address_def)
    then have "i \<in> set (same_address addresses b)" using a(3) b(2) x(3) by simp
    with i have "a = b" by (simp add: same_address_def)
    with a b x(3) show "x = y" by (simp add: prod_eq_iff)
  qed
next
  show "distinct ys" if "ys \<in> set (map snd (pci_groups addresses))" for ys
    using pci_index_group [OF that] by (auto simp: same_address_def)
  show "set ys \<inter> set zs = {}" if "ys \<in> set (map snd (pci_groups addresses))" "zs \<in> set (map snd (pci_groups addresses))" "ys \<noteq> zs" for ys zs
    using pci_index_group [OF that(1)] pci_index_group [OF that(2)] that(3) by (auto simp: same_address_def)
qed

lemma set_pci_indexes: "set (concat (map snd (pci_groups addresses))) = {0..<length addresses}"
proof (intro equalityI subsetI)
  fix i
  assume "i \<in> set (concat (map snd (pci_groups addresses)))"
  then obtain ys where "ys \<in> set (map snd (pci_groups addresses))" "i \<in> set ys" by auto
  then show "i \<in> {0..<length addresses}" using pci_index_group [of ys addresses] by (auto simp: same_address_def)
next
  fix i
  assume "i \<in> {0..<length addresses}"
  then have i: "addresses ! i \<in> set addresses" "i \<in> set (same_address addresses (addresses ! i))" by (simp_all add: same_address_def)
  from map_of_SomeD [OF map_of_pci_groups [OF i(1)]] i(2) show "i \<in> set (concat (map snd (pci_groups addresses)))" by force
qed

section \<open>Properties\<close>

text \<open>
  The tool for Level Zero shows every device under exactly one address: the groups it prints have the texts of
  the addresses that occur, each group has exactly the indices of the devices with its address in increasing order, and the
  groups together have every index once. Different addresses have different texts.
\<close>

lemma pci_groups_partition:
  "map_of (pci_groups addresses) s =
     (case find (\<lambda>a. pciBdf a = s) addresses of None \<Rightarrow> None
      | Some a \<Rightarrow> Some (filter (\<lambda>i. addresses ! i = a) [0..<length addresses])) \<and>
   distinct (concat (map snd (pci_groups addresses))) \<and> set (concat (map snd (pci_groups addresses))) = {0..<length addresses}"
proof (intro conjI distinct_pci_indexes set_pci_indexes)
  show "map_of (pci_groups addresses) s =
     (case find (\<lambda>a. pciBdf a = s) addresses of None \<Rightarrow> None
      | Some a \<Rightarrow> Some (filter (\<lambda>i. addresses ! i = a) [0..<length addresses]))"
  proof (cases "find (\<lambda>a. pciBdf a = s) addresses")
    case None
    then have "s \<notin> fst ` set (pci_groups addresses)" by (auto simp: keys_pci_groups find_None_iff)
    then show ?thesis using None by (simp add: map_of_eq_None_iff)
  next
    case (Some a)
    then have "pciBdf a = s" "a \<in> set addresses" by (auto simp: find_Some_iff)
    then show ?thesis using Some map_of_pci_groups [of a] by (simp add: same_address_def)
  qed
qed

end
