(* ===== verification/Mutex_Comparison.thy ===== *)
theory Mutex_Comparison
  imports Metrics
begin

text \<open>
  The tool \<open>tools/mutex_comparison/main.cpp\<close>. The clock, the time of its \<open>n\<close>-th reading in nanoseconds, and the printing of a
  \<open>double\<close> are parameters; locking and unlocking a free mutex has no effect beside the time it takes.
\<close>

definition comparisonIterations_count :: nat where
  "comparisonIterations_count = 100"

definition lockIterations :: nat where
  "lockIterations = 100000"

definition printMutexTimes :: "(Value \<Rightarrow> string) \<Rightarrow> Value list \<Rightarrow> string result" where
  "printMutexTimes show_double vec =
     (let sum = foldl V_add (Fin 0) vec; avg = V_div sum (V_of_int (int comparisonIterations_count))
      in bindR (calculateMin vec) (\<lambda>min. bindR (calculateMax vec) (\<lambda>max.
           Ok (''Min: '' @ show_double min @ '' ns, Max: '' @ show_double max @ '' ns, Avg: '' @ show_double avg @ '' ns'' @ [newline]))))"

definition lock_time :: "(nat \<Rightarrow> int) \<Rightarrow> nat \<Rightarrow> Value" where
  "lock_time clock t = V_div (V_of_int (clock (t + 1) - clock t)) (V_of_int (int lockIterations))"

text \<open>The three vectors after the loop: each pass reads the clock six times.\<close>

fun comparison_loop :: "(nat \<Rightarrow> int) \<Rightarrow> nat \<Rightarrow> nat \<Rightarrow> Value list \<times> Value list \<times> Value list \<Rightarrow> Value list \<times> Value list \<times> Value list" where
  "comparison_loop clock 0 t vectors = vectors"
| "comparison_loop clock (Suc k) t (sharedTimes, exclusiveTimes, mtxTimes) =
     comparison_loop clock k (t + 6)
       (sharedTimes @ [lock_time clock t], exclusiveTimes @ [lock_time clock (t + 2)], mtxTimes @ [lock_time clock (t + 4)])"

definition mutex_main :: "(Value \<Rightarrow> string) \<Rightarrow> (nat \<Rightarrow> int) \<Rightarrow> string result" where
  "mutex_main show_double clock =
     (case comparison_loop clock comparisonIterations_count 0 ([], [], []) of (sharedTimes, exclusiveTimes, mtxTimes) \<Rightarrow>
        bindR (printMutexTimes show_double sharedTimes) (\<lambda>s1.
        bindR (printMutexTimes show_double exclusiveTimes) (\<lambda>s2.
        bindR (printMutexTimes show_double mtxTimes) (\<lambda>s3.
          Ok (''--- Comparison start ---'' @ [newline] @ ''Shared mutex - shared lock:  '' @ s1 @
              ''Shared mutex exclusive lock: '' @ s2 @ ''Mutex - exclusive lock:      '' @ s3)))))"

section \<open>The printed averages\<close>

lemma comparison_loop_result:
  "comparison_loop clock k t (as, bs, cs) =
     (as @ map (\<lambda>i. lock_time clock (t + 6 * i)) [0..<k], bs @ map (\<lambda>i. lock_time clock (t + 6 * i + 2)) [0..<k],
      cs @ map (\<lambda>i. lock_time clock (t + 6 * i + 4)) [0..<k])"
proof (induction k arbitrary: t as bs cs)
  case (Suc k)
  have "map f [0..<Suc k] = f 0 # map (\<lambda>i. f (Suc i)) [0..<k]" for f :: "nat \<Rightarrow> Value"
    by (simp add: upt_conv_Cons map_Suc_upt [symmetric] comp_def del: upt_Suc)
  with Suc show ?case by (simp add: algebra_simps del: upt_Suc)
qed simp

text \<open>Each of the three vectors has as many times as the average divides by, so the tool always prints all of them.\<close>

lemma printMutexTimes_ok: "vec \<noteq> [] \<Longrightarrow> is_ok (printMutexTimes show_double vec)"
  by (cases vec) (simp_all add: printMutexTimes_def calculateMin_def calculateMax_def is_ok_iff Let_def)

lemma mutex_main_ok: "is_ok (mutex_main show_double clock)"
proof -
  obtain as bs cs where v: "comparison_loop clock comparisonIterations_count 0 ([], [], []) = (as, bs, cs)"
    and l: "length as = 100" "length bs = 100" "length cs = 100"
    by (simp add: comparison_loop_result comparisonIterations_count_def del: upt_Suc)
  then obtain s1 s2 s3 where "printMutexTimes show_double as = Ok s1" "printMutexTimes show_double bs = Ok s2"
    "printMutexTimes show_double cs = Ok s3"
    using printMutexTimes_ok [of _ show_double] by (metis is_ok_iff list.size(3) zero_neq_numeral)
  then show ?thesis by (simp add: mutex_main_def v)
qed

end
