(* ===== verification/Driver_Helpers.thy ===== *)
theory Driver_Helpers
  imports Memory_Helpers Metrics Test_Case Math_Operations
begin

unbundle bit_operations_syntax

text \<open>
  Small helpers the tests share: \<open>utility/timer.h\<close>, \<open>power_meter.h\<close>, \<open>file_helper.cpp\<close>, \<open>common_gtest_args.h\<close>,
  \<open>linux/working_directory_helper_linux.cpp\<close>, and under \<open>ocl/utility\<close> and \<open>l0/utility\<close> the extensions, image, compression,
  program and profiling helpers.

  What a driver or the operating system answers to a call is an argument: its return code, zero for success, with the value
  it hands out.
\<close>

section \<open>Timer\<close>

record Timer =
  tm_mark :: bool
  tm_start :: int
  tm_end :: int

definition make_Timer :: "Configuration \<Rightarrow> Timer" where
  "make_Timer cfg = \<lparr>tm_mark = cfg_flag cfg ''markTimers'', tm_start = 0, tm_end = 0\<rparr>"

text \<open>\<open>now\<close> is the reading of the clock; the result has the text printed.\<close>

definition measureStart :: "int \<Rightarrow> Timer \<Rightarrow> string \<times> Timer" where
  "measureStart now t = (if tm_mark t then [newline] @ '' Timer START '' @ [newline] else [], t\<lparr>tm_start := now\<rparr>)"

definition measureEnd :: "int \<Rightarrow> Timer \<Rightarrow> string \<times> Timer" where
  "measureEnd now t = (if tm_mark t then [newline] @ '' Timer END '' @ [newline] else [], t\<lparr>tm_end := now\<rparr>)"

definition Timer_get :: "Timer \<Rightarrow> int" where
  "Timer_get t = (if tm_end t \<le> tm_start t then 1 else tm_end t - tm_start t)"

lemma Timer_get_positive: "0 < Timer_get t"
  by (simp add: Timer_get_def)

section \<open>Power\<close>

record energy_counter =
  ec_energy :: "64 word"
  ec_timestamp :: "64 word"

record PowerMeter =
  pm_enabled :: bool
  energyStart :: energy_counter
  energyEnd :: energy_counter

text \<open>The answers of the system manager: a count or a handle beside each return code.\<close>

record sysman =
  sm_init :: int
  sm_driver_count :: "int \<times> nat"
  sm_driver :: "int \<times> nat option"
  sm_device :: "int \<times> nat option"
  sm_domain_count :: "int \<times> nat"
  sm_domain :: "int \<times> nat option"

definition getPowerHandle :: "sysman \<Rightarrow> nat option" where
  "getPowerHandle sm =
     (if sm_init sm \<noteq> 0 then None
      else if fst (sm_driver_count sm) \<noteq> 0 \<or> snd (sm_driver_count sm) = 0 then None
      else if fst (sm_driver sm) \<noteq> 0 \<or> snd (sm_driver sm) = None then None
      else if fst (sm_device sm) \<noteq> 0 \<or> snd (sm_device sm) = None then None
      else if fst (sm_domain_count sm) \<noteq> 0 \<or> snd (sm_domain_count sm) = 0 then None
      else if fst (sm_domain sm) \<noteq> 0 then None
      else snd (sm_domain sm))"

definition make_PowerMeter :: "Configuration \<Rightarrow> sysman \<Rightarrow> PowerMeter" where
  "make_PowerMeter cfg sm =
     (let zero = \<lparr>ec_energy = 0, ec_timestamp = 0\<rparr>
      in \<lparr>pm_enabled = (cfg_flag cfg ''measurePower'' \<and> getPowerHandle sm \<noteq> None), energyStart = zero, energyEnd = zero\<rparr>)"

definition PowerMeter_measureStart :: "int \<times> energy_counter \<Rightarrow> PowerMeter \<Rightarrow> int \<times> PowerMeter" where
  "PowerMeter_measureStart answer p = (if pm_enabled p then (fst answer, p\<lparr>energyStart := snd answer\<rparr>) else (0, p))"

definition PowerMeter_measureEnd :: "int \<times> energy_counter \<Rightarrow> PowerMeter \<Rightarrow> int \<times> PowerMeter" where
  "PowerMeter_measureEnd answer p = (if pm_enabled p then (fst answer, p\<lparr>energyEnd := snd answer\<rparr>) else (0, p))"

definition getEnergy :: "PowerMeter \<Rightarrow> 64 word" where
  "getEnergy p = ec_energy (energyEnd p) - ec_energy (energyStart p)"

definition getRawTime :: "PowerMeter \<Rightarrow> 64 word" where
  "getRawTime p = ec_timestamp (energyEnd p) - ec_timestamp (energyStart p)"

definition getTime :: "PowerMeter \<Rightarrow> int" where
  "getTime p = sint (getRawTime p)"

definition getPower :: "PowerMeter \<Rightarrow> Value" where
  "getPower p = V_div (V_mult (V_of_int (uint (getEnergy p))) (Fin 1)) (V_of_int (uint (getRawTime p)))"

text \<open>A counter that wraps around between both readings does not disturb the measurement.\<close>

lemma energy_over_wrap:
  assumes "energyEnd p = \<lparr>ec_energy = ec_energy (energyStart p) + e, ec_timestamp = ec_timestamp (energyStart p) + t\<rparr>" "t \<noteq> 0"
  shows "getEnergy p = e \<and> getRawTime p = t \<and> getPower p = V_div (V_mult (V_of_int (uint e)) (Fin 1)) (V_of_int (uint t))"
  using assms by (simp add: getEnergy_def getRawTime_def getPower_def unsigned_eq_0_iff)

text \<open>The devices and domains a meter needs.\<close>

lemma getPowerHandle_Some:
  "getPowerHandle sm = Some h \<longleftrightarrow> sm_init sm = 0 \<and> fst (sm_driver_count sm) = 0 \<and> 0 < snd (sm_driver_count sm) \<and>
     fst (sm_driver sm) = 0 \<and> snd (sm_driver sm) \<noteq> None \<and> fst (sm_device sm) = 0 \<and> snd (sm_device sm) \<noteq> None \<and>
     fst (sm_domain_count sm) = 0 \<and> 0 < snd (sm_domain_count sm) \<and> sm_domain sm = (0, Some h)"
  by (cases "sm_domain sm") (auto simp: getPowerHandle_def)

section \<open>Files\<close>

type_synonym file_system = "string \<Rightarrow> 8 word list option"

definition loadFile :: "file_system \<Rightarrow> string \<Rightarrow> 8 word list" where
  "loadFile files filePath = (case files filePath of None \<Rightarrow> [] | Some content \<Rightarrow> content)"

definition loadBinaryFile :: "file_system \<Rightarrow> string \<Rightarrow> 8 word list" where
  "loadBinaryFile files filePath = loadFile files filePath"

definition loadTextFile :: "file_system \<Rightarrow> string \<Rightarrow> 8 word list" where
  "loadTextFile files filePath = loadFile files filePath"

datatype output_stream = Owned_file string | Fallback

definition make_FileOrConsole :: "string \<Rightarrow> string option" where
  "make_FileOrConsole filePath = (if filePath \<noteq> [] then Some filePath else None)"

definition FileOrConsole_get :: "string option \<Rightarrow> output_stream" where
  "FileOrConsole_get ownedFile = (case ownedFile of Some f \<Rightarrow> Owned_file f | None \<Rightarrow> Fallback)"

text \<open>\<open>readlink\<close> fills a buffer of 4096 characters and returns their number, or a negative number.\<close>

definition getExeLocation :: "int \<times> string \<Rightarrow> string result" where
  "getExeLocation answer =
     FATAL_ERROR_IF (fst answer < 0) ''retrieving .exe location, ''
       (if fst answer < 4096 then Ok (take (nat (fst answer)) (snd answer))
        else FATAL_ERROR ''path truncation while retrieving .exe location, '')"

section \<open>Extensions of OpenCL\<close>

definition queryExtensions :: "int \<Rightarrow> int \<times> string \<Rightarrow> string list" where
  "queryExtensions sizeRet answer =
     (if sizeRet \<noteq> 0 then [] else if fst answer \<noteq> 0 then [] else splitString (snd answer))"

definition isSupported :: "bool \<Rightarrow> string list \<Rightarrow> string \<Rightarrow> bool \<Rightarrow> bool" where
  "isSupported noIntelExtensions extensions extension allowPreview =
     (let previewExtension = extension @ ''_preview''; allowIntelExtensions = \<not> noIntelExtensions
      in list_ex (\<lambda>currentExtension.
           let isMatched = (currentExtension = extension \<or> (allowPreview \<and> currentExtension = previewExtension));
               isIntel = (take 9 currentExtension = ''cl_intel_'')
           in isMatched \<and> (allowIntelExtensions \<or> \<not> isIntel)) extensions)"

definition areDoublesSupported :: "bool \<Rightarrow> string list \<Rightarrow> bool" where
  "areDoublesSupported noIntelExtensions extensions = isSupported noIntelExtensions extensions ''cl_khr_fp64'' False"

definition isGlobalFloatAtomicsSupported :: "bool \<Rightarrow> string list \<Rightarrow> bool" where
  "isGlobalFloatAtomicsSupported noIntelExtensions extensions =
     isSupported noIntelExtensions extensions ''cl_intel_global_float_atomics'' False"

definition isCommandQueueFamiliesSupported :: "bool \<Rightarrow> string list \<Rightarrow> bool" where
  "isCommandQueueFamiliesSupported noIntelExtensions extensions =
     isSupported noIntelExtensions extensions ''cl_intel_command_queue_families'' True"

definition isUsmSupported :: "bool \<Rightarrow> string list \<Rightarrow> bool" where
  "isUsmSupported noIntelExtensions extensions = isSupported noIntelExtensions extensions ''cl_intel_unified_shared_memory'' True"

record UsmFunctions =
  clMemFreeINTEL :: "nat option"
  clHostMemAllocINTEL :: "nat option"
  clDeviceMemAllocINTEL :: "nat option"
  clSharedMemAllocINTEL :: "nat option"

text \<open>\<open>address\<close> is \<open>clGetExtensionFunctionAddressForPlatform\<close> of the platform of the device.\<close>

definition queryUsmFunctions :: "(string \<Rightarrow> nat option) \<Rightarrow> bool \<Rightarrow> string list \<Rightarrow> UsmFunctions" where
  "queryUsmFunctions address noIntelExtensions extensions =
     (if isUsmSupported noIntelExtensions extensions
      then \<lparr>clMemFreeINTEL = address ''clMemFreeINTEL'', clHostMemAllocINTEL = address ''clHostMemAllocINTEL'',
            clDeviceMemAllocINTEL = address ''clDeviceMemAllocINTEL'', clSharedMemAllocINTEL = address ''clSharedMemAllocINTEL''\<rparr>
      else \<lparr>clMemFreeINTEL = None, clHostMemAllocINTEL = None, clDeviceMemAllocINTEL = None, clSharedMemAllocINTEL = None\<rparr>)"

definition areUsmPointersNotNull :: "UsmFunctions \<Rightarrow> bool" where
  "areUsmPointersNotNull usmFunctions \<longleftrightarrow>
     clMemFreeINTEL usmFunctions \<noteq> None \<and> clHostMemAllocINTEL usmFunctions \<noteq> None \<and>
     clDeviceMemAllocINTEL usmFunctions \<noteq> None \<and> clSharedMemAllocINTEL usmFunctions \<noteq> None"

text \<open>The extensions a run may use: those of Intel only without the flag that forbids them.\<close>

definition allowed_extensions :: "bool \<Rightarrow> string list \<Rightarrow> string set" where
  "allowed_extensions noIntelExtensions extensions =
     {e \<in> set extensions. noIntelExtensions \<longrightarrow> (\<nexists>rest. e = ''cl_intel_'' @ rest)}"

lemma take_9_intel: "take 9 e = ''cl_intel_'' \<longleftrightarrow> (\<exists>rest. e = ''cl_intel_'' @ rest)"
proof
  assume "take 9 e = ''cl_intel_''"
  then have "e = ''cl_intel_'' @ drop 9 e" by (metis append_take_drop_id)
  then show "\<exists>rest. e = ''cl_intel_'' @ rest" by blast
qed auto

lemma isSupported_iff:
  "isSupported noIntelExtensions extensions extension allowPreview \<longleftrightarrow>
     extension \<in> allowed_extensions noIntelExtensions extensions \<or>
     allowPreview \<and> extension @ ''_preview'' \<in> allowed_extensions noIntelExtensions extensions"
  unfolding isSupported_def allowed_extensions_def Let_def list_ex_iff take_9_intel by blast

lemma no_intel_extensions:
  "\<not> isUsmSupported True extensions" "\<not> isCommandQueueFamiliesSupported True extensions"
  "\<not> isGlobalFloatAtomicsSupported True extensions" "\<not> areUsmPointersNotNull (queryUsmFunctions address True extensions)"
  by (simp_all add: isUsmSupported_def isCommandQueueFamiliesSupported_def isGlobalFloatAtomicsSupported_def isSupported_iff
      allowed_extensions_def queryUsmFunctions_def areUsmPointersNotNull_def)

section \<open>Images\<close>

definition getOclImageTypeFromDimensions :: "nat \<times> nat \<times> nat \<Rightarrow> nat result" where
  "getOclImageTypeFromDimensions dimensions =
     (case getImageTypeFromDimensions dimensions of
        Image1D \<Rightarrow> Ok 0x10F4 | Image2D \<Rightarrow> Ok 0x10F1 | Image3D \<Rightarrow> Ok 0x10F2
      | Image1D_Array \<Rightarrow> Ok 0x10F5 | Image2D_Array \<Rightarrow> Ok 0x10F3 | Image_Buffer \<Rightarrow> Ok 0x10F6
      | _ \<Rightarrow> FATAL_ERROR ''Unknown image type'')"

text \<open>The order and the type of the channels.\<close>

definition OCL_getImageFormat :: "ChannelOrder \<Rightarrow> ChannelFormat \<Rightarrow> (nat \<times> nat) result" where
  "OCL_getImageFormat order format =
     bindR (case order of CO_R \<Rightarrow> Ok 0x10B0 | CO_RG \<Rightarrow> Ok 0x10B2 | CO_RGBA \<Rightarrow> Ok 0x10B5
              | CO_Unknown \<Rightarrow> FATAL_ERROR ''Unknown channel order'') (\<lambda>image_channel_order.
     bindR (case format of CF_Float \<Rightarrow> Ok 0x10DE | CF_Unknown \<Rightarrow> FATAL_ERROR ''Unknown channel format'') (\<lambda>image_channel_data_type.
       Ok (image_channel_order, image_channel_data_type)))"

datatype cl_image_limit = IMAGE2D_MAX_WIDTH | IMAGE2D_MAX_HEIGHT | IMAGE3D_MAX_WIDTH | IMAGE3D_MAX_HEIGHT | IMAGE3D_MAX_DEPTH | IMAGE_MAX_BUFFER_SIZE

text \<open>A query that fails makes the result false.\<close>

definition with_limit :: "(cl_image_limit \<Rightarrow> int \<times> nat) \<Rightarrow> cl_image_limit \<Rightarrow> (nat \<Rightarrow> bool result) \<Rightarrow> bool result" where
  "with_limit limits l k = (if fst (limits l) \<noteq> 0 then Ok False else k (snd (limits l)))"

definition OCL_validateImageDimensions :: "(cl_image_limit \<Rightarrow> int \<times> nat) \<Rightarrow> nat \<times> nat \<times> nat \<Rightarrow> bool result" where
  "OCL_validateImageDimensions limits dimensions =
     (case dimensions of (d0, d1, d2) \<Rightarrow>
        let t = getImageTypeFromDimensions dimensions
        in if t = Image1D \<or> t = Image1D_Array then with_limit limits IMAGE2D_MAX_WIDTH (\<lambda>m0. Ok (d0 \<le> m0))
           else if t = Image_Buffer then with_limit limits IMAGE_MAX_BUFFER_SIZE (\<lambda>m0. Ok (d0 \<le> m0))
           else if t = Image2D \<or> t = Image2D_Array then
             with_limit limits IMAGE2D_MAX_WIDTH (\<lambda>m0. with_limit limits IMAGE2D_MAX_HEIGHT (\<lambda>m1. Ok (d0 \<le> m0 \<and> d1 \<le> m1)))
           else if t = Image3D then
             with_limit limits IMAGE3D_MAX_WIDTH (\<lambda>m0. with_limit limits IMAGE3D_MAX_HEIGHT (\<lambda>m1.
             with_limit limits IMAGE3D_MAX_DEPTH (\<lambda>m2. Ok (d0 \<le> m0 \<and> d1 \<le> m1 \<and> d2 \<le> m2))))
           else FATAL_ERROR ''Unknown image type'')"

definition getL0ImageTypeFromDimensions :: "nat \<times> nat \<times> nat \<Rightarrow> nat result" where
  "getL0ImageTypeFromDimensions dimensions =
     (case getImageTypeFromDimensions dimensions of
        Image1D \<Rightarrow> Ok 0 | Image2D \<Rightarrow> Ok 2 | Image3D \<Rightarrow> Ok 4 | Image1D_Array \<Rightarrow> Ok 1 | Image2D_Array \<Rightarrow> Ok 3 | Image_Buffer \<Rightarrow> Ok 5
      | _ \<Rightarrow> FATAL_ERROR ''Unknown image type'')"

record ze_image_format =
  zf_layout :: nat
  zf_x :: nat
  zf_y :: nat
  zf_z :: nat
  zf_w :: nat
  zf_type :: nat

definition L0_getImageFormat :: "ChannelOrder \<Rightarrow> ChannelFormat \<Rightarrow> ze_image_format result" where
  "L0_getImageFormat order format =
     (let R = 0; G = 1; B = 2; A = 3; ZERO = 4; ONE = 5 in
      bindR (case order of
               CO_R \<Rightarrow> Ok \<lparr>zf_layout = 2, zf_x = R, zf_y = ZERO, zf_z = ZERO, zf_w = ONE, zf_type = 0\<rparr>
             | CO_RG \<Rightarrow> Ok \<lparr>zf_layout = 7, zf_x = R, zf_y = G, zf_z = ZERO, zf_w = ONE, zf_type = 0\<rparr>
             | CO_RGBA \<Rightarrow> Ok \<lparr>zf_layout = 8, zf_x = R, zf_y = G, zf_z = B, zf_w = A, zf_type = 0\<rparr>
             | CO_Unknown \<Rightarrow> FATAL_ERROR ''Unknown channel order'') (\<lambda>imageFormat.
      case format of CF_Float \<Rightarrow> Ok (imageFormat\<lparr>zf_type := 4\<rparr>) | CF_Unknown \<Rightarrow> FATAL_ERROR ''Unknown channel format''))"

record ze_image_properties =
  maxImageDims1D :: nat
  maxImageDims2D :: nat
  maxImageDims3D :: nat

definition L0_validateImageDimensions :: "int \<times> ze_image_properties \<Rightarrow> nat \<times> nat \<times> nat \<Rightarrow> bool result" where
  "L0_validateImageDimensions answer dimensions =
     (if fst answer \<noteq> 0 then Ok False
      else case dimensions of (d0, d1, d2) \<Rightarrow>
        let t = getImageTypeFromDimensions dimensions; p = snd answer
        in if t = Image1D \<or> t = Image1D_Array \<or> t = Image_Buffer then Ok (d0 \<le> maxImageDims1D p)
           else if t = Image2D \<or> t = Image2D_Array then Ok (d0 \<le> maxImageDims2D p \<and> d1 \<le> maxImageDims2D p)
           else if t = Image3D then Ok (d0 \<le> maxImageDims3D p \<and> d1 \<le> maxImageDims3D p \<and> d2 \<le> maxImageDims3D p)
           else FATAL_ERROR ''Unknown image type'')"

text \<open>Validation always returns; both drivers agree when they report the same limits.\<close>

lemma image_type_cases:
  "getImageTypeFromDimensions (d0, d1, d2) = (if 1 < d2 then Image3D else if 1 < d1 then Image2D else Image1D)"
  by (simp add: getImageTypeFromDimensions_def)

lemma image_validation_agrees:
  assumes "\<And>l. fst (limits l) = 0" "fst answer = 0"
    and "snd (limits IMAGE2D_MAX_WIDTH) = maxImageDims2D (snd answer)" "snd (limits IMAGE2D_MAX_HEIGHT) = maxImageDims2D (snd answer)"
      "snd (limits IMAGE3D_MAX_WIDTH) = maxImageDims3D (snd answer)" "snd (limits IMAGE3D_MAX_HEIGHT) = maxImageDims3D (snd answer)"
      "snd (limits IMAGE3D_MAX_DEPTH) = maxImageDims3D (snd answer)" "maxImageDims1D (snd answer) = maxImageDims2D (snd answer)"
  shows "OCL_validateImageDimensions limits dimensions = L0_validateImageDimensions answer dimensions"
  using assms
  by (cases dimensions)
    (simp add: OCL_validateImageDimensions_def L0_validateImageDimensions_def image_type_cases with_limit_def Let_def)

lemma with_limit_total: "(\<And>m. is_ok (k m)) \<Longrightarrow> is_ok (with_limit limits l k)"
  by (simp add: with_limit_def)

lemma image_validation_total:
  "is_ok (OCL_validateImageDimensions limits dimensions)" "is_ok (L0_validateImageDimensions answer dimensions)"
proof -
  obtain d0 d1 d2 where d: "dimensions = (d0, d1, d2)" by (cases dimensions)
  show "is_ok (OCL_validateImageDimensions limits dimensions)"
    unfolding OCL_validateImageDimensions_def d image_type_cases
    by (auto simp: Let_def intro!: with_limit_total)
  show "is_ok (L0_validateImageDimensions answer dimensions)"
    unfolding L0_validateImageDimensions_def d image_type_cases by (simp add: Let_def)
qed

section \<open>Compression, mapping, profiling\<close>

definition getCompressionFlags :: "bool \<Rightarrow> bool \<Rightarrow> 64 word" where
  "getCompressionFlags compression noIntelExtensions =
     (if noIntelExtensions then 0 else if compression then push_bit 21 1 else push_bit 22 1)"

text \<open>\<open>answer\<close> is what \<open>clGetMemObjectInfo\<close> says about the compression of the object.\<close>

definition verifyCompression :: "int \<times> nat \<Rightarrow> bool \<Rightarrow> bool \<Rightarrow> TestResult" where
  "verifyCompression answer expectedCompression noIntelExtensions =
     (if noIntelExtensions then Success
      else if fst answer \<noteq> 0 then Error
      else let isCompressed = (snd answer = 1)
           in if isCompressed \<noteq> expectedCompression then DeviceNotCapable else Success)"

definition convertMapFlags :: "MapFlags \<Rightarrow> nat result" where
  "convertMapFlags mapFlags =
     (case mapFlags of MF_Read \<Rightarrow> Ok 1 | MF_Write \<Rightarrow> Ok 2 | MF_WriteInvalidate \<Rightarrow> Ok 4 | MF_Unknown \<Rightarrow> FATAL_ERROR ''Unknown map flag'')"

datatype profiling_info = COMMAND_QUEUED | COMMAND_START | COMMAND_END

text \<open>The code and the value of \<open>timeNs\<close>, which is kept when a query fails.\<close>

definition getEventDurationInNanoseconds :: "bool \<Rightarrow> (profiling_info \<Rightarrow> int \<times> 64 word) \<Rightarrow> 64 word \<Rightarrow> int \<times> 64 word" where
  "getEventDurationInNanoseconds returnSubmissionTime event timeNs =
     (let firstTimestamp = (if returnSubmissionTime then COMMAND_QUEUED else COMMAND_START);
          secondTimestamp = (if returnSubmissionTime then COMMAND_START else COMMAND_END)
      in if fst (event firstTimestamp) \<noteq> 0 then (fst (event firstTimestamp), timeNs)
         else if fst (event secondTimestamp) \<noteq> 0 then (fst (event secondTimestamp), timeNs)
         else (0, snd (event secondTimestamp) - snd (event firstTimestamp)))"

section \<open>Programs of OpenCL\<close>

record build_answers =
  ba_create :: int
  ba_build :: int
  ba_log_size :: int
  ba_log :: "int \<times> string"

text \<open>The result, the text printed, whether \<open>outProgram\<close> is set, and how many programs exist that nobody knows.\<close>

record build_outcome =
  bo_result :: TestResult
  bo_printed :: string
  bo_program :: bool
  bo_lost :: nat

definition buildProgramFromSource :: "bool \<Rightarrow> build_answers \<Rightarrow> build_outcome result" where
  "buildProgramFromSource outProgram b =
     FATAL_ERROR_IF outProgram ''Non-null program passed''
       (if ba_create b \<noteq> 0 then Ok \<lparr>bo_result = Error, bo_printed = [], bo_program = False, bo_lost = 0\<rparr>
        else if ba_build b \<noteq> 0 then
          (if ba_log_size b \<noteq> 0 \<or> fst (ba_log b) \<noteq> 0 then Ok \<lparr>bo_result = Error, bo_printed = [], bo_program = False, bo_lost = 1\<rparr>
           else Ok \<lparr>bo_result = KernelBuildError, bo_printed = indentString (snd (ba_log b)) 16 @ [newline],
                     bo_program = False, bo_lost = 1\<rparr>)
        else Ok \<lparr>bo_result = Success, bo_printed = [], bo_program = True, bo_lost = 0\<rparr>)"

definition buildProgramFromSourceFile :: "file_system \<Rightarrow> string \<Rightarrow> bool \<Rightarrow> build_answers \<Rightarrow> build_outcome result" where
  "buildProgramFromSourceFile files sourceFileName outProgram b =
     (let kernelSource = loadTextFile files sourceFileName
      in if length kernelSource = 0 then Ok \<lparr>bo_result = KernelNotFound, bo_printed = [], bo_program = outProgram, bo_lost = 0\<rparr>
         else buildProgramFromSource outProgram b)"

text \<open>A program that was created and could not be built is never released.\<close>

lemma failed_build_keeps_program:
  "buildProgramFromSource False b = Ok r \<Longrightarrow> bo_lost r = (if ba_create b = 0 \<and> ba_build b \<noteq> 0 then 1 else 0)"
  "buildProgramFromSource False b = Ok r \<Longrightarrow> bo_program r \<longleftrightarrow> bo_result r = Success"
  by (auto simp: buildProgramFromSource_def FATAL_ERROR_IF_def split: if_splits)

section \<open>Parameters of the tests\<close>

definition allApis :: "Api list" where
  "allApis = [OpenCL, L0, SYCL, OMP, UR]"

definition workgroupCount_values :: "nat list" where
  "workgroupCount_values = [1, 1000, 10000]"

definition workgroupSize_values :: "nat list" where
  "workgroupSize_values = [1, 32, 256]"

definition contextDeviceSelections :: "DeviceSelection list" where
  "contextDeviceSelections = [DS_Root, DS_Tile0, DS_Tile1, DS_Tile0 OR DS_Tile1, DS_Root OR DS_Tile0 OR DS_Tile1]"

definition resourceDeviceSelections :: "DeviceSelection list" where
  "resourceDeviceSelections = [DS_Root, DS_Tile0, DS_Tile1]"

definition usmDeviceSelections :: "DeviceSelection list" where
  "usmDeviceSelections = [DS_Host, DS_Root, DS_Tile0, DS_Tile1, DS_Host OR DS_Root, DS_Host OR DS_Tile0, DS_Host OR DS_Tile1]"

definition usmSharedSelections :: "DeviceSelection list" where
  "usmSharedSelections = [DS_Host OR DS_Root, DS_Host OR DS_Tile0, DS_Host OR DS_Tile1]"

definition allAtomicMathOperations :: "MathOperation list" where
  "allAtomicMathOperations =
     [MO_Add, MO_Sub, MO_Xchg, MO_CmpXchg, MO_Inc, MO_Dec, MO_Min, MO_Max, MO_And, MO_Or, MO_Xor]"

definition reducedAtomicMathOperations :: "MathOperation list" where
  "reducedAtomicMathOperations = [MO_Add, MO_Xchg, MO_Inc, MO_Min, MO_And]"

definition allNormalMathOperations :: "MathOperation list" where
  "allNormalMathOperations =
     [MO_Add, MO_Sub, MO_Div, MO_Modulo, MO_Inc, MO_Dec, MO_Min, MO_Max, MO_And, MO_Or, MO_Xor]"

record EnqueueSize =
  es_workgroupCount :: nat
  es_workgroupSize :: nat

definition enqueueSizesForAtomics :: "EnqueueSize list" where
  "enqueueSizesForAtomics = map (\<lambda>(c, s). \<lparr>es_workgroupCount = c, es_workgroupSize = s\<rparr>) [(1, 1), (1, 256), (2048, 1), (64, 32), (32, 64), (8, 256)]"

definition reducedEnqueueSizesForAtomics :: "EnqueueSize list" where
  "reducedEnqueueSizesForAtomics = [\<lparr>es_workgroupCount = 32, es_workgroupSize = 64\<rparr>]"

text \<open>The USM selections of the tests are values their argument accepts, and the sizes but the first two have 2048 threads.\<close>

lemma usm_selections_accepted:
  "\<forall>v \<in> set usmDeviceSelections. UsmDeviceSelectionArgument_validate v = Ok True"
  by code_simp

lemma atomic_threads:
  "map (\<lambda>e. es_workgroupCount e * es_workgroupSize e) enqueueSizesForAtomics = [1, 256, 2048, 2048, 2048, 2048]"
  by (simp add: enqueueSizesForAtomics_def)

lemma reduced_parameters:
  "set reducedAtomicMathOperations \<subseteq> set allAtomicMathOperations" "set reducedEnqueueSizesForAtomics \<subseteq> set enqueueSizesForAtomics"
  "set resourceDeviceSelections \<subseteq> set contextDeviceSelections" "set usmSharedSelections \<subseteq> set usmDeviceSelections"
  by (simp_all add: reducedAtomicMathOperations_def allAtomicMathOperations_def reducedEnqueueSizesForAtomics_def
      enqueueSizesForAtomics_def resourceDeviceSelections_def contextDeviceSelections_def usmSharedSelections_def usmDeviceSelections_def)

end
