(* ===== verification/Driver_Programs.thy ===== *)
theory Driver_Programs
  imports Driver_Helpers Process_Group
begin

text \<open>
  How the implementations of workloads are modelled: programs that call a driver, read the clock, synchronize with their
  parent and push measurements, and that end with a result of the test.

  A program takes what remains to be done as an argument, so that the early returns of the macros \<open>ASSERT_ZE_RESULT_SUCCESS\<close>,
  \<open>ZE_RESULT_SUCCESS_OR_RETURN_ERROR\<close> and \<open>ASSERT_CL_SUCCESS\<close> simply leave the rest out. The answer of the driver to a
  call, a return code and a value, is an argument and may depend on all calls so far; the calls are recorded.

  The predicate \<open>sat\<close> says that a program returns and that its result and final state have a property; its rules, collected in
  \<open>sat\<close>, one for each kind of step, reduce a claim on a program to claims on its states.
\<close>

section \<open>State\<close>

text \<open>The calls with the codes and values they returned, and the memory of the device where a workload looks at it.\<close>

record ('c, 's) wl =
  wl_trace :: "('c \<times> int \<times> int) list"
  wl_memory :: "32 word list"
  wl_timer :: Timer
  wl_stats :: 's
  wl_sync :: WorkloadSynchronization
  wl_io :: WorkloadIo

type_synonym 'c environment = "('c \<times> int \<times> int) list \<Rightarrow> 'c \<Rightarrow> int \<times> int"

text \<open>\<open>None\<close> is a program that does not return.\<close>

type_synonym ('c, 's) outcome = "(TestResult \<times> ('c, 's) wl) option result"
type_synonym ('c, 's) continuation = "('c, 's) wl \<Rightarrow> ('c, 's) outcome"

section \<open>Steps\<close>

definition finish :: "TestResult \<Rightarrow> ('c, 's) continuation" where
  "finish r w = Ok (Some (r, w))"

definition record_call :: "'c \<Rightarrow> int \<Rightarrow> int \<Rightarrow> ('c, 's) wl \<Rightarrow> ('c, 's) wl" where
  "record_call c code v w = w\<lparr>wl_trace := wl_trace w @ [(c, code, v)]\<rparr>"

definition invoke :: "'c environment \<Rightarrow> 'c \<Rightarrow> (int \<Rightarrow> int \<Rightarrow> ('c, 's) continuation) \<Rightarrow> ('c, 's) continuation" where
  "invoke env c k w = (case env (wl_trace w) c of (code, v) \<Rightarrow> k code v (record_call c code v w))"

definition success_or_error :: "'c environment \<Rightarrow> 'c \<Rightarrow> (int \<Rightarrow> ('c, 's) continuation) \<Rightarrow> ('c, 's) continuation" where
  "success_or_error env c k = invoke env c (\<lambda>code v. if code \<noteq> 0 then finish Error else k v)"

text \<open>Calls one after the other whose values are not used.\<close>

definition all_successful :: "'c environment \<Rightarrow> 'c list \<Rightarrow> ('c, 's) continuation \<Rightarrow> ('c, 's) continuation" where
  "all_successful env cs k = foldr (\<lambda>c k. success_or_error env c (\<lambda>_. k)) cs k"

definition ignore_result :: "'c environment \<Rightarrow> 'c \<Rightarrow> ('c, 's) continuation \<Rightarrow> ('c, 's) continuation" where
  "ignore_result env c k = invoke env c (\<lambda>_ _. k)"

definition constructed :: "'a result \<Rightarrow> ('a \<Rightarrow> ('c, 's) continuation) \<Rightarrow> ('c, 's) continuation" where
  "constructed r k w = bindR r (\<lambda>x. k x w)"

definition print_text :: "string \<Rightarrow> ('c, 's) wl \<Rightarrow> ('c, 's) wl" where
  "print_text text w = w\<lparr>wl_io := (wl_io w)\<lparr>stdout := stdout (wl_io w) @ text\<rparr>\<rparr>"

text \<open>\<open>clock\<close> is the call that reads the clock.\<close>

definition start_timer :: "'c environment \<Rightarrow> 'c \<Rightarrow> ('c, 's) continuation \<Rightarrow> ('c, 's) continuation" where
  "start_timer env clock k =
     invoke env clock (\<lambda>_ now w. case measureStart now (wl_timer w) of (text, t) \<Rightarrow> k (print_text text (w\<lparr>wl_timer := t\<rparr>)))"

definition stop_timer :: "'c environment \<Rightarrow> 'c \<Rightarrow> ('c, 's) continuation \<Rightarrow> ('c, 's) continuation" where
  "stop_timer env clock k =
     invoke env clock (\<lambda>_ now w. case measureEnd now (wl_timer w) of (text, t) \<Rightarrow> k (print_text text (w\<lparr>wl_timer := t\<rparr>)))"

definition wait_for_parent :: "('c, 's) continuation \<Rightarrow> ('c, 's) continuation" where
  "wait_for_parent k w = bindR (synchronize (wl_sync w) (wl_io w)) (\<lambda>(sync, io). k (w\<lparr>wl_sync := sync, wl_io := io\<rparr>))"

text \<open>The virtual \<open>pushValue\<close> of the statistics is the argument \<open>push\<close>.\<close>

definition push_measurement ::
  "('s \<Rightarrow> Measurement \<Rightarrow> 's result) \<Rightarrow> (('c, 's) wl \<Rightarrow> Measurement) \<Rightarrow> ('c, 's) continuation \<Rightarrow> ('c, 's) continuation" where
  "push_measurement push m k w = bindR (push (wl_stats w) (m w)) (\<lambda>s. k (w\<lparr>wl_stats := s\<rparr>))"

definition timer_value :: "MeasurementUnit \<Rightarrow> MeasurementType \<Rightarrow> ('c, 's) wl \<Rightarrow> Measurement" where
  "timer_value unit type w = pushTime (Timer_get (wl_timer w)) unit type []"

fun iterate :: "nat \<Rightarrow> nat \<Rightarrow> (nat \<Rightarrow> ('c, 's) continuation \<Rightarrow> ('c, 's) continuation) \<Rightarrow> ('c, 's) continuation \<Rightarrow> ('c, 's) continuation" where
  "iterate i 0 body k = k"
| "iterate i (Suc n) body k = body i (iterate (Suc i) n body k)"

text \<open>
  A program as the implementation of a workload, in the state \<open>runImpl\<close> calls it in. That a program does not return is excluded
  where this is used.
\<close>

definition start_state :: "Configuration \<Rightarrow> 's \<Rightarrow> WorkloadSynchronization \<Rightarrow> WorkloadIo \<Rightarrow> ('c, 's) wl" where
  "start_state cfg stats sync io =
     \<lparr>wl_trace = [], wl_memory = [], wl_timer = make_Timer cfg, wl_stats = stats, wl_sync = sync, wl_io = io\<rparr>"

definition as_implementation :: "Configuration \<Rightarrow> (ArgumentContainer \<Rightarrow> ('c, WorkloadStatistics) continuation) \<Rightarrow> WorkloadImplementation" where
  "as_implementation cfg program arguments stats sync io =
     bindR (program arguments (start_state cfg stats sync io)) (\<lambda>r.
       case r of
         None \<Rightarrow> Inl (Undefined_behaviour ''no return'')
       | Some (result, w) \<Rightarrow> Ok (result, wl_stats w, wl_sync w, wl_io w))"

section \<open>Rules\<close>

named_theorems sat_rules

definition sat :: "(TestResult \<Rightarrow> ('c, 's) wl \<Rightarrow> bool) \<Rightarrow> ('c, 's) outcome \<Rightarrow> bool" where
  "sat Q r \<longleftrightarrow> (\<exists>result w. r = Ok (Some (result, w)) \<and> Q result w)"

lemma satE:
  assumes "sat Q r"
  obtains result w where "r = Ok (Some (result, w))" "Q result w"
  using assms by (auto simp: sat_def)

lemma sat_finish [sat_rules]: "Q result w \<Longrightarrow> sat Q (finish result w)"
  by (simp add: sat_def finish_def)

lemma sat_invoke: "(\<And>code v. env (wl_trace w) c = (code, v) \<Longrightarrow> sat Q (k code v (record_call c code v w))) \<Longrightarrow> sat Q (invoke env c k w)"
  by (cases "env (wl_trace w) c") (simp add: invoke_def)

lemma sat_success_or_error [sat_rules]:
  assumes "\<And>code v. code \<noteq> 0 \<Longrightarrow> env (wl_trace w) c = (code, v) \<Longrightarrow> Q Error (record_call c code v w)"
    and "\<And>v. env (wl_trace w) c = (0, v) \<Longrightarrow> sat Q (k v (record_call c 0 v w))"
  shows "sat Q (success_or_error env c k w)"
  unfolding success_or_error_def by (intro sat_invoke) (use assms in \<open>auto intro: sat_finish\<close>)

lemma sat_ignore_result [sat_rules]: "(\<And>code v. sat Q (k (record_call c code v w))) \<Longrightarrow> sat Q (ignore_result env c k w)"
  unfolding ignore_result_def by (intro sat_invoke)

lemma sat_constructed: "r = Ok x \<Longrightarrow> sat Q (k x w) \<Longrightarrow> sat Q (constructed r k w)"
  by (simp add: constructed_def)

text \<open>The invariant \<open>I\<close> of a loop may depend on the number of passes done.\<close>

lemma sat_iterate:
  assumes "I i w"
    and step: "\<And>j k w. I j w \<Longrightarrow> i \<le> j \<Longrightarrow> j < i + n \<Longrightarrow> (\<And>w'. I (Suc j) w' \<Longrightarrow> sat Q (k w')) \<Longrightarrow> sat Q (body j k w)"
    and "\<And>w. I (i + n) w \<Longrightarrow> sat Q (k w)"
  shows "sat Q (iterate i n body k w)"
  using assms
proof (induction n arbitrary: i w)
  case (Suc n)
  show ?case unfolding iterate.simps
  proof (rule Suc.prems(2) [OF Suc.prems(1)])
    show "sat Q (iterate (Suc i) n body k w')" if "I (Suc i) w'" for w'
      using Suc.IH [of "Suc i" w'] that Suc.prems(2,3) by simp
  qed simp_all
qed simp

section \<open>What the parent sees\<close>

text \<open>
  A workload told to synchronize \<open>N\<close> times through pipes, whose parent has sent all signals: \<open>a\<close> iterations are announced and
  \<open>m\<close> measurements pushed.
\<close>

definition in_step :: "nat \<Rightarrow> nat \<Rightarrow> nat \<Rightarrow> ('c, WorkloadStatistics) wl \<Rightarrow> bool" where
  "in_step N a m w \<longleftrightarrow>
     synchronizationEnabled (wl_sync w) \<and> expectedSynchronizationCount (wl_sync w) = N \<and> synchronizationCount (wl_sync w) = a \<and>
     synchronizationPipeIn (wl_io w) \<noteq> 0 \<and> synchronizationPipeOut (wl_io w) \<noteq> 0 \<and> measurementPipe (wl_io w) \<noteq> 0 \<and>
     sync_input (wl_io w) = replicate (N - a) synchronizationChar \<and> sync_output (wl_io w) = replicate a synchronizationChar \<and>
     measurements_output (wl_io w) = [] \<and>
     ws_maxSamplesCount (wl_stats w) = N \<and> samplesCount (wl_stats w) = m \<and> length (ws_result (wl_stats w)) = m \<and>
     (\<forall>i \<in> set (ws_result (wl_stats w)). \<exists>t > 0. i = Item_integer t)"

lemma in_step_simps [simp]:
  "in_step N a m (record_call c code v w) = in_step N a m w"
  "in_step N a m (w\<lparr>wl_memory := mem\<rparr>) = in_step N a m w"
  "in_step N a m (print_text text w) = in_step N a m w"
  "in_step N a m (w\<lparr>wl_timer := t\<rparr>) = in_step N a m w"
  by (simp_all add: in_step_def record_call_def print_text_def)

lemma in_step_start_timer [sat_rules]:
  assumes "in_step N a m w" "\<And>w'. in_step N a m w' \<Longrightarrow> sat Q (k w')"
  shows "sat Q (start_timer env clock k w)"
  unfolding start_timer_def by (intro sat_invoke) (use assms in \<open>simp split: prod.split\<close>)

lemma in_step_stop_timer [sat_rules]:
  assumes "in_step N a m w" "\<And>w'. in_step N a m w' \<Longrightarrow> sat Q (k w')"
  shows "sat Q (stop_timer env clock k w)"
  unfolding stop_timer_def by (intro sat_invoke) (use assms in \<open>simp split: prod.split\<close>)

lemma in_step_wait [sat_rules]:
  assumes "in_step N a m w" "a < N" "\<And>w'. in_step N (Suc a) m w' \<Longrightarrow> sat Q (k w')"
  shows "sat Q (wait_for_parent k w)"
proof -
  obtain b where N: "N = Suc (a + b)" using assms(2) less_iff_Suc_add by blast
  then have "N - a = Suc b" "N - Suc a = b" by simp_all
  with assms(1) have i: "sync_input (wl_io w) = synchronizationChar # replicate b synchronizationChar"
    by (simp add: in_step_def)
  have "synchronize (wl_sync w) (wl_io w) =
    Ok ((wl_sync w)\<lparr>synchronizationCount := Suc a\<rparr>,
        (wl_io w)\<lparr>sync_input := replicate b synchronizationChar, sync_output := sync_output (wl_io w) @ [synchronizationChar]\<rparr>)"
    using synchronize_signalled [of "wl_sync w" "wl_io w", OF _ _ i] assms(1,2) by (simp add: in_step_def)
  moreover have "in_step N (Suc a) m (w\<lparr>wl_sync := (wl_sync w)\<lparr>synchronizationCount := Suc a\<rparr>,
      wl_io := (wl_io w)\<lparr>sync_input := replicate b synchronizationChar, sync_output := sync_output (wl_io w) @ [synchronizationChar]\<rparr>\<rparr>)"
    using assms(1) \<open>N - Suc a = b\<close> by (simp add: in_step_def replicate_append_same)
  ultimately show ?thesis using assms(3) by (simp add: wait_for_parent_def)
qed

lemma in_step_push [sat_rules]:
  assumes "in_step N a m w" "m < N" "\<And>w'. in_step N a (Suc m) w' \<Longrightarrow> sat Q (k w')"
  shows "sat Q (push_measurement WorkloadStatistics_push (timer_value MU_Unknown MT_Unknown) k w)"
  using assms
  by (simp add: push_measurement_def timer_value_def ws_push_item_def in_step_def Timer_get_positive)

lemma in_step_all_successful [sat_rules]:
  assumes "in_step N a m w" "\<And>w'. in_step N a m w' \<Longrightarrow> Q Error w'" "\<And>w'. in_step N a m w' \<Longrightarrow> sat Q (k w')"
  shows "sat Q (all_successful env cs k w)"
  using assms(1)
proof (induction cs arbitrary: w)
  case (Cons c cs)
  show ?case unfolding all_successful_def foldr.simps comp_def
    by (rule sat_success_or_error) (use Cons assms(2) in \<open>auto simp: all_successful_def\<close>)
qed (simp add: all_successful_def assms(3))

text \<open>How a workload may end: with success only after all iterations.\<close>

definition settled :: "nat \<Rightarrow> TestResult \<Rightarrow> ('c, WorkloadStatistics) wl \<Rightarrow> bool" where
  "settled N result w \<longleftrightarrow> (\<exists>a \<le> N. \<exists>m \<le> N. in_step N a m w \<and> (result = Success \<longrightarrow> a = N \<and> m = N))"

lemma settled_simps [simp]: "settled N result (record_call c code v w) = settled N result w"
  by (simp add: settled_def)

lemma settledI: "in_step N a m w \<Longrightarrow> a \<le> N \<Longrightarrow> m \<le> N \<Longrightarrow> result \<noteq> Success \<Longrightarrow> settled N result w"
  by (auto simp: settled_def)

lemma settled_success: "in_step N N N w \<Longrightarrow> settled N result w"
  by (auto simp: settled_def)

text \<open>
  Run by a parent that sends its signals, such a workload returns an exit code, has announced every iteration and taken every
  signal; it has written one positive time per iteration if the code is zero, and none otherwise.
\<close>

lemma in_step_start:
  assumes "arg_int arguments ''synchronize'' \<noteq> 0" "wrap_i32 (arg_int arguments ''synchronizationPipeIn'') \<noteq> 0"
    "wrap_i32 (arg_int arguments ''synchronizationPipeOut'') \<noteq> 0" "wrap_i32 (arg_int arguments ''measurementPipe'') \<noteq> 0"
  shows "in_step (nat (arg_int arguments ''iterations'')) 0 0
    (start_state cfg (make_WorkloadStatistics (nat (arg_int arguments ''iterations''))) (workload_sync arguments)
       (WorkloadIo_create arguments (replicate (nat (arg_int arguments ''iterations'')) synchronizationChar)))"
  using assms
  by (simp add: in_step_def start_state_def workload_sync_def make_WorkloadSynchronization_def WorkloadIo_create_def
      make_WorkloadStatistics_def)

lemma integer_items: "\<forall>i \<in> set is. \<exists>t > 0. i = Item_integer t \<Longrightarrow> \<exists>ts. is = map Item_integer ts \<and> (\<forall>t \<in> set ts. 0 < t)"
proof (induction "is")
  case (Cons i "is")
  then obtain t ts where "0 < t" "i = Item_integer t" "is = map Item_integer ts" "\<forall>t \<in> set ts. 0 < t" by auto
  then show ?case by (intro exI [of _ "t # ts"]) simp
qed simp

lemma settled_workload_completes:
  fixes arguments cfg N w
  defines "N \<equiv> nat (arg_int arguments ''iterations'')"
  defines "w \<equiv> start_state cfg (make_WorkloadStatistics N) (workload_sync arguments)
             (WorkloadIo_create arguments (replicate N synchronizationChar))"
  assumes valid: "validateArguments validateExtra arguments = Ok True" and "0 < N"
    and settled: "sat (settled N) (program arguments w)"
  shows "\<exists>code sync io. Workload_run show_double (Some (as_implementation cfg program)) validateExtra arguments
             (replicate N synchronizationChar) = Ok (code, sync, io) \<and>
           sync_output io = replicate N synchronizationChar \<and> sync_input io = [] \<and>
           (\<exists>ts. measurements_output io = concat (map (\<lambda>t. to_string t @ '' '') ts) \<and> (\<forall>t \<in> set ts. 0 < t) \<and>
              length ts = (if code = 0 then N else 0))"
proof -
  from settled obtain result w' a m where run: "program arguments w = Ok (Some (result, w'))"
    and s: "in_step N a m w'" "a \<le> N" "result = Success \<longrightarrow> a = N \<and> m = N"
    by (auto simp: settled_def sat_def)
  have "Workload_runImpl (Some (as_implementation cfg program)) validateExtra arguments (make_WorkloadStatistics N)
      (workload_sync arguments) (WorkloadIo_create arguments (replicate N synchronizationChar)) =
    Ok (result, wl_stats w', wl_sync w', wl_io w')"
    using valid run by (simp add: Workload_runImpl_def as_implementation_def w_def)
  note run = this [unfolded workload_sync_def, folded N_def]
  show ?thesis
  proof (cases "result = Success")
    case True
    then have m: "in_step N N N w'" using s by simp
    have "\<forall>i \<in> set (ws_result (wl_stats w')). \<exists>t > 0. i = Item_integer t" using m by (simp add: in_step_def)
    then obtain ts where ts: "ws_result (wl_stats w') = map Item_integer ts" "\<forall>t \<in> set ts. 0 < t"
      using integer_items by metis
    then have l: "length ts = N" using m by (metis in_step_def length_map)
    have shown: "WorkloadStatistics_text show_double (wl_stats w') = concat (map (\<lambda>t. to_string t @ '' '') ts)"
      using ts(1) by (simp add: WorkloadStatistics_text_def comp_def)
    have ne: "concat (map (\<lambda>t. to_string t @ '' '') ts) \<noteq> []" using l \<open>0 < N\<close> by auto
    then show ?thesis
      using run m True ts l
      by (simp add: Workload_run_def Let_def N_def [symmetric] shown writeToMeasurements_def in_step_def toProcessResult_def)
        blast
  next
    case False
    have "executeRemainingSynchronizations (wl_sync w') (wl_io w') =
      Ok ((wl_sync w')\<lparr>synchronizationCount := N\<rparr>,
          (wl_io w')\<lparr>sync_input := [], sync_output := replicate a synchronizationChar @ replicate (N - a) synchronizationChar\<rparr>)"
      using executeRemainingSynchronizations_signalled [of "wl_sync w'" "wl_io w'" "N - a" "[]"] s by (simp add: in_step_def)
    moreover have "TestResult_code result \<noteq> 0" using False by (cases result) simp_all
    ultimately show ?thesis
      using run False s
      by (simp add: Workload_run_def Let_def N_def [symmetric] toProcessResult_def in_step_def flip: replicate_add)
  qed
qed

end
