(* ===== verification/Hello_World.thy ===== *)
theory Hello_World
  imports Driver_Programs Opencl
begin

text \<open>
  The example workloads \<open>workloads/hello_world_workload_ocl\<close> and \<open>workloads/hello_world_template_workload_ocl\<close>, whose code
  is the same but for comments: a kernel that adds one to each number of a buffer, launched again and again, and the check of its
  results.

  Each launch is finished before anything else is enqueued, so \<open>wl_memory\<close> is the buffer as the next command finds it
  also when the queue is out of order. Numbers of elements and of iterations are below \<open>2 ^ 32\<close>, the range of the loop counters.
\<close>

section \<open>Arguments\<close>

definition HelloWorldArguments_fields :: "(string \<times> string \<times> arg_value) list" where
  "HelloWorldArguments_fields = [
     (''numberOfElements'', ''Number of elements to process'', Arg_PositiveInteger 0),
     (''useEvents'', ''Use events for measuring'', Arg_Boolean 0)]"

definition HelloWorldArguments :: ArgumentContainer where
  "HelloWorldArguments = make_WorkloadArgumentContainer (map (\<lambda>(k, h, v). make_Argument k (Some h) v) HelloWorldArguments_fields)"

section \<open>Calls\<close>

datatype cl_call =
    Now | Create_program string | Build_program | Create_cl_kernel string | Create_buffer nat | Set_kernel_arg
  | Enqueue_kernel nat bool | Finish_queue | Release_event | Read_buffer nat | Release_buffer | Release_kernel | Release_program

definition kernelSource :: string where
  "kernelSource = [newline] @ ''       __kernel void addOne(__global uint *results) {'' @ [newline] @
     ''            results[get_global_id(0)]++;'' @ [newline] @ ''       }'' @ [newline] @ ''    ''"

text \<open>The work items of the kernel, each of which has its global id.\<close>

definition addOne :: "nat \<Rightarrow> 32 word list \<Rightarrow> 32 word list" where
  "addOne gws results = fold (\<lambda>global_id results. results[global_id := results ! global_id + 1]) [0..<gws] results"

definition cpuBuffer :: "nat \<Rightarrow> 32 word list" where
  "cpuBuffer numberOfElements = map word_of_nat [0..<numberOfElements]"

definition write_memory :: "32 word list \<Rightarrow> (cl_call, 's) continuation \<Rightarrow> (cl_call, 's) continuation" where
  "write_memory m k w = k (w\<lparr>wl_memory := m\<rparr>)"

definition launch_addOne :: "cl_call environment \<Rightarrow> nat \<Rightarrow> bool \<Rightarrow> (cl_call, 's) continuation \<Rightarrow> (cl_call, 's) continuation" where
  "launch_addOne env gws event k =
     success_or_error env (Enqueue_kernel gws event) (\<lambda>_ w. write_memory (addOne gws (wl_memory w)) k w)"

section \<open>The workload\<close>

text \<open>
  \<open>profiling\<close> has the time stamps of the event of a launch. The unit and the type of the measurement are given, although
  the statistics of a workload do not take them.
\<close>

definition push_hello ::
  "Configuration \<Rightarrow> cl_call environment \<Rightarrow> ((cl_call \<times> int \<times> int) list \<Rightarrow> profiling_info \<Rightarrow> int \<times> 64 word)
    \<Rightarrow> ('s \<Rightarrow> Measurement \<Rightarrow> 's result) \<Rightarrow> bool \<Rightarrow> (cl_call, 's) continuation \<Rightarrow> (cl_call, 's) continuation" where
  "push_hello cfg env profiling push useEvents k =
     (if useEvents
      then (\<lambda>w. case getEventDurationInNanoseconds (cfg_flag cfg ''forceSubmissionProfiling'') (profiling (wl_trace w)) 0 of
              (code, timeNs) \<Rightarrow>
                if code \<noteq> 0 then finish Error w
                else success_or_error env Release_event (\<lambda>_.
                       push_measurement push (\<lambda>_. pushTime (sint timeNs) Microseconds Gpu []) k) w)
      else push_measurement push (timer_value Microseconds Cpu) k)"

definition hello_iteration ::
  "Configuration \<Rightarrow> cl_call environment \<Rightarrow> ((cl_call \<times> int \<times> int) list \<Rightarrow> profiling_info \<Rightarrow> int \<times> 64 word)
    \<Rightarrow> ('s \<Rightarrow> Measurement \<Rightarrow> 's result) \<Rightarrow> nat \<Rightarrow> bool \<Rightarrow> (cl_call, 's) continuation \<Rightarrow> (cl_call, 's) continuation" where
  "hello_iteration cfg env profiling push gws useEvents k =
     wait_for_parent (
     start_timer env Now (
     launch_addOne env gws useEvents (
     all_successful env [Finish_queue] (
     stop_timer env Now (
     push_hello cfg env profiling push useEvents k)))))"

definition is_expected :: "nat \<Rightarrow> nat \<Rightarrow> 32 word list \<Rightarrow> bool" where
  "is_expected numberOfElements iterations results =
     list_all (\<lambda>i. results ! i = word_of_nat i + 1 + word_of_nat iterations) [0..<numberOfElements]"

definition hello_opencl :: "Configuration \<Rightarrow> cl_platform list \<Rightarrow> ArgumentContainer \<Rightarrow> Opencl result" where
  "hello_opencl cfg platforms arguments =
     bindR (OCL_QueueProperties_create cfg) (\<lambda>queueProperties.
       make_Opencl platforms (cfg_int cfg ''useOOQ'' \<noteq> 0) (cfg_int cfg ''oclPlatformIndex'') (nat (cfg_int cfg ''oclDeviceIndex''))
         (setProfiling queueProperties (arg_int arguments ''useEvents'' \<noteq> 0)) (OCL_ContextProperties_create cfg))"

definition hello_world_run ::
  "Configuration \<Rightarrow> Opencl result \<Rightarrow> cl_call environment \<Rightarrow> ((cl_call \<times> int \<times> int) list \<Rightarrow> profiling_info \<Rightarrow> int \<times> 64 word)
    \<Rightarrow> ('s \<Rightarrow> Measurement \<Rightarrow> 's result) \<Rightarrow> ArgumentContainer \<Rightarrow> (cl_call, 's) continuation" where
  "hello_world_run cfg opencl env profiling push arguments =
     constructed opencl (\<lambda>opencl.
     if ocl_commandQueue opencl = None then finish DeviceNotCapable
     else let numberOfElements = nat (arg_int arguments ''numberOfElements'');
              useEvents = (arg_int arguments ''useEvents'' \<noteq> 0);
              iterations = nat (arg_int arguments ''iterations'');
              sizeInBytes = numberOfElements * 4 mod 2 ^ 64
          in all_successful env [Create_program kernelSource, Build_program, Create_cl_kernel ''addOne'', Create_buffer sizeInBytes] (
             write_memory (cpuBuffer numberOfElements) (
             all_successful env [Set_kernel_arg] (
             launch_addOne env numberOfElements False (
             all_successful env [Finish_queue] (
             iterate 0 iterations (\<lambda>_. hello_iteration cfg env profiling push numberOfElements useEvents) (
             all_successful env [Read_buffer sizeInBytes] (\<lambda>w.
               if \<not> is_expected numberOfElements iterations (wl_memory w) then finish VerificationFail w
               else all_successful env [Release_buffer, Release_kernel, Release_program] (finish Success) w))))))))"

text \<open>The template has the same code.\<close>

definition hello_world_template_run ::
  "Configuration \<Rightarrow> Opencl result \<Rightarrow> cl_call environment \<Rightarrow> ((cl_call \<times> int \<times> int) list \<Rightarrow> profiling_info \<Rightarrow> int \<times> 64 word)
    \<Rightarrow> ('s \<Rightarrow> Measurement \<Rightarrow> 's result) \<Rightarrow> ArgumentContainer \<Rightarrow> (cl_call, 's) continuation" where
  "hello_world_template_run = hello_world_run"

section \<open>The kernel\<close>

lemma addOne_prefix:
  "n \<le> length results \<Longrightarrow>
    fold (\<lambda>global_id results. results[global_id := results ! global_id + 1]) [0..<n] results =
      map (\<lambda>x. x + 1) (take n results) @ drop n (results :: 32 word list)"
proof (induction n)
  case (Suc n)
  then have "drop n results = results ! n # drop (Suc n) results" by (simp add: Cons_nth_drop_Suc)
  then show ?case using Suc by (simp add: take_Suc_conv_app_nth list_update_append nth_append)
qed simp

lemma addOne_nth:
  assumes "gws \<le> length results" "i < length results"
  shows "addOne gws results ! i = results ! i + (if i < gws then 1 else 0)" "length (addOne gws results) = length results"
  using assms by (auto simp: addOne_def addOne_prefix nth_append)

lemma launches_nth:
  assumes "\<forall>gws \<in> set launches. gws \<le> length results" "i < length results"
  shows "fold addOne launches results ! i = results ! i + word_of_nat (length (filter (\<lambda>gws. i < gws) launches))"
  using assms by (induction launches arbitrary: results) (simp_all add: addOne_nth)

lemma word_of_nat_eq_mod: "word_of_nat a = (word_of_nat b :: 32 word) \<longleftrightarrow> a mod 2 ^ 32 = b mod 2 ^ 32"
  by (simp add: word_of_nat_eq_iff take_bit_eq_mod)

text \<open>
  C13: What the check of the results checks: on a buffer that held its indices, after any launches of the kernel over some of the
  first elements each, it passes exactly when every element was incremented once more than there are iterations, the one for the
  warmup, modulo \<open>2 ^ 32\<close>, the range of an element. A launch that is lost, made twice or made over fewer elements is noticed.
\<close>

theorem hello_world_check_counts_launches:
  assumes "\<forall>gws \<in> set launches. gws \<le> numberOfElements"
  shows "is_expected numberOfElements iterations (fold addOne launches (cpuBuffer numberOfElements)) \<longleftrightarrow>
    (\<forall>i < numberOfElements. length (filter (\<lambda>gws. i < gws) launches) mod 2 ^ 32 = (iterations + 1) mod 2 ^ 32)"
proof -
  have "fold addOne launches (cpuBuffer numberOfElements) ! i = word_of_nat i + 1 + word_of_nat iterations \<longleftrightarrow>
      length (filter (\<lambda>gws. i < gws) launches) mod 2 ^ 32 = (iterations + 1) mod 2 ^ 32" if "i < numberOfElements" for i
    unfolding word_of_nat_eq_mod [symmetric] using launches_nth [of launches "cpuBuffer numberOfElements" i] assms that
    by (simp add: cpuBuffer_def add.assoc)
  then show ?thesis by (auto simp: is_expected_def list_all_iff)
qed

text \<open>The warmup and three iterations over two elements pass; if the last is over one element only, they do not.\<close>

theorem hello_world_check_counts_launches_witness:
  "is_expected 2 3 (fold addOne [2, 2, 2, 2] (cpuBuffer 2)) \<and> \<not> is_expected 2 3 (fold addOne [2, 2, 2, 1] (cpuBuffer 2))"
  using hello_world_check_counts_launches [of "[2, 2, 2, 2]" 2 3] hello_world_check_counts_launches [of "[2, 2, 2, 1]" 2 3]
  by (auto intro!: exI [of _ 1])

section \<open>With the statistics of a workload\<close>

text \<open>Two elements, three iterations timed with events.\<close>

definition example_hello_arguments :: ArgumentContainer where
  "example_hello_arguments = foldl assign_field HelloWorldArguments
     [(''iterations'', Arg_PositiveInteger 3), (''numberOfElements'', Arg_PositiveInteger 2), (''useEvents'', Arg_Boolean 1)]"

lemma example_hello_values:
  "arg_int example_hello_arguments ''iterations'' = 3" "arg_int example_hello_arguments ''numberOfElements'' = 2"
  "validateArguments (\<lambda>_. True) example_hello_arguments = Ok True"
  by code_simp+

definition example_opencl :: "Opencl result" where
  "example_opencl = Ok ((OCL_fresh undefined 0)\<lparr>ocl_commandQueue := Some 1\<rparr>)"

text \<open>Results a program cannot end with.\<close>

definition avoids :: "TestResult set \<Rightarrow> ('c, 's) outcome \<Rightarrow> bool" where
  "avoids R r \<longleftrightarrow> (case r of Inl _ \<Rightarrow> True | Inr None \<Rightarrow> False | Inr (Some (result, _)) \<Rightarrow> result \<notin> R)"

lemma avoids_simps [simp]:
  "avoids R (Inl e)" "avoids R (finish result w) \<longleftrightarrow> result \<notin> R"
  by (simp_all add: avoids_def finish_def)

lemma avoids_call:
  assumes "Error \<in> R \<Longrightarrow> fst (env (wl_trace w) c) = 0" "\<And>v w. avoids R (k v w)"
  shows "avoids R (success_or_error env c k w)"
  using assms by (cases "env (wl_trace w) c") (auto simp: success_or_error_def invoke_def)

lemma avoids_calls:
  assumes "Error \<in> R \<Longrightarrow> \<forall>t c. fst (env t c) = 0" "\<And>w. avoids R (k w)"
  shows "avoids R (all_successful env cs k w)"
proof (induction cs arbitrary: w)
  case (Cons c cs)
  show ?case unfolding all_successful_def foldr.simps comp_def
    by (rule avoids_call) (use assms(1) Cons in \<open>simp_all add: all_successful_def\<close>)
qed (simp add: all_successful_def assms(2))

lemma avoids_rules:
  "(\<And>code v w. avoids R (j code v w)) \<Longrightarrow> avoids R (invoke env c j w)"
  "(\<And>w. avoids R (l w)) \<Longrightarrow> avoids R (write_memory m l w)"
  "(\<And>w. avoids R (l w)) \<Longrightarrow> avoids R (wait_for_parent l w)"
  "(\<And>x w. r = Ok x \<Longrightarrow> avoids R (h x w)) \<Longrightarrow> avoids R (constructed r h w)"
  by (auto simp: invoke_def write_memory_def wait_for_parent_def constructed_def bindR_def split: prod.split sum.split)

lemma avoids_push:
  assumes "Error \<in> R \<Longrightarrow> \<forall>t c. fst (env t c) = 0" "Error \<in> R \<Longrightarrow> \<forall>t i. fst (profiling t i) = 0"
  shows "avoids R (push_hello cfg env profiling WorkloadStatistics_push useEvents k w)"
proof -
  have "avoids R (push_measurement WorkloadStatistics_push (\<lambda>_. pushTime t Microseconds Gpu []) k w)" for t w
    by (simp add: push_measurement_def ws_push_item_def FATAL_ERROR_IF_def)
  moreover have "avoids R (push_measurement WorkloadStatistics_push (timer_value Microseconds Cpu) k w)"
    by (simp add: push_measurement_def timer_value_def ws_push_item_def FATAL_ERROR_IF_def)
  ultimately show ?thesis using assms
    by (auto simp: push_hello_def getEventDurationInNanoseconds_def Let_def split: prod.split intro!: avoids_call)
qed

lemma avoids_iteration:
  assumes "Error \<in> R \<Longrightarrow> \<forall>t c. fst (env t c) = 0" "Error \<in> R \<Longrightarrow> \<forall>t i. fst (profiling t i) = 0"
  shows "avoids R (hello_iteration cfg env profiling WorkloadStatistics_push n useEvents k w)"
  unfolding hello_iteration_def start_timer_def stop_timer_def launch_addOne_def
  using assms(1) by (auto split: prod.split intro!: avoids_rules avoids_call avoids_calls avoids_push [OF assms])

lemma hello_world_avoids:
  assumes "0 < nat (arg_int arguments ''iterations'')" "Error \<in> R \<Longrightarrow> \<forall>t c. fst (env t c) = 0"
    "Error \<in> R \<Longrightarrow> \<forall>t i. fst (profiling t i) = 0" "\<And>ocl. DeviceNotCapable \<in> R \<Longrightarrow> opencl = Ok ocl \<Longrightarrow> ocl_commandQueue ocl \<noteq> None"
  shows "avoids R (hello_world_run cfg opencl env profiling WorkloadStatistics_push arguments w)"
proof -
  obtain i where "nat (arg_int arguments ''iterations'') = Suc i" using assms(1) by (metis Suc_pred)
  then show ?thesis
    unfolding hello_world_run_def launch_addOne_def Let_def using assms(2,4)
    by (auto intro!: avoids_rules avoids_call avoids_calls avoids_iteration [OF assms(2,3)])
qed

lemma TestResult_code_zero: "TestResult_code r = 0 \<longleftrightarrow> r = Success"
  by (cases r) simp_all

text \<open>
  C12: Run as a process, the example workload and its template never succeed: the statistics of a workload refuse a measurement with a
  unit or type, and both give microseconds and CPU or GPU, so that the first measurement stops the process. Whatever happens,
  the exit code is never zero; and if the arguments are valid, there is a queue and no call fails, the run always ends in a
  fatal error.
\<close>

theorem hello_world_never_succeeds:
  fixes cfg opencl env profiling show_double validateExtra arguments input
  defines "executed \<equiv> (\<lambda>program. Workload_run show_double
    (Some (as_implementation cfg (program cfg opencl env profiling WorkloadStatistics_push))) validateExtra arguments input)"
  assumes "0 < nat (arg_int arguments ''iterations'')" "program \<in> {hello_world_run, hello_world_template_run}"
  shows "(\<forall>sync io. executed program \<noteq> Ok (0, sync, io)) \<and>
    (validateArguments validateExtra arguments = Ok True \<and> (\<exists>ocl. opencl = Ok ocl \<and> ocl_commandQueue ocl \<noteq> None) \<and>
       (\<forall>t c. fst (env t c) = 0) \<and> (\<forall>t i. fst (profiling t i) = 0) \<longrightarrow> (\<exists>e. executed program = Inl e))"
proof -
  have p: "program = hello_world_run" using assms(3) by (auto simp: hello_world_template_run_def)
  have r: "avoids {Success} (hello_world_run cfg opencl env profiling WorkloadStatistics_push arguments w)" for w
    by (rule hello_world_avoids [OF assms(2)]) simp_all
  have r: "hello_world_run cfg opencl env profiling WorkloadStatistics_push arguments w \<noteq> Ok (Some (Success, w'))" for w w'
    using r [of w] by (auto simp: avoids_def)
  have "executed program \<noteq> Ok (0, sync, io)" for sync io
    using r unfolding executed_def p Workload_run_def Workload_runImpl_def as_implementation_def Let_def
    by (auto simp: bindR_def toProcessResult_def TestResult_code_zero split: sum.splits prod.splits option.splits if_splits)
  moreover have "\<exists>e. executed program = Inl e" if "validateArguments validateExtra arguments = Ok True" "opencl = Ok ocl" "ocl_commandQueue ocl \<noteq> None"
    "\<forall>t c. fst (env t c) = 0" "\<forall>t i. fst (profiling t i) = 0" for ocl
  proof -
    have u: "avoids UNIV (hello_world_run cfg opencl env profiling WorkloadStatistics_push arguments w)" for w
      by (rule hello_world_avoids [OF assms(2)]) (use that in simp_all)
    let ?w = "start_state cfg (make_WorkloadStatistics (nat (arg_int arguments ''iterations'')))
      (make_WorkloadSynchronization (nat (arg_int arguments ''iterations'')) (arg_int arguments ''synchronize'' \<noteq> 0))
      (WorkloadIo_create arguments input)"
    obtain e where "hello_world_run cfg opencl env profiling WorkloadStatistics_push arguments ?w = Inl e"
      using u [of ?w] by (auto simp: avoids_def split: sum.splits option.splits)
    then show ?thesis using that(1)
      by (simp add: executed_def p Workload_run_def Workload_runImpl_def as_implementation_def Let_def)
  qed
  ultimately show ?thesis by blast
qed

theorem hello_world_never_succeeds_witness:
  "\<exists>e. Workload_run (\<lambda>_. ''0'') (Some (as_implementation make_Configuration
     (hello_world_template_run make_Configuration example_opencl (\<lambda>_ _. (0, 0)) (\<lambda>_ _. (0, 5)) WorkloadStatistics_push)))
     (\<lambda>_. True) example_hello_arguments [] = Inl e"
proof -
  have q: "\<exists>ocl. example_opencl = Ok ocl \<and> ocl_commandQueue ocl \<noteq> None" by (simp add: example_opencl_def)
  show ?thesis
    using hello_world_never_succeeds [of example_hello_arguments hello_world_template_run "\<lambda>_. ''0''" make_Configuration example_opencl
        "\<lambda>_ _. (0, 0)" "\<lambda>_ _. (0, 5)" "\<lambda>_. True" "[]"] q
    by (simp add: example_hello_values)
qed

end
