(* ===== verification/Driver_Workloads.thy ===== *)
theory Driver_Workloads
  imports Driver_Programs Level_Zero "HOL-Library.Multiset"
begin

text \<open>
  The workloads that drive Level Zero: \<open>workloads/single_queue_workload_l0\<close>, \<open>single_queue_workload_shared_buffer_l0\<close>,
  \<open>immediate_cmdlist_copy_workload_l0\<close>, \<open>immediate_cmdlist_walker_submission_workload_l0\<close> and \<open>init_workload_l0\<close>, each the
  \<open>run\<close> function of the file as a program of theory Driver_Programs.

  A call of the driver is a constructor of \<open>ze_call\<close> with the arguments that matter here. The calls whose results
  are used hand out a number, e.g. a pointer. Files, the root devices and their queue groups are arguments. The counters of
  the loops have 32 bits in the code, so that the definitions are for fewer than \<open>2 ^ 32\<close> iterations.
\<close>

section \<open>Arguments\<close>

definition SingleQueueWorkloadArguments_fields :: "(string \<times> string \<times> arg_value) list" where
  "SingleQueueWorkloadArguments_fields = [
     (''operationsCount'', ''Number of redundant operations performed in kernel to make it take longer'', Arg_PositiveInteger 0),
     (''wgc'', ''Number of workgroups enqueued'', Arg_PositiveInteger 0),
     (''wgs'', ''Size of workgroups enqueued'', Arg_PositiveInteger 0)]"

definition SingleQueueWorkloadSharedBufferArguments_fields :: "(string \<times> string \<times> arg_value) list" where
  "SingleQueueWorkloadSharedBufferArguments_fields = [
     (''operationsCount'', ''Number of redundant operations performed in kernel to make it take longer'', Arg_PositiveInteger 0),
     (''wgc'', ''Number of workgroups enqueued'', Arg_PositiveInteger 0),
     (''wgs'', ''Size of workgroups enqueued'', Arg_PositiveInteger 0),
     (''bufferIpcHandle'', ''Handle of the LevelZero buffer acquired from zeMemGetIpcHandle'', Arg_Integer 0),
     (''bufferOffset'', ''Offset within the buffer described by IPC handle'', Arg_NonNegativeInteger 0)]"

definition ImmediateCmdListCopyWorkloadArguments_fields :: "(string \<times> string \<times> arg_value) list" where
  "ImmediateCmdListCopyWorkloadArguments_fields = [
     (''ordinal'', ''ordinal of engine group to be used'', Arg_Uint32 0),
     (''engineIndex'', ''physical engine index inside the engine group'', Arg_Uint32 0),
     (''copySize'', ''size in bytes to be used for copy operation'', Arg_PositiveInteger 0)]"

definition ImmediateCmdListWalkerSubmissionArguments_fields :: "(string \<times> string \<times> arg_value) list" where
  "ImmediateCmdListWalkerSubmissionArguments_fields = [
     (''ordinal'', ''ordinal of engine group to be used'', Arg_Uint32 0),
     (''engineIndex'', ''physical engine index inside the engine group'', Arg_Uint32 0)]"

definition InitArguments_fields :: "(string \<times> string \<times> arg_value) list" where
  "InitArguments_fields = [
     (''initFlag'', ''Initialization flag. For Level Zero: 0 - default, 1 - ZE_INIT_FLAG_GPU_ONLY, 2 - ZE_INIT_FLAG_VPU_ONLY'', Arg_Integer 0)]"

definition own_arguments :: "(string \<times> string \<times> arg_value) list \<Rightarrow> ArgumentContainer" where
  "own_arguments own = map (\<lambda>(k, h, v). make_Argument k (Some h) v) own"

text \<open>The constructor of \<open>InitArguments\<close> turns synchronization on.\<close>

definition make_InitArguments :: ArgumentContainer where
  "make_InitArguments =
     assign_field (make_WorkloadArgumentContainer (own_arguments InitArguments_fields)) (''synchronize'', Arg_Boolean (BooleanArgument_assign True))"

section \<open>Calls\<close>

datatype ze_call =
    Read_clock | Init "32 word" | Get_sub_devices | Get_queue_group_count | Get_queue_groups
  | Alloc_device nat | Open_ipc_handle int | Usm_allocate UsmMemoryPlacement nat | Free_memory int | Close_ipc_handle int
  | Make_resident int nat | Evict int nat
  | Create_module "8 word list" | Destroy_module | Create_kernel string | Set_group_size "32 word" | Set_pointer_argument int
  | Set_count_argument "32 word" | Destroy_kernel
  | Create_command_list | Create_immediate_list nat nat | Append_launch "32 word" | Append_copy int int nat | Close_command_list
  | Reset_command_list | Destroy_command_list
  | Execute_command_list | Synchronize_queue
  | Create_event_pool | Create_event | Synchronize_event | Reset_event | Destroy_event | Destroy_event_pool

text \<open>\<open>LevelZero levelzero{}\<close>.\<close>

definition default_LevelZero :: "Configuration \<Rightarrow> ze_driver list \<Rightarrow> LevelZero result" where
  "default_LevelZero cfg drivers =
     bindR (QueueProperties_create cfg) (\<lambda>queueProperties.
       make_LevelZero drivers (nat (cfg_int cfg ''l0DriverIndex'')) (nat (cfg_int cfg ''l0DeviceIndex''))
         queueProperties (ContextProperties_create cfg) ExtensionProperties_create)"

definition queue_groups :: "LevelZero \<Rightarrow> ze_command_queue_group_properties list" where
  "queue_groups lz = (case lz_device lz of None \<Rightarrow> [] | Some d \<Rightarrow> drv_groups (lz_driver lz) d)"

section \<open>Launching a kernel again and again\<close>

definition totalThreadsCount :: "ArgumentContainer \<Rightarrow> nat" where
  "totalThreadsCount arguments = nat ((arg_int arguments ''wgs'' * arg_int arguments ''wgc'') mod 2 ^ 64)"

definition bufferSizeInBytes :: "ArgumentContainer \<Rightarrow> nat" where
  "bufferSizeInBytes arguments = (totalThreadsCount arguments * 4) mod 2 ^ 64"

text \<open>The kernel, the command list and the launches, which both workloads on a single queue have in common.\<close>

definition run_increment ::
  "ze_call environment \<Rightarrow> ('s \<Rightarrow> Measurement \<Rightarrow> 's result) \<Rightarrow> file_system \<Rightarrow> ArgumentContainer \<Rightarrow> int
    \<Rightarrow> (ze_call, 's) continuation \<Rightarrow> (ze_call, 's) continuation" where
  "run_increment env push files arguments buffer k =
     (let spirvModule = loadBinaryFile files ''single_queue_workload_increment.spv'' in
      if length spirvModule = 0 then finish KernelNotFound
      else all_successful env
             [Create_module spirvModule, Create_kernel ''increment'', Set_group_size (word_of_int (arg_int arguments ''wgs'')),
              Set_pointer_argument buffer, Set_count_argument (word_of_int (arg_int arguments ''operationsCount'')),
              Create_command_list, Append_launch (word_of_int (arg_int arguments ''wgc'')), Close_command_list,
              Execute_command_list, Synchronize_queue]
        (iterate 0 (nat (arg_int arguments ''iterations'')) (\<lambda>_ k.
           wait_for_parent (
           start_timer env Read_clock (
           all_successful env [Execute_command_list, Synchronize_queue] (
           stop_timer env Read_clock (
           push_measurement push (timer_value MU_Unknown MT_Unknown) k))))) k))"

definition single_queue_run ::
  "LevelZero result \<Rightarrow> ze_call environment \<Rightarrow> ('s \<Rightarrow> Measurement \<Rightarrow> 's result) \<Rightarrow> file_system \<Rightarrow> ArgumentContainer
    \<Rightarrow> (ze_call, 's) continuation" where
  "single_queue_run levelzero env push files arguments =
     constructed levelzero (\<lambda>_.
     success_or_error env Get_sub_devices (\<lambda>tilesCount.
       if tilesCount > 1 then finish DeviceNotCapable
       else success_or_error env (Alloc_device (bufferSizeInBytes arguments)) (\<lambda>buffer.
            all_successful env [Make_resident buffer (bufferSizeInBytes arguments)] (
            run_increment env push files arguments buffer (
            all_successful env [Evict buffer (bufferSizeInBytes arguments), Destroy_command_list, Destroy_kernel, Destroy_module,
              Free_memory buffer]
            (finish Success))))))"

text \<open>
  The handle is copied from the 64-bit integer given as an argument. The pages made resident start at the base of the shared
  buffer, those evicted at the offset of this process.
\<close>

definition shared_buffer_run ::
  "LevelZero result \<Rightarrow> ze_call environment \<Rightarrow> ('s \<Rightarrow> Measurement \<Rightarrow> 's result) \<Rightarrow> file_system \<Rightarrow> ArgumentContainer
    \<Rightarrow> (ze_call, 's) continuation" where
  "shared_buffer_run levelzero env push files arguments =
     constructed levelzero (\<lambda>_.
     success_or_error env Get_sub_devices (\<lambda>tilesCount.
       if tilesCount > 1 then finish DeviceNotCapable
       else success_or_error env (Open_ipc_handle (arg_int arguments ''bufferIpcHandle'')) (\<lambda>bufferBase.
            let buffer = bufferBase + arg_int arguments ''bufferOffset'' in
            all_successful env [Make_resident bufferBase (bufferSizeInBytes arguments)] (
            run_increment env push files arguments buffer (
            all_successful env [Evict buffer (bufferSizeInBytes arguments), Destroy_command_list, Destroy_kernel, Destroy_module,
              Close_ipc_handle bufferBase]
            (finish Success))))))"

section \<open>Immediate command lists\<close>

text \<open>The check of the queue both workloads start with.\<close>

definition validate_queue ::
  "ze_call environment \<Rightarrow> LevelZero \<Rightarrow> ArgumentContainer \<Rightarrow> (nat \<Rightarrow> nat \<Rightarrow> (ze_call, 's) continuation) \<Rightarrow> (ze_call, 's) continuation" where
  "validate_queue env lz arguments k =
     success_or_error env Get_queue_group_count (\<lambda>_.
       let ordinal = nat (arg_int arguments ''ordinal''); engineIndex = nat (arg_int arguments ''engineIndex'') in
       if queue_groups lz = [] then (\<lambda>w. FATAL_ERROR ''No queue group properties found!'')
       else success_or_error env Get_queue_groups (\<lambda>_.
              if ordinal \<ge> length (queue_groups lz) then finish InvalidArgs
              else if engineIndex \<ge> numQueues (queue_groups lz ! ordinal) then finish InvalidArgs
              else k ordinal engineIndex))"

text \<open>The results of the last two calls of a pass of the warmup and those of releasing the memory are not looked at.\<close>

definition copy_run ::
  "LevelZero result \<Rightarrow> ze_call environment \<Rightarrow> ('s \<Rightarrow> Measurement \<Rightarrow> 's result) \<Rightarrow> ArgumentContainer \<Rightarrow> (ze_call, 's) continuation" where
  "copy_run levelzero env push arguments =
     constructed levelzero (\<lambda>lz.
     validate_queue env lz arguments (\<lambda>ordinal engineIndex.
     let copySize = nat (arg_int arguments ''copySize'') in
     all_successful env [Create_event_pool, Create_immediate_list ordinal engineIndex, Create_event] (
     success_or_error env (Usm_allocate UMP_Host copySize) (\<lambda>hostSrcMemory.
     success_or_error env (Usm_allocate UMP_Device copySize) (\<lambda>deviceDstMemory.
     iterate 0 5 (\<lambda>_ k.
       all_successful env [Append_copy deviceDstMemory hostSrcMemory copySize] (
       ignore_result env Synchronize_event (ignore_result env Reset_event k)))
    (iterate 0 (nat (arg_int arguments ''iterations'')) (\<lambda>_ k.
       wait_for_parent (
       start_timer env Read_clock (
       all_successful env [Append_copy deviceDstMemory hostSrcMemory copySize, Synchronize_event] (
       stop_timer env Read_clock (
       all_successful env [Reset_event] (
       push_measurement push (timer_value MU_Unknown MT_Unknown) k))))))
    (ignore_result env (Free_memory hostSrcMemory) (
     ignore_result env (Free_memory deviceDstMemory) (
     all_successful env [Destroy_event, Destroy_event_pool, Destroy_command_list] (finish Success))))))))))"

text \<open>
  The walker busy-waits until it reads the one its kernel writes. \<open>seen\<close> has the values it reads in turn; the loop need not
  end.
\<close>

partial_function (option) spin :: "(nat \<Rightarrow> int) \<Rightarrow> nat \<Rightarrow> nat option" where
  "spin seen j = (if seen j \<noteq> 1 then spin seen (j + 1) else Some j)"

definition busy_wait :: "((ze_call \<times> int \<times> int) list \<Rightarrow> nat \<Rightarrow> int) \<Rightarrow> (ze_call, 's) continuation \<Rightarrow> (ze_call, 's) continuation" where
  "busy_wait observed k w = (case spin (observed (wl_trace w)) 0 of None \<Rightarrow> Ok None | Some _ \<Rightarrow> k w)"

definition walker_run ::
  "LevelZero result \<Rightarrow> ze_call environment \<Rightarrow> ('s \<Rightarrow> Measurement \<Rightarrow> 's result) \<Rightarrow> file_system
    \<Rightarrow> ((ze_call \<times> int \<times> int) list \<Rightarrow> nat \<Rightarrow> int) \<Rightarrow> ArgumentContainer \<Rightarrow> (ze_call, 's) continuation" where
  "walker_run levelzero env push files observed arguments =
     constructed levelzero (\<lambda>lz.
     validate_queue env lz arguments (\<lambda>ordinal engineIndex.
     all_successful env [Create_event_pool] (
     let kernelBinary = loadBinaryFile files ''ulls_benchmark_write_one.spv''; bufferSize = 4096 in
     if length kernelBinary = 0 then finish KernelNotFound
     else all_successful env [Create_module kernelBinary] (
     success_or_error env (Usm_allocate UMP_Host bufferSize) (\<lambda>hostMemory.
     all_successful env
       [Make_resident hostMemory bufferSize, Create_immediate_list ordinal engineIndex, Create_kernel ''write_one'', Set_group_size 1,
        Set_pointer_argument hostMemory, Create_event] (
     iterate 0 5 (\<lambda>_ k. all_successful env [Append_launch 1, Synchronize_event, Reset_event] k)
    (iterate 0 (nat (arg_int arguments ''iterations'')) (\<lambda>_ k.
       wait_for_parent (
       start_timer env Read_clock (
       all_successful env [Append_launch 1] (
       busy_wait observed (
       stop_timer env Read_clock (
       all_successful env [Synchronize_event, Reset_event] (
       ignore_result env Reset_command_list (
       push_measurement push (timer_value MU_Unknown MT_Unknown) k))))))))
    (all_successful env
       [Evict hostMemory bufferSize, Destroy_kernel, Free_memory hostMemory, Destroy_command_list, Destroy_event, Destroy_module,
        Destroy_event_pool]
       (finish Success)))))))))"

section \<open>Initialisation\<close>

definition init_run :: "ze_call environment \<Rightarrow> ('s \<Rightarrow> Measurement \<Rightarrow> 's result) \<Rightarrow> ArgumentContainer \<Rightarrow> (ze_call, 's) continuation" where
  "init_run env push arguments =
     (let initFlag = arg_int arguments ''initFlag''; flags = (if initFlag = 1 then 1 else if initFlag = 2 then 2 else 0)
      in start_timer env Read_clock (
         stop_timer env Read_clock (
         iterate 0 (nat (arg_int arguments ''iterations'')) (\<lambda>i k.
           wait_for_parent (
           (if i = 0 then (\<lambda>k. start_timer env Read_clock (ignore_result env (Init flags) (stop_timer env Read_clock k))) else (\<lambda>k. k)) (
           push_measurement push (timer_value MU_Unknown MT_Unknown) k)))
         (finish Success))))"

section \<open>The executables\<close>

text \<open>No container checks more than its arguments do. \<open>init_workload_l0\<close> starts from \<open>make_InitArguments\<close> instead.\<close>

definition single_queue_main where
  "single_queue_main show_double cfg drivers env files =
     Workload_runFromCommandLine show_double
       (Some (as_implementation cfg (single_queue_run (default_LevelZero cfg drivers) env WorkloadStatistics_push files)))
       (\<lambda>_. True) (own_arguments SingleQueueWorkloadArguments_fields)"

definition shared_buffer_main where
  "shared_buffer_main show_double cfg drivers env files =
     Workload_runFromCommandLine show_double
       (Some (as_implementation cfg (shared_buffer_run (default_LevelZero cfg drivers) env WorkloadStatistics_push files)))
       (\<lambda>_. True) (own_arguments SingleQueueWorkloadSharedBufferArguments_fields)"

definition copy_main where
  "copy_main show_double cfg drivers env =
     Workload_runFromCommandLine show_double
       (Some (as_implementation cfg (copy_run (default_LevelZero cfg drivers) env WorkloadStatistics_push)))
       (\<lambda>_. True) (own_arguments ImmediateCmdListCopyWorkloadArguments_fields)"

definition walker_main where
  "walker_main show_double cfg drivers env files observed =
     Workload_runFromCommandLine show_double
       (Some (as_implementation cfg (walker_run (default_LevelZero cfg drivers) env WorkloadStatistics_push files observed)))
       (\<lambda>_. True) (own_arguments ImmediateCmdListWalkerSubmissionArguments_fields)"

section \<open>What the parent sees\<close>

lemmas in_step_rules = in_step_wait in_step_start_timer in_step_stop_timer in_step_push in_step_all_successful sat_finish

text \<open>A loop of \<open>N\<close> passes each of which waits for the parent and pushes one measurement.\<close>

lemma measuring_loop_settled:
  assumes "in_step N 0 0 w" "\<And>w'. in_step N N N w' \<Longrightarrow> sat (settled N) (k w')"
    and "\<And>j k w. in_step N j j w \<Longrightarrow> j < N \<Longrightarrow> (\<And>w'. in_step N (Suc j) (Suc j) w' \<Longrightarrow> sat (settled N) (k w')) \<Longrightarrow>
      sat (settled N) (body j k w)"
  shows "sat (settled N) (iterate 0 N body k w)"
  using assms by (intro sat_iterate [where I = "\<lambda>j. in_step N j j"]) simp_all

lemma warmup_loop_settled:
  assumes "in_step N 0 0 w" "\<And>w'. in_step N 0 0 w' \<Longrightarrow> sat (settled N) (k w')"
    and "\<And>j k w. in_step N 0 0 w \<Longrightarrow> (\<And>w'. in_step N 0 0 w' \<Longrightarrow> sat (settled N) (k w')) \<Longrightarrow> sat (settled N) (body j k w)"
  shows "sat (settled N) (iterate 0 n body k w)"
  using assms by (intro sat_iterate [where I = "\<lambda>_. in_step N 0 0"]) simp_all

lemma settled_between: "in_step N a m w \<Longrightarrow> a \<le> N \<Longrightarrow> m \<le> N \<Longrightarrow> settled N Error w"
  by (auto simp: settled_def)

lemma settled_calls:
  assumes "in_step N a m w" "a \<le> N" "m \<le> N" "\<And>w'. in_step N a m w' \<Longrightarrow> sat (settled N) (k w')"
  shows "sat (settled N) (all_successful env cs k w)"
  using assms by (intro in_step_all_successful) (auto intro: settled_between)

lemma settled_call:
  assumes "in_step N a m w" "a \<le> N" "m \<le> N" "\<And>v w'. in_step N a m w' \<Longrightarrow> sat (settled N) (k v w')"
  shows "sat (settled N) (success_or_error env c k w)"
  using assms by (intro sat_success_or_error) (auto intro: settled_between)

lemma settled_ignore:
  assumes "in_step N a m w" "\<And>w'. in_step N a m w' \<Longrightarrow> sat (settled N) (k w')"
  shows "sat (settled N) (ignore_result env c k w)"
  using assms by (intro sat_ignore_result) simp

lemma settled_early: "in_step N a m w \<Longrightarrow> a \<le> N \<Longrightarrow> m \<le> N \<Longrightarrow> result \<noteq> Success \<Longrightarrow> sat (settled N) (finish result w)"
  by (intro sat_finish settledI)

lemma settled_end: "in_step N N N w \<Longrightarrow> sat (settled N) (finish Success w)"
  by (intro sat_finish settled_success)

lemmas settled_rules = in_step_wait in_step_start_timer in_step_stop_timer in_step_push settled_calls settled_call settled_ignore
  settled_early settled_end

lemma run_increment_settled:
  assumes "in_step N 0 0 w" "N = nat (arg_int arguments ''iterations'')" "\<And>w'. in_step N N N w' \<Longrightarrow> sat (settled N) (k w')"
  shows "sat (settled N) (run_increment env WorkloadStatistics_push files arguments buffer k w)"
proof (cases "loadBinaryFile files ''single_queue_workload_increment.spv'' = []")
  case True
  then show ?thesis using assms(1) by (simp add: run_increment_def settled_early)
next
  case False
  then show ?thesis unfolding run_increment_def assms(2) [symmetric]
    using assms(1,3)
    by simp (rule settled_calls, assumption, simp, simp, rule measuring_loop_settled, assumption, simp,
        (rule settled_rules | assumption | simp)+)
qed

lemma single_queue_settled:
  assumes "in_step N 0 0 w" "N = nat (arg_int arguments ''iterations'')"
  shows "sat (settled N) (single_queue_run (Ok lz) env WorkloadStatistics_push files arguments w)"
  unfolding single_queue_run_def
  by (rule sat_constructed [OF refl])
    (rule settled_call run_increment_settled [OF _ assms(2)] | rule settled_rules assms(1) | assumption | simp split: if_split | intro conjI impI)+

lemma shared_buffer_settled:
  assumes "in_step N 0 0 w" "N = nat (arg_int arguments ''iterations'')"
  shows "sat (settled N) (shared_buffer_run (Ok lz) env WorkloadStatistics_push files arguments w)"
  unfolding shared_buffer_run_def Let_def
  by (rule sat_constructed [OF refl])
    (rule settled_call run_increment_settled [OF _ assms(2)] | rule settled_rules assms(1) | assumption | simp split: if_split | intro conjI impI)+

lemma validate_queue_settled:
  assumes "in_step N 0 0 w" "queue_groups lz \<noteq> []"
    and "\<And>ordinal engineIndex w'. in_step N 0 0 w' \<Longrightarrow> sat (settled N) (k ordinal engineIndex w')"
  shows "sat (settled N) (validate_queue env lz arguments k w)"
  unfolding validate_queue_def Let_def if_not_P [OF assms(2)]
  by (rule settled_call [OF assms(1)], simp, simp, rule settled_call, assumption, simp, simp)
    (auto intro: settled_early assms(3) split: if_split)

lemma copy_settled:
  assumes "in_step N 0 0 w" "N = nat (arg_int arguments ''iterations'')" "queue_groups lz \<noteq> []"
  shows "sat (settled N) (copy_run (Ok lz) env WorkloadStatistics_push arguments w)"
  unfolding copy_run_def Let_def assms(2) [symmetric]
  by (rule sat_constructed [OF refl], rule validate_queue_settled [OF assms(1,3)])
    (rule settled_calls warmup_loop_settled measuring_loop_settled | rule settled_rules | assumption | simp)+

lemma spin_ends:
  assumes "seen j = 1" "i \<le> j"
  shows "\<exists>l. spin seen i = Some l"
  using assms(2)
proof (induction "j - i" arbitrary: i)
  case 0
  then show ?case using assms(1) by (simp add: spin.simps)
next
  case (Suc d)
  then show ?case using Suc.hyps(1) [of "i + 1"] by (subst spin.simps) (cases "seen i = 1"; simp)
qed

lemma busy_wait_settled:
  assumes "\<And>t. \<exists>j. observed t j = 1" "sat Q (k w)"
  shows "sat Q (busy_wait observed k w)"
proof -
  obtain j where "observed (wl_trace w) j = 1" using assms(1) by blast
  with spin_ends [of "observed (wl_trace w)" j 0] assms(2) show ?thesis by (auto simp: busy_wait_def)
qed

lemma walker_settled:
  assumes "in_step N 0 0 w" "N = nat (arg_int arguments ''iterations'')" "queue_groups lz \<noteq> []" "\<And>t. \<exists>j. observed t j = 1"
  shows "sat (settled N) (walker_run (Ok lz) env WorkloadStatistics_push files observed arguments w)"
  unfolding walker_run_def Let_def assms(2) [symmetric]
  by (rule sat_constructed [OF refl], rule validate_queue_settled [OF assms(1,3)])
    (rule settled_calls warmup_loop_settled measuring_loop_settled busy_wait_settled [OF assms(4)] | rule settled_rules | assumption
      | simp split: if_split | intro conjI impI)+

lemma init_settled:
  assumes "in_step N 0 0 w" "N = nat (arg_int arguments ''iterations'')"
  shows "sat (settled N) (init_run env WorkloadStatistics_push arguments w)"
  unfolding init_run_def Let_def assms(2) [symmetric]
  by (rule in_step_start_timer, rule assms(1), rule in_step_stop_timer, assumption, rule measuring_loop_settled, assumption)
    (rule settled_rules | assumption | simp split: if_split | intro conjI impI)+

text \<open>
  C10: The workloads that drive Level Zero never leave their parent waiting: whatever the driver answers to each call, whatever
  the clock shows and whether or not the kernel is found, a workload on valid arguments whose parent sends its signals
  returns with an exit code after announcing exactly the iterations it was asked for and taking every signal, and writes one
  positive time per iteration if the code is zero and nothing otherwise. The wrapper has been constructed, the device has a
  queue group, and the walker does at some time read the one its kernel writes.
\<close>

theorem driver_workloads_complete:
  assumes "program \<in> {single_queue_run levelzero env WorkloadStatistics_push files,
      shared_buffer_run levelzero env WorkloadStatistics_push files, copy_run levelzero env WorkloadStatistics_push,
      walker_run levelzero env WorkloadStatistics_push files observed, init_run env WorkloadStatistics_push}"
    and "levelzero = Ok lz" "queue_groups lz \<noteq> []" "\<And>t. \<exists>j. observed t j = 1"
    and "N = nat (arg_int arguments ''iterations'')" "0 < N" "N < 2 ^ 32"
    and "validateArguments validateExtra arguments = Ok True" "arg_int arguments ''synchronize'' \<noteq> 0"
      "wrap_i32 (arg_int arguments ''synchronizationPipeIn'') \<noteq> 0" "wrap_i32 (arg_int arguments ''synchronizationPipeOut'') \<noteq> 0"
      "wrap_i32 (arg_int arguments ''measurementPipe'') \<noteq> 0"
  shows "\<exists>code sync io ts. Workload_run show_double (Some (as_implementation cfg program)) validateExtra arguments
             (replicate N synchronizationChar) = Ok (code, sync, io) \<and>
           sync_output io = replicate N synchronizationChar \<and> sync_input io = [] \<and>
           measurements_output io = concat (map (\<lambda>t. to_string t @ '' '') ts) \<and> (\<forall>t \<in> set ts. 0 < t) \<and>
           length ts = (if code = 0 then N else 0)"
proof -
  note start = in_step_start [of arguments cfg, OF assms(9-12), folded assms(5)]
  have "sat (settled N) (program arguments (start_state cfg (make_WorkloadStatistics N) (workload_sync arguments)
      (WorkloadIo_create arguments (replicate N synchronizationChar))))"
    using assms(1) unfolding assms(2)
    by (auto intro: single_queue_settled [OF start assms(5)] shared_buffer_settled [OF start assms(5)]
        copy_settled [OF start assms(5,3)] walker_settled [OF start assms(5,3,4)] init_settled [OF start assms(5)])
  from settled_workload_completes [where program = program, OF assms(8), folded assms(5), OF assms(6) this]
  show ?thesis by blast
qed

text \<open>The copy workload, asked for three copies of 64 bytes on the first engine, with a driver that hands out ones.\<close>

definition example_copy_arguments :: ArgumentContainer where
  "example_copy_arguments =
     foldl assign_field (make_WorkloadArgumentContainer (own_arguments ImmediateCmdListCopyWorkloadArguments_fields))
       [(''iterations'', Arg_PositiveInteger 3), (''synchronize'', Arg_Boolean 1), (''synchronizationPipeIn'', Arg_Integer 5),
        (''synchronizationPipeOut'', Arg_Integer 6), (''measurementPipe'', Arg_Integer 7), (''ordinal'', Arg_Uint32 0),
        (''engineIndex'', Arg_Uint32 0), (''copySize'', Arg_PositiveInteger 64)]"

lemma example_copy_values:
  "arg_int example_copy_arguments ''iterations'' = 3" "arg_int example_copy_arguments ''synchronize'' = 1"
  "wrap_i32 (arg_int example_copy_arguments ''synchronizationPipeIn'') = 5"
  "wrap_i32 (arg_int example_copy_arguments ''synchronizationPipeOut'') = 6"
  "wrap_i32 (arg_int example_copy_arguments ''measurementPipe'') = 7"
  "validateArguments (\<lambda>_. True) example_copy_arguments = Ok True"
  by code_simp+

lemma example_levelzero_groups:
  "\<exists>lz. make_LevelZero [example_driver] 0 0 example_queue example_context ExtensionProperties_create = Ok lz \<and> queue_groups lz \<noteq> []"
proof -
  have s: "example_context = \<lparr>ctx_deviceSelection = DS_Root, ctx_requireCreationSuccess = True, ctx_createContext = True, ctx_fakeSubDeviceAllowed = False\<rparr>"
    "example_queue = \<lparr>qp_createQueue = True, qp_requireCreationSuccess = True, qp_selectedEngine = Ccs1, qp_deviceSelection = DS_Root\<rparr>"
    by (simp_all add: example_context_def make_ContextProperties_def example_queue_def make_QueueProperties_def)
  have d: "drv_devices example_driver = [7]" "drv_queue example_driver 0 = 20" "drv_groups example_driver 7 \<noteq> []"
    by (simp_all add: example_driver_def)
  show ?thesis
    by (simp add: make_LevelZero_def s d L0_create_objects_def L0_getDevice_def L0_createContext_def L0_createQueue_def L0_createQueue_desc_def
        L0_fresh_def L0_set_queue_def initializeImportHostPointerExtension_def ExtensionProperties_create_def example_properties queue_groups_def)
qed

theorem driver_workloads_complete_witness:
  "\<exists>lz code sync io ts. make_LevelZero [example_driver] 0 0 example_queue example_context ExtensionProperties_create = Ok lz \<and>
     Workload_run (\<lambda>_. ''0'') (Some (as_implementation make_Configuration (copy_run (Ok lz) (\<lambda>_ _. (0, 1)) WorkloadStatistics_push)))
       (\<lambda>_. True) example_copy_arguments ''$$$'' = Ok (code, sync, io) \<and>
     sync_output io = ''$$$'' \<and> sync_input io = [] \<and>
     measurements_output io = concat (map (\<lambda>t. to_string t @ '' '') ts) \<and> (\<forall>t \<in> set ts. 0 < t) \<and>
     length ts = (if code = 0 then 3 else 0)"
proof -
  obtain lz where lz: "make_LevelZero [example_driver] 0 0 example_queue example_context ExtensionProperties_create = Ok lz"
    "queue_groups lz \<noteq> []" using example_levelzero_groups by blast
  from driver_workloads_complete [of "copy_run (Ok lz) (\<lambda>_ _. (0, 1)) WorkloadStatistics_push" "Ok lz" "\<lambda>_ _. (0, 1)" undefined "\<lambda>_ _. 1"
      lz 3 example_copy_arguments "\<lambda>_. True" "\<lambda>_. ''0''" make_Configuration] lz
  show ?thesis by (simp add: example_copy_values synchronizationChar_def numeral_3_eq_3)
qed

end
