(* ===== verification/Multiprocess_Benchmark.thy ===== *)
theory Multiprocess_Benchmark
  imports Barrier Driver_Workloads Device_Selection
begin

text \<open>
  The tests of \<open>benchmarks/multiprocess_benchmark\<close> that start processes: the choice of the tiles and engines the processes
  work on, the shares of the buffers they have in common, the command lines they get, and the run of the group.

  What the children do is an argument, a function on the group for each iteration that fills their pipes. The driver's answers are
  arguments too.
\<close>

section \<open>Tiles\<close>

fun all_available :: "nat \<Rightarrow> DeviceSelection list \<Rightarrow> bool result" where
  "all_available actualSubDevicesCount [] = Ok True"
| "all_available actualSubDevicesCount (d # ds) =
     bindR (getSubDeviceIndex d) (\<lambda>i. if i \<ge> actualSubDevicesCount then Ok False else all_available actualSubDevicesCount ds)"

definition getSubDevicesForExecution :: "DeviceSelection \<Rightarrow> nat \<Rightarrow> nat \<Rightarrow> DeviceSelection list result" where
  "getSubDevicesForExecution selection processesPerDevice actualSubDevicesCount =
     bindR (split_selection selection) (\<lambda>subDevicesForExecution.
     bindR (all_available actualSubDevicesCount subDevicesForExecution) (\<lambda>ok.
       if \<not> ok then Ok []
       else let tilesForExecutionCount = length subDevicesForExecution
            in Ok (fold (\<lambda>_ xs. fold (\<lambda>j xs. xs @ [xs ! j]) [0..<tilesForExecutionCount] xs) [1..<processesPerDevice]
                 subDevicesForExecution)))"

definition createAffinityMask :: "nat \<Rightarrow> DeviceSelection \<Rightarrow> string result" where
  "createAffinityMask rootDeviceIndex selection =
     bindR (split_selection selection) (\<lambda>subDevicesSplit.
       foldM (\<lambda>res i. bindR (getSubDeviceIndex (subDevicesSplit ! i)) (\<lambda>subDeviceIndex.
           Ok (res @ to_string (int rootDeviceIndex) @ ''.'' @ to_string (int subDeviceIndex) @
             (if i \<noteq> length subDevicesSplit - 1 then '','' else []))))
         [] [0..<length subDevicesSplit])"

definition createProcessName :: "DeviceSelection list \<Rightarrow> nat \<Rightarrow> string result" where
  "createProcessName subDevicesForExecution processIndex =
     bindR (DS_toString (subDevicesForExecution ! processIndex)) (\<lambda>s.
       Ok (''process'' @ to_string (int processIndex) @ '' ('' @ s @ '')''))"

section \<open>Buffers shared by the processes of a tile\<close>

record BufferForSubDevice =
  bs_buffer :: int
  sizeForOneProcess :: nat
  totalSize :: nat
  fileDescriptor :: int
  currentProcessesCount :: nat

definition getNextOffset :: "BufferForSubDevice \<Rightarrow> nat \<times> BufferForSubDevice" where
  "getNextOffset b = (sizeForOneProcess b * currentProcessesCount b mod 2 ^ 64,
     b\<lparr>currentProcessesCount := (currentProcessesCount b + 1) mod 2 ^ 64\<rparr>)"

text \<open>
  \<open>allocate\<close> and \<open>ipc_handle\<close> answer with a return code and the buffer or the descriptor in its handle. The result is the
  return code and the buffers made so far.
\<close>

fun allocate_buffers ::
  "(DeviceSelection \<Rightarrow> nat \<Rightarrow> int \<times> int) \<Rightarrow> (int \<Rightarrow> int \<times> int) \<Rightarrow> nat \<Rightarrow> nat \<Rightarrow> (DeviceSelection \<rightharpoonup> BufferForSubDevice)
    \<Rightarrow> DeviceSelection list \<Rightarrow> int \<times> (DeviceSelection \<rightharpoonup> BufferForSubDevice)" where
  "allocate_buffers allocate ipc_handle one totalBytes out [] = (0, out)"
| "allocate_buffers allocate ipc_handle one totalBytes out (d # ds) =
     (case allocate d totalBytes of (code, buffer) \<Rightarrow>
        if code \<noteq> 0 then (code, out)
        else case ipc_handle buffer of (code, fd) \<Rightarrow>
          if code \<noteq> 0 then (code, out)
          else allocate_buffers allocate ipc_handle one totalBytes
                 (out(d \<mapsto> \<lparr>bs_buffer = buffer, sizeForOneProcess = one, totalSize = totalBytes, fileDescriptor = fd,
                    currentProcessesCount = 0\<rparr>)) ds)"

definition allocateSharedBuffersForSubDevices ::
  "(DeviceSelection \<Rightarrow> nat \<Rightarrow> int \<times> int) \<Rightarrow> (int \<Rightarrow> int \<times> int) \<Rightarrow> DeviceSelection \<Rightarrow> nat \<Rightarrow> nat \<Rightarrow> nat
    \<Rightarrow> (int \<times> (DeviceSelection \<rightharpoonup> BufferForSubDevice)) result" where
  "allocateSharedBuffersForSubDevices allocate ipc_handle selection processesPerSubDevice workgroupsPerProcess threadsPerWorkgroup =
     bindR (split_selection selection) (\<lambda>ds.
       let one = workgroupsPerProcess * threadsPerWorkgroup * 4 mod 2 ^ 64;
           totalBytes = one * processesPerSubDevice mod 2 ^ 64
       in Ok (allocate_buffers allocate ipc_handle one totalBytes Map.empty ds))"

text \<open>The loop over the processes takes the descriptor and the next offset of the buffer of each one's tile.\<close>

fun take_shares :: "(DeviceSelection \<rightharpoonup> BufferForSubDevice) \<Rightarrow> DeviceSelection list \<Rightarrow> (int \<times> nat) list result" where
  "take_shares buffers [] = Ok []"
| "take_shares buffers (d # ds) =
     (case buffers d of
        None \<Rightarrow> Inl (Undefined_behaviour ''descriptor of no buffer'')
      | Some b \<Rightarrow>
          (case getNextOffset b of (offset, b') \<Rightarrow>
             bindR (take_shares (buffers(d \<mapsto> b')) ds) (\<lambda>shares. Ok ((fileDescriptor b, offset) # shares))))"

section \<open>Engines\<close>

text \<open>\<open>EngineInfo\<close> is an ordinal with an index.\<close>

type_synonym EngineInfo = "nat \<times> nat"

definition insertToEngineInfoList :: "nat \<Rightarrow> nat \<Rightarrow> EngineInfo list" where
  "insertToEngineInfoList queues groupIndex = map (\<lambda>j. (groupIndex, j)) [0..<queues]"

text \<open>The two queries of the queue groups; \<open>codes\<close> are what they return.\<close>

definition query_groups ::
  "int \<times> int \<Rightarrow> ze_command_queue_group_properties list \<Rightarrow> (ze_command_queue_group_properties list option) result" where
  "query_groups codes groups =
     (if fst codes \<noteq> 0 then Ok None
      else FATAL_ERROR_IF (groups = []) ''No queue group properties found!''
             (if snd codes \<noteq> 0 then Ok None else Ok (Some groups)))"

definition listed_engines :: "(32 word \<Rightarrow> bool) \<Rightarrow> ze_command_queue_group_properties list \<Rightarrow> EngineInfo list" where
  "listed_engines wanted groups =
     concat (map (\<lambda>i. if wanted (flags (groups ! i)) then insertToEngineInfoList (numQueues (groups ! i)) i else [])
       [0..<length groups])"

text \<open>\<open>test\<close> throws for a position beyond the 32 bits of the mask.\<close>

fun apply_mask :: "32 word \<Rightarrow> nat \<Rightarrow> EngineInfo list \<Rightarrow> EngineInfo list result" where
  "apply_mask engineMask position [] = Ok []"
| "apply_mask engineMask position (e # es) =
     (if position \<ge> 32 then Inl Out_of_range
      else bindR (apply_mask engineMask (position + 1) es) (\<lambda>es'. Ok (if bit engineMask position then e # es' else es')))"

definition found_engines :: "EngineInfo list \<Rightarrow> TestResult \<times> EngineInfo list" where
  "found_engines supportedEngineInfo = (if length supportedEngineInfo > 0 then Success else Error, supportedEngineInfo)"

definition getComputeEngineInfo ::
  "int \<times> int \<Rightarrow> ze_command_queue_group_properties list \<Rightarrow> (TestResult \<times> EngineInfo list) result" where
  "getComputeEngineInfo codes groups =
     bindR (query_groups codes groups) (\<lambda>answer.
       case answer of
         None \<Rightarrow> Ok (Error, [])
       | Some groups \<Rightarrow> Ok (found_engines (listed_engines (\<lambda>f. f AND FLAG_COMPUTE = FLAG_COMPUTE) groups)))"

definition getEngineInfo ::
  "int \<times> int \<Rightarrow> ze_command_queue_group_properties list \<Rightarrow> string \<Rightarrow> 32 word \<Rightarrow> (TestResult \<times> EngineInfo list) result" where
  "getEngineInfo codes groups engineGroup engineMask =
     bindR (query_groups codes groups) (\<lambda>answer.
       case answer of
         None \<Rightarrow> Ok (Error, [])
       | Some groups \<Rightarrow>
           bindR (apply_mask engineMask 0 (listed_engines
               (if engineGroup = ''Compute'' then (\<lambda>f. f AND FLAG_COMPUTE = FLAG_COMPUTE) else (\<lambda>f. f = FLAG_COPY)) groups))
             (\<lambda>es. Ok (found_engines es)))"

definition engine_of_process :: "EngineInfo list \<Rightarrow> nat \<Rightarrow> EngineInfo" where
  "engine_of_process supportedEngineInfo i = supportedEngineInfo ! (i mod length supportedEngineInfo)"

section \<open>Groups\<close>

definition workloadOperationsCount :: nat where "workloadOperationsCount = 500000"
definition workloadWorkgroupSize :: nat where "workloadWorkgroupSize = 256"

definition addArgumentsAll :: "ProcessGroup \<Rightarrow> (string \<times> string) list \<Rightarrow> ProcessGroup" where
  "addArgumentsAll g kvs = foldl (\<lambda>g (k, v). addArgumentAll g k v) g kvs"

definition each_process :: "ProcessGroup \<Rightarrow> (nat \<Rightarrow> Process \<Rightarrow> Process) \<Rightarrow> ProcessGroup" where
  "each_process g f = g\<lparr>processes := map (\<lambda>(i, p). f i p) (List.enumerate 0 (processes g))\<rparr>"

definition multi_process_init_group :: "nat \<Rightarrow> int \<Rightarrow> ProcessGroup" where
  "multi_process_init_group numberOfProcesses initFlag =
     each_process (addArgumentsAll (make_ProcessGroup ''init_workload_l0'' numberOfProcesses) [(''initFlag'', to_string initFlag)])
       (\<lambda>i p. setName p (''L0 Init Process #'' @ to_string (int i)))"

definition on_engine :: "EngineInfo list \<Rightarrow> nat \<Rightarrow> Process \<Rightarrow> Process" where
  "on_engine es i p =
     (case engine_of_process es i of (groupIndex, engineIndex) \<Rightarrow>
        addArguments (setName p (''p:'' @ to_string (int i) @ ''|o:'' @ to_string (int groupIndex) @ ''|i:'' @ to_string (int engineIndex)))
          [(''ordinal'', to_string (int groupIndex)), (''engineIndex'', to_string (int engineIndex))])"

definition submission_group :: "nat \<Rightarrow> nat \<Rightarrow> EngineInfo list \<Rightarrow> ProcessGroup" where
  "submission_group numberOfProcesses iterations es =
     each_process (addArgumentsAll (make_ProcessGroup ''immediate_cmdlist_walker_submission_workload_l0'' numberOfProcesses)
         [(''iterations'', to_string (int iterations)), (''synchronize'', ''1'')])
       (on_engine es)"

definition completion_group :: "nat \<Rightarrow> nat \<Rightarrow> nat \<Rightarrow> EngineInfo list \<Rightarrow> ProcessGroup" where
  "completion_group numberOfProcesses iterations copySize es =
     addArgumentsAll (each_process (addArgumentsAll (make_ProcessGroup ''immediate_cmdlist_copy_workload_l0'' numberOfProcesses)
         [(''iterations'', to_string (int iterations)), (''synchronize'', ''1'')])
       (on_engine es)) [(''copySize'', to_string (int copySize))]"

definition enough_processes :: "EngineInfo list \<Rightarrow> nat \<Rightarrow> nat \<Rightarrow> bool" where
  "enough_processes es processesPerEngine numberOfProcesses \<longleftrightarrow>
     \<not> length es * processesPerEngine mod 2 ^ 64 > numberOfProcesses"

text \<open>\<open>names\<close> and \<open>masks\<close> are what \<open>createProcessName\<close> and \<open>createAffinityMask\<close> return for each process.\<close>

definition compute_group :: "nat \<Rightarrow> bool \<Rightarrow> nat \<Rightarrow> nat \<Rightarrow> string list \<Rightarrow> string list \<Rightarrow> ProcessGroup" where
  "compute_group iterations synchronized operationsPerKernelCount workgroupsPerProcess names masks =
     each_process (addArgumentsAll (make_ProcessGroup ''single_queue_workload_l0'' (length names))
         [(''iterations'', to_string (int iterations)), (''synchronize'', if synchronized then ''1'' else ''0''),
          (''operationsCount'', to_string (int operationsPerKernelCount)), (''wgc'', to_string (int workgroupsPerProcess)),
          (''wgs'', to_string (int workloadWorkgroupSize))])
       (\<lambda>i p. setName (addEnvVariable p ''ZE_AFFINITY_MASK'' (masks ! i)) (names ! i))"

definition shared_buffer_group :: "nat \<Rightarrow> bool \<Rightarrow> nat \<Rightarrow> string list \<Rightarrow> string list \<Rightarrow> (int \<times> nat) list \<Rightarrow> ProcessGroup" where
  "shared_buffer_group iterations synchronized workgroupsPerProcess names masks shares =
     each_process (addArgumentsAll (make_ProcessGroup ''single_queue_workload_shared_buffer_l0'' (length names))
         [(''iterations'', to_string (int iterations)), (''synchronize'', if synchronized then ''1'' else ''0''),
          (''operationsCount'', to_string (int workloadOperationsCount)), (''wgc'', to_string (int workgroupsPerProcess)),
          (''wgs'', to_string (int workloadWorkgroupSize))])
       (\<lambda>i p. case shares ! i of (fd, offset) \<Rightarrow>
          setName (addEnvVariable (addArguments (addHandleForInheritance p fd)
            [(''bufferIpcHandle'', to_string fd), (''bufferOffset'', to_string (int offset))]) ''ZE_AFFINITY_MASK'' (masks ! i)) (names ! i))"

section \<open>Runs\<close>

definition synchronizeAll_calls :: "(nat \<Rightarrow> ProcessGroup \<Rightarrow> ProcessGroup) \<Rightarrow> nat \<Rightarrow> ProcessGroup \<Rightarrow> ProcessGroup result" where
  "synchronizeAll_calls children iterations g = foldM (\<lambda>g i. synchronizeAll_iteration (children i g)) g [0..<iterations]"

text \<open>The part all tests end with. \<open>children iterations\<close> is what the processes do after the last signal.\<close>

definition run_processes ::
  "('s \<Rightarrow> Measurement \<Rightarrow> 's result) \<Rightarrow> run_outcome list \<Rightarrow> (nat \<Rightarrow> ProcessGroup \<Rightarrow> ProcessGroup) \<Rightarrow> bool \<Rightarrow> nat \<Rightarrow> ProcessGroup \<Rightarrow> 's
    \<Rightarrow> (int \<times> 's) result" where
  "run_processes push outcomes children synchronized iterations g stats =
     bindR (runAll g outcomes) (\<lambda>(_, g).
     bindR (if synchronized then synchronizeAll_calls children iterations g else Ok g) (\<lambda>g.
     bindR (waitForFinishAll (children iterations g)) (\<lambda>g.
     bindR (getResultAll g) (\<lambda>(result, g).
       if result \<noteq> int (TestResult_code Success) then Ok (result, stats)
       else bindR (pushMeasurementsToStatistics push g iterations stats Microseconds Cpu (ProcessGroup_size g > 1) True) (\<lambda>(stats, _).
              Ok (int (TestResult_code Success), stats))))))"

section \<open>The shares of a buffer are disjoint\<close>

text \<open>The buffers \<open>B\<close> of the tiles \<open>D\<close> after \<open>cnt\<close> processes of each tile took their share.\<close>

definition taken :: "(DeviceSelection \<Rightarrow> BufferForSubDevice) \<Rightarrow> (DeviceSelection \<Rightarrow> nat) \<Rightarrow> DeviceSelection set
    \<Rightarrow> DeviceSelection \<rightharpoonup> BufferForSubDevice" where
  "taken B cnt D d = (if d \<in> D then Some ((B d)\<lparr>currentProcessesCount := cnt d\<rparr>) else None)"

lemma take_shares_counts:
  assumes "set xs \<subseteq> D" "\<And>d. cnt d + count_list xs d < 2 ^ 64"
    and "\<And>d. sizeForOneProcess (B d) * (cnt d + count_list xs d) < 2 ^ 64"
  shows "take_shares (taken B cnt D) xs =
    Ok (map (\<lambda>i. (fileDescriptor (B (xs ! i)), sizeForOneProcess (B (xs ! i)) * (cnt (xs ! i) + count_list (take i xs) (xs ! i))))
      [0..<length xs])"
  using assms
proof (induction xs arbitrary: cnt)
  case (Cons x xs)
  let ?cnt = "cnt(x := cnt x + 1)"
  have c: "?cnt d + count_list xs d = cnt d + count_list (x # xs) d" for d by simp
  have "sizeForOneProcess (B x) * cnt x \<le> sizeForOneProcess (B x) * (cnt x + count_list (x # xs) x)"
    by (intro mult_le_mono2) simp
  then have "sizeForOneProcess (B x) * cnt x < 2 ^ 64" using Cons.prems(3) [of x] by (rule le_less_trans)
  moreover have "cnt x + 1 < 2 ^ 64" using Cons.prems(2) [of x] by simp
  moreover have "(taken B cnt D)(x \<mapsto> (B x)\<lparr>currentProcessesCount := cnt x + 1\<rparr>) = taken B ?cnt D"
    using Cons.prems(1) by (auto simp: taken_def)
  moreover have "take_shares (taken B ?cnt D) xs = Ok (map (\<lambda>i. (fileDescriptor (B (xs ! i)),
      sizeForOneProcess (B (xs ! i)) * (?cnt (xs ! i) + count_list (take i xs) (xs ! i)))) [0..<length xs])"
    by (rule Cons.IH) (use Cons.prems c in \<open>simp_all del: fun_upd_apply count_list.simps\<close>)
  ultimately show ?case
    using Cons.prems(1)
    by (simp add: taken_def [of B cnt D x] getNextOffset_def upt_conv_Cons map_Suc_upt [symmetric] comp_def del: upt_Suc)
qed simp

lemma duplicate_once: "k \<le> length xs \<Longrightarrow> fold (\<lambda>j xs. xs @ [xs ! j]) [0..<k] xs = xs @ take k xs"
  by (induction k) (simp_all add: take_Suc_conv_app_nth nth_append)

lemma duplicate_all:
  "fold (\<lambda>_ xs. fold (\<lambda>j xs. xs @ [xs ! j]) [0..<length ds] xs) l (ds @ ys) = ds @ ys @ concat (replicate (length l) ds)"
proof (induction l arbitrary: ys)
  case (Cons a l)
  show ?case using Cons.IH [of "ys @ ds"] by (simp add: duplicate_once)
qed simp

lemma getSubDevicesForExecution_eq:
  assumes "getSubDevicesForExecution selection p n = Ok xs" "xs \<noteq> []" "0 < p" "split_selection selection = Ok ds"
  shows "xs = concat (replicate p ds)"
proof -
  have "fold (\<lambda>_ xs. fold (\<lambda>j xs. xs @ [xs ! j]) [0..<length ds] xs) [1..<p] ds = concat (replicate (Suc (p - 1)) ds)"
    using duplicate_all [of ds "[1..<p]" "[]"] by simp
  then show ?thesis using assms
    by (auto simp: getSubDevicesForExecution_def bindR_eq_Inr Let_def split: if_splits)
qed

lemma count_list_concat_replicate: "count_list (concat (replicate p ds)) d = p * count_list ds d"
  by (induction p) simp_all

lemma count_list_distinct: "distinct ds \<Longrightarrow> count_list ds d \<le> 1"
  by (induction ds) (auto simp: count_notin)

lemma count_list_take_less:
  assumes "i < j" "j \<le> length xs"
  shows "count_list (take i xs) (xs ! i) < count_list (take j xs) (xs ! i)"
proof -
  have "take j xs = take i xs @ xs ! i # drop (Suc i) (take j xs)"
    using assms id_take_nth_drop [of i "take j xs"] by (simp add: min_def)
  then have "count_list (take j xs) (xs ! i) = count_list (take i xs) (xs ! i) + Suc (count_list (drop (Suc i) (take j xs)) (xs ! i))"
    by (metis count_list.simps(2) count_list_append add_Suc_right Suc_eq_plus1)
  then show ?thesis by simp
qed

lemma allocate_buffers_ok:
  assumes "allocate_buffers allocate ipc_handle one totalBytes out ds = (0, m)"
  shows "\<exists>B. (\<forall>d. sizeForOneProcess (B d) = one \<and> totalSize (B d) = totalBytes) \<and>
    m = (\<lambda>d. if d \<in> set ds then Some ((B d)\<lparr>currentProcessesCount := 0\<rparr>) else out d)"
  using assms
proof (induction ds arbitrary: out)
  case Nil
  then show ?case by (auto intro!: exI [of _ "\<lambda>_. \<lparr>bs_buffer = 0, sizeForOneProcess = one, totalSize = totalBytes, fileDescriptor = 0, currentProcessesCount = 0\<rparr>"])
next
  case (Cons d ds)
  then obtain b fd where s: "allocate_buffers allocate ipc_handle one totalBytes (out(d \<mapsto> \<lparr>bs_buffer = b, sizeForOneProcess = one,
      totalSize = totalBytes, fileDescriptor = fd, currentProcessesCount = 0\<rparr>)) ds = (0, m)"
    by (auto split: prod.splits if_splits)
  obtain B where B: "\<forall>d. sizeForOneProcess (B d) = one \<and> totalSize (B d) = totalBytes"
    "m = (\<lambda>d'. if d' \<in> set ds then Some ((B d')\<lparr>currentProcessesCount := 0\<rparr>) else (out(d \<mapsto> \<lparr>bs_buffer = b, sizeForOneProcess = one,
      totalSize = totalBytes, fileDescriptor = fd, currentProcessesCount = 0\<rparr>)) d')" using Cons.IH [OF s] by blast
  show ?case
    by (rule exI [of _ "if d \<in> set ds then B else B(d := \<lparr>bs_buffer = b, sizeForOneProcess = one, totalSize = totalBytes,
        fileDescriptor = fd, currentProcessesCount = 0\<rparr>)"]) (use B in \<open>auto simp: fun_eq_iff\<close>)
qed

text \<open>
  C18: The processes that share the buffer of a tile write to disjoint parts of it: for any selection of tiles, number of processes per
  tile and size of the work that does not overflow, if the buffers could be allocated then every process gets the descriptor
  of the buffer of its tile, its share lies inside the buffer, and the shares of two processes of one tile do not meet.
\<close>

theorem shared_buffers_disjoint:
  assumes "allocateSharedBuffersForSubDevices allocate ipc_handle selection p wgc wgs = Ok (0, buffers)"
    and "getSubDevicesForExecution selection p n = Ok xs" "xs \<noteq> []" "0 < p" "p < 2 ^ 64" "wgc * wgs * 4 * p < 2 ^ 64"
  shows "\<exists>shares. take_shares buffers xs = Ok shares \<and> length shares = length xs \<and>
    (\<forall>i < length xs. \<exists>b. buffers (xs ! i) = Some b \<and> fst (shares ! i) = fileDescriptor b \<and> sizeForOneProcess b = wgc * wgs * 4 \<and>
       snd (shares ! i) + sizeForOneProcess b \<le> totalSize b \<and>
       (\<forall>j < length xs. j \<noteq> i \<and> xs ! j = xs ! i \<longrightarrow>
          snd (shares ! i) + sizeForOneProcess b \<le> snd (shares ! j) \<or> snd (shares ! j) + sizeForOneProcess b \<le> snd (shares ! i)))"
proof -
  let ?one = "wgc * wgs * 4"
  obtain ds where ds: "split_selection selection = Ok ds" "distinct ds" by (auto simp: split_selection_eq distinct_map inj_on_def device_inject)
  have "?one \<le> ?one * p" using \<open>0 < p\<close> by (cases p) simp_all
  then have "?one < 2 ^ 64" using assms(6) by (rule le_less_trans)
  note size = mod_less [OF this] mod_less [OF assms(6)]
  have alloc: "allocate_buffers allocate ipc_handle ?one (?one * p) Map.empty ds = (0, buffers)"
    using assms(1) ds(1) unfolding allocateSharedBuffersForSubDevices_def Let_def size by simp
  from allocate_buffers_ok [OF alloc] obtain B where B0: "(\<forall>d. sizeForOneProcess (B d) = ?one \<and> totalSize (B d) = ?one * p) \<and>
    buffers = (\<lambda>d. if d \<in> set ds then Some ((B d)\<lparr>currentProcessesCount := 0\<rparr>) else Map.empty d)" ..
  then have B: "sizeForOneProcess (B d) = ?one" "totalSize (B d) = ?one * p"
    "buffers = (\<lambda>d. if d \<in> set ds then Some ((B d)\<lparr>currentProcessesCount := 0\<rparr>) else None)" for d by simp_all
  have xs: "xs = concat (replicate p ds)" by (rule getSubDevicesForExecution_eq [OF assms(2-4) ds(1)])
  have sub: "set xs \<subseteq> set ds" unfolding xs by auto
  have count: "count_list xs d \<le> p" for d
    using count_list_concat_replicate [of p ds d] count_list_distinct [OF ds(2)] unfolding xs by (simp add: mult_le_cancel1)
  define off where "off i = ?one * count_list (take i xs) (xs ! i)" for i
  have taken: "buffers = taken B (\<lambda>_. 0) (set ds)" using B(3) by (auto simp: taken_def fun_eq_iff)
  have bound: "?one * k < 2 ^ 64" if "k \<le> p" for k
    using mult_le_mono2 [OF that, of ?one] assms(6) by (rule le_less_trans)
  have "0 + count_list xs d < 2 ^ 64" "sizeForOneProcess (B d) * (0 + count_list xs d) < 2 ^ 64" for d
    unfolding B(1) add_0 by (rule le_less_trans [OF count assms(5)], rule bound [OF count])
  from take_shares_counts [OF sub this]
  have shares: "take_shares buffers xs = Ok (map (\<lambda>i. (fileDescriptor (B (xs ! i)), off i)) [0..<length xs])"
    unfolding taken off_def by (simp add: B(1))
  have less: "off i + ?one \<le> off j" if "i < j" "j \<le> length xs" "xs ! j = xs ! i" for i j
  proof -
    have "Suc (count_list (take i xs) (xs ! i)) \<le> count_list (take j xs) (xs ! i)" using count_list_take_less [OF that(1,2)] by simp
    then have "?one * Suc (count_list (take i xs) (xs ! i)) \<le> ?one * count_list (take j xs) (xs ! i)" by (rule mult_le_mono2)
    then show ?thesis using that(3) by (simp add: off_def)
  qed
  have inside: "off i + ?one \<le> ?one * p" if "i < length xs" for i
  proof -
    have "?one * Suc (count_list (take i xs) (xs ! i)) \<le> ?one * p"
      using count_list_take_less [OF that order_refl] count [of "xs ! i"] by (intro mult_le_mono2) simp
    then show ?thesis by (simp add: off_def)
  qed
  have "xs ! i \<in> set ds" if "i < length xs" for i using sub that by auto
  then show ?thesis
    unfolding shares using less inside by (auto simp: B nat_neq_iff)
qed

lemma two_tiles:
  "split_selection (DS_or DS_Tile0 DS_Tile1) = Ok [DS_Tile0, DS_Tile1]"
  "getSubDevicesForExecution (DS_or DS_Tile0 DS_Tile1) 2 2 = Ok [DS_Tile0, DS_Tile1, DS_Tile0, DS_Tile1]"
  by code_simp+

text \<open>Two processes on each of two tiles, with one work group of 256 items each.\<close>

theorem shared_buffers_disjoint_witness:
  "\<exists>buffers shares. allocateSharedBuffersForSubDevices (\<lambda>d size. (0, int (unat d))) (\<lambda>b. (0, b + 100)) (DS_or DS_Tile0 DS_Tile1) 2 1 256 =
       Ok (0, buffers) \<and>
     take_shares buffers [DS_Tile0, DS_Tile1, DS_Tile0, DS_Tile1] = Ok shares \<and>
     (snd (shares ! 0) + 1024 \<le> snd (shares ! 2) \<or> snd (shares ! 2) + 1024 \<le> snd (shares ! 0))"
proof -
  let ?xs = "[DS_Tile0, DS_Tile1, DS_Tile0, DS_Tile1]"
  obtain buffers where b: "allocateSharedBuffersForSubDevices (\<lambda>d size. (0, int (unat d))) (\<lambda>b. (0, b + 100)) (DS_or DS_Tile0 DS_Tile1) 2 1 256 =
      Ok (0, buffers)" by (simp add: allocateSharedBuffersForSubDevices_def two_tiles(1))
  obtain shares where s: "take_shares buffers ?xs = Ok shares"
    "\<forall>i < length ?xs. \<exists>b. buffers (?xs ! i) = Some b \<and> fst (shares ! i) = fileDescriptor b \<and> sizeForOneProcess b = 1 * 256 * 4 \<and>
       snd (shares ! i) + sizeForOneProcess b \<le> totalSize b \<and>
       (\<forall>j < length ?xs. j \<noteq> i \<and> ?xs ! j = ?xs ! i \<longrightarrow>
          snd (shares ! i) + sizeForOneProcess b \<le> snd (shares ! j) \<or> snd (shares ! j) + sizeForOneProcess b \<le> snd (shares ! i))"
    using shared_buffers_disjoint [OF b two_tiles(2)] by auto
  from s(2) [rule_format, of 0] have "snd (shares ! 0) + 1024 \<le> snd (shares ! 2) \<or> snd (shares ! 2) + 1024 \<le> snd (shares ! 0)"
    by (auto dest!: spec [of _ 2])
  with b s(1) show ?thesis by blast
qed

section \<open>Engines of the processes\<close>

lemma listed_engines_valid:
  "distinct (listed_engines wanted groups) \<and>
    (\<forall>e \<in> set (listed_engines wanted groups). fst e < length groups \<and> snd e < numQueues (groups ! fst e))"
proof -
  have "distinct (concat (map (\<lambda>i. if wanted (flags (groups ! i)) then insertToEngineInfoList (numQueues (groups ! i)) i else []) [0..<l]))"
    for l
    by (induction l) (auto simp: insertToEngineInfoList_def distinct_map inj_on_def)
  then show ?thesis by (auto simp: listed_engines_def insertToEngineInfoList_def split: if_splits)
qed

lemma apply_mask_subset:
  "apply_mask engineMask position es = Ok es' \<Longrightarrow> distinct es \<Longrightarrow> distinct es' \<and> set es' \<subseteq> set es"
proof (induction es arbitrary: position es')
  case (Cons e es)
  then obtain es1 where s: "apply_mask engineMask (position + 1) es = Ok es1" "es' = (if bit engineMask position then e # es1 else es1)"
    by (auto simp: bindR_eq_Inr split: if_splits)
  with Cons.IH [OF s(1)] Cons.prems(2) show ?case by auto
qed simp

lemma card_round_robin:
  assumes "e < k"
  shows "card {i. i < N \<and> i mod k = e} = N div k + (if e < N mod k then 1 else 0)"
proof (induction N)
  case (Suc N)
  have k: "0 < k" using assms by simp
  have "{i. i < Suc N \<and> i mod k = e} = (if N mod k = e then insert N {i. i < N \<and> i mod k = e} else {i. i < N \<and> i mod k = e})"
    by (auto simp: less_Suc_eq)
  then have "card {i. i < Suc N \<and> i mod k = e} = card {i. i < N \<and> i mod k = e} + (if N mod k = e then 1 else 0)" by simp
  then show ?case using Suc assms k by (auto simp: mod_Suc div_Suc split: if_splits)
qed (use assms in simp)

lemma found_engines_Success: "found_engines es = (Success, es') \<longleftrightarrow> es' = es \<and> es \<noteq> []"
  by (auto simp: found_engines_def)

lemma engines_valid:
  assumes "getComputeEngineInfo codes groups = Ok (Success, es) \<or> getEngineInfo codes groups engineGroup engineMask = Ok (Success, es)"
  shows "es \<noteq> [] \<and> distinct es \<and> (\<forall>e \<in> set es. fst e < length groups \<and> snd e < numQueues (groups ! fst e))"
  using assms apply_mask_subset listed_engines_valid
  by (fastforce simp: getComputeEngineInfo_def getEngineInfo_def query_groups_def FATAL_ERROR_IF_def bindR_eq_Inr found_engines_Success
      split: if_splits)

text \<open>
  C19: The tests of immediate command lists give every process an engine its workload accepts, and every selected engine its share: whenever the
  query of the engines succeeds, each process is put on a queue the device has, and if the test does not refuse to run, every
  engine gets at least the number of processes asked for, and the numbers of two engines differ by one at most.
\<close>

theorem engines_balanced:
  assumes "getComputeEngineInfo codes groups = Ok (Success, es) \<or> getEngineInfo codes groups engineGroup engineMask = Ok (Success, es)"
    and "enough_processes es processesPerEngine N" "length es * processesPerEngine < 2 ^ 64"
  shows "(\<forall>i. fst (engine_of_process es i) < length groups \<and>
      snd (engine_of_process es i) < numQueues (groups ! fst (engine_of_process es i))) \<and>
    (\<forall>e \<in> set es. card {i. i < N \<and> engine_of_process es i = e} \<in> {N div length es, N div length es + 1} \<and>
      processesPerEngine \<le> card {i. i < N \<and> engine_of_process es i = e})"
proof -
  note v = engines_valid [OF assms(1)]
  have k: "0 < length es" using v by simp
  have valid: "engine_of_process es i \<in> set es" for i using k by (simp add: engine_of_process_def)
  have "length es * processesPerEngine \<le> N" using assms(2,3) by (simp add: enough_processes_def)
  then have enough: "processesPerEngine \<le> N div length es" using k by (simp add: less_eq_div_iff_mult_less_eq mult.commute)
  have c: "card {i. i < N \<and> engine_of_process es i = e} = N div length es + (if j < N mod length es then 1 else 0)"
    if "e = es ! j" "j < length es" for e j
  proof -
    have "engine_of_process es i = e \<longleftrightarrow> i mod length es = j" for i
      using v that k by (simp add: engine_of_process_def nth_eq_iff_index_eq)
    then show ?thesis using card_round_robin [OF that(2), of N] by simp
  qed
  have "card {i. i < N \<and> engine_of_process es i = e} \<in> {N div length es, N div length es + 1} \<and>
      processesPerEngine \<le> card {i. i < N \<and> engine_of_process es i = e}" if "e \<in> set es" for e
  proof -
    obtain j where "e = es ! j" "j < length es" using \<open>e \<in> set es\<close> by (metis in_set_conv_nth)
    from c [OF this] enough show ?thesis by simp
  qed
  with valid v show ?thesis by blast
qed

text \<open>Five processes on the three copy engines two link queues and one main queue have.\<close>

theorem engines_balanced_witness:
  "\<exists>es. getEngineInfo (0, 0) [\<lparr>flags = 3, maxMemoryFillPatternSize = 16, numQueues = 4\<rparr>,
        \<lparr>flags = 2, maxMemoryFillPatternSize = 1, numQueues = 1\<rparr>, \<lparr>flags = 2, maxMemoryFillPatternSize = 1, numQueues = 2\<rparr>]
        ''Copy-Only'' 7 = Ok (Success, es) \<and> es = [(1, 0), (2, 0), (2, 1)] \<and>
     1 \<le> card {i. i < 5 \<and> engine_of_process es i = (2, 1)}"
proof -
  let ?g = "[\<lparr>flags = 3, maxMemoryFillPatternSize = 16, numQueues = 4\<rparr>,
        \<lparr>flags = 2, maxMemoryFillPatternSize = 1, numQueues = 1\<rparr>, \<lparr>flags = 2, maxMemoryFillPatternSize = 1, numQueues = 2\<rparr>]"
  have e: "getEngineInfo (0, 0) ?g ''Copy-Only'' 7 = Ok (Success, [(1, 0), (2, 0), (2, 1)])" by code_simp
  from engines_balanced [OF disjI2 [OF e], of 1 5] e show ?thesis by (simp add: enough_processes_def)
qed

section \<open>A group whose children expect more iterations than its parent\<close>

lemma group_init:
  assumes "sync_wf (c, started)"
  shows "group_inv n c (length started) (sync_init c started)" "sync_work (sync_init c started) = 0"
  using sync_init_inv [OF assms] by (auto simp: group_inv_def sync_init_def phase_ok_def waited_def signalled_def)

lemma group_work_bound:
  assumes "group_inv n c l s"
  shows "sync_work s \<le> n * (2 * l + 2) + l * (2 * c)"
proof -
  have l: "length (kids s) = l" using assms by (simp add: group_inv_def)
  have "iteration s * (2 * l + 2) + phase_work s \<le> n * (2 * l + 2)"
  proof (cases "iteration s = n")
    case True
    then show ?thesis using assms by (auto simp: group_inv_def phase_ok_def phase_work_def split: parent_phase.splits)
  next
    case False
    then have "iteration s < n" "phase_work s < 2 * l + 2"
      using assms by (auto simp: group_inv_def phase_ok_def phase_work_def split: parent_phase.splits)
    moreover from this(1) have "Suc (iteration s) * (2 * l + 2) \<le> n * (2 * l + 2)" by (intro mult_le_mono1) simp
    ultimately show ?thesis by simp
  qed
  moreover have "sum_list (map kid_work (kids s)) \<le> l * (2 * c)"
    using sum_list_mono [of "kids s" kid_work "\<lambda>_. 2 * c"] assms kid_inv_work
    by (force simp: group_inv_def in_set_conv_nth sum_list_triv)
  ultimately show ?thesis by (simp add: sync_work_def l)
qed

lemma group_run:
  assumes "(sync_step n ^^ m) (sync_init c started) s" "sync_wf (c, started)" "n < 2 ^ 32"
  shows "group_inv n c (length started) s \<and> sync_work s = m"
  using assms(1)
proof (induction m arbitrary: s)
  case 0
  then show ?case using group_init [OF assms(2)] by auto
next
  case (Suc m)
  from Suc.prems obtain t where "(sync_step n ^^ m) (sync_init c started) t" "sync_step n t s" by (rule relpowp_Suc_E)
  with Suc.IH [of t] sync_step_inv_work [OF _ assms(3)] show ?case by auto
qed

text \<open>Where no step is left, the parent is through and every child waits for a signal that will not come.\<close>

lemma group_stuck:
  assumes inv: "group_inv n c l s" and "n < c" and stuck: "\<And>s'. \<not> sync_step n s s'"
  shows "iteration s = n \<and> (\<forall>i < l. k_blocked (kids s ! i) \<and> announced (kids s ! i) = Suc n)"
proof -
  have kid: "kid_inv c (waited s i) (signalled s i) (kids s ! i)" if "i < l" for i using inv that by (simp add: group_inv_def)
  have s: "\<not> crashed s" "length (kids s) = l" using inv by (simp_all add: group_inv_def)
  have at_rest: "k_blocked (kids s ! i) \<and> signalled s i \<le> entered (kids s ! i)" if "i < l" "signalled s i < c" for i
  proof (rule ccontr)
    assume "\<not> ?thesis"
    then consider "\<not> k_blocked (kids s ! i)" | "k_blocked (kids s ! i)" "entered (kids s ! i) < signalled s i" by linarith
    then show False
    proof cases
      case 1
      then have "announced (kids s ! i) < c" using kid [OF that(1)] that(2) by (auto simp: kid_simps)
      with kid_announce_ok [OF kid [OF that(1)] 1] show False using s that(1) 1 stuck announce by metis
    next
      case 2
      then have "parentToChild (k_data (kids s ! i)) \<noteq> []" using kid [OF that(1)] by (auto simp: kid_inv_def)
      with kid_proceed_ok [OF kid [OF that(1)] 2(1)] show False using s that(1) 2(1) stuck proceed by metis
    qed
  qed
  show ?thesis
  proof (cases "phase s")
    case (Signalling j)
    then have "j \<le> length (kids s)" using inv by (simp add: group_inv_def phase_ok_def)
    then show ?thesis using s Signalling stuck signal signal_done by (metis le_neq_implies_less)
  next
    case (Waiting j)
    then have j: "j \<le> l" "iteration s \<le> n" "iteration s = n \<longrightarrow> j = 0" using inv by (auto simp: group_inv_def phase_ok_def)
    have sig: "signalled s i = iteration s" "waited s i = iteration s + (if i < j then 1 else 0)" for i
      using Waiting by (simp_all add: signalled_def waited_def)
    have blocked: "k_blocked (kids s ! i) \<and> announced (kids s ! i) = Suc (iteration s)" if "i < l" for i
      using at_rest [OF that] kid [OF that] j(2) assms(2) by (auto simp: sig kid_simps)
    have "iteration s = n"
    proof (rule ccontr)
      assume "iteration s \<noteq> n"
      then have less: "iteration s < n" using j by simp
      show False
      proof (cases "j = l")
        case True
        then show False using s less Waiting stuck wait_done by metis
      next
        case False
        then have "j < l" using j by simp
        then have "childToParent (k_data (kids s ! j)) \<noteq> []" using kid [of j] blocked [of j] by (simp add: kid_inv_def sig)
        with kid_wait_ok [OF kid [OF \<open>j < l\<close>]] show False using s less Waiting \<open>j < l\<close> stuck wait by metis
      qed
    qed
    with blocked show ?thesis by simp
  qed
qed

lemma group_gets_stuck:
  assumes "sync_wf (c, started)" "n < 2 ^ 32" "(sync_step n ^^ m) (sync_init c started) s"
  shows "\<exists>k s'. (sync_step n ^^ k) s s' \<and> (\<forall>s''. \<not> sync_step n s' s'')"
  using assms(3)
proof (induction "n * (2 * length started + 2) + length started * (2 * c) - m" arbitrary: m s rule: less_induct)
  case less
  show ?case
  proof (cases "\<exists>t. sync_step n s t")
    case True
    then obtain t where t: "sync_step n s t" ..
    then have run: "(sync_step n ^^ Suc m) (sync_init c started) t" using less.prems by auto
    then have "Suc m \<le> n * (2 * length started + 2) + length started * (2 * c)"
      using group_run [OF run assms(1,2)] group_work_bound by metis
    then obtain k s' where "(sync_step n ^^ k) t s'" "\<forall>s''. \<not> sync_step n s' s''" using less.hyps [OF _ run] by force
    then show ?thesis using t by (metis relpowp_Suc_I2)
  next
    case False
    then show ?thesis by (intro exI [of _ 0] exI [of _ s]) simp
  qed
qed

text \<open>An argument no token names keeps its value.\<close>

lemma arg_int_unparsed:
  assumes "parseArguments args cs = Ok (args', cs')" "list_all valid cs" "distinct (map cla_key cs)" "k \<notin> set (map cla_key cs)"
  shows "arg_int args' k = arg_int args k"
proof -
  have "mapM (parse_from cs) args = Ok args'" using assms(1) parseArguments_eq_Ok [OF assms(2,3)] by blast
  then have l: "list_all2 (\<lambda>a a'. parse_from cs a = Ok a') args args'" by (simp add: mapM_eq_Inr)
  have k: "key a' = key a \<and> (key a = k \<longrightarrow> a' = a)" if "parse_from cs a = Ok a'" for a a'
  proof
    show "key a' = key a" using parse_from_marks [OF that] by (rule conjunct1)
    show "key a = k \<longrightarrow> a' = a"
    proof
      assume "key a = k"
      then have "lookup_token cs (key a) = None" using assms(4) lookup_token_None_iff [of cs k] by simp
      then have "parse_from cs a = Ok a" by (simp add: parse_from_def)
      with that show "a' = a" by simp
    qed
  qed
  have "list_all2 (\<lambda>a a'. key a' = key a \<and> (key a = k \<longrightarrow> a' = a)) args args'" by (rule list_all2_mono [OF l]) (rule k)
  then have "map_option val (find (\<lambda>a. key a = k) args') = map_option val (find (\<lambda>a. key a = k) args)"
    by (induction rule: list_all2_induct) auto
  then show ?thesis by (simp add: arg_int_def cfg_int_def cfg_field_def)
qed

lemma multi_process_init_member:
  assumes "p \<in> set (processes (multi_process_init_group numberOfProcesses initFlag))"
  obtains name where "p = setName (addArguments (make_Process ''init_workload_l0'') [(''initFlag'', to_string initFlag)]) name"
  using assms
  by (auto simp: multi_process_init_group_def each_process_def addArgumentsAll_def addArgumentAll_def make_ProcessGroup_def
      addArguments_def in_set_enumerate_eq)

lemma multi_process_init_argv:
  assumes "p \<in> set (processes (multi_process_init_group numberOfProcesses initFlag))"
  shows "img_argv (child_image p fds) = ''init_workload_l0'' # map (\<lambda>(k, v). argument_for_exec (''--'' @ k, v))
    ((''initFlag'', to_string initFlag) # pipe_arguments fds)"
proof -
  obtain name where p: "p = setName (addArguments (make_Process ''init_workload_l0'') [(''initFlag'', to_string initFlag)]) name"
    using multi_process_init_member [OF assms] .
  have "img_argv (child_image (setName q name) fds) = img_argv (child_image q fds)" for q
    by (simp add: child_image_def Let_def setName_def addArgument_def)
  then show ?thesis using child_image_argv [of "''init_workload_l0''" "[(''initFlag'', to_string initFlag)]" fds] by (simp add: p)
qed

lemma multi_process_init_tokens:
  assumes "p \<in> set (processes (multi_process_init_group numberOfProcesses initFlag))"
    and "cla_parseArguments (img_argv (child_image p fds)) = Inr cs"
  shows "list_all valid cs" "map cla_key cs = [''initFlag'', ''synchronizationPipeIn'', ''synchronizationPipeOut'', ''measurementPipe'']"
proof -
  have t: "parseArgumentToKeyValue (argument_for_exec (''--'' @ k, v)) = Some (k, v)"
    if "k \<in> {''initFlag'', ''synchronizationPipeIn'', ''synchronizationPipeOut'', ''measurementPipe''}" for k v
    using that by (intro argument_for_exec_parse) auto
  have "cs = map make_CommandLineArgument (map (\<lambda>(k, v). argument_for_exec (''--'' @ k, v)) ((''initFlag'', to_string initFlag) # pipe_arguments fds))"
    using assms(2) unfolding multi_process_init_argv [OF assms(1)] by (simp only: parseArguments_accepts_iff drop_Suc_Cons drop_0 One_nat_def)
  then show "list_all valid cs" "map cla_key cs = [''initFlag'', ''synchronizationPipeIn'', ''synchronizationPipeOut'', ''measurementPipe'']"
    by (simp_all add: pipe_arguments_def make_CommandLineArgument_def t del: append_Cons append.simps)
qed

lemma multi_process_init_child_iterations:
  assumes "p \<in> set (processes (multi_process_init_group numberOfProcesses initFlag))"
    and "cla_parseArguments (img_argv (child_image p fds)) = Inr cs" "parseArguments make_InitArguments cs = Ok (arguments, cs')"
  shows "workload_sync arguments = make_WorkloadSynchronization 10 True"
proof -
  note t = multi_process_init_tokens [OF assms(1,2)]
  have "arg_int make_InitArguments ''iterations'' = 10" "arg_int make_InitArguments ''synchronize'' = 1" by code_simp+
  then have "arg_int arguments ''iterations'' = 10" "arg_int arguments ''synchronize'' = 1"
    using arg_int_unparsed [OF assms(3) t(1)] t(2) by simp_all
  then show ?thesis by (simp add: workload_sync_def)
qed

text \<open>
  C11: The test of the initialisation time never ends when it is asked for fewer than ten iterations: it does not pass the number on, so
  every process parses its command line to the default of ten. The parent synchronizes \<open>n\<close> times; in every interleaving
  the system then comes to a halt, after a bounded number of steps, and wherever it has halted the parent is through its
  iterations, ready to wait for the children to exit, and every child has announced one more and waits for its signal.
\<close>

theorem multi_process_init_hangs:
  assumes "p \<in> set (processes (multi_process_init_group N initFlag))" "cla_parseArguments (img_argv (child_image p fds)) = Inr cs"
      "parseArguments make_InitArguments cs = Ok (arguments, cs')"
    and "n < 10" "length started = N" "sync_wf (10, started)" "(sync_step n ^^ m) (sync_init 10 started) s"
  shows "workload_sync arguments = make_WorkloadSynchronization 10 True \<and>
    m \<le> n * (2 * N + 2) + 20 * N \<and>
    ((\<forall>s'. \<not> sync_step n s s') \<longrightarrow> iteration s = n \<and> (\<forall>i < N. k_blocked (kids s ! i) \<and> announced (kids s ! i) = Suc n)) \<and>
    (\<exists>k s'. (sync_step n ^^ k) s s' \<and> (\<forall>s''. \<not> sync_step n s' s''))"
proof -
  have n: "n < 2 ^ 32" using \<open>n < 10\<close> by simp
  have inv: "group_inv n 10 N s" "sync_work s = m" using group_run [OF assms(7,6) n] assms(5) by simp_all
  show ?thesis
    using multi_process_init_child_iterations [OF assms(1-3)] group_work_bound [OF inv(1)] inv(2) group_stuck [OF inv(1) assms(4)]
      group_gets_stuck [OF assms(6) n assms(7)]
    by (simp add: mult.commute)
qed

lemma example_init_parsed:
  "\<exists>cs arguments cs'. cla_parseArguments (img_argv (child_image (processes (multi_process_init_group 2 1) ! 0) (snd (example_started ! 0)))) = Inr cs \<and>
     parseArguments make_InitArguments cs = Ok (arguments, cs')"
proof -
  have "case cla_parseArguments (img_argv (child_image (processes (multi_process_init_group 2 1) ! 0) (snd (example_started ! 0)))) of
      Inl _ \<Rightarrow> False
    | Inr cs \<Rightarrow> (case parseArguments make_InitArguments cs of Inl _ \<Rightarrow> False | Inr _ \<Rightarrow> True)" by code_simp
  then show ?thesis by (auto split: sum.splits)
qed

theorem multi_process_init_hangs_witness:
  "\<exists>k s. (sync_step 1 ^^ k) (sync_init 10 example_started) s \<and> (\<forall>s'. \<not> sync_step 1 s s') \<and> iteration s = 1 \<and>
     announced (kids s ! 0) = 2 \<and> k_blocked (kids s ! 1)"
proof -
  let ?p = "processes (multi_process_init_group 2 1) ! 0"
  have p: "?p \<in> set (processes (multi_process_init_group 2 1))"
    by (rule nth_mem) (simp add: multi_process_init_group_def each_process_def addArgumentsAll_def addArgumentAll_def make_ProcessGroup_def)
  have l: "length example_started = 2" "sync_wf (10, example_started)" by (simp_all add: sync_wf_def example_started_def)
  obtain cs arguments cs' where c: "cla_parseArguments (img_argv (child_image ?p (snd (example_started ! 0)))) = Inr cs"
    "parseArguments make_InitArguments cs = Ok (arguments, cs')" using example_init_parsed by blast
  note hangs = multi_process_init_hangs [OF p c, of 1 example_started, OF _ l]
  from hangs [of 0 "sync_init 10 example_started"] obtain k s where
    s: "(sync_step 1 ^^ k) (sync_init 10 example_started) s" "\<forall>s'. \<not> sync_step 1 s s'" by auto
  with hangs [OF _ s(1)] show ?thesis by (auto simp: numeral_2_eq_2)
qed

end
