(* ===== verification/Argument_Types.thy ===== *)
theory Argument_Types
  imports Argument_Container
begin

text \<open>
  The types of arguments: what values the classes of arguments accept, stated by the ranges of their C++ members and by what their
  names promise, and that a container parsed from a command line and validated holds such values and no others.
\<close>

section \<open>Ranges\<close>

text \<open>The members: \<open>int64_t\<close>, \<open>uint32_t\<close>, \<open>int\<close>, \<open>std::bitset\<close> and three \<open>size_t\<close>. The others are words, strings or truth values.\<close>

definition in_size_t :: "int \<Rightarrow> bool" where
  "in_size_t v \<longleftrightarrow> 0 \<le> v \<and> v < 2 ^ 64"

fun three_sizes :: "three \<Rightarrow> bool" where
  "three_sizes (a, b, c) \<longleftrightarrow> in_size_t a \<and> in_size_t b \<and> in_size_t c"

fun well_typed :: "arg_value \<Rightarrow> bool" where
  "well_typed (Arg_Integer v) = in_i64 v"
| "well_typed (Arg_PositiveInteger v) = in_i64 v"
| "well_typed (Arg_FractionBase v) = in_i64 v"
| "well_typed (Arg_NonNegativeInteger v) = in_i64 v"
| "well_typed (Arg_ByteSize v) = in_i64 v"
| "well_typed (Arg_Uint32 v) = (0 \<le> v \<and> v < 2 ^ 32)"
| "well_typed (Arg_Boolean v) = in_i32 v"
| "well_typed (Arg_CompressionBoolean v) = in_i32 v"
| "well_typed (Arg_Bitmask bitsCount _ v _) = (v < 2 ^ bitsCount)"
| "well_typed (Arg_ThreeComponentUint v) = three_sizes v"
| "well_typed (Arg_ThreeComponentOffset v) = three_sizes v"
| "well_typed (Arg_ThreeComponentSize v) = three_sizes v"
| "well_typed _ = True"

lemma default_well_typed: "well_typed (default_value v)"
  by (cases v) (simp_all add: in_i64_def in_i32_def in_size_t_def)

lemma converted_ranges:
  "atol s = Ok v \<Longrightarrow> in_i64 v" "atoi s = Ok v \<Longrightarrow> in_i32 v"
  by (auto simp: atol_def atoi_def split: if_splits)

lemma wrapped_ranges: "in_i64 (wrap_i64 v)" "0 \<le> wrap_u32 v \<and> wrap_u32 v < 2 ^ 32" "in_size_t (wrap_u64 v)"
proof -
  show "0 \<le> wrap_u32 v \<and> wrap_u32 v < 2 ^ 32" by (simp add: wrap_u32_def)
  show "in_size_t (wrap_u64 v)" by (simp add: in_size_t_def wrap_u64_def)
  have "0 \<le> (v + 2 ^ 63) mod 2 ^ 64" "(v + 2 ^ 63) mod 2 ^ 64 < (2 :: int) ^ 64" by simp_all
  then show "in_i64 (wrap_i64 v)" by (auto simp: in_i64_def wrap_i64_def)
qed

lemma bits_of_string_less: "bits_of_string a s < 2 ^ length s * (a + 1)"
proof (induction s arbitrary: a)
  case (Cons c s)
  have "bits_of_string a (c # s) < 2 ^ length s * (2 * a + (if c = CHR ''1'' then 1 else 0) + 1)" using Cons by simp
  also have "\<dots> \<le> 2 ^ length s * (2 * a + 2)" by (intro mult_le_mono2) simp
  finally show ?case by (simp add: algebra_simps)
qed simp

lemma bitmask_less:
  assumes "old < 2 ^ bitsCount"
  shows "fst (BitmaskArgument_parseImpl bitsCount canBeAllZeros old s) < 2 ^ bitsCount"
proof (cases "length s \<le> bitsCount")
  case True
  have "bits_of_string 0 s < 2 ^ length s" using bits_of_string_less [of 0 s] by simp
  also have "(2 :: nat) ^ length s \<le> 2 ^ bitsCount" using True by simp
  finally show ?thesis using assms by (simp add: BitmaskArgument_parseImpl_def Let_def)
qed (use assms in \<open>simp add: BitmaskArgument_parseImpl_def\<close>)

lemma three_parsed: "ThreeComponentUintArgument_parseImpl s = Ok v \<Longrightarrow> three_sizes v"
  by (auto simp: ThreeComponentUintArgument_parseImpl_def Let_def FATAL_ERROR_IF_def bindR_eq_Inr wrapped_ranges split: if_splits)

lemma parseImpl_well_typed:
  assumes "parseImpl old s = Ok v" "well_typed old"
  shows "well_typed v"
proof (cases old)
  case (Arg_Bitmask bitsCount canBeAllZeros b ok)
  then show ?thesis using assms bitmask_less [of b bitsCount canBeAllZeros s] by (auto split: prod.splits)
qed (use assms in \<open>auto simp: bindR_eq_Inr IntegerArgumentBase_parseImpl_def Unsigned32BitArgumentBase_parseImpl_def
    BooleanArgument_parseImpl_def ByteSizeArgument_parseImpl_def wrapped_ranges wrap_u32_def intro: converted_ranges dest: three_parsed
    split: prod.splits option.splits\<close>)

section \<open>Usable values\<close>

text \<open>The bits of a device selection: the host is bit 0, the root device bit 1 and the tiles are the bits 2 to 5.\<close>

definition selects :: "32 word \<Rightarrow> nat set \<Rightarrow> bool" where
  "selects v A \<longleftrightarrow> v \<noteq> 0 \<and> (\<forall>i. bit v i \<longrightarrow> i \<in> A)"

definition selected_gpus :: "32 word \<Rightarrow> nat" where
  "selected_gpus v = card {i. 1 \<le> i \<and> i \<le> 5 \<and> bit v i}"

text \<open>
  What a test may rely on: a number in the range of its member, which is positive where the class says so, a flag that is zero or one,
  as many bits as the mask has, three positive components, an enumerator with a name, devices of the kinds the argument offers.
\<close>

fun usable :: "arg_value \<Rightarrow> bool" where
  "usable (Arg_Integer v) = in_i64 v"
| "usable (Arg_Uint32 v) = (0 \<le> v \<and> v < 2 ^ 32)"
| "usable (Arg_PositiveInteger v) = (0 < v \<and> v < 2 ^ 63)"
| "usable (Arg_FractionBase v) = (0 \<le> v \<and> v < 2 ^ 63)"
| "usable (Arg_NonNegativeInteger v) = (0 \<le> v \<and> v < 2 ^ 63)"
| "usable (Arg_ByteSize v) = (0 < v \<and> v < 2 ^ 63)"
| "usable (Arg_Boolean v) = (v \<in> {0, 1})"
| "usable (Arg_CompressionBoolean v) = (v \<in> {0, 1})"
| "usable (Arg_BooleanFlag v isValid) = (v \<and> isValid)"
| "usable (Arg_String _ isValid) = isValid"
| "usable (Arg_StringList _ isValid) = isValid"
| "usable (Arg_LongHex bytes) = (bytes \<noteq> [])"
| "usable (Arg_Bitmask bitsCount canBeAllZeros v isValid) = (isValid \<and> v < 2 ^ bitsCount \<and> (canBeAllZeros \<or> v \<noteq> 0))"
| "usable (Arg_ThreeComponentUint v) = three_sizes v"
| "usable (Arg_ThreeComponentOffset v) = three_sizes v"
| "usable (Arg_ThreeComponentSize v) = (three_sizes v \<and> (case v of (a, b, c) \<Rightarrow> 0 \<notin> {a, b, c}))"
| "usable (Arg_Enum e) = (e \<noteq> enum_default e \<and> is_ok (enum_toStringValue e))"
| "usable (Arg_MultiDeviceSelection v) = selects v {1..5}"
| "usable (Arg_MultipleTilesSelection v) = selects v {2..5}"
| "usable (Arg_UsmDeviceSelection v) = (selects v {0..5} \<and> selected_gpus v \<le> 1)"
| "usable (Arg_UsmSharedDeviceSelection v) = (selects v {0..5} \<and> bit v 0 \<and> selected_gpus v = 1)"

lemma lookup_name_iff: "length ns = length es \<Longrightarrow> (\<exists>n. lookup_name es ns v = Some n) \<longleftrightarrow> v \<in> set es"
  by (induction es ns v rule: lookup_name.induct) auto

lemma EnumArgument_validate_iff: "enum_wf t \<Longrightarrow> EnumArgument_validate t v \<longleftrightarrow> is_ok (EnumArgument_toStringValue t v)"
  using lookup_name_iff [of "enumValuesNames t" "enumValues t" v]
  by (auto simp: EnumArgument_validate_def EnumArgument_toStringValue_def enum_wf_def list_ex_iff split: option.split)

text \<open>The enumerator an argument starts with is in none of the tables.\<close>

lemma enum_default_invalid: "\<not> enum_validate (enum_default e)"
  by (cases e; simp only: enum_default.simps; code_simp)

lemma enum_validate_iff: "enum_validate e \<longleftrightarrow> e \<noteq> enum_default e \<and> is_ok (enum_toStringValue e)"
proof -
  have "enum_validate e \<longleftrightarrow> is_ok (enum_toStringValue e)"
    by (cases e) (simp_all add: EnumArgument_validate_iff enum_tables_wf device_tables_enum_wf)
  then show ?thesis using enum_default_invalid [of e] by metis
qed

lemma and_not_iff: "v AND NOT m = 0 \<longleftrightarrow> (\<forall>i. bit v i \<longrightarrow> bit m i)" for v m :: "32 word"
  using bit_imp_le_length [of v] by (auto simp: bit_eq_iff bit_simps)

lemma BitfieldEnumArgument_validate_iff:
  assumes "bitfield_wf t" "\<And>i. bit (BitfieldEnumArgument_getAllValuesSum t) i \<longleftrightarrow> i \<in> A"
  shows "BitfieldEnumArgument_validate t (\<lambda>_. Ok True) v = Ok True \<longleftrightarrow> selects v A"
proof -
  have z: "zeroEnumValue t = 0" using assms(1) by (simp add: bitfield_wf_def)
  have known: "v AND NOT (BitfieldEnumArgument_getAllValuesSum t) = 0 \<longleftrightarrow> (\<forall>i. bit v i \<longrightarrow> i \<in> A)" by (simp add: and_not_iff assms(2))
  have "filter (\<lambda>cur. v AND cur = cur) (enumValues t) \<noteq> [] \<longleftrightarrow> v \<noteq> 0"
    if k: "v AND NOT (BitfieldEnumArgument_getAllValuesSum t) = 0"
  proof
    assume "v \<noteq> 0"
    then have "bitfield_printable t v" using assms(1) k by (simp add: bitfield_printable_def)
    from enabled_or [OF this] \<open>v \<noteq> 0\<close> show "filter (\<lambda>cur. v AND cur = cur) (enumValues t) \<noteq> []" by auto
  next
    assume "filter (\<lambda>cur. v AND cur = cur) (enumValues t) \<noteq> []"
    then obtain cur where "cur \<in> set (enumValues t)" "v AND cur = cur" by (auto simp: filter_empty_conv)
    moreover from this(1) have "single_bit cur" using assms(1) by (auto simp: bitfield_wf_def list_all_iff)
    then have "cur \<noteq> 0" unfolding single_bit_iff by (metis bit_0_eq bot_apply bot_bool_def)
    ultimately show "v \<noteq> 0" by auto
  qed
  then show ?thesis
    by (auto simp: BitfieldEnumArgument_validate_def Let_def z selects_def simp flip: known)
qed

lemma table_bits:
  "bit (BitfieldEnumArgument_getAllValuesSum MultiDeviceSelectionArgument) i \<longleftrightarrow> i \<in> {1..5}"
  "bit (BitfieldEnumArgument_getAllValuesSum MultipleTilesSelectionArgument) i \<longleftrightarrow> i \<in> {2..5}"
proof -
  have b: "BitfieldEnumArgument_getAllValuesSum MultiDeviceSelectionArgument = mask 6 AND NOT (mask 1)"
    "BitfieldEnumArgument_getAllValuesSum MultipleTilesSelectionArgument = mask 6 AND NOT (mask 2)"
    by code_simp+
  show "bit (BitfieldEnumArgument_getAllValuesSum MultiDeviceSelectionArgument) i \<longleftrightarrow> i \<in> {1..5}"
    "bit (BitfieldEnumArgument_getAllValuesSum MultipleTilesSelectionArgument) i \<longleftrightarrow> i \<in> {2..5}"
    unfolding b by (auto simp: bit_simps)
qed

lemma usm_selects: "selects v {0..5} \<longleftrightarrow> devices_of v \<noteq> {} \<and> v AND NOT (mask 6) = 0"
proof -
  have m: "v AND NOT (mask 6) = 0 \<longleftrightarrow> (\<forall>i. bit v i \<longrightarrow> i \<in> {0..5})" by (auto simp: and_not_iff bit_simps)
  have "v \<noteq> 0 \<longleftrightarrow> devices_of v \<noteq> {}" if "\<forall>i. bit v i \<longrightarrow> i \<in> {0..5}"
  proof -
    have "i < 6 \<and> i < 32" if "bit v i" for i using that \<open>\<forall>i. bit v i \<longrightarrow> i \<in> {0..5}\<close> by fastforce
    then show ?thesis by (auto simp: devices_of_def bit_eq_iff)
  qed
  then show ?thesis unfolding m selects_def by auto
qed

lemma usm_gpus: "card (devices_of v - {0}) = selected_gpus v"
  unfolding selected_gpus_def by (rule arg_cong [where f = card]) (auto simp: devices_of_def)

lemma usm_validate_iff:
  "UsmDeviceSelectionArgument_validate v = Ok True \<longleftrightarrow> selects v {0..5} \<and> selected_gpus v \<le> 1"
  "UsmSharedDeviceSelectionArgument_validate v = Ok True \<longleftrightarrow> selects v {0..5} \<and> bit v 0 \<and> selected_gpus v = 1"
proof -
  have h: "0 \<in> devices_of v \<longleftrightarrow> bit v 0" by (simp add: devices_of_def)
  have z: "devices_of v = {0} \<longleftrightarrow> selected_gpus v = 0" if "bit v 0"
  proof -
    have "finite (devices_of v - {0})" by (simp add: devices_of_def)
    then have "selected_gpus v = 0 \<longleftrightarrow> devices_of v - {0} = {}" unfolding usm_gpus [symmetric] by (rule card_0_eq)
    then show ?thesis using that h by blast
  qed
  have "UsmDeviceSelectionArgument_validate v = Ok True \<longleftrightarrow>
      devices_of v \<noteq> {} \<and> v AND NOT (mask 6) = 0 \<and> selected_gpus v \<le> 1 \<and> (if bit v 0 then (if devices_of v = {0} then True else True) else True)"
    unfolding UsmDeviceSelectionArgument_validate_def UsmDeviceSelectionArgument_validate_iff usm_gpus h by simp
  then show "UsmDeviceSelectionArgument_validate v = Ok True \<longleftrightarrow> selects v {0..5} \<and> selected_gpus v \<le> 1"
    unfolding usm_selects by (simp only: if_cancel conj_assoc simp_thms)
  have "UsmSharedDeviceSelectionArgument_validate v = Ok True \<longleftrightarrow>
      devices_of v \<noteq> {} \<and> v AND NOT (mask 6) = 0 \<and> selected_gpus v \<le> 1 \<and> (if bit v 0 then (if devices_of v = {0} then False else True) else False)"
    unfolding UsmSharedDeviceSelectionArgument_validate_def UsmDeviceSelectionArgument_validate_iff usm_gpus h by simp
  also have "\<dots> \<longleftrightarrow> selects v {0..5} \<and> bit v 0 \<and> selected_gpus v = 1"
    unfolding usm_selects using z by (cases "bit v 0") (simp_all, linarith?)
  finally show "UsmSharedDeviceSelectionArgument_validate v = Ok True \<longleftrightarrow> selects v {0..5} \<and> bit v 0 \<and> selected_gpus v = 1" .
qed

text \<open>A value that was parsed into a fresh argument validates exactly when it is usable.\<close>

lemma parsed_usable:
  assumes "parseImpl (default_value old) s = Ok v"
  shows "validate v = Ok True \<longleftrightarrow> usable v"
proof -
  have t: "well_typed v" using assms default_well_typed by (rule parseImpl_well_typed)
  note bits = BitfieldEnumArgument_validate_iff [OF _ table_bits(1)] BitfieldEnumArgument_validate_iff [OF _ table_bits(2)]
  show ?thesis
  proof (cases v)
    case (Arg_Bitmask n z w ok)
    then show ?thesis using assms t
      by (cases old) (auto simp: bindR_eq_Inr BitmaskArgument_parseImpl_def Let_def split: if_splits prod.splits)
  next
    case (Arg_BooleanFlag w ok)
    then show ?thesis using assms
      by (cases old) (auto simp: bindR_eq_Inr BooleanFlagArgument_parseImpl_def StringArgument_parseImpl_def split: prod.splits)
  next
    case (Arg_ThreeComponentSize w)
    then show ?thesis using t by (cases w) (auto simp: ThreeComponentSizeArgument_validate_def in_size_t_def)
  qed (use t in \<open>auto simp: enum_validate_iff bits bitfield_tables_wf usm_validate_iff in_i64_def
      PositiveIntegerArgument_validate_def NonNegativeIntegerArgument_validate_def FractionBaseArgument_validate_def
      BooleanArgument_validate_def LongHexArgument_validate_def\<close>)
qed

section \<open>Containers\<close>

lemma validateArguments_iff:
  "validateArguments extra args = Ok True \<longleftrightarrow> (\<forall>a \<in> set args. validate (val a) = Ok True) \<and> extra args"
proof -
  have "validateAll args = Ok True \<longleftrightarrow> (\<forall>a \<in> set args. validate (val a) = Ok True)"
    by (induction args) (auto simp: bindR_eq_Inr)
  then show ?thesis by (auto simp: validateArguments_def bindR_eq_Inr split: if_splits)
qed

text \<open>
  C20: Accepted arguments have values of their types. When a command line with distinct keys is parsed into a fresh container, all
  arguments are parsed and the container validates exactly if every argument is given on the command line, each holds a value its class
  promises (in the range of the C++ member, positive where it must be, with bits, devices and enumerators that exist) and the
  additional check of the container holds.
\<close>

theorem accepted_arguments_usable:
  assumes "args = map (\<lambda>(k, h, v). make_Argument k h v) declared" "list_all valid cs" "distinct (map cla_key cs)"
    and "parseArguments args cs = Ok (args', cs')"
  shows "getUnparsedArguments args' = [] \<and> validateArguments extra args' = Ok True \<longleftrightarrow>
    (\<forall>(k, h, v) \<in> set declared. k \<in> set (map cla_key cs)) \<and> (\<forall>a \<in> set args'. usable (val a)) \<and> extra args'"
proof -
  have p: "mapM (parse_from cs) args = Ok args'" using assms(4) by (simp add: parseArguments_eq_Ok [OF assms(2,3)])
  have fresh: "\<not> parsed a \<and> default_value (val a) = val a" if "a \<in> set args" for a
    using that assms(1) by (auto simp: make_Argument_def default_value_idem)
  have "map key (getUnparsedArguments args') = filter (\<lambda>k. k \<notin> set (map cla_key cs)) (map key (getUnparsedArguments args))"
    by (rule mapM_parse_from_unparsed [OF p])
  moreover have "getUnparsedArguments args = args" using fresh by (auto simp: getUnparsedArguments_def filter_id_conv)
  moreover have "map key args = map fst declared" unfolding assms(1) by (auto simp: make_Argument_def)
  ultimately have given: "getUnparsedArguments args' = [] \<longleftrightarrow> (\<forall>(k, h, v) \<in> set declared. k \<in> set (map cla_key cs))"
    by (auto simp: filter_empty_conv simp flip: map_is_Nil_conv [of key])
  have "validate (val a') = Ok True \<longleftrightarrow> usable (val a')" if all: "getUnparsedArguments args' = []" and a': "a' \<in> set args'" for a'
  proof -
    obtain a where a: "a \<in> set args" "parse_from cs a = Ok a'"
      using p a' by (fastforce simp: mapM_eq_Inr list_all2_conv_all_nth in_set_conv_nth)
    have "parsed a'" using all a' by (auto simp: getUnparsedArguments_def filter_empty_conv)
    with a(2) fresh [OF a(1)] obtain s where "parseImpl (default_value (val a)) s = Ok (val a')"
      by (auto simp: parse_from_def assign_argument_def bindR_eq_Inr split: option.splits)
    then show ?thesis by (rule parsed_usable)
  qed
  then show ?thesis unfolding given [symmetric] validateArguments_iff by blast
qed

text \<open>A mask of nine is accepted with a positive count; a count of zero is parsed but not accepted.\<close>

definition example_declared :: "(string \<times> string option \<times> arg_value) list" where
  "example_declared = [(''count'', None, Arg_PositiveInteger 0), (''mask'', None, Arg_Bitmask 4 False 0 True)]"

definition example_accepts :: "string \<Rightarrow> bool option" where
  "example_accepts token =
     (case parseArguments (map (\<lambda>(k, h, v). make_Argument k h v) example_declared) (map make_CommandLineArgument [''--mask=1001'', token]) of
        Inl _ \<Rightarrow> None
      | Inr (args', _) \<Rightarrow> Some (getUnparsedArguments args' = [] \<and> validateArguments (\<lambda>_. True) args' = Ok True))"

theorem accepted_arguments_usable_witness:
  "example_accepts ''--count=7'' = Some True \<and> example_accepts ''--count=0'' = Some False"
proof -
  let ?cs = "\<lambda>token. map make_CommandLineArgument [''--mask=1001'', token]" and ?args = "map (\<lambda>(k, h, v). make_Argument k h v) example_declared"
  have t: "list_all valid (?cs token)" "distinct (map cla_key (?cs token))" "\<forall>(k, h, v) \<in> set example_declared. k \<in> set (map cla_key (?cs token))"
    if "token \<in> {''--count=7'', ''--count=0''}" for token
    using that by (elim insertE emptyE; simp only:; code_simp)+
  have r: "\<exists>args' cs'. parseArguments ?args (?cs token) = Ok (args', cs') \<and> map val args' = [Arg_PositiveInteger n, Arg_Bitmask 4 False 9 True]"
    if "(token, n :: int) \<in> {(''--count=7'', 7), (''--count=0'', 0)}" for token n
  proof -
    have "case parseArguments ?args (?cs token) of Inl _ \<Rightarrow> False | Inr (args', cs') \<Rightarrow> map val args' = [Arg_PositiveInteger n, Arg_Bitmask 4 False 9 True]"
      using that by (elim insertE emptyE; simp only: prod.inject; elim conjE; simp only:; code_simp)
    then show ?thesis by (auto split: sum.splits prod.splits)
  qed
  have "example_accepts token = Some (0 < n)" if tn: "(token, n :: int) \<in> {(''--count=7'', 7), (''--count=0'', 0)}" for token n
  proof -
    obtain args' cs' where p: "parseArguments ?args (?cs token) = Ok (args', cs')" "map val args' = [Arg_PositiveInteger n, Arg_Bitmask 4 False 9 True]"
      using r [OF tn] by (elim exE conjE) (rule that)
    have "token \<in> {''--count=7'', ''--count=0''}" "n \<in> {7, 0}" using tn by auto
    note t = t [OF this(1)]
    have "(\<forall>a \<in> set args'. usable (val a)) \<longleftrightarrow> list_all usable (map val args')" by (simp add: list_all_iff)
    also have "\<dots> \<longleftrightarrow> 0 < n" using \<open>n \<in> {7, 0}\<close> by (auto simp: p(2))
    finally show ?thesis
      using accepted_arguments_usable [OF refl t(1,2) p(1), of "\<lambda>_. True"] t(3) unfolding example_accepts_def p(1) by simp
  qed
  then show ?thesis by simp
qed

end
