(* ===== verification/Spec2Isabelle.thy ===== *)
theory Spec2Isabelle
  imports Engine_Queues Barrier Docs_Generator Gtest_Listener Math_Operations Memory_Helpers Heat3D_Exchange
    Process_Windows Mpi_Benchmark Intel_Product Level_Zero Opencl Usm_Helpers Clflush_Comparison Heat3D_Ipc Heat3D_Barrier
    Device_Contents Show_Devices Mutex_Comparison Hello_World Multiprocess_Benchmark Argument_Types
begin

text \<open>
  A verification development for the compute benchmarks.

  \<^bold>\<open>The program.\<close> A benchmark binary links the framework under \<open>src/source/framework\<close> with a set of test cases. Its
  driver parses the command line into a configuration and, in single-test mode, into the arguments
  of one test; it checks filters, capabilities and arguments, calls the implementation of the test for
  each chosen API, collects measurements in statistics and prints them. Tests that need several processes
  start workloads, child programs that are controlled through pipes, as a process group. A generator of
  documentation runs the binaries and collects what they print about their tests. The heat transfer
  and MPI workloads are such child programs; the ranks of the first exchange facets of their blocks through memory of each
  other and wait for each other on events that their parent signals.

  \<^bold>\<open>Theories and the sources they model.\<close>
  \<^item> \<open>Cpp_Prelude\<close>: what the sources use of C++: errors as values of a sum type, conversions between
    integer widths, number parsing and printing of the standard library. No file of its own.
  \<^item> \<open>String_Utils\<close>: \<open>utility/string_utils.h\<close>, \<open>hex_helper.h\<close>, \<open>bit_operations_helper.h\<close>,
    \<open>compiler_options_builder.cpp\<close>.
  \<^item> \<open>Device_Selection\<close>: \<open>enum/device_selection.h\<close>, a bit field of 32 bits, shown to implement sets of devices.
  \<^item> \<open>Enums\<close>: the enumerations under \<open>enum\<close>; \<open>Enum_Arguments\<close>: the tables of the argument classes under
    \<open>argument/enum\<close>.
  \<^item> \<open>Command_Line\<close>: \<open>utility/command_line_argument.cpp\<close>; \<open>Arguments\<close>: the argument classes;
    \<open>Argument_Container\<close>: their base class, virtual dispatch and the container, with the parsing loop shown
    to implement a lookup by key; \<open>Argument_Types\<close>: arguments that are parsed and validated hold values of their types.
  \<^item> \<open>Configuration\<close>: \<open>configuration.cpp\<close>.
  \<^item> \<open>Doubles\<close>: the rounding of IEEE binary64 and what it keeps. \<open>Statistics\<close>, \<open>Metrics\<close>: \<open>test_case/test_case_statistics.cpp\<close> and \<open>workload/workload_statistics.cpp\<close>.
  \<^item> \<open>Registries\<close>: the tables with one slot per API and \<open>benchmark_info.cpp\<close>.
  \<^item> \<open>Engine_Queues\<close>: the two \<open>queue_families_helper\<close> files.
  \<^item> \<open>Test_Case\<close>, \<open>Dump_Command_Line\<close>: \<open>test_case/test_case.h\<close>, the guards, the run of a test and the command line
    that reproduces it.
  \<^item> \<open>Benchmark_Main\<close>: \<open>benchmark_main.cpp\<close>; \<open>Gtest_Listener\<close>: \<open>gtest_event_listener.h\<close> as functions of
    the events googletest reports; \<open>Docs_Generator\<close>: \<open>src/source/docs_generator\<close>.
  \<^item> \<open>Workload\<close>: \<open>workload/workload.h\<close> and the Linux pipes of the child; \<open>Process_Group\<close>:
    \<open>utility/process.cpp\<close>, \<open>process_group.cpp\<close> and \<open>linux/process_linux.cpp\<close> of the parent; \<open>Barrier\<close>: the
    interleaving of \<open>synchronizeAll\<close> with the children as a step relation.
  \<^item> \<open>Math_Operations\<close>: \<open>utility/math_operation_helper.cpp\<close> and the kernel options of the atomic benchmark;
    \<open>Memory_Helpers\<close>: \<open>cpu_allocation_helper.cpp\<close>, \<open>image_helper.cpp\<close>, \<open>buffer_contents_helper.cpp\<close>.
  \<^item> \<open>Process_Windows\<close>: \<open>utility/windows/process_windows.cpp\<close> and the pipes of a child on Windows, compared with those
    of Linux, and the race of the reading thread with the waiting parent as a step relation.
  \<^item> \<open>Mpi_Workload\<close>, \<open>Mpi_Benchmark\<close>: \<open>workloads/mpi_workload_l0\<close>, the eight tests of \<open>benchmarks/mpi_benchmark\<close> and their
    launcher.
  \<^item> \<open>Intel_Product\<close>: the tables of devices and products under \<open>intel_product\<close> and their lookups.
  \<^item> \<open>Level_Zero\<close>, \<open>Opencl\<close>: the wrappers \<open>l0/levelzero.cpp\<close> and \<open>ocl/opencl.cpp\<close> over a driver that is a parameter;
    \<open>Usm_Helpers\<close>: allocation and release of memory through Level Zero, OpenCL and SYCL over an explicit memory.
  \<^item> \<open>Heat3D\<close>, \<open>Heat3D_Exchange\<close>: \<open>workloads/heat3d_workload_l0\<close> with its kernels, first one rank and then all
    ranks together; \<open>Ipc\<close>: \<open>utility/linux/ipc.cpp\<close>, sockets, messages with descriptors and handles as text;
    \<open>Heat3D_Ipc\<close>: the two ways in which the ranks exchange handles of their receive buffers; \<open>Heat3D_Barrier\<close>: the
    barrier of the ranks and their parent on events, with the time steps between, as a step relation. The step relation shows
    that the order \<open>Heat3D\<close> assumes for a time step, all ranks unpack before any sends again, is not enforced by the code.
  \<^item> \<open>Device_Contents\<close>: the helpers that fill buffers of a device, \<open>buffer_contents_helper_ocl.cpp\<close> and
    \<open>buffer_contents_helper_l0.cpp\<close>; \<open>Error_Codes\<close>: the names of the drivers' return codes.
  \<^item> \<open>Clflush_Comparison\<close>, \<open>Mutex_Comparison\<close>, \<open>Show_Devices\<close>: the tools \<open>clflush_comparison\<close>, \<open>mutex_comparison\<close>,
    \<open>show_devices_l0\<close> and \<open>show_devices_ocl\<close>.
  \<^item> \<open>Driver_Helpers\<close>: the timer, the power meter, files, and the helpers for extensions, images, compression, programs and
    profiling of both drivers. \<open>Driver_Programs\<close>: programs of driver calls in continuation passing style, with a rule for
    each kind of step; \<open>Driver_Workloads\<close>: the five workloads on Level Zero queues as such programs; \<open>Hello_World\<close>: the
    example workloads on OpenCL.
  \<^item> \<open>Multiprocess_Benchmark\<close>: the tests of \<open>benchmarks/multiprocess_benchmark\<close> that start these workloads: tiles, engines,
    shared buffers, command lines and the run of the group.

  \<^bold>\<open>How code is represented.\<close> A class is a record and a method a function from the record to the record and the
  result. \<open>FATAL_ERROR\<close>, exceptions and undefined behaviour are left values of the type \<open>result\<close>. Text written to
  the standard output is part of the result; the error stream is left out. Machine integers are words where
  bits or the width matter (device selections, the parameters of the heat workload, loop counters) and
  otherwise integers with the reduction written out. A double is the real number it
  stands for, an infinity or not a number, and every operation rounds its exact result to nearest, ties to even; the sign of a
  zero is not kept. Temperatures are of any type with the arithmetic operations and no laws.
  Code that is not in the repository is a parameter: drivers, googletest, the implementation of a test, the
  random generator, the address of an allocation, the results of system calls.

  \<^bold>\<open>Interfaces.\<close> The locale \<open>argument_codec\<close> states that printing and parsing a value are inverse and is
  interpreted for each argument class; \<open>statistics\<close> is the contract of both statistics classes; \<open>api_slots\<close> that
  of the three tables indexed by an API; \<open>queue_helper\<close> that of the queue selection of both drivers;
  \<open>bounded_system\<close> gives termination and absence of deadlock for a step relation whose steps do one unit of a bounded
  work each, and is interpreted for the barrier of the framework and for the one of the heat workload; \<open>device_source\<close> is
  what both driver wrappers promise about their devices; \<open>memory_helper\<close> is the contract of allocation and release,
  interpreted for the helpers of Level Zero, OpenCL, reused host pointers and SYCL.

  \<^bold>\<open>What the lemmas show.\<close> Round trips: arguments, enumerations, bit fields, byte sizes, a dumped command line,
  the documentation, the arguments and measurements of child processes. Error behaviour: exactly which
  command lines, values and documents are refused. Functional behaviour: what the statistics accept and store, metrics with the number of roundings, results of process
  groups, filters, the reports of the listener, the expected values of mathematical operations.
  Refinement: parsing by loops and lookup by key, device bit fields and sets, the neighbours of a rank and the
  torus. Equivalence: a time step of the heat workload and a sweep of the stencil over the block, the two exchanges of memory
  handles, a child on Windows and a child on Linux without descriptors.
  Invariants and safety: the cache of random bytes, the barrier in all interleavings, queues of
  different engines, memory accesses of the heat workload, allocations given back to where they came from, the
  facets a rank unpacks, the shares of the processes on a buffer of their tile. Types: the values of accepted arguments.
  Termination and liveness: both barriers complete, a workload on Level Zero queues never leaves its parent waiting
  whatever its driver answers, the test of the initialisation time hangs for fewer than ten iterations, and filling a buffer with
  increasing bytes ends exactly for sizes below \<open>2 ^ 32\<close>.

  \<^bold>\<open>Bounds.\<close> Loops that may not end are partial functions into \<open>option\<close>; the loop that skips line ends is bounded by
  the length of the input, which it shortens with each read. No other definition uses fuel. The workloads are for fewer
  than \<open>2 ^ 32\<close> iterations, the range of their loop counters. The
  results on the heat workload hold for at most \<open>2 ^ 31\<close> ranks, at least two mesh points per direction and
  rank and meshes of fewer than \<open>2 ^ 16\<close> points per direction, so that a facet has fewer than \<open>2 ^ 32\<close>
  points, the width in which the code counts them.

  \<^bold>\<open>Idealised.\<close> A dumped command line is split at white space, without quotes or characters special to a shell. Kernels and
  copies of a rank run in the order in which they are enqueued. The steps of the barriers are calls together with the internal
  steps of the processes. A connection over sockets is made in one step.

  \<^bold>\<open>Not modelled.\<close> What consists of calls of libraries only: the initialisation of SYCL and Unified Runtime (\<open>sycl\<close>,
  \<open>ur\<close>) and what prints their devices, the implementations of the other tests, the tool for SYCL devices; of the heat and MPI
  workloads the set-up and release of driver objects. Messages to the error stream, the release of handles on
  Windows and the closing of descriptors are left out.
\<close>

end
